(* ===== verification/Bridge_Prelude.thy ===== *)
theory Bridge_Prelude
  imports Main "HOL-Library.Word"
begin

text \<open>
  Shared vocabulary of the development.

  The relayer is TypeScript. A function that may \<^verbatim>\<open>throw\<close> is a function into the sum type
  \<open>'e + 'a\<close> (\<open>Inl\<close> the error, \<open>Inr\<close> the returned value), composed with \<open>andThen\<close> and \<open>require\<close>.
  A handler that also drives ports (journal, signer, node) is an action \<open>'s \<Rightarrow> ('e + 'a) \<times> 's\<close>:
  effects performed before a \<^verbatim>\<open>throw\<close> stay in the state, as they do in the program.

  Values: a \<^verbatim>\<open>bigint\<close> is an \<open>int\<close>; a \<^verbatim>\<open>number\<close> is the \<open>int\<close> it denotes, and every guard
  \<^verbatim>\<open>Number.isSafeInteger\<close> is kept (fractions, NaN and infinities fail that guard exactly as an
  unsafe integer does); a \<^verbatim>\<open>Buffer\<close> or \<^verbatim>\<open>Uint8Array\<close> is a list of 8-bit words; a string is a
  list of code units below 256, enough for the hexadecimal and decimal text the code handles.

  The second half holds the Node primitives the sources use on such values (hexadecimal
  conversion, lower-casing, trimming, big-endian integers, decimal text) with their round-trip
  lemmas, and the interface locales the components instantiate.
\<close>

unbundle bit_operations_syntax

named_theorems result_simps \<open>inversion of composed fallible computations\<close>
named_theorems hex_simps \<open>hexadecimal text and byte conversions\<close>

type_synonym byte = "8 word"
type_synonym bytes = "byte list"


section \<open>Fallible computations\<close>

fun andThen :: "'e + 'a \<Rightarrow> ('a \<Rightarrow> 'e + 'b) \<Rightarrow> 'e + 'b" where
  "andThen (Inl e) f = Inl e"
| "andThen (Inr x) f = f x"

definition require :: "bool \<Rightarrow> 'e \<Rightarrow> 'e + 'a \<Rightarrow> 'e + 'a" where
  "require c e k = (if c then k else Inl e)"

fun mapR :: "('a \<Rightarrow> 'e + 'b) \<Rightarrow> 'a list \<Rightarrow> 'e + 'b list" where
  "mapR f [] = Inr []"
| "mapR f (x # xs) = andThen (f x) (\<lambda>y. andThen (mapR f xs) (\<lambda>ys. Inr (y # ys)))"

definition isOk :: "'e + 'a \<Rightarrow> bool" where
  "isOk r = (case r of Inl _ \<Rightarrow> False | Inr _ \<Rightarrow> True)"

lemma andThen_Inr_iff [result_simps]:
  "andThen m f = Inr y \<longleftrightarrow> (\<exists>x. m = Inr x \<and> f x = Inr y)"
  by (cases m) auto

lemma andThen_Inl_iff:
  "andThen m f = Inl e \<longleftrightarrow> m = Inl e \<or> (\<exists>x. m = Inr x \<and> f x = Inl e)"
  by (cases m) auto

lemma andThen_assoc: "andThen (andThen m f) g = andThen m (\<lambda>x. andThen (f x) g)"
  by (cases m) auto

lemma require_Inr_iff [result_simps]: "require c e k = Inr y \<longleftrightarrow> c \<and> k = Inr y"
  by (simp add: require_def)

lemma andThenE: "andThen m f = Inr y \<Longrightarrow> (\<And>x. m = Inr x \<Longrightarrow> f x = Inr y \<Longrightarrow> P) \<Longrightarrow> P"
  by (cases m) auto

lemma andThenPairE:
  "andThen m (\<lambda>(a, b). f a b) = Inr y \<Longrightarrow> (\<And>a b. m = Inr (a, b) \<Longrightarrow> f a b = Inr y \<Longrightarrow> P) \<Longrightarrow> P"
  by (cases m) (auto split: prod.splits)

lemma requireE: "require c e k = Inr y \<Longrightarrow> (c \<Longrightarrow> k = Inr y \<Longrightarrow> P) \<Longrightarrow> P"
  by (simp add: require_Inr_iff)

lemma casePairE:
  "(case t of (a, b) \<Rightarrow> f a b) = y \<Longrightarrow> (\<And>a b. t = (a, b) \<Longrightarrow> f a b = y \<Longrightarrow> P) \<Longrightarrow> P"
  by (cases t) auto

lemma require_True [simp]: "require True e k = k"
  and require_False [simp]: "require False e k = Inl e"
  by (simp_all add: require_def)

lemma isOk_iff: "isOk r \<longleftrightarrow> (\<exists>x. r = Inr x)"
  by (cases r) (auto simp: isOk_def)

lemma isOk_Inr [simp]: "isOk (Inr x)" and isOk_Inl [simp]: "\<not> isOk (Inl e)"
  by (simp_all add: isOk_def)

lemma mapR_Inr_length: "mapR f xs = Inr ys \<Longrightarrow> length ys = length xs"
  by (induction xs arbitrary: ys) (auto simp: result_simps)

lemma mapR_Inr_nth: "mapR f xs = Inr ys \<Longrightarrow> i < length xs \<Longrightarrow> f (xs ! i) = Inr (ys ! i)"
proof (induction xs arbitrary: ys i)
  case Nil
  then show ?case by simp
next
  case (Cons x xs)
  then show ?case by (cases i) (auto simp: result_simps)
qed

lemma mapR_Inr_set: "mapR f xs = Inr ys \<Longrightarrow> y \<in> set ys \<Longrightarrow> \<exists>x \<in> set xs. f x = Inr y"
  by (induction xs arbitrary: ys) (auto simp: result_simps)

lemma mapR_Inr_set_in: "mapR f xs = Inr ys \<Longrightarrow> x \<in> set xs \<Longrightarrow> \<exists>y \<in> set ys. f x = Inr y"
  by (induction xs arbitrary: ys) (auto simp: result_simps)

lemma mapR_map: "(\<And>x. x \<in> set xs \<Longrightarrow> f x = Inr (g x)) \<Longrightarrow> mapR f xs = Inr (map g xs)"
  by (induction xs) auto


section \<open>Stateful computations that may throw\<close>

type_synonym ('s, 'e, 'a) action = "'s \<Rightarrow> ('e + 'a) \<times> 's"

definition returnA :: "'a \<Rightarrow> ('s, 'e, 'a) action" where
  "returnA x = (\<lambda>s. (Inr x, s))"

definition throwA :: "'e \<Rightarrow> ('s, 'e, 'a) action" where
  "throwA e = (\<lambda>s. (Inl e, s))"

definition liftA :: "'e + 'a \<Rightarrow> ('s, 'e, 'a) action" where
  "liftA r = (\<lambda>s. (r, s))"

definition bindA :: "('s, 'e, 'a) action \<Rightarrow> ('a \<Rightarrow> ('s, 'e, 'b) action) \<Rightarrow> ('s, 'e, 'b) action" where
  "bindA m f = (\<lambda>s. case m s of (Inl e, s') \<Rightarrow> (Inl e, s') | (Inr x, s') \<Rightarrow> f x s')"

lemma bindA_Inr_iff [result_simps]:
  "bindA m f s = (Inr y, s'') \<longleftrightarrow> (\<exists>x s'. m s = (Inr x, s') \<and> f x s' = (Inr y, s''))"
  by (cases "m s"; cases "fst (m s)") (auto simp: bindA_def split: sum.splits)

lemma returnA_iff [result_simps]: "returnA x s = (r, s') \<longleftrightarrow> r = Inr x \<and> s' = s"
  by (auto simp: returnA_def)

lemma throwA_iff [result_simps]: "throwA e s = (r, s') \<longleftrightarrow> r = Inl e \<and> s' = s"
  by (auto simp: throwA_def)

lemma liftA_iff [result_simps]: "liftA r0 s = (r, s') \<longleftrightarrow> r = r0 \<and> s' = s"
  by (auto simp: liftA_def)


section \<open>Safe integers\<close>

definition MAX_SAFE_INTEGER :: int where
  "MAX_SAFE_INTEGER = 9007199254740991"

definition isSafeInteger :: "int \<Rightarrow> bool" where
  "isSafeInteger n \<longleftrightarrow> - MAX_SAFE_INTEGER \<le> n \<and> n \<le> MAX_SAFE_INTEGER"

definition isNonnegSafe :: "int \<Rightarrow> bool" where
  "isNonnegSafe n \<longleftrightarrow> isSafeInteger n \<and> \<not> n < 0"

definition MAX_SIGNED_LONG :: int where
  "MAX_SIGNED_LONG = 0x7fffffffffffffff"

lemmas safe_defs = isSafeInteger_def isNonnegSafe_def MAX_SAFE_INTEGER_def

text \<open>BigInt division truncates towards zero.\<close>

definition tdiv :: "int \<Rightarrow> int \<Rightarrow> int" where
  "tdiv a b = sgn a * sgn b * (\<bar>a\<bar> div \<bar>b\<bar>)"

lemma tdiv_nonneg: "0 \<le> a \<Longrightarrow> 0 \<le> b \<Longrightarrow> tdiv a b = a div b"
  by (cases "a = 0"; cases "b = 0") (auto simp: tdiv_def sgn_if)


text \<open>The sum of two numbers in double precision: exact up to \<open>2 ^ 53\<close>, rounded to the nearest representable value (ties to
  even) beyond.\<close>

fun bitLength :: "nat \<Rightarrow> nat" where
  "bitLength n = (if n = 0 then 0 else Suc (bitLength (n div 2)))"

declare bitLength.simps [simp del]

definition roundDouble :: "int \<Rightarrow> int" where
  "roundDouble v =
     (if \<bar>v\<bar> \<le> 2 ^ 53 then v
      else let n = nat \<bar>v\<bar>; e = bitLength n - 53; q = n div 2 ^ e; r = n mod 2 ^ e; half = 2 ^ (e - 1)
           in sgn v * int ((if r > half \<or> (r = half \<and> odd q) then q + 1 else q) * 2 ^ e))"

definition numberAdd :: "int \<Rightarrow> int \<Rightarrow> int" where
  "numberAdd a b = roundDouble (a + b)"

lemma numberAdd_safe: "isSafeInteger (a + b) \<Longrightarrow> numberAdd a b = a + b"
  by (auto simp: numberAdd_def roundDouble_def safe_defs)


section \<open>Bits of integers\<close>

lemma and_127: "(x::int) AND 127 = x mod 128"
  using take_bit_eq_mask [of 7 x] by (simp add: take_bit_eq_mod mask_eq_exp_minus_1)

lemma and_128: "0 \<le> (x::int) \<Longrightarrow> x < 256 \<Longrightarrow> x AND 128 = 0 \<longleftrightarrow> x < 128"
  using and_exp_eq_0_iff_not_bit [of x 7] by (simp add: bit_iff_odd) presburger

lemma or_push_bit: "0 \<le> (u::int) \<Longrightarrow> u < 2 ^ k \<Longrightarrow> u OR push_bit k x = u + x * 2 ^ k"
proof -
  assume u: "0 \<le> u" "u < 2 ^ k"
  then have "take_bit k u = u" by (simp add: take_bit_int_eq_self)
  then have "\<not> bit u n \<or> \<not> bit (push_bit k x) n" for n
    by (metis bit_push_bit_iff bit_take_bit_iff linorder_not_less)
  then have "u + push_bit k x = u OR push_bit k x"
    by (simp add: disjunctive_add)
  then show ?thesis by (simp add: push_bit_eq_mult)
qed

lemma xor_minus_1: "(x::int) XOR -1 = - x - 1"
  by (simp add: not_int_def)

lemma uint_of_int_byte: "0 \<le> x \<Longrightarrow> x < 256 \<Longrightarrow> uint (of_int x :: byte) = x"
  by (simp add: uint_word_of_int)

lemma uint_byte_bounds [simp]: "0 \<le> uint (b :: byte)" "uint (b :: byte) < 256"
  using unsigned_less [of b, where 'a = int] by auto


section \<open>Hexadecimal text\<close>

definition code :: "char \<Rightarrow> nat" where
  "code c = of_char c"

definition hexVal :: "char \<Rightarrow> nat option" where
  "hexVal c = (let n = code c in
     if 48 \<le> n \<and> n \<le> 57 then Some (n - 48)
     else if 97 \<le> n \<and> n \<le> 102 then Some (n - 87)
     else if 65 \<le> n \<and> n \<le> 70 then Some (n - 55)
     else None)"

definition isHexChar :: "char \<Rightarrow> bool" where
  "isHexChar c \<longleftrightarrow> hexVal c \<noteq> None"

text \<open>\<open>isLowerHexChar\<close> is the class \<^verbatim>\<open>[0-9a-f]\<close>, \<open>isHexChar\<close> the class \<^verbatim>\<open>[0-9a-fA-F]\<close>.\<close>

definition isLowerHexChar :: "char \<Rightarrow> bool" where
  "isLowerHexChar c \<longleftrightarrow> (48 \<le> code c \<and> code c \<le> 57) \<or> (97 \<le> code c \<and> code c \<le> 102)"

definition hexDigit :: "nat \<Rightarrow> char" where
  "hexDigit n = char_of (if n < 10 then 48 + n else 87 + n)"

text \<open>\<^verbatim>\<open>String.prototype.toLowerCase\<close> on code units below 256.\<close>

definition lowerChar :: "char \<Rightarrow> char" where
  "lowerChar c = (let n = code c in
     if 65 \<le> n \<and> n \<le> 90 \<or> 192 \<le> n \<and> n \<le> 222 \<and> n \<noteq> 215 then char_of (n + 32) else c)"

abbreviation lowerStr :: "string \<Rightarrow> string" where
  "lowerStr \<equiv> map lowerChar"

text \<open>\<^verbatim>\<open>Buffer.toString('hex')\<close>, and \<^verbatim>\<open>Buffer.from(s, 'hex')\<close>, which stops at the first
  pair that is not hexadecimal and drops a trailing single digit.\<close>

fun toHex :: "bytes \<Rightarrow> string" where
  "toHex [] = []"
| "toHex (b # bs) = hexDigit (unat b div 16) # hexDigit (unat b mod 16) # toHex bs"

fun fromHex :: "string \<Rightarrow> bytes" where
  "fromHex (a # b # s) =
     (case hexVal a of
        None \<Rightarrow> []
      | Some x \<Rightarrow> (case hexVal b of None \<Rightarrow> [] | Some y \<Rightarrow> of_nat (16 * x + y) # fromHex s))"
| "fromHex s = []"

text \<open>\<^verbatim>\<open>s.startsWith('0x') ? s.slice(2) : s\<close>\<close>

definition strip0x :: "string \<Rightarrow> string" where
  "strip0x s = (if take 2 s = ''0x'' then drop 2 s else s)"

lemma code_hexDigit: "n < 16 \<Longrightarrow> code (hexDigit n) = (if n < 10 then 48 + n else 87 + n)"
  by (simp add: code_def hexDigit_def of_char_of)

lemma hexVal_hexDigit [hex_simps]: "n < 16 \<Longrightarrow> hexVal (hexDigit n) = Some n"
  by (simp add: hexVal_def Let_def code_hexDigit)

lemma isLowerHexChar_hexDigit [hex_simps]: "n < 16 \<Longrightarrow> isLowerHexChar (hexDigit n)"
  by (simp add: isLowerHexChar_def code_hexDigit)

lemma lowerChar_lowerHex [hex_simps]: "isLowerHexChar c \<Longrightarrow> lowerChar c = c"
  by (auto simp: lowerChar_def isLowerHexChar_def Let_def)

lemma lowerHex_isHex: "isLowerHexChar c \<Longrightarrow> isHexChar c"
  by (auto simp: isLowerHexChar_def isHexChar_def hexVal_def Let_def)

lemma code_char_of: "n < 256 \<Longrightarrow> code (char_of n) = n"
  by (simp add: code_def of_char_of)

lemma hexVal_bound: "hexVal c = Some x \<Longrightarrow> x < 16"
  by (auto simp: hexVal_def Let_def split: if_splits)

lemma code_inj: "code c = code d \<Longrightarrow> c = d"
  by (simp add: code_def)

lemma hexDigit_hexVal: "hexVal c = Some x \<Longrightarrow> hexDigit x = lowerChar c"
  by (rule code_inj) (auto simp: hexVal_def lowerChar_def Let_def code_hexDigit code_char_of split: if_splits)

lemma lowerChar_isLowerHex [hex_simps]: "isHexChar c \<Longrightarrow> isLowerHexChar (lowerChar c)"
  using hexDigit_hexVal hexVal_bound isLowerHexChar_hexDigit by (fastforce simp: isHexChar_def)

lemma isLowerHexChar_lowerChar: "isLowerHexChar (lowerChar c) \<longleftrightarrow> isHexChar c"
proof
  assume "isLowerHexChar (lowerChar c)"
  then show "isHexChar c"
    by (auto simp: isLowerHexChar_def isHexChar_def hexVal_def lowerChar_def Let_def code_char_of
        split: if_splits)
qed (rule lowerChar_isLowerHex)

lemma hexVal_lowerChar: "isHexChar c \<Longrightarrow> hexVal (lowerChar c) = hexVal c"
  using hexDigit_hexVal hexVal_bound hexVal_hexDigit by (fastforce simp: isHexChar_def)

lemma unat_byte_less [simp]: "unat (b :: byte) < 256"
  using unsigned_less [of b] by simp

lemma unat_of_nat_byte: "unat (of_nat v :: byte) = v mod 256"
  by (simp add: unat_of_nat)

lemma byte_nibbles: "of_nat (16 * (unat b div 16) + unat b mod 16) = (b :: byte)"
  by simp

lemma fromHex_toHex [simp, hex_simps]: "fromHex (toHex bs) = bs"
proof (induction bs)
  case Nil
  then show ?case by simp
next
  case (Cons b bs)
  have "unat b div 16 < 16" using unat_byte_less [of b] by linarith
  then show ?case using Cons byte_nibbles [of b] by (simp add: hexVal_hexDigit)
qed

lemma length_toHex [simp, hex_simps]: "length (toHex bs) = 2 * length bs"
  by (induction bs) auto

lemma toHex_lowerHex [simp, hex_simps]: "list_all isLowerHexChar (toHex bs)"
proof (induction bs)
  case (Cons b bs)
  have "unat b div 16 < 16" using unat_byte_less [of b] by linarith
  then show ?case using Cons by (simp add: isLowerHexChar_hexDigit)
qed simp

lemma list_all_lowerHex_isHex [hex_simps]: "list_all isLowerHexChar s \<Longrightarrow> list_all isHexChar s"
  by (induction s) (auto simp: lowerHex_isHex)

lemma toHex_isHex [simp]: "list_all isHexChar (toHex bs)"
  by (rule list_all_lowerHex_isHex) simp

lemma lowerStr_lowerHex: "list_all isLowerHexChar s \<Longrightarrow> lowerStr s = s"
  by (induction s) (auto simp: lowerChar_lowerHex)

lemma lowerStr_toHex [simp, hex_simps]: "lowerStr (toHex bs) = toHex bs"
  by (rule lowerStr_lowerHex) simp

lemma toHex_inj [simp]: "toHex a = toHex b \<longleftrightarrow> a = b"
  by (metis fromHex_toHex)

lemma toHex_append [simp]: "toHex (a @ b) = toHex a @ toHex b"
  by (induction a) auto

lemma toHex_fromHex:
  "list_all isHexChar s \<Longrightarrow> even (length s) \<Longrightarrow> toHex (fromHex s) = lowerStr s"
proof (induction s rule: fromHex.induct)
  case (1 a b s)
  then obtain x y where xy: "hexVal a = Some x" "hexVal b = Some y"
    by (auto simp: isHexChar_def)
  then have lt: "x < 16" "y < 16" by (auto dest: hexVal_bound)
  then have u: "unat (of_nat (16 * x + y) :: byte) = 16 * x + y"
    by (simp only: unat_of_nat_byte) simp
  have "hexDigit (unat (of_nat (16 * x + y) :: byte) div 16) = lowerChar a"
    using xy lt hexDigit_hexVal [of a x] by (simp only: u) simp
  moreover have "hexDigit (unat (of_nat (16 * x + y) :: byte) mod 16) = lowerChar b"
    using xy lt hexDigit_hexVal [of b y] by (simp only: u) simp
  ultimately show ?case using "1" xy by (simp del: of_nat_add of_nat_mult)
qed auto

lemma length_fromHex:
  "list_all isHexChar s \<Longrightarrow> length (fromHex s) = length s div 2"
  by (induction s rule: fromHex.induct) (auto simp: isHexChar_def)

lemma lowerHex_roundtrip:
  "list_all isLowerHexChar s \<Longrightarrow> even (length s) \<Longrightarrow> toHex (fromHex s) = s"
  by (simp add: toHex_fromHex list_all_lowerHex_isHex lowerStr_lowerHex)

lemma list_all_lowerStr: "list_all isHexChar s \<Longrightarrow> list_all isLowerHexChar (lowerStr s)"
  by (induction s) (auto simp: lowerChar_isLowerHex)

lemma strip0x_lowerHex: "list_all isHexChar s \<Longrightarrow> strip0x s = s"
proof -
  assume "list_all isHexChar s"
  moreover have "\<not> isHexChar (CHR ''x'')" by (simp add: isHexChar_def hexVal_def code_def Let_def)
  ultimately have "take 2 s \<noteq> ''0x''"
    by (cases s; cases "tl s") auto
  then show ?thesis by (simp add: strip0x_def)
qed


section \<open>Trimming and digests in text\<close>

text \<open>\<^verbatim>\<open>String.prototype.trim\<close> on code units below 256, and the prefix removal \<^verbatim>\<open>replace(/^0x/i, '')\<close>.\<close>

definition isBlank :: "char \<Rightarrow> bool" where
  "isBlank c \<longleftrightarrow> 9 \<le> code c \<and> code c \<le> 13 \<or> code c = 32 \<or> code c = 160"

definition trimBlanks :: "string \<Rightarrow> string" where
  "trimBlanks s = rev (dropWhile isBlank (rev (dropWhile isBlank s)))"

definition strip0xAny :: "string \<Rightarrow> string" where
  "strip0xAny s = (if take 2 s = ''0x'' \<or> take 2 s = ''0X'' then drop 2 s else s)"

text \<open>The pattern \<^verbatim>\<open>/^[0-9a-f]{64}$/\<close>: a 32-byte digest in lower-case hexadecimal.\<close>

definition isHex64 :: "string \<Rightarrow> bool" where
  "isHex64 s \<longleftrightarrow> length s = 64 \<and> list_all isLowerHexChar s"

lemma lowerHex_not_blank: "isLowerHexChar c \<Longrightarrow> \<not> isBlank c"
  by (auto simp: isLowerHexChar_def isBlank_def)

lemma dropWhile_none: "list_all (\<lambda>x. \<not> P x) xs \<Longrightarrow> dropWhile P xs = xs"
  by (cases xs) auto

lemma trimBlanks_lowerHex: "list_all isLowerHexChar s \<Longrightarrow> trimBlanks s = s"
  by (simp add: trimBlanks_def dropWhile_none list_all_iff lowerHex_not_blank)

lemma strip0xAny_lowerHex:
  assumes "list_all isLowerHexChar s"
  shows "strip0xAny s = s"
proof -
  have "\<not> isLowerHexChar (CHR ''x'')" "\<not> isLowerHexChar (CHR ''X'')" by (simp_all add: isLowerHexChar_def code_def)
  with assms have "take 2 s \<noteq> ''0x''" "take 2 s \<noteq> ''0X''" by (cases s; cases "tl s"; auto)+
  then show ?thesis by (simp add: strip0xAny_def)
qed

lemma isHex64_toHex: "length bs = 32 \<Longrightarrow> isHex64 (toHex bs)"
  by (simp add: isHex64_def)

lemma isHex64_replicate: "isLowerHexChar c \<Longrightarrow> isHex64 (replicate 64 c)"
  by (simp add: isHex64_def list_all_iff)


section \<open>Decimal text\<close>

definition isDigit :: "char \<Rightarrow> bool" where
  "isDigit c \<longleftrightarrow> 48 \<le> code c \<and> code c \<le> 57"

definition allDigits :: "string \<Rightarrow> bool" where
  "allDigits s \<longleftrightarrow> s \<noteq> [] \<and> list_all isDigit s"

definition decVal :: "string \<Rightarrow> int" where
  "decVal s = foldl (\<lambda>a c. a * 10 + int (code c - 48)) 0 s"

fun decStr :: "nat \<Rightarrow> string" where
  "decStr n = (if n < 10 then [char_of (48 + n)] else decStr (n div 10) @ [char_of (48 + n mod 10)])"

declare decStr.simps [simp del]

lemma decVal_snoc: "decVal (s @ [c]) = decVal s * 10 + int (code c - 48)"
  by (simp add: decVal_def)

lemma decVal_nonneg [simp]: "0 \<le> decVal s"
  by (induction s rule: rev_induct) (auto simp: decVal_snoc decVal_def [of "[]"])

lemma allDigits_decStr: "allDigits (decStr n)"
proof (induction n rule: decStr.induct)
  case (1 n)
  show ?case
    using "1" by (subst decStr.simps) (auto simp: allDigits_def isDigit_def code_char_of)
qed

lemma decVal_decStr: "decVal (decStr n) = int n"
proof (induction n rule: decStr.induct)
  case (1 n)
  show ?case
  proof (cases "n < 10")
    case True
    then show ?thesis by (simp add: decStr.simps [of n] decVal_def code_char_of)
  next
    case False
    with "1" have "decVal (decStr (n div 10)) = int (n div 10)" by simp
    moreover have "code (char_of (48 + n mod 10)) = 48 + n mod 10" by (simp add: code_char_of)
    ultimately show ?thesis using False
      by (simp add: decStr.simps [of n] decVal_snoc) presburger
  qed
qed

lemma decStr_inj: "decStr m = decStr n \<longleftrightarrow> m = n"
  by (metis decVal_decStr of_nat_eq_iff)


section \<open>Big-endian integers\<close>

fun beBytes :: "nat \<Rightarrow> nat \<Rightarrow> bytes" where
  "beBytes 0 v = []"
| "beBytes (Suc k) v = beBytes k (v div 256) @ [of_nat v]"

definition beVal :: "bytes \<Rightarrow> nat" where
  "beVal bs = foldl (\<lambda>a b. a * 256 + unat b) 0 bs"

lemma beVal_snoc: "beVal (bs @ [b]) = beVal bs * 256 + unat b"
  by (simp add: beVal_def)

lemma beVal_Nil [simp]: "beVal [] = 0"
  by (simp add: beVal_def)

lemma length_beBytes [simp]: "length (beBytes k v) = k"
  by (induction k arbitrary: v) auto

lemma beBytes_numeral:
  "beBytes (numeral k) v = beBytes (pred_numeral k) (v div 256) @ [of_nat v]"
  by (simp only: numeral_eq_Suc beBytes.simps)

lemma beVal_beBytes: "beVal (beBytes k v) = v mod 256 ^ k"
proof (induction k arbitrary: v)
  case 0
  then show ?case by simp
next
  case (Suc k)
  have "v mod 256 ^ Suc k = v div 256 mod 256 ^ k * 256 + v mod 256"
    by (simp add: mod_mult2_eq)
  then show ?case by (simp add: beVal_snoc Suc unat_of_nat_byte)
qed

lemma beVal_less: "beVal bs < 256 ^ length bs"
proof (induction bs rule: rev_induct)
  case (snoc b bs)
  have "unat b < 256" by simp
  then have "beVal bs * 256 + unat b < (beVal bs + 1) * 256" by simp
  also have "\<dots> \<le> 256 ^ length bs * 256"
    using snoc by (intro mult_right_mono) auto
  finally show ?case by (simp add: beVal_snoc)
qed simp

lemma beBytes_beVal: "beBytes (length bs) (beVal bs) = bs"
proof (induction bs rule: rev_induct)
  case (snoc b bs)
  have "(of_nat (beVal bs * 256 + unat b) :: byte) = b"
    by (rule word_unat_eq_iff [THEN iffD2]) (simp only: unat_of_nat_byte, simp)
  then show ?case using snoc by (simp add: beVal_snoc del: of_nat_add of_nat_mult)
qed simp

lemma beBytes_inj: "u < 256 ^ k \<Longrightarrow> v < 256 ^ k \<Longrightarrow> beBytes k u = beBytes k v \<longleftrightarrow> u = v"
  by (metis beVal_beBytes mod_less)


section \<open>Interfaces\<close>

text \<open>A fallible encoder and its decoder. What is proved of every codec: encoding is injective on
  the valid values, and a valid value survives the trip over the wire.\<close>

locale codec =
  fixes valid :: "'a \<Rightarrow> bool"
    and encode :: "'a \<Rightarrow> 'e + 'w"
    and decode :: "'w \<Rightarrow> 'f + 'a"
  assumes encode_total: "valid x \<Longrightarrow> isOk (encode x)"
    and round_trip: "valid x \<Longrightarrow> encode x = Inr w \<Longrightarrow> decode w = Inr x"
begin

lemma encode_injective:
  assumes "valid x" and "valid y" and "encode x = encode y"
  shows "x = y"
proof -
  from encode_total [OF assms(1)] obtain w where w: "encode x = Inr w" by (auto simp: isOk_iff)
  with assms(3) have "encode y = Inr w" by simp
  with w assms show ?thesis using round_trip [of x w] round_trip [of y w] by simp
qed

lemma survives: "valid x \<Longrightarrow> \<exists>w. encode x = Inr w \<and> decode w = Inr x"
  using encode_total [of x] round_trip [of x] unfolding isOk_iff by blast

end

text \<open>A codec whose decoder accepts one spelling of each value only: up to the presentation
  \<open>canon\<close> (letter case, an optional \<^verbatim>\<open>0x\<close>), an accepted word is the encoding of its value.\<close>

locale canonical_codec = codec +
  fixes canon :: "'w \<Rightarrow> 'w"
  assumes canonical: "decode w = Inr x \<Longrightarrow> encode x = Inr (canon w)"
begin

lemma unique_spelling:
  assumes "decode v = Inr x" and "decode w = Inr x"
  shows "canon v = canon w"
  using canonical [OF assms(1)] canonical [OF assms(2)] by simp

end

text \<open>A deterministic component: one step per operation. An invariant every step keeps holds
  after every sequence of operations, and so does a quantity no step lowers.\<close>

locale invariant_system =
  fixes step :: "'s \<Rightarrow> 'o \<Rightarrow> 's"
    and inv :: "'s \<Rightarrow> bool"
  assumes step_inv: "inv s \<Longrightarrow> inv (step s op)"
begin

lemma run_inv: "inv s \<Longrightarrow> inv (foldl step s ops)"
  by (induction ops arbitrary: s) (auto simp: step_inv)

end

locale monotone_system = invariant_system +
  fixes rank :: "'s \<Rightarrow> int"
  assumes step_rank: "inv s \<Longrightarrow> rank s \<le> rank (step s op)"
begin

lemma run_rank: "inv s \<Longrightarrow> rank s \<le> rank (foldl step s ops)"
proof (induction ops arbitrary: s)
  case Nil
  then show ?case by simp
next
  case (Cons op ops)
  have "rank s \<le> rank (step s op)" using Cons.prems by (rule step_rank)
  also have "\<dots> \<le> rank (foldl step (step s op) ops)"
    using Cons.IH step_inv [OF Cons.prems] by blast
  finally show ?case by simp
qed

end

end
