(* ===== verification/Ergo_Encoding.thy ===== *)
theory Ergo_Encoding
  imports Bridge_Prelude
begin

text \<open>
  The Sigma register codecs of \<^verbatim>\<open>ergo-settlement-core/ergo-encoding.ts\<close>: VLQ integers, byte-array,
  Long, Int, SigmaProp and AvlTree registers, and the ErgoTree size bit.

  32-bit operators of JavaScript are written out: \<^verbatim>\<open>n >>>= 7\<close> reduces \<open>n\<close> modulo \<open>2 ^ 32\<close>, and
  \<^verbatim>\<open>x << shift\<close> is a signed 32-bit value. The lemmas show that each decoder inverts its encoder over
  the whole range the encoder accepts, and that the bounded and canonical decoders accept nothing
  outside their bound or spelling.
\<close>

section \<open>Definitions\<close>

datatype encoding_error =
    NotCollByte string
  | BadPayloadBound string
  | ExceedsPayloadBound string
  | InvalidVlqLength string
  | LengthPrefixMismatch string
  | LongOutsideSafeRange
  | LongOutsideSigned64
  | IntOutOfRange
  | NonCanonicalLong string
  | NonCanonicalInt string
  | BadPubKeyLength
  | AvlNotHex string
  | NotAvlTree string
  | AvlTooShort string
  | NotSignedScalar string
  | InvalidVlqEncoding string
  | NotFullyConsumed string
  | OutsideSignedRange string
  | NotSerializedConstant

datatype js_numeric = NumV int | BigV int

function vlq :: "int \<Rightarrow> bytes" where
  "vlq n = (if n > 0x7f then of_int (n mod 128 + 128) # vlq (n mod 2 ^ 32 div 2 ^ 7)
            else [of_int (n mod 128)])"
  by pat_completeness auto
termination
proof (relation "measure nat")
  fix n :: int
  assume n: "127 < n"
  have "n mod 2 ^ 32 div 2 ^ 7 \<le> n div 2 ^ 7"
    using n by (intro zdiv_mono1 zmod_le_nonneg_dividend) auto
  also have "\<dots> < n" using n by (simp add: int_div_less_self)
  finally show "(n mod 2 ^ 32 div 2 ^ 7, n) \<in> measure nat" using n by simp
qed simp

function vlqBigint :: "int \<Rightarrow> bytes" where
  "vlqBigint n = (if n > 0x7f then of_int (n mod 128 + 128) # vlqBigint (n div 2 ^ 7)
                  else [of_int (n mod 128)])"
  by pat_completeness auto
termination
  by (relation "measure nat") (auto simp: int_div_less_self)

declare vlq.simps [simp del] vlqBigint.simps [simp del]

definition encodeCollByteRegister :: "bytes \<Rightarrow> string" where
  "encodeCollByteRegister data = ''0e'' @ toHex (vlq (int (length data))) @ toHex data"

text \<open>\<open>jsShl\<close> is \<^verbatim>\<open>a << k\<close>; \<open>hexPair\<close> is \<^verbatim>\<open>Number.parseInt(pair, 16)\<close> on two hexadecimal digits.\<close>

definition jsShl :: "int \<Rightarrow> nat \<Rightarrow> int" where
  "jsShl a k = signed_take_bit 31 (push_bit k a)"

definition hexPair :: "string \<Rightarrow> int" where
  "hexPair s = (case fromHex s of [] \<Rightarrow> 0 | b # _ \<Rightarrow> uint b)"

function vlqLengthLoop :: "string \<Rightarrow> int option \<Rightarrow> string \<Rightarrow> int \<Rightarrow> nat \<Rightarrow> encoding_error + int \<times> string" where
  "vlqLengthLoop label maxPayload rest len shift =
     (if length rest < 2 \<or> shift > 28 then Inl (InvalidVlqLength label)
      else let byte = hexPair (take 2 rest);
               len' = len OR jsShl (byte AND 0x7f) shift
           in if (case maxPayload of None \<Rightarrow> False | Some m \<Rightarrow> len' > m)
              then Inl (ExceedsPayloadBound label)
              else if byte AND 0x80 = 0 then Inr (len', drop 2 rest)
              else vlqLengthLoop label maxPayload (drop 2 rest) len' (shift + 7))"
  by pat_completeness auto
termination
  by (relation "measure (\<lambda>(_, _, rest, _, _). length rest)") auto

declare vlqLengthLoop.simps [simp del]

definition decodeCollByteRegisterWithin :: "string \<Rightarrow> string \<Rightarrow> int option \<Rightarrow> encoding_error + string" where
  "decodeCollByteRegisterWithin registerHex label maxPayload =
     (let prefixChars = (if take 2 registerHex = ''0x'' then 2 else 0);
          clean = (if prefixChars = 2 then drop 2 registerHex else registerHex)
      in require (\<not> (case maxPayload of None \<Rightarrow> False
                     | Some m \<Rightarrow> int (length registerHex) > (m + 6) * 2 + prefixChars))
           (ExceedsPayloadBound label)
         (require (clean \<noteq> [] \<and> list_all isHexChar clean \<and> length clean mod 2 = 0
                   \<and> take 2 clean = ''0e'') (NotCollByte label)
         (andThen (vlqLengthLoop label maxPayload (drop 2 clean) 0 0) (\<lambda>(len, payload).
          require (int (length payload) = len * 2) (LengthPrefixMismatch label)
          (Inr (lowerStr payload))))))"

definition decodeCollByteRegister :: "string \<Rightarrow> string \<Rightarrow> encoding_error + string" where
  "decodeCollByteRegister registerHex label = decodeCollByteRegisterWithin registerHex label None"

definition decodeBoundedCollByteRegister :: "string \<Rightarrow> string \<Rightarrow> int \<Rightarrow> encoding_error + string" where
  "decodeBoundedCollByteRegister registerHex label maxPayload =
     require (isSafeInteger maxPayload \<and> \<not> maxPayload < 0) (BadPayloadBound label)
       (decodeCollByteRegisterWithin registerHex label (Some maxPayload))"

definition encodeLongRegister :: "js_numeric \<Rightarrow> encoding_error + string" where
  "encodeLongRegister value =
     require (case value of NumV v \<Rightarrow> isSafeInteger v | BigV _ \<Rightarrow> True) LongOutsideSafeRange
     (let n = (case value of NumV v \<Rightarrow> v | BigV v \<Rightarrow> v)
      in require (\<not> (n < - 0x8000000000000000 \<or> n > 0x7fffffffffffffff)) LongOutsideSigned64
         (let zigzag = (if n \<ge> 0 then push_bit 1 n else push_bit 1 n XOR drop_bit 63 n)
          in Inr (''05'' @ toHex (vlqBigint zigzag))))"

definition encodeIntRegister :: "int \<Rightarrow> encoding_error + string" where
  "encodeIntRegister value =
     require (\<not> (value < - 0x80000000 \<or> value > 0x7fffffff)) IntOutOfRange
     (let zigzag = (if value \<ge> 0 then push_bit 1 value else push_bit 1 value XOR drop_bit 31 value)
      in Inr (''04'' @ toHex (vlqBigint zigzag)))"

definition normalizeSerializedConstant :: "string \<Rightarrow> encoding_error + string" where
  "normalizeSerializedConstant value =
     (let clean = strip0x value
      in require (clean \<noteq> [] \<and> list_all isHexChar clean \<and> length clean mod 2 = 0)
           NotSerializedConstant (Inr (lowerStr clean)))"

fun signedScalarLoop :: "string \<Rightarrow> nat \<Rightarrow> bytes \<Rightarrow> int \<Rightarrow> nat \<Rightarrow> nat \<Rightarrow> encoding_error + int \<times> nat" where
  "signedScalarLoop label limit [] u shift consumed = Inr (u, consumed)"
| "signedScalarLoop label limit (byte # rest) u shift consumed =
     (let u' = u OR push_bit shift (uint byte AND 0x7f);
          consumed' = consumed + 1
      in if uint byte AND 0x80 = 0 then Inr (u', consumed')
         else if consumed' \<ge> limit then Inl (InvalidVlqEncoding label)
         else signedScalarLoop label limit rest u' (shift + 7) consumed')"

definition decodeCanonicalSignedScalar :: "string \<Rightarrow> byte \<Rightarrow> nat \<Rightarrow> string \<Rightarrow> encoding_error + int" where
  "decodeCanonicalSignedScalar registerHex expectedType width label =
     andThen (normalizeSerializedConstant registerHex) (\<lambda>clean.
     let bytes = fromHex clean in
     require (\<not> (length bytes < 2 \<or> hd bytes \<noteq> expectedType)) (NotSignedScalar label)
     (andThen (signedScalarLoop label (if width = 64 then 10 else 5) (tl bytes) 0 0 0)
       (\<lambda>(u, consumed).
      require (\<not> (consumed = 0 \<or> 1 + consumed \<noteq> length bytes \<or> uint (last bytes) AND 0x80 \<noteq> 0))
        (NotFullyConsumed label)
      (require (\<not> u > 2 ^ width - 1) (OutsideSignedRange label)
       (Inr (drop_bit 1 u XOR - (u AND 1)))))))"

definition decodeCanonicalLongRegister :: "string \<Rightarrow> string \<Rightarrow> encoding_error + int" where
  "decodeCanonicalLongRegister registerHex label =
     andThen (decodeCanonicalSignedScalar registerHex 0x05 64 label) (\<lambda>decoded.
     andThen (encodeLongRegister (BigV decoded)) (\<lambda>encoded.
     andThen (normalizeSerializedConstant registerHex) (\<lambda>normalized.
     require (encoded = normalized) (NonCanonicalLong label) (Inr decoded))))"

definition decodeCanonicalIntRegister :: "string \<Rightarrow> string \<Rightarrow> encoding_error + int" where
  "decodeCanonicalIntRegister registerHex label =
     andThen (decodeCanonicalSignedScalar registerHex 0x04 32 label) (\<lambda>value.
     require (isSafeInteger value) (NonCanonicalInt label)
     (andThen (encodeIntRegister value) (\<lambda>encoded.
      andThen (normalizeSerializedConstant registerHex) (\<lambda>normalized.
      require (encoded = normalized) (NonCanonicalInt label) (Inr value)))))"

definition encodeSigmaPropRegister :: "string \<Rightarrow> encoding_error + string" where
  "encodeSigmaPropRegister compressedPubKey33Hex =
     require (length compressedPubKey33Hex = 66) BadPubKeyLength
       (Inr (''08cd'' @ compressedPubKey33Hex))"

text \<open>\<^verbatim>\<open>flags.toString(16).padStart(2, '0')\<close> for a nonnegative integer.\<close>

fun hexNat :: "nat \<Rightarrow> string" where
  "hexNat n = (if n < 16 then [hexDigit n] else hexNat (n div 16) @ [hexDigit (n mod 16)])"

declare hexNat.simps [simp del]

definition padStart2 :: "string \<Rightarrow> string" where
  "padStart2 s = replicate (2 - length s) (CHR ''0'') @ s"

definition encodeAvlTreeRegister :: "bytes \<Rightarrow> nat \<Rightarrow> int option \<Rightarrow> string" where
  "encodeAvlTreeRegister digest33 flags valueLengthOpt =
     ''64'' @ toHex digest33 @ padStart2 (hexNat flags) @ toHex (vlq 32) @
     (case valueLengthOpt of None \<Rightarrow> ''00'' | Some v \<Rightarrow> ''01'' @ toHex (vlq v))"

definition decodeAvlTreeRegisterDigest :: "string \<Rightarrow> string \<Rightarrow> encoding_error + string" where
  "decodeAvlTreeRegisterDigest registerHex label =
     (let clean = strip0x registerHex in
      require (clean \<noteq> [] \<and> list_all isHexChar clean) (AvlNotHex label)
      (require (lowerStr (take 2 clean) = ''64'') (NotAvlTree label)
      (require (\<not> length clean < 68) (AvlTooShort label)
       (Inr (lowerStr (take 66 (drop 2 clean)))))))"

definition ensureSizeBit :: "string \<Rightarrow> string" where
  "ensureSizeBit ergoTreeHex =
     (case fromHex ergoTreeHex of
        [] \<Rightarrow> ergoTreeHex
      | header # bodyBytes \<Rightarrow>
          if header AND 0x07 = 0 \<or> header AND 0x08 \<noteq> 0 then ergoTreeHex
          else toHex ([header OR 0x08] @ vlq (int (length bodyBytes)) @ bodyBytes))"


section \<open>VLQ integers\<close>

lemma vlqBigint_small: "0 \<le> n \<Longrightarrow> n \<le> 127 \<Longrightarrow> vlqBigint n = [of_int n]"
  by (subst vlqBigint.simps) simp

lemma vlqBigint_large: "127 < n \<Longrightarrow> vlqBigint n = of_int (n mod 128 + 128) # vlqBigint (n div 128)"
  by (subst vlqBigint.simps) simp

lemma vlq_eq_vlqBigint: "0 \<le> n \<Longrightarrow> n < 2 ^ 32 \<Longrightarrow> vlq n = vlqBigint n"
proof (induction n rule: vlqBigint.induct)
  case (1 n)
  show ?case
  proof (cases "127 < n")
    case True
    have "0 \<le> n div 2 ^ 7" "n div 2 ^ 7 < 2 ^ 32" using "1.prems" by auto
    with "1.IH" True have "vlq (n div 2 ^ 7) = vlqBigint (n div 2 ^ 7)" by simp
    with True "1.prems" show ?thesis by (simp add: vlq.simps [of n] vlqBigint_large)
  next
    case False
    with "1.prems" show ?thesis by (simp add: vlq.simps [of n] vlqBigint_small)
  qed
qed

lemma vlqBigint_length: "0 \<le> n \<Longrightarrow> n < 128 ^ k \<Longrightarrow> 0 < k \<Longrightarrow> length (vlqBigint n) \<le> k"
proof (induction n arbitrary: k rule: vlqBigint.induct)
  case (1 n)
  show ?case
  proof (cases "127 < n")
    case True
    with "1.prems" obtain j where k: "k = Suc j" "0 < j"
      by (cases k; cases "k - 1") auto
    have "n div 128 < 128 ^ j" using "1.prems" k by (simp add: div_less_iff_less_mult)
    with "1" True k have "length (vlqBigint (n div 128)) \<le> j" by simp
    with True k show ?thesis by (simp add: vlqBigint_large)
  next
    case False
    with "1.prems" show ?thesis by (simp add: vlqBigint_small)
  qed
qed

lemma vlqBigint_nonempty [simp]: "vlqBigint n \<noteq> []"
  by (subst vlqBigint.simps) simp

lemma uint_continuation [simp]: "uint (of_int (n mod 128) + 128 :: byte) = n mod 128 + 128"
  using uint_of_int_byte [of "n mod 128 + 128"] by simp

lemmas vlq_byte_simps = uint_of_int_byte and_127 and_128

lemma vlq_split: "n mod 128 * 2 ^ shift + n div 128 * 2 ^ (shift + 7) = n * 2 ^ shift"
  for n :: int
proof -
  have "n mod 128 * 2 ^ shift + n div 128 * 2 ^ (shift + 7)
          = (n mod 128 + n div 128 * 128) * 2 ^ shift"
    by (simp only: power_add distrib_right) simp
  then show ?thesis by (simp only: mod_div_mult_eq)
qed

lemma vlq_accumulate: "u < 2 ^ shift \<Longrightarrow> u + n mod 128 * 2 ^ shift < 2 ^ (shift + 7)"
  for n :: int
proof -
  assume "u < 2 ^ shift"
  moreover have "n mod 128 * 2 ^ shift \<le> 127 * 2 ^ shift" by (intro mult_right_mono) auto
  ultimately have "u + n mod 128 * 2 ^ shift < 128 * 2 ^ shift" by linarith
  then show ?thesis by (simp add: power_add)
qed

lemma last_vlqBigint: "0 \<le> n \<Longrightarrow> uint (last (vlqBigint n)) AND 128 = 0"
proof (induction n rule: vlqBigint.induct)
  case (1 n)
  show ?case
  proof (cases "127 < n")
    case True
    with "1" have "uint (last (vlqBigint (n div 128))) AND 128 = 0" by simp
    then show ?thesis using True by (simp add: vlqBigint_large)
  next
    case False
    with "1.prems" show ?thesis by (simp add: vlqBigint_small vlq_byte_simps)
  qed
qed


lemma signedScalarLoop_vlq:
  assumes "0 \<le> n" and "0 \<le> u" and "u < 2 ^ shift" and "consumed + length (vlqBigint n) \<le> limit"
  shows "signedScalarLoop label limit (vlqBigint n) u shift consumed =
           Inr (u + n * 2 ^ shift, consumed + length (vlqBigint n))"
  using assms
proof (induction n arbitrary: u shift consumed rule: vlqBigint.induct)
  case (1 n)
  show ?case
  proof (cases "127 < n")
    case True
    define b :: byte where "b = of_int (n mod 128 + 128)"
    have v: "vlqBigint n = b # vlqBigint (n div 128)" using True by (simp add: b_def vlqBigint_large)
    have b: "uint b AND 127 = n mod 128" "uint b AND 128 \<noteq> 0"
      by (simp_all add: b_def vlq_byte_simps)
    have len: "consumed + 1 + length (vlqBigint (n div 128)) \<le> limit"
      using "1.prems"(4) v by simp
    then have more: "\<not> limit \<le> consumed + 1" by (cases "vlqBigint (n div 128)") auto
    have acc: "u OR push_bit shift (n mod 128) = u + n mod 128 * 2 ^ shift"
      using "1.prems" by (simp add: or_push_bit)
    have "0 \<le> u + n mod 128 * 2 ^ shift" using "1.prems" by simp
    then have "signedScalarLoop label limit (vlqBigint (n div 128)) (u + n mod 128 * 2 ^ shift)
                 (shift + 7) (consumed + 1) =
               Inr (u + n mod 128 * 2 ^ shift + n div 128 * 2 ^ (shift + 7),
                    consumed + 1 + length (vlqBigint (n div 128)))"
      using "1.IH" [of "u + n mod 128 * 2 ^ shift" "shift + 7" "consumed + 1"] True "1.prems" len
        vlq_accumulate [of u shift n] by simp
    moreover have "u + n mod 128 * 2 ^ shift + n div 128 * 2 ^ (shift + 7) = u + n * 2 ^ shift"
      using vlq_split [of n shift] by linarith
    ultimately show ?thesis using b more acc by (simp add: v Let_def)
  next
    case False
    with "1.prems" show ?thesis
      by (simp add: vlqBigint_small vlq_byte_simps or_push_bit Let_def)
  qed
qed


section \<open>Byte-array registers\<close>

lemma hexPair_toHex: "hexPair (take 2 (toHex (b # bs) @ t)) = uint b"
proof -
  have "take 2 (toHex (b # bs) @ t) = toHex [b]" by (simp add: numeral_2_eq_2)
  then show ?thesis by (simp only: hexPair_def fromHex_toHex) simp
qed

lemma drop2_toHex: "drop 2 (toHex (b # bs) @ t) = toHex bs @ t"
  by (simp add: numeral_2_eq_2)

lemma jsShl_id: "0 \<le> a \<Longrightarrow> a * 2 ^ k < 2 ^ 31 \<Longrightarrow> jsShl a k = push_bit k a"
  unfolding jsShl_def
  by (rule signed_take_bit_int_eq_self) (auto simp: push_bit_eq_mult intro: order_trans [of _ 0])

definition exceeds :: "int option \<Rightarrow> int \<Rightarrow> bool" where
  "exceeds maxPayload len \<longleftrightarrow> (case maxPayload of None \<Rightarrow> False | Some m \<Rightarrow> len > m)"

lemma exceeds_mono: "exceeds m a \<Longrightarrow> a \<le> b \<Longrightarrow> exceeds m b"
  by (auto simp: exceeds_def split: option.splits)

lemma vlqLengthLoop_step:
  assumes "shift \<le> 28" and "len OR jsShl (uint b AND 127) shift = len'"
  shows "vlqLengthLoop label maxPayload (toHex (b # bs) @ t) len shift =
          (if exceeds maxPayload len' then Inl (ExceedsPayloadBound label)
           else if uint b AND 128 = 0 then Inr (len', toHex bs @ t)
           else vlqLengthLoop label maxPayload (toHex bs @ t) len' (shift + 7))"
proof -
  have "\<not> (length (toHex (b # bs) @ t) < 2 \<or> shift > 28)" using assms by simp
  then show ?thesis
    by (subst vlqLengthLoop.simps)
      (simp only: assms(2) hexPair_toHex drop2_toHex Let_def exceeds_def if_False)
qed

lemma vlqLengthLoop_vlq:
  assumes "0 \<le> n" and "0 \<le> len" and "len < 2 ^ shift" and "len + n * 2 ^ shift < 2 ^ 31"
    and "shift \<le> 28" and "shift mod 7 = 0"
  shows "vlqLengthLoop label maxPayload (toHex (vlqBigint n) @ t) len shift =
          (if exceeds maxPayload (len + n * 2 ^ shift) then Inl (ExceedsPayloadBound label)
           else Inr (len + n * 2 ^ shift, t))"
  using assms
proof (induction n arbitrary: len shift rule: vlqBigint.induct)
  case (1 n)
  show ?case
  proof (cases "127 < n")
    case True
    define b :: byte where "b = of_int (n mod 128 + 128)"
    have v: "vlqBigint n = b # vlqBigint (n div 128)" using True by (simp add: b_def vlqBigint_large)
    have b: "uint b AND 127 = n mod 128" "uint b AND 128 \<noteq> 0"
      by (simp_all add: b_def vlq_byte_simps)
    have pos: "0 \<le> n div 128 * 2 ^ (shift + 7)" using True by simp
    have le: "n mod 128 * 2 ^ shift \<le> n * 2 ^ shift" using vlq_split [of n shift] pos by linarith
    have "n mod 128 * 2 ^ shift < 2 ^ 31" using "1.prems"(2,4) le by linarith
    then have shl: "len OR jsShl (uint b AND 127) shift = len + n mod 128 * 2 ^ shift"
      using "1.prems" by (simp only: b) (simp add: jsShl_id or_push_bit)
    have sh: "shift + 7 \<le> 28"
    proof (rule ccontr)
      assume "\<not> shift + 7 \<le> 28"
      then have "shift = 28" using "1.prems"(5,6) by presburger
      with "1.prems" True show False by simp
    qed
    have sum: "len + n mod 128 * 2 ^ shift + n div 128 * 2 ^ (shift + 7) = len + n * 2 ^ shift"
      using vlq_split [of n shift] by linarith
    have "vlqLengthLoop label maxPayload (toHex (vlqBigint (n div 128)) @ t)
            (len + n mod 128 * 2 ^ shift) (shift + 7) =
          (if exceeds maxPayload (len + n * 2 ^ shift) then Inl (ExceedsPayloadBound label)
           else Inr (len + n * 2 ^ shift, t))"
      using "1.IH" [of "len + n mod 128 * 2 ^ shift" "shift + 7"] True "1.prems" sh
        vlq_accumulate [of len shift n] by (simp add: sum)
    moreover have "exceeds maxPayload (len + n * 2 ^ shift)"
      if "exceeds maxPayload (len + n mod 128 * 2 ^ shift)"
      by (rule exceeds_mono [OF that]) (use le in simp)
    ultimately show ?thesis
      using b(2) by (simp only: v vlqLengthLoop_step [OF "1.prems"(5) shl] if_False) simp
  next
    case False
    define b :: byte where "b = of_int n"
    have v: "vlqBigint n = [b]" using False "1.prems" by (simp add: b_def vlqBigint_small)
    have b: "uint b AND 127 = n" "uint b AND 128 = 0"
      using False "1.prems" by (simp_all add: b_def vlq_byte_simps)
    have shl: "len OR jsShl (uint b AND 127) shift = len + n * 2 ^ shift"
      using "1.prems" by (simp only: b) (simp add: jsShl_id or_push_bit)
    show ?thesis
      using b(2) by (simp only: v vlqLengthLoop_step [OF "1.prems"(5) shl]) simp
  qed
qed

lemma vlqLengthLoop_result:
  "vlqLengthLoop label maxPayload rest len shift = Inr (len', p) \<Longrightarrow>
     \<not> exceeds maxPayload len' \<and> (\<exists>k. p = drop k rest)"
proof (induction label maxPayload rest len shift rule: vlqLengthLoop.induct)
  case (1 label maxPayload rest len shift)
  define l where "l = len OR jsShl (hexPair (take 2 rest) AND 127) shift"
  have ok: "\<not> (length rest < 2 \<or> 28 < shift)" and bound: "\<not> exceeds maxPayload l"
    using "1.prems" by (subst (asm) vlqLengthLoop.simps, simp add: l_def exceeds_def Let_def split: if_splits)+
  show ?case
  proof (cases "hexPair (take 2 rest) AND 128 = 0")
    case True
    with "1.prems" ok bound have "len' = l" "p = drop 2 rest"
      by (subst (asm) vlqLengthLoop.simps, simp add: l_def exceeds_def Let_def split: if_splits)+
    with bound show ?thesis by auto
  next
    case False
    with "1.prems" ok bound
    have "vlqLengthLoop label maxPayload (drop 2 rest) l (shift + 7) = Inr (len', p)"
      by (subst (asm) vlqLengthLoop.simps) (simp add: l_def exceeds_def Let_def split: if_splits)
    with "1.IH" ok bound False have "\<not> exceeds maxPayload len' \<and> (\<exists>k. p = drop k (drop 2 rest))"
      by (simp add: l_def exceeds_def)
    then show ?thesis by auto
  qed
qed

lemma encodeColl_shape:
  "int (length data) < 2 ^ 31 \<Longrightarrow>
     encodeCollByteRegister data = ''0e'' @ toHex (vlqBigint (int (length data))) @ toHex data"
  by (simp add: encodeCollByteRegister_def vlq_eq_vlqBigint)

lemma hex_0e: "list_all isHexChar ''0e''"
  by (simp add: isHexChar_def hexVal_def code_def)

lemma decodeWithin_encode:
  assumes len: "int (length data) < 2 ^ 31" and m: "case maxPayload of None \<Rightarrow> True | Some m \<Rightarrow> 0 \<le> m"
  shows "decodeCollByteRegisterWithin (encodeCollByteRegister data) label maxPayload =
          (if exceeds maxPayload (int (length data)) then Inl (ExceedsPayloadBound label)
           else Inr (toHex data))"
proof -
  let ?v = "vlqBigint (int (length data))" and ?r = "encodeCollByteRegister data"
  have r: "?r = ''0e'' @ toHex ?v @ toHex data" using len by (rule encodeColl_shape)
  have no0x: "take 2 ?r \<noteq> ''0x''" by (simp add: r)
  have "length ?v \<le> 5" by (rule vlqBigint_length) (use len in auto)
  then have early: "exceeds maxPayload (int (length data))"
    if "case maxPayload of None \<Rightarrow> False | Some m \<Rightarrow> int (length ?r) > (m + 6) * 2"
    using that by (auto simp: exceeds_def r split: option.splits)
  have loop: "vlqLengthLoop label maxPayload (drop 2 ?r) 0 0 =
          (if exceeds maxPayload (int (length data)) then Inl (ExceedsPayloadBound label)
           else Inr (int (length data), toHex data))"
    using vlqLengthLoop_vlq [of "int (length data)" 0 0 label maxPayload "toHex data"] len
    by (simp add: r)
  have hex: "?r \<noteq> [] \<and> list_all isHexChar ?r \<and> length ?r mod 2 = 0 \<and> take 2 ?r = ''0e''"
    using hex_0e by (simp add: r)
  show ?thesis
    using early loop
    by (cases maxPayload) (auto simp: decodeCollByteRegisterWithin_def no0x hex require_def Let_def)
qed

text \<open>C38. The bounded byte-array codec is exact: reading back an encoded array returns precisely its
  bytes when they fit the bound the caller sets, and is refused with the bound error when they do
  not.\<close>

theorem boundedRegister_exact:
  assumes "int (length data) < 2 ^ 31" and "isSafeInteger m" and "0 \<le> m"
  shows "decodeBoundedCollByteRegister (encodeCollByteRegister data) label m =
          (if int (length data) \<le> m then Inr (toHex data) else Inl (ExceedsPayloadBound label))"
  using assms decodeWithin_encode [of data "Some m" label]
  by (simp add: decodeBoundedCollByteRegister_def exceeds_def)

theorem boundedRegister_exact_witness:
  "decodeBoundedCollByteRegister (encodeCollByteRegister [1, 171]) ''R4'' 2 = Inr ''01ab'' \<and>
   decodeBoundedCollByteRegister (encodeCollByteRegister [1, 171]) ''R4'' 1
     = Inl (ExceedsPayloadBound ''R4'')"
proof -
  have "toHex [1, 171] = ''01ab''" by (simp add: hexDigit_def) code_simp
  then show ?thesis
    using boundedRegister_exact [of "[1, 171]" 2 "''R4''"] boundedRegister_exact [of "[1, 171]" 1 "''R4''"]
    by (simp add: safe_defs)
qed

text \<open>Whatever text a node returns, the bounded reader yields lower-case hexadecimal of at most
  the bound's number of bytes, or an error.\<close>

theorem boundedRegister_bound:
  assumes "decodeBoundedCollByteRegister registerHex label m = Inr p"
  shows "int (length p) \<le> 2 * m \<and> even (length p) \<and> list_all isLowerHexChar p"
proof -
  from assms obtain clean len payload
    where clean: "list_all isHexChar clean"
      and loop: "vlqLengthLoop label (Some m) (drop 2 clean) 0 0 = Inr (len, payload)"
      and len: "int (length payload) = len * 2" and p: "p = lowerStr payload"
    by (auto simp: decodeBoundedCollByteRegister_def decodeCollByteRegisterWithin_def Let_def
        result_simps split: if_splits)
  from vlqLengthLoop_result [OF loop] obtain k
    where bound: "len \<le> m" and k: "payload = drop k (drop 2 clean)"
    by (auto simp: exceeds_def)
  have "list_all isHexChar payload" using clean unfolding k by (auto simp: list_all_iff dest: in_set_dropD)
  moreover have "even (length payload)" using len by presburger
  ultimately show ?thesis using len bound p by (simp add: list_all_lowerStr)
qed

theorem boundedRegister_bound_witness:
  "length ''01ab'' \<le> 2 * 2 \<and> even (length ''01ab'') \<and> list_all isLowerHexChar ''01ab''"
proof -
  have "toHex [1, 171] = ''01ab''" by (simp add: hexDigit_def) code_simp
  then have "decodeBoundedCollByteRegister (encodeCollByteRegister [1, 171]) ''R4'' 2 = Inr ''01ab''"
    using decodeWithin_encode [of "[1, 171]" "Some 2" "''R4''"]
    by (simp add: decodeBoundedCollByteRegister_def exceeds_def safe_defs)
  from boundedRegister_bound [OF this] show ?thesis by simp
qed


section \<open>Long and Int registers\<close>

definition zigzag :: "int \<Rightarrow> int" where
  "zigzag n = (if n \<ge> 0 then 2 * n else - 2 * n - 1)"

lemma zigzag_encode:
  "- (2 ^ k) \<le> n \<Longrightarrow> n < 2 ^ k \<Longrightarrow>
     (if n \<ge> 0 then push_bit 1 n else push_bit 1 n XOR drop_bit k n) = zigzag n"
proof (cases "0 \<le> n")
  case False
  assume "- (2 ^ k) \<le> n" "n < 2 ^ k"
  with False have "drop_bit k n = -1"
    by (simp add: drop_bit_eq_div int_div_pos_eq [of n "2 ^ k" "- 1" "n + 2 ^ k"])
  with False show ?thesis by (simp add: zigzag_def push_bit_eq_mult not_int_def)
qed (simp add: zigzag_def push_bit_eq_mult)

lemma zigzag_decode: "drop_bit 1 (zigzag n) XOR - (zigzag n AND 1) = n"
proof (cases "0 \<le> n")
  case False
  then have "zigzag n div 2 = - n - 1" "zigzag n AND 1 = 1"
    by (auto simp: zigzag_def and_one_eq) presburger+
  then show ?thesis by (simp add: drop_bit_eq_div not_int_def)
qed (simp add: zigzag_def drop_bit_eq_div and_one_eq)

lemma zigzag_bounds: "- (2 ^ k) \<le> n \<Longrightarrow> n < 2 ^ k \<Longrightarrow> 0 \<le> zigzag n \<and> zigzag n < 2 ^ Suc k"
  by (auto simp: zigzag_def)

lemma normalize_hex:
  "s \<noteq> [] \<Longrightarrow> list_all isLowerHexChar s \<Longrightarrow> even (length s) \<Longrightarrow> normalizeSerializedConstant s = Inr s"
  by (simp add: normalizeSerializedConstant_def strip0x_lowerHex list_all_lowerHex_isHex
      lowerStr_lowerHex Let_def even_iff_mod_2_eq_zero)

lemma decodeSignedScalar_vlq:
  assumes z: "0 \<le> z" "z < 2 ^ width" and w: "width = 64 \<or> width = 32"
  shows "decodeCanonicalSignedScalar (toHex (ty # vlqBigint z)) ty width label =
           Inr (drop_bit 1 z XOR - (z AND 1))"
proof -
  let ?limit = "if width = 64 then 10 else 5 :: nat"
  have "z < 128 ^ ?limit" using z w by (auto simp: less_le_trans)
  then have len: "length (vlqBigint z) \<le> ?limit" using z by (intro vlqBigint_length) auto
  then have "signedScalarLoop label ?limit (vlqBigint z) 0 0 0 = Inr (z, length (vlqBigint z))"
    using signedScalarLoop_vlq [of z 0 0 0 ?limit label] z by simp
  moreover have "normalizeSerializedConstant (toHex (ty # vlqBigint z)) = Inr (toHex (ty # vlqBigint z))"
    by (rule normalize_hex) (simp, rule toHex_lowerHex, simp only: length_toHex, simp)
  moreover have "\<not> length (ty # vlqBigint z) < 2" by (cases "vlqBigint z") auto
  ultimately show ?thesis
    using z last_vlqBigint [of z]
    by (simp add: decodeCanonicalSignedScalar_def Let_def del: toHex.simps)
qed

lemma hex_types: "''05'' = toHex [5]" "''04'' = toHex [4]"
  by (simp_all add: hexDigit_def) code_simp+

lemma encodeLong_eq:
  "- (2 ^ 63) \<le> n \<Longrightarrow> n < 2 ^ 63 \<Longrightarrow> encodeLongRegister (BigV n) = Inr (toHex (5 # vlqBigint (zigzag n)))"
  using zigzag_encode [of 63 n] toHex_append [of "[5]" "vlqBigint (zigzag n)"]
  by (simp add: encodeLongRegister_def Let_def hex_types del: toHex.simps)

lemma encodeLong_range: "encodeLongRegister (BigV n) = Inr w \<Longrightarrow> - (2 ^ 63) \<le> n \<and> n < 2 ^ 63"
  by (simp add: encodeLongRegister_def Let_def result_simps)

lemma encodeInt_eq:
  "- (2 ^ 31) \<le> n \<Longrightarrow> n < 2 ^ 31 \<Longrightarrow> encodeIntRegister n = Inr (toHex (4 # vlqBigint (zigzag n)))"
  using zigzag_encode [of 31 n] toHex_append [of "[4]" "vlqBigint (zigzag n)"]
  by (simp add: encodeIntRegister_def Let_def hex_types del: toHex.simps)

lemma encodeInt_range: "encodeIntRegister n = Inr w \<Longrightarrow> - (2 ^ 31) \<le> n \<and> n < 2 ^ 31"
  by (simp add: encodeIntRegister_def Let_def result_simps)

lemma normalize_toHex: "bs \<noteq> [] \<Longrightarrow> normalizeSerializedConstant (toHex bs) = Inr (toHex bs)"
  by (rule normalize_hex) (cases bs, auto)

interpretation long: canonical_codec
  "\<lambda>n. - (2 ^ 63) \<le> n \<and> n < 2 ^ 63" "\<lambda>n. encodeLongRegister (BigV n)"
  "\<lambda>w. decodeCanonicalLongRegister w label" "\<lambda>w. projr (normalizeSerializedConstant w)"
  for label
proof
  fix n :: int and w
  assume n: "- (2 ^ 63) \<le> n \<and> n < 2 ^ 63"
  then show "isOk (encodeLongRegister (BigV n))" by (simp add: encodeLong_eq)
  assume "encodeLongRegister (BigV n) = Inr w"
  with n have w: "w = toHex (5 # vlqBigint (zigzag n))" by (simp add: encodeLong_eq)
  have "decodeCanonicalSignedScalar w 5 64 label = Inr n"
    unfolding w using n zigzag_bounds [of 63 n] decodeSignedScalar_vlq [of "zigzag n" 64 5 label]
    by (simp add: zigzag_decode [unfolded One_nat_def] del: toHex.simps)
  then show "decodeCanonicalLongRegister w label = Inr n"
    using n by (simp add: decodeCanonicalLongRegister_def encodeLong_eq w normalize_toHex del: toHex.simps)
next
  fix w n
  assume "decodeCanonicalLongRegister w label = Inr n"
  then show "encodeLongRegister (BigV n) = Inr (projr (normalizeSerializedConstant w))"
    by (auto simp: decodeCanonicalLongRegister_def result_simps)
qed

interpretation int: canonical_codec
  "\<lambda>n. - (2 ^ 31) \<le> n \<and> n < 2 ^ 31" encodeIntRegister
  "\<lambda>w. decodeCanonicalIntRegister w label" "\<lambda>w. projr (normalizeSerializedConstant w)"
  for label
proof
  fix n :: int and w
  assume n: "- (2 ^ 31) \<le> n \<and> n < 2 ^ 31"
  then show "isOk (encodeIntRegister n)" by (simp add: encodeInt_eq)
  assume "encodeIntRegister n = Inr w"
  with n have w: "w = toHex (4 # vlqBigint (zigzag n))" by (simp add: encodeInt_eq)
  have "decodeCanonicalSignedScalar w 4 32 label = Inr n"
    unfolding w using n zigzag_bounds [of 31 n] decodeSignedScalar_vlq [of "zigzag n" 32 4 label]
    by (simp add: zigzag_decode [unfolded One_nat_def] del: toHex.simps)
  then show "decodeCanonicalIntRegister w label = Inr n"
    using n by (simp add: decodeCanonicalIntRegister_def encodeInt_eq w normalize_toHex safe_defs
        del: toHex.simps)
next
  fix w n
  assume "decodeCanonicalIntRegister w label = Inr n"
  then show "encodeIntRegister n = Inr (projr (normalizeSerializedConstant w))"
    by (auto simp: decodeCanonicalIntRegister_def result_simps)
qed

lemma normalize_idem: "normalizeSerializedConstant w = Inr c \<Longrightarrow> normalizeSerializedConstant c = Inr c"
  by (rule normalize_hex)
    (auto simp: normalizeSerializedConstant_def Let_def result_simps list_all_lowerStr)

lemma decodeScalar_normalize:
  "normalizeSerializedConstant w = Inr c \<Longrightarrow>
     decodeCanonicalSignedScalar w ty width label = decodeCanonicalSignedScalar c ty width label"
  by (simp add: decodeCanonicalSignedScalar_def normalize_idem)

text \<open>The canonical Long reader accepts exactly the encodings of signed 64-bit values: a register
  decodes to \<open>n\<close> if and only if, up to letter case and an optional 0x, it is the encoder's output
  for \<open>n\<close>.\<close>

theorem canonicalLong_exact:
  "decodeCanonicalLongRegister w label = Inr n \<longleftrightarrow>
     (\<exists>c. normalizeSerializedConstant w = Inr c \<and> encodeLongRegister (BigV n) = Inr c)"
proof
  assume d: "decodeCanonicalLongRegister w label = Inr n"
  then obtain c where "normalizeSerializedConstant w = Inr c"
    by (auto simp: decodeCanonicalLongRegister_def result_simps)
  with long.canonical [OF d] show "\<exists>c. normalizeSerializedConstant w = Inr c \<and> encodeLongRegister (BigV n) = Inr c"
    by simp
next
  assume "\<exists>c. normalizeSerializedConstant w = Inr c \<and> encodeLongRegister (BigV n) = Inr c"
  then obtain c where c: "normalizeSerializedConstant w = Inr c" "encodeLongRegister (BigV n) = Inr c"
    by blast
  then have "decodeCanonicalLongRegister c label = Inr n"
    using long.round_trip encodeLong_range by blast
  then show "decodeCanonicalLongRegister w label = Inr n"
    using c normalize_idem [OF c(1)]
    by (simp add: decodeCanonicalLongRegister_def decodeScalar_normalize [OF c(1)])
qed

text \<open>The canonical Int reader, likewise, over signed 32-bit values.\<close>

theorem canonicalInt_exact:
  "decodeCanonicalIntRegister w label = Inr n \<longleftrightarrow>
     (\<exists>c. normalizeSerializedConstant w = Inr c \<and> encodeIntRegister n = Inr c)"
proof
  assume d: "decodeCanonicalIntRegister w label = Inr n"
  then obtain c where "normalizeSerializedConstant w = Inr c"
    by (auto simp: decodeCanonicalIntRegister_def result_simps)
  with int.canonical [OF d] show "\<exists>c. normalizeSerializedConstant w = Inr c \<and> encodeIntRegister n = Inr c"
    by simp
next
  assume "\<exists>c. normalizeSerializedConstant w = Inr c \<and> encodeIntRegister n = Inr c"
  then obtain c where c: "normalizeSerializedConstant w = Inr c" "encodeIntRegister n = Inr c"
    by blast
  then have "decodeCanonicalIntRegister c label = Inr n"
    using int.round_trip encodeInt_range by blast
  then show "decodeCanonicalIntRegister w label = Inr n"
    using c normalize_idem [OF c(1)]
    by (simp add: decodeCanonicalIntRegister_def decodeScalar_normalize [OF c(1)])
qed


section \<open>AvlTree registers and the ErgoTree size bit\<close>

lemma hexNat_hex: "hexNat n \<noteq> [] \<and> list_all isHexChar (hexNat n)"
proof (induction n rule: hexNat.induct)
  case (1 n)
  then show ?case
    by (subst (1 2) hexNat.simps) (auto simp: lowerHex_isHex isLowerHexChar_hexDigit)
qed

lemma padStart2_hex: "list_all isHexChar s \<Longrightarrow> list_all isHexChar (padStart2 s)"
proof -
  have "isHexChar (CHR ''0'')" by (simp add: isHexChar_def hexVal_def code_def)
  then show "list_all isHexChar s \<Longrightarrow> list_all isHexChar (padStart2 s)"
    by (auto simp: padStart2_def list_all_iff)
qed

text \<open>The digest read from an AvlTree register is the digest it was written with, whatever the
  flags and the optional value length.\<close>

theorem avlDigest_roundtrip:
  assumes "length digest33 = 33"
  shows "decodeAvlTreeRegisterDigest (encodeAvlTreeRegister digest33 flags valueLengthOpt) label
           = Inr (toHex digest33)"
proof -
  let ?tail = "padStart2 (hexNat flags) @ toHex (vlq 32) @
     (case valueLengthOpt of None \<Rightarrow> ''00'' | Some v \<Rightarrow> ''01'' @ toHex (vlq v))"
  let ?r = "encodeAvlTreeRegister digest33 flags valueLengthOpt"
  have r: "?r = ''64'' @ toHex digest33 @ ?tail" by (simp add: encodeAvlTreeRegister_def)
  have digits: "list_all isHexChar ''64''" "list_all isHexChar ''00''" "list_all isHexChar ''01''"
    by (simp_all add: isHexChar_def hexVal_def code_def)
  have "list_all isHexChar ?tail"
    using hexNat_hex [of flags] padStart2_hex digits by (auto split: option.splits)
  then have hex: "list_all isHexChar ?r" using digits by (simp add: r)
  have "lowerStr ''64'' = ''64''" by (rule lowerStr_lowerHex) (simp add: isLowerHexChar_def code_def)
  then show ?thesis
    using assms hex unfolding decodeAvlTreeRegisterDigest_def strip0x_lowerHex [OF hex]
    by (simp add: r)
qed

theorem avlDigest_roundtrip_witness:
  "decodeAvlTreeRegisterDigest (encodeAvlTreeRegister (replicate 33 7) 1 (Some 1)) ''R5''
     = Inr (toHex (replicate 33 7))"
  by (rule avlDigest_roundtrip) simp

lemma sizeBit_header: "(h OR 8 :: byte) AND 8 \<noteq> 0"
proof
  assume "(h OR 8) AND 8 = 0"
  then have "\<not> bit ((h OR 8) AND 8) 3" by simp
  then show False by (simp add: bit_simps)
qed

text \<open>Setting the size bit is idempotent, and afterwards every tree of a versioned format carries
  the bit.\<close>

theorem ensureSizeBit_idempotent:
  "ensureSizeBit (ensureSizeBit tree) = ensureSizeBit tree \<and>
   (\<forall>h body. fromHex (ensureSizeBit tree) = h # body \<longrightarrow> h AND 7 = 0 \<or> h AND 8 \<noteq> 0)"
proof (cases "fromHex tree")
  case Nil
  then show ?thesis by (simp add: ensureSizeBit_def)
next
  case (Cons header body)
  show ?thesis
  proof (cases "header AND 7 = 0 \<or> header AND 8 \<noteq> 0")
    case True
    with Cons have "ensureSizeBit tree = tree" by (simp add: ensureSizeBit_def)
    with Cons True show ?thesis by simp
  next
    case False
    with Cons have e: "ensureSizeBit tree = toHex ((header OR 8) # vlq (int (length body)) @ body)"
      by (simp add: ensureSizeBit_def del: toHex.simps)
    then have f: "fromHex (ensureSizeBit tree) = (header OR 8) # vlq (int (length body)) @ body"
      by (simp only: fromHex_toHex)
    then have "ensureSizeBit (ensureSizeBit tree) = ensureSizeBit tree"
      using sizeBit_header [of header] by (simp add: ensureSizeBit_def [of "ensureSizeBit tree"])
    with f sizeBit_header [of header] show ?thesis by simp
  qed
qed

theorem ensureSizeBit_idempotent_witness:
  "ensureSizeBit (ensureSizeBit ''19d193'') = ensureSizeBit ''19d193''"
  using ensureSizeBit_idempotent [of "''19d193''"] by simp

end
