(* ===== verification/Merkle_Levels.thy ===== *)
theory Merkle_Levels
  imports Bridge_Prelude
begin

text \<open>
  Level-by-level hash trees, as the burn commitment, the Ergo extension tree and the Scorex
  transaction tree build them: a level is paired left to right, \<open>f\<close> combines a pair, and \<open>g\<close> treats
  the node left over at the end of an odd level. What the three trees share is proved here once.
\<close>

fun pairUp :: "('a \<Rightarrow> 'a \<Rightarrow> 'b) \<Rightarrow> ('a \<Rightarrow> 'b) \<Rightarrow> 'a list \<Rightarrow> 'b list" where
  "pairUp f g [] = []"
| "pairUp f g [x] = [g x]"
| "pairUp f g (x # y # r) = f x y # pairUp f g r"

lemma length_pairUp [simp]: "length (pairUp f g xs) = (length xs + 1) div 2"
  by (induction f g xs rule: pairUp.induct) auto

lemma pairUp_shorter: "1 < length xs \<Longrightarrow> length (pairUp f g xs) < length xs"
  by simp

lemma pairUp_eq_Nil [simp]: "pairUp f g xs = [] \<longleftrightarrow> xs = []"
  by (cases "(f, g, xs)" rule: pairUp.cases) auto

lemma nth_pairUp:
  "i < length xs \<Longrightarrow> pairUp f g xs ! (i div 2) =
     (if odd i then f (xs ! (i - 1)) (xs ! i)
      else if i + 1 < length xs then f (xs ! i) (xs ! (i + 1)) else g (xs ! i))"
proof (induction f g xs arbitrary: i rule: pairUp.induct)
  case (3 f g x y r)
  show ?case
  proof (cases "i < 2")
    case True
    then have "i = 0 \<or> i = 1" by auto
    then show ?thesis by auto
  next
    case False
    then obtain j where j: "i = Suc (Suc j)" by (metis add_2_eq_Suc le_Suc_ex not_less)
    with 3 have "pairUp f g r ! (j div 2) = (if odd j then f (r ! (j - 1)) (r ! j)
      else if j + 1 < length r then f (r ! j) (r ! (j + 1)) else g (r ! j))" by simp
    then show ?thesis by (cases j) (auto simp: j)
  qed
qed auto

lemma set_pairUp:
  "v \<in> set (pairUp f g xs) \<Longrightarrow>
     (\<exists>a \<in> set xs. \<exists>b \<in> set xs. v = f a b) \<or> (\<exists>a \<in> set xs. v = g a)"
  by (induction f g xs rule: pairUp.induct) auto

lemma pairUp_map: "map h (pairUp f g xs) = pairUp (\<lambda>a b. h (f a b)) (\<lambda>a. h (g a)) xs"
  by (induction f g xs rule: pairUp.induct) auto

text \<open>The membership contract every tree of the bridge offers: each committed leaf has a proof the
  verifier accepts against the commitment.\<close>

locale membership_scheme =
  fixes ok :: "'l list \<Rightarrow> bool"
    and commit :: "'l list \<Rightarrow> 'r"
    and prove :: "'l list \<Rightarrow> nat \<Rightarrow> 'p"
    and verify :: "'l \<Rightarrow> 'p \<Rightarrow> 'r \<Rightarrow> bool"
  assumes complete: "ok ls \<Longrightarrow> i < length ls \<Longrightarrow> verify (ls ! i) (prove ls i) (commit ls)"
begin

lemma member_verifies: "ok ls \<Longrightarrow> l \<in> set ls \<Longrightarrow> \<exists>p. verify l p (commit ls)"
  using complete by (auto simp: in_set_conv_nth)

end

text \<open>A checksum of digest length, for the concrete runs of the trees.\<close>

definition demoHash :: "bytes \<Rightarrow> bytes" where
  "demoHash bs = replicate 31 0 @ [sum_list bs]"

lemma length_demoHash [simp]: "length (demoHash bs) = 32"
  by (simp add: demoHash_def)

lemma demoHash_eq [simp]: "demoHash a = demoHash b \<longleftrightarrow> sum_list a = sum_list b"
  by (simp add: demoHash_def)

end
