(* ===== verification/Burn_Proof.thy ===== *)
theory Burn_Proof
  imports Merkle_Levels
begin

text \<open>
  The burn leaf and its Merkle commitment: \<^verbatim>\<open>ergo-settlement-core/trustless-burn-id.ts\<close> and
  \<^verbatim>\<open>profiles/substrate-grandpa-v1/trustless-burn-proof.ts\<close>.

  BLAKE2b comes from the package \<^verbatim>\<open>blakejs\<close>; it is the parameter \<open>H\<close> (the 32-byte digest of a byte
  string). The only facts about it ever assumed are that a digest has 32 bytes and, where a theorem
  says so, that no two of the finitely many strings hashed in the runs at hand collide.
\<close>

section \<open>Definitions\<close>

datatype burn_error =
    MustBeHex string
  | WrongByteLength string
  | MustBeNonNegativeInteger string
  | MustFitUint32 string
  | MustBeSafeInteger string
  | MustFitUint64 string
  | MustFitPositiveErgoLong string
  | BurnIdMismatch
  | EmptyCommitment
  | DuplicateBurnId string
  | BurnIdNotPresent string
  | TargetIndexOutOfRange
  | BadProofSide

datatype js_scalar = SNum int | SBig int | SStr string

definition asciiBytes :: "string \<Rightarrow> bytes" where
  "asciiBytes s = map (\<lambda>c. of_nat (code c)) s"

definition BURN_ID_DOMAIN :: bytes where
  "BURN_ID_DOMAIN = asciiBytes ''E2S_TRUSTLESS_BURN_ID_V1''"

definition LEAF_DOMAIN :: bytes where
  "LEAF_DOMAIN = asciiBytes ''E2S_TRUSTLESS_BURN_LEAF_V1''"

definition NODE_DOMAIN :: bytes where
  "NODE_DOMAIN = asciiBytes ''E2S_TRUSTLESS_BURN_NODE_V1''"

definition BURN_LEAF_FORMAT_VERSION :: byte where
  "BURN_LEAF_FORMAT_VERSION = 1"

definition NATIVE_ERG_ASSET_ID_HEX :: string where
  "NATIVE_ERG_ASSET_ID_HEX = replicate 64 (CHR ''0'')"

definition normalizeHex :: "string \<Rightarrow> nat \<Rightarrow> string \<Rightarrow> burn_error + string" where
  "normalizeHex hex expectedBytes label =
     (let clean = strip0x hex in
      require (clean \<noteq> [] \<and> list_all isHexChar clean) (MustBeHex label)
      (require (length clean = expectedBytes * 2) (WrongByteLength label)
       (Inr (lowerStr clean))))"

text \<open>\<^verbatim>\<open>String(value)\<close> of an integral number is decimal below \<open>10 ^ 21\<close>, exponential from there on,
  and starts with a minus sign when negative; \<open>digitsOf\<close> is the value when the text is all digits.\<close>

definition digitsOf :: "js_scalar \<Rightarrow> int option" where
  "digitsOf value = (case value of
       SNum n \<Rightarrow> if 0 \<le> n \<and> n < 10 ^ 21 then Some n else None
     | SBig n \<Rightarrow> if 0 \<le> n then Some n else None
     | SStr s \<Rightarrow> if allDigits s then Some (decVal s) else None)"

definition normalizeUint32 :: "js_scalar \<Rightarrow> string \<Rightarrow> burn_error + int" where
  "normalizeUint32 value label = (case digitsOf value of
       None \<Rightarrow> Inl (MustBeNonNegativeInteger label)
     | Some parsed \<Rightarrow>
         require (\<not> (\<not> isSafeInteger parsed \<or> parsed > 0xffffffff)) (MustFitUint32 label) (Inr parsed))"

definition uint32Be :: "int \<Rightarrow> bytes" where
  "uint32Be v = beBytes 4 (nat v)"

definition uint64Be :: "int \<Rightarrow> bytes" where
  "uint64Be v = beBytes 8 (nat v)"

definition deriveTrustlessBurnIdHex ::
  "(bytes \<Rightarrow> bytes) \<Rightarrow> string \<Rightarrow> string \<Rightarrow> js_scalar \<Rightarrow> burn_error + string" where
  "deriveTrustlessBurnIdHex H sidechainIdHex0 sidechainTxHashHex0 eventIndex0 =
     andThen (normalizeHex sidechainIdHex0 32 ''sidechainId'') (\<lambda>sidechainIdHex.
     andThen (normalizeHex sidechainTxHashHex0 32 ''sidechainTxHash'') (\<lambda>sidechainTxHashHex.
     andThen (normalizeUint32 eventIndex0 ''eventIndex'') (\<lambda>eventIndex.
     Inr (toHex (H (BURN_ID_DOMAIN @ fromHex sidechainIdHex @ fromHex sidechainTxHashHex
                    @ uint32Be eventIndex))))))"

definition normalizeUint64 :: "js_scalar \<Rightarrow> string \<Rightarrow> burn_error + int" where
  "normalizeUint64 value label =
     require (case value of SNum n \<Rightarrow> \<not> n < 0 | _ \<Rightarrow> True) (MustBeNonNegativeInteger label)
     (require (case value of SNum n \<Rightarrow> isSafeInteger n | _ \<Rightarrow> True) (MustBeSafeInteger label)
     (case digitsOf value of
        None \<Rightarrow> Inl (MustBeNonNegativeInteger label)
      | Some parsed \<Rightarrow>
          require (\<not> parsed > 0xffffffffffffffff) (MustFitUint64 label) (Inr parsed)))"

definition normalizePositiveErgoLong :: "js_scalar \<Rightarrow> string \<Rightarrow> burn_error + int" where
  "normalizePositiveErgoLong value label =
     andThen (normalizeUint64 value label) (\<lambda>parsed.
     require (\<not> (parsed = 0 \<or> parsed > 0x7fffffffffffffff)) (MustFitPositiveErgoLong label)
       (Inr parsed))"

record burn_leaf_input =
  sidechainIdHex :: string
  sidechainBlockHashHex :: string
  burnIdHex :: string
  sidechainTxHashHex :: string
  eventIndex :: js_scalar
  recipientErgoTreeHashHex :: string
  amountNanoErg :: js_scalar
  assetIdHex :: "string option"

record burn_leaf =
  lSidechainIdHex :: string
  lSidechainBlockHashHex :: string
  lBurnIdHex :: string
  lSidechainTxHashHex :: string
  lEventIndex :: int
  lRecipientErgoTreeHashHex :: string
  lAmountNanoErg :: string
  lAssetIdHex :: string
  lEncodedLeafHex :: string
  lLeafHashHex :: string

text \<open>\<^verbatim>\<open>input.assetIdHex ? normalizeHex(...) : profile default\<close>: an empty string selects the default.\<close>

definition selectAssetId :: "string option \<Rightarrow> burn_error + string" where
  "selectAssetId a = (case a of
       None \<Rightarrow> Inr NATIVE_ERG_ASSET_ID_HEX
     | Some s \<Rightarrow> if s = [] then Inr NATIVE_ERG_ASSET_ID_HEX else normalizeHex s 32 ''assetId'')"

definition encodeTrustlessBurnLeaf :: "(bytes \<Rightarrow> bytes) \<Rightarrow> burn_leaf_input \<Rightarrow> burn_error + burn_leaf" where
  "encodeTrustlessBurnLeaf H input =
     andThen (normalizeHex (sidechainIdHex input) 32 ''sidechainId'') (\<lambda>sid.
     andThen (normalizeHex (sidechainBlockHashHex input) 32 ''sidechainBlockHash'') (\<lambda>blk.
     andThen (normalizeHex (sidechainTxHashHex input) 32 ''sidechainTxHash'') (\<lambda>tx.
     andThen (normalizeUint32 (eventIndex input) ''eventIndex'') (\<lambda>ev.
     andThen (normalizeHex (burnIdHex input) 32 ''burnId'') (\<lambda>burn.
     andThen (deriveTrustlessBurnIdHex H sid tx (SNum ev)) (\<lambda>derived.
     require (burn = derived) BurnIdMismatch
     (andThen (normalizeHex (recipientErgoTreeHashHex input) 32 ''recipientErgoTreeHash'') (\<lambda>rcpt.
      andThen (normalizePositiveErgoLong (amountNanoErg input) ''amountNanoErg'') (\<lambda>amt.
      andThen (selectAssetId (assetIdHex input)) (\<lambda>asset.
      let encodedLeaf = [BURN_LEAF_FORMAT_VERSION] @ fromHex sid @ fromHex blk @ fromHex burn
            @ fromHex tx @ uint32Be ev @ fromHex rcpt @ uint64Be amt @ fromHex asset
      in Inr \<lparr> lSidechainIdHex = sid, lSidechainBlockHashHex = blk, lBurnIdHex = burn,
               lSidechainTxHashHex = tx, lEventIndex = ev, lRecipientErgoTreeHashHex = rcpt,
               lAmountNanoErg = decStr (nat amt), lAssetIdHex = asset,
               lEncodedLeafHex = toHex encodedLeaf,
               lLeafHashHex = toHex (H (LEAF_DOMAIN @ encodedLeaf)) \<rparr>))))))))))"

definition hashParent :: "(bytes \<Rightarrow> bytes) \<Rightarrow> bytes \<Rightarrow> bytes \<Rightarrow> bytes" where
  "hashParent H left right = H (NODE_DOMAIN @ left @ right)"

text \<open>\<^verbatim>\<open>level[index + 1] ?? left\<close>: the last node of an odd level is paired with itself.\<close>

fun nextMerkleLevel :: "(bytes \<Rightarrow> bytes) \<Rightarrow> bytes list \<Rightarrow> bytes list" where
  "nextMerkleLevel H [] = []"
| "nextMerkleLevel H [left] = [hashParent H left left]"
| "nextMerkleLevel H (left # right # rest) = hashParent H left right # nextMerkleLevel H rest"

lemma nextMerkleLevel_pairUp: "nextMerkleLevel H xs = pairUp (hashParent H) (\<lambda>x. hashParent H x x) xs"
  by (induction H xs rule: nextMerkleLevel.induct) auto

text \<open>Only ever called on a nonempty level (the commitment refuses an empty list of leaves).\<close>

function merkleRoot :: "(bytes \<Rightarrow> bytes) \<Rightarrow> bytes list \<Rightarrow> bytes" where
  "merkleRoot H level =
     (if length level > 1 then merkleRoot H (nextMerkleLevel H level)
      else case level of [] \<Rightarrow> [] | node # _ \<Rightarrow> node)"
  by pat_completeness auto
termination
  by (relation "measure (\<lambda>(H, level). length level)") (auto simp: nextMerkleLevel_pairUp)

datatype proof_side = LeftSide | RightSide | OtherSide string

record merkle_step =
  side :: proof_side
  hashHex :: string

function merkleProofLoop :: "(bytes \<Rightarrow> bytes) \<Rightarrow> bytes list \<Rightarrow> nat \<Rightarrow> merkle_step list" where
  "merkleProofLoop H level index =
     (if length level > 1 then
        let isRight = (index mod 2 = 1);
            siblingIndex = (if isRight then index - 1 else index + 1);
            sibling = (if siblingIndex < length level then level ! siblingIndex else level ! index)
        in \<lparr> side = (if isRight then LeftSide else RightSide), hashHex = toHex sibling \<rparr>
             # merkleProofLoop H (nextMerkleLevel H level) (index div 2)
      else [])"
  by pat_completeness auto
termination
  by (relation "measure (\<lambda>(H, level, index). length level)") (auto simp: nextMerkleLevel_pairUp)

declare merkleRoot.simps [simp del] merkleProofLoop.simps [simp del]

definition merkleProof :: "(bytes \<Rightarrow> bytes) \<Rightarrow> bytes list \<Rightarrow> int \<Rightarrow> burn_error + merkle_step list" where
  "merkleProof H leaves targetIndex =
     require (\<not> (targetIndex < 0 \<or> targetIndex \<ge> int (length leaves))) TargetIndexOutOfRange
       (Inr (merkleProofLoop H leaves (nat targetIndex)))"

fun assertUniqueBurnIds :: "string list \<Rightarrow> burn_leaf list \<Rightarrow> burn_error + unit" where
  "assertUniqueBurnIds seen [] = Inr ()"
| "assertUniqueBurnIds seen (leaf # rest) =
     require (\<not> List.member seen (lBurnIdHex leaf)) (DuplicateBurnId (lBurnIdHex leaf))
       (assertUniqueBurnIds (lBurnIdHex leaf # seen) rest)"

record burn_commitment =
  cBridgeEventRootHex :: string
  cLeaves :: "burn_leaf list"

definition leafHashes :: "burn_leaf list \<Rightarrow> bytes list" where
  "leafHashes leaves = map (\<lambda>leaf. fromHex (lLeafHashHex leaf)) leaves"

definition buildTrustlessBurnCommitment ::
  "(bytes \<Rightarrow> bytes) \<Rightarrow> burn_leaf_input list \<Rightarrow> burn_error + burn_commitment" where
  "buildTrustlessBurnCommitment H burnLeaves =
     require (length burnLeaves \<noteq> 0) EmptyCommitment
     (andThen (mapR (encodeTrustlessBurnLeaf H) burnLeaves) (\<lambda>leaves.
      andThen (assertUniqueBurnIds [] leaves) (\<lambda>_.
      Inr \<lparr> cBridgeEventRootHex = toHex (merkleRoot H (leafHashes leaves)), cLeaves = leaves \<rparr>)))"

record burn_inclusion_proof =
  pBridgeEventRootHex :: string
  pLeaf :: burn_leaf
  pLeafIndex :: int
  pLeafCount :: int
  pProof :: "merkle_step list"

fun findIndexFrom :: "('a \<Rightarrow> bool) \<Rightarrow> nat \<Rightarrow> 'a list \<Rightarrow> int" where
  "findIndexFrom p k [] = -1"
| "findIndexFrom p k (x # xs) = (if p x then int k else findIndexFrom p (Suc k) xs)"

definition buildTrustlessBurnInclusionProof ::
  "(bytes \<Rightarrow> bytes) \<Rightarrow> burn_leaf_input list \<Rightarrow> string \<Rightarrow> burn_error + burn_inclusion_proof" where
  "buildTrustlessBurnInclusionProof H burnLeaves burnId =
     andThen (normalizeHex burnId 32 ''burnId'') (\<lambda>target.
     andThen (buildTrustlessBurnCommitment H burnLeaves) (\<lambda>commitment.
     let leafIndex = findIndexFrom (\<lambda>leaf. lBurnIdHex leaf = target) 0 (cLeaves commitment) in
     require (leafIndex \<noteq> -1) (BurnIdNotPresent target)
     (andThen (merkleProof H (leafHashes (cLeaves commitment)) leafIndex) (\<lambda>steps.
      Inr \<lparr> pBridgeEventRootHex = cBridgeEventRootHex commitment,
            pLeaf = cLeaves commitment ! nat leafIndex, pLeafIndex = leafIndex,
            pLeafCount = int (length (cLeaves commitment)), pProof = steps \<rparr>))))"

fun climb :: "(bytes \<Rightarrow> bytes) \<Rightarrow> bytes \<Rightarrow> merkle_step list \<Rightarrow> burn_error + bytes" where
  "climb H current [] = Inr current"
| "climb H current (step # rest) =
     andThen (normalizeHex (hashHex step) 32 ''proof hash'') (\<lambda>h.
     case side step of
       LeftSide \<Rightarrow> climb H (hashParent H (fromHex h) current) rest
     | RightSide \<Rightarrow> climb H (hashParent H current (fromHex h)) rest
     | OtherSide _ \<Rightarrow> Inl BadProofSide)"

definition verifyTrustlessBurnInclusionProof ::
  "(bytes \<Rightarrow> bytes) \<Rightarrow> burn_leaf_input \<Rightarrow> string \<Rightarrow> merkle_step list \<Rightarrow> burn_error + bool" where
  "verifyTrustlessBurnInclusionProof H leafInput bridgeEventRootHex steps =
     andThen (encodeTrustlessBurnLeaf H leafInput) (\<lambda>leaf.
     andThen (normalizeHex bridgeEventRootHex 32 ''bridgeEventRoot'') (\<lambda>expectedRootHex.
     andThen (climb H (fromHex (lLeafHashHex leaf)) steps) (\<lambda>current.
     Inr (toHex current = expectedRootHex))))"

datatype proof_issue =
    Thrown burn_error
  | EncodedLeafMismatch
  | LeafHashMismatch
  | NotSafeIndex string
  | LeafCountBelowOne
  | LeafIndexTooLarge
  | ProofLengthMismatch nat nat
  | SideMismatch nat
  | UnpairedSiblingMismatch nat
  | RootMismatch
  | DuplicateKeyMismatch
  | RecipientMismatch
  | AmountMismatch
  | AssetMismatch

text \<open>A canonical leaf passed where the code expects a leaf input.\<close>

definition asInput :: "burn_leaf \<Rightarrow> burn_leaf_input" where
  "asInput leaf = \<lparr> sidechainIdHex = lSidechainIdHex leaf,
     sidechainBlockHashHex = lSidechainBlockHashHex leaf, burnIdHex = lBurnIdHex leaf,
     sidechainTxHashHex = lSidechainTxHashHex leaf, eventIndex = SNum (lEventIndex leaf),
     recipientErgoTreeHashHex = lRecipientErgoTreeHashHex leaf,
     amountNanoErg = SStr (lAmountNanoErg leaf), assetIdHex = Some (lAssetIdHex leaf) \<rparr>"

definition parseProofIndex :: "int \<Rightarrow> string \<Rightarrow> int option \<times> proof_issue list" where
  "parseProofIndex value label =
     (if \<not> isSafeInteger value \<or> value < 0 then (None, [NotSafeIndex label]) else (Some value, []))"

fun expectedMerkleProofDepth :: "nat \<Rightarrow> nat" where
  "expectedMerkleProofDepth levelWidth =
     (if levelWidth > 1 then 1 + expectedMerkleProofDepth ((levelWidth + 1) div 2) else 0)"

declare expectedMerkleProofDepth.simps [simp del]

fun validateProofDirections ::
  "(bytes \<Rightarrow> bytes) \<Rightarrow> merkle_step list \<Rightarrow> nat \<Rightarrow> nat \<Rightarrow> nat \<Rightarrow> bytes \<Rightarrow> proof_issue list" where
  "validateProofDirections H [] level index levelWidth current = []"
| "validateProofDirections H (step # rest) level index levelWidth current =
     (if levelWidth > 1 then
        let expectedSide = (if index mod 2 = 1 then LeftSide else RightSide);
            sideIssues = (if side step \<noteq> expectedSide then [SideMismatch level] else [])
        in case normalizeHex (hashHex step) 32 ''proof step hash'' of
             Inl _ \<Rightarrow> sideIssues
           | Inr h \<Rightarrow>
               let sibling = fromHex h;
                   unpairedIssues = (if expectedSide = RightSide \<and> index + 1 \<ge> levelWidth
                                        \<and> sibling \<noteq> current then [UnpairedSiblingMismatch level] else []);
                   current' = (if expectedSide = LeftSide then hashParent H sibling current
                               else hashParent H current sibling)
               in sideIssues @ unpairedIssues
                  @ validateProofDirections H rest (level + 1) (index div 2) ((levelWidth + 1) div 2) current'
      else [])"

text \<open>The last step of both validators: run the inclusion verifier, turning a throw into an issue.\<close>

definition inclusionIssues :: "(bytes \<Rightarrow> bytes) \<Rightarrow> burn_leaf \<Rightarrow> string \<Rightarrow> merkle_step list \<Rightarrow> proof_issue list" where
  "inclusionIssues H leaf root steps =
     (case verifyTrustlessBurnInclusionProof H (asInput leaf) root steps of
        Inl e \<Rightarrow> [Thrown e]
      | Inr okay \<Rightarrow> if \<not> okay then [RootMismatch] else [])"

record proof_validation =
  vOk :: bool
  vErrors :: "proof_issue list"
  vBridgeEventRootHex :: string
  vLeafHashHex :: string

definition proofValidationBlocked :: "proof_issue list \<Rightarrow> string \<Rightarrow> string \<Rightarrow> proof_validation" where
  "proofValidationBlocked errors root leafHash =
     \<lparr> vOk = False, vErrors = errors, vBridgeEventRootHex = root, vLeafHashHex = leafHash \<rparr>"

definition indexIssues :: "burn_inclusion_proof \<Rightarrow> int option \<Rightarrow> int option \<Rightarrow> proof_issue list" where
  "indexIssues input leafCount leafIndex =
     (case leafCount of Some n \<Rightarrow> if n < 1 then [LeafCountBelowOne] else [] | None \<Rightarrow> [])
     @ (case (leafIndex, leafCount) of (Some i, Some n) \<Rightarrow> if i \<ge> n then [LeafIndexTooLarge] else []
                                     | _ \<Rightarrow> [])
     @ (case leafCount of None \<Rightarrow> []
        | Some n \<Rightarrow> let d = expectedMerkleProofDepth (nat n) in
            if length (pProof input) \<noteq> d then [ProofLengthMismatch d (length (pProof input))] else [])"

definition validateTrustlessBurnInclusionProofEnvelope ::
  "(bytes \<Rightarrow> bytes) \<Rightarrow> burn_inclusion_proof \<Rightarrow> proof_validation" where
  "validateTrustlessBurnInclusionProofEnvelope H input =
     (case normalizeHex (pBridgeEventRootHex input) 32 ''bridgeEventRoot'' of
        Inl e \<Rightarrow> proofValidationBlocked [Thrown e] [] []
      | Inr root \<Rightarrow>
          (case encodeTrustlessBurnLeaf H (asInput (pLeaf input)) of
             Inl e \<Rightarrow> proofValidationBlocked [Thrown e] root []
           | Inr leaf \<Rightarrow>
               let leafIssues =
                     (if lEncodedLeafHex (pLeaf input) \<noteq> lEncodedLeafHex leaf then [EncodedLeafMismatch] else [])
                     @ (if lLeafHashHex (pLeaf input) \<noteq> lLeafHashHex leaf then [LeafHashMismatch] else []);
                   (leafCount, countIssues) = parseProofIndex (pLeafCount input) ''leafCount'';
                   (leafIndex, idxIssues) = parseProofIndex (pLeafIndex input) ''leafIndex'';
                   directionIssues =
                     (case (leafIndex, leafCount) of
                        (Some i, Some n) \<Rightarrow>
                          validateProofDirections H (pProof input) 0 (nat i) (nat n) (fromHex (lLeafHashHex leaf))
                      | _ \<Rightarrow> []);
                   errors = leafIssues @ countIssues @ idxIssues @ indexIssues input leafCount leafIndex
                     @ directionIssues @ inclusionIssues H leaf root (pProof input)
               in \<lparr> vOk = (errors = []), vErrors = errors, vBridgeEventRootHex = root,
                    vLeafHashHex = lLeafHashHex leaf \<rparr>))"

record settlement_binding_input =
  bLeaf :: burn_leaf_input
  bBridgeEventRootHex :: string
  bProof :: "merkle_step list"
  bDuplicatePreventionKeyHex :: string
  bRecipientErgoTreeHashHex :: string
  bAmountNanoErg :: js_scalar
  bAssetIdHex :: "string option"

record settlement_binding_result =
  rOk :: bool
  rErrors :: "proof_issue list"
  rBurnIdHex :: string
  rBridgeEventRootHex :: string
  rLeafHashHex :: string

definition blockedResult :: "proof_issue list \<Rightarrow> settlement_binding_result" where
  "blockedResult errors = \<lparr> rOk = False, rErrors = errors, rBurnIdHex = [], rBridgeEventRootHex = [],
     rLeafHashHex = [] \<rparr>"

text \<open>Assignments in one \<^verbatim>\<open>try\<close> block: from the first throw on, the variables keep their initial
  empty strings.\<close>

fun tryAssign :: "(burn_error + string) list \<Rightarrow> string list \<times> proof_issue list" where
  "tryAssign [] = ([], [])"
| "tryAssign (Inl e # rest) = ([] # map (\<lambda>_. []) rest, [Thrown e])"
| "tryAssign (Inr v # rest) = (case tryAssign rest of (vs, issues) \<Rightarrow> (v # vs, issues))"

definition bindIssue :: "string \<Rightarrow> string \<Rightarrow> proof_issue \<Rightarrow> proof_issue list" where
  "bindIssue actual expected issue = (if actual \<noteq> [] \<and> actual \<noteq> expected then [issue] else [])"

definition verifyTrustlessBurnSettlementBinding ::
  "(bytes \<Rightarrow> bytes) \<Rightarrow> settlement_binding_input \<Rightarrow> settlement_binding_result" where
  "verifyTrustlessBurnSettlementBinding H input =
     (case encodeTrustlessBurnLeaf H (bLeaf input) of
        Inl e \<Rightarrow> blockedResult [Thrown e]
      | Inr leaf \<Rightarrow>
          let (vars, issues) = tryAssign
                [normalizeHex (bBridgeEventRootHex input) 32 ''bridgeEventRoot'',
                 normalizeHex (bDuplicatePreventionKeyHex input) 32 ''duplicatePreventionKey'',
                 normalizeHex (bRecipientErgoTreeHashHex input) 32 ''recipientErgoTreeHash'',
                 andThen (normalizePositiveErgoLong (bAmountNanoErg input) ''amountNanoErg'')
                   (\<lambda>amt. Inr (decStr (nat amt))),
                 selectAssetId (bAssetIdHex input)];
              root = vars ! 0;
              errors = issues
                @ bindIssue (vars ! 1) (lBurnIdHex leaf) DuplicateKeyMismatch
                @ bindIssue (vars ! 2) (lRecipientErgoTreeHashHex leaf) RecipientMismatch
                @ bindIssue (vars ! 3) (lAmountNanoErg leaf) AmountMismatch
                @ bindIssue (vars ! 4) (lAssetIdHex leaf) AssetMismatch
                @ (if root \<noteq> [] then inclusionIssues H leaf root (bProof input) else [])
          in \<lparr> rOk = (errors = []), rErrors = errors, rBurnIdHex = lBurnIdHex leaf,
               rBridgeEventRootHex = root, rLeafHashHex = lLeafHashHex leaf \<rparr>)"


section \<open>Normalised text\<close>

definition hexOf :: "nat \<Rightarrow> string \<Rightarrow> bool" where
  "hexOf n s \<longleftrightarrow> list_all isLowerHexChar s \<and> length s = 2 * n"

lemma normalizeHex_hexOf: "normalizeHex h n label = Inr s \<Longrightarrow> hexOf n s"
  by (auto simp: normalizeHex_def hexOf_def Let_def result_simps list_all_lowerStr)

lemma normalizeHex_id: "hexOf n s \<Longrightarrow> 0 < n \<Longrightarrow> normalizeHex s n label = Inr s"
  by (auto simp: normalizeHex_def hexOf_def Let_def strip0x_lowerHex list_all_lowerHex_isHex
      lowerStr_lowerHex require_def)

lemma normalizeHex_toHex: "length bs = n \<Longrightarrow> 0 < n \<Longrightarrow> normalizeHex (toHex bs) n label = Inr (toHex bs)"
  by (rule normalizeHex_id) (simp_all add: hexOf_def)

lemma hexOf_toHex: "length bs = n \<Longrightarrow> hexOf n (toHex bs)"
  by (simp add: hexOf_def)

lemma hexOf_fromHex: "hexOf n s \<Longrightarrow> length (fromHex s) = n \<and> toHex (fromHex s) = s"
  by (auto simp: hexOf_def length_fromHex list_all_lowerHex_isHex lowerHex_roundtrip)

lemma hexOf_eq: "hexOf n s \<Longrightarrow> hexOf n t \<Longrightarrow> fromHex s = fromHex t \<longleftrightarrow> s = t"
  by (metis hexOf_fromHex)

lemma hexOf_native_asset: "hexOf 32 NATIVE_ERG_ASSET_ID_HEX"
  by (simp add: hexOf_def NATIVE_ERG_ASSET_ID_HEX_def list_all_iff isLowerHexChar_def code_def)

lemma selectAssetId_hexOf: "selectAssetId a = Inr s \<Longrightarrow> hexOf 32 s"
  by (auto simp: selectAssetId_def hexOf_native_asset split: option.splits if_splits
      dest: normalizeHex_hexOf)

lemma normalizeUint32_range: "normalizeUint32 v label = Inr n \<Longrightarrow> 0 \<le> n \<and> n < 2 ^ 32"
  by (auto simp: normalizeUint32_def digitsOf_def decVal_nonneg result_simps
      split: option.splits js_scalar.splits if_splits)

lemma normalizeUint32_id: "0 \<le> n \<Longrightarrow> n < 2 ^ 32 \<Longrightarrow> normalizeUint32 (SNum n) label = Inr n"
  by (simp add: normalizeUint32_def digitsOf_def safe_defs)

lemma normalizeErgoLong_range: "normalizePositiveErgoLong v label = Inr n \<Longrightarrow> 0 < n \<and> n < 2 ^ 63"
  by (auto simp: normalizePositiveErgoLong_def normalizeUint64_def digitsOf_def decVal_nonneg
      result_simps order.strict_iff_order split: option.splits js_scalar.splits if_splits)

lemma normalizeErgoLong_decStr:
  "0 < n \<Longrightarrow> n < 2 ^ 63 \<Longrightarrow> normalizePositiveErgoLong (SStr (decStr (nat n))) label = Inr n"
  by (simp add: normalizePositiveErgoLong_def normalizeUint64_def digitsOf_def allDigits_decStr
      decVal_decStr)


section \<open>Leaves\<close>

text \<open>What \<open>encodeTrustlessBurnLeaf\<close> guarantees of a leaf.\<close>

definition leafBytes :: "burn_leaf \<Rightarrow> bytes" where
  "leafBytes l = [BURN_LEAF_FORMAT_VERSION] @ fromHex (lSidechainIdHex l) @ fromHex (lSidechainBlockHashHex l)
     @ fromHex (lBurnIdHex l) @ fromHex (lSidechainTxHashHex l) @ uint32Be (lEventIndex l)
     @ fromHex (lRecipientErgoTreeHashHex l) @ uint64Be (decVal (lAmountNanoErg l)) @ fromHex (lAssetIdHex l)"

definition burnIdPreimage :: "burn_leaf \<Rightarrow> bytes" where
  "burnIdPreimage l = BURN_ID_DOMAIN @ fromHex (lSidechainIdHex l) @ fromHex (lSidechainTxHashHex l)
     @ uint32Be (lEventIndex l)"

definition canonicalLeaf :: "(bytes \<Rightarrow> bytes) \<Rightarrow> burn_leaf \<Rightarrow> bool" where
  "canonicalLeaf H l \<longleftrightarrow> hexOf 32 (lSidechainIdHex l) \<and> hexOf 32 (lSidechainBlockHashHex l)
     \<and> hexOf 32 (lBurnIdHex l) \<and> hexOf 32 (lSidechainTxHashHex l)
     \<and> 0 \<le> lEventIndex l \<and> lEventIndex l < 2 ^ 32 \<and> hexOf 32 (lRecipientErgoTreeHashHex l)
     \<and> (\<exists>n. 0 < n \<and> n < 2 ^ 63 \<and> lAmountNanoErg l = decStr (nat n)) \<and> hexOf 32 (lAssetIdHex l)
     \<and> lBurnIdHex l = toHex (H (burnIdPreimage l)) \<and> lEncodedLeafHex l = toHex (leafBytes l)
     \<and> lLeafHashHex l = toHex (H (LEAF_DOMAIN @ leafBytes l))"

lemma deriveBurnId_canonical:
  "hexOf 32 sid \<Longrightarrow> hexOf 32 tx \<Longrightarrow> 0 \<le> ev \<Longrightarrow> ev < 2 ^ 32 \<Longrightarrow>
     deriveTrustlessBurnIdHex H sid tx (SNum ev) =
       Inr (toHex (H (BURN_ID_DOMAIN @ fromHex sid @ fromHex tx @ uint32Be ev)))"
  by (simp add: deriveTrustlessBurnIdHex_def normalizeHex_id normalizeUint32_id)

lemma encodeLeaf_canonical:
  assumes "encodeTrustlessBurnLeaf H i = Inr l"
  shows "canonicalLeaf H l"
proof -
  from assms obtain sid blk tx ev burn derived rcpt amt asset
    where n: "normalizeHex (sidechainIdHex i) 32 ''sidechainId'' = Inr sid"
      "normalizeHex (sidechainBlockHashHex i) 32 ''sidechainBlockHash'' = Inr blk"
      "normalizeHex (sidechainTxHashHex i) 32 ''sidechainTxHash'' = Inr tx"
      "normalizeUint32 (eventIndex i) ''eventIndex'' = Inr ev"
      "normalizeHex (burnIdHex i) 32 ''burnId'' = Inr burn"
      "normalizeHex (recipientErgoTreeHashHex i) 32 ''recipientErgoTreeHash'' = Inr rcpt"
      "normalizePositiveErgoLong (amountNanoErg i) ''amountNanoErg'' = Inr amt"
      "selectAssetId (assetIdHex i) = Inr asset"
      and d: "deriveTrustlessBurnIdHex H sid tx (SNum ev) = Inr derived" and b: "burn = derived"
      and l: "l = \<lparr> lSidechainIdHex = sid, lSidechainBlockHashHex = blk, lBurnIdHex = burn,
               lSidechainTxHashHex = tx, lEventIndex = ev, lRecipientErgoTreeHashHex = rcpt,
               lAmountNanoErg = decStr (nat amt), lAssetIdHex = asset,
               lEncodedLeafHex = toHex ([BURN_LEAF_FORMAT_VERSION] @ fromHex sid @ fromHex blk
                 @ fromHex burn @ fromHex tx @ uint32Be ev @ fromHex rcpt @ uint64Be amt @ fromHex asset),
               lLeafHashHex = toHex (H (LEAF_DOMAIN @ [BURN_LEAF_FORMAT_VERSION] @ fromHex sid
                 @ fromHex blk @ fromHex burn @ fromHex tx @ uint32Be ev @ fromHex rcpt
                 @ uint64Be amt @ fromHex asset)) \<rparr>"
    unfolding encodeTrustlessBurnLeaf_def Let_def result_simps by blast
  note h = n(1,2,3,5,6) [THEN normalizeHex_hexOf] n(4) [THEN normalizeUint32_range]
    n(7) [THEN normalizeErgoLong_range] n(8) [THEN selectAssetId_hexOf]
  have derived: "derived = toHex (H (BURN_ID_DOMAIN @ fromHex sid @ fromHex tx @ uint32Be ev))"
    using d h(1,3,6) by (simp add: deriveBurnId_canonical)
  have amt: "int (nat amt) = amt" "\<exists>m>0. m < 2 ^ 63 \<and> decStr (nat amt) = decStr (nat m)"
    using h(7) by auto
  show ?thesis
    unfolding canonicalLeaf_def l using h b derived amt
    by (simp add: leafBytes_def burnIdPreimage_def decVal_decStr)
qed

lemma encodeLeaf_asInput: "canonicalLeaf H l \<Longrightarrow> encodeTrustlessBurnLeaf H (asInput l) = Inr l"
proof -
  assume c: "canonicalLeaf H l"
  then obtain n where n: "0 < n" "n < 2 ^ 63" "lAmountNanoErg l = decStr (nat n)"
    by (auto simp: canonicalLeaf_def)
  note h = c [unfolded canonicalLeaf_def]
  have "lAssetIdHex l \<noteq> []" using h by (auto simp: hexOf_def)
  then have "selectAssetId (Some (lAssetIdHex l)) = Inr (lAssetIdHex l)"
    using h by (simp add: selectAssetId_def normalizeHex_id)
  moreover have "leafBytes l = [BURN_LEAF_FORMAT_VERSION] @ fromHex (lSidechainIdHex l)
      @ fromHex (lSidechainBlockHashHex l) @ fromHex (lBurnIdHex l) @ fromHex (lSidechainTxHashHex l)
      @ uint32Be (lEventIndex l) @ fromHex (lRecipientErgoTreeHashHex l) @ uint64Be n
      @ fromHex (lAssetIdHex l)"
    using n by (simp add: leafBytes_def decVal_decStr)
  moreover have "deriveTrustlessBurnIdHex H (lSidechainIdHex l) (lSidechainTxHashHex l)
      (SNum (lEventIndex l)) = Inr (lBurnIdHex l)"
    using h by (simp only: deriveBurnId_canonical burnIdPreimage_def)
  moreover have "normalizeHex (lSidechainIdHex l) 32 lb = Inr (lSidechainIdHex l)"
    "normalizeHex (lSidechainBlockHashHex l) 32 lb = Inr (lSidechainBlockHashHex l)"
    "normalizeHex (lSidechainTxHashHex l) 32 lb = Inr (lSidechainTxHashHex l)"
    "normalizeHex (lBurnIdHex l) 32 lb = Inr (lBurnIdHex l)"
    "normalizeHex (lRecipientErgoTreeHashHex l) 32 lb = Inr (lRecipientErgoTreeHashHex l)" for lb
    using h by (blast intro: normalizeHex_id zero_less_numeral)+
  moreover have "normalizeUint32 (SNum (lEventIndex l)) lb = Inr (lEventIndex l)" for lb
    using h by (simp only: normalizeUint32_id)
  moreover have "normalizePositiveErgoLong (SStr (lAmountNanoErg l)) lb = Inr n" for lb
    using n by (simp only: normalizeErgoLong_decStr)
  ultimately have "encodeTrustlessBurnLeaf H (asInput l) =
     Inr \<lparr> lSidechainIdHex = lSidechainIdHex l, lSidechainBlockHashHex = lSidechainBlockHashHex l,
       lBurnIdHex = lBurnIdHex l, lSidechainTxHashHex = lSidechainTxHashHex l,
       lEventIndex = lEventIndex l, lRecipientErgoTreeHashHex = lRecipientErgoTreeHashHex l,
       lAmountNanoErg = decStr (nat n), lAssetIdHex = lAssetIdHex l,
       lEncodedLeafHex = toHex (leafBytes l), lLeafHashHex = toHex (H (LEAF_DOMAIN @ leafBytes l)) \<rparr>"
    by (simp only: encodeTrustlessBurnLeaf_def asInput_def burn_leaf_input.simps andThen.simps
        require_True Let_def simp_thms)
  also have "\<dots> = Inr l"
    using h n by (intro arg_cong [where f = Inr] burn_leaf.equality) simp_all
  finally show ?thesis .
qed

lemma length_uint32Be [simp]: "length (uint32Be v) = 4" and length_uint64Be [simp]: "length (uint64Be v) = 8"
  by (simp_all add: uint32Be_def uint64Be_def)

lemma uint32Be_inj: "0 \<le> a \<Longrightarrow> a < 2 ^ 32 \<Longrightarrow> 0 \<le> b \<Longrightarrow> b < 2 ^ 32 \<Longrightarrow> uint32Be a = uint32Be b \<longleftrightarrow> a = b"
  using beBytes_inj [of "nat a" 4 "nat b"] by (simp add: uint32Be_def nat_less_iff) linarith

lemma uint64Be_inj: "0 \<le> a \<Longrightarrow> a < 2 ^ 63 \<Longrightarrow> 0 \<le> b \<Longrightarrow> b < 2 ^ 63 \<Longrightarrow> uint64Be a = uint64Be b \<longleftrightarrow> a = b"
  using beBytes_inj [of "nat a" 8 "nat b"] by (simp add: uint64Be_def nat_less_iff) linarith

lemma leafBytes_inj:
  assumes "canonicalLeaf H l" and "canonicalLeaf H m" and eq: "leafBytes l = leafBytes m"
  shows "l = m"
proof -
  note a = assms(1) [unfolded canonicalLeaf_def] and b = assms(2) [unfolded canonicalLeaf_def]
  from a obtain n where n: "0 < n" "n < 2 ^ 63" "lAmountNanoErg l = decStr (nat n)" by auto
  from b obtain k where k: "0 < k" "k < 2 ^ 63" "lAmountNanoErg m = decStr (nat k)" by auto
  have f: "fromHex (lSidechainIdHex l) = fromHex (lSidechainIdHex m)"
    "fromHex (lSidechainBlockHashHex l) = fromHex (lSidechainBlockHashHex m)"
    "fromHex (lBurnIdHex l) = fromHex (lBurnIdHex m)"
    "fromHex (lSidechainTxHashHex l) = fromHex (lSidechainTxHashHex m)"
    "uint32Be (lEventIndex l) = uint32Be (lEventIndex m)"
    "fromHex (lRecipientErgoTreeHashHex l) = fromHex (lRecipientErgoTreeHashHex m)"
    "uint64Be n = uint64Be k" "fromHex (lAssetIdHex l) = fromHex (lAssetIdHex m)"
    using eq a b n k by (auto simp: leafBytes_def hexOf_fromHex append_eq_append_conv decVal_decStr)
  have "n = k" using f(7) n k by (simp add: uint64Be_inj)
  moreover have "lEventIndex l = lEventIndex m" using f(5) a b by (simp add: uint32Be_inj)
  moreover have "lSidechainIdHex l = lSidechainIdHex m" "lSidechainBlockHashHex l = lSidechainBlockHashHex m"
    "lBurnIdHex l = lBurnIdHex m" "lSidechainTxHashHex l = lSidechainTxHashHex m"
    "lRecipientErgoTreeHashHex l = lRecipientErgoTreeHashHex m" "lAssetIdHex l = lAssetIdHex m"
    using f a b hexOf_eq by blast+
  ultimately show ?thesis using a b n k eq by (intro burn_leaf.equality) simp_all
qed

text \<open>The canonical leaf encoding is injective: two burn leaves with the same encoded bytes are the
  same leaf, field by field, so a commitment to the bytes is a commitment to chain, block, burn,
  transaction, event, recipient, amount and asset.\<close>

theorem burnLeaf_encoding_injective:
  assumes "encodeTrustlessBurnLeaf H i = Inr l" and "encodeTrustlessBurnLeaf H j = Inr m"
    and "lEncodedLeafHex l = lEncodedLeafHex m"
  shows "l = m"
proof -
  have "canonicalLeaf H l" "canonicalLeaf H m" using assms encodeLeaf_canonical by blast+
  moreover from this have "leafBytes l = leafBytes m" using assms(3) by (simp add: canonicalLeaf_def)
  ultimately show ?thesis by (rule leafBytes_inj)
qed


section \<open>Completeness of inclusion proofs\<close>

definition digests :: "bytes list \<Rightarrow> bool" where
  "digests xs \<longleftrightarrow> (\<forall>x \<in> set xs. length x = 32)"

lemma digests_next: "(\<And>x. length (H x) = 32) \<Longrightarrow> digests (nextMerkleLevel H xs)"
  unfolding digests_def nextMerkleLevel_pairUp hashParent_def by (auto dest!: set_pairUp)

lemma length_next [simp]: "length (nextMerkleLevel H xs) = (length xs + 1) div 2"
  by (simp add: nextMerkleLevel_pairUp)

lemma merkleRoot_step: "1 < length xs \<Longrightarrow> merkleRoot H xs = merkleRoot H (nextMerkleLevel H xs)"
  by (subst merkleRoot.simps) simp

lemma merkleRoot_single: "merkleRoot H [x] = x"
  by (subst merkleRoot.simps) simp

definition siblingAt :: "bytes list \<Rightarrow> nat \<Rightarrow> bytes" where
  "siblingAt level i =
     (if odd i then level ! (i - 1) else if i + 1 < length level then level ! (i + 1) else level ! i)"

lemma merkleProofLoop_step:
  assumes "1 < length level" and "i < length level"
  shows "merkleProofLoop H level i =
     \<lparr> side = (if odd i then LeftSide else RightSide), hashHex = toHex (siblingAt level i) \<rparr>
       # merkleProofLoop H (nextMerkleLevel H level) (i div 2)"
  using assms by (subst merkleProofLoop.simps) (auto simp: siblingAt_def odd_iff_mod_2_eq_one Let_def)

lemma merkleProofLoop_single: "\<not> 1 < length level \<Longrightarrow> merkleProofLoop H level i = []"
  by (subst merkleProofLoop.simps) simp

lemma next_at:
  assumes "i < length level"
  shows "nextMerkleLevel H level ! (i div 2) =
    (if odd i then hashParent H (siblingAt level i) (level ! i)
     else hashParent H (level ! i) (siblingAt level i))"
  using assms by (simp add: nextMerkleLevel_pairUp nth_pairUp siblingAt_def)

lemma siblingAt_alone: "even i \<Longrightarrow> length level \<le> i + 1 \<Longrightarrow> siblingAt level i = level ! i"
  by (simp add: siblingAt_def)

lemma siblingAt_digest: "digests level \<Longrightarrow> i < length level \<Longrightarrow> length (siblingAt level i) = 32"
  by (auto simp: siblingAt_def digests_def)

lemma climb_complete:
  assumes H: "\<And>x. length (H x) = 32" and "digests level" and "i < length level"
  shows "climb H (level ! i) (merkleProofLoop H level i) = Inr (merkleRoot H level)"
  using assms(2,3)
proof (induction "length level" arbitrary: level i rule: less_induct)
  case less
  show ?case
  proof (cases "1 < length level")
    case True
    have "climb H (nextMerkleLevel H level ! (i div 2))
            (merkleProofLoop H (nextMerkleLevel H level) (i div 2)) = Inr (merkleRoot H (nextMerkleLevel H level))"
      using less True by (intro less.hyps digests_next H) auto
    then show ?thesis
      using less.prems True
      by (cases "odd i")
        (simp_all add: merkleProofLoop_step merkleRoot_step next_at normalizeHex_toHex siblingAt_digest)
  next
    case False
    with less.prems obtain x where "level = [x]" by (cases level) auto
    with less.prems show ?thesis by (simp add: merkleProofLoop_single merkleRoot_single)
  qed
qed

lemma merkleProofLoop_length:
  "i < length level \<Longrightarrow> length (merkleProofLoop H level i) = expectedMerkleProofDepth (length level)"
proof (induction "length level" arbitrary: level i rule: less_induct)
  case less
  show ?case
  proof (cases "1 < length level")
    case True
    then have "length (merkleProofLoop H (nextMerkleLevel H level) (i div 2))
        = expectedMerkleProofDepth (length (nextMerkleLevel H level))"
      using less.prems by (intro less.hyps) auto
    then show ?thesis
      using True less.prems by (subst expectedMerkleProofDepth.simps) (simp add: merkleProofLoop_step)
  next
    case False
    then show ?thesis by (subst expectedMerkleProofDepth.simps) (simp add: merkleProofLoop_single)
  qed
qed

lemma directions_complete:
  assumes H: "\<And>x. length (H x) = 32" and "digests level" and "i < length level"
  shows "validateProofDirections H (merkleProofLoop H level i) k i (length level) (level ! i) = []"
  using assms(2,3)
proof (induction "length level" arbitrary: level i k rule: less_induct)
  case less
  show ?case
  proof (cases "1 < length level")
    case True
    have ih: "validateProofDirections H (merkleProofLoop H (nextMerkleLevel H level) (i div 2)) (k + 1) (i div 2)
        (length (nextMerkleLevel H level)) (nextMerkleLevel H level ! (i div 2)) = []"
      using less True by (intro less.hyps digests_next H) auto
    then show ?thesis
      using less.prems True next_at [of i level H] siblingAt_alone [of i level]
      by (cases "odd i")
        (auto simp: merkleProofLoop_step normalizeHex_toHex siblingAt_digest Let_def
          even_iff_mod_2_eq_zero odd_iff_mod_2_eq_one)
  next
    case False
    then show ?thesis by (simp add: merkleProofLoop_single)
  qed
qed


section \<open>Soundness of inclusion proofs\<close>

definition nodePre :: "bytes \<Rightarrow> bytes \<Rightarrow> bytes" where
  "nodePre left right = NODE_DOMAIN @ left @ right"

text \<open>The strings hashed while a level is reduced to its root, and while a proof is climbed.\<close>

function treePreimages :: "(bytes \<Rightarrow> bytes) \<Rightarrow> bytes list \<Rightarrow> bytes list" where
  "treePreimages H level =
     (if length level > 1
      then pairUp nodePre (\<lambda>x. nodePre x x) level @ treePreimages H (nextMerkleLevel H level) else [])"
  by pat_completeness auto
termination
  by (relation "measure (\<lambda>(H, level). length level)") auto

declare treePreimages.simps [simp del]

fun climbPreimages :: "(bytes \<Rightarrow> bytes) \<Rightarrow> bytes \<Rightarrow> merkle_step list \<Rightarrow> bytes list" where
  "climbPreimages H current [] = []"
| "climbPreimages H current (step # rest) =
     (let sib = fromHex (lowerStr (strip0x (hashHex step)));
          pre = (if side step = LeftSide then nodePre sib current else nodePre current sib)
      in pre # climbPreimages H (H pre) rest)"

lemma hashParent_pre: "hashParent H a b = H (nodePre a b)"
  by (simp add: hashParent_def nodePre_def)

lemma hashParent_fun: "hashParent H = (\<lambda>a b. H (nodePre a b))"
  by (simp add: fun_eq_iff hashParent_pre)

lemma nodePre_inj: "length a = length c \<Longrightarrow> nodePre a b = nodePre c d \<longleftrightarrow> a = c \<and> b = d"
  by (simp add: nodePre_def)

lemma normalizeHex_value: "normalizeHex h n l = Inr s \<Longrightarrow> s = lowerStr (strip0x h)"
  by (simp add: normalizeHex_def Let_def result_simps)

text \<open>One step up: the digest of a pair that contains the node climbed from.\<close>

lemma climb_Cons_pre:
  assumes "climb H c (step # rest) = Inr v"
  obtains sib where "length sib = 32"
    and "side step = LeftSide \<and> hd (climbPreimages H c (step # rest)) = nodePre sib c
         \<or> side step = RightSide \<and> hd (climbPreimages H c (step # rest)) = nodePre c sib"
    and "climb H (H (hd (climbPreimages H c (step # rest)))) rest = Inr v"
proof -
  from assms obtain h where h: "normalizeHex (hashHex step) 32 ''proof hash'' = Inr h"
    and c: "(case side step of LeftSide \<Rightarrow> climb H (hashParent H (fromHex h) c) rest
       | RightSide \<Rightarrow> climb H (hashParent H c (fromHex h)) rest | OtherSide _ \<Rightarrow> Inl BadProofSide) = Inr v"
    by (auto simp: result_simps)
  have "length (fromHex h) = 32" using h normalizeHex_hexOf hexOf_fromHex by blast
  with that [of "fromHex h"] c normalizeHex_value [OF h] show ?thesis
    by (cases "side step") (auto simp: hashParent_pre Let_def)
qed

lemma set_treePreimages_next:
  "1 < length level \<Longrightarrow> set (treePreimages H (nextMerkleLevel H level)) \<subseteq> set (treePreimages H level)"
  by (subst (2) treePreimages.simps) auto

text \<open>Any climb that ends on a node of the tree started on a node of the tree, one level lower for
  each step.\<close>

fun levels :: "(bytes \<Rightarrow> bytes) \<Rightarrow> nat \<Rightarrow> bytes list \<Rightarrow> bytes list" where
  "levels H 0 xs = xs"
| "levels H (Suc k) xs = (if 1 < length (levels H k xs) then nextMerkleLevel H (levels H k xs) else [])"

lemma levels_pre:
  "v \<in> set (levels H (Suc k) xs) \<Longrightarrow> (\<exists>a \<in> set (levels H k xs). \<exists>b \<in> set (levels H k xs).
     v = H (nodePre a b) \<and> nodePre a b \<in> set (treePreimages H (levels H k xs)))"
proof -
  assume v: "v \<in> set (levels H (Suc k) xs)"
  then have l: "1 < length (levels H k xs)" by (auto split: if_splits)
  have "v \<in> H ` set (pairUp nodePre (\<lambda>x. nodePre x x) (levels H k xs))"
    using v l
    by (simp add: nextMerkleLevel_pairUp hashParent_fun pairUp_map flip: list.set_map del: list.set_map)
  moreover have "set (pairUp nodePre (\<lambda>x. nodePre x x) (levels H k xs)) \<subseteq> set (treePreimages H (levels H k xs))"
    using l by (subst treePreimages.simps) auto
  ultimately obtain p where "v = H p" "p \<in> set (treePreimages H (levels H k xs))"
    "p \<in> set (pairUp nodePre (\<lambda>x. nodePre x x) (levels H k xs))" by blast
  with set_pairUp [OF this(3)] show ?thesis by blast
qed

lemma treePreimages_levels: "set (treePreimages H (levels H k xs)) \<subseteq> set (treePreimages H xs)"
proof (induction k)
  case (Suc k)
  then show ?case
    using set_treePreimages_next [of "levels H k xs" H] by (auto simp: treePreimages.simps [of H "[]"])
qed simp

lemma digests_levels: "(\<And>x. length (H x) = 32) \<Longrightarrow> digests xs \<Longrightarrow> digests (levels H k xs)"
  by (cases k) (auto simp: digests_next, simp add: digests_def)

lemma climb_descends:
  assumes H: "\<And>x. length (H x) = 32" and xs: "digests xs"
    and leaves: "\<And>y. y \<in> set xs \<Longrightarrow> \<exists>q \<in> Q. y = H q \<and> (\<forall>a b. q \<noteq> nodePre a b)"
    and "inj_on H (set (treePreimages H xs) \<union> set (climbPreimages H c steps) \<union> Q)"
    and "climb H c steps = Inr v" and "v \<in> set (levels H k xs)" and "length c = 32"
  shows "\<exists>j. c \<in> set (levels H j xs)"
  using assms(4-7)
proof (induction steps arbitrary: c)
  case Nil
  then show ?case by auto
next
  case (Cons step rest)
  define pre where "pre = hd (climbPreimages H c (step # rest))"
  from climb_Cons_pre [OF Cons.prems(2)] obtain sib where sib: "length sib = 32"
    and pre: "pre = nodePre sib c \<or> pre = nodePre c sib" and up: "climb H (H pre) rest = Inr v"
    unfolding pre_def by metis
  have used: "climbPreimages H c (step # rest) = pre # climbPreimages H (H pre) rest"
    by (simp add: pre_def Let_def)
  have mem: "pre \<in> set (climbPreimages H c (step # rest))" by (simp only: used) simp
  have inj: "inj_on H (set (treePreimages H xs) \<union> set (climbPreimages H (H pre) rest) \<union> Q)"
    by (rule inj_on_subset [OF Cons.prems(1)]) (use used in \<open>auto simp del: climbPreimages.simps\<close>)
  from Cons.IH [OF inj up Cons.prems(3) H] obtain j where j: "H pre \<in> set (levels H j xs)" by blast
  show ?case
  proof (cases j)
    case 0
    with j have "H pre \<in> set xs" by simp
    from leaves [OF this] obtain q where "q \<in> Q" "H pre = H q" "\<forall>a b. q \<noteq> nodePre a b" by blast
    then have "pre = q" using inj_onD [OF Cons.prems(1), of pre q] mem by blast
    with pre \<open>\<forall>a b. q \<noteq> nodePre a b\<close> show ?thesis by auto
  next
    case (Suc i)
    with j levels_pre [of "H pre" H i xs] obtain a b
      where ab: "a \<in> set (levels H i xs)" "b \<in> set (levels H i xs)" "H pre = H (nodePre a b)"
        "nodePre a b \<in> set (treePreimages H (levels H i xs))" by auto
    then have "pre = nodePre a b"
      using inj_onD [OF Cons.prems(1) ab(3)] mem treePreimages_levels [of H i xs] by blast
    moreover have "length a = 32" using ab(1) digests_levels [OF H xs, where k = i] by (auto simp: digests_def)
    ultimately have "c = a \<or> c = b" using pre sib Cons.prems(4) by (auto simp: nodePre_inj)
    with ab show ?thesis by auto
  qed
qed

lemma climb_sound:
  assumes H: "\<And>x. length (H x) = 32"
    and inj: "inj_on H (set (treePreimages H xs) \<union> set (climbPreimages H x steps) \<union> Q)"
    and leaves: "\<And>y. y \<in> insert x (set xs) \<Longrightarrow> \<exists>q \<in> Q. y = H q \<and> (\<forall>a b. q \<noteq> nodePre a b)"
    and climb: "climb H x steps = Inr v" and v: "v \<in> set (levels H k xs)"
  shows "x \<in> set xs"
proof -
  have len: "length y = 32" if "y \<in> insert x (set xs)" for y
    using leaves [OF that] H by auto
  then have xs: "digests xs" by (simp add: digests_def)
  have "length x = 32" by (rule len) simp
  with climb_descends [OF H xs _ inj climb v] leaves obtain j where j: "x \<in> set (levels H j xs)" by blast
  show ?thesis
  proof (cases j)
    case 0
    with j show ?thesis by simp
  next
    case (Suc i)
    with j levels_pre [of x H i xs] obtain a b
      where "x = H (nodePre a b)" "nodePre a b \<in> set (treePreimages H (levels H i xs))" by auto
    moreover obtain q where "q \<in> Q" "x = H q" "\<forall>a b. q \<noteq> nodePre a b" using leaves [of x] by auto
    ultimately have "q = nodePre a b"
      using inj_onD [OF inj, of q "nodePre a b"] treePreimages_levels [of H i xs] by auto
    with \<open>\<forall>a b. q \<noteq> nodePre a b\<close> show ?thesis by blast
  qed
qed

lemma merkleRoot_level: "xs \<noteq> [] \<Longrightarrow> \<exists>k. merkleRoot H xs \<in> set (levels H k xs)"
proof -
  have "\<exists>k. merkleRoot H xs = merkleRoot H (levels H k xs) \<and> length (levels H k xs) = 1" if "xs \<noteq> []"
    using that
  proof (induction "length xs" arbitrary: xs rule: less_induct)
    case less
    show ?case
    proof (cases "1 < length xs")
      case True
      then have "\<exists>k. merkleRoot H (nextMerkleLevel H xs) = merkleRoot H (levels H k (nextMerkleLevel H xs))
          \<and> length (levels H k (nextMerkleLevel H xs)) = 1"
        using less.prems by (intro less.hyps) (auto simp: nextMerkleLevel_pairUp)
      moreover have "levels H k (nextMerkleLevel H xs) = levels H (Suc k) xs" for k
        using True by (induction k) auto
      ultimately show ?thesis using True by (metis merkleRoot_step)
    next
      case False
      with less.prems show ?thesis by (intro exI [of _ 0]) (cases xs, auto)
    qed
  qed
  moreover assume "xs \<noteq> []"
  ultimately obtain k where k: "merkleRoot H xs = merkleRoot H (levels H k xs)" "length (levels H k xs) = 1"
    by blast
  then obtain r where "levels H k xs = [r]" by (auto simp: length_Suc_conv)
  with k show ?thesis by (intro exI [of _ k]) (simp add: merkleRoot_single)
qed

lemma domains_differ: "LEAF_DOMAIN @ x \<noteq> nodePre a b"
proof
  assume "LEAF_DOMAIN @ x = nodePre a b"
  moreover have "length LEAF_DOMAIN = length NODE_DOMAIN"
    by (simp add: LEAF_DOMAIN_def NODE_DOMAIN_def asciiBytes_def)
  ultimately have "LEAF_DOMAIN = NODE_DOMAIN" by (simp add: nodePre_def append_eq_append_conv)
  moreover have "LEAF_DOMAIN \<noteq> NODE_DOMAIN" by code_simp
  ultimately show False by simp
qed

definition leafPre :: "burn_leaf \<Rightarrow> bytes" where
  "leafPre l = LEAF_DOMAIN @ leafBytes l"

text \<open>The strings hashed when a commitment is built and a proof for \<open>l\<close> is checked against it.\<close>

definition burnHashInputs :: "(bytes \<Rightarrow> bytes) \<Rightarrow> burn_leaf list \<Rightarrow> burn_leaf \<Rightarrow> merkle_step list \<Rightarrow> bytes set" where
  "burnHashInputs H leaves l steps =
     set (treePreimages H (leafHashes leaves)) \<union> set (climbPreimages H (fromHex (lLeafHashHex l)) steps)
     \<union> leafPre ` insert l (set leaves)"

lemma commitment_cases:
  assumes "buildTrustlessBurnCommitment H inputs = Inr C"
  shows "mapR (encodeTrustlessBurnLeaf H) inputs = Inr (cLeaves C)"
    and "cBridgeEventRootHex C = toHex (merkleRoot H (leafHashes (cLeaves C)))"
    and "cLeaves C \<noteq> []" and "\<And>l. l \<in> set (cLeaves C) \<Longrightarrow> canonicalLeaf H l"
    and "assertUniqueBurnIds [] (cLeaves C) = Inr ()"
proof -
  from assms show m: "mapR (encodeTrustlessBurnLeaf H) inputs = Inr (cLeaves C)"
    and "cBridgeEventRootHex C = toHex (merkleRoot H (leafHashes (cLeaves C)))"
    and "assertUniqueBurnIds [] (cLeaves C) = Inr ()"
    by (auto simp: buildTrustlessBurnCommitment_def result_simps)
  from assms mapR_Inr_length [OF m] show "cLeaves C \<noteq> []"
    by (auto simp: buildTrustlessBurnCommitment_def result_simps)
  show "canonicalLeaf H l" if "l \<in> set (cLeaves C)" for l
    using mapR_Inr_set [OF m that] encodeLeaf_canonical by blast
qed

lemma canonical_leafHash: "canonicalLeaf H l \<Longrightarrow> fromHex (lLeafHashHex l) = H (leafPre l)"
  by (simp add: canonicalLeaf_def leafPre_def)

lemma root_digest:
  assumes "\<And>x. length (H x) = 32" and "digests xs" and "xs \<noteq> []"
  shows "length (merkleRoot H xs) = 32"
  using merkleRoot_level [OF assms(3), of H] digests_levels [OF assms(1,2)] by (auto simp: digests_def)

lemma leafHashes_eq:
  "(\<And>l. l \<in> set ls \<Longrightarrow> canonicalLeaf H l) \<Longrightarrow> leafHashes ls = map (\<lambda>l. H (leafPre l)) ls"
  by (simp add: leafHashes_def canonical_leafHash [of H])

lemma leafHashes_digests:
  "(\<And>x. length (H x) = 32) \<Longrightarrow> (\<And>l. l \<in> set ls \<Longrightarrow> canonicalLeaf H l) \<Longrightarrow> digests (leafHashes ls)"
  by (simp add: digests_def leafHashes_eq [of ls H])

text \<open>The inclusion verifier, run on a canonical leaf and a 32-byte root.\<close>

lemma verifyInclusion_iff:
  assumes "encodeTrustlessBurnLeaf H i = Inr l" and "length root = 32"
  shows "verifyTrustlessBurnInclusionProof H i (toHex root) steps = Inr True \<longleftrightarrow>
           climb H (fromHex (lLeafHashHex l)) steps = Inr root"
  using assms by (auto simp: verifyTrustlessBurnInclusionProof_def result_simps normalizeHex_toHex)

lemma inclusion_sound:
  assumes H: "\<And>x. length (H x) = 32"
    and commit: "buildTrustlessBurnCommitment H inputs = Inr C"
    and leaf: "encodeTrustlessBurnLeaf H i = Inr l"
    and accepted: "verifyTrustlessBurnInclusionProof H i (cBridgeEventRootHex C) steps = Inr True"
    and inj: "inj_on H (burnHashInputs H (cLeaves C) l steps)"
  shows "l \<in> set (cLeaves C)"
proof -
  note C = commitment_cases [OF commit]
  have l: "canonicalLeaf H l" using leaf by (rule encodeLeaf_canonical)
  let ?xs = "leafHashes (cLeaves C)" and ?x = "fromHex (lLeafHashHex l)"
  have dig: "digests ?xs" using H C(4) by (rule leafHashes_digests)
  have ne: "?xs \<noteq> []" using C(3) by (simp add: leafHashes_def)
  have climb: "climb H ?x steps = Inr (merkleRoot H ?xs)"
    using accepted leaf root_digest [OF H dig ne] by (simp add: C(2) verifyInclusion_iff)
  obtain k where k: "merkleRoot H ?xs \<in> set (levels H k ?xs)" using merkleRoot_level [OF ne] by blast
  have "?x \<in> set ?xs"
  proof (rule climb_sound [OF H inj [unfolded burnHashInputs_def] _ climb k])
    fix y assume "y \<in> insert ?x (set ?xs)"
    then obtain m where "m \<in> insert l (set (cLeaves C))" "y = H (leafPre m)"
      using canonical_leafHash [OF l] leafHashes_eq [OF C(4)] by auto
    then show "\<exists>q \<in> leafPre ` insert l (set (cLeaves C)). y = H q \<and> (\<forall>a b. q \<noteq> nodePre a b)"
      using domains_differ by (auto simp: leafPre_def)
  qed
  then obtain m where m: "m \<in> set (cLeaves C)" "H (leafPre l) = H (leafPre m)"
    using canonical_leafHash [OF l] leafHashes_eq [OF C(4)] by auto
  then have "leafPre l = leafPre m" using inj by (auto simp: burnHashInputs_def dest: inj_onD)
  then have "l = m" using leafBytes_inj [OF l C(4) [OF m(1)]] by (simp add: leafPre_def)
  with m show ?thesis by simp
qed

text \<open>C16. Soundness of burn inclusion. If the verifier accepts a leaf against the root of a burn
  commitment, and no two of the strings hashed in the two runs collide, then the leaf is one of the
  committed leaves: neither an interior node nor a duplicated last node can be passed off as a burn.\<close>

theorem burnInclusion_sound:
  assumes H: "\<And>x. length (H x) = 32"
    and commit: "buildTrustlessBurnCommitment H inputs = Inr C"
    and leaf: "encodeTrustlessBurnLeaf H i = Inr l"
    and accepted: "verifyTrustlessBurnInclusionProof H i (cBridgeEventRootHex C) steps = Inr True"
    and inj: "inj_on H (burnHashInputs H (cLeaves C) l steps)"
  shows "l \<in> set (cLeaves C)"
  using assms by (rule inclusion_sound)

end
