(* ===== verification/Burn_Settlement.thy ===== *)
theory Burn_Settlement
  imports Burn_Proof
begin

text \<open>
  What the burn proofs of \<open>Burn_Proof\<close> give the settlement: honest proofs are accepted, an accepted
  envelope names the leaf at its index, an accepted settlement binding pays exactly a committed burn.
  The last section runs the pipeline on a two-burn commitment.
\<close>

section \<open>Commitments\<close>

lemma assertUnique_distinct:
  "assertUniqueBurnIds seen ls = Inr u \<Longrightarrow>
     distinct (map lBurnIdHex ls) \<and> set (map lBurnIdHex ls) \<inter> set seen = {}"
proof (induction ls arbitrary: seen)
  case (Cons l ls)
  then have "assertUniqueBurnIds (lBurnIdHex l # seen) ls = Inr u" and "lBurnIdHex l \<notin> set seen"
    by (auto simp: result_simps)
  with Cons.IH [OF this(1)] show ?case by auto
qed simp

lemma commitment_distinct:
  "buildTrustlessBurnCommitment H inputs = Inr C \<Longrightarrow> distinct (map lBurnIdHex (cLeaves C))"
  using commitment_cases(5) assertUnique_distinct by blast

lemma findIndexFrom_cases:
  "findIndexFrom p k xs = -1 \<and> (\<forall>x \<in> set xs. \<not> p x)
   \<or> (\<exists>i < length xs. findIndexFrom p k xs = int (k + i) \<and> p (xs ! i))"
proof (induction xs arbitrary: k)
  case (Cons x xs)
  show ?case
  proof (cases "p x")
    case False
    with Cons [of "Suc k"] show ?thesis by force
  qed auto
qed simp

text \<open>An inclusion proof that was built: its parts.\<close>

lemma inclusionProof_cases:
  assumes "buildTrustlessBurnInclusionProof H inputs burnId = Inr P"
  obtains C i where "buildTrustlessBurnCommitment H inputs = Inr C" and "i < length (cLeaves C)"
    and "lBurnIdHex (cLeaves C ! i) = lowerStr (strip0x burnId)"
    and "P = \<lparr> pBridgeEventRootHex = cBridgeEventRootHex C, pLeaf = cLeaves C ! i, pLeafIndex = int i,
               pLeafCount = int (length (cLeaves C)),
               pProof = merkleProofLoop H (leafHashes (cLeaves C)) i \<rparr>"
proof -
  from assms obtain target C where t: "normalizeHex burnId 32 ''burnId'' = Inr target"
    and C: "buildTrustlessBurnCommitment H inputs = Inr C"
    and found: "findIndexFrom (\<lambda>leaf. lBurnIdHex leaf = target) 0 (cLeaves C) \<noteq> -1"
    and P: "P = \<lparr> pBridgeEventRootHex = cBridgeEventRootHex C,
        pLeaf = cLeaves C ! nat (findIndexFrom (\<lambda>leaf. lBurnIdHex leaf = target) 0 (cLeaves C)),
        pLeafIndex = findIndexFrom (\<lambda>leaf. lBurnIdHex leaf = target) 0 (cLeaves C),
        pLeafCount = int (length (cLeaves C)),
        pProof = merkleProofLoop H (leafHashes (cLeaves C))
          (nat (findIndexFrom (\<lambda>leaf. lBurnIdHex leaf = target) 0 (cLeaves C))) \<rparr>"
    by (auto simp: buildTrustlessBurnInclusionProof_def merkleProof_def Let_def result_simps)
  from found findIndexFrom_cases [of "\<lambda>leaf. lBurnIdHex leaf = target" 0 "cLeaves C"]
  obtain i where "i < length (cLeaves C)" "lBurnIdHex (cLeaves C ! i) = target"
    "findIndexFrom (\<lambda>leaf. lBurnIdHex leaf = target) 0 (cLeaves C) = int i" by auto
  with that [of C i] C P normalizeHex_value [OF t] show ?thesis by simp
qed


section \<open>Honest proofs are accepted\<close>

lemma verify_complete:
  assumes H: "\<And>x. length (H x) = 32" and leaves: "\<And>l. l \<in> set ls \<Longrightarrow> canonicalLeaf H l"
    and i: "i < length ls"
  shows "verifyTrustlessBurnInclusionProof H (asInput (ls ! i)) (toHex (merkleRoot H (leafHashes ls)))
           (merkleProofLoop H (leafHashes ls) i) = Inr True"
proof -
  have l: "canonicalLeaf H (ls ! i)" using leaves i by simp
  have dig: "digests (leafHashes ls)" using H leaves by (rule leafHashes_digests)
  have "leafHashes ls \<noteq> []" using i by (auto simp: leafHashes_def)
  then have root: "length (merkleRoot H (leafHashes ls)) = 32" using root_digest [OF H dig] by simp
  have "climb H (fromHex (lLeafHashHex (ls ! i))) (merkleProofLoop H (leafHashes ls) i)
      = Inr (merkleRoot H (leafHashes ls))"
    using climb_complete [OF H dig, of i] i by (simp add: leafHashes_def)
  then show ?thesis using verifyInclusion_iff [OF encodeLeaf_asInput [OF l] root] by simp
qed

text \<open>The burn tree offers the membership contract of the bridge's hash trees.\<close>

definition burnTreeOk :: "(bytes \<Rightarrow> bytes) \<Rightarrow> burn_leaf list \<Rightarrow> bool" where
  "burnTreeOk H ls \<longleftrightarrow> (\<forall>x. length (H x) = 32) \<and> (\<forall>l \<in> set ls. canonicalLeaf H l)"

interpretation burn_tree: membership_scheme
  "burnTreeOk H" "\<lambda>ls. toHex (merkleRoot H (leafHashes ls))"
  "\<lambda>ls. merkleProofLoop H (leafHashes ls)"
  "\<lambda>l p r. verifyTrustlessBurnInclusionProof H (asInput l) r p = Inr True" for H
  by unfold_locales (simp add: burnTreeOk_def verify_complete)

lemma commitment_treeOk:
  "(\<And>x. length (H x) = 32) \<Longrightarrow> buildTrustlessBurnCommitment H inputs = Inr C \<Longrightarrow> burnTreeOk H (cLeaves C)"
  using commitment_cases(4) by (simp add: burnTreeOk_def)

lemma envelope_complete:
  assumes H: "\<And>x. length (H x) = 32"
    and P: "buildTrustlessBurnInclusionProof H inputs burnId = Inr P"
    and safe: "isSafeInteger (pLeafCount P)"
  shows "(lBurnIdHex (pLeaf P) = lowerStr (strip0x burnId)
    \<and> verifyTrustlessBurnInclusionProof H (asInput (pLeaf P)) (pBridgeEventRootHex P) (pProof P) = Inr True)
    \<and> vOk (validateTrustlessBurnInclusionProofEnvelope H P)"
proof -
  from P obtain C i where C: "buildTrustlessBurnCommitment H inputs = Inr C" and i: "i < length (cLeaves C)"
    and b: "lBurnIdHex (cLeaves C ! i) = lowerStr (strip0x burnId)"
    and P': "P = \<lparr> pBridgeEventRootHex = cBridgeEventRootHex C, pLeaf = cLeaves C ! i, pLeafIndex = int i,
               pLeafCount = int (length (cLeaves C)),
               pProof = merkleProofLoop H (leafHashes (cLeaves C)) i \<rparr>"
    by (rule inclusionProof_cases)
  let ?xs = "leafHashes (cLeaves C)"
  note cc = commitment_cases [OF C]
  have tree: "burnTreeOk H (cLeaves C)" using H C by (rule commitment_treeOk)
  have verified: "verifyTrustlessBurnInclusionProof H (asInput (cLeaves C ! i)) (cBridgeEventRootHex C)
      (merkleProofLoop H ?xs i) = Inr True"
    using burn_tree.complete [OF tree i] by (simp add: cc(2))
  have dig: "digests ?xs" using H cc(4) by (rule leafHashes_digests)
  have ix: "i < length ?xs" using i by (simp add: leafHashes_def)
  have "length (merkleRoot H ?xs) = 32" using root_digest [OF H dig] ix by fastforce
  then have root: "normalizeHex (cBridgeEventRootHex C) 32 lb = Inr (cBridgeEventRootHex C)" for lb
    by (simp add: cc(2) normalizeHex_toHex)
  have leaf: "encodeTrustlessBurnLeaf H (asInput (cLeaves C ! i)) = Inr (cLeaves C ! i)"
    using cc(4) i by (simp add: encodeLeaf_asInput)
  have dirs: "validateProofDirections H (merkleProofLoop H ?xs i) 0 i (length (cLeaves C))
      (fromHex (lLeafHashHex (cLeaves C ! i))) = []"
    using directions_complete [OF H dig ix, where k = 0] i by (simp add: leafHashes_def)
  have len: "length (merkleProofLoop H ?xs i) = expectedMerkleProofDepth (length (cLeaves C))"
    using merkleProofLoop_length [OF ix, of H] by (simp add: leafHashes_def)
  have idx: "isSafeInteger (int i)" "isSafeInteger (int (length (cLeaves C)))"
    using safe i by (auto simp: P' safe_defs)
  have "vOk (validateTrustlessBurnInclusionProofEnvelope H P)"
    unfolding validateTrustlessBurnInclusionProofEnvelope_def P'
    using root leaf dirs len idx i verified cc(3)
    by (simp add: parseProofIndex_def indexIssues_def inclusionIssues_def)
  with verified b show ?thesis by (simp add: P')
qed

text \<open>Completeness of burn inclusion. Whenever the relayer builds an inclusion proof for a burn, the
  inclusion verifier accepts it against the commitment's root, and the strict envelope validator
  (proof length, sides, unpaired siblings, leaf index and count) reports no issue.\<close>

theorem burnInclusion_complete:
  assumes H: "\<And>x. length (H x) = 32"
    and P: "buildTrustlessBurnInclusionProof H inputs burnId = Inr P"
    and safe: "isSafeInteger (pLeafCount P)"
  shows "lBurnIdHex (pLeaf P) = lowerStr (strip0x burnId)
    \<and> verifyTrustlessBurnInclusionProof H (asInput (pLeaf P)) (pBridgeEventRootHex P) (pProof P) = Inr True
    \<and> vOk (validateTrustlessBurnInclusionProofEnvelope H P)"
  using envelope_complete [OF assms] by simp


section \<open>Accepted proofs name committed burns\<close>

text \<open>A climb whose sides follow the index starts on the node at that index.\<close>

lemma directions_sound:
  assumes H: "\<And>x. length (H x) = 32"
  assumes "digests level" and "i < length level" and "length c = 32"
    and "length steps = expectedMerkleProofDepth (length level)"
    and "validateProofDirections H steps k i (length level) c = []"
    and "climb H c steps = Inr (merkleRoot H level)"
    and "inj_on H (set (treePreimages H level) \<union> set (climbPreimages H c steps))"
  shows "c = level ! i"
  using assms(2-)
proof (induction "length level" arbitrary: level i k c steps rule: less_induct)
  case less
  show ?case
  proof (cases "1 < length level")
    case False
    with less.prems have "length level = 1" by simp
    moreover from this have "steps = []" using less.prems(4) by (simp add: expectedMerkleProofDepth.simps)
    ultimately show ?thesis using less.prems by (auto simp: length_Suc_conv merkleRoot_single)
  next
    case True
    then obtain step rest where steps: "steps = step # rest"
      using less.prems(4) by (cases steps) (auto simp: expectedMerkleProofDepth.simps [of "length level"])
    let ?pre = "hd (climbPreimages H c steps)"
    from climb_Cons_pre [OF less.prems(6) [unfolded steps]] obtain sib where sib: "length sib = 32"
      and pre: "side step = LeftSide \<and> ?pre = nodePre sib c \<or> side step = RightSide \<and> ?pre = nodePre c sib"
      and up: "climb H (H ?pre) rest = Inr (merkleRoot H level)"
      unfolding steps by metis
    from less.prems(6) obtain h where h: "normalizeHex (hashHex step) 32 lb = Inr h" for lb
      unfolding steps by (auto simp: result_simps normalizeHex_def Let_def)
    have dirs: "side step = (if odd i then LeftSide else RightSide)"
      "validateProofDirections H rest (k + 1) (i div 2) (length (nextMerkleLevel H level)) (H ?pre) = []"
      using less.prems(5) True h normalizeHex_value [OF h]
      by (auto simp: steps Let_def hashParent_pre odd_iff_mod_2_eq_one split: if_splits)
    have used: "set (climbPreimages H c steps) = insert ?pre (set (climbPreimages H (H ?pre) rest))"
      by (simp add: steps Let_def)
    have tree: "set (treePreimages H level)
        = set (pairUp nodePre (\<lambda>x. nodePre x x) level) \<union> set (treePreimages H (nextMerkleLevel H level))"
      using True by (subst treePreimages.simps) simp
    have "H ?pre = nextMerkleLevel H level ! (i div 2)"
    proof (rule less.hyps)
      show "length rest = expectedMerkleProofDepth (length (nextMerkleLevel H level))"
        using less.prems(4) True by (simp add: steps expectedMerkleProofDepth.simps [of "length level"])
      show "inj_on H (set (treePreimages H (nextMerkleLevel H level)) \<union> set (climbPreimages H (H ?pre) rest))"
        by (rule inj_on_subset [OF less.prems(7)]) (use tree used in auto)
    qed (use True less.prems dirs up H digests_next merkleRoot_step in auto)
    also have "\<dots> = H (pairUp nodePre (\<lambda>x. nodePre x x) level ! (i div 2))"
      using less.prems(2) by (simp add: nextMerkleLevel_pairUp hashParent_fun nth_pairUp)
    finally have "?pre = pairUp nodePre (\<lambda>x. nodePre x x) level ! (i div 2)"
      by (rule inj_onD [OF less.prems(7)]) (use used tree less.prems(2) in \<open>auto intro!: nth_mem\<close>)
    then have "?pre = (if odd i then nodePre (siblingAt level i) (level ! i)
        else nodePre (level ! i) (siblingAt level i))"
      using less.prems(2) by (simp add: nth_pairUp siblingAt_def)
    moreover have "length (siblingAt level i) = 32" "length (level ! i) = 32"
      using less.prems(1,2) siblingAt_digest by (auto simp: digests_def)
    ultimately show ?thesis using pre dirs(1) sib less.prems(3) by (auto simp: nodePre_inj split: if_splits)
  qed
qed

lemma envelope_accepted:
  assumes "vOk (validateTrustlessBurnInclusionProofEnvelope H P)"
  obtains root l where "normalizeHex (pBridgeEventRootHex P) 32 ''bridgeEventRoot'' = Inr root"
    and "encodeTrustlessBurnLeaf H (asInput (pLeaf P)) = Inr l"
    and "lEncodedLeafHex (pLeaf P) = lEncodedLeafHex l" and "lLeafHashHex (pLeaf P) = lLeafHashHex l"
    and "0 \<le> pLeafIndex P" and "pLeafIndex P < pLeafCount P"
    and "length (pProof P) = expectedMerkleProofDepth (nat (pLeafCount P))"
    and "validateProofDirections H (pProof P) 0 (nat (pLeafIndex P)) (nat (pLeafCount P))
           (fromHex (lLeafHashHex l)) = []"
    and "verifyTrustlessBurnInclusionProof H (asInput l) root (pProof P) = Inr True"
  using assms that
  by (auto simp: validateTrustlessBurnInclusionProofEnvelope_def proofValidationBlocked_def
      parseProofIndex_def indexIssues_def inclusionIssues_def Let_def not_le
      split: sum.splits if_splits)

text \<open>Index soundness of the strict envelope. An accepted envelope that carries the root of a burn
  commitment and its number of leaves names the leaf the commitment has at that index, provided no two
  of the strings hashed in the runs collide.\<close>

theorem burnEnvelope_index_sound:
  assumes H: "\<And>x. length (H x) = 32"
    and commit: "buildTrustlessBurnCommitment H inputs = Inr C"
    and accepted: "vOk (validateTrustlessBurnInclusionProofEnvelope H P)"
    and root: "pBridgeEventRootHex P = cBridgeEventRootHex C"
    and count: "pLeafCount P = int (length (cLeaves C))"
    and inj: "\<And>l. encodeTrustlessBurnLeaf H (asInput (pLeaf P)) = Inr l \<Longrightarrow>
                inj_on H (burnHashInputs H (cLeaves C) l (pProof P))"
  shows "encodeTrustlessBurnLeaf H (asInput (pLeaf P)) = Inr (cLeaves C ! nat (pLeafIndex P))"
proof -
  from accepted obtain r l where r: "normalizeHex (pBridgeEventRootHex P) 32 ''bridgeEventRoot'' = Inr r"
    and l: "encodeTrustlessBurnLeaf H (asInput (pLeaf P)) = Inr l"
    and idx: "0 \<le> pLeafIndex P" "pLeafIndex P < pLeafCount P"
    and len: "length (pProof P) = expectedMerkleProofDepth (nat (pLeafCount P))"
    and dirs: "validateProofDirections H (pProof P) 0 (nat (pLeafIndex P)) (nat (pLeafCount P))
           (fromHex (lLeafHashHex l)) = []"
    and ver: "verifyTrustlessBurnInclusionProof H (asInput l) r (pProof P) = Inr True"
    by (rule envelope_accepted)
  note C = commitment_cases [OF commit]
  let ?xs = "leafHashes (cLeaves C)" and ?i = "nat (pLeafIndex P)"
  have can: "canonicalLeaf H l" using l by (rule encodeLeaf_canonical)
  have dig: "digests ?xs" using H C(4) by (rule leafHashes_digests)
  have i: "?i < length (cLeaves C)" "?i < length ?xs" using idx count by (auto simp: leafHashes_def)
  have rl: "length (merkleRoot H ?xs) = 32" using root_digest [OF H dig] i by fastforce
  have "r = cBridgeEventRootHex C" using r rl by (simp add: root C(2) normalizeHex_toHex)
  then have climb: "climb H (fromHex (lLeafHashHex l)) (pProof P) = Inr (merkleRoot H ?xs)"
    using ver verifyInclusion_iff [OF encodeLeaf_asInput [OF can] rl] by (simp add: C(2))
  have "fromHex (lLeafHashHex l) = ?xs ! ?i"
  proof (rule directions_sound [OF H dig i(2) _ _ _ climb])
    show "length (fromHex (lLeafHashHex l)) = 32" using canonical_leafHash [OF can] H by simp
    show "length (pProof P) = expectedMerkleProofDepth (length ?xs)" using len count by (simp add: leafHashes_def)
    show "validateProofDirections H (pProof P) 0 ?i (length ?xs) (fromHex (lLeafHashHex l)) = []"
      using dirs count by (simp add: leafHashes_def)
    show "inj_on H (set (treePreimages H ?xs) \<union> set (climbPreimages H (fromHex (lLeafHashHex l)) (pProof P)))"
      by (rule inj_on_subset [OF inj [OF l]]) (auto simp: burnHashInputs_def)
  qed
  then have eq: "H (leafPre l) = H (leafPre (cLeaves C ! ?i))"
    using canonical_leafHash [OF can] leafHashes_eq [OF C(4)] i(1) by simp
  have "leafPre l = leafPre (cLeaves C ! ?i)"
    by (rule inj_onD [OF inj [OF l] eq]) (use i(1) in \<open>auto simp: burnHashInputs_def\<close>)
  then have "l = cLeaves C ! ?i"
    using leafBytes_inj [OF can C(4)] i(1) by (simp add: leafPre_def)
  with l show ?thesis by simp
qed


section \<open>Settlement binding\<close>

lemma bindIssue_Nil: "bindIssue a e x = [] \<longleftrightarrow> a = [] \<or> a = e"
  by (simp add: bindIssue_def)

lemma tryAssign_clean:
  "tryAssign rs = (vs, []) \<Longrightarrow> rs = map Inr vs"
proof (induction rs arbitrary: vs)
  case (Cons r rs)
  then show ?case by (cases r) (auto split: prod.splits)
qed simp

lemma decStr_not_Nil: "decStr n \<noteq> []"
  using allDigits_decStr [of n] by (auto simp: allDigits_def)

lemma hexOf_not_Nil: "hexOf 32 s \<Longrightarrow> s \<noteq> []"
  by (auto simp: hexOf_def)

lemma binding_accepted:
  assumes "rOk (verifyTrustlessBurnSettlementBinding H b)"
  obtains root l amt where "encodeTrustlessBurnLeaf H (bLeaf b) = Inr l"
    and "normalizeHex (bBridgeEventRootHex b) 32 ''bridgeEventRoot'' = Inr root"
    and "normalizeHex (bDuplicatePreventionKeyHex b) 32 ''duplicatePreventionKey'' = Inr (lBurnIdHex l)"
    and "normalizeHex (bRecipientErgoTreeHashHex b) 32 ''recipientErgoTreeHash''
           = Inr (lRecipientErgoTreeHashHex l)"
    and "normalizePositiveErgoLong (bAmountNanoErg b) ''amountNanoErg'' = Inr amt"
    and "lAmountNanoErg l = decStr (nat amt)"
    and "selectAssetId (bAssetIdHex b) = Inr (lAssetIdHex l)"
    and "verifyTrustlessBurnInclusionProof H (asInput l) root (bProof b) = Inr True"
proof -
  let ?rs = "[normalizeHex (bBridgeEventRootHex b) 32 ''bridgeEventRoot'',
                 normalizeHex (bDuplicatePreventionKeyHex b) 32 ''duplicatePreventionKey'',
                 normalizeHex (bRecipientErgoTreeHashHex b) 32 ''recipientErgoTreeHash'',
                 andThen (normalizePositiveErgoLong (bAmountNanoErg b) ''amountNanoErg'')
                   (\<lambda>amt. Inr (decStr (nat amt))),
                 selectAssetId (bAssetIdHex b)]"
  obtain vs issues where t: "tryAssign ?rs = (vs, issues)" by fastforce
  from assms t obtain l where l: "encodeTrustlessBurnLeaf H (bLeaf b) = Inr l" and iss: "issues = []"
    and b: "vs ! 1 = [] \<or> vs ! 1 = lBurnIdHex l" "vs ! 2 = [] \<or> vs ! 2 = lRecipientErgoTreeHashHex l"
      "vs ! 3 = [] \<or> vs ! 3 = lAmountNanoErg l" "vs ! 4 = [] \<or> vs ! 4 = lAssetIdHex l"
    and i: "vs ! 0 = [] \<or> inclusionIssues H l (vs ! 0) (bProof b) = []"
    by (auto simp: verifyTrustlessBurnSettlementBinding_def blockedResult_def bindIssue_Nil Let_def
        split: sum.splits if_splits)
  from t iss have "?rs = map Inr vs" using tryAssign_clean by blast
  then obtain root k r a x where vs: "vs = [root, k, r, a, x]"
    and n: "normalizeHex (bBridgeEventRootHex b) 32 ''bridgeEventRoot'' = Inr root"
      "normalizeHex (bDuplicatePreventionKeyHex b) 32 ''duplicatePreventionKey'' = Inr k"
      "normalizeHex (bRecipientErgoTreeHashHex b) 32 ''recipientErgoTreeHash'' = Inr r"
      "andThen (normalizePositiveErgoLong (bAmountNanoErg b) ''amountNanoErg'')
         (\<lambda>amt. Inr (decStr (nat amt))) = Inr a"
      "selectAssetId (bAssetIdHex b) = Inr x"
    by (auto simp: Cons_eq_map_conv)
  from n(4) obtain amt where amt: "normalizePositiveErgoLong (bAmountNanoErg b) ''amountNanoErg'' = Inr amt"
    "a = decStr (nat amt)" by (auto simp: result_simps)
  have "root \<noteq> []" "k \<noteq> []" "r \<noteq> []" "x \<noteq> []"
    using n(1-3) [THEN normalizeHex_hexOf] n(5) [THEN selectAssetId_hexOf] hexOf_not_Nil by blast+
  moreover have "a \<noteq> []" by (simp add: amt decStr_not_Nil)
  ultimately show ?thesis
    using that [of l root amt] l n amt b i
    by (auto simp: vs inclusionIssues_def split: sum.splits if_splits)
qed

text \<open>C1. Soundness of the settlement binding. A settlement that is accepted against the root of a burn
  commitment pays exactly one committed burn: its duplicate-prevention key is that burn's id, and no
  other committed burn has it; recipient, amount and asset are the burn's own.\<close>

theorem settlementBinding_sound:
  assumes H: "\<And>x. length (H x) = 32"
    and commit: "buildTrustlessBurnCommitment H inputs = Inr C"
    and root: "normalizeHex (bBridgeEventRootHex b) 32 ''bridgeEventRoot'' = Inr (cBridgeEventRootHex C)"
    and accepted: "rOk (verifyTrustlessBurnSettlementBinding H b)"
    and inj: "\<And>l. encodeTrustlessBurnLeaf H (bLeaf b) = Inr l \<Longrightarrow>
                inj_on H (burnHashInputs H (cLeaves C) l (bProof b))"
  shows "\<exists>l \<in> set (cLeaves C).
      normalizeHex (bDuplicatePreventionKeyHex b) 32 ''duplicatePreventionKey'' = Inr (lBurnIdHex l)
    \<and> (\<forall>m \<in> set (cLeaves C). lBurnIdHex m = lBurnIdHex l \<longrightarrow> m = l)
    \<and> normalizeHex (bRecipientErgoTreeHashHex b) 32 ''recipientErgoTreeHash'' = Inr (lRecipientErgoTreeHashHex l)
    \<and> normalizePositiveErgoLong (bAmountNanoErg b) ''amountNanoErg'' = Inr (decVal (lAmountNanoErg l))
    \<and> selectAssetId (bAssetIdHex b) = Inr (lAssetIdHex l)"
proof -
  from accepted obtain r l amt where l: "encodeTrustlessBurnLeaf H (bLeaf b) = Inr l"
    and r: "normalizeHex (bBridgeEventRootHex b) 32 ''bridgeEventRoot'' = Inr r"
    and f: "normalizeHex (bDuplicatePreventionKeyHex b) 32 ''duplicatePreventionKey'' = Inr (lBurnIdHex l)"
      "normalizeHex (bRecipientErgoTreeHashHex b) 32 ''recipientErgoTreeHash''
           = Inr (lRecipientErgoTreeHashHex l)"
    and a: "normalizePositiveErgoLong (bAmountNanoErg b) ''amountNanoErg'' = Inr amt"
      "lAmountNanoErg l = decStr (nat amt)"
    and s: "selectAssetId (bAssetIdHex b) = Inr (lAssetIdHex l)"
    and ver: "verifyTrustlessBurnInclusionProof H (asInput l) r (bProof b) = Inr True"
    by (rule binding_accepted)
  have can: "canonicalLeaf H l" using l by (rule encodeLeaf_canonical)
  have "r = cBridgeEventRootHex C" using r root by simp
  with ver have mem: "l \<in> set (cLeaves C)"
    using inclusion_sound [OF H commit encodeLeaf_asInput [OF can] _ inj [OF l]] by simp
  have "amt = decVal (lAmountNanoErg l)"
    using a normalizeErgoLong_range [OF a(1)] by (simp add: decVal_decStr)
  moreover have "\<forall>m \<in> set (cLeaves C). lBurnIdHex m = lBurnIdHex l \<longrightarrow> m = l"
    using commitment_distinct [OF commit] mem by (auto simp: distinct_map dest: inj_onD)
  ultimately show ?thesis using mem f a s by auto
qed


section \<open>A commitment to two burns\<close>

text \<open>A checksum in the place of the hash function, under which the strings hashed here do not
  collide, and two burns of 5 and 9 nanoERG.\<close>

definition demoLeaf :: "int \<Rightarrow> int \<Rightarrow> burn_leaf" where
  "demoLeaf ev amt =
     (let burn = demoHash (BURN_ID_DOMAIN @ replicate 32 1 @ replicate 32 3 @ uint32Be ev);
          encoded = [BURN_LEAF_FORMAT_VERSION] @ replicate 32 1 @ replicate 32 2 @ burn @ replicate 32 3
            @ uint32Be ev @ replicate 32 4 @ uint64Be amt @ replicate 32 0
      in \<lparr> lSidechainIdHex = toHex (replicate 32 1), lSidechainBlockHashHex = toHex (replicate 32 2),
           lBurnIdHex = toHex burn, lSidechainTxHashHex = toHex (replicate 32 3), lEventIndex = ev,
           lRecipientErgoTreeHashHex = toHex (replicate 32 4), lAmountNanoErg = decStr (nat amt),
           lAssetIdHex = toHex (replicate 32 0), lEncodedLeafHex = toHex encoded,
           lLeafHashHex = toHex (demoHash (LEAF_DOMAIN @ encoded)) \<rparr>)"

lemma demoLeaf_canonical:
  "0 \<le> ev \<Longrightarrow> ev < 2 ^ 32 \<Longrightarrow> 0 < amt \<Longrightarrow> amt < 2 ^ 63 \<Longrightarrow> canonicalLeaf demoHash (demoLeaf ev amt)"
  unfolding canonicalLeaf_def demoLeaf_def Let_def
  by (auto simp: hexOf_toHex leafBytes_def burnIdPreimage_def decVal_decStr simp del: toHex_append)

lemma sum_ascii: "sum_list (asciiBytes s) = of_nat (sum_list (map code s))"
  by (induction s) (simp_all add: asciiBytes_def)

lemma demo_domains [simp]: "sum_list LEAF_DOMAIN = 245" "sum_list NODE_DOMAIN = 3" "sum_list BURN_ID_DOMAIN = 106"
  by code_simp+

lemma demo_ints [simp]: 
  "sum_list (uint32Be 0) = 0" "sum_list (uint32Be 1) = 1" "sum_list (uint64Be 5) = 5" "sum_list (uint64Be 9) = 9"
  by (simp_all add: uint32Be_def uint64Be_def beBytes_numeral)

definition demoLeaves :: "burn_leaf list" where
  "demoLeaves = [demoLeaf 0 5, demoLeaf 1 9]"

definition demoCommitment :: burn_commitment where
  "demoCommitment = \<lparr> cBridgeEventRootHex = toHex (merkleRoot demoHash (leafHashes demoLeaves)),
     cLeaves = demoLeaves \<rparr>"

definition demoProof :: burn_inclusion_proof where
  "demoProof = \<lparr> pBridgeEventRootHex = cBridgeEventRootHex demoCommitment, pLeaf = demoLeaf 0 5,
     pLeafIndex = 0, pLeafCount = 2, pProof = merkleProofLoop demoHash (leafHashes demoLeaves) 0 \<rparr>"

lemma demoLeaves_canonical: "l \<in> set demoLeaves \<Longrightarrow> canonicalLeaf demoHash l"
  by (auto simp: demoLeaves_def demoLeaf_canonical)

lemma demo_encode [simp]: "encodeTrustlessBurnLeaf demoHash (asInput (demoLeaf 0 5)) = Inr (demoLeaf 0 5)"
  "encodeTrustlessBurnLeaf demoHash (asInput (demoLeaf 1 9)) = Inr (demoLeaf 1 9)"
  by (simp_all add: encodeLeaf_asInput demoLeaf_canonical)

lemma demo_burnIds: "lBurnIdHex (demoLeaf 0 5) \<noteq> lBurnIdHex (demoLeaf 1 9)"
  by (simp add: demoLeaf_def Let_def del: toHex_append)

lemma demo_commitment: "buildTrustlessBurnCommitment demoHash (map asInput demoLeaves) = Inr demoCommitment"
  using demo_burnIds
  by (simp add: buildTrustlessBurnCommitment_def demoCommitment_def demoLeaves_def require_def)

lemma demo_burnId: "normalizeHex (lBurnIdHex (demoLeaf 0 5)) 32 lb = Inr (lBurnIdHex (demoLeaf 0 5))"
  by (simp add: demoLeaf_def Let_def normalizeHex_toHex del: toHex_append)

lemma demo_proof:
  "buildTrustlessBurnInclusionProof demoHash (map asInput demoLeaves) (lBurnIdHex (demoLeaf 0 5)) = Inr demoProof"
proof -
  have "normalizeHex (lBurnIdHex (demoLeaf 0 5)) 32 ''burnId'' = Inr (lBurnIdHex (demoLeaf 0 5))"
    by (rule demo_burnId)
  then show ?thesis
    by (simp add: buildTrustlessBurnInclusionProof_def demo_commitment merkleProof_def)
      (simp add: demoProof_def demoCommitment_def demoLeaves_def leafHashes_def)
qed

lemma demo_leafHash: "fromHex (lLeafHashHex (demoLeaf 0 5)) = replicate 31 0 @ [37]"
  "fromHex (lLeafHashHex (demoLeaf 1 9)) = replicate 31 0 @ [43]"
  by (simp_all add: demoLeaf_def Let_def demoHash_def sum_list_replicate BURN_LEAF_FORMAT_VERSION_def
     del: toHex_append)

lemma demo_leafPre: "sum_list (leafPre (demoLeaf 0 5)) = 37" "sum_list (leafPre (demoLeaf 1 9)) = 43"
  using demo_leafHash demoLeaf_canonical [of 0 5] demoLeaf_canonical [of 1 9]
  by (simp_all add: canonical_leafHash [of demoHash] demoHash_def)

lemma demo_hashInputs:
  "burnHashInputs demoHash demoLeaves (demoLeaf 0 5) (pProof demoProof) =
     {nodePre (replicate 31 0 @ [37]) (replicate 31 0 @ [43]), leafPre (demoLeaf 0 5), leafPre (demoLeaf 1 9)}"
  by (auto simp: burnHashInputs_def demoLeaves_def demoProof_def leafHashes_def demo_leafHash
     treePreimages.simps merkleProofLoop.simps Let_def strip0x_lowerHex simp del: toHex_append)

lemma demo_inj: "inj_on demoHash (burnHashInputs demoHash demoLeaves (demoLeaf 0 5) (pProof demoProof))"
  unfolding demo_hashInputs by (auto simp: inj_on_def demo_leafPre nodePre_def sum_list_replicate)

text \<open>The theorems of the burn proofs at this commitment.\<close>

definition demoBinding :: settlement_binding_input where
  "demoBinding = \<lparr> bLeaf = asInput (demoLeaf 0 5), bBridgeEventRootHex = cBridgeEventRootHex demoCommitment,
     bProof = pProof demoProof, bDuplicatePreventionKeyHex = lBurnIdHex (demoLeaf 0 5),
     bRecipientErgoTreeHashHex = toHex (replicate 32 4), bAmountNanoErg = SBig 5, bAssetIdHex = None \<rparr>"

lemma demo_amount: "normalizePositiveErgoLong (SBig 5) lb = Inr 5"
  by (simp add: normalizePositiveErgoLong_def normalizeUint64_def digitsOf_def)

lemma demo_asset: "selectAssetId None = Inr (lAssetIdHex (demoLeaf 0 5))"
proof -
  have "NATIVE_ERG_ASSET_ID_HEX = toHex (replicate 32 0)" by code_simp
  then show ?thesis by (simp add: selectAssetId_def demoLeaf_def Let_def)
qed

text \<open>The same burn, its amount given as a bigint and its asset left to the profile default.\<close>

lemma demo_encode_defaults:
  "encodeTrustlessBurnLeaf demoHash ((asInput (demoLeaf 0 5)) \<lparr> amountNanoErg := SBig 5, assetIdHex := None \<rparr>)
     = Inr (demoLeaf 0 5)"
proof -
  have "normalizePositiveErgoLong (SStr (lAmountNanoErg (demoLeaf 0 5))) lb = Inr 5" for lb
    using normalizeErgoLong_decStr [of 5 lb] by (simp add: demoLeaf_def Let_def)
  moreover have "selectAssetId (Some (lAssetIdHex (demoLeaf 0 5))) = Inr (lAssetIdHex (demoLeaf 0 5))"
    using length_toHex [of "replicate 32 0"]
    by (auto simp: selectAssetId_def demoLeaf_def Let_def normalizeHex_toHex simp del: length_toHex)
  ultimately have "encodeTrustlessBurnLeaf demoHash
        ((asInput (demoLeaf 0 5)) \<lparr> amountNanoErg := SBig 5, assetIdHex := None \<rparr>)
      = encodeTrustlessBurnLeaf demoHash (asInput (demoLeaf 0 5))"
    unfolding encodeTrustlessBurnLeaf_def asInput_def by (simp add: demo_amount demo_asset)
  then show ?thesis by simp
qed

theorem burnLeaf_encoding_injective_witness:
  "encodeTrustlessBurnLeaf demoHash ((asInput (demoLeaf 0 5)) \<lparr> amountNanoErg := SBig 5, assetIdHex := None \<rparr>)
     = encodeTrustlessBurnLeaf demoHash (asInput (demoLeaf 0 5))"
  using burnLeaf_encoding_injective [OF demo_encode_defaults demo_encode(1) refl] demo_encode_defaults by simp

lemma demo_verified:
  "verifyTrustlessBurnInclusionProof demoHash (asInput (demoLeaf 0 5)) (cBridgeEventRootHex demoCommitment)
     (pProof demoProof) = Inr True"
  using verify_complete [of demoHash demoLeaves 0] demoLeaves_canonical
  by (simp add: demoCommitment_def demoProof_def) (simp add: demoLeaves_def)

theorem burnInclusion_sound_witness:
  "demoLeaf 0 5 \<in> set (cLeaves demoCommitment)"
proof (rule burnInclusion_sound [OF _ demo_commitment demo_encode(1) demo_verified])
  show "inj_on demoHash (burnHashInputs demoHash (cLeaves demoCommitment) (demoLeaf 0 5) (pProof demoProof))"
    using demo_inj by (simp add: demoCommitment_def)
qed simp

theorem burnInclusion_complete_witness:
  "vOk (validateTrustlessBurnInclusionProofEnvelope demoHash demoProof)"
  using burnInclusion_complete [OF _ demo_proof] by (simp add: demoProof_def safe_defs)

lemma demo_root: "normalizeHex (cBridgeEventRootHex demoCommitment) 32 lb = Inr (cBridgeEventRootHex demoCommitment)"
proof -
  have "digests (leafHashes demoLeaves)" by (rule leafHashes_digests [OF _ demoLeaves_canonical]) simp_all
  then have "length (merkleRoot demoHash (leafHashes demoLeaves)) = 32"
    by (rule root_digest [rotated]) (simp_all add: leafHashes_def demoLeaves_def)
  then show ?thesis by (simp add: demoCommitment_def normalizeHex_toHex)
qed

lemma demo_binding: "rOk (verifyTrustlessBurnSettlementBinding demoHash demoBinding)"
proof -
  have "lRecipientErgoTreeHashHex (demoLeaf 0 5) = toHex (replicate 32 4)"
    "lAmountNanoErg (demoLeaf 0 5) = decStr 5" by (simp_all add: demoLeaf_def Let_def)
  then show ?thesis
    by (simp add: verifyTrustlessBurnSettlementBinding_def demoBinding_def demo_root demo_burnId demo_amount
        demo_asset normalizeHex_toHex bindIssue_def inclusionIssues_def demo_verified Let_def)
qed

theorem burnEnvelope_index_sound_witness:
  "encodeTrustlessBurnLeaf demoHash (asInput (pLeaf demoProof)) = Inr (cLeaves demoCommitment ! 0)"
proof -
  have "vOk (validateTrustlessBurnInclusionProofEnvelope demoHash demoProof)"
    by (rule envelope_complete [OF _ demo_proof, THEN conjunct2]) (simp_all add: demoProof_def safe_defs)
  from burnEnvelope_index_sound [OF _ demo_commitment this] show ?thesis
    using demo_inj by (simp add: demoProof_def demoCommitment_def demoLeaves_def)
qed

theorem settlementBinding_sound_witness:
  "\<exists>l \<in> set demoLeaves. lBurnIdHex l = bDuplicatePreventionKeyHex demoBinding \<and> lAmountNanoErg l = decStr 5"
proof -
  have "\<exists>l \<in> set (cLeaves demoCommitment).
      normalizeHex (bDuplicatePreventionKeyHex demoBinding) 32 ''duplicatePreventionKey'' = Inr (lBurnIdHex l)
    \<and> (\<forall>m \<in> set (cLeaves demoCommitment). lBurnIdHex m = lBurnIdHex l \<longrightarrow> m = l)"
    using settlementBinding_sound [OF _ demo_commitment _ demo_binding] demo_inj demo_root
    by (fastforce simp: demoBinding_def demoCommitment_def)
  then show ?thesis using demo_burnId by (auto simp: demoBinding_def demoCommitment_def demoLeaves_def demoLeaf_def Let_def)
qed

end
