(* ===== verification/Extension_Membership.thy ===== *)
theory Extension_Membership
  imports Merkle_Levels
begin

text \<open>
  The Ergo extension tree: \<^verbatim>\<open>ergo-settlement-core/ergo-extension-membership.ts\<close>. A block commits to
  its ordered extension fields; the relayer proves and checks that a field is among them.

  BLAKE2b is the parameter \<open>H\<close>. A node of the tree has a digest, two children or none, and a leaf
  index when it is a field; the padding node at the end of an odd level has the empty digest.
\<close>

section \<open>Definitions\<close>

datatype ext_error =
    KeyTooLong
  | NotADigest string
  | InvalidProof "nat option"
  | NoFields
  | TargetKeyDuplicated
  | DuplicateKeyAt nat
  | TargetKeyAbsent
  | TargetIndexNotInTree
  | LoopWithoutEnd

definition DIGEST_SIZE :: nat where "DIGEST_SIZE = 32"
definition LEVEL_SIZE :: nat where "LEVEL_SIZE = 33"
definition MIN_DEPTH :: nat where "MIN_DEPTH = 1"
definition MAX_DEPTH :: nat where "MAX_DEPTH = 14"
definition LEAF_PREFIX :: byte where "LEAF_PREFIX = 0"
definition INTERNAL_PREFIX :: byte where "INTERNAL_PREFIX = 1"
definition SIDE_LEFT :: byte where "SIDE_LEFT = 0"
definition SIDE_RIGHT :: byte where "SIDE_RIGHT = 1"
definition SIDE_LEFT_EMPTY :: byte where "SIDE_LEFT_EMPTY = 2"
definition SIDE_RIGHT_EMPTY :: byte where "SIDE_RIGHT_EMPTY = 3"

lemmas ext_consts = DIGEST_SIZE_def LEVEL_SIZE_def MIN_DEPTH_def MAX_DEPTH_def LEAF_PREFIX_def
  INTERNAL_PREFIX_def SIDE_LEFT_def SIDE_RIGHT_def SIDE_LEFT_EMPTY_def SIDE_RIGHT_EMPTY_def

record ext_field =
  fKey :: bytes
  fValue :: bytes

record ext_step =
  sSide :: byte
  sSibling :: bytes

record ext_proof =
  xRoot :: bytes
  xProof :: bytes
  xLeafData :: bytes
  xLeafHash :: bytes
  xTargetIndex :: nat
  xFieldCount :: nat

datatype tree_node = TreeTip bytes "nat option" | TreeBranch bytes tree_node tree_node

fun nodeHash :: "tree_node \<Rightarrow> bytes" where
  "nodeHash (TreeTip h i) = h"
| "nodeHash (TreeBranch h l r) = h"

abbreviation emptyNode :: tree_node where
  "emptyNode \<equiv> TreeTip [] None"

definition assertDigest :: "bytes \<Rightarrow> string \<Rightarrow> ext_error + unit" where
  "assertDigest value label = require (length value = DIGEST_SIZE) (NotADigest label) (Inr ())"

definition isErgoExtensionMerkleSide :: "byte \<Rightarrow> bool" where
  "isErgoExtensionMerkleSide value \<longleftrightarrow> SIDE_LEFT \<le> value \<and> value \<le> SIDE_RIGHT_EMPTY"

definition encodeErgoExtensionLeafData :: "bytes \<Rightarrow> bytes \<Rightarrow> ext_error + bytes" where
  "encodeErgoExtensionLeafData key value =
     require (\<not> length key > 0xff) KeyTooLong (Inr ([of_nat (length key)] @ key @ value))"

definition hashErgoExtensionLeaf :: "(bytes \<Rightarrow> bytes) \<Rightarrow> bytes \<Rightarrow> bytes" where
  "hashErgoExtensionLeaf H leafData = H ([LEAF_PREFIX] @ leafData)"

definition hashErgoExtensionInternal :: "(bytes \<Rightarrow> bytes) \<Rightarrow> bytes \<Rightarrow> bytes \<Rightarrow> ext_error + bytes" where
  "hashErgoExtensionInternal H left right =
     andThen (assertDigest left ''left node hash'') (\<lambda>_.
     andThen (assertDigest right ''right node hash'') (\<lambda>_.
     Inr (H ([INTERNAL_PREFIX] @ left @ right))))"

definition hashErgoExtensionEmptySibling :: "(bytes \<Rightarrow> bytes) \<Rightarrow> bytes \<Rightarrow> ext_error + bytes" where
  "hashErgoExtensionEmptySibling H current =
     andThen (assertDigest current ''current node hash'') (\<lambda>_. Inr (H ([INTERNAL_PREFIX] @ current)))"

definition hashErgoExtensionNode :: "(bytes \<Rightarrow> bytes) \<Rightarrow> bytes \<Rightarrow> bytes \<Rightarrow> ext_error + bytes" where
  "hashErgoExtensionNode H left right =
     (if length right = 0 then hashErgoExtensionEmptySibling H left
      else hashErgoExtensionInternal H left right)"

datatype ext_issue = EmptyProof | BadLength | TooShallow | TooDeep | InvalidSide nat byte | PaddingNotZero nat

record ext_validation =
  okV :: bool
  depthV :: "nat option"
  errorsV :: "ext_issue list"

text \<open>The loop over complete levels; a last incomplete level is not visited.\<close>

function levelIssues :: "nat \<Rightarrow> bytes \<Rightarrow> ext_issue list" where
  "levelIssues level proof =
     (if LEVEL_SIZE \<le> length proof then
        let s = proof ! 0 in
        (if \<not> isErgoExtensionMerkleSide s then [InvalidSide level s]
         else if (s = SIDE_LEFT_EMPTY \<or> s = SIDE_RIGHT_EMPTY)
              \<and> \<not> list_all (\<lambda>byte. byte = 0) (take (LEVEL_SIZE - 1) (drop 1 proof))
         then [PaddingNotZero level] else [])
        @ levelIssues (level + 1) (drop LEVEL_SIZE proof)
      else [])"
  by pat_completeness auto
termination
  by (relation "measure (\<lambda>(level, proof). length proof)") (auto simp: LEVEL_SIZE_def)

declare levelIssues.simps [simp del]

definition validateErgoExtensionMembershipProof :: "bytes \<Rightarrow> ext_validation" where
  "validateErgoExtensionMembershipProof proof =
     (let depth = (if length proof mod LEVEL_SIZE = 0 then Some (length proof div LEVEL_SIZE) else None);
          errors = (if length proof = 0 then [EmptyProof] else [])
            @ (if length proof mod LEVEL_SIZE \<noteq> 0 then [BadLength] else [])
            @ (case depth of Some d \<Rightarrow> if d < MIN_DEPTH then [TooShallow] else [] | None \<Rightarrow> [])
            @ (case depth of Some d \<Rightarrow> if d > MAX_DEPTH then [TooDeep] else [] | None \<Rightarrow> [])
            @ levelIssues 0 proof
      in \<lparr> okV = (errors = []), depthV = depth, errorsV = errors \<rparr>)"

function splitLevels :: "bytes \<Rightarrow> ext_step list" where
  "splitLevels proof =
     (if proof = [] then []
      else \<lparr> sSide = proof ! 0, sSibling = take (LEVEL_SIZE - 1) (drop 1 proof) \<rparr>
           # splitLevels (drop LEVEL_SIZE proof))"
  by pat_completeness auto
termination
  by (relation "measure length") (auto simp: LEVEL_SIZE_def)

declare splitLevels.simps [simp del]

definition parseErgoExtensionMembershipProof :: "bytes \<Rightarrow> ext_error + ext_step list" where
  "parseErgoExtensionMembershipProof proof =
     (let validation = validateErgoExtensionMembershipProof proof in
      require (okV validation) (InvalidProof (depthV validation)) (Inr (splitLevels proof)))"

fun climbExtension :: "(bytes \<Rightarrow> bytes) \<Rightarrow> bytes \<Rightarrow> ext_step list \<Rightarrow> ext_error + bytes" where
  "climbExtension H current [] = Inr current"
| "climbExtension H current (step # rest) =
     andThen (if sSide step = SIDE_LEFT then hashErgoExtensionInternal H current (sSibling step)
              else if sSide step = SIDE_RIGHT then hashErgoExtensionInternal H (sSibling step) current
              else hashErgoExtensionEmptySibling H current) (\<lambda>next. climbExtension H next rest)"

definition verifyErgoExtensionMembership ::
  "(bytes \<Rightarrow> bytes) \<Rightarrow> bytes \<Rightarrow> bytes \<Rightarrow> bytes \<Rightarrow> bytes \<Rightarrow> ext_error + bool" where
  "verifyErgoExtensionMembership H key value proof root =
     andThen (assertDigest root ''extension membership root'') (\<lambda>_.
     andThen (encodeErgoExtensionLeafData key value) (\<lambda>leafData.
     andThen (parseErgoExtensionMembershipProof proof) (\<lambda>steps.
     andThen (climbExtension H (hashErgoExtensionLeaf H leafData) steps) (\<lambda>current.
     Inr (current = root)))))"

fun nextTreeLevel :: "(bytes \<Rightarrow> bytes) \<Rightarrow> tree_node list \<Rightarrow> ext_error + tree_node list" where
  "nextTreeLevel H [] = Inr []"
| "nextTreeLevel H [left] =
     andThen (hashErgoExtensionNode H (nodeHash left) (nodeHash emptyNode)) (\<lambda>h.
     Inr [TreeBranch h left emptyNode])"
| "nextTreeLevel H (left # right # rest) =
     andThen (hashErgoExtensionNode H (nodeHash left) (nodeHash right)) (\<lambda>h.
     andThen (nextTreeLevel H rest) (\<lambda>upper. Inr (TreeBranch h left right # upper)))"

lemma nextTreeLevel_length: "nextTreeLevel H xs = Inr ys \<Longrightarrow> length ys = (length xs + 1) div 2"
  by (induction H xs arbitrary: ys rule: nextTreeLevel.induct) (auto simp: result_simps)

text \<open>The loop runs at least once, also on a single field. On the empty list it would never end; its
  one caller has refused that list.\<close>

function buildTree :: "(bytes \<Rightarrow> bytes) \<Rightarrow> tree_node list \<Rightarrow> ext_error + tree_node" where
  "buildTree H current =
     (if current = [] then Inl LoopWithoutEnd
      else case nextTreeLevel H current of
             Inl e \<Rightarrow> Inl e
           | Inr upper \<Rightarrow> if length upper = 1 then Inr (upper ! 0) else buildTree H upper)"
  by pat_completeness auto
termination
proof (relation "measure (\<lambda>(H, current). length current)")
  fix H current upper
  assume "current \<noteq> []" and n: "nextTreeLevel H current = Inr upper" and "length upper \<noteq> 1"
  then have "2 \<le> length current" using nextTreeLevel_length [OF n] by (cases current; cases "tl current") auto
  then show "((H, upper), (H, current)) \<in> measure (\<lambda>(H, current). length current)"
    using nextTreeLevel_length [OF n] by simp
qed simp

declare buildTree.simps [simp del]

text \<open>\<open>collect\<close> pushes a step on the way back up; a node without children is found by its index.\<close>

fun collect :: "nat \<Rightarrow> tree_node \<Rightarrow> ext_step list option" where
  "collect targetIndex (TreeTip h leafIndex) = (if leafIndex = Some targetIndex then Some [] else None)"
| "collect targetIndex (TreeBranch h left right) =
     (case collect targetIndex left of
        Some steps \<Rightarrow> Some (steps @ [if length (nodeHash right) = 0
            then \<lparr> sSide = SIDE_LEFT_EMPTY, sSibling = replicate DIGEST_SIZE 0 \<rparr>
            else \<lparr> sSide = SIDE_LEFT, sSibling = nodeHash right \<rparr>])
      | None \<Rightarrow>
          (case collect targetIndex right of
             Some steps \<Rightarrow> Some (steps @ [if length (nodeHash left) = 0
                 then \<lparr> sSide = SIDE_RIGHT_EMPTY, sSibling = replicate DIGEST_SIZE 0 \<rparr>
                 else \<lparr> sSide = SIDE_RIGHT, sSibling = nodeHash left \<rparr>])
           | None \<Rightarrow> None))"

definition collectProof :: "tree_node \<Rightarrow> nat \<Rightarrow> ext_error + ext_step list" where
  "collectProof tree targetIndex =
     (case collect targetIndex tree of None \<Rightarrow> Inl TargetIndexNotInTree | Some steps \<Rightarrow> Inr steps)"

definition serializeProof :: "ext_step list \<Rightarrow> bytes" where
  "serializeProof steps = concat (map (\<lambda>step. [sSide step] @ sSibling step) steps)"

text \<open>\<^verbatim>\<open>fields.map\<close> with its two accumulators: the keys seen so far and the indexes of the target.\<close>

fun leafNodesFrom ::
  "(bytes \<Rightarrow> bytes) \<Rightarrow> bytes \<Rightarrow> string list \<Rightarrow> nat \<Rightarrow> ext_field list \<Rightarrow> ext_error + tree_node list \<times> nat list" where
  "leafNodesFrom H target seen index [] = Inr ([], [])"
| "leafNodesFrom H target seen index (field # rest) =
     (let key = fKey field; keyId = toHex key in
      require (\<not> List.member seen keyId)
        (if key = target then TargetKeyDuplicated else DuplicateKeyAt index)
      (andThen (encodeErgoExtensionLeafData key (fValue field)) (\<lambda>leafData.
       andThen (leafNodesFrom H target (keyId # seen) (index + 1) rest) (\<lambda>(nodes, targets).
       Inr (TreeTip (hashErgoExtensionLeaf H leafData) (Some index) # nodes,
            (if key = target then [index] else []) @ targets)))))"

definition buildErgoExtensionMembershipProof ::
  "(bytes \<Rightarrow> bytes) \<Rightarrow> ext_field list \<Rightarrow> bytes \<Rightarrow> ext_error + ext_proof" where
  "buildErgoExtensionMembershipProof H fieldList targetKey =
     require (length fieldList \<noteq> 0) NoFields
     (andThen (leafNodesFrom H targetKey [] 0 fieldList) (\<lambda>(leafNodes, targetIndexes).
      require (length targetIndexes \<noteq> 0) TargetKeyAbsent
      (let targetIndex = targetIndexes ! 0 in
       andThen (buildTree H leafNodes) (\<lambda>tree.
       andThen (collectProof tree targetIndex) (\<lambda>steps.
       let proof = serializeProof steps;
           validation = validateErgoExtensionMembershipProof proof;
           targetField = fieldList ! targetIndex
       in require (okV validation) (InvalidProof (depthV validation))
         (andThen (encodeErgoExtensionLeafData (fKey targetField) (fValue targetField)) (\<lambda>leafData.
          Inr \<lparr> xRoot = nodeHash tree, xProof = proof, xLeafData = leafData,
                xLeafHash = hashErgoExtensionLeaf H leafData, xTargetIndex = targetIndex,
                xFieldCount = length fieldList \<rparr>)))))))"


section \<open>The proof's wire format\<close>

definition stepOk :: "ext_step \<Rightarrow> bool" where
  "stepOk s \<longleftrightarrow> isErgoExtensionMerkleSide (sSide s) \<and> length (sSibling s) = DIGEST_SIZE
     \<and> (sSide s = SIDE_LEFT_EMPTY \<or> sSide s = SIDE_RIGHT_EMPTY \<longrightarrow> sSibling s = replicate DIGEST_SIZE 0)"

lemma serializeProof_simps [simp]:
  "serializeProof [] = []" "serializeProof (s # r) = sSide s # sSibling s @ serializeProof r"
  by (simp_all add: serializeProof_def)

lemma splitLevels_Nil [simp]: "splitLevels [] = []"
  by (subst splitLevels.simps) simp

lemma levelIssues_Nil [simp]: "levelIssues k [] = []"
  by (subst levelIssues.simps) (simp add: LEVEL_SIZE_def)

lemma length_serializeProof:
  "list_all stepOk steps \<Longrightarrow> length (serializeProof steps) = LEVEL_SIZE * length steps"
  by (induction steps) (auto simp: stepOk_def ext_consts)

lemma split_serialize: "list_all stepOk steps \<Longrightarrow> splitLevels (serializeProof steps) = steps"
proof (induction steps)
  case (Cons s r)
  then show ?case by (subst splitLevels.simps) (auto simp: stepOk_def ext_consts)
qed simp

lemma level_dvd:
  "p \<noteq> [] \<Longrightarrow> length p mod LEVEL_SIZE = 0 \<Longrightarrow>
     LEVEL_SIZE \<le> length p \<and> length (drop LEVEL_SIZE p) mod LEVEL_SIZE = 0"
  by (cases "length p < 33") (auto simp: LEVEL_SIZE_def mod_less le_mod_geq)

lemma serialize_split: "length p mod LEVEL_SIZE = 0 \<Longrightarrow> serializeProof (splitLevels p) = p"
proof (induction p rule: splitLevels.induct)
  case (1 p)
  show ?case
  proof (cases p)
    case (Cons b r)
    with 1 have "serializeProof (splitLevels (drop LEVEL_SIZE p)) = drop LEVEL_SIZE p"
      using level_dvd [of p] by simp
    then show ?thesis using Cons by (subst splitLevels.simps) (simp add: ext_consts)
  qed simp
qed

lemma zeros_iff: "list_all (\<lambda>b. b = (0::byte)) xs \<longleftrightarrow> xs = replicate (length xs) 0"
  by (induction xs) auto

lemma levelIssues_Nil_iff:
  "length p mod LEVEL_SIZE = 0 \<Longrightarrow> levelIssues k p = [] \<longleftrightarrow> list_all stepOk (splitLevels p)"
proof (induction k p rule: levelIssues.induct)
  case (1 k p)
  show ?case
  proof (cases "p = []")
    case True
    then show ?thesis by simp
  next
    case False
    then have len: "LEVEL_SIZE \<le> length p" and m: "length (drop LEVEL_SIZE p) mod LEVEL_SIZE = 0"
      using level_dvd [OF False "1.prems"] by simp_all
    then have ih: "levelIssues (k + 1) (drop LEVEL_SIZE p) = []
        \<longleftrightarrow> list_all stepOk (splitLevels (drop LEVEL_SIZE p))"
      using "1.IH" [OF len refl m] by simp
    let ?s = "\<lparr> sSide = p ! 0, sSibling = take (LEVEL_SIZE - 1) (drop 1 p) \<rparr>"
    have n: "length (take (LEVEL_SIZE - 1) (drop 1 p)) = DIGEST_SIZE"
      using len by (simp add: ext_consts)
    have "levelIssues k p = [] \<longleftrightarrow> stepOk ?s \<and> levelIssues (k + 1) (drop LEVEL_SIZE p) = []"
      using len n zeros_iff [of "take (LEVEL_SIZE - 1) (drop 1 p)"]
      by (subst levelIssues.simps) (auto simp: stepOk_def Let_def)
    moreover have "splitLevels p = ?s # splitLevels (drop LEVEL_SIZE p)"
      using False by (subst splitLevels.simps) simp
    ultimately show ?thesis using ih by simp
  qed
qed

lemma validate_ok_iff:
  "okV (validateErgoExtensionMembershipProof p) \<longleftrightarrow>
     (\<exists>steps. p = serializeProof steps \<and> list_all stepOk steps
        \<and> MIN_DEPTH \<le> length steps \<and> length steps \<le> MAX_DEPTH)"
proof
  assume "okV (validateErgoExtensionMembershipProof p)"
  then have d: "length p mod LEVEL_SIZE = 0" "MIN_DEPTH \<le> length p div LEVEL_SIZE"
    "length p div LEVEL_SIZE \<le> MAX_DEPTH" "levelIssues 0 p = []"
    by (auto simp: validateErgoExtensionMembershipProof_def Let_def split: if_splits)
  then have ok: "list_all stepOk (splitLevels p)" by (simp add: levelIssues_Nil_iff)
  moreover have "length (splitLevels p) = length p div LEVEL_SIZE"
    using length_serializeProof [OF ok] d(1) by (simp add: serialize_split ext_consts)
  ultimately show "\<exists>steps. p = serializeProof steps \<and> list_all stepOk steps
        \<and> MIN_DEPTH \<le> length steps \<and> length steps \<le> MAX_DEPTH"
    using d by (intro exI [of _ "splitLevels p"]) (simp add: serialize_split)
next
  assume "\<exists>steps. p = serializeProof steps \<and> list_all stepOk steps
        \<and> MIN_DEPTH \<le> length steps \<and> length steps \<le> MAX_DEPTH"
  then obtain steps where p: "p = serializeProof steps" and ok: "list_all stepOk steps"
    and d: "MIN_DEPTH \<le> length steps" "length steps \<le> MAX_DEPTH" by blast
  have len: "length p = LEVEL_SIZE * length steps" using ok by (simp add: p length_serializeProof)
  moreover have "levelIssues 0 p = []" using ok len by (simp add: levelIssues_Nil_iff p split_serialize)
  ultimately show "okV (validateErgoExtensionMembershipProof p)"
    using d by (auto simp: validateErgoExtensionMembershipProof_def Let_def ext_consts)
qed

text \<open>The membership-proof parser accepts exactly the serialized lists of 1 to 14 well-formed steps
  (a known side, a 32-byte sibling, zero padding where the sibling is empty) and returns that list.\<close>

theorem extensionProof_parse_exact:
  "parseErgoExtensionMembershipProof p = Inr steps \<longleftrightarrow>
     p = serializeProof steps \<and> list_all stepOk steps
     \<and> MIN_DEPTH \<le> length steps \<and> length steps \<le> MAX_DEPTH"
  using validate_ok_iff [of p]
  by (auto simp: parseErgoExtensionMembershipProof_def Let_def result_simps split_serialize)


section \<open>Well-formed trees\<close>

definition branchPre :: "bytes \<Rightarrow> bytes \<Rightarrow> bytes" where
  "branchPre l r = INTERNAL_PREFIX # l @ r"

definition tipPre :: "bytes \<Rightarrow> bytes" where
  "tipPre d = LEAF_PREFIX # d"

fun wfTree :: "(bytes \<Rightarrow> bytes) \<Rightarrow> tree_node \<Rightarrow> bool" where
  "wfTree H (TreeTip h i) \<longleftrightarrow> length h = 32"
| "wfTree H (TreeBranch h l r) \<longleftrightarrow>
     h = H (branchPre (nodeHash l) (nodeHash r)) \<and> wfTree H l \<and> (r = emptyNode \<or> wfTree H r)"

text \<open>The fields below a node, left to right, and all its nodes; padding is not counted.\<close>

fun tips :: "tree_node \<Rightarrow> tree_node list" where
  "tips (TreeTip h i) = (if h = [] then [] else [TreeTip h i])"
| "tips (TreeBranch h l r) = tips l @ tips r"

fun subnodes :: "tree_node \<Rightarrow> tree_node set" where
  "subnodes (TreeTip h i) = (if h = [] then {} else {TreeTip h i})"
| "subnodes (TreeBranch h l r) = insert (TreeBranch h l r) (subnodes l \<union> subnodes r)"

fun treeInputs :: "tree_node \<Rightarrow> bytes set" where
  "treeInputs (TreeTip h i) = {}"
| "treeInputs (TreeBranch h l r) =
     insert (branchPre (nodeHash l) (nodeHash r)) (treeInputs l \<union> treeInputs r)"

lemma branchPre_inj: "length a = length c \<Longrightarrow> branchPre a b = branchPre c d \<longleftrightarrow> a = c \<and> b = d"
  by (simp add: branchPre_def)

lemma tip_not_branch: "tipPre d \<noteq> branchPre a b"
  by (simp add: tipPre_def branchPre_def ext_consts)

lemma wfTree_hash: "(\<And>x. length (H x) = 32) \<Longrightarrow> wfTree H t \<Longrightarrow> length (nodeHash t) = 32"
  by (cases t) auto

lemma hashNode_wf:
  assumes "length l = 32" and "r = [] \<or> length r = 32"
  shows "hashErgoExtensionNode H l r = Inr (H (branchPre l r))"
  using assms
  by (auto simp: hashErgoExtensionNode_def hashErgoExtensionEmptySibling_def hashErgoExtensionInternal_def
      assertDigest_def branchPre_def ext_consts)

lemma nextTreeLevel_wf:
  assumes H: "\<And>x. length (H x) = 32" and "list_all (wfTree H) xs"
  shows "\<exists>ys. nextTreeLevel H xs = Inr ys \<and> list_all (wfTree H) ys
           \<and> concat (map tips ys) = concat (map tips xs) \<and> (\<forall>y \<in> set ys. \<exists>h l r. y = TreeBranch h l r)"
  using assms(2)
proof (induction xs rule: induct_list012)
  case (2 x)
  then show ?case using wfTree_hash [of H x, OF H] by (simp add: hashNode_wf)
next
  case (3 x y r)
  then show ?case using wfTree_hash [of H x, OF H] wfTree_hash [of H y, OF H] by (auto simp: hashNode_wf)
qed simp

lemma buildTree_wf:
  assumes H: "\<And>x. length (H x) = 32" and "list_all (wfTree H) xs" and "xs \<noteq> []"
  shows "\<exists>t. buildTree H xs = Inr t \<and> wfTree H t \<and> tips t = concat (map tips xs)
           \<and> (\<exists>h l r. t = TreeBranch h l r)"
  using assms(2,3)
proof (induction "length xs" arbitrary: xs rule: less_induct)
  case less
  from nextTreeLevel_wf [OF H less.prems(1)] obtain ys where ys: "nextTreeLevel H xs = Inr ys"
    "list_all (wfTree H) ys" "concat (map tips ys) = concat (map tips xs)"
    "\<forall>y \<in> set ys. \<exists>h l r. y = TreeBranch h l r" by blast
  note len = nextTreeLevel_length [OF ys(1)]
  show ?case
  proof (cases "length ys = 1")
    case True
    then obtain y where "ys = [y]" by (auto simp: length_Suc_conv)
    with ys less.prems show ?thesis by (subst buildTree.simps) simp
  next
    case False
    then have "2 \<le> length xs" using len less.prems by (cases xs; cases "tl xs") auto
    then have "length ys < length xs" "ys \<noteq> []" using len by auto
    with less.hyps [OF _ ys(2)] ys False less.prems show ?thesis by (subst buildTree.simps) simp
  qed
qed

lemma climbExtension_append:
  "climbExtension H c (xs @ ys) = andThen (climbExtension H c xs) (\<lambda>d. climbExtension H d ys)"
proof (induction xs arbitrary: c)
  case (Cons x xs)
  then show ?case by (simp add: andThen_assoc)
qed simp

lemma stepOk_collected:
  "length s = 32 \<Longrightarrow> stepOk \<lparr> sSide = SIDE_LEFT, sSibling = s \<rparr>"
  "length s = 32 \<Longrightarrow> stepOk \<lparr> sSide = SIDE_RIGHT, sSibling = s \<rparr>"
  "stepOk \<lparr> sSide = SIDE_LEFT_EMPTY, sSibling = replicate DIGEST_SIZE 0 \<rparr>"
  by (simp_all add: stepOk_def isErgoExtensionMerkleSide_def ext_consts)

lemma climbExtension_collected:
  "length c = 32 \<Longrightarrow> length s = 32 \<Longrightarrow>
     climbExtension H c [\<lparr> sSide = SIDE_LEFT, sSibling = s \<rparr>] = Inr (H (branchPre c s))"
  "length c = 32 \<Longrightarrow> length s = 32 \<Longrightarrow>
     climbExtension H c [\<lparr> sSide = SIDE_RIGHT, sSibling = s \<rparr>] = Inr (H (branchPre s c))"
  "length c = 32 \<Longrightarrow>
     climbExtension H c [\<lparr> sSide = SIDE_LEFT_EMPTY, sSibling = z \<rparr>] = Inr (H (branchPre c []))"
  by (simp_all add: hashErgoExtensionInternal_def hashErgoExtensionEmptySibling_def assertDigest_def
      branchPre_def ext_consts)

lemma wfTree_notEmpty [simp]: "\<not> wfTree H emptyNode"
  by simp

text \<open>A collected proof climbs from the field it was collected for to the root.\<close>

lemma collect_climbs:
  assumes H: "\<And>x. length (H x) = 32" and "wfTree H t" and "collect k t = Some steps"
  shows "list_all stepOk steps \<and>
    (\<exists>h. TreeTip h (Some k) \<in> set (tips t) \<and> climbExtension H h steps = Inr (nodeHash t))"
  using assms(2,3)
proof (induction t arbitrary: steps)
  case (TreeTip h i)
  then show ?case by (auto split: if_splits)
next
  case (TreeBranch h l r)
  have lenl: "length (nodeHash l) = 32" using TreeBranch.prems wfTree_hash [of H l, OF H] by simp
  have lenr: "r = emptyNode \<or> length (nodeHash r) = 32" using TreeBranch.prems wfTree_hash [of H r, OF H] by auto
  show ?case
  proof (cases "collect k l")
    case (Some ls)
    then have "list_all stepOk ls \<and>
      (\<exists>h. TreeTip h (Some k) \<in> set (tips l) \<and> climbExtension H h ls = Inr (nodeHash l))"
      using TreeBranch by simp
    with Some TreeBranch.prems lenl lenr show ?thesis
      by (auto simp: climbExtension_append stepOk_collected climbExtension_collected
          simp del: climbExtension.simps(2))
  next
    case None
    with TreeBranch.prems obtain rs where rs: "collect k r = Some rs" by (auto split: option.splits)
    then have "wfTree H r" using TreeBranch.prems by auto
    with rs have "list_all stepOk rs \<and>
      (\<exists>h. TreeTip h (Some k) \<in> set (tips r) \<and> climbExtension H h rs = Inr (nodeHash r))"
      using TreeBranch by simp
    with None rs TreeBranch.prems lenl wfTree_hash [of H r, OF H \<open>wfTree H r\<close>] show ?thesis
      by (auto simp: climbExtension_append stepOk_collected climbExtension_collected
          simp del: climbExtension.simps(2))
  qed
qed


section \<open>Field lists and their trees\<close>

definition fieldData :: "ext_field \<Rightarrow> bytes" where
  "fieldData f = of_nat (length (fKey f)) # fKey f @ fValue f"

definition fieldTip :: "(bytes \<Rightarrow> bytes) \<Rightarrow> nat \<Rightarrow> ext_field \<Rightarrow> tree_node" where
  "fieldTip H i f = TreeTip (H (tipPre (fieldData f))) (Some i)"

lemma fieldData_inj:
  assumes "length (fKey f) \<le> 255" and "length (fKey g) \<le> 255" and "fieldData f = fieldData g"
  shows "f = g"
proof -
  have "unat (of_nat (length (fKey f)) :: byte) = unat (of_nat (length (fKey g)) :: byte)"
    using assms(3) by (simp add: fieldData_def)
  then have "length (fKey f) = length (fKey g)" using assms(1,2) by (simp add: unat_of_nat_byte)
  then show ?thesis using assms(3) by (intro ext_field.equality) (simp_all add: fieldData_def)
qed

lemma leafNodesFrom_nodes:
  "leafNodesFrom H target seen k fs = Inr (nodes, targets) \<Longrightarrow>
     nodes = map2 (fieldTip H) [k..<k + length fs] fs
   \<and> (\<forall>f \<in> set fs. length (fKey f) \<le> 255)
   \<and> set targets = {k + j |j. j < length fs \<and> fKey (fs ! j) = target}"
proof (induction fs arbitrary: seen k nodes targets)
  case (Cons f fs)
  from Cons.prems obtain ns ts
    where rest: "leafNodesFrom H target (toHex (fKey f) # seen) (k + 1) fs = Inr (ns, ts)"
    and ok: "length (fKey f) \<le> 255"
    and n: "nodes = fieldTip H k f # ns" and t: "targets = (if fKey f = target then [k] else []) @ ts"
    by (auto simp: result_simps Let_def encodeErgoExtensionLeafData_def hashErgoExtensionLeaf_def
        fieldTip_def tipPre_def fieldData_def)
  note ih = Cons.IH [OF rest]
  have "[k..<k + length (f # fs)] = k # [k + 1..<k + 1 + length fs]" by (simp add: upt_rec)
  moreover have "{k + j |j. j < length (f # fs) \<and> fKey ((f # fs) ! j) = target}
      = (if fKey f = target then {k} else {}) \<union> {k + 1 + j |j. j < length fs \<and> fKey (fs ! j) = target}"
    by (auto simp: less_Suc_eq_0_disj)
  ultimately show ?case using n t ok ih by auto
qed simp

lemma fieldTips_wf: "(\<And>x. length (H x) = 32) \<Longrightarrow> list_all (wfTree H) (map2 (fieldTip H) is fs)"
  by (auto simp: list_all_iff fieldTip_def)

lemma fieldTips_tips:
  assumes "\<And>x. length (H x) = 32"
  shows "concat (map tips (map2 (fieldTip H) is fs)) = map2 (fieldTip H) is fs"
proof -
  have "tips (fieldTip H i f) = [fieldTip H i f]" for i f
    using assms [of "tipPre (fieldData f)"] by (auto simp: fieldTip_def)
  then show ?thesis by (induction "is" fs rule: list_induct2') auto
qed

text \<open>The tree over a list of fields.\<close>

definition fieldTree :: "(bytes \<Rightarrow> bytes) \<Rightarrow> ext_field list \<Rightarrow> ext_error + tree_node" where
  "fieldTree H fs = buildTree H (map2 (fieldTip H) [0..<length fs] fs)"

lemma fieldTree_wf:
  assumes H: "\<And>x. length (H x) = 32" and "fs \<noteq> []"
  obtains t where "fieldTree H fs = Inr t" and "wfTree H t"
    and "tips t = map2 (fieldTip H) [0..<length fs] fs" and "\<exists>h l r. t = TreeBranch h l r"
proof -
  have ne: "map2 (fieldTip H) [0..<length fs] fs \<noteq> []" using assms(2) by (cases fs) (auto simp: upt_rec)
  from buildTree_wf [of H, OF H fieldTips_wf [of H, OF H] ne] fieldTips_tips [of H, OF H] that
  show ?thesis by (auto simp: fieldTree_def)
qed

lemma builtProof_cases:
  assumes "buildErgoExtensionMembershipProof H fs key = Inr P"
  obtains t i steps where "fs \<noteq> []" and "fieldTree H fs = Inr t" and "i < length fs" and "fKey (fs ! i) = key"
    and "\<forall>f \<in> set fs. length (fKey f) \<le> 255" and "collect i t = Some steps"
    and "okV (validateErgoExtensionMembershipProof (serializeProof steps))"
    and "P = \<lparr> xRoot = nodeHash t, xProof = serializeProof steps, xLeafData = fieldData (fs ! i),
               xLeafHash = H (tipPre (fieldData (fs ! i))), xTargetIndex = i, xFieldCount = length fs \<rparr>"
proof -
  from assms obtain nodes targets t steps
    where fs: "fs \<noteq> []" and n: "leafNodesFrom H key [] 0 fs = Inr (nodes, targets)" and ne: "targets \<noteq> []"
      and t: "buildTree H nodes = Inr t" and c: "collect (targets ! 0) t = Some steps"
      and v: "okV (validateErgoExtensionMembershipProof (serializeProof steps))"
      and P: "P = \<lparr> xRoot = nodeHash t, xProof = serializeProof steps,
               xLeafData = fieldData (fs ! (targets ! 0)),
               xLeafHash = H (tipPre (fieldData (fs ! (targets ! 0)))), xTargetIndex = targets ! 0,
               xFieldCount = length fs \<rparr>"
    by (auto simp: buildErgoExtensionMembershipProof_def collectProof_def Let_def result_simps
        encodeErgoExtensionLeafData_def fieldData_def hashErgoExtensionLeaf_def tipPre_def
        split: option.splits)
  from leafNodesFrom_nodes [OF n] have l: "nodes = map2 (fieldTip H) [0..<length fs] fs"
    "\<forall>f \<in> set fs. length (fKey f) \<le> 255" "set targets = {j. j < length fs \<and> fKey (fs ! j) = key}"
    by auto
  have "targets ! 0 \<in> set targets" using ne by simp
  then have "targets ! 0 < length fs" "fKey (fs ! (targets ! 0)) = key" by (auto simp: l(3))
  with that [of t "targets ! 0" steps] show ?thesis using fs l t c v P by (simp add: fieldTree_def)
qed

lemma extension_complete:
  assumes H: "\<And>x. length (H x) = 32" and P: "buildErgoExtensionMembershipProof H fs key = Inr P"
  shows "fKey (fs ! xTargetIndex P) = key \<and> xTargetIndex P < length fs
    \<and> verifyErgoExtensionMembership H key (fValue (fs ! xTargetIndex P)) (xProof P) (xRoot P) = Inr True"
proof -
  from P obtain t i steps where fs: "fs \<noteq> []" and t: "fieldTree H fs = Inr t" and i: "i < length fs"
    and key: "fKey (fs ! i) = key" and len: "\<forall>f \<in> set fs. length (fKey f) \<le> 255"
    and c: "collect i t = Some steps" and v: "okV (validateErgoExtensionMembershipProof (serializeProof steps))"
    and P': "P = \<lparr> xRoot = nodeHash t, xProof = serializeProof steps, xLeafData = fieldData (fs ! i),
               xLeafHash = H (tipPre (fieldData (fs ! i))), xTargetIndex = i, xFieldCount = length fs \<rparr>"
    by (rule builtProof_cases)
  have wf: "wfTree H t" and tips: "tips t = map2 (fieldTip H) [0..<length fs] fs"
    using fieldTree_wf [of H fs, OF H fs] t by auto
  from collect_climbs [of H, OF H wf c] obtain h where ok: "list_all stepOk steps"
    and h: "TreeTip h (Some i) \<in> set (tips t)" "climbExtension H h steps = Inr (nodeHash t)" by blast
  from h(1) have "h = H (tipPre (fieldData (fs ! i)))"
    by (auto simp: tips set_zip fieldTip_def)
  moreover have "parseErgoExtensionMembershipProof (serializeProof steps) = Inr steps"
    using v ok by (simp add: parseErgoExtensionMembershipProof_def Let_def split_serialize)
  moreover have "\<not> 255 < length (fKey (fs ! i))" using len i by (simp add: leD)
  ultimately show ?thesis
    using h(2) i key wfTree_hash [of H t, OF H wf]
    by (auto simp: P' verifyErgoExtensionMembership_def assertDigest_def DIGEST_SIZE_def
        encodeErgoExtensionLeafData_def hashErgoExtensionLeaf_def tipPre_def fieldData_def)
qed


text \<open>The extension tree offers the membership contract of the bridge's hash trees, for the fields the
  builder accepts.\<close>

definition extTreeOk :: "(bytes \<Rightarrow> bytes) \<Rightarrow> ext_field list \<Rightarrow> bool" where
  "extTreeOk H fs \<longleftrightarrow> (\<forall>x. length (H x) = 32) \<and> distinct (map fKey fs)
     \<and> (\<forall>f \<in> set fs. isOk (buildErgoExtensionMembershipProof H fs (fKey f)))"

definition extRoot :: "(bytes \<Rightarrow> bytes) \<Rightarrow> ext_field list \<Rightarrow> bytes" where
  "extRoot H fs = (case fieldTree H fs of Inr t \<Rightarrow> nodeHash t | Inl _ \<Rightarrow> [])"

definition extProve :: "(bytes \<Rightarrow> bytes) \<Rightarrow> ext_field list \<Rightarrow> nat \<Rightarrow> bytes" where
  "extProve H fs i =
     (case buildErgoExtensionMembershipProof H fs (fKey (fs ! i)) of Inr P \<Rightarrow> xProof P | Inl _ \<Rightarrow> [])"

lemma built_root: "buildErgoExtensionMembershipProof H fs key = Inr P \<Longrightarrow> xRoot P = extRoot H fs"
  by (erule builtProof_cases) (simp add: extRoot_def)

interpretation ext_tree: membership_scheme "extTreeOk H" "extRoot H" "extProve H"
  "\<lambda>f p r. verifyErgoExtensionMembership H (fKey f) (fValue f) p r = Inr True" for H
proof
  fix fs i assume ok: "extTreeOk H fs" and i: "i < length fs"
  from ok i obtain P where P: "buildErgoExtensionMembershipProof H fs (fKey (fs ! i)) = Inr P"
    using nth_mem [OF i] unfolding extTreeOk_def isOk_iff by blast
  have H: "length (H x) = 32" for x using ok by (simp add: extTreeOk_def)
  from extension_complete [of H, OF H P] have t: "fKey (fs ! xTargetIndex P) = fKey (fs ! i)"
    "xTargetIndex P < length fs"
    "verifyErgoExtensionMembership H (fKey (fs ! i)) (fValue (fs ! xTargetIndex P)) (xProof P) (xRoot P) = Inr True"
    by auto
  have "xTargetIndex P = i"
    using t(1,2) i ok nth_eq_iff_index_eq [of "map fKey fs" "xTargetIndex P" i] by (simp add: extTreeOk_def)
  with t P built_root [OF P]
  show "verifyErgoExtensionMembership H (fKey (fs ! i)) (fValue (fs ! i)) (extProve H fs i) (extRoot H fs) = Inr True"
    by (simp add: extProve_def)
qed

text \<open>Completeness of extension membership. A proof the relayer builds for a key of a field list is
  accepted by the verifier for that key and its value against the list's root.\<close>


theorem extensionMembership_complete:
  assumes "\<And>x. length (H x) = 32" and "buildErgoExtensionMembershipProof H fs key = Inr P"
  shows "fKey (fs ! xTargetIndex P) = key
    \<and> verifyErgoExtensionMembership H key (fValue (fs ! xTargetIndex P)) (xProof P) (xRoot P) = Inr True"
  using extension_complete [of H, OF assms] by simp


section \<open>Soundness of extension membership\<close>

definition stepPre :: "bytes \<Rightarrow> ext_step \<Rightarrow> bytes" where
  "stepPre c s = (if sSide s = SIDE_LEFT then branchPre c (sSibling s)
                  else if sSide s = SIDE_RIGHT then branchPre (sSibling s) c else branchPre c [])"

fun climbInputs :: "(bytes \<Rightarrow> bytes) \<Rightarrow> bytes \<Rightarrow> ext_step list \<Rightarrow> bytes set" where
  "climbInputs H c [] = {}"
| "climbInputs H c (s # r) = insert (stepPre c s) (climbInputs H (H (stepPre c s)) r)"

lemma climbExtension_step:
  assumes "climbExtension H c (s # r) = Inr v"
  shows "climbExtension H (H (stepPre c s)) r = Inr v" and "length c = 32"
    and "\<exists>a b. stepPre c s = branchPre a b \<and> length a = 32 \<and> (c = a \<or> c = b)"
  using assms
  by (auto simp: result_simps hashErgoExtensionInternal_def hashErgoExtensionEmptySibling_def
      assertDigest_def stepPre_def branchPre_def DIGEST_SIZE_def split: if_splits)

lemma subnodes_self: "wfTree H u \<Longrightarrow> u \<in> subnodes u"
  by (cases u) auto

lemma subnodes_branch:
  "TreeBranch h l r \<in> subnodes t \<Longrightarrow> wfTree H t \<Longrightarrow>
     h = H (branchPre (nodeHash l) (nodeHash r)) \<and> wfTree H l \<and> (r = emptyNode \<or> wfTree H r)
   \<and> branchPre (nodeHash l) (nodeHash r) \<in> treeInputs t \<and> {l, r} - {emptyNode} \<subseteq> subnodes t"
proof (induction t)
  case (TreeBranch h' l' r')
  from TreeBranch.prems(1) consider "TreeBranch h l r = TreeBranch h' l' r'"
    | "TreeBranch h l r \<in> subnodes l'" | "TreeBranch h l r \<in> subnodes r'" by auto
  then show ?case
  proof cases
    case 1
    then show ?thesis using TreeBranch.prems subnodes_self [of H] by auto
  next
    case 2
    then show ?thesis using TreeBranch.IH(1) TreeBranch.prems(2) by auto
  next
    case 3
    moreover from 3 have "r' \<noteq> emptyNode" by auto
    ultimately show ?thesis using TreeBranch.IH(2) TreeBranch.prems(2) by auto
  qed
qed (auto split: if_splits)

lemma subnodes_tip: "TreeTip h i \<in> subnodes t \<Longrightarrow> TreeTip h i \<in> set (tips t)"
  by (induction t) (auto split: if_splits)

text \<open>A climb that ends on a node of the tree starts on a node of the tree.\<close>

lemma climbExtension_inside:
  assumes H: "\<And>x. length (H x) = 32" and wf: "wfTree H t"
    and tips: "\<And>h i. TreeTip h i \<in> set (tips t) \<Longrightarrow> \<exists>d. tipPre d \<in> Q \<and> h = H (tipPre d)"
    and "inj_on H (treeInputs t \<union> climbInputs H c steps \<union> Q)"
    and "climbExtension H c steps = Inr (nodeHash t)"
  shows "\<exists>u \<in> subnodes t. nodeHash u = c"
  using assms(4,5)
proof (induction steps arbitrary: c)
  case Nil
  then show ?case using wf by (cases t) auto
next
  case (Cons s r)
  note st = climbExtension_step [OF Cons.prems(2)]
  from st(3) obtain a b where ab: "stepPre c s = branchPre a b" "length a = 32" "c = a \<or> c = b" by blast
  have "inj_on H (treeInputs t \<union> climbInputs H (H (stepPre c s)) r \<union> Q)"
    by (rule inj_on_subset [OF Cons.prems(1)]) auto
  from Cons.IH [OF this st(1)] obtain u where u: "u \<in> subnodes t" "nodeHash u = H (stepPre c s)" by blast
  show ?case
  proof (cases u)
    case (TreeTip h i)
    with u have "TreeTip h i \<in> set (tips t)" "h = H (stepPre c s)" by (auto intro: subnodes_tip)
    with tips obtain d where d: "tipPre d \<in> Q" "H (tipPre d) = H (stepPre c s)" by metis
    have "tipPre d = stepPre c s" by (rule inj_onD [OF Cons.prems(1) d(2)]) (use d in auto)
    then show ?thesis using ab tip_not_branch by metis
  next
    case (TreeBranch h x y)
    from subnodes_branch [OF u(1) [unfolded TreeBranch] wf]
    have b: "h = H (branchPre (nodeHash x) (nodeHash y))" "wfTree H x" "y = emptyNode \<or> wfTree H y"
      "branchPre (nodeHash x) (nodeHash y) \<in> treeInputs t" "{x, y} - {emptyNode} \<subseteq> subnodes t" by blast+
    have "H (branchPre (nodeHash x) (nodeHash y)) = H (stepPre c s)" using b(1) u(2) TreeBranch by simp
    then have "branchPre (nodeHash x) (nodeHash y) = branchPre a b"
      using inj_onD [OF Cons.prems(1)] b(4) ab(1) by (metis UnI1 UnI2 climbInputs.simps(2) insertI1)
    then have "nodeHash x = a \<and> nodeHash y = b"
      using ab(2) wfTree_hash [of H x, OF H b(2)] by (simp add: branchPre_inj)
    then show ?thesis using ab(3) st(2) b(2,5) by fastforce
  qed
qed

text \<open>The strings hashed when the tree over \<open>fs\<close> is built and a proof for \<open>f\<close> is checked.\<close>

definition extHashInputs :: "(bytes \<Rightarrow> bytes) \<Rightarrow> ext_field list \<Rightarrow> ext_field \<Rightarrow> ext_step list \<Rightarrow> bytes set" where
  "extHashInputs H fs f steps =
     (case fieldTree H fs of Inr t \<Rightarrow> treeInputs t | Inl _ \<Rightarrow> {})
     \<union> climbInputs H (H (tipPre (fieldData f))) steps \<union> (\<lambda>g. tipPre (fieldData g)) ` insert f (set fs)"


text \<open>C34. Soundness of extension membership. Where the strings hashed in the two runs do not collide, a
  key and value the verifier accepts against the root of a field list are a field of that list; no
  interior node and no padding can be passed off as a field.\<close>

theorem extensionMembership_sound:
  assumes H: "\<And>x. length (H x) = 32" and fs: "fs \<noteq> []" and keys: "\<And>g. g \<in> set fs \<Longrightarrow> length (fKey g) \<le> 255"
    and steps: "parseErgoExtensionMembershipProof p = Inr steps"
    and accepted: "verifyErgoExtensionMembership H (fKey f) (fValue f) p (extRoot H fs) = Inr True"
    and inj: "inj_on H (extHashInputs H fs f steps)"
  shows "f \<in> set fs"
proof -
  obtain t where t: "fieldTree H fs = Inr t" and wf: "wfTree H t"
    and tips: "tips t = map2 (fieldTip H) [0..<length fs] fs"
    using fieldTree_wf [of H fs, OF H fs] by blast
  let ?Q = "(\<lambda>g. tipPre (fieldData g)) ` insert f (set fs)"
  from accepted steps have key: "length (fKey f) \<le> 255"
    and climb: "climbExtension H (H (tipPre (fieldData f))) steps = Inr (nodeHash t)"
    by (auto simp: verifyErgoExtensionMembership_def result_simps extRoot_def t encodeErgoExtensionLeafData_def
        hashErgoExtensionLeaf_def tipPre_def fieldData_def)
  have inj': "inj_on H (treeInputs t \<union> climbInputs H (H (tipPre (fieldData f))) steps \<union> ?Q)"
    using inj by (simp add: extHashInputs_def t)
  have tipsQ: "\<exists>g \<in> set fs. h = H (tipPre (fieldData g))" if "TreeTip h i \<in> set (tips t)" for h i
    using that unfolding tips by (auto simp: fieldTip_def set_zip)
  have "\<exists>d. tipPre d \<in> ?Q \<and> h = H (tipPre d)" if "TreeTip h i \<in> set (tips t)" for h i
    using tipsQ [OF that] by blast
  then have "\<exists>u \<in> subnodes t. nodeHash u = H (tipPre (fieldData f))"
    by (rule climbExtension_inside [of H, OF H wf _ inj' climb])
  then obtain u where u: "u \<in> subnodes t" "nodeHash u = H (tipPre (fieldData f))" by blast
  show ?thesis
  proof (cases u)
    case (TreeTip h i)
    with u have "TreeTip h i \<in> set (tips t)" "h = H (tipPre (fieldData f))" by (auto intro: subnodes_tip)
    with tipsQ obtain g where g: "g \<in> set fs" "H (tipPre (fieldData f)) = H (tipPre (fieldData g))" by metis
    have "tipPre (fieldData f) = tipPre (fieldData g)" by (rule inj_onD [OF inj' g(2)]) (use g in auto)
    then have "f = g" using fieldData_inj [OF key keys [OF g(1)]] by (simp add: tipPre_def)
    with g show ?thesis by simp
  next
    case (TreeBranch h x y)
    with u subnodes_branch [OF _ wf, of h x y] have "H (branchPre (nodeHash x) (nodeHash y)) = H (tipPre (fieldData f))"
      and mem: "branchPre (nodeHash x) (nodeHash y) \<in> treeInputs t" by auto
    from this(1) have "branchPre (nodeHash x) (nodeHash y) = tipPre (fieldData f)"
      by (rule inj_onD [OF inj']) (use mem in auto)
    then show ?thesis using tip_not_branch by metis
  qed
qed


section \<open>A list of two fields\<close>

definition demoFields :: "ext_field list" where
  "demoFields = [\<lparr> fKey = [1], fValue = [7] \<rparr>, \<lparr> fKey = [2], fValue = [9] \<rparr>]"

definition demoExtSteps :: "ext_step list" where
  "demoExtSteps = [\<lparr> sSide = 0, sSibling = replicate 31 0 @ [12] \<rparr>]"

definition demoExtProof :: ext_proof where
  "demoExtProof = \<lparr> xRoot = replicate 31 0 @ [22], xProof = serializeProof demoExtSteps,
     xLeafData = [1, 1, 7], xLeafHash = replicate 31 0 @ [9], xTargetIndex = 0, xFieldCount = 2 \<rparr>"

lemma demoExt_built: "buildErgoExtensionMembershipProof demoHash demoFields [1] = Inr demoExtProof"
  by code_simp

lemma demoExt_tree: "fieldTree demoHash demoFields = Inr (TreeBranch (replicate 31 0 @ [22])
    (TreeTip (replicate 31 0 @ [9]) (Some 0)) (TreeTip (replicate 31 0 @ [12]) (Some 1)))"
  by code_simp

lemma demoExt_verified:
  "verifyErgoExtensionMembership demoHash [1] [7] (serializeProof demoExtSteps) (extRoot demoHash demoFields)
     = Inr True"
  using extension_complete [of demoHash, OF _ demoExt_built]
  by (simp add: extRoot_def demoExt_tree demoExtProof_def) (simp add: demoFields_def)

lemma demoExt_inj: "inj_on demoHash (extHashInputs demoHash demoFields (demoFields ! 0) demoExtSteps)"
  unfolding extHashInputs_def demoExt_tree
  by (auto simp: inj_on_def demoExtSteps_def demoFields_def fieldData_def
      stepPre_def branchPre_def tipPre_def ext_consts demoHash_def sum_list_replicate)

theorem extensionMembership_complete_witness:
  "verifyErgoExtensionMembership demoHash [1] [7] (xProof demoExtProof) (xRoot demoExtProof) = Inr True"
  using extensionMembership_complete [of demoHash, OF _ demoExt_built]
  by (simp add: demoExtProof_def demoFields_def)

theorem extensionMembership_sound_witness: "demoFields ! 0 \<in> set demoFields"
proof (rule extensionMembership_sound [of demoHash])
  show "parseErgoExtensionMembershipProof (serializeProof demoExtSteps) = Inr demoExtSteps" by code_simp
  show "verifyErgoExtensionMembership demoHash (fKey (demoFields ! 0)) (fValue (demoFields ! 0))
      (serializeProof demoExtSteps) (extRoot demoHash demoFields) = Inr True"
    using demoExt_verified by (simp add: demoFields_def)
  show "inj_on demoHash (extHashInputs demoHash demoFields (demoFields ! 0) demoExtSteps)"
    by (rule demoExt_inj)
qed (auto simp: demoFields_def)

end
