(* ===== verification/Transactions_Root.thy ===== *)
theory Transactions_Root
  imports Extension_Membership
begin

text \<open>
  The transactions root of an Ergo block: \<^verbatim>\<open>ergo-settlement-core/ergo-block-transactions-root.ts\<close>.
  The guards \<^verbatim>\<open>Array.isArray\<close>, \<^verbatim>\<open>instanceof Uint8Array\<close> and \<^verbatim>\<open>assertExactDataObject\<close> check shapes the
  model's types already have. BLAKE2b is the parameter \<open>H\<close>.
\<close>

section \<open>Definitions\<close>

datatype root_error =
    TooManyProofs string
  | ProofsExceed string
  | BadBlockVersion
  | NoTransactions
  | TooManyTransactions
  | TransactionIdLength nat
  | BlockProofsExceed
  | NoLeaves

definition WITNESS_ID_BYTES :: nat where "WITNESS_ID_BYTES = DIGEST_SIZE - 1"
definition MAX_BLOCK_VERSION :: int where "MAX_BLOCK_VERSION = 0x7f"
definition MAX_TRANSACTIONS :: nat where "MAX_TRANSACTIONS = 2 ^ 20"
definition MAX_SPENDING_PROOFS :: nat where "MAX_SPENDING_PROOFS = 2 ^ 16"
definition MAX_TOTAL_PROOF_BYTES :: nat where "MAX_TOTAL_PROOF_BYTES = 64 * 1024 * 1024"

record block_transaction =
  transactionId :: bytes
  spendingProofs :: "bytes list"

record block_input =
  blockVersion :: int
  transactions :: "block_transaction list"

fun proofBytesLoop :: "'e \<Rightarrow> nat \<Rightarrow> bytes list \<Rightarrow> 'e + nat" where
  "proofBytesLoop e totalBytes [] = Inr totalBytes"
| "proofBytesLoop e totalBytes (proof # rest) =
     require (\<not> totalBytes + length proof > MAX_TOTAL_PROOF_BYTES) e
       (proofBytesLoop e (totalBytes + length proof) rest)"

definition validateSpendingProofs :: "bytes list \<Rightarrow> string \<Rightarrow> root_error + bytes list" where
  "validateSpendingProofs value label =
     require (\<not> length value > MAX_SPENDING_PROOFS) (TooManyProofs label)
     (andThen (proofBytesLoop (ProofsExceed label) 0 value) (\<lambda>_. Inr value))"

definition computeErgoTransactionWitnessId :: "(bytes \<Rightarrow> bytes) \<Rightarrow> bytes list \<Rightarrow> root_error + bytes" where
  "computeErgoTransactionWitnessId H proofs0 =
     andThen (validateSpendingProofs proofs0 ''transaction spending proofs'') (\<lambda>proofs.
     Inr (drop (DIGEST_SIZE - WITNESS_ID_BYTES) (H (concat proofs))))"

fun scorexNext :: "(bytes \<Rightarrow> bytes) \<Rightarrow> bytes list \<Rightarrow> bytes list" where
  "scorexNext H [] = []"
| "scorexNext H [left] = [H ([INTERNAL_PREFIX] @ left)]"
| "scorexNext H (left # right # rest) = H ([INTERNAL_PREFIX] @ left @ right) # scorexNext H rest"

lemma length_scorexNext [simp]: "length (scorexNext H xs) = (length xs + 1) div 2"
  by (induction H xs rule: scorexNext.induct) auto

function scorexLoop :: "(bytes \<Rightarrow> bytes) \<Rightarrow> bytes list \<Rightarrow> root_error + bytes" where
  "scorexLoop H level =
     (if length level > 1 then scorexLoop H (scorexNext H level)
      else case level of [] \<Rightarrow> Inl NoLeaves | node # _ \<Rightarrow> Inr node)"
  by pat_completeness auto
termination
  by (relation "measure (\<lambda>(H, level). length level)") auto

declare scorexLoop.simps [simp del]

definition computeScorexMerkleRoot :: "(bytes \<Rightarrow> bytes) \<Rightarrow> bytes list \<Rightarrow> root_error + bytes" where
  "computeScorexMerkleRoot H leaves =
     (let level = map (\<lambda>leaf. H ([LEAF_PREFIX] @ leaf)) leaves in
      if length level = 1 then Inr (H ([INTERNAL_PREFIX] @ level ! 0)) else scorexLoop H level)"

text \<open>The loop over the transactions, with the running number of proof bytes.\<close>

fun transactionLoop ::
  "(bytes \<Rightarrow> bytes) \<Rightarrow> int \<Rightarrow> nat \<Rightarrow> nat \<Rightarrow> block_transaction list \<Rightarrow> root_error + bytes list \<times> bytes list" where
  "transactionLoop H version index totalBytes [] = Inr ([], [])"
| "transactionLoop H version index totalBytes (tx # rest) =
     require (length (transactionId tx) = DIGEST_SIZE) (TransactionIdLength index)
     (andThen (validateSpendingProofs (spendingProofs tx) ''spending proofs'') (\<lambda>proofs.
      andThen (proofBytesLoop BlockProofsExceed totalBytes proofs) (\<lambda>totalBytes'.
      andThen (if version > 1 then mapR (computeErgoTransactionWitnessId H) [proofs] else Inr []) (\<lambda>witness.
      andThen (transactionLoop H version (index + 1) totalBytes' rest) (\<lambda>(ids, witnesses).
      Inr (transactionId tx # ids, witness @ witnesses))))))"

definition computeErgoBlockTransactionsRoot :: "(bytes \<Rightarrow> bytes) \<Rightarrow> block_input \<Rightarrow> root_error + bytes" where
  "computeErgoBlockTransactionsRoot H input =
     require (\<not> (blockVersion input < 1 \<or> blockVersion input > MAX_BLOCK_VERSION)) BadBlockVersion
     (require (length (transactions input) \<noteq> 0) NoTransactions
     (require (\<not> length (transactions input) > MAX_TRANSACTIONS) TooManyTransactions
     (andThen (transactionLoop H (blockVersion input) 0 0 (transactions input))
       (\<lambda>(transactionIds, witnessIds).
      computeScorexMerkleRoot H
        (if blockVersion input = 1 then transactionIds else transactionIds @ witnessIds)))))"


section \<open>One tree, two implementations\<close>

definition leafTip :: "(bytes \<Rightarrow> bytes) \<Rightarrow> nat \<Rightarrow> bytes \<Rightarrow> tree_node" where
  "leafTip H i d = TreeTip (H (tipPre d)) (Some i)"

definition leafTree :: "(bytes \<Rightarrow> bytes) \<Rightarrow> bytes list \<Rightarrow> ext_error + tree_node" where
  "leafTree H leaves = buildTree H (map2 (leafTip H) [0..<length leaves] leaves)"

lemma leafTips:
  assumes "\<And>x. length (H x) = 32"
  shows "list_all (wfTree H) (map2 (leafTip H) is ds)"
    and "concat (map tips (map2 (leafTip H) is ds)) = map2 (leafTip H) is ds"
proof -
  show "list_all (wfTree H) (map2 (leafTip H) is ds)"
    using assms by (auto simp: list_all_iff leafTip_def)
  have "tips (leafTip H i d) = [leafTip H i d]" for i d
    using assms [of "tipPre d"] by (auto simp: leafTip_def)
  then show "concat (map tips (map2 (leafTip H) is ds)) = map2 (leafTip H) is ds"
    by (induction "is" ds rule: list_induct2') auto
qed

lemma nextTreeLevel_hashes:
  assumes H: "\<And>x. length (H x) = 32" and "list_all (wfTree H) xs" and "nextTreeLevel H xs = Inr ys"
  shows "map nodeHash ys = scorexNext H (map nodeHash xs)"
  using assms(2,3)
proof (induction xs arbitrary: ys rule: induct_list012)
  case (2 x)
  then show ?case using wfTree_hash [of H x, OF H] by (auto simp: hashNode_wf branchPre_def)
next
  case (3 x y r)
  then show ?case
    using wfTree_hash [of H x, OF H] wfTree_hash [of H y, OF H]
    by (auto simp: hashNode_wf branchPre_def result_simps)
qed simp

lemma buildTree_scorex:
  assumes H: "\<And>x. length (H x) = 32" and "list_all (wfTree H) xs" and "1 < length xs"
    and "buildTree H xs = Inr t"
  shows "scorexLoop H (map nodeHash xs) = Inr (nodeHash t)"
  using assms(2-4)
proof (induction "length xs" arbitrary: xs rule: less_induct)
  case less
  from nextTreeLevel_wf [of H, OF H less.prems(1)] obtain ys where ys: "nextTreeLevel H xs = Inr ys"
    "list_all (wfTree H) ys" by blast
  note len = nextTreeLevel_length [OF ys(1)] and h = nextTreeLevel_hashes [of H, OF H less.prems(1) ys(1)]
  have up: "scorexLoop H (map nodeHash xs) = scorexLoop H (map nodeHash ys)"
    using less.prems(2) h by (subst scorexLoop.simps) simp
  show ?case
  proof (cases "length ys = 1")
    case True
    then obtain y where y: "ys = [y]" by (auto simp: length_Suc_conv)
    then have "t = y" using less.prems(2,3) ys(1) by (subst (asm) buildTree.simps) (auto split: if_splits)
    then show ?thesis by (simp add: up y) (subst scorexLoop.simps, simp)
  next
    case False
    then have "buildTree H ys = Inr t"
      using less.prems(2,3) ys(1) by (subst (asm) buildTree.simps) (auto split: if_splits)
    moreover have "1 < length ys" "length ys < length xs" using False len less.prems(2) by auto
    ultimately show ?thesis using less.hyps [of ys] ys(2) up by simp
  qed
qed

lemma leafTree_wf:
  assumes H: "\<And>x. length (H x) = 32" and "ds \<noteq> []"
  obtains t where "leafTree H ds = Inr t" and "wfTree H t" and "tips t = map2 (leafTip H) [0..<length ds] ds"
proof -
  have ne: "map2 (leafTip H) [0..<length ds] ds \<noteq> []" using assms(2) by (cases ds) (auto simp: upt_rec)
  from buildTree_wf [of H, OF H leafTips(1) [of H, OF H] ne] leafTips(2) [of H, OF H] that
  show ?thesis by (auto simp: leafTree_def)
qed

lemma map_nodeHash_leafTip: "length is = length ds \<Longrightarrow> map nodeHash (map2 (leafTip H) is ds) = map (\<lambda>d. H (tipPre d)) ds"
  by (induction "is" ds rule: list_induct2) (auto simp: leafTip_def)

lemma leafTip_data: "TreeTip h i \<in> set (map2 (leafTip H) is ds) \<Longrightarrow> \<exists>d \<in> set ds. h = H (tipPre d)"
  by (auto simp: leafTip_def dest: set_zip_rightD)

lemma scorex_tree:
  assumes H: "\<And>x. length (H x) = 32" and t: "leafTree H ds = Inr t" and ne: "ds \<noteq> []"
  shows "computeScorexMerkleRoot H ds = Inr (nodeHash t)"
proof (cases "length ds = 1")
  case True
  then obtain d where d: "ds = [d]" by (auto simp: length_Suc_conv)
  have "nodeHash t = H (branchPre (H (tipPre d)) [])"
    using t H [of "tipPre d"]
    by (auto simp: leafTree_def d leafTip_def buildTree.simps result_simps hashNode_wf split: sum.splits)
  then show ?thesis by (simp add: computeScorexMerkleRoot_def d branchPre_def tipPre_def)
next
  case False
  with ne have "1 < length ds" by (cases ds; cases "tl ds") auto
  then have "scorexLoop H (map (\<lambda>d. H (tipPre d)) ds) = Inr (nodeHash t)"
    using buildTree_scorex [of H, OF H leafTips(1) [of H, OF H] _ t [unfolded leafTree_def]]
      map_nodeHash_leafTip [of "[0..<length ds]" ds H] by simp
  then show ?thesis using False by (simp add: computeScorexMerkleRoot_def tipPre_def)
qed

text \<open>The level-by-level root computation for block transactions and the node-building tree of the
  extension membership prover are the same function: on every nonempty list of leaves both return, and
  their roots agree.\<close>

theorem scorexRoot_is_tree_root:
  assumes "\<And>x. length (H x) = 32" and "ds \<noteq> []"
  shows "\<exists>t. buildTree H (map2 (\<lambda>i d. TreeTip (hashErgoExtensionLeaf H d) (Some i)) [0..<length ds] ds) = Inr t
           \<and> computeScorexMerkleRoot H ds = Inr (nodeHash t)"
proof -
  obtain t where t: "leafTree H ds = Inr t" using leafTree_wf [of H ds, OF assms] by blast
  then have "buildTree H (map2 (\<lambda>i d. TreeTip (hashErgoExtensionLeaf H d) (Some i)) [0..<length ds] ds) = Inr t"
    by (simp add: leafTree_def leafTip_def [abs_def] hashErgoExtensionLeaf_def tipPre_def)
  with scorex_tree [of H, OF assms(1) t assms(2)] show ?thesis by blast
qed


section \<open>What the root commits to\<close>

lemma tip_branch_hash:
  "inj_on H X \<Longrightarrow> tipPre d \<in> X \<Longrightarrow> branchPre a b \<in> X \<Longrightarrow> H (tipPre d) \<noteq> H (branchPre a b)"
  using tip_not_branch by (metis inj_onD)

lemma tree_binding:
  assumes H: "\<And>x. length (H x) = 32"
    and tt: "\<And>h i. TreeTip h i \<in> set (tips t) \<Longrightarrow> \<exists>d. tipPre d \<in> Q \<and> h = H (tipPre d)"
    and tu: "\<And>h i. TreeTip h i \<in> set (tips u) \<Longrightarrow> \<exists>d. tipPre d \<in> Q \<and> h = H (tipPre d)"
    and "wfTree H t" and "wfTree H u" and "nodeHash t = nodeHash u"
    and "inj_on H (treeInputs t \<union> treeInputs u \<union> Q)"
  shows "map nodeHash (tips t) = map nodeHash (tips u)"
  using assms(2-)
proof (induction t arbitrary: u)
  case (TreeTip h i)
  show ?case
  proof (cases u)
    case (TreeBranch h' l r)
    have "TreeTip h i \<in> set (tips (TreeTip h i))" using TreeTip.prems(3) by auto
    from TreeTip.prems(1) [OF this] obtain d where d: "tipPre d \<in> Q" "h = H (tipPre d)" by blast
    have "h = H (branchPre (nodeHash l) (nodeHash r))" using TreeTip.prems(4,5) TreeBranch by simp
    with d tip_branch_hash [OF TreeTip.prems(6), of d "nodeHash l" "nodeHash r"] show ?thesis
      by (simp add: TreeBranch)
  qed (use TreeTip in auto)
next
  case (TreeBranch h l r)
  show ?case
  proof (cases u)
    case (TreeTip h' i)
    then have "TreeTip h' i \<in> set (tips u)" using TreeBranch.prems(4) by auto
    from TreeBranch.prems(2) [OF this] obtain d where d: "tipPre d \<in> Q" "h' = H (tipPre d)" by blast
    have "h' = H (branchPre (nodeHash l) (nodeHash r))" using TreeBranch.prems(3,5) TreeTip by simp
    with d tip_branch_hash [OF TreeBranch.prems(6), of d "nodeHash l" "nodeHash r"] show ?thesis by simp
  next
    case u: (TreeBranch h' l' r')
    have "H (branchPre (nodeHash l) (nodeHash r)) = H (branchPre (nodeHash l') (nodeHash r'))"
      using TreeBranch.prems u by simp
    then have "branchPre (nodeHash l) (nodeHash r) = branchPre (nodeHash l') (nodeHash r')"
      by (rule inj_onD [OF TreeBranch.prems(6)]) (simp_all add: u)
    moreover have wl: "wfTree H l" "wfTree H l'" using TreeBranch.prems u by auto
    ultimately have eq: "nodeHash l = nodeHash l'" "nodeHash r = nodeHash r'"
      using wfTree_hash [of H l, OF H] wfTree_hash [of H l', OF H] by (auto simp: branchPre_inj)
    have "map nodeHash (tips l) = map nodeHash (tips l')"
    proof (rule TreeBranch.IH(1) [OF _ _ wl eq(1)])
      show "\<exists>d. tipPre d \<in> Q \<and> h = H (tipPre d)" if "TreeTip h i \<in> set (tips l)" for h i
        by (rule TreeBranch.prems(1) [of h i]) (use that in simp)
      show "\<exists>d. tipPre d \<in> Q \<and> h = H (tipPre d)" if "TreeTip h i \<in> set (tips l')" for h i
        by (rule TreeBranch.prems(2) [of h i]) (use that u in simp)
      show "inj_on H (treeInputs l \<union> treeInputs l' \<union> Q)"
        by (rule inj_on_subset [OF TreeBranch.prems(6)]) (auto simp: u)
    qed
    moreover have "map nodeHash (tips r) = map nodeHash (tips r')"
    proof (cases "r = emptyNode \<or> r' = emptyNode")
      case True
      then have "nodeHash r = [] \<and> nodeHash r' = []" using eq by auto
      then show ?thesis
        using TreeBranch.prems(3,4) u wfTree_hash [of H r, OF H] wfTree_hash [of H r', OF H] by auto
    next
      case False
      with TreeBranch.prems(3,4) u have wr: "wfTree H r" "wfTree H r'" by auto
      show ?thesis
      proof (rule TreeBranch.IH(2) [OF _ _ wr eq(2)])
        show "\<exists>d. tipPre d \<in> Q \<and> h = H (tipPre d)" if "TreeTip h i \<in> set (tips r)" for h i
          by (rule TreeBranch.prems(1) [of h i]) (use that in simp)
        show "\<exists>d. tipPre d \<in> Q \<and> h = H (tipPre d)" if "TreeTip h i \<in> set (tips r')" for h i
          by (rule TreeBranch.prems(2) [of h i]) (use that u in simp)
        show "inj_on H (treeInputs r \<union> treeInputs r' \<union> Q)"
          by (rule inj_on_subset [OF TreeBranch.prems(6)]) (auto simp: u)
      qed
    qed
    ultimately show ?thesis by (simp add: u)
  qed
qed

definition scorexInputs :: "(bytes \<Rightarrow> bytes) \<Rightarrow> bytes list \<Rightarrow> bytes set" where
  "scorexInputs H ds = (case leafTree H ds of Inr t \<Rightarrow> treeInputs t | Inl _ \<Rightarrow> {}) \<union> tipPre ` set ds"

lemma scorex_binding:
  assumes H: "\<And>x. length (H x) = 32" and "ds \<noteq> []" and "es \<noteq> []"
    and eq: "computeScorexMerkleRoot H ds = computeScorexMerkleRoot H es"
    and inj: "inj_on H (scorexInputs H ds \<union> scorexInputs H es)"
  shows "ds = es"
proof -
  obtain t where t: "leafTree H ds = Inr t" "wfTree H t" "tips t = map2 (leafTip H) [0..<length ds] ds"
    using leafTree_wf [of H ds, OF H assms(2)] by blast
  obtain u where u: "leafTree H es = Inr u" "wfTree H u" "tips u = map2 (leafTip H) [0..<length es] es"
    using leafTree_wf [of H es, OF H assms(3)] by blast
  let ?Q = "tipPre ` (set ds \<union> set es)"
  have "nodeHash t = nodeHash u"
    using eq scorex_tree [of H, OF H t(1) assms(2)] scorex_tree [of H, OF H u(1) assms(3)] by simp
  moreover have inj': "inj_on H (treeInputs t \<union> treeInputs u \<union> ?Q)"
    by (rule inj_on_subset [OF inj]) (auto simp: scorexInputs_def t(1) u(1))
  moreover have "\<exists>d. tipPre d \<in> ?Q \<and> h = H (tipPre d)" if "TreeTip h i \<in> set (tips t)" for h i
    using leafTip_data [OF that [unfolded t(3)]] by blast
  moreover have "\<exists>d. tipPre d \<in> ?Q \<and> h = H (tipPre d)" if "TreeTip h i \<in> set (tips u)" for h i
    using leafTip_data [OF that [unfolded u(3)]] by blast
  ultimately have "map nodeHash (tips t) = map nodeHash (tips u)"
    using tree_binding [of H t ?Q u, OF H] t(2) u(2) by blast
  then have hashes: "map (\<lambda>d. H (tipPre d)) ds = map (\<lambda>d. H (tipPre d)) es"
    using map_nodeHash_leafTip [of "[0..<length ds]" ds H] map_nodeHash_leafTip [of "[0..<length es]" es H]
    by (simp only: t(3) u(3)) simp
  have "inj_on (\<lambda>d. H (tipPre d)) (set ds \<union> set es)"
    using inj' by (auto simp: inj_on_def tipPre_def)
  then show ?thesis using hashes by (auto simp: inj_on_map_eq_map)
qed

text \<open>What the transaction loop collects: the identifiers, and one shortened digest per transaction from
  block version 2 on.\<close>

definition witnessIdOf :: "(bytes \<Rightarrow> bytes) \<Rightarrow> block_transaction \<Rightarrow> bytes" where
  "witnessIdOf H tx = drop 1 (H (concat (spendingProofs tx)))"

lemma transactionLoop_result:
  "transactionLoop H v k n txs = Inr (ids, ws) \<Longrightarrow>
     ids = map transactionId txs \<and> (\<forall>i \<in> set ids. length i = 32)
   \<and> ws = (if v > 1 then map (witnessIdOf H) txs else [])"
  by (induction txs arbitrary: k n ids ws)
    (force simp: result_simps validateSpendingProofs_def computeErgoTransactionWitnessId_def witnessIdOf_def
      WITNESS_ID_BYTES_def DIGEST_SIZE_def split: if_splits)+

definition blockLeaves :: "(bytes \<Rightarrow> bytes) \<Rightarrow> block_input \<Rightarrow> bytes list" where
  "blockLeaves H b = map transactionId (transactions b)
     @ (if blockVersion b = 1 then [] else map (witnessIdOf H) (transactions b))"

lemma blockRoot_leaves:
  assumes "computeErgoBlockTransactionsRoot H b = Inr r"
  shows "computeScorexMerkleRoot H (blockLeaves H b) = Inr r" and "blockLeaves H b \<noteq> []"
    and "\<forall>i \<in> set (map transactionId (transactions b)). length i = 32"
proof -
  from assms obtain ids ws where l: "transactionLoop H (blockVersion b) 0 0 (transactions b) = Inr (ids, ws)"
    and r: "computeScorexMerkleRoot H (if blockVersion b = 1 then ids else ids @ ws) = Inr r"
    and ne: "transactions b \<noteq> []" and v: "1 \<le> blockVersion b"
    by (auto simp: computeErgoBlockTransactionsRoot_def result_simps)
  from transactionLoop_result [OF l] r ne v
  show "computeScorexMerkleRoot H (blockLeaves H b) = Inr r" "blockLeaves H b \<noteq> []"
    "\<forall>i \<in> set (map transactionId (transactions b)). length i = 32"
    by (auto simp: blockLeaves_def split: if_splits)
qed

text \<open>C35. The transactions root binds the block. Where the strings hashed for two blocks do not collide,
  equal roots mean the same transaction identifiers in the same order, the same spending-proof digests,
  and that both blocks or neither carry them (block version 1 does not).\<close>

theorem transactionsRoot_binding:
  assumes H: "\<And>x. length (H x) = 32"
    and b: "computeErgoBlockTransactionsRoot H b = Inr r" and c: "computeErgoBlockTransactionsRoot H c = Inr r"
    and inj: "inj_on H (scorexInputs H (blockLeaves H b) \<union> scorexInputs H (blockLeaves H c))"
  shows "map transactionId (transactions b) = map transactionId (transactions c)
    \<and> (blockVersion b = 1 \<longleftrightarrow> blockVersion c = 1)
    \<and> (blockVersion b \<noteq> 1 \<longrightarrow> map (witnessIdOf H) (transactions b) = map (witnessIdOf H) (transactions c))"
proof -
  note B = blockRoot_leaves [OF b] and C = blockRoot_leaves [OF c]
  have eq: "blockLeaves H b = blockLeaves H c"
    using scorex_binding [of H, OF H B(2) C(2) _ inj] B(1) C(1) by simp
  have short: "length (witnessIdOf H tx) = 31" for tx by (simp add: witnessIdOf_def H)
  have "filter (\<lambda>x. length x = 32) (blockLeaves H d) = map transactionId (transactions d)"
    if "\<forall>i \<in> set (map transactionId (transactions d)). length i = 32" for d
    using that short by (auto simp: blockLeaves_def filter_map o_def filter_id_conv)
  then have ids: "map transactionId (transactions b) = map transactionId (transactions c)"
    using eq B(3) C(3) by metis
  then have "(if blockVersion b = 1 then [] else map (witnessIdOf H) (transactions b))
      = (if blockVersion c = 1 then [] else map (witnessIdOf H) (transactions c))"
    using eq by (simp add: blockLeaves_def)
  moreover have "transactions b \<noteq> []" "transactions c \<noteq> []" using B(2) C(2) by (auto simp: blockLeaves_def split: if_splits)
  ultimately show ?thesis using ids by (auto split: if_splits)
qed


section \<open>A block of one transaction\<close>

definition demoBlock :: "int \<Rightarrow> bytes list \<Rightarrow> block_input" where
  "demoBlock v proofs = \<lparr> blockVersion = v,
     transactions = [\<lparr> transactionId = replicate 32 5, spendingProofs = proofs \<rparr>] \<rparr>"

lemma demoBlock_root:
  "computeErgoBlockTransactionsRoot demoHash (demoBlock 2 [[1], [2]]) = Inr (replicate 31 0 @ [164])"
  "computeErgoBlockTransactionsRoot demoHash (demoBlock 3 [[1, 2]]) = Inr (replicate 31 0 @ [164])"
  by (simp_all add: computeErgoBlockTransactionsRoot_def demoBlock_def MAX_BLOCK_VERSION_def MAX_TRANSACTIONS_def
      DIGEST_SIZE_def validateSpendingProofs_def MAX_SPENDING_PROOFS_def MAX_TOTAL_PROOF_BYTES_def
      computeErgoTransactionWitnessId_def WITNESS_ID_BYTES_def computeScorexMerkleRoot_def scorexLoop.simps
      demoHash_def sum_list_replicate ext_consts)

lemma demoBlock_leaves: "blockLeaves demoHash (demoBlock 2 [[1], [2]]) = [replicate 32 5, replicate 30 0 @ [3]]"
  "blockLeaves demoHash (demoBlock 3 [[1, 2]]) = [replicate 32 5, replicate 30 0 @ [3]]"
  by (simp_all add: blockLeaves_def demoBlock_def witnessIdOf_def demoHash_def)

lemma demoBlock_inj: "inj_on demoHash (scorexInputs demoHash [replicate 32 5, replicate 30 0 @ [3]])"
proof -
  have "leafTree demoHash [replicate 32 5, replicate 30 0 @ [3]] = Inr (TreeBranch (replicate 31 0 @ [164])
      (TreeTip (replicate 31 0 @ [160]) (Some 0)) (TreeTip (replicate 31 0 @ [3]) (Some 1)))"
    by code_simp
  then show ?thesis
    by (auto simp: inj_on_def scorexInputs_def branchPre_def tipPre_def ext_consts demoHash_def sum_list_replicate)
qed

theorem scorexRoot_is_tree_root_witness:
  "\<exists>t. buildTree demoHash (map2 (\<lambda>i d. TreeTip (hashErgoExtensionLeaf demoHash d) (Some i)) [0..<3] [[1], [2], [4]])
        = Inr t \<and> computeScorexMerkleRoot demoHash [[1], [2], [4]] = Inr (nodeHash t)"
  using scorexRoot_is_tree_root [of demoHash "[[1], [2], [4]]"] by (simp add: eval_nat_numeral)

text \<open>Two blocks with one root: the spending proofs are bound only as their concatenation.\<close>

theorem transactionsRoot_binding_witness:
  "map transactionId (transactions (demoBlock 2 [[1], [2]])) = map transactionId (transactions (demoBlock 3 [[1, 2]]))
   \<and> map (witnessIdOf demoHash) (transactions (demoBlock 2 [[1], [2]]))
       = map (witnessIdOf demoHash) (transactions (demoBlock 3 [[1, 2]]))"
  using transactionsRoot_binding [of demoHash, OF _ demoBlock_root] demoBlock_inj
  by (simp add: demoBlock_leaves) (simp add: demoBlock_def)

end
