(* ===== verification/Header_Id.thy ===== *)
theory Header_Id
  imports Bridge_Prelude
begin

text \<open>
  Ergo header identities: \<^verbatim>\<open>ergo-settlement-core/ergo-header-id.ts\<close>. The serializer of the pinned wire
  format, the strict parser with its cursor, and the header id.

  A cursor is the part of the source not read yet: \<^verbatim>\<open>offset + length > source.length\<close> is \<open>n > length
  rest\<close>. BLAKE2b is the parameter \<open>H\<close>.
\<close>

section \<open>Hexadecimal text of integers\<close>

text \<open>\<^verbatim>\<open>value.toString(16)\<close> and \<^verbatim>\<open>hex.padStart(n, '0')\<close>.\<close>

fun hexStr :: "nat \<Rightarrow> string" where
  "hexStr v = (if v < 16 then [hexDigit v] else hexStr (v div 16) @ [hexDigit (v mod 16)])"

declare hexStr.simps [simp del]

definition padStart0 :: "nat \<Rightarrow> string \<Rightarrow> string" where
  "padStart0 n s = replicate (n - length s) (CHR ''0'') @ s"


section \<open>Definitions\<close>

datatype header_error =
    WrongLength string
  | TooLong string
  | NotIntegerInRange string
  | NotUnsignedInRange string
  | DistanceTooLong
  | UnparsedBytesNotEmpty
  | UnsupportedVersion
  | BeyondBoundary string
  | VlqBeyondRange string
  | VlqNotCanonical string
  | VlqTooLong string
  | TrailingBytes
  | NoRoundTrip

record pow_solution =
  publicKey :: bytes
  nonce :: bytes
  oneTimePublicKey :: "bytes option"
  distance :: "int option"

record header =
  hVersion :: int
  hParentId :: bytes
  hAdProofsRoot :: bytes
  hStateRoot :: bytes
  hTransactionsRoot :: bytes
  hTimestamp :: int
  hNBits :: int
  hHeight :: int
  hExtensionHash :: bytes
  hVotes :: bytes
  hUnparsedBytes :: "bytes option"
  hPowSolution :: pow_solution

definition MAX_U32 :: int where "MAX_U32 = 0xffffffff"
definition MAX_I32 :: int where "MAX_I32 = 0x7fffffff"
definition MAX_I64 :: int where "MAX_I64 = 0x7fffffffffffffff"

lemmas header_consts = MAX_U32_def MAX_I32_def MAX_I64_def

definition exactBytes :: "bytes option \<Rightarrow> nat \<Rightarrow> string \<Rightarrow> header_error + bytes" where
  "exactBytes value expectedLength label = (case value of
       None \<Rightarrow> Inl (WrongLength label)
     | Some v \<Rightarrow> require (length v = expectedLength) (WrongLength label) (Inr v))"

definition boundedBytes :: "bytes \<Rightarrow> nat \<Rightarrow> string \<Rightarrow> header_error + bytes" where
  "boundedBytes value maximumLength label =
     require (\<not> length value > maximumLength) (TooLong label) (Inr value)"

definition integerInRange :: "int \<Rightarrow> int \<Rightarrow> int \<Rightarrow> string \<Rightarrow> header_error + int" where
  "integerInRange value minimum maximum label =
     require (\<not> (\<not> isSafeInteger value \<or> value < minimum \<or> value > maximum))
       (NotIntegerInRange label) (Inr value)"

definition unsignedBigInt :: "int option \<Rightarrow> int \<Rightarrow> string \<Rightarrow> header_error + int" where
  "unsignedBigInt value maximum label = (case value of
       None \<Rightarrow> Inl (NotUnsignedInRange label)
     | Some v \<Rightarrow> require (\<not> (v < 0 \<or> v > maximum)) (NotUnsignedInRange label) (Inr v))"

text \<open>The \<^verbatim>\<open>do ... while\<close> loop, on the unsigned integers it is called on.\<close>

fun unsignedVlq :: "nat \<Rightarrow> bytes" where
  "unsignedVlq value =
     (let byte = value mod 128; remaining = value div 128 in
      if remaining \<noteq> 0 then of_nat (byte + 128) # unsignedVlq remaining else [of_nat byte])"

declare unsignedVlq.simps [simp del]

definition unsignedBigEndian :: "int \<Rightarrow> bytes" where
  "unsignedBigEndian value =
     (if value = 0 then [0]
      else let hex = hexStr (nat value) in
           fromHex (if length hex mod 2 = 0 then hex else CHR ''0'' # hex))"

definition unsignedBigEndianValue :: "bytes \<Rightarrow> int" where
  "unsignedBigEndianValue value = foldl (\<lambda>result byte. push_bit 8 result OR uint byte) 0 value"

definition serializeErgoHeaderWithoutPow :: "header \<Rightarrow> header_error + bytes" where
  "serializeErgoHeaderWithoutPow h =
     andThen (integerInRange (hVersion h) 1 0x7f ''header version'') (\<lambda>version.
     andThen (exactBytes (Some (hParentId h)) 32 ''parent ID'') (\<lambda>parentId.
     andThen (exactBytes (Some (hAdProofsRoot h)) 32 ''AD proofs root'') (\<lambda>adProofsRoot.
     andThen (exactBytes (Some (hTransactionsRoot h)) 32 ''transactions root'') (\<lambda>transactionsRoot.
     andThen (exactBytes (Some (hStateRoot h)) 33 ''state root'') (\<lambda>stateRoot.
     andThen (unsignedBigInt (Some (hTimestamp h)) MAX_I64 ''header timestamp'') (\<lambda>timestamp.
     andThen (exactBytes (Some (hExtensionHash h)) 32 ''extension hash'') (\<lambda>extensionHash.
     andThen (integerInRange (hNBits h) 0 MAX_U32 ''header nBits'') (\<lambda>nBits.
     andThen (integerInRange (hHeight h) 0 MAX_I32 ''header height'') (\<lambda>height.
     andThen (exactBytes (Some (hVotes h)) 3 ''header votes'') (\<lambda>votes.
     andThen (boundedBytes (case hUnparsedBytes h of None \<Rightarrow> [] | Some u \<Rightarrow> u) 0xff
                ''header unparsed bytes'') (\<lambda>unparsedBytes.
     require (\<not> (version \<le> 4 \<and> length unparsedBytes \<noteq> 0)) UnparsedBytesNotEmpty
     (Inr ([of_int version] @ parentId @ adProofsRoot @ transactionsRoot @ stateRoot
        @ unsignedVlq (nat timestamp) @ extensionHash @ beBytes 4 (nat nBits)
        @ unsignedVlq (nat height) @ votes
        @ (if version > 1 then [of_nat (length unparsedBytes)] @ unparsedBytes else []))))))))))))))"

definition serializeErgoHeaderIdentity :: "header \<Rightarrow> header_error + bytes" where
  "serializeErgoHeaderIdentity h =
     andThen (serializeErgoHeaderWithoutPow h) (\<lambda>withoutPow.
     andThen (exactBytes (Some (publicKey (hPowSolution h))) 33 ''Autolykos public key'') (\<lambda>pk.
     andThen (exactBytes (Some (nonce (hPowSolution h))) 8 ''Autolykos nonce'') (\<lambda>n.
     if hVersion h = 1 then
       andThen (exactBytes (oneTimePublicKey (hPowSolution h)) 33 ''one-time public key'') (\<lambda>oneTime.
       andThen (unsignedBigInt (distance (hPowSolution h)) (2 ^ 2040 - 1) ''distance'') (\<lambda>d.
       let distanceBytes = unsignedBigEndian d in
       require (\<not> length distanceBytes > 0xff) DistanceTooLong
       (Inr (withoutPow @ pk @ oneTime @ n @ [of_nat (length distanceBytes)] @ distanceBytes))))
     else Inr (withoutPow @ pk @ n))))"

definition computeErgoHeaderId :: "(bytes \<Rightarrow> bytes) \<Rightarrow> header \<Rightarrow> header_error + bytes" where
  "computeErgoHeaderId H h = andThen (serializeErgoHeaderIdentity h) (\<lambda>bytes. Inr (H bytes))"

text \<open>The methods of \<^verbatim>\<open>HeaderCursor\<close>: the value read and the rest.\<close>

definition cursorBytes :: "nat \<Rightarrow> string \<Rightarrow> bytes \<Rightarrow> header_error + bytes \<times> bytes" where
  "cursorBytes n label rest =
     require (\<not> n > length rest) (BeyondBoundary label) (Inr (take n rest, drop n rest))"

definition cursorU8 :: "string \<Rightarrow> bytes \<Rightarrow> header_error + nat \<times> bytes" where
  "cursorU8 label rest = andThen (cursorBytes 1 label rest) (\<lambda>(b, rest'). Inr (unat (b ! 0), rest'))"

definition cursorU32be :: "string \<Rightarrow> bytes \<Rightarrow> header_error + int \<times> bytes" where
  "cursorU32be label rest = andThen (cursorBytes 4 label rest) (\<lambda>(b, rest'). Inr (int (beVal b), rest'))"

fun cursorVlqLoop ::
  "int \<Rightarrow> string \<Rightarrow> int \<Rightarrow> nat \<Rightarrow> nat \<Rightarrow> bytes \<Rightarrow> header_error + int \<times> bytes" where
  "cursorVlqLoop maximum label result shift count [] = Inl (BeyondBoundary label)"
| "cursorVlqLoop maximum label result shift count (byte # rest) =
     (let payload = uint byte AND 0x7f; result' = result OR push_bit shift payload; count' = count + 1 in
      require (\<not> result' > maximum) (VlqBeyondRange label)
      (if uint byte AND 0x80 = 0
       then require (\<not> (count' > 1 \<and> payload = 0)) (VlqNotCanonical label) (Inr (result', rest))
       else require (\<not> shift + 7 > 63) (VlqTooLong label)
              (cursorVlqLoop maximum label result' (shift + 7) count' rest)))"

definition cursorUnsignedVlq :: "int \<Rightarrow> string \<Rightarrow> bytes \<Rightarrow> header_error + int \<times> bytes" where
  "cursorUnsignedVlq maximum label rest = cursorVlqLoop maximum label 0 0 0 rest"

definition cursorEnd :: "bytes \<Rightarrow> header_error + unit" where
  "cursorEnd rest = require (rest = []) TrailingBytes (Inr ())"

definition parseErgoHeaderIdentityInRange :: "int \<Rightarrow> bytes \<Rightarrow> header_error + header" where
  "parseErgoHeaderIdentityInRange minimumVersion bytes =
     andThen (cursorU8 ''header version'' bytes) (\<lambda>(v, r1).
     let version = int v in
     require (\<not> (version < minimumVersion \<or> version > 4)) UnsupportedVersion
     (andThen (cursorBytes 32 ''parent ID'' r1) (\<lambda>(parentId, r2).
      andThen (cursorBytes 32 ''AD proofs root'' r2) (\<lambda>(adProofsRoot, r3).
      andThen (cursorBytes 32 ''transactions root'' r3) (\<lambda>(transactionsRoot, r4).
      andThen (cursorBytes 33 ''state root'' r4) (\<lambda>(stateRoot, r5).
      andThen (cursorUnsignedVlq MAX_I64 ''header timestamp'' r5) (\<lambda>(timestamp, r6).
      andThen (cursorBytes 32 ''extension hash'' r6) (\<lambda>(extensionHash, r7).
      andThen (cursorU32be ''header nBits'' r7) (\<lambda>(nBits, r8).
      andThen (cursorUnsignedVlq MAX_I32 ''header height'' r8) (\<lambda>(heightValue, r9).
      andThen (cursorBytes 3 ''header votes'' r9) (\<lambda>(votes, r10).
      andThen (if version = 1 then Inr ([], r10)
               else andThen (cursorU8 ''header unparsed-byte length'' r10) (\<lambda>(n, r).
                    cursorBytes n ''header unparsed bytes'' r)) (\<lambda>(unparsedBytes, r11).
      require (length unparsedBytes = 0) UnparsedBytesNotEmpty
      (andThen (cursorBytes 33 ''Autolykos public key'' r11) (\<lambda>(pk, r12).
       andThen (if version = 1
                then andThen (cursorBytes 33 ''one-time public key'' r12) (\<lambda>(k, r). Inr (Some k, r))
                else Inr (None, r12)) (\<lambda>(oneTime, r13).
       andThen (cursorBytes 8 ''Autolykos nonce'' r13) (\<lambda>(nn, r14).
       andThen (if version = 1
                then andThen (cursorU8 ''distance length'' r14) (\<lambda>(n, r).
                     andThen (cursorBytes n ''distance'' r) (\<lambda>(d, r'). Inr (Some (unsignedBigEndianValue d), r')))
                else Inr (None, r14)) (\<lambda>(dist, r15).
       andThen (cursorEnd r15) (\<lambda>_.
       let h = \<lparr> hVersion = version, hParentId = parentId, hAdProofsRoot = adProofsRoot,
                 hStateRoot = stateRoot, hTransactionsRoot = transactionsRoot, hTimestamp = timestamp,
                 hNBits = nBits, hHeight = heightValue, hExtensionHash = extensionHash, hVotes = votes,
                 hUnparsedBytes = Some unparsedBytes,
                 hPowSolution = \<lparr> publicKey = pk, nonce = nn, oneTimePublicKey = oneTime,
                                  distance = dist \<rparr> \<rparr>
       in andThen (serializeErgoHeaderIdentity h) (\<lambda>again.
          require (again = bytes) NoRoundTrip (Inr h))))))))))))))))))))"

definition parseErgoHeaderIdentity :: "bytes \<Rightarrow> header_error + header" where
  "parseErgoHeaderIdentity value = parseErgoHeaderIdentityInRange 1 value"

definition parseErgoAutolykosV2HeaderIdentity :: "bytes \<Rightarrow> header_error + header" where
  "parseErgoAutolykosV2HeaderIdentity value = parseErgoHeaderIdentityInRange 2 value"


section \<open>Integers as bytes\<close>

definition hexNum :: "string \<Rightarrow> nat" where
  "hexNum s = foldl (\<lambda>a c. a * 16 + the (hexVal c)) 0 s"

lemma hexNum_snoc: "hexNum (s @ [c]) = hexNum s * 16 + the (hexVal c)"
  by (simp add: hexNum_def)

lemma hexNum_append: "hexNum (s @ t) = hexNum s * 16 ^ length t + hexNum t"
proof (induction t rule: rev_induct)
  case (snoc c t)
  then show ?case by (simp add: hexNum_snoc algebra_simps flip: append_assoc)
qed (simp add: hexNum_def)

lemma hexStr_lowerHex: "list_all isLowerHexChar (hexStr v)"
proof (induction v rule: hexStr.induct)
  case (1 v)
  then show ?case by (subst hexStr.simps) (simp add: isLowerHexChar_hexDigit)
qed

lemma hexNum_hexStr: "hexNum (hexStr v) = v"
proof (induction v rule: hexStr.induct)
  case (1 v)
  show ?case
  proof (cases "v < 16")
    case True
    then show ?thesis by (simp add: hexStr.simps [of v] hexNum_def hexVal_hexDigit)
  next
    case False
    with 1 show ?thesis by (simp add: hexStr.simps [of v] hexNum_snoc hexVal_hexDigit)
  qed
qed

lemma length_hexStr: "v < 16 ^ n \<Longrightarrow> 0 < n \<Longrightarrow> length (hexStr v) \<le> n"
proof (induction v arbitrary: n rule: hexStr.induct)
  case (1 v)
  show ?case
  proof (cases "v < 16")
    case True
    with 1 show ?thesis by (simp add: hexStr.simps [of v])
  next
    case False
    then obtain m where m: "n = Suc m" "0 < m" using "1.prems" by (cases n; cases "n - 1") auto
    then have "v div 16 < 16 ^ m" using "1.prems" by (simp add: less_mult_imp_div_less mult.commute)
    with 1 False m show ?thesis by (simp add: hexStr.simps [of v])
  qed
qed

lemma hexNum_toHex: "hexNum (toHex bs) = beVal bs"
proof (induction bs rule: rev_induct)
  case (snoc b bs)
  have "unat b div 16 < 16" using unat_byte_less [of b] by linarith
  then have "hexNum (toHex [b]) = unat b" by (simp add: hexNum_def hexVal_hexDigit)
  then show ?case using snoc by (simp add: hexNum_append [of "toHex bs"] beVal_snoc del: toHex.simps)
qed (simp add: hexNum_def)

lemma beVal_fromHex: "list_all isLowerHexChar s \<Longrightarrow> even (length s) \<Longrightarrow> beVal (fromHex s) = hexNum s"
  using hexNum_toHex [of "fromHex s"] by (simp add: lowerHex_roundtrip)

lemma zero_digit: "isLowerHexChar (CHR ''0'')" "hexVal (CHR ''0'') = Some 0"
  by (simp_all add: isLowerHexChar_def hexVal_def code_def)

lemma hexNum_zeros: "hexNum (replicate n (CHR ''0'') @ s) = hexNum s"
proof -
  have "hexNum (replicate n (CHR ''0'')) = 0"
    by (induction n) (auto simp: hexNum_def zero_digit)
  then show ?thesis by (simp add: hexNum_append)
qed

text \<open>Fixed-width integers written through padded hexadecimal text are big-endian bytes.\<close>

lemma padded_hex_bytes:
  assumes "v < 256 ^ k" and "0 < k"
  shows "fromHex (padStart0 (2 * k) (hexStr v)) = beBytes k v" and "length (hexStr v) \<le> 2 * k"
proof -
  have "v < 16 ^ (2 * k)" using assms by (simp add: power_mult)
  then show len: "length (hexStr v) \<le> 2 * k" using assms by (intro length_hexStr) auto
  let ?s = "padStart0 (2 * k) (hexStr v)"
  have s: "length ?s = 2 * k" "list_all isLowerHexChar ?s" "hexNum ?s = v"
    using len by (auto simp: padStart0_def hexStr_lowerHex hexNum_zeros hexNum_hexStr zero_digit list_all_append
        list_all_iff in_set_replicate)
       (use hexStr_lowerHex [of v] in \<open>auto simp: list_all_iff\<close>)
  then have "beVal (fromHex ?s) = v" "length (fromHex ?s) = k"
    by (auto simp: beVal_fromHex length_fromHex list_all_lowerHex_isHex)
  then show "fromHex ?s = beBytes k v" using beBytes_beVal [of "fromHex ?s"] by simp
qed

lemma bigEndianValue: "unsignedBigEndianValue bs = int (beVal bs)"
proof (induction bs rule: rev_induct)
  case (snoc b bs)
  have "push_bit 8 (int (beVal bs)) OR uint b = int (beVal bs) * 256 + int (unat b)"
    using or_push_bit [of "uint b" 8 "int (beVal bs)"] by (simp add: or.commute)
  then show ?case using snoc by (simp add: unsignedBigEndianValue_def beVal_snoc)
qed (simp add: unsignedBigEndianValue_def)

lemma unsignedBigEndian_roundtrip: "0 \<le> v \<Longrightarrow> unsignedBigEndianValue (unsignedBigEndian v) = v"
proof (cases "v = 0")
  case False
  assume "0 \<le> v"
  let ?h = "hexStr (nat v)"
  let ?s = "if length ?h mod 2 = 0 then ?h else CHR ''0'' # ?h"
  have "list_all isLowerHexChar ?s" "even (length ?s)" "hexNum ?s = nat v"
    using hexStr_lowerHex [of "nat v"] hexNum_zeros [of 1 ?h]
    by (auto simp: zero_digit hexNum_hexStr even_iff_mod_2_eq_zero mod_Suc)
  then have "beVal (fromHex ?s) = nat v" by (simp add: beVal_fromHex)
  then show ?thesis using False \<open>0 \<le> v\<close> by (simp add: unsignedBigEndian_def Let_def bigEndianValue)
qed (simp add: unsignedBigEndian_def unsignedBigEndianValue_def)

lemma unsignedBigEndian_length:
  assumes "0 \<le> v" and "v < 2 ^ (8 * k)" and "0 < k"
  shows "length (unsignedBigEndian v) \<le> k"
proof (cases "v = 0")
  case False
  have "nat v < 16 ^ (2 * k)"
    using assms by (simp add: nat_less_iff power_mult [of 16 2 k, symmetric] power_mult)
  then have len: "length (hexStr (nat v)) \<le> 2 * k" using assms by (intro length_hexStr) auto
  have "list_all isHexChar (hexStr (nat v))" "isHexChar (CHR ''0'')"
    using hexStr_lowerHex [of "nat v"] zero_digit lowerHex_isHex by (auto simp: list_all_iff)
  then show ?thesis using len False by (auto simp: unsignedBigEndian_def Let_def length_fromHex)
qed (use assms in \<open>simp add: unsignedBigEndian_def\<close>)


section \<open>Variable-length quantities\<close>

lemma unsignedVlq_small: "v < 128 \<Longrightarrow> unsignedVlq v = [of_nat v]"
  by (subst unsignedVlq.simps) simp

lemma unsignedVlq_large: "128 \<le> v \<Longrightarrow> unsignedVlq v = of_nat (v mod 128 + 128) # unsignedVlq (v div 128)"
  by (subst unsignedVlq.simps) (simp add: Let_def div_greater_zero_iff)

lemma vlq_bytes:
  "n < 128 \<Longrightarrow> uint (of_nat n :: byte) AND 0x7f = int n"
  "n < 128 \<Longrightarrow> uint (of_nat n :: byte) AND 0x80 = 0"
  "n < 128 \<Longrightarrow> uint (of_nat (n + 128) :: byte) AND 0x7f = int n"
  "n < 128 \<Longrightarrow> uint (of_nat (n + 128) :: byte) AND 0x80 \<noteq> 0"
proof -
  assume n: "n < 128"
  have u: "uint (of_nat n :: byte) = int n" "uint (of_nat (n + 128) :: byte) = int n + 128"
    using n uint_of_int_byte [of "int n"] uint_of_int_byte [of "int n + 128"] by auto
  show "uint (of_nat n :: byte) AND 0x7f = int n" "uint (of_nat n :: byte) AND 0x80 = 0"
    using n by (simp_all add: u and_127 and_128)
  have "(int n + 128) mod 128 = int n" using n by simp
  then show "uint (of_nat (n + 128) :: byte) AND 0x7f = int n" "uint (of_nat (n + 128) :: byte) AND 0x80 \<noteq> 0"
    using n and_128 [of "int n + 128"] by (simp_all add: u and_127 del: of_nat_add)
qed

lemma cursorVlqLoop_reads:
  assumes "0 \<le> u" and "u < 2 ^ shift" and "u + int v * 2 ^ shift \<le> maximum" and "maximum < 2 ^ 63"
    and "count = 0 \<or> v \<noteq> 0"
  shows "cursorVlqLoop maximum label u shift count (unsignedVlq v @ rest) = Inr (u + int v * 2 ^ shift, rest)"
  using assms
proof (induction v arbitrary: u shift count rule: unsignedVlq.induct)
  case (1 v)
  show ?case
  proof (cases "v < 128")
    case True
    then show ?thesis
      using "1.prems" by (auto simp: unsignedVlq_small vlq_bytes or_push_bit Let_def require_def)
  next
    case False
    let ?u = "u + int (v mod 128) * 2 ^ shift"
    have split: "?u + int (v div 128) * 2 ^ (shift + 7) = u + int v * 2 ^ shift"
    proof -
      have "int v = int (v mod 128) + int (v div 128) * 128" by (simp add: zdiv_int zmod_int)
      then show ?thesis by (simp add: power_add algebra_simps)
    qed
    have "0 \<le> int (v div 128) * 2 ^ (shift + 7)" by simp
    then have le: "?u \<le> maximum" using split "1.prems"(3) by linarith
    have "(2::int) ^ (shift + 7) = 128 * 2 ^ shift" by (simp add: power_add)
    also have "\<dots> \<le> int v * 2 ^ shift" using False by (intro mult_right_mono) auto
    also have "\<dots> < 2 ^ 63" using "1.prems"(1,3,4) by linarith
    finally have sh: "shift + 7 < 63" by (rule power_less_imp_less_exp [rotated]) simp
    have lt: "?u < 2 ^ (shift + 7)"
    proof -
      have "int (v mod 128) * 2 ^ shift \<le> 127 * 2 ^ shift" by (intro mult_right_mono) auto
      moreover have "(2::int) ^ (shift + 7) = 127 * 2 ^ shift + 2 ^ shift" by (simp add: power_add)
      ultimately show ?thesis using "1.prems"(2) by linarith
    qed
    have nz: "v div 128 \<noteq> 0" using False by (simp add: div_eq_0_iff)
    have "cursorVlqLoop maximum label ?u (shift + 7) (count + 1) (unsignedVlq (v div 128) @ rest)
        = Inr (?u + int (v div 128) * 2 ^ (shift + 7), rest)"
      using "1.prems" lt split nz by (intro "1.IH" [OF refl refl]) auto
    moreover have "unsignedVlq v @ rest = of_nat (v mod 128 + 128) # unsignedVlq (v div 128) @ rest"
      using False by (simp add: unsignedVlq_large)
    moreover have "uint (of_nat (v mod 128 + 128) :: byte) AND 0x7f = int (v mod 128)"
      "uint (of_nat (v mod 128 + 128) :: byte) AND 0x80 \<noteq> 0" by (rule vlq_bytes; simp)+
    ultimately show ?thesis
      using "1.prems"(1,2) le sh split by (simp add: or_push_bit Let_def del: of_nat_add)
  qed
qed

lemma cursorUnsignedVlq_reads:
  "0 \<le> v \<Longrightarrow> v \<le> maximum \<Longrightarrow> maximum < 2 ^ 63 \<Longrightarrow>
     cursorUnsignedVlq maximum label (unsignedVlq (nat v) @ rest) = Inr (v, rest)"
  using cursorVlqLoop_reads [of 0 0 "nat v" maximum 0 label rest] by (simp add: cursorUnsignedVlq_def)


section \<open>The header round trip\<close>

text \<open>The parser returns no fields of the other proof-of-work format, and an explicit empty byte string
  for the unparsed bytes.\<close>

definition canonicalHeader :: "header \<Rightarrow> header" where
  "canonicalHeader h = h \<lparr> hUnparsedBytes := Some [], hPowSolution :=
     (if hVersion h = 1 then hPowSolution h
      else (hPowSolution h) \<lparr> oneTimePublicKey := None, distance := None \<rparr>) \<rparr>"

lemma cursorBytes_reads [simp]: "length xs = n \<Longrightarrow> cursorBytes n label (xs @ rest) = Inr (xs, rest)"
  by (simp add: cursorBytes_def)

lemma cursorBytes_zero [simp]: "cursorBytes 0 label rest = Inr ([], rest)"
  by (simp add: cursorBytes_def)

lemma cursorU8_reads [simp]: "cursorU8 label (b # rest) = Inr (unat b, rest)"
  by (simp add: cursorU8_def cursorBytes_def)

lemma cursorU32be_reads:
  "0 \<le> v \<Longrightarrow> v \<le> MAX_U32 \<Longrightarrow> cursorU32be label (beBytes 4 (nat v) @ rest) = Inr (v, rest)"
  by (simp add: cursorU32be_def beVal_beBytes header_consts)

text \<open>What a header satisfies when it serializes, and the bytes.\<close>

definition powBytes :: "header \<Rightarrow> bytes" where
  "powBytes h = publicKey (hPowSolution h)
     @ (if hVersion h = 1
        then the (oneTimePublicKey (hPowSolution h)) @ nonce (hPowSolution h)
          @ [of_nat (length (unsignedBigEndian (the (distance (hPowSolution h)))))]
          @ unsignedBigEndian (the (distance (hPowSolution h)))
        else nonce (hPowSolution h))"

definition fieldsOk :: "header \<Rightarrow> bool" where
  "fieldsOk h \<longleftrightarrow> 1 \<le> hVersion h \<and> hVersion h \<le> 0x7f \<and> length (hParentId h) = 32
     \<and> length (hAdProofsRoot h) = 32 \<and> length (hTransactionsRoot h) = 32 \<and> length (hStateRoot h) = 33
     \<and> 0 \<le> hTimestamp h \<and> hTimestamp h \<le> MAX_I64 \<and> length (hExtensionHash h) = 32
     \<and> 0 \<le> hNBits h \<and> hNBits h \<le> MAX_U32 \<and> 0 \<le> hHeight h \<and> hHeight h \<le> MAX_I32
     \<and> length (hVotes h) = 3
     \<and> length (case hUnparsedBytes h of None \<Rightarrow> [] | Some u \<Rightarrow> u) \<le> 0xff
     \<and> (hVersion h \<le> 4 \<longrightarrow> (case hUnparsedBytes h of None \<Rightarrow> [] | Some u \<Rightarrow> u) = [])"

definition powOk :: "header \<Rightarrow> bool" where
  "powOk h \<longleftrightarrow> length (publicKey (hPowSolution h)) = 33 \<and> length (nonce (hPowSolution h)) = 8
     \<and> (hVersion h = 1 \<longrightarrow> (\<exists>k d. oneTimePublicKey (hPowSolution h) = Some k \<and> length k = 33
           \<and> distance (hPowSolution h) = Some d \<and> 0 \<le> d \<and> d \<le> 2 ^ 2040 - 1))"

lemma withoutPow_iff:
  "serializeErgoHeaderWithoutPow h = Inr bs \<longleftrightarrow> fieldsOk h \<and>
     bs = [of_int (hVersion h)] @ hParentId h @ hAdProofsRoot h @ hTransactionsRoot h @ hStateRoot h
        @ unsignedVlq (nat (hTimestamp h)) @ hExtensionHash h @ beBytes 4 (nat (hNBits h))
        @ unsignedVlq (nat (hHeight h)) @ hVotes h
        @ (if hVersion h > 1
           then [of_nat (length (case hUnparsedBytes h of None \<Rightarrow> [] | Some u \<Rightarrow> u))]
             @ (case hUnparsedBytes h of None \<Rightarrow> [] | Some u \<Rightarrow> u) else [])"
  unfolding serializeErgoHeaderWithoutPow_def integerInRange_def exactBytes_def unsignedBigInt_def
    boundedBytes_def fieldsOk_def option.case result_simps
  by (auto simp: safe_defs header_consts)

lemma distance_fits: "0 \<le> d \<Longrightarrow> d \<le> 2 ^ 2040 - 1 \<Longrightarrow> length (unsignedBigEndian d) \<le> 0xff"
  by (rule unsignedBigEndian_length) auto

lemma serialize_iff:
  "serializeErgoHeaderIdentity h = Inr bs \<longleftrightarrow>
     (\<exists>w. serializeErgoHeaderWithoutPow h = Inr w \<and> powOk h \<and> bs = w @ powBytes h)"
proof (cases "hVersion h = 1")
  case True
  have "(case distance (hPowSolution h) of None \<Rightarrow> False | Some d \<Rightarrow> 0 \<le> d \<and> d \<le> 2 ^ 2040 - 1) \<Longrightarrow>
      \<not> 255 < length (unsignedBigEndian (the (distance (hPowSolution h))))"
    using distance_fits by (auto split: option.splits dest: leD)
  with True show ?thesis
    unfolding serializeErgoHeaderIdentity_def exactBytes_def unsignedBigInt_def powOk_def powBytes_def result_simps
    by (auto simp: Let_def result_simps not_less split: option.splits)
next
  case False
  then show ?thesis
    unfolding serializeErgoHeaderIdentity_def exactBytes_def powOk_def powBytes_def result_simps
    by (auto simp: result_simps)
qed


lemma canonicalHeader_serialize:
  assumes "serializeErgoHeaderIdentity h = Inr bs" and "hVersion h \<le> 4"
  shows "serializeErgoHeaderIdentity (canonicalHeader h) = Inr bs"
proof -
  from assms obtain w where w: "serializeErgoHeaderWithoutPow h = Inr w" "powOk h" "bs = w @ powBytes h"
    by (auto simp: serialize_iff)
  have "serializeErgoHeaderWithoutPow (canonicalHeader h) = Inr w"
    using w(1) assms(2) by (simp add: withoutPow_iff canonicalHeader_def fieldsOk_def split: option.splits)
  moreover have "powOk (canonicalHeader h)" "powBytes (canonicalHeader h) = powBytes h"
    using w(2) by (auto simp: powOk_def powBytes_def canonicalHeader_def)
  ultimately show ?thesis using w(3) by (auto simp: serialize_iff)
qed

lemma parse_serialize:
  assumes ser: "serializeErgoHeaderIdentity h = Inr bs" and v: "m \<le> hVersion h" "hVersion h \<le> 4"
  shows "parseErgoHeaderIdentityInRange m bs = Inr (canonicalHeader h)"
proof -
  from ser obtain w where w: "serializeErgoHeaderWithoutPow h = Inr w" and pow: "powOk h" and bs: "bs = w @ powBytes h"
    by (auto simp: serialize_iff)
  from w v have f: "fieldsOk h" and w': "w = [of_int (hVersion h)] @ hParentId h @ hAdProofsRoot h
        @ hTransactionsRoot h @ hStateRoot h @ unsignedVlq (nat (hTimestamp h)) @ hExtensionHash h
        @ beBytes 4 (nat (hNBits h)) @ unsignedVlq (nat (hHeight h)) @ hVotes h
        @ (if hVersion h = 1 then [] else [0])"
    by (auto simp: withoutPow_iff fieldsOk_def)
  have ver: "uint (of_int (hVersion h) :: byte) = hVersion h"
    using f v by (intro uint_of_int_byte) (auto simp: fieldsOk_def)
  then have ver': "unat (of_int (hVersion h) :: byte) = nat (hVersion h)" by (simp flip: nat_uint_eq)
  have ver4: "nat (hVersion h) = Suc 0 \<longleftrightarrow> hVersion h = 1" "\<not> 4 < nat (hVersion h)" using v f by (auto simp: fieldsOk_def)
  have reads: "cursorUnsignedVlq MAX_I64 lb (unsignedVlq (nat (hTimestamp h)) @ r) = Inr (hTimestamp h, r)"
    "cursorUnsignedVlq MAX_I32 lb (unsignedVlq (nat (hHeight h)) @ r) = Inr (hHeight h, r)"
    "cursorU32be lb (beBytes 4 (nat (hNBits h)) @ r) = Inr (hNBits h, r)" for lb r
    using f by (auto simp: fieldsOk_def cursorUnsignedVlq_reads cursorU32be_reads header_consts)
  note again = canonicalHeader_serialize [OF ser v(2)]
  show ?thesis
  proof (cases "hVersion h = 1")
    case True
    with pow obtain k d where kd: "oneTimePublicKey (hPowSolution h) = Some k" "length k = 33"
      "distance (hPowSolution h) = Some d" "0 \<le> d" "d \<le> 2 ^ 2040 - 1" by (auto simp: powOk_def)
    have len: "unat (of_nat (length (unsignedBigEndian d)) :: byte) = length (unsignedBigEndian d)"
      using distance_fits [OF kd(4,5)] by (simp add: unat_of_nat_byte)
    have "canonicalHeader h = \<lparr> hVersion = hVersion h, hParentId = hParentId h, hAdProofsRoot = hAdProofsRoot h,
        hStateRoot = hStateRoot h, hTransactionsRoot = hTransactionsRoot h, hTimestamp = hTimestamp h,
        hNBits = hNBits h, hHeight = hHeight h, hExtensionHash = hExtensionHash h, hVotes = hVotes h,
        hUnparsedBytes = Some [], hPowSolution = \<lparr> publicKey = publicKey (hPowSolution h),
          nonce = nonce (hPowSolution h), oneTimePublicKey = Some k, distance = Some d \<rparr> \<rparr>"
      using True kd by (intro header.equality) (simp_all add: canonicalHeader_def)
    with again True kd f pow v show ?thesis
      unfolding parseErgoHeaderIdentityInRange_def bs w'
      by (simp add: fieldsOk_def powOk_def powBytes_def ver ver' ver4 reads len cursorEnd_def Let_def
          unsignedBigEndian_roundtrip cursorBytes_def [of "length _" _ "unsignedBigEndian d"] bs w')
  next
    case False
    have "canonicalHeader h = \<lparr> hVersion = hVersion h, hParentId = hParentId h, hAdProofsRoot = hAdProofsRoot h,
        hStateRoot = hStateRoot h, hTransactionsRoot = hTransactionsRoot h, hTimestamp = hTimestamp h,
        hNBits = hNBits h, hHeight = hHeight h, hExtensionHash = hExtensionHash h, hVotes = hVotes h,
        hUnparsedBytes = Some [], hPowSolution = \<lparr> publicKey = publicKey (hPowSolution h),
          nonce = nonce (hPowSolution h), oneTimePublicKey = None, distance = None \<rparr> \<rparr>"
      using False by (intro header.equality) (simp_all add: canonicalHeader_def)
    with again False f pow v show ?thesis
      unfolding parseErgoHeaderIdentityInRange_def bs w'
      by (simp add: fieldsOk_def powOk_def powBytes_def ver ver' ver4 reads cursorEnd_def Let_def
          cursorBytes_def [of 8 _ "nonce (hPowSolution h)"] bs w')
  qed
qed


lemma parse_iff:
  "parseErgoHeaderIdentity bs = Inr h \<longleftrightarrow>
     serializeErgoHeaderIdentity h = Inr bs \<and> hVersion h \<le> 4 \<and> canonicalHeader h = h"
proof
  assume "parseErgoHeaderIdentity bs = Inr h"
  then have "serializeErgoHeaderIdentity h = Inr bs \<and> hVersion h \<le> 4"
    unfolding parseErgoHeaderIdentity_def parseErgoHeaderIdentityInRange_def
    by (auto simp: result_simps Let_def)
  moreover from this have "1 \<le> hVersion h" by (auto simp: serialize_iff withoutPow_iff fieldsOk_def)
  ultimately have "parseErgoHeaderIdentity bs = Inr (canonicalHeader h)"
    unfolding parseErgoHeaderIdentity_def by (intro parse_serialize) auto
  with \<open>parseErgoHeaderIdentity bs = Inr h\<close> \<open>serializeErgoHeaderIdentity h = Inr bs \<and> hVersion h \<le> 4\<close>
  show "serializeErgoHeaderIdentity h = Inr bs \<and> hVersion h \<le> 4 \<and> canonicalHeader h = h" by simp
next
  assume h: "serializeErgoHeaderIdentity h = Inr bs \<and> hVersion h \<le> 4 \<and> canonicalHeader h = h"
  then have "1 \<le> hVersion h" by (auto simp: serialize_iff withoutPow_iff fieldsOk_def)
  with h parse_serialize [of h bs 1] show "parseErgoHeaderIdentity bs = Inr h"
    by (simp add: parseErgoHeaderIdentity_def)
qed

text \<open>Headers are a canonical codec: total on the canonical headers of version 1 to 4 that the serializer
  takes, and with one spelling per header.\<close>

interpretation header_wire: canonical_codec
  "\<lambda>h. isOk (serializeErgoHeaderIdentity h) \<and> hVersion h \<le> 4 \<and> canonicalHeader h = h"
  serializeErgoHeaderIdentity parseErgoHeaderIdentity "\<lambda>bs. bs"
  by unfold_locales (auto simp: parse_iff)

text \<open>C37. The header parser is exact: it accepts a byte string precisely when it is the serialization of a
  header of version 1 to 4, and returns that header in canonical form; a header has one encoding.\<close>

theorem headerParse_exact:
  "parseErgoHeaderIdentity bs = Inr h \<longleftrightarrow>
     serializeErgoHeaderIdentity h = Inr bs \<and> hVersion h \<le> 4 \<and> canonicalHeader h = h"
  by (rule parse_iff)

lemma serialize_canonical_inj:
  assumes "serializeErgoHeaderIdentity h = Inr bs" and "serializeErgoHeaderIdentity g = Inr bs"
    and "hVersion h \<le> 4" and "hVersion g \<le> 4"
  shows "canonicalHeader h = canonicalHeader g"
proof -
  have "canonicalHeader (canonicalHeader x) = canonicalHeader x" "hVersion (canonicalHeader x) = hVersion x" for x
    by (simp_all add: canonicalHeader_def)
  with assms canonicalHeader_serialize [of h bs] canonicalHeader_serialize [of g bs] show ?thesis
    using header_wire.encode_injective [of "canonicalHeader h" "canonicalHeader g"] by simp
qed

lemma headerId_collision:
  assumes "computeErgoHeaderId H h = Inr i" and "computeErgoHeaderId H g = Inr i"
    and "hVersion h \<le> 4" and "hVersion g \<le> 4"
  shows "canonicalHeader h = canonicalHeader g
    \<or> (\<exists>a b. serializeErgoHeaderIdentity h = Inr a \<and> serializeErgoHeaderIdentity g = Inr b \<and> a \<noteq> b \<and> H a = H b)"
proof -
  from assms obtain a b where a: "serializeErgoHeaderIdentity h = Inr a" and b: "serializeErgoHeaderIdentity g = Inr b"
    and eq: "H a = H b" by (auto simp: computeErgoHeaderId_def result_simps)
  show ?thesis
  proof (cases "a = b")
    case True
    with a b assms(3,4) show ?thesis using serialize_canonical_inj by blast
  next
    case False
    with a b eq show ?thesis by blast
  qed
qed

text \<open>A header id commits to every field of the header: two headers of version 1 to 4 with the same id
  are the same canonical header, unless their two serializations are a collision of the hash function.\<close>

theorem headerId_binds:
  assumes "computeErgoHeaderId H h = Inr i" and "computeErgoHeaderId H g = Inr i"
    and "hVersion h \<le> 4" and "hVersion g \<le> 4"
  shows "canonicalHeader h = canonicalHeader g
    \<or> (\<exists>a b. serializeErgoHeaderIdentity h = Inr a \<and> serializeErgoHeaderIdentity g = Inr b \<and> a \<noteq> b \<and> H a = H b)"
  using assms by (rule headerId_collision)


section \<open>A header\<close>

definition demoHeader :: "bytes option \<Rightarrow> header" where
  "demoHeader u = \<lparr> hVersion = 2, hParentId = replicate 32 1, hAdProofsRoot = replicate 32 2,
     hStateRoot = replicate 33 3, hTransactionsRoot = replicate 32 4, hTimestamp = 1700000000000,
     hNBits = 117440512, hHeight = 900000, hExtensionHash = replicate 32 5, hVotes = [0, 0, 0],
     hUnparsedBytes = u, hPowSolution = \<lparr> publicKey = replicate 33 2, nonce = replicate 8 9,
       oneTimePublicKey = None, distance = None \<rparr> \<rparr>"

lemma demoHeader_serializes:
  "\<exists>bs. serializeErgoHeaderIdentity (demoHeader None) = Inr bs
      \<and> serializeErgoHeaderIdentity (demoHeader (Some [])) = Inr bs"
  by (simp add: serialize_iff withoutPow_iff fieldsOk_def powOk_def powBytes_def demoHeader_def header_consts)

text \<open>The unparsed bytes may be left out or given as an empty string: the id and the canonical header are
  the same.\<close>

theorem headerId_binds_witness:
  "canonicalHeader (demoHeader None) = canonicalHeader (demoHeader (Some []))"
proof -
  obtain bs where bs: "serializeErgoHeaderIdentity (demoHeader None) = Inr bs"
    "serializeErgoHeaderIdentity (demoHeader (Some [])) = Inr bs" using demoHeader_serializes by blast
  then have ids: "computeErgoHeaderId (take 32) (demoHeader None) = Inr (take 32 bs)"
    "computeErgoHeaderId (take 32) (demoHeader (Some [])) = Inr (take 32 bs)"
    by (simp_all add: computeErgoHeaderId_def)
  show ?thesis using headerId_binds [OF ids] bs by (auto simp: demoHeader_def)
qed

end
