(* ===== verification/Difficulty.thy ===== *)
theory Difficulty
  imports Header_Id
begin

text \<open>
  Ergo difficulty: the compact \<^verbatim>\<open>nBits\<close> form (\<^verbatim>\<open>decodeErgoCompactDifficulty\<close> and
  \<^verbatim>\<open>encodeErgoCompactDifficulty\<close> of \<^verbatim>\<open>ergo-settlement-core/ergo-autolykos-v2-header.ts\<close>) and the EIP-37
  recalculation (\<^verbatim>\<open>ergo-settlement-core/ergo-eip37-difficulty.ts\<close>).

  BigInt division truncates towards zero (\<open>tdiv\<close>); it differs from the mathematical floor only in the
  interpolation, where a slope can be negative.
\<close>

section \<open>Definitions\<close>

datatype diff_error =
    NotU32 string
  | CompactExceedsU256
  | DifficultyExceedsU256
  | NotEncodable
  | NotPositive string
  | HeaderHeight string
  | HeaderTimestamp string
  | BadActivationHeight
  | BadEpochLength
  | BadHistoryLength
  | TooManyContextHeaders
  | HistoryExceedsInt32
  | BadIntervalOrInitial
  | BadNextHeight
  | ProfileNotActive
  | DuplicateContextHeight int
  | MissingContextHeight int
  | ContextEndsElsewhere
  | TooFewHeaders
  | ContextSpacing
  | TimestampsNotIncreasing
  | NoPoints
  | BadPoint
  | DegenerateHeights

definition MAX_U256 :: int where "MAX_U256 = 2 ^ 256 - 1"
definition PRECISION :: int where "PRECISION = 1000000000"
definition MAX_CONTEXT_HEADERS :: int where "MAX_CONTEXT_HEADERS = 512"

definition unsignedU32 :: "int \<Rightarrow> string \<Rightarrow> diff_error + int" where
  "unsignedU32 value label =
     require (\<not> (\<not> isSafeInteger value \<or> value < 0 \<or> value > 0xffffffff)) (NotU32 label) (Inr value)"

definition decodeErgoCompactDifficulty :: "int \<Rightarrow> diff_error + int" where
  "decodeErgoCompactDifficulty nBits =
     andThen (unsignedU32 nBits ''compact difficulty nBits'') (\<lambda>compact.
     let size = nat (drop_bit 24 compact);
         mantissa = compact AND 0x007fffff;
         value = (if size \<le> 3 then drop_bit (8 * (3 - size)) mantissa
                  else push_bit (8 * (size - 3)) mantissa)
     in require (\<not> value > MAX_U256) CompactExceedsU256
          (Inr (if compact AND 0x00800000 = 0 then value else - value)))"

definition encodeErgoCompactDifficulty :: "int \<Rightarrow> diff_error + int" where
  "encodeErgoCompactDifficulty difficulty =
     (let negative = difficulty < 0; absolute = (if negative then - difficulty else difficulty) in
      if absolute = 0 then Inr 0
      else require (\<not> absolute > MAX_U256) DifficultyExceedsU256
        (let size0 = (length (hexStr (nat absolute)) + 1) div 2;
             compact0 = (if size0 \<le> 3 then push_bit (8 * (3 - size0)) absolute
                         else drop_bit (8 * (size0 - 3)) absolute);
             carry = compact0 AND 0x00800000 \<noteq> 0;
             compact1 = (if carry then drop_bit 8 compact0 else compact0);
             size = (if carry then size0 + 1 else size0);
             compact2 = compact1 OR push_bit 24 (int size);
             compact = (if negative then compact2 OR 0x00800000 else compact2)
         in require (\<not> compact > 0xffffffff) NotEncodable (Inr compact)))"

record diff_header =
  dHeight :: int
  dTimestamp :: int
  dNBits :: int

record eip37_profile =
  activationHeight :: int
  epochLength :: int
  useLastEpochs :: int
  desiredBlockIntervalMs :: int
  initialDifficulty :: int

definition positiveDifficulty :: "int \<Rightarrow> string \<Rightarrow> diff_error + int" where
  "positiveDifficulty nBits label =
     andThen (decodeErgoCompactDifficulty nBits) (\<lambda>difficulty.
     require (\<not> difficulty \<le> 0) (NotPositive label) (Inr difficulty))"

definition normalizeDifficulty :: "int \<Rightarrow> diff_error + int" where
  "normalizeDifficulty difficulty =
     andThen (encodeErgoCompactDifficulty difficulty) decodeErgoCompactDifficulty"

definition validateHeader :: "diff_header \<Rightarrow> string \<Rightarrow> diff_error + unit" where
  "validateHeader header label =
     require (\<not> (\<not> isSafeInteger (dHeight header) \<or> dHeight header < 0)) (HeaderHeight label)
     (require (\<not> dTimestamp header < 0) (HeaderTimestamp label)
     (andThen (positiveDifficulty (dNBits header) label) (\<lambda>_. Inr ())))"

text \<open>\<^verbatim>\<open>epochLength >= MAX_I32 / useLastEpochs\<close>: the quotient of a 31-bit number by one below 512 keeps
  its side of every integer when it is rounded, so the comparison is the one of the products.\<close>

definition validateProfile :: "eip37_profile \<Rightarrow> diff_error + unit" where
  "validateProfile profile =
     require (\<not> (\<not> isSafeInteger (activationHeight profile) \<or> activationHeight profile < 1
                \<or> activationHeight profile > MAX_I32)) BadActivationHeight
     (require (\<not> (\<not> isSafeInteger (epochLength profile) \<or> epochLength profile \<le> 1)) BadEpochLength
     (require (\<not> (\<not> isSafeInteger (useLastEpochs profile) \<or> useLastEpochs profile \<le> 1)) BadHistoryLength
     (require (\<not> useLastEpochs profile + 1 > MAX_CONTEXT_HEADERS) TooManyContextHeaders
     (require (\<not> epochLength profile * useLastEpochs profile \<ge> MAX_I32) HistoryExceedsInt32
     (require (\<not> (desiredBlockIntervalMs profile \<le> 0 \<or> initialDifficulty profile \<le> 0)) BadIntervalOrInitial
       (Inr ()))))))"

fun contextHeights :: "int \<Rightarrow> int \<Rightarrow> nat \<Rightarrow> int list" where
  "contextHeights parentHeight len 0 = (if parentHeight \<ge> 0 then [parentHeight] else [])"
| "contextHeights parentHeight len (Suc k) =
     (let height = parentHeight - int (Suc k) * len in
      (if height \<ge> 0 then [height] else []) @ contextHeights parentHeight len k)"

definition requiredEip37ContextHeights :: "int \<Rightarrow> eip37_profile \<Rightarrow> diff_error + int list" where
  "requiredEip37ContextHeights nextHeight profile =
     andThen (validateProfile profile) (\<lambda>_.
     require (\<not> (\<not> isSafeInteger nextHeight \<or> nextHeight < 1)) BadNextHeight
     (if (nextHeight - 1) mod epochLength profile \<noteq> 0 then Inr [nextHeight - 1]
      else Inr (contextHeights (nextHeight - 1) (epochLength profile) (nat (useLastEpochs profile)))))"

definition minimum :: "int \<Rightarrow> int \<Rightarrow> int" where
  "minimum left right = (if left < right then left else right)"

definition maximum :: "int \<Rightarrow> int \<Rightarrow> int" where
  "maximum left right = (if left > right then left else right)"

fun pointSums :: "int \<times> int \<times> int \<times> int \<times> int \<Rightarrow> (int \<times> int) list
    \<Rightarrow> diff_error + int \<times> int \<times> int \<times> int \<times> int" where
  "pointSums acc [] = Inr acc"
| "pointSums (xySum, xSquaredSum, ySum, xSum, maximumHeight) ((height, difficulty) # rest) =
     require (\<not> (\<not> isSafeInteger height \<or> height < 0 \<or> difficulty < 0)) BadPoint
       (pointSums (xySum + height * difficulty, xSquaredSum + height * height, ySum + difficulty,
                   xSum + height, max maximumHeight height) rest)"

definition interpolateDifficulty :: "(int \<times> int) list \<Rightarrow> int \<Rightarrow> diff_error + int" where
  "interpolateDifficulty points len =
     require (length points \<noteq> 0) NoPoints
     (require (\<not> (\<not> isSafeInteger len \<or> len \<le> 0)) BadEpochLength
     (if length points = 1 then Inr (snd (points ! 0))
      else let size = int (length points) in
        andThen (pointSums (0, 0, 0, 0, -1) points) (\<lambda>(xySum, xSquaredSum, ySum, xSum, maximumHeight).
        let denominator = xSquaredSum * size - xSum * xSum in
        require (denominator \<noteq> 0) DegenerateHeights
        (let slope = tdiv ((xySum * size - xSum * ySum) * PRECISION) denominator;
             intercept = tdiv (tdiv (ySum * PRECISION - slope * xSum) size) PRECISION;
             point = numberAdd maximumHeight len
         in Inr (intercept + tdiv (slope * point) PRECISION)))))"

definition calculateBitcoinDifficulty :: "diff_header list \<Rightarrow> eip37_profile \<Rightarrow> diff_error + int" where
  "calculateBitcoinDifficulty previousHeaders profile =
     (let start = previousHeaders ! (length previousHeaders - 2);
          end' = last previousHeaders;
          elapsed = dTimestamp end' - dTimestamp start in
      require (\<not> elapsed \<le> 0) TimestampsNotIncreasing
      (andThen (positiveDifficulty (dNBits end') ''last epoch difficulty'') (\<lambda>d.
       Inr (tdiv (d * desiredBlockIntervalMs profile * epochLength profile) elapsed))))"

fun epochPoints :: "eip37_profile \<Rightarrow> diff_header list \<Rightarrow> diff_error + (int \<times> int) list" where
  "epochPoints profile (start # end' # rest) =
     require (\<not> dHeight end' - dHeight start \<noteq> epochLength profile) ContextSpacing
     (let elapsed = dTimestamp end' - dTimestamp start in
      require (\<not> elapsed \<le> 0) TimestampsNotIncreasing
      (andThen (positiveDifficulty (dNBits end') ''epoch difficulty'') (\<lambda>d.
       let difficulty = tdiv (d * desiredBlockIntervalMs profile * epochLength profile) elapsed in
       andThen (epochPoints profile (end' # rest)) (\<lambda>points. Inr ((dHeight end', difficulty) # points)))))"
| "epochPoints profile headers = Inr []"

definition calculatePredictiveDifficulty :: "diff_header list \<Rightarrow> eip37_profile \<Rightarrow> diff_error + int" where
  "calculatePredictiveDifficulty previousHeaders profile =
     andThen (validateProfile profile) (\<lambda>_.
     require (length previousHeaders \<noteq> 0) TooFewHeaders
     (andThen (mapR (\<lambda>header. validateHeader header ''predictive difficulty header'') previousHeaders) (\<lambda>_.
      let first = previousHeaders ! 0; last' = last previousHeaders in
      andThen (if length previousHeaders = 1 \<or> dTimestamp first \<ge> dTimestamp last'
               then positiveDifficulty (dNBits first) ''first difficulty''
               else andThen (epochPoints profile previousHeaders) (\<lambda>points.
                    andThen (interpolateDifficulty points (epochLength profile)) (\<lambda>interpolated.
                    Inr (if interpolated \<ge> 1 then interpolated else initialDifficulty profile))))
        normalizeDifficulty)))"

definition calculateEip37Difficulty :: "diff_header list \<Rightarrow> eip37_profile \<Rightarrow> diff_error + int" where
  "calculateEip37Difficulty previousHeaders profile =
     andThen (validateProfile profile) (\<lambda>_.
     require (\<not> length previousHeaders < 2) TooFewHeaders
     (andThen (mapR (\<lambda>header. validateHeader header ''EIP-37 previous header'') previousHeaders) (\<lambda>_.
      andThen (positiveDifficulty (dNBits (last previousHeaders)) ''last difficulty'') (\<lambda>lastDifficulty.
      andThen (calculatePredictiveDifficulty previousHeaders profile) (\<lambda>predictive.
      let limitedPredictive = (if predictive > lastDifficulty
            then minimum predictive (tdiv (lastDifficulty * 3) 2)
            else maximum predictive (tdiv lastDifficulty 2)) in
      andThen (calculateBitcoinDifficulty previousHeaders profile) (\<lambda>classic.
      let average = tdiv (classic + limitedPredictive) 2;
          bounded = (if average > lastDifficulty
            then minimum average (tdiv (lastDifficulty * 3) 2)
            else maximum average (tdiv lastDifficulty 2))
      in normalizeDifficulty bounded))))))"

text \<open>The \<^verbatim>\<open>Map\<close> from heights to context headers, and the headers the recalculation asks for.\<close>

fun contextByHeight ::
  "(int \<rightharpoonup> diff_header) \<Rightarrow> diff_header list \<Rightarrow> diff_error + (int \<rightharpoonup> diff_header)" where
  "contextByHeight byHeight [] = Inr byHeight"
| "contextByHeight byHeight (header # rest) =
     andThen (validateHeader header ''EIP-37 context header'') (\<lambda>_.
     require (byHeight (dHeight header) = None) (DuplicateContextHeight (dHeight header))
       (contextByHeight (byHeight(dHeight header \<mapsto> header)) rest))"

definition expectedEip37Difficulty ::
  "diff_header \<Rightarrow> diff_header list \<Rightarrow> eip37_profile \<Rightarrow> diff_error + int" where
  "expectedEip37Difficulty parent context' profile =
     andThen (validateProfile profile) (\<lambda>_.
     andThen (validateHeader parent ''parent difficulty header'') (\<lambda>_.
     let nextHeight = dHeight parent + 1 in
     require (\<not> nextHeight < activationHeight profile) ProfileNotActive
     (if dHeight parent mod epochLength profile \<noteq> 0
      then positiveDifficulty (dNBits parent) ''parent difficulty''
      else andThen (requiredEip37ContextHeights nextHeight profile) (\<lambda>expectedHeights.
           andThen (contextByHeight Map.empty context') (\<lambda>byHeight.
           andThen (mapR (\<lambda>height. case byHeight height of None \<Rightarrow> Inl (MissingContextHeight height)
                                                         | Some header \<Rightarrow> Inr header) expectedHeights) (\<lambda>headers.
           require (headers \<noteq> [] \<and> dHeight (last headers) = dHeight parent) ContextEndsElsewhere
             (calculateEip37Difficulty headers profile)))))))"


section \<open>The compact form\<close>

lemma pow8: "(2::int) ^ (8 * k) = 256 ^ k"
  by (simp add: power_mult)

lemma shift_bytes: "push_bit (8 * k) (x::int) = x * 256 ^ k" "drop_bit (8 * k) (x::int) = x div 256 ^ k"
  by (simp_all add: push_bit_eq_mult drop_bit_eq_div power_mult)

lemma hexNum_less: "list_all isLowerHexChar s \<Longrightarrow> hexNum s < 16 ^ length s"
proof (induction s rule: rev_induct)
  case (snoc c s)
  then obtain x where x: "hexVal c = Some x" using lowerHex_isHex [of c] by (auto simp: isHexChar_def)
  from hexVal_bound [OF x] x snoc show ?case by (simp add: hexNum_snoc)
qed (simp add: hexNum_def)

lemma length_hexStr_lower: "0 < v \<Longrightarrow> 16 ^ (length (hexStr v) - 1) \<le> v"
proof (induction v rule: hexStr.induct)
  case (1 v)
  show ?case
  proof (cases "v < 16")
    case True
    with "1.prems" show ?thesis by (simp add: hexStr.simps [of v])
  next
    case False
    then have ih: "16 ^ (length (hexStr (v div 16)) - 1) \<le> v div 16" using "1.IH" by simp
    have ne: "0 < length (hexStr (v div 16))" by (subst hexStr.simps) simp
    have "16 ^ length (hexStr (v div 16)) = 16 * (16::nat) ^ (length (hexStr (v div 16)) - 1)"
      using ne by (cases "length (hexStr (v div 16))") auto
    also have "\<dots> \<le> 16 * (v div 16)" using ih by simp
    also have "\<dots> \<le> v" by simp
    finally show ?thesis using False by (simp add: hexStr.simps [of v])
  qed
qed

definition byteSize :: "int \<Rightarrow> nat" where
  "byteSize d = (length (hexStr (nat d)) + 1) div 2"

lemma byteSize_unique:
  assumes "256 ^ k \<le> d" and "d < 256 ^ Suc k"
  shows "byteSize d = Suc k"
proof -
  let ?L = "length (hexStr (nat d))"
  have pos: "0 < d" using assms(1) by (metis less_le_trans zero_less_numeral zero_less_power)
  have up: "nat d < 16 ^ (2 * Suc k)" using assms(2) pos by (simp add: nat_less_iff power_mult)
  then have le: "?L \<le> 2 * Suc k" by (intro length_hexStr) auto
  have lower: "(16::nat) ^ (?L - 1) \<le> nat d" using pos by (intro length_hexStr_lower) simp
  have "\<not> ?L \<le> 2 * k"
  proof
    assume "?L \<le> 2 * k"
    have "0 < ?L" by (subst hexStr.simps) simp
    have "nat d < 16 ^ ?L" using hexNum_less [of "hexStr (nat d)"] hexStr_lowerHex by (simp add: hexNum_hexStr)
    also have "\<dots> \<le> 16 ^ (2 * k)" using \<open>?L \<le> 2 * k\<close> by (intro power_increasing) auto
    finally have "d < 256 ^ k" using pos by (simp add: nat_less_iff power_mult)
    with assms(1) show False by simp
  qed
  with le show ?thesis by (auto simp: byteSize_def)
qed

lemma byteSize_bounds:
  assumes "0 < d"
  shows "\<exists>k. byteSize d = Suc k \<and> 256 ^ k \<le> d \<and> d < 256 ^ Suc k"
proof -
  have "int (nat d) < int (2 ^ nat d)" by (simp only: of_nat_less_iff less_exp)
  then have "d < 2 ^ nat d" using assms by simp
  also have "\<dots> \<le> (256::int) ^ nat d" by (intro power_mono) auto
  finally obtain n where "d < 256 ^ n" by blast
  define k where "k = (LEAST n. d < 256 ^ n) - 1"
  have l: "d < 256 ^ (LEAST n. d < (256::int) ^ n)" using \<open>d < 256 ^ n\<close> by (rule LeastI)
  have "(LEAST n. d < (256::int) ^ n) \<noteq> 0" using l assms by (auto intro: ccontr)
  then have k: "(LEAST n. d < (256::int) ^ n) = Suc k" by (simp add: k_def)
  then have "\<not> d < 256 ^ k" using not_less_Least [of k "\<lambda>n. d < (256::int) ^ n"] by simp
  with l k show ?thesis using byteSize_unique [of k d] by auto
qed


lemma and_bit23: "0 \<le> x \<Longrightarrow> x < 2 ^ 24 \<Longrightarrow> x AND 0x00800000 = 0 \<longleftrightarrow> x < (2::int) ^ 23"
proof -
  assume x: "0 \<le> x" "x < 2 ^ 24"
  then have "0 \<le> x div 2 ^ 23" "x div 2 ^ 23 < 2" by auto
  then have "x div 2 ^ 23 = 0 \<or> x div 2 ^ 23 = 1" by linarith
  moreover have "x AND 0x00800000 = 0 \<longleftrightarrow> even (x div 2 ^ 23)"
    using and_exp_eq_0_iff_not_bit [of x 23] by (simp add: bit_iff_odd)
  ultimately show ?thesis using x by (auto simp: div_eq_0_iff)
qed

text \<open>Decoding a mantissa without the sign bit.\<close>

definition compactValue :: "int \<Rightarrow> nat \<Rightarrow> int" where
  "compactValue m sz = (if sz \<le> 3 then m div 256 ^ (3 - sz) else m * 256 ^ (sz - 3))"

lemma decode_compact:
  assumes m: "0 \<le> m" "m < 2 ^ 23" and sz: "sz < 2 ^ 8" and fits: "compactValue m sz \<le> MAX_U256"
  shows "decodeErgoCompactDifficulty (m + int sz * 2 ^ 24) = Inr (compactValue m sz)"
proof -
  let ?c = "m + int sz * 2 ^ 24"
  have range: "0 \<le> ?c" "?c \<le> 0xffffffff" using m sz by auto
  have "drop_bit 24 ?c = int sz" using m by (simp add: drop_bit_eq_div)
  moreover have mask: "?c AND 0x007fffff = m"
  proof -
    have c: "?c = m + 2 * int sz * 2 ^ 23" by simp
    have "?c AND mask 23 = ?c mod 2 ^ 23" by (simp add: take_bit_eq_mod flip: take_bit_eq_mask)
    also have "\<dots> = m" using m by (simp only: c mod_mult_self1 mod_pos_pos_trivial)
    finally show ?thesis by (simp add: mask_eq_exp_minus_1)
  qed
  moreover have "?c AND 0x00800000 = 0"
  proof -
    have "?c div 2 ^ 23 = 2 * int sz" using m by simp
    then show ?thesis using and_exp_eq_0_iff_not_bit [of ?c 23] by (simp add: bit_iff_odd)
  qed
  ultimately show ?thesis
    using range sz fits
    by (auto simp: decodeErgoCompactDifficulty_def unsignedU32_def safe_defs Let_def shift_bytes compactValue_def
        require_def)
qed

text \<open>The three leading bytes of a value, and the mantissa and size the encoder chooses.\<close>

definition leading :: "int \<Rightarrow> int" where
  "leading d = (if byteSize d \<le> 3 then d * 256 ^ (3 - byteSize d) else d div 256 ^ (byteSize d - 3))"

definition mantissa :: "int \<Rightarrow> int" where
  "mantissa d = (if leading d < 2 ^ 23 then leading d else leading d div 256)"

definition compactSize :: "int \<Rightarrow> nat" where
  "compactSize d = (if leading d < 2 ^ 23 then byteSize d else byteSize d + 1)"

lemma pow256_split: "n = a + b \<Longrightarrow> (256::int) ^ n = 256 ^ a * 256 ^ b"
  by (simp add: power_add)

lemma zle_div_iff: "0 < g \<Longrightarrow> (q::int) \<le> d div g \<longleftrightarrow> q * g \<le> d"
proof
  assume g: "0 < g" and q: "q \<le> d div g"
  have "q * g \<le> d div g * g" using g q by (intro mult_right_mono) auto
  also have "\<dots> \<le> d" using g by (simp add: minus_mod_eq_div_mult [symmetric])
  finally show "q * g \<le> d" .
next
  assume g: "0 < g" and "q * g \<le> d"
  then show "q \<le> d div g" using zdiv_mono1 [of "q * g" d g] by simp
qed

lemma div_less_of: "0 < g \<Longrightarrow> d < (q::int) * g \<Longrightarrow> d div g < q"
  using zle_div_iff [of g q d] by linarith

lemma leading_bounds:
  assumes "0 < d"
  shows "2 ^ 16 \<le> leading d" and "leading d < 2 ^ 24"
proof -
  obtain k where k: "byteSize d = Suc k" "256 ^ k \<le> d" "d < 256 ^ Suc k" using byteSize_bounds [OF assms] by blast
  show "2 ^ 16 \<le> leading d"
  proof (cases "k \<le> 2")
    case True
    then have "(256::int) ^ 2 = 256 ^ k * 256 ^ (2 - k)" by (simp flip: power_add)
    also have "\<dots> \<le> d * 256 ^ (2 - k)" using k by (intro mult_right_mono) auto
    finally show ?thesis using True by (simp add: leading_def k)
  next
    case False
    then have "(256::int) ^ k = 256 ^ 2 * 256 ^ (k - 2)" by (intro pow256_split) auto
    with k have "256 ^ 2 * 256 ^ (k - 2) \<le> d" by simp
    then have "256 ^ 2 \<le> d div 256 ^ (k - 2)" by (simp add: zle_div_iff)
    then show ?thesis using False by (simp add: leading_def k)
  qed
  show "leading d < 2 ^ 24"
  proof (cases "k \<le> 2")
    case True
    have "d * 256 ^ (2 - k) < 256 ^ Suc k * 256 ^ (2 - k)" using k by (intro mult_strict_right_mono) auto
    also have "\<dots> = 256 ^ 3" using True by (simp flip: power_add power_Suc)
    finally show ?thesis using True by (simp add: leading_def k)
  next
    case False
    then have "(256::int) ^ Suc k = 256 ^ 3 * 256 ^ (k - 2)" by (intro pow256_split) auto
    with k have "d < 256 ^ 3 * 256 ^ (k - 2)" by simp
    then have "d div 256 ^ (k - 2) < 256 ^ 3" by (simp add: div_less_of)
    then show ?thesis using False by (simp add: leading_def k)
  qed
qed

lemma mantissa_bounds:
  assumes "0 < d"
  shows "2 ^ 15 \<le> mantissa d" and "mantissa d < 2 ^ 23"
  using leading_bounds [OF assms] by (auto simp: mantissa_def)

lemma byteSize_max: "0 < d \<Longrightarrow> d \<le> MAX_U256 \<Longrightarrow> byteSize d \<le> 32"
proof -
  assume d: "0 < d" "d \<le> MAX_U256"
  obtain k where k: "byteSize d = Suc k" "256 ^ k \<le> d" using byteSize_bounds [OF d(1)] by blast
  have "(256::int) ^ k < 256 ^ 32" using k d by (simp add: MAX_U256_def)
  then have "k < 32" by (rule power_less_imp_less_exp [rotated]) simp
  with k show ?thesis by simp
qed

lemma encode_compact:
  assumes "0 < d" and "d \<le> MAX_U256"
  shows "encodeErgoCompactDifficulty d = Inr (mantissa d + int (compactSize d) * 2 ^ 24)"
proof -
  have lead: "(if byteSize d \<le> 3 then push_bit (8 * (3 - byteSize d)) d else drop_bit (8 * (byteSize d - 3)) d)
      = leading d" by (simp add: leading_def shift_bytes)
  have carry: "leading d AND 0x00800000 \<noteq> 0 \<longleftrightarrow> \<not> leading d < 2 ^ 23"
    using and_bit23 [of "leading d"] leading_bounds [OF assms(1)] by auto
  have m: "0 \<le> mantissa d" "mantissa d < 2 ^ 23" using mantissa_bounds [OF assms(1)] by auto
  have sz: "compactSize d \<le> 33" using byteSize_max [OF assms] by (simp add: compactSize_def)
  have or: "mantissa d OR push_bit 24 (int (compactSize d)) = mantissa d + int (compactSize d) * 2 ^ 24"
    using m by (intro or_push_bit) auto
  have fits: "\<not> mantissa d + int (compactSize d) * 2 ^ 24 > 0xffffffff" using m sz by auto
  have abs: "(if d < 0 then - d else d) = d" using assms by simp
  have drop8: "drop_bit 8 (leading d) = leading d div 256" by (simp add: drop_bit_eq_div)
  show ?thesis
    unfolding encodeErgoCompactDifficulty_def Let_def abs byteSize_def [symmetric] lead
    using assms fits or by (cases "leading d < 2 ^ 23") (simp_all add: carry drop8 mantissa_def compactSize_def)
qed


definition rounded :: "int \<Rightarrow> int" where
  "rounded d = compactValue (mantissa d) (compactSize d)"

text \<open>Rounding clears the bytes below the mantissa.\<close>

lemma rounded_cases:
  assumes "0 < d"
  shows "compactSize d \<le> 3 \<and> rounded d = d
    \<or> 3 < compactSize d \<and> mantissa d = d div 256 ^ (compactSize d - 3)
      \<and> rounded d = mantissa d * 256 ^ (compactSize d - 3)"
proof (cases "leading d < 2 ^ 23")
  case True
  then have sz: "compactSize d = byteSize d" "mantissa d = leading d" by (simp_all add: compactSize_def mantissa_def)
  show ?thesis by (cases "byteSize d \<le> 3") (simp_all add: rounded_def compactValue_def sz leading_def)
next
  case False
  then have sz: "compactSize d = byteSize d + 1" "mantissa d = leading d div 256"
    by (simp_all add: compactSize_def mantissa_def)
  consider "byteSize d \<le> 2" | "byteSize d = 3" | "3 < byteSize d" by linarith
  then show ?thesis
  proof cases
    case 1
    then have "3 - byteSize d = Suc (2 - byteSize d)" by simp
    then have "leading d = d * 256 ^ (2 - byteSize d) * 256" using 1 by (simp add: leading_def)
    moreover have "3 - (byteSize d + 1) = 2 - byteSize d" by simp
    ultimately show ?thesis using 1 by (simp only: rounded_def compactValue_def sz) simp
  next
    case 2
    then show ?thesis by (simp add: rounded_def compactValue_def sz leading_def)
  next
    case 3
    have "byteSize d + 1 - 3 = Suc (byteSize d - 3)" using 3 by simp
    then have "leading d div 256 = d div 256 ^ (byteSize d + 1 - 3)"
      using 3 by (simp add: leading_def zdiv_zmult2_eq [symmetric] mult.commute)
    with 3 show ?thesis by (simp add: rounded_def compactValue_def sz)
  qed
qed

lemma rounded_close:
  assumes "0 < d"
  shows "0 < rounded d" and "rounded d \<le> d" and "(d - rounded d) * 2 ^ 15 \<le> rounded d"
proof -
  have "0 < rounded d \<and> rounded d \<le> d \<and> (d - rounded d) * 2 ^ 15 \<le> rounded d"
    using rounded_cases [OF assms]
  proof
    assume "3 < compactSize d \<and> mantissa d = d div 256 ^ (compactSize d - 3)
      \<and> rounded d = mantissa d * 256 ^ (compactSize d - 3)"
    then obtain g where g: "0 < g" "rounded d = d div g * g" "mantissa d = d div g" by (metis zero_less_numeral zero_less_power)
    have m: "2 ^ 15 \<le> d div g" using mantissa_bounds(1) [OF assms] g(3) by simp
    have eq: "d - rounded d = d mod g" by (simp add: g(2) minus_div_mult_eq_mod)
    have "(d mod g) * 2 ^ 15 \<le> g * (d div g)"
      using m g(1) by (intro mult_mono) (auto intro: less_imp_le)
    moreover have "0 < d div g * g" using m g(1) by (intro mult_pos_pos) auto
    moreover have "0 \<le> d mod g" using g(1) by simp
    ultimately show ?thesis using eq g(2) by (simp add: mult.commute)
  qed (use assms in simp)
  then show "0 < rounded d" "rounded d \<le> d" "(d - rounded d) * 2 ^ 15 \<le> rounded d" by auto
qed

lemma normalize_rounded:
  assumes "0 < d" and "d \<le> MAX_U256"
  shows "normalizeDifficulty d = Inr (rounded d)"
proof -
  have "decodeErgoCompactDifficulty (mantissa d + int (compactSize d) * 2 ^ 24) = Inr (rounded d)"
    unfolding rounded_def
  proof (rule decode_compact)
    show "0 \<le> mantissa d" "mantissa d < 2 ^ 23" using mantissa_bounds [OF assms(1)] by auto
    show "compactSize d < 2 ^ 8" using byteSize_max [OF assms] by (simp add: compactSize_def)
    show "compactValue (mantissa d) (compactSize d) \<le> MAX_U256"
      using rounded_close(2) [OF assms(1)] assms(2) by (simp add: rounded_def)
  qed
  then show ?thesis by (simp add: normalizeDifficulty_def encode_compact [OF assms])
qed

text \<open>A value that already has the shape of a rounded one keeps its mantissa and size.\<close>

lemma compact_stable:
  assumes m: "2 ^ 15 \<le> m" "m < 2 ^ 23" and sz: "3 < sz"
  shows "mantissa (m * 256 ^ (sz - 3)) = m \<and> compactSize (m * 256 ^ (sz - 3)) = sz"
proof -
  let ?n = "m * 256 ^ (sz - 3)"
  show ?thesis
  proof (cases "m < 2 ^ 16")
    case False
    have "byteSize ?n = Suc (sz - 1)"
    proof (rule byteSize_unique)
      have "(256::int) ^ (sz - 1) = 256 ^ 2 * 256 ^ (sz - 3)" using sz by (intro pow256_split) auto
      also have "\<dots> \<le> ?n" using False by (intro mult_right_mono) auto
      finally show "256 ^ (sz - 1) \<le> ?n" .
      have "?n < 256 ^ 3 * 256 ^ (sz - 3)" using m by (intro mult_strict_right_mono) auto
      also have "\<dots> = 256 ^ Suc (sz - 1)" using sz by (intro pow256_split [symmetric]) auto
      finally show "?n < 256 ^ Suc (sz - 1)" .
    qed
    then have "byteSize ?n = sz" using sz by simp
    moreover from this have "leading ?n = m" using sz by (simp add: leading_def)
    ultimately show ?thesis using m by (simp add: mantissa_def compactSize_def)
  next
    case True
    have "byteSize ?n = Suc (sz - 2)"
    proof (rule byteSize_unique)
      have "(256::int) ^ (sz - 2) = 256 ^ 1 * 256 ^ (sz - 3)" using sz by (intro pow256_split) auto
      also have "\<dots> \<le> ?n" using m by (intro mult_right_mono) auto
      finally show "256 ^ (sz - 2) \<le> ?n" .
      have "?n < 256 ^ 2 * 256 ^ (sz - 3)" using True by (intro mult_strict_right_mono) auto
      also have "\<dots> = 256 ^ Suc (sz - 2)" using sz by (intro pow256_split [symmetric]) auto
      finally show "?n < 256 ^ Suc (sz - 2)" .
    qed
    then have s: "byteSize ?n = sz - 1" using sz by simp
    have "leading ?n = m * 256"
    proof (cases "sz = 4")
      case False
      then have "(256::int) ^ (sz - 3) = 256 * 256 ^ (sz - 4)" using sz by (simp flip: power_Suc)
      then show ?thesis using False sz s by (simp add: leading_def)
    next
      case True
      with s show ?thesis by (simp add: leading_def)
    qed
    then show ?thesis using m s sz by (simp add: mantissa_def compactSize_def)
  qed
qed

lemma rounded_rounded: "0 < d \<Longrightarrow> rounded (rounded d) = rounded d"
proof -
  assume d: "0 < d"
  from rounded_cases [OF d] show ?thesis
  proof
    assume r: "3 < compactSize d \<and> mantissa d = d div 256 ^ (compactSize d - 3)
      \<and> rounded d = mantissa d * 256 ^ (compactSize d - 3)"
    then have "mantissa (rounded d) = mantissa d \<and> compactSize (rounded d) = compactSize d"
      using compact_stable [OF mantissa_bounds [OF d]] by simp
    then show ?thesis by (simp add: rounded_def)
  qed auto
qed


text \<open>Normalizing a difficulty through its compact form never raises it, loses at most one part in
  \<open>2 ^ 15\<close>, keeps it positive, and is idempotent: a normalized difficulty encodes to the \<^verbatim>\<open>nBits\<close> it was
  decoded from.\<close>

theorem normalizeDifficulty_spec:
  assumes "0 < d" and "d \<le> MAX_U256"
  shows "\<exists>n. normalizeDifficulty d = Inr n \<and> 0 < n \<and> n \<le> d \<and> (d - n) * 2 ^ 15 \<le> n
    \<and> normalizeDifficulty n = Inr n \<and> encodeErgoCompactDifficulty n = encodeErgoCompactDifficulty d"
proof (intro exI conjI)
  note r = rounded_close [OF assms(1)]
  have n: "0 < rounded d" "rounded d \<le> MAX_U256" using r assms(2) by auto
  show "normalizeDifficulty d = Inr (rounded d)" using assms by (rule normalize_rounded)
  show "0 < rounded d" "rounded d \<le> d" "(d - rounded d) * 2 ^ 15 \<le> rounded d" by (fact r)+
  show "normalizeDifficulty (rounded d) = Inr (rounded d)"
    using normalize_rounded [OF n] rounded_rounded [OF assms(1)] by simp
  show "encodeErgoCompactDifficulty (rounded d) = encodeErgoCompactDifficulty d"
    unfolding encode_compact [OF n] encode_compact [OF assms]
    using rounded_cases [OF assms(1)] compact_stable [OF mantissa_bounds [OF assms(1)]] by auto
qed

theorem normalizeDifficulty_spec_witness:
  "\<exists>n. normalizeDifficulty 0x123456789a = Inr n \<and> 0 < n \<and> n \<le> 0x123456789a
    \<and> normalizeDifficulty n = Inr n"
  using normalizeDifficulty_spec [of "0x123456789a"] by (auto simp: MAX_U256_def)


section \<open>Recalculation\<close>

lemma normalize_zero: "normalizeDifficulty 0 = Inr 0"
  by (simp add: normalizeDifficulty_def encodeErgoCompactDifficulty_def decodeErgoCompactDifficulty_def
      unsignedU32_def safe_defs MAX_U256_def)

lemma normalize_Inr:
  assumes "normalizeDifficulty d = Inr n" and "0 \<le> d"
  shows "n \<le> d \<and> d \<le> n + n div 2 ^ 15 \<and> 0 \<le> n \<and> (0 < d \<longrightarrow> 0 < n)"
proof (cases "d = 0")
  case False
  with assms have d: "0 < d" "d \<le> MAX_U256"
    by (auto simp: normalizeDifficulty_def encodeErgoCompactDifficulty_def result_simps Let_def)
  then have n: "n = rounded d" using assms(1) by (simp add: normalize_rounded)
  note r = rounded_close [OF d(1)]
  have "d - n \<le> n div 2 ^ 15" using r(3) by (simp only: n zle_div_iff zero_less_power zero_less_numeral)
  then show ?thesis using r(1,2) n by simp
qed (use assms normalize_zero in auto)

lemma positiveDifficulty_iff:
  "positiveDifficulty c label = Inr d \<longleftrightarrow> decodeErgoCompactDifficulty c = Inr d \<and> 0 < d"
  by (auto simp: positiveDifficulty_def result_simps)

lemma predictive_positive:
  assumes "calculatePredictiveDifficulty hs prof = Inr p"
  shows "0 < p"
proof -
  from assms obtain x where n: "normalizeDifficulty x = Inr p" and x: "0 < x"
    by (auto simp: calculatePredictiveDifficulty_def validateProfile_def result_simps Let_def
        positiveDifficulty_iff split: if_splits)
  from normalize_Inr [OF n] x show ?thesis by simp
qed

lemma bitcoin_nonneg:
  assumes "validateProfile prof = Inr ()" and "calculateBitcoinDifficulty hs prof = Inr c"
  shows "0 \<le> c"
  using assms
  by (auto simp: calculateBitcoinDifficulty_def validateProfile_def result_simps Let_def positiveDifficulty_iff
      tdiv_nonneg pos_imp_zdiv_nonneg_iff)

definition limited :: "int \<Rightarrow> int \<Rightarrow> int" where
  "limited x l = (if x > l then minimum x (tdiv (l * 3) 2) else maximum x (tdiv l 2))"

lemma limited_range: "0 < l \<Longrightarrow> 0 \<le> x \<Longrightarrow> l div 2 \<le> limited x l \<and> limited x l \<le> l * 3 div 2"
  by (auto simp: limited_def minimum_def maximum_def tdiv_nonneg)

lemma eip37_cases:
  assumes "calculateEip37Difficulty hs prof = Inr r" and "decodeErgoCompactDifficulty (dNBits (last hs)) = Inr l"
  obtains a where "0 \<le> a" and "normalizeDifficulty (limited a l) = Inr r" and "0 < l"
proof -
  from assms obtain p c where v: "validateProfile prof = Inr ()" and l: "0 < l"
    and p: "calculatePredictiveDifficulty hs prof = Inr p" and c: "calculateBitcoinDifficulty hs prof = Inr c"
    and r: "normalizeDifficulty (limited (tdiv (c + limited p l) 2) l) = Inr r"
    by (auto simp: calculateEip37Difficulty_def result_simps Let_def positiveDifficulty_iff limited_def)
  have "0 \<le> limited p l" using limited_range [OF l, of p] predictive_positive [OF p] l by auto
  moreover have "0 \<le> c" using v c by (rule bitcoin_nonneg)
  ultimately have "0 \<le> tdiv (c + limited p l) 2" by (simp add: tdiv_nonneg)
  with that r l show ?thesis by blast
qed

text \<open>C36. A recalculated difficulty moves by at most half of the last one: it is at most three halves of
  it, at least half of it up to the rounding of the compact form, and it stays positive unless the last
  difficulty was 1.\<close>

theorem eip37_step_bounded:
  assumes "calculateEip37Difficulty hs prof = Inr r"
    and "decodeErgoCompactDifficulty (dNBits (last hs)) = Inr l"
  shows "r \<le> l * 3 div 2 \<and> l div 2 \<le> r + r div 2 ^ 15 \<and> (2 \<le> l \<longrightarrow> 0 < r)"
proof -
  from assms obtain a where a: "0 \<le> a" and n: "normalizeDifficulty (limited a l) = Inr r" and l: "0 < l"
    by (rule eip37_cases)
  have b: "l div 2 \<le> limited a l" "limited a l \<le> l * 3 div 2" using limited_range [OF l a] by auto
  moreover from this l have "0 \<le> limited a l" by linarith
  ultimately show ?thesis using normalize_Inr [OF n] by auto
qed


section \<open>Steady state\<close>

text \<open>The denominator of the interpolation is a sum of squared differences.\<close>

definition spread :: "int list \<Rightarrow> int" where
  "spread xs = sum_list (map (\<lambda>x. x * x) xs) * int (length xs) - sum_list xs * sum_list xs"

lemma sum_sq_diff:
  "sum_list (map (\<lambda>x. (x - y) * (x - y)) xs)
     = sum_list (map (\<lambda>x. x * x) xs) - 2 * y * sum_list xs + int (length xs) * y * (y::int)"
  by (induction xs) (auto simp: algebra_simps)

lemma spread_Cons: "spread (y # xs) = spread xs + sum_list (map (\<lambda>x. (x - y) * (x - y)) xs)"
  unfolding sum_sq_diff by (simp add: spread_def algebra_simps)

lemma spread_nonneg: "0 \<le> spread xs"
proof (induction xs)
  case (Cons y xs)
  have "0 \<le> sum_list (map (\<lambda>x. (x - y) * (x - y)) xs)" by (induction xs) auto
  with Cons show ?case by (simp add: spread_Cons)
qed (simp add: spread_def)

lemma spread_pos: "x \<noteq> y \<Longrightarrow> 0 < spread (y # x # xs)"
proof -
  assume "x \<noteq> y"
  then have "0 < (x - y) * (x - y)" by (simp add: zero_less_mult_iff) linarith
  moreover have "0 \<le> sum_list (map (\<lambda>x. (x - y) * (x - y)) xs)" by (induction xs) auto
  ultimately show ?thesis using spread_nonneg [of "x # xs"] by (simp add: spread_Cons [of y])
qed

lemma pointSums_constant:
  assumes "0 \<le> D" and "\<forall>h \<in> set hs. isSafeInteger h \<and> 0 \<le> h"
  shows "\<exists>m'. pointSums (a, b, c, e, m) (map (\<lambda>h. (h, D)) hs) =
     Inr (a + sum_list hs * D, b + sum_list (map (\<lambda>x. x * x) hs), c + int (length hs) * D, e + sum_list hs, m')"
  using assms(2)
proof (induction hs arbitrary: a b c e m)
  case (Cons h hs)
  from Cons.prems have h: "\<not> (\<not> isSafeInteger h \<or> h < 0 \<or> D < 0)" using assms(1) by simp
  from Cons.IH [of "a + h * D" "b + h * h" "c + D" "e + h" "max m h"] Cons.prems h
  show ?case by (simp add: algebra_simps)
qed simp

lemma tdiv_zero [simp]: "tdiv 0 x = 0"
  by (simp add: tdiv_def)

text \<open>A straight line through points of one difficulty is flat.\<close>

lemma interpolate_constant:
  assumes D: "0 \<le> D" and hs: "\<forall>h \<in> set hs. isSafeInteger h \<and> 0 \<le> h" and len: "isSafeInteger len" "0 < len"
    and ne: "hs \<noteq> []" and dist: "distinct hs"
  shows "interpolateDifficulty (map (\<lambda>h. (h, D)) hs) len = Inr D"
proof (cases "length hs = 1")
  case True
  then obtain h where "hs = [h]" by (auto simp: length_Suc_conv)
  then show ?thesis using len by (simp add: interpolateDifficulty_def)
next
  case False
  then obtain y x r where r: "hs = y # x # r" using ne by (cases hs; cases "tl hs") auto
  have den: "sum_list (map (\<lambda>x. x * x) hs) * int (length hs) - sum_list hs * sum_list hs \<noteq> 0"
    using spread_pos [of x y r] dist by (simp add: r spread_def)
  obtain m where m: "pointSums (0, 0, 0, 0, -1) (map (\<lambda>h. (h, D)) hs) = Inr (sum_list hs * D,
      sum_list (map (\<lambda>x. x * x) hs), int (length hs) * D, sum_list hs, m)"
    using pointSums_constant [OF D hs, of 0 0 0 0 "-1"] by auto
  have zero: "(sum_list hs * D * int (length hs) - sum_list hs * (int (length hs) * D)) * PRECISION = 0" by simp
  have "tdiv (tdiv (int (length hs) * D * PRECISION - 0) (int (length hs))) PRECISION = D"
    using D ne by (simp add: tdiv_nonneg PRECISION_def mult.assoc)
  then show ?thesis
    unfolding interpolateDifficulty_def Let_def length_map using False ne len den
    by (simp add: m zero)
qed

text \<open>Headers an epoch apart in height and time, all with the same \<^verbatim>\<open>nBits\<close>.\<close>

definition steadyHeader :: "eip37_profile \<Rightarrow> int \<Rightarrow> int \<Rightarrow> int \<Rightarrow> nat \<Rightarrow> diff_header" where
  "steadyHeader prof h t c i = \<lparr> dHeight = h + int i * epochLength prof,
     dTimestamp = t + int i * (desiredBlockIntervalMs prof * epochLength prof), dNBits = c \<rparr>"

definition steadyHeaders :: "eip37_profile \<Rightarrow> int \<Rightarrow> int \<Rightarrow> int \<Rightarrow> nat \<Rightarrow> diff_header list" where
  "steadyHeaders prof h t c n = map (steadyHeader prof h t c) [0..<n]"

lemma epochPoints_steady:
  assumes prof: "validateProfile prof = Inr ()" and c: "decodeErgoCompactDifficulty c = Inr D" "0 < D"
  shows "epochPoints prof (map (steadyHeader prof h t c) [k..<k + Suc n])
     = Inr (map (\<lambda>i. (h + int i * epochLength prof, D)) [Suc k..<Suc k + n])"
proof (induction n arbitrary: k)
  case 0
  then show ?case by simp
next
  case (Suc n)
  have pos: "0 < epochLength prof" "0 < desiredBlockIntervalMs prof"
    using prof by (auto simp: validateProfile_def result_simps)
  let ?s = "steadyHeader prof h t c" and ?e = "desiredBlockIntervalMs prof * epochLength prof"
  define R where "R = [Suc (Suc k)..<Suc (Suc k) + n]"
  have upt: "[k..<k + Suc (Suc n)] = k # Suc k # R" "[Suc k..<Suc k + Suc n] = Suc k # R"
    by (simp_all add: upt_rec R_def)
  have ih: "epochPoints prof (?s (Suc k) # map ?s R) = Inr (map (\<lambda>i. (h + int i * epochLength prof, D)) R)"
    using Suc [of "Suc k"] by (simp only: upt(2) list.map R_def [symmetric])
  have el: "dTimestamp (?s (Suc k)) - dTimestamp (?s k) = ?e" "0 < ?e"
    using pos by (simp_all add: steadyHeader_def algebra_simps)
  have "tdiv (D * desiredBlockIntervalMs prof * epochLength prof) ?e = D"
    using c(2) pos by (simp add: tdiv_nonneg mult.assoc)
  moreover have "dHeight (?s (Suc k)) - dHeight (?s k) = epochLength prof"
    by (simp add: steadyHeader_def algebra_simps)
  moreover have "positiveDifficulty (dNBits (?s (Suc k))) lb = Inr D" for lb
    using c by (simp add: steadyHeader_def positiveDifficulty_iff)
  moreover have "dHeight (?s (Suc k)) = h + int (Suc k) * epochLength prof" by (simp add: steadyHeader_def)
  ultimately show ?case
    unfolding upt list.map epochPoints.simps Let_def using el ih by simp
qed

lemma steady_state:
  assumes prof: "validateProfile prof = Inr ()" and n: "2 \<le> n" and h: "0 \<le> h" and t: "0 \<le> t"
    and safe: "isSafeInteger (h + int n * epochLength prof)"
    and c: "decodeErgoCompactDifficulty c = Inr D" "0 < D" "encodeErgoCompactDifficulty D = Inr c"
  shows "calculateEip37Difficulty (steadyHeaders prof h t c n) prof = Inr D"
proof -
  let ?hs = "steadyHeaders prof h t c n" and ?e = "epochLength prof"
  have pos: "0 < ?e" "0 < desiredBlockIntervalMs prof" "isSafeInteger ?e"
    using prof by (auto simp: validateProfile_def result_simps)
  have nz: "?hs \<noteq> []" "length ?hs = n" using n by (simp_all add: steadyHeaders_def)
  have norm: "normalizeDifficulty D = Inr D" using c by (simp add: normalizeDifficulty_def)
  have hsafe: "isSafeInteger (h + int i * ?e) \<and> 0 \<le> h + int i * ?e" if "i \<le> n" for i
  proof -
    have "int i * ?e \<le> int n * ?e" "0 \<le> int i * ?e" using that pos by (auto intro: mult_right_mono)
    then show ?thesis using safe h by (auto simp: safe_defs)
  qed
  have "validateHeader x lb = Inr ()" if x: "x \<in> set ?hs" for x lb
  proof -
    from x obtain i where "i < n" and i: "x = steadyHeader prof h t c i" by (auto simp: steadyHeaders_def)
    have "0 \<le> int i * (desiredBlockIntervalMs prof * ?e)" using pos by simp
    then show ?thesis
      using hsafe [of i] \<open>i < n\<close> t c
      by (auto simp: i steadyHeader_def validateHeader_def positiveDifficulty_def require_def)
  qed
  then have valid: "mapR (\<lambda>x. validateHeader x lb) ?hs = Inr (map (\<lambda>_. ()) ?hs)" for lb by (intro mapR_map)
  have last: "last ?hs = steadyHeader prof h t c (n - 1)" using n by (simp add: steadyHeaders_def last_map)
  obtain k where k: "n = Suc (Suc k)" using n by (cases n; cases "n - 1") auto
  have pts: "epochPoints prof ?hs = Inr (map (\<lambda>h. (h, D)) (map (\<lambda>i. h + int i * ?e) [1..<n]))"
    using epochPoints_steady [OF prof c(1,2), of h t 0 "Suc k"] by (simp add: steadyHeaders_def k)
  have "interpolateDifficulty (map (\<lambda>h. (h, D)) (map (\<lambda>i. h + int i * ?e) [1..<n])) ?e = Inr D"
    using c(2) hsafe pos n by (intro interpolate_constant) (auto simp: distinct_map inj_on_def)
  moreover have "\<not> dTimestamp (?hs ! 0) \<ge> dTimestamp (last ?hs)"
  proof -
    have "?hs ! 0 = steadyHeader prof h t c 0" using n by (simp add: steadyHeaders_def)
    then show ?thesis using n pos by (simp add: last steadyHeader_def mult_le_0_iff not_le)
  qed
  ultimately have pred: "calculatePredictiveDifficulty ?hs prof = Inr D"
    unfolding calculatePredictiveDifficulty_def Let_def using prof nz n valid pts c(2) norm by simp
  have "calculateBitcoinDifficulty ?hs prof = Inr D"
  proof -
    have "dTimestamp (last ?hs) - dTimestamp (?hs ! (length ?hs - 2)) = desiredBlockIntervalMs prof * ?e"
    proof -
      have "?hs ! (length ?hs - 2) = steadyHeader prof h t c k" by (simp only: nz) (simp add: steadyHeaders_def k del: upt_Suc)
      moreover have "last ?hs = steadyHeader prof h t c (Suc k)" using last k by simp
      ultimately show ?thesis by (simp only: steadyHeader_def) (simp add: algebra_simps)
    qed
    moreover have "positiveDifficulty (dNBits (last ?hs)) lb = Inr D" for lb
      using c by (simp add: last steadyHeader_def positiveDifficulty_iff)
    moreover have "tdiv (D * desiredBlockIntervalMs prof * ?e) (desiredBlockIntervalMs prof * ?e) = D"
      using c(2) pos by (simp add: tdiv_nonneg mult.assoc)
    moreover have "0 < desiredBlockIntervalMs prof * ?e" using pos by simp
    ultimately show ?thesis by (simp add: calculateBitcoinDifficulty_def Let_def)
  qed
  moreover have half: "D div 2 < D" using c(2) by simp
  ultimately show ?thesis
    unfolding calculateEip37Difficulty_def Let_def using prof nz n valid pred c norm half
    by (simp add: last steadyHeader_def positiveDifficulty_def minimum_def maximum_def tdiv_nonneg)
qed

text \<open>The steady state is a fixed point. When the epochs of the context took exactly the desired time
  at one difficulty, the recalculation returns that difficulty.\<close>

theorem eip37_steady_state:
  assumes prof: "validateProfile prof = Inr ()" and n: "2 \<le> n" and h: "0 \<le> h" and t: "0 \<le> t"
    and safe: "isSafeInteger (h + int n * epochLength prof)"
    and c: "decodeErgoCompactDifficulty c = Inr D" "0 < D" "encodeErgoCompactDifficulty D = Inr c"
  shows "calculateEip37Difficulty (steadyHeaders prof h t c n) prof = Inr D"
  using assms by (rule steady_state)

definition demoProfile :: eip37_profile where
  "demoProfile = \<lparr> activationHeight = 844673, epochLength = 128, useLastEpochs = 8,
     desiredBlockIntervalMs = 120000, initialDifficulty = 1000 \<rparr>"

lemma demo_compact:
  "decodeErgoCompactDifficulty 67174400 = Inr 16777216" "encodeErgoCompactDifficulty 16777216 = Inr 67174400"
proof -
  show "decodeErgoCompactDifficulty 67174400 = Inr 16777216"
    using decode_compact [of 65536 4] by (simp add: compactValue_def MAX_U256_def)
  have "byteSize 16777216 = 4" using byteSize_unique [of 3 16777216] by simp
  then have "leading 16777216 = 65536" by (simp add: leading_def)
  then show "encodeErgoCompactDifficulty 16777216 = Inr 67174400"
    using \<open>byteSize 16777216 = 4\<close> encode_compact [of 16777216]
    by (simp add: MAX_U256_def mantissa_def compactSize_def)
qed

lemma demo_profile: "validateProfile demoProfile = Inr ()"
  by (simp add: validateProfile_def demoProfile_def safe_defs header_consts MAX_CONTEXT_HEADERS_def)

lemma demo_steady_safe: "isSafeInteger (844800 + int 9 * epochLength demoProfile)"
  by (simp add: demoProfile_def safe_defs)

theorem eip37_steady_state_witness:
  "calculateEip37Difficulty (steadyHeaders demoProfile 844800 1000 67174400 9) demoProfile = Inr 16777216"
  by (rule eip37_steady_state [OF demo_profile _ _ _ demo_steady_safe demo_compact(1) _ demo_compact(2)]) auto

theorem eip37_step_bounded_witness:
  "(16777216::int) \<le> 16777216 * 3 div 2 \<and> 16777216 div 2 \<le> 16777216 + 16777216 div (2::int) ^ 15
   \<and> calculateEip37Difficulty (steadyHeaders demoProfile 844800 1000 67174400 9) demoProfile = Inr 16777216"
proof -
  have r: "calculateEip37Difficulty (steadyHeaders demoProfile 844800 1000 67174400 9) demoProfile = Inr 16777216"
    by (rule steady_state [OF demo_profile _ _ _ demo_steady_safe demo_compact(1) _ demo_compact(2)]) auto
  have "decodeErgoCompactDifficulty (dNBits (last (steadyHeaders demoProfile 844800 1000 67174400 9))) = Inr 16777216"
    using demo_compact(1) by (simp add: steadyHeaders_def steadyHeader_def last_map)
  from eip37_step_bounded [OF r this] r show ?thesis by simp
qed

end
