(* ===== verification/Autolykos.thy ===== *)
theory Autolykos
  imports Difficulty Merkle_Levels
begin

text \<open>
  Admission of one Autolykos V2 header: \<^verbatim>\<open>ergo-settlement-core/ergo-autolykos-v2-header.ts\<close>. The
  proof-of-work hit, the table size schedule, the check of a compressed secp256k1 point with its modular
  exponentiation, and the admission of a header onto its parent. BLAKE2b is the parameter \<open>H\<close>; the
  compact difficulty of the same file is in \<open>Difficulty\<close>.
\<close>

section \<open>Definitions\<close>

datatype autolykos_error =
    HeaderError header_error
  | DifficultyError diff_error
  | WrongByteCount string
  | UnsupportedHeaderVersion
  | BadPointPrefix
  | PointOutOfRange
  | PointNotOnCurve
  | BadPointParity
  | NotUnsigned string
  | DoesNotFit string
  | BadHeight
  | WrongParent
  | WrongHeight
  | WrongTimestamp
  | WrongNBits
  | DifficultyNotPositive
  | InsufficientWork

fun mapErr :: "('e \<Rightarrow> 'f) \<Rightarrow> 'e + 'a \<Rightarrow> 'f + 'a" where
  "mapErr f (Inl e) = Inl (f e)"
| "mapErr f (Inr x) = Inr x"

lemma mapErr_Inr_iff [result_simps]: "mapErr f m = Inr x \<longleftrightarrow> m = Inr x"
  by (cases m) auto

definition AUTOLYKOS_K :: nat where "AUTOLYKOS_K = 32"
definition AUTOLYKOS_N_BASE :: int where "AUTOLYKOS_N_BASE = 2 ^ 26"
definition AUTOLYKOS_N_INCREASE_START :: int where "AUTOLYKOS_N_INCREASE_START = 600 * 1024"
definition AUTOLYKOS_N_INCREASE_PERIOD :: int where "AUTOLYKOS_N_INCREASE_PERIOD = 50 * 1024"
definition AUTOLYKOS_N_MAX_HEIGHT :: int where "AUTOLYKOS_N_MAX_HEIGHT = 4198400"
definition MAX_SUPPORTED_HEADER_VERSION :: int where "MAX_SUPPORTED_HEADER_VERSION = 4"
definition SECP256K1_FIELD :: int where
  "SECP256K1_FIELD = 0xfffffffffffffffffffffffffffffffffffffffffffffffffffffffefffffc2f"
definition SECP256K1_ORDER :: int where
  "SECP256K1_ORDER = 0xfffffffffffffffffffffffffffffffebaaedce6af48a03bbfd25e8cd0364141"

lemmas autolykos_consts = AUTOLYKOS_K_def AUTOLYKOS_N_BASE_def AUTOLYKOS_N_INCREASE_START_def
  AUTOLYKOS_N_INCREASE_PERIOD_def AUTOLYKOS_N_MAX_HEIGHT_def MAX_SUPPORTED_HEADER_VERSION_def

definition AUTOLYKOS_M :: bytes where
  "AUTOLYKOS_M = concat (map (beBytes 8) [0..<1024])"

definition exactByteCount :: "bytes \<Rightarrow> nat \<Rightarrow> string \<Rightarrow> autolykos_error + bytes" where
  "exactByteCount value expectedLength label =
     require (length value = expectedLength) (WrongByteCount label) (Inr value)"

definition bytesValue :: "bytes \<Rightarrow> int" where
  "bytesValue bytes = (if length bytes = 0 then 0 else int (hexNum (toHex bytes)))"

text \<open>\<^verbatim>\<open>%\<close> on bigints takes the sign of the dividend.\<close>

definition jsRem :: "int \<Rightarrow> int \<Rightarrow> int" where
  "jsRem a b = a - b * tdiv a b"

definition modJs :: "int \<Rightarrow> int \<Rightarrow> int" where
  "modJs value modulus = (let reduced = jsRem value modulus in if reduced \<ge> 0 then reduced else reduced + modulus)"

function modPowLoop :: "int \<Rightarrow> int \<Rightarrow> int \<Rightarrow> int \<Rightarrow> int" where
  "modPowLoop modulus result factor remaining =
     (if remaining > 0 then
        modPowLoop modulus (if remaining AND 1 = 1 then jsRem (result * factor) modulus else result)
          (jsRem (factor * factor) modulus) (drop_bit 1 remaining)
      else result)"
  by pat_completeness auto
termination
  by (relation "measure (\<lambda>(_, _, _, remaining). nat remaining)") (auto simp: drop_bit_eq_div)

declare modPowLoop.simps [simp del]

definition modPow :: "int \<Rightarrow> int \<Rightarrow> int \<Rightarrow> int" where
  "modPow base exponent modulus = modPowLoop modulus 1 (modJs base modulus) exponent"

definition fixedUnsignedBytes :: "int \<Rightarrow> nat \<Rightarrow> string \<Rightarrow> autolykos_error + bytes" where
  "fixedUnsignedBytes value len label =
     require (\<not> value < 0) (NotUnsigned label)
     (let hex = padStart0 (len * 2) (hexStr (nat value)) in
      require (\<not> length hex > len * 2) (DoesNotFit label) (Inr (fromHex hex)))"

definition assertCompressedSecp256k1Point :: "bytes \<Rightarrow> autolykos_error + unit" where
  "assertCompressedSecp256k1Point encodedPoint =
     andThen (exactByteCount encodedPoint 33 ''compressed secp256k1 point'') (\<lambda>point.
     require (\<not> (point ! 0 \<noteq> 2 \<and> point ! 0 \<noteq> 3)) BadPointPrefix
     (let x = bytesValue (drop 1 point) in
      require (\<not> x \<ge> SECP256K1_FIELD) PointOutOfRange
      (let ySquared = modJs (x * x * x + 7) SECP256K1_FIELD;
           y = modPow ySquared (tdiv (SECP256K1_FIELD + 1) 4) SECP256K1_FIELD in
       require (\<not> modJs (y * y) SECP256K1_FIELD \<noteq> ySquared) PointNotOnCurve
       (let expectedOdd = (point ! 0 = 3);
            y' = (if (y AND 1 = 1) \<noteq> expectedOdd then SECP256K1_FIELD - y else y) in
        require (\<not> (y' AND 1 = 1) \<noteq> expectedOdd) BadPointParity (Inr ())))))"

fun growTable :: "nat \<Rightarrow> int \<Rightarrow> int" where
  "growTable 0 tableSize = tableSize"
| "growTable (Suc k) tableSize = growTable k (tableSize div 100 * 105)"

definition autolykosV2TableSize :: "int \<Rightarrow> autolykos_error + int" where
  "autolykosV2TableSize height =
     require (\<not> (\<not> isSafeInteger height \<or> height < 0 \<or> height > 0x7fffffff)) BadHeight
     (let boundedHeight = min height AUTOLYKOS_N_MAX_HEIGHT in
      if boundedHeight < AUTOLYKOS_N_INCREASE_START then Inr AUTOLYKOS_N_BASE
      else let iterations = (boundedHeight - AUTOLYKOS_N_INCREASE_START) div AUTOLYKOS_N_INCREASE_PERIOD + 1
           in Inr (growTable (nat iterations) AUTOLYKOS_N_BASE))"

definition autolykosV2Message :: "(bytes \<Rightarrow> bytes) \<Rightarrow> header \<Rightarrow> autolykos_error + bytes" where
  "autolykosV2Message H h =
     andThen (mapErr HeaderError (serializeErgoHeaderWithoutPow h)) (\<lambda>bytes. Inr (H bytes))"

definition uint32Field :: "int \<Rightarrow> string \<Rightarrow> autolykos_error + bytes" where
  "uint32Field value label =
     andThen (mapErr DifficultyError (unsignedU32 value label)) (\<lambda>v. Inr (beBytes 4 (nat v)))"

fun elementSum :: "(bytes \<Rightarrow> bytes) \<Rightarrow> bytes \<Rightarrow> bytes \<Rightarrow> int \<Rightarrow> nat \<Rightarrow> int" where
  "elementSum H extendedIndexDigest heightBytes tableSize 0 = 0"
| "elementSum H extendedIndexDigest heightBytes tableSize (Suc index) =
     elementSum H extendedIndexDigest heightBytes tableSize index
     + (let elementIndex = jsRem (bytesValue (take 4 (drop index extendedIndexDigest))) tableSize;
            element = drop 1 (H (beBytes 4 (nat elementIndex) @ heightBytes @ AUTOLYKOS_M))
        in bytesValue element)"

definition calculateHitWith :: "(bytes \<Rightarrow> bytes) \<Rightarrow> header \<Rightarrow> bytes \<Rightarrow> int \<Rightarrow> autolykos_error + int" where
  "calculateHitWith H h message tableSize =
     andThen (exactByteCount (nonce (hPowSolution h)) 8 ''Autolykos V2 nonce'') (\<lambda>n.
     andThen (uint32Field (hHeight h) ''header height'') (\<lambda>heightBytes.
     let digest = H (message @ n); preIndex = bytesValue (drop (length digest - 8) digest) in
     andThen (fixedUnsignedBytes (jsRem preIndex tableSize) 4 ''Autolykos V2 pre-index'') (\<lambda>indexBytes.
     let f = drop 1 (H (indexBytes @ heightBytes @ AUTOLYKOS_M));
         indexDigest = H (f @ message @ n);
         extendedIndexDigest = indexDigest @ take 3 indexDigest;
         s = elementSum H extendedIndexDigest heightBytes tableSize AUTOLYKOS_K
     in andThen (fixedUnsignedBytes s 32 ''Autolykos V2 element sum'') (\<lambda>sumBytes.
        Inr (bytesValue (H sumBytes))))))"

text \<open>The two defaults of \<^verbatim>\<open>calculateAutolykosV2Hit\<close> are evaluated left to right.\<close>

definition calculateAutolykosV2Hit :: "(bytes \<Rightarrow> bytes) \<Rightarrow> header \<Rightarrow> autolykos_error + int" where
  "calculateAutolykosV2Hit H h =
     andThen (autolykosV2Message H h) (\<lambda>message.
     andThen (autolykosV2TableSize (hHeight h)) (\<lambda>tableSize. calculateHitWith H h message tableSize))"

record parent_state =
  psHeaderId :: bytes
  psHeight :: int
  psTimestamp :: int

record admission =
  aHeaderId :: bytes
  aMessage :: bytes
  aDifficulty :: int
  aTarget :: int
  aHit :: int
  aTableSize :: int

definition admitErgoAutolykosV2Header ::
  "(bytes \<Rightarrow> bytes) \<Rightarrow> header \<Rightarrow> parent_state \<Rightarrow> int \<Rightarrow> autolykos_error + admission" where
  "admitErgoAutolykosV2Header H h parent expectedNBits0 =
     require (\<not> (hVersion h < 2 \<or> hVersion h > MAX_SUPPORTED_HEADER_VERSION)) UnsupportedHeaderVersion
     (andThen (assertCompressedSecp256k1Point (publicKey (hPowSolution h))) (\<lambda>_.
      andThen (exactByteCount (psHeaderId parent) 32 ''expected parent header ID'') (\<lambda>expectedParentId.
      require (hParentId h = expectedParentId) WrongParent
      (require (\<not> (\<not> isSafeInteger (psHeight parent) \<or> psHeight parent < 0
                   \<or> hHeight h \<noteq> psHeight parent + 1)) WrongHeight
      (require (\<not> hTimestamp h \<le> psTimestamp parent) WrongTimestamp
      (andThen (mapErr DifficultyError (unsignedU32 expectedNBits0 ''expected nBits'')) (\<lambda>expectedNBits.
      require (hNBits h = expectedNBits) WrongNBits
      (andThen (mapErr DifficultyError (decodeErgoCompactDifficulty (hNBits h))) (\<lambda>difficulty.
       require (\<not> difficulty \<le> 0) DifficultyNotPositive
       (let target = tdiv SECP256K1_ORDER difficulty in
        andThen (autolykosV2Message H h) (\<lambda>message.
        andThen (autolykosV2TableSize (hHeight h)) (\<lambda>tableSize.
        andThen (calculateHitWith H h message tableSize) (\<lambda>hit.
        require (\<not> hit \<ge> target) InsufficientWork
        (andThen (mapErr HeaderError (computeErgoHeaderId H h)) (\<lambda>headerId.
         Inr \<lparr> aHeaderId = headerId, aMessage = message, aDifficulty = difficulty, aTarget = target,
               aHit = hit, aTableSize = tableSize \<rparr>)))))))))))))))"

definition verifyClaimedAutolykosV2ProofOfWork :: "(bytes \<Rightarrow> bytes) \<Rightarrow> header \<Rightarrow> autolykos_error + bool" where
  "verifyClaimedAutolykosV2ProofOfWork H h =
     (if hVersion h < 2 \<or> hVersion h > MAX_SUPPORTED_HEADER_VERSION then Inr False
      else if \<not> isOk (assertCompressedSecp256k1Point (publicKey (hPowSolution h))) then Inr False
      else andThen (mapErr DifficultyError (decodeErgoCompactDifficulty (hNBits h))) (\<lambda>difficulty.
           if difficulty \<le> 0 then Inr False
           else let target = tdiv SECP256K1_ORDER difficulty in
             andThen (calculateAutolykosV2Hit H h) (\<lambda>hit. Inr (hit < target))))"


section \<open>Modular exponentiation and curve points\<close>

lemma jsRem_nonneg: "0 \<le> a \<Longrightarrow> 0 < b \<Longrightarrow> jsRem a b = a mod b"
  by (simp add: jsRem_def tdiv_nonneg minus_mult_div_eq_mod)

lemma modJs_mod: "0 < m \<Longrightarrow> modJs v m = v mod m"
proof (cases "0 \<le> v")
  case True
  assume "0 < m"
  with True show ?thesis by (simp add: modJs_def jsRem_nonneg)
next
  case False
  assume m: "0 < m"
  have r: "jsRem v m = - ((- v) mod m)"
  proof -
    have "tdiv v m = - ((- v) div m)" using False m by (simp add: tdiv_def)
    then have "jsRem v m = v + m * ((- v) div m)" by (simp add: jsRem_def)
    moreover have "(- v) mod m = - v - m * ((- v) div m)" by (rule minus_mult_div_eq_mod [symmetric])
    ultimately show ?thesis by linarith
  qed
  define w where "w = (- v) mod m"
  have "0 \<le> w" "v mod m = (if w = 0 then 0 else m - w)"
    using m zmod_zminus1_eq_if [of "- v" m] by (simp_all add: w_def)
  then show ?thesis using r unfolding w_def [symmetric] by (auto simp: modJs_def Let_def)
qed

lemma modPowLoop_power:
  assumes "1 < m" and "0 \<le> r" and "r < m" and "0 \<le> f" and "0 \<le> e"
  shows "modPowLoop m r f e = r * f ^ nat e mod m"
  using assms
proof (induction m r f e rule: modPowLoop.induct)
  case (1 m r f e)
  show ?case
  proof (cases "0 < e")
    case False
    with "1.prems" show ?thesis by (subst modPowLoop.simps) simp
  next
    case True
    let ?r = "if e AND 1 = 1 then r * f mod m else r" and ?f = "f * f mod m"
    have one: "e AND 1 = 1 \<longleftrightarrow> odd e" by (simp add: and_one_eq odd_iff_mod_2_eq_one)
    have step: "modPowLoop m r f e = modPowLoop m ?r ?f (e div 2)"
      using True "1.prems" by (subst modPowLoop.simps) (simp add: jsRem_nonneg drop_bit_eq_div)
    have "(if e AND 1 = 1 then jsRem (r * f) m else r) = ?r" "jsRem (f * f) m = ?f"
      using "1.prems" by (simp_all add: jsRem_nonneg)
    then have "modPowLoop m ?r ?f (e div 2) = ?r * ?f ^ nat (e div 2) mod m"
      using "1.IH" [OF True] True "1.prems" by (simp add: drop_bit_eq_div del: if_split)
    also have "\<dots> = ?r * (f * f) ^ nat (e div 2) mod m"
      by (metis mod_mult_right_eq power_mod)
    also have "\<dots> = (if odd e then r * f else r) * (f * f) ^ nat (e div 2) mod m"
      by (simp add: one mod_mult_left_eq)
    also have "\<dots> = r * f ^ nat e mod m"
    proof -
      have "nat e = nat (e div 2) + nat (e div 2) + (if odd e then 1 else 0)" using True by (auto elim: oddE evenE)
      then show ?thesis by (simp add: power_add power_mult_distrib algebra_simps split: if_splits)
    qed
    finally show ?thesis using step by simp
  qed
qed

lemma modPow_power:
  assumes "1 < m" and "0 \<le> e"
  shows "modPow b e m = b ^ nat e mod m"
proof -
  have "modPow b e m = 1 * (b mod m) ^ nat e mod m"
    unfolding modPow_def using assms by (simp add: modJs_mod) (intro modPowLoop_power [of m 1, simplified]; simp)
  then show ?thesis by (simp add: power_mod)
qed

text \<open>The square-and-multiply loop returns the power: for a modulus above one and an exponent that is
  not negative it ends with the base to that exponent, reduced.\<close>

theorem modPow_correct:
  assumes "1 < m" and "0 \<le> e"
  shows "modPow b e m = b ^ nat e mod m"
  using assms by (rule modPow_power)

theorem modPow_correct_witness: "modPow (-3) 5 7 = (-3) ^ 5 mod 7"
  using modPow_correct [of 7 5 "-3"] by simp


lemma bytesValue_beVal: "bytesValue bs = int (beVal bs)"
  by (simp add: bytesValue_def hexNum_toHex)

lemma field_gt: "1 < SECP256K1_FIELD"
  by (simp add: SECP256K1_FIELD_def)

text \<open>Soundness of the point check: an accepted encoding is a point of \<open>y\<^sup>2 = x\<^sup>3 + 7\<close> over the
  secp256k1 field with its \<open>x\<close> coordinate reduced, and the prefix states the parity of such a \<open>y\<close>.\<close>

theorem compressedPoint_sound:
  assumes "assertCompressedSecp256k1Point p = Inr ()"
  shows "length p = 33 \<and> int (beVal (tl p)) < SECP256K1_FIELD \<and>
    (\<exists>y. 0 \<le> y \<and> y \<le> SECP256K1_FIELD
       \<and> y * y mod SECP256K1_FIELD = (int (beVal (tl p)) ^ 3 + 7) mod SECP256K1_FIELD
       \<and> (p ! 0 = 3 \<and> odd y \<or> p ! 0 = 2 \<and> even y))"
proof -
  define x where "x = int (beVal (tl p))"
  define y where "y = modPow (modJs (x * x * x + 7) SECP256K1_FIELD) (tdiv (SECP256K1_FIELD + 1) 4) SECP256K1_FIELD"
  define z where "z = (if (y AND 1 = 1) \<noteq> (p ! 0 = 3) then SECP256K1_FIELD - y else y)"
  have x: "bytesValue (drop 1 p) = x" by (simp add: x_def bytesValue_beVal drop_Suc)
  have a: "length p = 33 \<and> (p ! 0 = 2 \<or> p ! 0 = 3) \<and> x < SECP256K1_FIELD
      \<and> modJs (y * y) SECP256K1_FIELD = modJs (x * x * x + 7) SECP256K1_FIELD \<and> (z AND 1 = 1) = (p ! 0 = 3)"
    using assms
    unfolding assertCompressedSecp256k1Point_def exactByteCount_def Let_def result_simps y_def z_def
    by (auto simp: x simp del: One_nat_def drop_eq_Nil)
  have "y = modJs (x * x * x + 7) SECP256K1_FIELD ^ nat (tdiv (SECP256K1_FIELD + 1) 4) mod SECP256K1_FIELD"
    unfolding y_def by (rule modPow_power) (simp_all add: SECP256K1_FIELD_def tdiv_nonneg)
  then have yr: "0 \<le> y" "y < SECP256K1_FIELD" using field_gt by auto
  have sq: "(SECP256K1_FIELD - y) * (SECP256K1_FIELD - y) mod SECP256K1_FIELD = y * y mod SECP256K1_FIELD"
  proof -
    have "(SECP256K1_FIELD - y) * (SECP256K1_FIELD - y) = y * y + SECP256K1_FIELD * (SECP256K1_FIELD - 2 * y)"
      by (simp add: algebra_simps)
    then show ?thesis by simp
  qed
  have "z * z mod SECP256K1_FIELD = (x ^ 3 + 7) mod SECP256K1_FIELD"
    using a field_gt sq by (auto simp: z_def modJs_mod power3_eq_cube)
  moreover have "0 \<le> z \<and> z \<le> SECP256K1_FIELD" using yr by (auto simp: z_def)
  moreover have "p ! 0 = 3 \<and> odd z \<or> p ! 0 = 2 \<and> even z" using a by (auto simp: and_one_eq odd_iff_mod_2_eq_one)
  ultimately show ?thesis using a by (auto simp: x_def)
qed


text \<open>A point with \<open>y = 1\<close>.\<close>

definition demoPointX :: int where
  "demoPointX = 0x1fe1e5ef3fceb5c135ab7741333ce5a6e80d68167653f6b2b24bcbcfaaaff507"

definition demoPoint :: bytes where
  "demoPoint = 3 # beBytes 32 (nat demoPointX)"

lemma demoPoint_ok: "assertCompressedSecp256k1Point demoPoint = Inr ()"
proof -
  have x: "bytesValue (drop 1 demoPoint) = demoPointX"
    by (simp add: demoPoint_def bytesValue_beVal beVal_beBytes demoPointX_def)
  have range: "\<not> demoPointX \<ge> SECP256K1_FIELD" by (simp add: demoPointX_def SECP256K1_FIELD_def)
  have cube: "modJs (demoPointX * demoPointX * demoPointX + 7) SECP256K1_FIELD = 1"
    unfolding modJs_mod [OF less_trans [OF zero_less_one field_gt]] by (simp add: demoPointX_def SECP256K1_FIELD_def)
  have root: "modPow 1 (tdiv (SECP256K1_FIELD + 1) 4) SECP256K1_FIELD = 1"
    using modPow_power [OF field_gt, of "tdiv (SECP256K1_FIELD + 1) 4" 1] field_gt
    by (simp add: tdiv_nonneg)
  have one: "modJs (1 * 1) SECP256K1_FIELD = 1" using field_gt by (simp add: modJs_mod)
  have "length demoPoint = 33" "demoPoint ! 0 = 3" by (simp_all add: demoPoint_def)
  then show ?thesis
    unfolding assertCompressedSecp256k1Point_def exactByteCount_def
    using range by (simp add: x [unfolded One_nat_def] cube root one [simplified])
qed

theorem compressedPoint_sound_witness:
  "\<exists>y. y * y mod SECP256K1_FIELD = (demoPointX ^ 3 + 7) mod SECP256K1_FIELD \<and> odd y"
proof -
  have "int (beVal (tl demoPoint)) = demoPointX" by (simp add: demoPoint_def beVal_beBytes demoPointX_def)
  moreover have "demoPoint ! 0 = 3" by (simp add: demoPoint_def)
  ultimately show ?thesis using compressedPoint_sound [OF demoPoint_ok] by auto
qed


section \<open>The table size\<close>

lemma growTable_append: "growTable (a + b) t = growTable b (growTable a t)"
  by (induction a arbitrary: t) auto

lemma growTable_ge: "2 ^ 26 \<le> t \<Longrightarrow> t \<le> growTable k t"
proof (induction k arbitrary: t)
  case (Suc k)
  have "t = t div 100 * 100 + t mod 100" "t mod 100 < 100" by simp_all
  moreover have "67108864 \<le> t" using Suc.prems by simp
  ultimately have "t \<le> t div 100 * 105" by linarith
  with Suc.IH [of "t div 100 * 105"] Suc.prems show ?case by simp
qed simp

lemma growTable_range:
  assumes "k \<le> 71"
  shows "2 ^ 26 \<le> growTable k (2 ^ 26) \<and> growTable k (2 ^ 26) \<le> 2143944600"
proof -
  have "growTable 71 (2 ^ 26) = growTable (71 - k) (growTable k (2 ^ 26))"
    using assms growTable_append [of k "71 - k" "2 ^ 26"] by simp
  moreover have "growTable 71 (2 ^ 26) = 2143944600" by code_simp
  ultimately show ?thesis
    using growTable_ge [of "2 ^ 26" k] growTable_ge [of "growTable k (2 ^ 26)" "71 - k"] by simp
qed

lemma tableSize_cases:
  assumes "0 \<le> h" and "h \<le> MAX_I32"
  obtains n where "autolykosV2TableSize h = Inr n" and "2 ^ 26 \<le> n" and "n \<le> 2143944600"
proof -
  let ?b = "min h 4198400"
  have it: "?b < 614400 \<or> nat ((?b - 614400) div 51200 + 1) \<le> 71"
  proof -
    have "(?b - 614400) div 51200 \<le> 70"
      using zdiv_mono1 [of "?b - 614400" "3584000" 51200] by simp
    then show ?thesis by auto
  qed
  have "autolykosV2TableSize h = Inr (if ?b < 614400 then 2 ^ 26
      else growTable (nat ((?b - 614400) div 51200 + 1)) (2 ^ 26))"
    using assms by (auto simp: autolykosV2TableSize_def autolykos_consts safe_defs header_consts Let_def min_def)
  with that growTable_range it show ?thesis by (auto split: if_splits)
qed

text \<open>For every height a header can carry, the Autolykos table size exists and lies between \<open>2 ^ 26\<close> and
  2143944600, so an element index always fits the four bytes it is written to.\<close>

theorem tableSize_bounded:
  assumes "0 \<le> h" and "h \<le> MAX_I32"
  shows "\<exists>n. autolykosV2TableSize h = Inr n \<and> 2 ^ 26 \<le> n \<and> n \<le> 2143944600 \<and> n < 2 ^ 32"
  using assms by (rule tableSize_cases) auto

theorem tableSize_bounded_witness:
  "\<exists>n. autolykosV2TableSize 1500000 = Inr n \<and> 2 ^ 26 \<le> n \<and> n < 2 ^ 32"
  using tableSize_bounded [of 1500000] by (auto simp: header_consts)


section \<open>The hit\<close>

lemma fixedUnsignedBytes_ok:
  assumes "0 \<le> v" and "v < 256 ^ k" and "0 < k"
  shows "fixedUnsignedBytes v k label = Inr (beBytes k (nat v))"
proof -
  have v: "nat v < 256 ^ k" using assms by (simp add: nat_less_iff)
  note p = padded_hex_bytes [OF v assms(3)]
  have "length (padStart0 (2 * k) (hexStr (nat v))) = 2 * k" using p(2) by (simp add: padStart0_def)
  then show ?thesis using assms(1) p(1) by (simp add: fixedUnsignedBytes_def mult.commute)
qed

lemma bytesValue_bound: "length bs = k \<Longrightarrow> 0 \<le> bytesValue bs \<and> bytesValue bs < 256 ^ k"
proof -
  assume k: "length bs = k"
  have "int (beVal bs) < int (256 ^ length bs)" using beVal_less [of bs] by (simp only: of_nat_less_iff)
  then show ?thesis using k by (simp add: bytesValue_beVal)
qed

lemma elementSum_bound:
  assumes "\<And>x. length (H x) = 32"
  shows "0 \<le> elementSum H d hb n k \<and> elementSum H d hb n k \<le> int k * 256 ^ 31"
proof (induction k)
  case (Suc k)
  have "0 \<le> bytesValue (drop 1 (H x)) \<and> bytesValue (drop 1 (H x)) < 256 ^ 31" for x
    by (rule bytesValue_bound) (simp add: assms)
  then have "0 \<le> (let i = jsRem (bytesValue (take 4 (drop k d))) n; e = drop 1 (H (beBytes 4 (nat i) @ hb @ AUTOLYKOS_M))
        in bytesValue e)"
    "(let i = jsRem (bytesValue (take 4 (drop k d))) n; e = drop 1 (H (beBytes 4 (nat i) @ hb @ AUTOLYKOS_M))
        in bytesValue e) < 256 ^ 31" by (simp_all add: Let_def)
  moreover have "int (Suc k) * 256 ^ 31 = int k * 256 ^ 31 + 256 ^ 31" by (simp add: algebra_simps)
  ultimately show ?case using Suc unfolding elementSum.simps by linarith
qed simp

lemma hit_total:
  assumes H: "\<And>x. length (H x) = 32" and n: "length (nonce (hPowSolution h)) = 8"
    and height: "0 \<le> hHeight h" "hHeight h \<le> MAX_I32" and t: "2 ^ 26 \<le> t" "t \<le> 2143944600"
  shows "\<exists>x. calculateHitWith H h message t = Inr (bytesValue (H x)) \<and> 0 \<le> bytesValue (H x)
    \<and> bytesValue (H x) < 2 ^ 256"
proof -
  have hb: "uint32Field (hHeight h) lb = Inr (beBytes 4 (nat (hHeight h)))" for lb
    using height by (simp add: uint32Field_def unsignedU32_def safe_defs header_consts)
  have rem: "0 \<le> jsRem (bytesValue bs) t \<and> jsRem (bytesValue bs) t < 256 ^ 4" for bs
  proof -
    have "jsRem (bytesValue bs) t = bytesValue bs mod t"
      using t bytesValue_bound [of bs] by (intro jsRem_nonneg) auto
    moreover have "0 \<le> bytesValue bs mod t" "bytesValue bs mod t < t" using t by auto
    moreover have "t < 256 ^ 4" using t by simp
    ultimately show ?thesis by linarith
  qed
  have s: "0 \<le> elementSum H d hb n AUTOLYKOS_K \<and> elementSum H d hb n AUTOLYKOS_K < 256 ^ 32" for d hb n
    using elementSum_bound [of H d hb n AUTOLYKOS_K, OF H] by (simp add: AUTOLYKOS_K_def)
  have out: "0 \<le> bytesValue (H x) \<and> bytesValue (H x) < 2 ^ 256" for x
    using bytesValue_bound [OF H, of x] by simp
  show ?thesis
    unfolding calculateHitWith_def Let_def exactByteCount_def
    using n rem s out by (simp add: hb fixedUnsignedBytes_ok) (rule exI, rule refl)
qed

lemma hit_exists:
  assumes H: "\<And>x. length (H x) = 32" and "isOk (serializeErgoHeaderIdentity h)"
  shows "\<exists>x. calculateAutolykosV2Hit H h = Inr (bytesValue (H x)) \<and> 0 \<le> bytesValue (H x)
    \<and> bytesValue (H x) < 2 ^ 256"
proof -
  from assms(2) obtain w where w: "serializeErgoHeaderWithoutPow h = Inr w" and pow: "powOk h"
    by (auto simp: isOk_iff serialize_iff)
  have f: "0 \<le> hHeight h" "hHeight h \<le> MAX_I32" using w by (auto simp: withoutPow_iff fieldsOk_def)
  obtain n where n: "autolykosV2TableSize (hHeight h) = Inr n" "2 ^ 26 \<le> n" "n \<le> 2143944600"
    using tableSize_cases [OF f] by blast
  have "\<exists>x. calculateHitWith H h (H w) n = Inr (bytesValue (H x)) \<and> 0 \<le> bytesValue (H x)
    \<and> bytesValue (H x) < 2 ^ 256"
    using pow f n by (intro hit_total H) (auto simp: powOk_def)
  then show ?thesis by (auto simp: calculateAutolykosV2Hit_def autolykosV2Message_def w n(1))
qed

text \<open>The hit computation never throws on a header that serializes: all its
  indices and sums fit the widths they are written to, and the hit is an unsigned 256-bit integer.\<close>

theorem autolykosHit_total:
  assumes "\<And>x. length (H x) = 32" and "isOk (serializeErgoHeaderIdentity h)"
  shows "\<exists>hit. calculateAutolykosV2Hit H h = Inr hit \<and> 0 \<le> hit \<and> hit < 2 ^ 256"
  using hit_exists [of H, OF assms] by blast

theorem autolykosHit_total_witness:
  "\<exists>hit. calculateAutolykosV2Hit demoHash (demoHeader None) = Inr hit \<and> hit < 2 ^ 256"
  using autolykosHit_total [of demoHash "demoHeader None"] demoHeader_serializes
  by (auto simp: isOk_iff)


section \<open>Admission\<close>

text \<open>An admission, field by field.\<close>

lemma admission_fields:
  assumes "admitErgoAutolykosV2Header H h parent n = Inr a"
  shows "2 \<le> hVersion h \<and> hVersion h \<le> 4
    \<and> hParentId h = psHeaderId parent \<and> length (psHeaderId parent) = 32
    \<and> isSafeInteger (psHeight parent) \<and> 0 \<le> psHeight parent \<and> hHeight h = psHeight parent + 1
    \<and> psTimestamp parent < hTimestamp h \<and> hNBits h = n
    \<and> decodeErgoCompactDifficulty (hNBits h) = Inr (aDifficulty a) \<and> 0 < aDifficulty a
    \<and> aTarget a = tdiv SECP256K1_ORDER (aDifficulty a) \<and> aHit a < aTarget a
    \<and> calculateAutolykosV2Hit H h = Inr (aHit a) \<and> isOk (assertCompressedSecp256k1Point (publicKey (hPowSolution h)))
    \<and> computeErgoHeaderId H h = Inr (aHeaderId a)"
  using assms
  by (auto simp: admitErgoAutolykosV2Header_def calculateAutolykosV2Hit_def exactByteCount_def result_simps Let_def unsignedU32_def
      MAX_SUPPORTED_HEADER_VERSION_def isOk_iff)

lemma decode_u32: "decodeErgoCompactDifficulty c = Inr d \<Longrightarrow> unsignedU32 c lb = Inr c"
  by (auto simp: decodeErgoCompactDifficulty_def unsignedU32_def result_simps)

lemma admission_iff:
  assumes "length (psHeaderId parent) = 32" and "isSafeInteger (psHeight parent)" and "0 \<le> psHeight parent"
  shows "isOk (admitErgoAutolykosV2Header H h parent n) \<longleftrightarrow>
      verifyClaimedAutolykosV2ProofOfWork H h = Inr True \<and> isOk (computeErgoHeaderId H h)
    \<and> hParentId h = psHeaderId parent \<and> hHeight h = psHeight parent + 1
    \<and> psTimestamp parent < hTimestamp h \<and> hNBits h = n"
proof (cases "hParentId h = psHeaderId parent \<and> hHeight h = psHeight parent + 1
    \<and> psTimestamp parent < hTimestamp h \<and> hNBits h = n")
  case True
  show ?thesis
    using True assms
    unfolding isOk_iff admitErgoAutolykosV2Header_def verifyClaimedAutolykosV2ProofOfWork_def
      calculateAutolykosV2Hit_def exactByteCount_def result_simps Let_def
    by (auto simp: result_simps isOk_iff intro: decode_u32)
next
  case False
  then show ?thesis by (auto simp: isOk_iff dest: admission_fields)
qed

text \<open>C17. Admission is exactly the claimed proof of work plus linkage: a header is admitted onto a parent
  if and only if its claimed proof of work verifies, it serializes, and it extends the parent by id, by
  height plus one, by a later timestamp and at the expected \<^verbatim>\<open>nBits\<close>.\<close>

theorem admission_exact:
  assumes "length (psHeaderId parent) = 32" and "isSafeInteger (psHeight parent)" and "0 \<le> psHeight parent"
  shows "isOk (admitErgoAutolykosV2Header H h parent n) \<longleftrightarrow>
      verifyClaimedAutolykosV2ProofOfWork H h = Inr True \<and> isOk (computeErgoHeaderId H h)
    \<and> hParentId h = psHeaderId parent \<and> hHeight h = psHeight parent + 1
    \<and> psTimestamp parent < hTimestamp h \<and> hNBits h = n"
  using assms by (rule admission_iff)


text \<open>A header of difficulty 1 whose public key is the point above.\<close>

definition demoMined :: header where
  "demoMined = (demoHeader None) \<lparr> hNBits := 16842752, hPowSolution := \<lparr> publicKey = demoPoint,
     nonce = replicate 8 9, oneTimePublicKey = None, distance = None \<rparr> \<rparr>"

definition demoParent :: parent_state where
  "demoParent = \<lparr> psHeaderId = replicate 32 1, psHeight = 899999, psTimestamp = 1699999999999 \<rparr>"

lemma demoMined_serializes: "isOk (serializeErgoHeaderIdentity demoMined)"
  by (simp add: isOk_iff serialize_iff withoutPow_iff fieldsOk_def powOk_def demoMined_def demoHeader_def
      header_consts demoPoint_def)

lemma demo_difficulty_one: "decodeErgoCompactDifficulty 16842752 = Inr 1"
  using decode_compact [of 65536 1] by (simp add: compactValue_def MAX_U256_def)

lemma demoMined_pow_any:
  assumes H: "\<And>x. length (H x) = 32" and low: "\<And>x. bytesValue (H x) < SECP256K1_ORDER"
  shows "verifyClaimedAutolykosV2ProofOfWork H demoMined = Inr True"
proof -
  obtain x where x: "calculateAutolykosV2Hit H demoMined = Inr (bytesValue (H x))"
    using hit_exists [of H, OF H demoMined_serializes] by auto
  have "bytesValue (H x) < tdiv SECP256K1_ORDER 1"
    using low [of x] by (simp add: tdiv_nonneg SECP256K1_ORDER_def)
  then show ?thesis
    using demoPoint_ok demo_difficulty_one x
    by (simp add: verifyClaimedAutolykosV2ProofOfWork_def MAX_SUPPORTED_HEADER_VERSION_def)
      (simp add: demoMined_def demoHeader_def)
qed

lemma demoMined_pow: "verifyClaimedAutolykosV2ProofOfWork demoHash demoMined = Inr True"
proof (rule demoMined_pow_any)
  have "beVal (replicate k 0 @ [b]) = unat b" for k b
    by (induction k) (auto simp: beVal_def)
  then have "bytesValue (demoHash x) < 256" for x
    using unat_byte_less [of "sum_list x"] by (simp add: bytesValue_beVal demoHash_def del: unat_byte_less)
  then show "bytesValue (demoHash x) < SECP256K1_ORDER" for x
    by (rule less_trans) (simp add: SECP256K1_ORDER_def)
qed simp

theorem admission_exact_witness: "isOk (admitErgoAutolykosV2Header demoHash demoMined demoParent 16842752)"
proof -
  have "isOk (computeErgoHeaderId demoHash demoMined)"
    using demoMined_serializes by (auto simp: isOk_iff computeErgoHeaderId_def)
  then show ?thesis
    using admission_exact [of demoParent demoHash demoMined 16842752] demoMined_pow
    by (simp add: demoParent_def safe_defs) (simp add: demoMined_def demoHeader_def)
qed

end
