(* ===== verification/Spv_Branch.thy ===== *)
theory Spv_Branch
  imports Autolykos
begin

text \<open>
  Verification of a bounded header branch from a pinned checkpoint, branch selection and target depth:
  \<^verbatim>\<open>ergo-settlement-core/ergo-autolykos-v2-spv-branch.ts\<close>.

  \<^verbatim>\<open>VerifiedErgoAutolykosV2Branch\<close> can only be made by the verifier (its constructor asks for a private
  token and its state sits in a \<^verbatim>\<open>WeakMap\<close>); in the model a branch is the record of that state. The
  difficulty history is a \<^verbatim>\<open>Map\<close> from heights to headers: the list of its values in insertion order,
  where setting a known height replaces the value in place.
\<close>

section \<open>Definitions\<close>

datatype spv_error =
    SpvAutolykos autolykos_error
  | SpvHeader header_error
  | SpvDifficulty diff_error
  | SpvBytes string
  | BadCheckpointWork
  | BadExpectedVersion
  | BadFinalityBounds
  | BadFutureDrift
  | NotUnsignedField
  | FieldTooWide
  | ContextTooLong
  | ContextNotIncreasing
  | ContextTimestampRange
  | ContextDifficulty
  | ContextDigestMismatch
  | ContextIncomplete
  | BadSuffixLength
  | BadObservationTime
  | NetworkMismatch
  | CheckpointMismatch
  | CheckpointVersion
  | CheckpointPredatesProfile
  | SuffixVersion
  | FutureTimestamp
  | DuplicateHeader
  | WorkOverflow
  | BranchesDiffer

definition MAX_U64 :: int where "MAX_U64 = 0xffffffffffffffff"

definition CONTEXT_DOMAIN :: bytes where
  "CONTEXT_DOMAIN = map (\<lambda>c. of_nat (code c)) ''ERGO_EIP37_CONTEXT_V1''"

definition PROFILE_DOMAIN :: bytes where
  "PROFILE_DOMAIN = map (\<lambda>c. of_nat (code c)) ''ERGO_AUTOLYKOS_V2_SPV_PROFILE_V1''"

record spv_profile =
  sourceNetworkId :: bytes
  checkpointHeaderId :: bytes
  checkpointDifficultyContextDigest :: bytes
  checkpointCumulativeWork :: int
  expectedHeaderVersion :: int
  difficulty :: eip37_profile
  requiredConfirmations :: int
  maximumHeaders :: int
  maximumFutureDriftMs :: int

record spv_checkpoint =
  ckSourceNetworkId :: bytes
  ckHeader :: header
  ckDifficultyContext :: "diff_header list"

record verified_header =
  vHeader :: header
  vHeaderId :: bytes
  vDifficulty :: int
  vCumulativeWork :: int
  vHit :: int
  vTarget :: int

record spv_branch =
  bProfileId :: bytes
  bSourceNetworkId :: bytes
  bCheckpointHeaderId :: bytes
  bCheckpointHeight :: int
  bRequiredConfirmations :: int
  bCumulativeWork :: int
  bHeaders :: "verified_header list"

record target_depth =
  included :: bool
  targetHeight :: "int option"
  confirmations :: int
  depthSatisfied :: bool

definition spvExactBytes :: "bytes \<Rightarrow> nat \<Rightarrow> string \<Rightarrow> spv_error + bytes" where
  "spvExactBytes value expectedLength label =
     require (length value = expectedLength) (SpvBytes label) (Inr value)"

definition unsignedBytes :: "int \<Rightarrow> nat \<Rightarrow> spv_error + bytes" where
  "unsignedBytes value len =
     require (\<not> value < 0) NotUnsignedField
     (let hex = padStart0 (len * 2) (hexStr (nat value)) in
      require (\<not> length hex > len * 2) FieldTooWide (Inr (fromHex hex)))"

definition difficultyHeader :: "header \<Rightarrow> diff_header" where
  "difficultyHeader h = \<lparr> dHeight = hHeight h, dTimestamp = hTimestamp h, dNBits = hNBits h \<rparr>"

fun historySet :: "diff_header list \<Rightarrow> diff_header \<Rightarrow> diff_header list" where
  "historySet [] x = [x]"
| "historySet (y # r) x = (if dHeight y = dHeight x then x # r else y # historySet r x)"

fun contextChunks :: "int \<Rightarrow> diff_header list \<Rightarrow> spv_error + bytes" where
  "contextChunks previousHeight [] = Inr []"
| "contextChunks previousHeight (h # rest) =
     require (\<not> (\<not> isSafeInteger (dHeight h) \<or> dHeight h \<le> previousHeight)) ContextNotIncreasing
     (require (\<not> (dTimestamp h < 0 \<or> dTimestamp h > MAX_I64)) ContextTimestampRange
     (andThen (mapErr SpvDifficulty (decodeErgoCompactDifficulty (dNBits h))) (\<lambda>d.
      require (\<not> d \<le> 0) ContextDifficulty
      (andThen (unsignedBytes (dHeight h) 4) (\<lambda>a.
       andThen (unsignedBytes (dTimestamp h) 8) (\<lambda>b.
       andThen (unsignedBytes (dNBits h) 4) (\<lambda>c.
       andThen (contextChunks (dHeight h) rest) (\<lambda>r. Inr (a @ b @ c @ r)))))))))"

definition computeErgoDifficultyContextDigest :: "(bytes \<Rightarrow> bytes) \<Rightarrow> diff_header list \<Rightarrow> spv_error + bytes" where
  "computeErgoDifficultyContextDigest H context' =
     require (\<not> length context' > 0xffff) ContextTooLong
     (andThen (unsignedBytes (int (length context')) 2) (\<lambda>n.
      andThen (contextChunks (-1) context') (\<lambda>chunks. Inr (H (CONTEXT_DOMAIN @ n @ chunks)))))"

definition validateSpvProfile :: "spv_profile \<Rightarrow> spv_error + unit" where
  "validateSpvProfile p =
     andThen (spvExactBytes (sourceNetworkId p) 32 ''source network ID'') (\<lambda>_.
     andThen (spvExactBytes (checkpointHeaderId p) 32 ''checkpoint header ID'') (\<lambda>_.
     andThen (spvExactBytes (checkpointDifficultyContextDigest p) 32 ''checkpoint difficulty context digest'') (\<lambda>_.
     require (\<not> (checkpointCumulativeWork p \<le> 0 \<or> checkpointCumulativeWork p > MAX_U256)) BadCheckpointWork
     (require (\<not> (\<not> isSafeInteger (expectedHeaderVersion p) \<or> expectedHeaderVersion p < 2
                  \<or> expectedHeaderVersion p > 4)) BadExpectedVersion
     (require (\<not> (\<not> isSafeInteger (requiredConfirmations p) \<or> requiredConfirmations p < 1
                  \<or> \<not> isSafeInteger (maximumHeaders p) \<or> maximumHeaders p < requiredConfirmations p)) BadFinalityBounds
     (require (\<not> (maximumFutureDriftMs p < 0 \<or> maximumFutureDriftMs p > MAX_U64)) BadFutureDrift
     (andThen (mapErr SpvDifficulty
                (requiredEip37ContextHeights (activationHeight (difficulty p)) (difficulty p))) (\<lambda>_. Inr ()))))))))"

text \<open>The bytes whose hash is the profile id.\<close>

definition spvProfileBytes :: "spv_profile \<Rightarrow> spv_error + bytes" where
  "spvProfileBytes p =
     andThen (unsignedBytes (checkpointCumulativeWork p) 32) (\<lambda>f1.
     andThen (unsignedBytes (expectedHeaderVersion p) 1) (\<lambda>f2.
     andThen (unsignedBytes (activationHeight (difficulty p)) 4) (\<lambda>f3.
     andThen (unsignedBytes (epochLength (difficulty p)) 4) (\<lambda>f4.
     andThen (unsignedBytes (useLastEpochs (difficulty p)) 4) (\<lambda>f5.
     andThen (unsignedBytes (desiredBlockIntervalMs (difficulty p)) 8) (\<lambda>f6.
     andThen (unsignedBytes (initialDifficulty (difficulty p)) 32) (\<lambda>f7.
     andThen (unsignedBytes (requiredConfirmations p) 4) (\<lambda>f8.
     andThen (unsignedBytes (maximumHeaders p) 4) (\<lambda>f9.
     andThen (unsignedBytes (maximumFutureDriftMs p) 8) (\<lambda>f10.
     Inr (PROFILE_DOMAIN @ sourceNetworkId p @ checkpointHeaderId p @ checkpointDifficultyContextDigest p
          @ f1 @ f2 @ f3 @ f4 @ f5 @ f6 @ f7 @ f8 @ f9 @ f10)))))))))))"

definition computeErgoAutolykosV2SpvProfileId :: "(bytes \<Rightarrow> bytes) \<Rightarrow> spv_profile \<Rightarrow> spv_error + bytes" where
  "computeErgoAutolykosV2SpvProfileId H p =
     andThen (validateSpvProfile p) (\<lambda>_. andThen (spvProfileBytes p) (\<lambda>bytes. Inr (H bytes)))"

definition validateCheckpointDifficultyContext ::
  "(bytes \<Rightarrow> bytes) \<Rightarrow> spv_profile \<Rightarrow> spv_checkpoint \<Rightarrow> spv_error + unit" where
  "validateCheckpointDifficultyContext H p ck =
     andThen (computeErgoDifficultyContextDigest H (ckDifficultyContext ck)) (\<lambda>digest.
     require (digest = checkpointDifficultyContextDigest p) ContextDigestMismatch
     (let len = epochLength (difficulty p); height = hHeight (ckHeader ck);
          nextRecalculationHeight = (if height mod len = 0 then height + 1 else (height div len + 1) * len + 1) in
      andThen (mapErr SpvDifficulty (requiredEip37ContextHeights nextRecalculationHeight (difficulty p))) (\<lambda>heights.
      require (map dHeight (ckDifficultyContext ck) = filter (\<lambda>h. h < height) heights) ContextIncomplete
        (Inr ()))))"

definition toVerifiedHeader :: "header \<Rightarrow> admission \<Rightarrow> int \<Rightarrow> verified_header" where
  "toVerifiedHeader h a cumulativeWork =
     \<lparr> vHeader = h, vHeaderId = aHeaderId a, vDifficulty = aDifficulty a, vCumulativeWork = cumulativeWork,
       vHit = aHit a, vTarget = aTarget a \<rparr>"

text \<open>The loop over the suffix, with its mutable variables as arguments.\<close>

fun suffixLoop ::
  "(bytes \<Rightarrow> bytes) \<Rightarrow> spv_profile \<Rightarrow> int \<Rightarrow> diff_header list \<Rightarrow> header \<Rightarrow> bytes \<Rightarrow> int \<Rightarrow> string list
   \<Rightarrow> header list \<Rightarrow> spv_error + verified_header list \<times> int" where
  "suffixLoop H p observedAt history parent parentId cumulativeWork seen [] = Inr ([], cumulativeWork)"
| "suffixLoop H p observedAt history parent parentId cumulativeWork seen (candidate # rest) =
     require (hVersion candidate = expectedHeaderVersion p) SuffixVersion
     (require (\<not> hTimestamp candidate > observedAt + maximumFutureDriftMs p) FutureTimestamp
     (andThen (mapErr SpvDifficulty (expectedEip37Difficulty (difficultyHeader parent) history (difficulty p)))
       (\<lambda>expectedDifficulty.
      andThen (mapErr SpvDifficulty (encodeErgoCompactDifficulty expectedDifficulty)) (\<lambda>expectedNBits.
      andThen (mapErr SpvAutolykos (admitErgoAutolykosV2Header H candidate
        \<lparr> psHeaderId = parentId, psHeight = hHeight parent, psTimestamp = hTimestamp parent \<rparr> expectedNBits))
       (\<lambda>admission.
      let headerIdHex = toHex (aHeaderId admission) in
      require (\<not> List.member seen headerIdHex) DuplicateHeader
      (require (\<not> aDifficulty admission > MAX_U256 - cumulativeWork) WorkOverflow
       (let work = cumulativeWork + aDifficulty admission in
        andThen (suffixLoop H p observedAt (historySet history (difficultyHeader candidate)) candidate
                   (aHeaderId admission) work (headerIdHex # seen) rest) (\<lambda>(verified, final).
        Inr (toVerifiedHeader candidate admission work # verified, final)))))))))"

definition verifyErgoAutolykosV2SpvBranch ::
  "(bytes \<Rightarrow> bytes) \<Rightarrow> spv_profile \<Rightarrow> spv_checkpoint \<Rightarrow> header list \<Rightarrow> int \<Rightarrow> spv_error + spv_branch" where
  "verifyErgoAutolykosV2SpvBranch H p ck suffix observedAt =
     andThen (validateSpvProfile p) (\<lambda>_.
     require (\<not> (length suffix = 0 \<or> int (length suffix) > maximumHeaders p)) BadSuffixLength
     (require (\<not> (observedAt < 0 \<or> observedAt > MAX_I64)) BadObservationTime
     (andThen (spvExactBytes (ckSourceNetworkId ck) 32 ''checkpoint source network ID'') (\<lambda>networkId.
      require (networkId = sourceNetworkId p) NetworkMismatch
      (andThen (mapErr SpvHeader (computeErgoHeaderId H (ckHeader ck))) (\<lambda>checkpointId.
       require (checkpointId = checkpointHeaderId p) CheckpointMismatch
       (require (hVersion (ckHeader ck) = expectedHeaderVersion p) CheckpointVersion
       (require (\<not> hHeight (ckHeader ck) + 1 < activationHeight (difficulty p)) CheckpointPredatesProfile
       (andThen (validateCheckpointDifficultyContext H p ck) (\<lambda>_.
        andThen (computeErgoAutolykosV2SpvProfileId H p) (\<lambda>profileId.
        let history = historySet (foldl historySet [] (ckDifficultyContext ck)) (difficultyHeader (ckHeader ck)) in
        andThen (suffixLoop H p observedAt history (ckHeader ck) checkpointId (checkpointCumulativeWork p)
                   [toHex checkpointId] suffix) (\<lambda>(verified, cumulativeWork).
        Inr \<lparr> bProfileId = profileId, bSourceNetworkId = networkId, bCheckpointHeaderId = checkpointId,
              bCheckpointHeight = hHeight (ckHeader ck), bRequiredConfirmations = requiredConfirmations p,
              bCumulativeWork = cumulativeWork, bHeaders = verified \<rparr>))))))))))))"

definition selectHeavierErgoAutolykosV2Branch :: "spv_branch \<Rightarrow> spv_branch \<Rightarrow> spv_error + spv_branch" where
  "selectHeavierErgoAutolykosV2Branch current candidate =
     require (\<not> (bProfileId current \<noteq> bProfileId candidate
                \<or> bCheckpointHeaderId current \<noteq> bCheckpointHeaderId candidate)) BranchesDiffer
     (Inr (if bCumulativeWork candidate > bCumulativeWork current then candidate else current))"

fun findHeader :: "bytes \<Rightarrow> nat \<Rightarrow> verified_header list \<Rightarrow> nat option" where
  "findHeader target k [] = None"
| "findHeader target k (h # r) = (if vHeaderId h = target then Some k else findHeader target (Suc k) r)"

definition evaluateErgoSpvBranchTargetDepth :: "spv_branch \<Rightarrow> bytes \<Rightarrow> spv_error + target_depth" where
  "evaluateErgoSpvBranchTargetDepth branch targetHeaderId =
     andThen (spvExactBytes targetHeaderId 32 ''target header ID'') (\<lambda>target.
     case findHeader target 0 (bHeaders branch) of
       None \<Rightarrow> Inr \<lparr> included = False, targetHeight = None, confirmations = 0, depthSatisfied = False \<rparr>
     | Some index \<Rightarrow>
         let c = int (length (bHeaders branch)) - int index in
         Inr \<lparr> included = True, targetHeight = Some (hHeight (vHeader (bHeaders branch ! index))),
               confirmations = c, depthSatisfied = (c \<ge> bRequiredConfirmations branch) \<rparr>)"


section \<open>Verified branches are chains\<close>

text \<open>What one verified header says, given its parent, and a list of them.\<close>

definition links :: "(bytes \<Rightarrow> bytes) \<Rightarrow> spv_profile \<Rightarrow> int \<Rightarrow> header \<Rightarrow> bytes \<Rightarrow> int \<Rightarrow> verified_header \<Rightarrow> bool" where
  "links H p t parent parentId work v \<longleftrightarrow>
     hParentId (vHeader v) = parentId \<and> hHeight (vHeader v) = hHeight parent + 1
   \<and> hTimestamp parent < hTimestamp (vHeader v) \<and> hTimestamp (vHeader v) \<le> t + maximumFutureDriftMs p
   \<and> hVersion (vHeader v) = expectedHeaderVersion p
   \<and> computeErgoHeaderId H (vHeader v) = Inr (vHeaderId v)
   \<and> decodeErgoCompactDifficulty (hNBits (vHeader v)) = Inr (vDifficulty v) \<and> 0 < vDifficulty v
   \<and> calculateAutolykosV2Hit H (vHeader v) = Inr (vHit v)
   \<and> vTarget v = tdiv SECP256K1_ORDER (vDifficulty v) \<and> vHit v < vTarget v
   \<and> vCumulativeWork v = work + vDifficulty v \<and> vCumulativeWork v \<le> MAX_U256"

fun chain :: "(bytes \<Rightarrow> bytes) \<Rightarrow> spv_profile \<Rightarrow> int \<Rightarrow> header \<Rightarrow> bytes \<Rightarrow> int \<Rightarrow> verified_header list \<Rightarrow> bool" where
  "chain H p t parent parentId work [] \<longleftrightarrow> True"
| "chain H p t parent parentId work (v # vs) \<longleftrightarrow>
     links H p t parent parentId work v \<and> chain H p t (vHeader v) (vHeaderId v) (vCumulativeWork v) vs"

lemma suffixLoop_chain:
  "suffixLoop H p t history parent parentId work seen suffix = Inr (vs, final) \<Longrightarrow>
     chain H p t parent parentId work vs \<and> map vHeader vs = suffix
   \<and> final = work + sum_list (map vDifficulty vs)
   \<and> distinct (map vHeaderId vs) \<and> set (map (\<lambda>v. toHex (vHeaderId v)) vs) \<inter> set seen = {}"
proof (induction suffix arbitrary: history parent parentId work seen vs final)
  case (Cons c rest)
  from Cons.prems obtain nBits a us where
    c: "hVersion c = expectedHeaderVersion p" "hTimestamp c \<le> t + maximumFutureDriftMs p"
    and a: "admitErgoAutolykosV2Header H c
        \<lparr> psHeaderId = parentId, psHeight = hHeight parent, psTimestamp = hTimestamp parent \<rparr> nBits = Inr a"
    and new: "toHex (aHeaderId a) \<notin> set seen" and fits: "work + aDifficulty a \<le> MAX_U256"
    and us: "suffixLoop H p t (historySet history (difficultyHeader c)) c (aHeaderId a)
        (work + aDifficulty a) (toHex (aHeaderId a) # seen) rest = Inr (us, final)"
    and vs: "vs = toVerifiedHeader c a (work + aDifficulty a) # us"
    by (auto simp: result_simps Let_def)
  note ih = Cons.IH [OF us]
  have "links H p t parent parentId work (toVerifiedHeader c a (work + aDifficulty a))"
    unfolding links_def toVerifiedHeader_def verified_header.simps by (intro conjI) (use admission_fields [OF a] c fits in auto)
  with ih new show ?case by (auto simp: vs toVerifiedHeader_def)
qed simp

lemma chain_nth:
  "chain H p t parent parentId work vs \<Longrightarrow> i < length vs \<Longrightarrow>
     hHeight (vHeader (vs ! i)) = hHeight parent + int i + 1
   \<and> hParentId (vHeader (vs ! i)) = (if i = 0 then parentId else vHeaderId (vs ! (i - 1)))
   \<and> vCumulativeWork (vs ! i) = work + sum_list (map vDifficulty (take (Suc i) vs))
   \<and> vCumulativeWork (vs ! i) \<le> MAX_U256
   \<and> computeErgoHeaderId H (vHeader (vs ! i)) = Inr (vHeaderId (vs ! i))
   \<and> decodeErgoCompactDifficulty (hNBits (vHeader (vs ! i))) = Inr (vDifficulty (vs ! i))
   \<and> 0 < vDifficulty (vs ! i) \<and> calculateAutolykosV2Hit H (vHeader (vs ! i)) = Inr (vHit (vs ! i))
   \<and> vHit (vs ! i) < tdiv SECP256K1_ORDER (vDifficulty (vs ! i))
   \<and> hTimestamp (if i = 0 then parent else vHeader (vs ! (i - 1))) < hTimestamp (vHeader (vs ! i))
   \<and> hTimestamp (vHeader (vs ! i)) \<le> t + maximumFutureDriftMs p"
proof (induction vs arbitrary: i parent parentId work)
  case (Cons v vs)
  show ?case
  proof (cases i)
    case 0
    with Cons.prems show ?thesis by (simp add: links_def)
  next
    case (Suc j)
    with Cons.prems Cons.IH [of "vHeader v" "vHeaderId v" "vCumulativeWork v" j] show ?thesis
      by (cases j) (auto simp: links_def)
  qed
qed simp

text \<open>The compact difficulty a header carries is the one recalculated from its parent and the headers known before it.\<close>

lemma suffixLoop_nBits:
  "suffixLoop H p t history parent parentId work seen suffix = Inr r \<Longrightarrow> i < length suffix \<Longrightarrow>
     \<exists>d. expectedEip37Difficulty (difficultyHeader ((parent # suffix) ! i))
           (foldl historySet history (map difficultyHeader (take i suffix))) (difficulty p) = Inr d
       \<and> encodeErgoCompactDifficulty d = Inr (hNBits (suffix ! i))"
proof (induction suffix arbitrary: history parent parentId work seen r i)
  case (Cons c rest)
  from Cons.prems(1) obtain d nBits a q where
    d: "expectedEip37Difficulty (difficultyHeader parent) history (difficulty p) = Inr d"
      "encodeErgoCompactDifficulty d = Inr nBits"
    and a: "admitErgoAutolykosV2Header H c
        \<lparr> psHeaderId = parentId, psHeight = hHeight parent, psTimestamp = hTimestamp parent \<rparr> nBits = Inr a"
    and rest: "suffixLoop H p t (historySet history (difficultyHeader c)) c (aHeaderId a)
        (work + aDifficulty a) (toHex (aHeaderId a) # seen) rest = Inr q"
    by (auto simp: result_simps Let_def)
  show ?case
  proof (cases i)
    case 0
    with d admission_fields [OF a] show ?thesis by auto
  next
    case (Suc j)
    with Cons.IH [OF rest, of j] Cons.prems(2) show ?thesis by simp
  qed
qed simp

lemma chain_version:
  "chain H p t parent parentId work vs \<Longrightarrow> i < length vs \<Longrightarrow> hVersion (vHeader (vs ! i)) = expectedHeaderVersion p"
proof (induction vs arbitrary: i parent parentId work)
  case (Cons v vs)
  then show ?case by (cases i) (auto simp: links_def)
qed simp

lemma branch_parts:
  assumes "verifyErgoAutolykosV2SpvBranch H p ck suffix t = Inr b"
  shows "chain H p t (ckHeader ck) (bCheckpointHeaderId b) (checkpointCumulativeWork p) (bHeaders b)"
    and "map vHeader (bHeaders b) = suffix" and "suffix \<noteq> []" and "int (length suffix) \<le> maximumHeaders p"
    and "bCumulativeWork b = checkpointCumulativeWork p + sum_list (map vDifficulty (bHeaders b))"
    and "distinct (bCheckpointHeaderId b # map vHeaderId (bHeaders b))"
    and "computeErgoHeaderId H (ckHeader ck) = Inr (bCheckpointHeaderId b)"
    and "bCheckpointHeaderId b = checkpointHeaderId p" and "bCheckpointHeight b = hHeight (ckHeader ck)"
    and "computeErgoAutolykosV2SpvProfileId H p = Inr (bProfileId b)"
    and "bRequiredConfirmations b = requiredConfirmations p"
    and "i < length suffix \<Longrightarrow> \<exists>d. expectedEip37Difficulty (difficultyHeader ((ckHeader ck # suffix) ! i))
        (foldl historySet [] (ckDifficultyContext ck @ map difficultyHeader (ckHeader ck # take i suffix))) (difficulty p) = Inr d
      \<and> encodeErgoCompactDifficulty d = Inr (hNBits (suffix ! i))"
proof -
  from assms have
    l: "suffixLoop H p t (historySet (foldl historySet [] (ckDifficultyContext ck)) (difficultyHeader (ckHeader ck))) (ckHeader ck) (bCheckpointHeaderId b) (checkpointCumulativeWork p)
        [toHex (bCheckpointHeaderId b)] suffix = Inr (bHeaders b, bCumulativeWork b)"
    and rest: "suffix \<noteq> []" "int (length suffix) \<le> maximumHeaders p"
      "computeErgoHeaderId H (ckHeader ck) = Inr (bCheckpointHeaderId b)"
      "bCheckpointHeaderId b = checkpointHeaderId p" "bCheckpointHeight b = hHeight (ckHeader ck)"
      "computeErgoAutolykosV2SpvProfileId H p = Inr (bProfileId b)"
      "bRequiredConfirmations b = requiredConfirmations p"
    unfolding verifyErgoAutolykosV2SpvBranch_def result_simps Let_def
    by (auto simp: result_simps spvExactBytes_def)
  from suffixLoop_chain [OF l]
  show "chain H p t (ckHeader ck) (bCheckpointHeaderId b) (checkpointCumulativeWork p) (bHeaders b)"
    "map vHeader (bHeaders b) = suffix"
    "bCumulativeWork b = checkpointCumulativeWork p + sum_list (map vDifficulty (bHeaders b))"
    "distinct (bCheckpointHeaderId b # map vHeaderId (bHeaders b))" by auto
  from rest show "suffix \<noteq> []" "int (length suffix) \<le> maximumHeaders p"
      "computeErgoHeaderId H (ckHeader ck) = Inr (bCheckpointHeaderId b)"
      "bCheckpointHeaderId b = checkpointHeaderId p" "bCheckpointHeight b = hHeight (ckHeader ck)"
      "computeErgoAutolykosV2SpvProfileId H p = Inr (bProfileId b)"
      "bRequiredConfirmations b = requiredConfirmations p" by auto
  show "i < length suffix \<Longrightarrow> \<exists>d. expectedEip37Difficulty (difficultyHeader ((ckHeader ck # suffix) ! i))
        (foldl historySet [] (ckDifficultyContext ck @ map difficultyHeader (ckHeader ck # take i suffix))) (difficulty p) = Inr d
      \<and> encodeErgoCompactDifficulty d = Inr (hNBits (suffix ! i))"
    using suffixLoop_nBits [OF l] by simp
qed

text \<open>C4. A verified branch is a chain from the pinned checkpoint with proof of work at every header: its headers are the
  suffix in order; each extends its predecessor by id, height and time, not beyond the allowed drift; its nBits are the
  ones EIP-37 requires after the headers before it; the hit that Autolykos computes from the header lies below the
  target of the difficulty those nBits encode; no identity occurs twice; and the cumulative work at every header is the
  checkpoint's work plus the difficulties up to it, within 256 bits.\<close>

theorem spvBranch_is_chain:
  assumes "verifyErgoAutolykosV2SpvBranch H p ck suffix t = Inr b"
  shows "map vHeader (bHeaders b) = suffix \<and> bCheckpointHeaderId b = checkpointHeaderId p
    \<and> distinct (bCheckpointHeaderId b # map vHeaderId (bHeaders b))
    \<and> bCumulativeWork b = checkpointCumulativeWork p + sum_list (map vDifficulty (bHeaders b))
    \<and> (\<forall>i < length suffix.
          hHeight (suffix ! i) = hHeight (ckHeader ck) + int i + 1
        \<and> hParentId (suffix ! i) = (if i = 0 then bCheckpointHeaderId b else vHeaderId (bHeaders b ! (i - 1)))
        \<and> computeErgoHeaderId H (suffix ! i) = Inr (vHeaderId (bHeaders b ! i))
        \<and> hTimestamp ((ckHeader ck # suffix) ! i) < hTimestamp (suffix ! i)
        \<and> hTimestamp (suffix ! i) \<le> t + maximumFutureDriftMs p
        \<and> (\<exists>d. expectedEip37Difficulty (difficultyHeader ((ckHeader ck # suffix) ! i))
              (foldl historySet [] (ckDifficultyContext ck @ map difficultyHeader (ckHeader ck # take i suffix))) (difficulty p) = Inr d
            \<and> encodeErgoCompactDifficulty d = Inr (hNBits (suffix ! i)))
        \<and> decodeErgoCompactDifficulty (hNBits (suffix ! i)) = Inr (vDifficulty (bHeaders b ! i))
        \<and> 0 < vDifficulty (bHeaders b ! i)
        \<and> calculateAutolykosV2Hit H (suffix ! i) = Inr (vHit (bHeaders b ! i))
        \<and> vHit (bHeaders b ! i) < tdiv SECP256K1_ORDER (vDifficulty (bHeaders b ! i))
        \<and> vCumulativeWork (bHeaders b ! i)
            = checkpointCumulativeWork p + sum_list (map vDifficulty (take (Suc i) (bHeaders b)))
        \<and> vCumulativeWork (bHeaders b ! i) \<le> MAX_U256)" (is "_ \<and> _ \<and> _ \<and> _ \<and> (\<forall>i < length suffix. ?at i)")
proof -
  note B = branch_parts [OF assms]
  have len: "length suffix = length (bHeaders b)" using B(2) by (metis length_map)
  have nth: "suffix ! i = vHeader (bHeaders b ! i)" if "i < length suffix" for i
    using that B(2) len by (metis nth_map)
  have "?at i" if "i < length suffix" for i
  proof -
    have prev: "(ckHeader ck # suffix) ! i = (if i = 0 then ckHeader ck else vHeader (bHeaders b ! (i - 1)))"
      using that nth [of "i - 1"] by (cases i) simp_all
    show ?thesis
      unfolding prev using chain_nth [OF B(1), of i] nth [OF that] B(12) [OF that] that len
      by (intro conjI) (simp_all add: prev)
  qed
  then show ?thesis using B(2,5,6,8) by blast
qed


section \<open>Selection and depth\<close>

text \<open>A client that keeps the preferred branch while candidates arrive; a candidate of another profile or
  checkpoint is rejected and changes nothing.\<close>

definition preferred :: "spv_branch \<Rightarrow> spv_branch \<Rightarrow> spv_branch" where
  "preferred current candidate =
     (case selectHeavierErgoAutolykosV2Branch current candidate of Inl _ \<Rightarrow> current | Inr b \<Rightarrow> b)"

definition comparable :: "spv_branch \<Rightarrow> spv_branch \<Rightarrow> bool" where
  "comparable a b \<longleftrightarrow> bProfileId a = bProfileId b \<and> bCheckpointHeaderId a = bCheckpointHeaderId b"

lemma preferred_eq:
  "preferred a b = (if comparable a b \<and> bCumulativeWork a < bCumulativeWork b then b else a)"
  by (simp add: preferred_def selectHeavierErgoAutolykosV2Branch_def require_def comparable_def)

interpretation selection: monotone_system preferred "comparable b0" bCumulativeWork for b0
  by unfold_locales (auto simp: preferred_eq comparable_def)

lemma preferred_fold_cases:
  "foldl preferred a bs = a \<and> (\<forall>b \<in> set bs. comparable a b \<longrightarrow> bCumulativeWork b \<le> bCumulativeWork a)
   \<or> foldl preferred a bs \<in> set bs \<and> comparable a (foldl preferred a bs)
     \<and> bCumulativeWork a < bCumulativeWork (foldl preferred a bs)
     \<and> (\<forall>b \<in> set bs. comparable a b \<longrightarrow> bCumulativeWork b \<le> bCumulativeWork (foldl preferred a bs))"
proof (induction bs arbitrary: a)
  case (Cons b bs)
  then show ?case
  proof (cases "comparable a b \<and> bCumulativeWork a < bCumulativeWork b")
    case True
    then have p: "preferred a b = b" by (simp add: preferred_eq)
    have c: "comparable a c \<longleftrightarrow> comparable b c" for c using True by (auto simp: comparable_def)
    show ?thesis using Cons.IH [of b] True unfolding foldl_Cons p c by fastforce
  next
    case False
    then have p: "preferred a b = a" by (auto simp: preferred_eq)
    show ?thesis using Cons.IH [of a] False unfolding foldl_Cons p by fastforce
  qed
qed simp

text \<open>Branch selection over any sequence of candidates: the branch that survives is comparable to the first,
  no comparable candidate is heavier, and when none is strictly heavier than the first the first is kept.\<close>

theorem selection_heaviest:
  "comparable a (foldl preferred a bs) \<and> bCumulativeWork a \<le> bCumulativeWork (foldl preferred a bs)
   \<and> list_all (\<lambda>b. comparable a b \<longrightarrow> bCumulativeWork b \<le> bCumulativeWork (foldl preferred a bs)) bs
   \<and> foldl preferred a bs \<in> set (a # bs)
   \<and> (list_all (\<lambda>b. \<not> bCumulativeWork a < bCumulativeWork b) bs \<longrightarrow> foldl preferred a bs = a)"
  using preferred_fold_cases [of a bs] selection.run_inv [of a a bs] selection.run_rank [of a a bs]
  by (auto simp: list_all_iff comparable_def)

lemma findHeader_Some:
  "findHeader target k vs = Some j \<Longrightarrow> \<exists>i < length vs. j = k + i \<and> vHeaderId (vs ! i) = target"
proof (induction vs arbitrary: k)
  case (Cons v vs)
  show ?case
  proof (cases "vHeaderId v = target")
    case False
    with Cons.IH [of "Suc k"] Cons.prems obtain i where "i < length vs" "j = Suc k + i" "vHeaderId (vs ! i) = target"
      by auto
    then show ?thesis by (intro exI [of _ "Suc i"]) simp
  qed (use Cons.prems in auto)
qed simp

lemma findHeader_None: "findHeader target k vs = None \<longleftrightarrow> target \<notin> vHeaderId ` set vs"
  by (induction vs arbitrary: k) auto

lemma depth_exact:
  assumes "verifyErgoAutolykosV2SpvBranch H p ck suffix t = Inr b"
    and "evaluateErgoSpvBranchTargetDepth b target = Inr d"
  shows "(included d \<longleftrightarrow> target \<in> vHeaderId ` set (bHeaders b))
    \<and> (depthSatisfied d \<longleftrightarrow> included d \<and> requiredConfirmations p \<le> confirmations d)
    \<and> (included d \<longrightarrow> (\<exists>i < length suffix. computeErgoHeaderId H (suffix ! i) = Inr target
          \<and> targetHeight d = Some (hHeight (suffix ! i))
          \<and> confirmations d = hHeight (last suffix) - hHeight (suffix ! i) + 1))"
proof (cases "findHeader target 0 (bHeaders b)")
  case None
  with assms(2) show ?thesis
    by (auto simp: evaluateErgoSpvBranchTargetDepth_def spvExactBytes_def result_simps findHeader_None)
next
  case (Some i)
  note B = branch_parts [OF assms(1)]
  from findHeader_Some [OF Some] have i: "i < length (bHeaders b)" "vHeaderId (bHeaders b ! i) = target" by auto
  have len: "length suffix = length (bHeaders b)" using B(2) by (metis length_map)
  have at: "suffix ! j = vHeader (bHeaders b ! j)" if "j < length suffix" for j
    using that B(2) len by (metis nth_map)
  let ?l = "length (bHeaders b) - 1"
  have "?l < length suffix" using B(3) len by (cases suffix) auto
  then have "last suffix = vHeader (bHeaders b ! ?l)" using B(3) at [of ?l] len by (simp add: last_conv_nth)
  moreover have "hHeight (vHeader (bHeaders b ! ?l)) = hHeight (ckHeader ck) + int ?l + 1"
    "hHeight (vHeader (bHeaders b ! i)) = hHeight (ckHeader ck) + int i + 1"
    "computeErgoHeaderId H (vHeader (bHeaders b ! i)) = Inr target"
    using chain_nth [OF B(1), of ?l] chain_nth [OF B(1), of i] i by (auto simp: less_imp_diff_less)
  moreover have "d = \<lparr> included = True, targetHeight = Some (hHeight (vHeader (bHeaders b ! i))),
      confirmations = int (length (bHeaders b)) - int i,
      depthSatisfied = (int (length (bHeaders b)) - int i \<ge> requiredConfirmations p) \<rparr>"
    using assms(2) Some B(11)
    by (auto simp: evaluateErgoSpvBranchTargetDepth_def spvExactBytes_def result_simps Let_def)
  moreover have "target \<in> vHeaderId ` set (bHeaders b)" using i by (metis image_eqI nth_mem)
  ultimately show ?thesis using at [of i] i len B(3) by (auto intro!: exI [of _ i])
qed

text \<open>Depth of a target header in a verified branch: it is included exactly when its id is one of the branch's,
  its confirmations are the tip height minus its height plus one, and the depth is satisfied exactly when it
  is included and the profile's confirmations are reached.\<close>

theorem targetDepth_exact:
  assumes "verifyErgoAutolykosV2SpvBranch H p ck suffix t = Inr b"
    and "evaluateErgoSpvBranchTargetDepth b target = Inr d"
  shows "(included d \<longleftrightarrow> target \<in> vHeaderId ` set (bHeaders b))
    \<and> (depthSatisfied d \<longleftrightarrow> included d \<and> requiredConfirmations p \<le> confirmations d)
    \<and> (included d \<longrightarrow> (\<exists>i < length suffix. computeErgoHeaderId H (suffix ! i) = Inr target
          \<and> targetHeight d = Some (hHeight (suffix ! i))
          \<and> confirmations d = hHeight (last suffix) - hHeight (suffix ! i) + 1))"
  using assms by (rule depth_exact)


section \<open>Profile identity\<close>

lemma unsignedBytes_ok:
  assumes "0 \<le> v" and "v < 256 ^ k" and "0 < k"
  shows "unsignedBytes v k = Inr (beBytes k (nat v))"
proof -
  have v: "nat v < 256 ^ k" using assms by (simp add: nat_less_iff)
  note p = padded_hex_bytes [OF v assms(3)]
  have "length (padStart0 (2 * k) (hexStr (nat v))) = 2 * k" using p(2) by (simp add: padStart0_def)
  then show ?thesis using assms(1) p(1) by (simp add: unsignedBytes_def mult.commute)
qed

lemma unsignedBytes_fits:
  assumes "unsignedBytes v k = Inr bs" and "0 < k"
  shows "0 \<le> v \<and> v < 256 ^ k \<and> bs = beBytes k (nat v)"
proof -
  from assms(1) have v: "0 \<le> v" and len: "length (padStart0 (k * 2) (hexStr (nat v))) \<le> k * 2"
    by (auto simp: unsignedBytes_def result_simps Let_def)
  have "length (hexStr (nat v)) \<le> k * 2" using len by (simp add: padStart0_def)
  then have "(16::nat) ^ length (hexStr (nat v)) \<le> 16 ^ (k * 2)" by (intro power_increasing) auto
  moreover have "nat v < 16 ^ length (hexStr (nat v))"
    using hexNum_less [OF hexStr_lowerHex, of "nat v"] by (simp add: hexNum_hexStr)
  ultimately have "nat v < 16 ^ (k * 2)" by linarith
  then have "nat v < 256 ^ k" by (simp add: power_mult mult.commute [of k])
  then have "v < 256 ^ k" using v by (simp add: nat_less_iff)
  with v assms unsignedBytes_ok [of v k] show ?thesis by simp
qed

lemma unsignedBytes_length: "unsignedBytes v k = Inr bs \<Longrightarrow> 0 < k \<Longrightarrow> length bs = k"
  by (auto dest!: unsignedBytes_fits)

lemma unsignedBytes_inj: "unsignedBytes u k = Inr bs \<Longrightarrow> unsignedBytes v k = Inr bs \<Longrightarrow> 0 < k \<Longrightarrow> u = v"
  using unsignedBytes_fits [of u k bs] unsignedBytes_fits [of v k bs]
  by (metis beBytes_inj eq_nat_nat_iff nat_less_iff of_nat_numeral of_nat_power)

lemma spvProfileBytes_iff:
  "spvProfileBytes p = Inr bs \<longleftrightarrow> (\<exists>f1 f2 f3 f4 f5 f6 f7 f8 f9 f10.
     unsignedBytes (checkpointCumulativeWork p) 32 = Inr f1 \<and> unsignedBytes (expectedHeaderVersion p) 1 = Inr f2
   \<and> unsignedBytes (activationHeight (difficulty p)) 4 = Inr f3 \<and> unsignedBytes (epochLength (difficulty p)) 4 = Inr f4
   \<and> unsignedBytes (useLastEpochs (difficulty p)) 4 = Inr f5
   \<and> unsignedBytes (desiredBlockIntervalMs (difficulty p)) 8 = Inr f6
   \<and> unsignedBytes (initialDifficulty (difficulty p)) 32 = Inr f7 \<and> unsignedBytes (requiredConfirmations p) 4 = Inr f8
   \<and> unsignedBytes (maximumHeaders p) 4 = Inr f9 \<and> unsignedBytes (maximumFutureDriftMs p) 8 = Inr f10
   \<and> bs = PROFILE_DOMAIN @ sourceNetworkId p @ checkpointHeaderId p @ checkpointDifficultyContextDigest p
           @ f1 @ f2 @ f3 @ f4 @ f5 @ f6 @ f7 @ f8 @ f9 @ f10)"
  unfolding spvProfileBytes_def result_simps by auto

definition digestsOk :: "spv_profile \<Rightarrow> bool" where
  "digestsOk p \<longleftrightarrow> length (sourceNetworkId p) = 32 \<and> length (checkpointHeaderId p) = 32
     \<and> length (checkpointDifficultyContextDigest p) = 32"

lemma spvProfileBytes_inj:
  assumes "spvProfileBytes p = Inr bs" and "spvProfileBytes q = Inr bs" and d: "digestsOk p" "digestsOk q"
  shows "p = q"
proof -
  from assms(1)[unfolded spvProfileBytes_iff] obtain f1 f2 f3 f4 f5 f6 f7 f8 f9 f10 where
    f: "unsignedBytes (checkpointCumulativeWork p) 32 = Inr f1" "unsignedBytes (expectedHeaderVersion p) 1 = Inr f2"
      "unsignedBytes (activationHeight (difficulty p)) 4 = Inr f3" "unsignedBytes (epochLength (difficulty p)) 4 = Inr f4"
      "unsignedBytes (useLastEpochs (difficulty p)) 4 = Inr f5"
      "unsignedBytes (desiredBlockIntervalMs (difficulty p)) 8 = Inr f6"
      "unsignedBytes (initialDifficulty (difficulty p)) 32 = Inr f7" "unsignedBytes (requiredConfirmations p) 4 = Inr f8"
      "unsignedBytes (maximumHeaders p) 4 = Inr f9" "unsignedBytes (maximumFutureDriftMs p) 8 = Inr f10"
    and fb: "bs = PROFILE_DOMAIN @ sourceNetworkId p @ checkpointHeaderId p @ checkpointDifficultyContextDigest p
           @ f1 @ f2 @ f3 @ f4 @ f5 @ f6 @ f7 @ f8 @ f9 @ f10" by blast
  from assms(2)[unfolded spvProfileBytes_iff] obtain g1 g2 g3 g4 g5 g6 g7 g8 g9 g10 where
    g: "unsignedBytes (checkpointCumulativeWork q) 32 = Inr g1" "unsignedBytes (expectedHeaderVersion q) 1 = Inr g2"
      "unsignedBytes (activationHeight (difficulty q)) 4 = Inr g3" "unsignedBytes (epochLength (difficulty q)) 4 = Inr g4"
      "unsignedBytes (useLastEpochs (difficulty q)) 4 = Inr g5"
      "unsignedBytes (desiredBlockIntervalMs (difficulty q)) 8 = Inr g6"
      "unsignedBytes (initialDifficulty (difficulty q)) 32 = Inr g7" "unsignedBytes (requiredConfirmations q) 4 = Inr g8"
      "unsignedBytes (maximumHeaders q) 4 = Inr g9" "unsignedBytes (maximumFutureDriftMs q) 8 = Inr g10"
    and gb: "bs = PROFILE_DOMAIN @ sourceNetworkId q @ checkpointHeaderId q @ checkpointDifficultyContextDigest q
           @ g1 @ g2 @ g3 @ g4 @ g5 @ g6 @ g7 @ g8 @ g9 @ g10" by blast
  note lens = f [THEN unsignedBytes_length] g [THEN unsignedBytes_length]
  have eqs: "sourceNetworkId p = sourceNetworkId q" "checkpointHeaderId p = checkpointHeaderId q"
    "checkpointDifficultyContextDigest p = checkpointDifficultyContextDigest q" "f1 = g1" "f2 = g2" "f3 = g3"
    "f4 = g4" "f5 = g5" "f6 = g6" "f7 = g7" "f8 = g8" "f9 = g9" "f10 = g10"
    using fb gb lens d by (simp_all add: append_eq_append_conv digestsOk_def)
  show ?thesis using f g unfolding eqs
    by (intro spv_profile.equality eip37_profile.equality) (auto simp: eqs intro: unsignedBytes_inj)
qed

text \<open>The profile id binds every field of the profile: two profiles with the same id are equal, or their two
  encodings are a collision of the hash function.\<close>

theorem profileId_binds:
  assumes "computeErgoAutolykosV2SpvProfileId H p = Inr i" and "computeErgoAutolykosV2SpvProfileId H q = Inr i"
  shows "p = q \<or> (\<exists>a b. spvProfileBytes p = Inr a \<and> spvProfileBytes q = Inr b \<and> a \<noteq> b \<and> H a = H b)"
proof -
  from assms obtain a b where ab: "spvProfileBytes p = Inr a" "spvProfileBytes q = Inr b" "H a = H b"
    "digestsOk p" "digestsOk q"
    by (auto simp: computeErgoAutolykosV2SpvProfileId_def validateSpvProfile_def spvExactBytes_def digestsOk_def
        result_simps)
  then show ?thesis using spvProfileBytes_inj by blast
qed

section \<open>A branch of one header\<close>

text \<open>A digest that tells the checkpoint from every other header by its parent id.\<close>

definition demoChainHash :: "bytes \<Rightarrow> bytes" where
  "demoChainHash x = (if take 32 (drop 1 x) = replicate 32 7 then replicate 32 1 else replicate 32 0)"

definition demoCheckpointHeader :: header where
  "demoCheckpointHeader = (demoHeader None) \<lparr> hParentId := replicate 32 7, hHeight := 899999,
     hTimestamp := 1699999999999, hNBits := 16842752 \<rparr>"

definition demoCheckpoint :: spv_checkpoint where
  "demoCheckpoint = \<lparr> ckSourceNetworkId = replicate 32 3, ckHeader = demoCheckpointHeader,
     ckDifficultyContext = [\<lparr> dHeight = 0, dTimestamp = 0, dNBits = 16842752 \<rparr>] \<rparr>"

definition demoSpvProfile :: spv_profile where
  "demoSpvProfile = \<lparr> sourceNetworkId = replicate 32 3, checkpointHeaderId = replicate 32 1,
     checkpointDifficultyContextDigest = replicate 32 0, checkpointCumulativeWork = 10,
     expectedHeaderVersion = 2,
     difficulty = \<lparr> activationHeight = 800000, epochLength = 1000000, useLastEpochs = 2,
       desiredBlockIntervalMs = 120000, initialDifficulty = 1 \<rparr>,
     requiredConfirmations = 1, maximumHeaders = 10, maximumFutureDriftMs = 1000 \<rparr>"

lemma length_demoChainHash [simp]: "length (demoChainHash x) = 32"
  by (simp add: demoChainHash_def)

lemma serialize_parent: "serializeErgoHeaderIdentity h = Inr bs \<Longrightarrow> take 32 (drop 1 bs) = hParentId h"
  by (auto simp: serialize_iff withoutPow_iff fieldsOk_def)

lemma demo_ids:
  "computeErgoHeaderId demoChainHash demoCheckpointHeader = Inr (replicate 32 1)"
  "computeErgoHeaderId demoChainHash demoMined = Inr (replicate 32 0)"
proof -
  have "isOk (serializeErgoHeaderIdentity demoCheckpointHeader)"
    by (simp add: isOk_iff serialize_iff withoutPow_iff fieldsOk_def powOk_def demoCheckpointHeader_def
        demoHeader_def header_consts)
  then obtain bs cs where s: "serializeErgoHeaderIdentity demoCheckpointHeader = Inr bs"
    "serializeErgoHeaderIdentity demoMined = Inr cs" using demoMined_serializes by (auto simp: isOk_iff)
  have "take 32 (drop 1 bs) = replicate 32 7" "take 32 (drop 1 cs) = replicate 32 1"
    using serialize_parent [OF s(1)] serialize_parent [OF s(2)]
    by (simp_all add: demoCheckpointHeader_def demoMined_def demoHeader_def)
  moreover have "replicate 32 (1 :: byte) \<noteq> replicate 32 7" by simp
  ultimately show "computeErgoHeaderId demoChainHash demoCheckpointHeader = Inr (replicate 32 1)"
    "computeErgoHeaderId demoChainHash demoMined = Inr (replicate 32 0)"
    using s by (simp_all add: computeErgoHeaderId_def demoChainHash_def)
qed

lemma demo_pow: "verifyClaimedAutolykosV2ProofOfWork demoChainHash demoMined = Inr True"
proof (rule demoMined_pow_any)
  have snoc: "replicate (Suc n) x = replicate n x @ [x :: byte]" for n x by (simp add: replicate_append_same)
  have "255 * beVal (replicate n 1) + 1 = 256 ^ n" for n
    by (induction n) (simp_all add: snoc beVal_snoc del: replicate_Suc)
  moreover have "beVal (replicate n 0) = 0" for n
    by (induction n) (simp_all add: snoc beVal_snoc del: replicate_Suc)
  ultimately have "255 * beVal (replicate 32 1) + 1 = 256 ^ 32" "beVal (replicate 32 0) = 0" by blast+
  then show "bytesValue (demoChainHash x) < SECP256K1_ORDER" for x
    by (simp add: demoChainHash_def bytesValue_beVal SECP256K1_ORDER_def)
qed simp

lemma demo_encode_one: "encodeErgoCompactDifficulty 1 = Inr 16842752"
  by (simp add: encodeErgoCompactDifficulty_def hexStr.simps MAX_U256_def push_bit_eq_mult require_def)

lemma demoHeader_admitted:
  "\<exists>a. admitErgoAutolykosV2Header demoChainHash demoMined
      \<lparr> psHeaderId = replicate 32 1, psHeight = 899999, psTimestamp = 1699999999999 \<rparr> 16842752 = Inr a
    \<and> aHeaderId a = replicate 32 0 \<and> aDifficulty a = 1"
proof -
  let ?parent = "\<lparr> psHeaderId = replicate 32 1, psHeight = 899999, psTimestamp = 1699999999999 \<rparr> :: parent_state"
  have "isOk (admitErgoAutolykosV2Header demoChainHash demoMined ?parent 16842752)"
    using admission_iff [of ?parent demoChainHash demoMined 16842752] demo_pow demo_ids(2)
    by (simp add: safe_defs) (simp add: demoMined_def demoHeader_def)
  then obtain a where a: "admitErgoAutolykosV2Header demoChainHash demoMined ?parent 16842752 = Inr a"
    by (auto simp: isOk_iff)
  from admission_fields [OF a] demo_ids(2) have "aHeaderId a = replicate 32 0"
    "decodeErgoCompactDifficulty 16842752 = Inr (aDifficulty a)" by auto
  with a demo_difficulty_one show ?thesis by auto
qed


lemma demo_profile_valid: "validateSpvProfile demoSpvProfile = Inr ()"
  by (simp add: validateSpvProfile_def spvExactBytes_def demoSpvProfile_def MAX_U256_def MAX_U64_def safe_defs
      requiredEip37ContextHeights_def validateProfile_def MAX_CONTEXT_HEADERS_def header_consts)

lemma demo_profile_id: "\<exists>i. computeErgoAutolykosV2SpvProfileId demoChainHash demoSpvProfile = Inr i"
  by (simp add: computeErgoAutolykosV2SpvProfileId_def demo_profile_valid)
    (simp add: demoSpvProfile_def spvProfileBytes_def unsignedBytes_ok)

theorem profileId_binds_witness:
  "\<exists>i. computeErgoAutolykosV2SpvProfileId demoChainHash demoSpvProfile = Inr i \<and>
     (\<forall>q. computeErgoAutolykosV2SpvProfileId demoChainHash q = Inr i \<and> spvProfileBytes q = spvProfileBytes demoSpvProfile
        \<longrightarrow> q = demoSpvProfile)"
proof -
  obtain i where i: "computeErgoAutolykosV2SpvProfileId demoChainHash demoSpvProfile = Inr i"
    using demo_profile_id by blast
  show ?thesis using i profileId_binds [OF i] by (intro exI [of _ i] conjI allI impI) (blast, metis sum.inject(2))
qed

lemma replicate_numeral_Cons: "x # xs = replicate 32 y \<longleftrightarrow> x = y \<and> xs = replicate 31 y"
  using replicate_Suc [of 31 y] by simp

lemma demo_context_digest:
  "computeErgoDifficultyContextDigest demoChainHash (ckDifficultyContext demoCheckpoint) = Inr (replicate 32 0)"
  by (simp add: computeErgoDifficultyContextDigest_def demoCheckpoint_def unsignedBytes_ok safe_defs header_consts
      demo_difficulty_one)
   (simp add: demoChainHash_def CONTEXT_DOMAIN_def replicate_numeral_Cons code_def)

lemma demo_context: "validateCheckpointDifficultyContext demoChainHash demoSpvProfile demoCheckpoint = Inr ()"
  unfolding validateCheckpointDifficultyContext_def demo_context_digest
  by (simp add: demoCheckpoint_def demoCheckpointHeader_def demoSpvProfile_def Let_def safe_defs
      requiredEip37ContextHeights_def validateProfile_def MAX_CONTEXT_HEADERS_def header_consts
      numeral_2_eq_2)


lemma demo_expected:
  "expectedEip37Difficulty (difficultyHeader demoCheckpointHeader) history (difficulty demoSpvProfile) = Inr 1"
  by (simp add: expectedEip37Difficulty_def demoSpvProfile_def demoCheckpointHeader_def demoHeader_def
      difficultyHeader_def validateProfile_def validateHeader_def positiveDifficulty_def demo_difficulty_one
      MAX_CONTEXT_HEADERS_def header_consts safe_defs Let_def)

lemma demo_branch:
  "\<exists>b. verifyErgoAutolykosV2SpvBranch demoChainHash demoSpvProfile demoCheckpoint [demoMined] 1700000000000 = Inr b
     \<and> map vHeaderId (bHeaders b) = [replicate 32 0]"
proof -
  obtain a where a: "admitErgoAutolykosV2Header demoChainHash demoMined
      \<lparr> psHeaderId = replicate 32 1, psHeight = 899999, psTimestamp = 1699999999999 \<rparr> 16842752 = Inr a"
    "aHeaderId a = replicate 32 0" "aDifficulty a = 1" using demoHeader_admitted by blast
  have ck: "hHeight demoCheckpointHeader = 899999" "hTimestamp demoCheckpointHeader = 1699999999999"
    "hVersion demoCheckpointHeader = 2" by (simp_all add: demoCheckpointHeader_def demoHeader_def)
  have m: "hVersion demoMined = 2" "hTimestamp demoMined = 1700000000000" by (simp_all add: demoMined_def demoHeader_def)
  have p: "expectedHeaderVersion demoSpvProfile = 2" "maximumFutureDriftMs demoSpvProfile = 1000"
    "checkpointCumulativeWork demoSpvProfile = 10" "maximumHeaders demoSpvProfile = 10"
    "sourceNetworkId demoSpvProfile = replicate 32 3" "checkpointHeaderId demoSpvProfile = replicate 32 1"
    "activationHeight (difficulty demoSpvProfile) = 800000" by (simp_all add: demoSpvProfile_def)
  have c: "ckHeader demoCheckpoint = demoCheckpointHeader" "ckSourceNetworkId demoCheckpoint = replicate 32 3"
    by (simp_all add: demoCheckpoint_def)
  have step: "\<exists>w. suffixLoop demoChainHash demoSpvProfile 1700000000000 history demoCheckpointHeader (replicate 32 1) 10
      [toHex (replicate 32 1)] [demoMined] = Inr ([toVerifiedHeader demoMined a 11], w)" for history
    by (simp add: m p demo_expected demo_encode_one ck a Let_def MAX_U256_def)
  obtain i where "computeErgoAutolykosV2SpvProfileId demoChainHash demoSpvProfile = Inr i"
    using demo_profile_id by blast
  then show ?thesis
    using step [of "historySet (foldl historySet [] (ckDifficultyContext demoCheckpoint)) (difficultyHeader demoCheckpointHeader)"]
    by (auto simp: verifyErgoAutolykosV2SpvBranch_def demo_profile_valid spvExactBytes_def c p ck demo_ids demo_context
        header_consts Let_def toVerifiedHeader_def a)
qed

theorem spvBranch_is_chain_witness:
  "\<exists>b. verifyErgoAutolykosV2SpvBranch demoChainHash demoSpvProfile demoCheckpoint [demoMined] 1700000000000 = Inr b
     \<and> map vHeader (bHeaders b) = [demoMined] \<and> bCheckpointHeaderId b = replicate 32 1
     \<and> bCumulativeWork b = 10 + sum_list (map vDifficulty (bHeaders b))
     \<and> calculateAutolykosV2Hit demoChainHash demoMined = Inr (vHit (bHeaders b ! 0))
     \<and> vHit (bHeaders b ! 0) < tdiv SECP256K1_ORDER (vDifficulty (bHeaders b ! 0))"
proof -
  obtain b where
    b: "verifyErgoAutolykosV2SpvBranch demoChainHash demoSpvProfile demoCheckpoint [demoMined] 1700000000000 = Inr b"
    using demo_branch by blast
  show ?thesis by (rule exI [of _ b]) (use b spvBranch_is_chain [OF b] in \<open>simp add: demoSpvProfile_def\<close>)
qed

theorem targetDepth_exact_witness:
  "\<exists>b (d :: target_depth). evaluateErgoSpvBranchTargetDepth b (replicate 32 0) = Inr d \<and> included d \<and> depthSatisfied d \<and> confirmations d = 1"
proof -
  obtain b where
    b: "verifyErgoAutolykosV2SpvBranch demoChainHash demoSpvProfile demoCheckpoint [demoMined] 1700000000000 = Inr b"
    "map vHeaderId (bHeaders b) = [replicate 32 0]"
    using demo_branch by (elim exE conjE) (rule that)
  obtain d where d: "evaluateErgoSpvBranchTargetDepth b (replicate 32 0) = Inr d"
    using that unfolding evaluateErgoSpvBranchTargetDepth_def spvExactBytes_def length_replicate Let_def
    by (cases "findHeader (replicate 32 0) 0 (bHeaders b)") (simp_all only: require_True andThen.simps option.case simp_thms)
  have "replicate 32 0 \<in> set (map vHeaderId (bHeaders b))" by (simp only: b(2)) simp
  then have inc: "included d" using targetDepth_exact [OF b(1) d] by simp
  with targetDepth_exact [OF b(1) d] have "confirmations d = 1" "depthSatisfied d"
    by (auto simp: demoSpvProfile_def)
  with d inc show ?thesis by blast
qed


definition demoBranch :: "int \<Rightarrow> spv_branch" where
  "demoBranch work = \<lparr> bProfileId = replicate 32 9, bSourceNetworkId = replicate 32 3,
     bCheckpointHeaderId = replicate 32 1, bCheckpointHeight = 899999, bRequiredConfirmations = 1,
     bCumulativeWork = work, bHeaders = [] \<rparr>"

theorem selection_heaviest_witness: "foldl preferred (demoBranch 12) [demoBranch 10, demoBranch 12] = demoBranch 12"
  using selection_heaviest [of "demoBranch 12" "[demoBranch 10, demoBranch 12]"] by (simp add: demoBranch_def)

end
