(* ===== verification/Tx_Balance.thy ===== *)
theory Tx_Balance
  imports Bridge_Prelude
begin

text \<open>
  Value conservation of an Ergo transaction: \<^verbatim>\<open>ergo-settlement-core/tx-balance.ts\<close>. The planner exists
  twice, on JavaScript numbers and on bigints. A number is the integer it denotes, and a sum of
  numbers is \<open>numberAdd\<close> of the prelude.
\<close>

section \<open>Definitions\<close>

datatype balance_error = OutsideSafeRange string | NegativeChange | NotABigInt

datatype amount = NumberAmount int | BigIntAmount int | TextAmount string

text \<open>\<^verbatim>\<open>BigInt(text)\<close>: blanks around the text are dropped, the empty text is zero, a sign is allowed before
  decimal digits only, and the prefixes \<^verbatim>\<open>0x\<close>, \<^verbatim>\<open>0o\<close> and \<^verbatim>\<open>0b\<close> select another radix.\<close>

definition radixVal :: "nat \<Rightarrow> string \<Rightarrow> int option" where
  "radixVal radix s =
     (if s \<noteq> [] \<and> list_all (\<lambda>c. case hexVal c of None \<Rightarrow> False | Some d \<Rightarrow> d < radix) s
      then Some (foldl (\<lambda>a c. a * int radix + int (the (hexVal c))) 0 s) else None)"

definition bigintOfText :: "string \<Rightarrow> int option" where
  "bigintOfText text =
     (let s = trimBlanks text; prefix = lowerStr (take 2 s) in
      if s = [] then Some 0
      else if prefix = ''0x'' then radixVal 16 (drop 2 s)
      else if prefix = ''0o'' then radixVal 8 (drop 2 s)
      else if prefix = ''0b'' then radixVal 2 (drop 2 s)
      else if hd s = CHR ''-'' then map_option uminus (radixVal 10 (tl s))
      else if hd s = CHR ''+'' then radixVal 10 (tl s)
      else radixVal 10 s)"

definition safeNanoErgNumber :: "amount \<Rightarrow> string \<Rightarrow> balance_error + int" where
  "safeNanoErgNumber value label =
     (case value of
        NumberAmount v \<Rightarrow> require (\<not> (v < 0 \<or> \<not> isSafeInteger v)) (OutsideSafeRange label) (Inr v)
      | _ \<Rightarrow>
          (case (case value of TextAmount s \<Rightarrow> bigintOfText s | BigIntAmount v \<Rightarrow> Some v | NumberAmount v \<Rightarrow> Some v) of
             None \<Rightarrow> Inl NotABigInt
           | Some n \<Rightarrow> require (\<not> (n < 0 \<or> n > MAX_SAFE_INTEGER)) (OutsideSafeRange label) (Inr n)))"

record change_plan =
  changeOutputValue :: int
  minerFeeValue :: int
  absorbedDust :: int

definition planChangeOrFee :: "int \<Rightarrow> int \<Rightarrow> int \<Rightarrow> balance_error + change_plan" where
  "planChangeOrFee changeValue minerFee minBoxValue =
     require (\<not> changeValue < 0) NegativeChange
     (if changeValue \<ge> minBoxValue
      then Inr \<lparr> changeOutputValue = changeValue, minerFeeValue = minerFee, absorbedDust = 0 \<rparr>
      else Inr \<lparr> changeOutputValue = 0, minerFeeValue = numberAdd minerFee changeValue,
                 absorbedDust = changeValue \<rparr>)"

definition planChangeOrFeeBigInt :: "int \<Rightarrow> int \<Rightarrow> int \<Rightarrow> balance_error + change_plan" where
  "planChangeOrFeeBigInt changeValue minerFee minBoxValue =
     require (\<not> changeValue < 0) NegativeChange
     (if changeValue \<ge> minBoxValue
      then Inr \<lparr> changeOutputValue = changeValue, minerFeeValue = minerFee, absorbedDust = 0 \<rparr>
      else Inr \<lparr> changeOutputValue = 0, minerFeeValue = minerFee + changeValue,
                 absorbedDust = changeValue \<rparr>)"


section \<open>Conservation\<close>

text \<open>C39. The plan conserves value exactly and makes no dust output: change and fee of the plan add up to
  the change and fee put in, the change output is zero or at least the minimum box value, and what is
  absorbed into the fee is below that minimum. An outcome exists for every change that is not negative.\<close>

theorem changePlan_conserves:
  assumes "0 \<le> changeValue" and "0 < minBoxValue"
  shows "\<exists>p. planChangeOrFeeBigInt changeValue minerFee minBoxValue = Inr p
    \<and> changeOutputValue p + minerFeeValue p = changeValue + minerFee
    \<and> (changeOutputValue p = 0 \<or> minBoxValue \<le> changeOutputValue p)
    \<and> 0 \<le> absorbedDust p \<and> absorbedDust p < minBoxValue \<and> minerFeeValue p = minerFee + absorbedDust p"
  using assms by (auto simp: planChangeOrFeeBigInt_def)

theorem changePlan_conserves_witness:
  "\<exists>p. planChangeOrFeeBigInt 900 1000000 1000000 = Inr p
    \<and> changeOutputValue p + minerFeeValue p = 900 + 1000000 \<and> absorbedDust p < 1000000"
  using changePlan_conserves [of 900 1000000 1000000] by auto

text \<open>The planner on numbers is the planner on bigints wherever the sum of change and fee is a safe
  integer; amounts that pass \<^verbatim>\<open>safeNanoErgNumber\<close> are safe integers.\<close>

theorem changePlan_number_is_bigint:
  assumes "safeNanoErgNumber v label = Inr changeValue" and "isSafeInteger (minerFee + changeValue)"
  shows "planChangeOrFee changeValue minerFee minBoxValue = planChangeOrFeeBigInt changeValue minerFee minBoxValue
    \<and> 0 \<le> changeValue \<and> changeValue \<le> MAX_SAFE_INTEGER"
proof -
  have "0 \<le> changeValue \<and> changeValue \<le> MAX_SAFE_INTEGER"
    using assms(1)
    by (auto simp: safeNanoErgNumber_def result_simps safe_defs split: amount.splits option.splits)
  then show ?thesis
    by (simp add: planChangeOrFee_def planChangeOrFeeBigInt_def numberAdd_safe [OF assms(2)])
qed

theorem changePlan_number_is_bigint_witness:
  "planChangeOrFee 900 1000000 1000000 = planChangeOrFeeBigInt 900 1000000 1000000"
proof -
  have "bigintOfText '' 900 '' = Some 900" by code_simp
  then have "safeNanoErgNumber (TextAmount '' 900 '') ''change'' = Inr 900"
    by (simp add: safeNanoErgNumber_def safe_defs)
  from changePlan_number_is_bigint [OF this, of 1000000 1000000] show ?thesis by (simp add: safe_defs)
qed

text \<open>Outside that range the two differ: \<open>2 ^ 53 + 1\<close> is not a number.\<close>

lemma number_plan_rounds:
  "planChangeOrFee 1 (2 ^ 53) 2 \<noteq> planChangeOrFeeBigInt 1 (2 ^ 53) 2"
proof -
  have "bitLength 9007199254740993 = 54" by (simp add: bitLength.simps)
  then show ?thesis
    by (simp add: planChangeOrFee_def planChangeOrFeeBigInt_def numberAdd_def roundDouble_def Let_def)
qed

end
