(* ===== verification/Read_Quorum.thy ===== *)
theory Read_Quorum
  imports Bridge_Prelude
begin

text \<open>
  The two supervisors that gate the release of funds: the read-quorum circuit breaker
  (\<^verbatim>\<open>relayer-core/ergo-read-quorum-supervisor.ts\<close>) and the signer availability latch
  (\<^verbatim>\<open>relayer-core/ergo-signer-availability.ts\<close>).

  A supervisor object is a record; a method is a function from the record to the record and its result, where
  \<open>Inl\<close> is a \<^verbatim>\<open>throw\<close>. \<^verbatim>\<open>PROBE_TOKENS\<close> and \<^verbatim>\<open>READ_CYCLE_DECISIONS\<close> are weak maps from the objects the
  supervisors hand out to what they were issued for. A token or decision of the model carries that entry
  with it, or is marked as an object no supervisor made; objects and entries are frozen when they are made,
  so carrying them is the same as looking them up. The identity object \<^verbatim>\<open>owner\<close> is a number. The generation counter is
  raised once a probe and is an \<open>int\<close>; it stays far below the end of the safe range.
\<close>

section \<open>Definitions\<close>

datatype quorum_state = Open | HalfOpen | Closed

datatype failure_code =
    not_configured | source_unavailable | invalid_response | source_unstable
  | source_disagreement | probe_stale | unexpected_failure

datatype quorum_error =
    NotSafeTimestamp string
  | NotHex32 string
  | UnsupportedFailureCode
  | UnsupportedObservationSchema
  | NotTwoSources
  | SourcesNotDistinct
  | CompletionPrecedesStart
  | BadMaxAge

definition ERGO_READ_QUORUM_OBSERVATION_SCHEMA :: string where
  "ERGO_READ_QUORUM_OBSERVATION_SCHEMA = ''e2s.ergo-read-quorum-observation.v1''"

text \<open>An observation as it arrives; \<open>None\<close> where a string is expected and the value is not one.\<close>

record raw_observation =
  rawSchema :: string
  rawSourceIds :: "string option list"
  rawTipHeight :: int
  rawTipHeaderId :: "string option"
  rawDigest :: "string option"
  rawStartedAt :: int
  rawCompletedAt :: int

record observation =
  sourceIdsHex :: "string \<times> string"
  tipHeight :: int
  tipHeaderIdHex :: string
  observationDigestHex :: string
  startedAtMs :: int
  completedAtMs :: int

text \<open>A token a supervisor issued, with the owner and generation it was issued for, or another object that has
  a generation field.\<close>

datatype probe_token = Issued nat int | Foreign int

fun tokGeneration :: "probe_token \<Rightarrow> int" where
  "tokGeneration (Issued owner g) = g"
| "tokGeneration (Foreign g) = g"

record snapshot =
  snState :: quorum_state
  snFundsReleaseHeld :: bool
  snActiveGeneration :: "int option"
  snConsecutiveFailures :: int
  snReason :: "failure_code option"
  snLastFailureCode :: "failure_code option"
  snLastAccepted :: "((string \<times> string) \<times> int \<times> string \<times> string \<times> int) option"

text \<open>A decision: the tip it allows (\<open>None\<close> for \<^verbatim>\<open>hold_read_cycle\<close>), its snapshot, its binding.\<close>

record cycle_decision =
  dcTip :: "(int \<times> string \<times> string) option"
  dcSnapshot :: snapshot
  dcBinding :: "(nat \<times> int \<times> string) option"

datatype record_result = Accepted | Stale

definition normalizeSafeTimestamp :: "int \<Rightarrow> string \<Rightarrow> quorum_error + int" where
  "normalizeSafeTimestamp value label = require (\<not> (\<not> isSafeInteger value \<or> value < 0)) (NotSafeTimestamp label) (Inr value)"

definition normalizeHex32 :: "string option \<Rightarrow> string \<Rightarrow> quorum_error + string" where
  "normalizeHex32 value label = (case value of
       None \<Rightarrow> Inl (NotHex32 label)
     | Some v \<Rightarrow> let normalized = lowerStr (strip0xAny (trimBlanks v)) in
         require (isHex64 normalized) (NotHex32 label) (Inr normalized))"

definition failureCodeName :: "failure_code \<Rightarrow> string" where
  "failureCodeName c = (case c of
       not_configured \<Rightarrow> ''not_configured'' | source_unavailable \<Rightarrow> ''source_unavailable''
     | invalid_response \<Rightarrow> ''invalid_response'' | source_unstable \<Rightarrow> ''source_unstable''
     | source_disagreement \<Rightarrow> ''source_disagreement'' | probe_stale \<Rightarrow> ''probe_stale''
     | unexpected_failure \<Rightarrow> ''unexpected_failure'')"

definition FAILURE_CODES :: "failure_code list" where
  "FAILURE_CODES = [not_configured, source_unavailable, invalid_response, source_unstable,
                    source_disagreement, probe_stale, unexpected_failure]"

definition normalizeFailureCode :: "string \<Rightarrow> quorum_error + failure_code" where
  "normalizeFailureCode value = (case List.find (\<lambda>c. failureCodeName c = value) FAILURE_CODES of
       None \<Rightarrow> Inl UnsupportedFailureCode | Some c \<Rightarrow> Inr c)"

text \<open>Comparison of strings by code units, as \<^verbatim>\<open>Array.prototype.sort\<close> does.\<close>

fun strLess :: "string \<Rightarrow> string \<Rightarrow> bool" where
  "strLess _ [] = False"
| "strLess [] (_ # _) = True"
| "strLess (a # s) (b # t) = (code a < code b \<or> a = b \<and> strLess s t)"

definition normalizeObservation :: "raw_observation \<Rightarrow> quorum_error + observation" where
  "normalizeObservation raw =
     require (rawSchema raw = ERGO_READ_QUORUM_OBSERVATION_SCHEMA) UnsupportedObservationSchema
     (require (length (rawSourceIds raw) = 2) NotTwoSources
     (andThen (mapR (\<lambda>i. normalizeHex32 i ''source ID'') (rawSourceIds raw)) (\<lambda>ids.
      let a = ids ! 0; b = ids ! 1; sorted = (if strLess b a then (b, a) else (a, b)) in
      require (fst sorted \<noteq> snd sorted) SourcesNotDistinct
      (andThen (normalizeSafeTimestamp (rawStartedAt raw) ''probe start'') (\<lambda>started.
       andThen (normalizeSafeTimestamp (rawCompletedAt raw) ''probe completion'') (\<lambda>completed.
       require (\<not> completed < started) CompletionPrecedesStart
       (andThen (normalizeSafeTimestamp (rawTipHeight raw) ''tip height'') (\<lambda>height.
        andThen (normalizeHex32 (rawTipHeaderId raw) ''tip header ID'') (\<lambda>header.
        andThen (normalizeHex32 (rawDigest raw) ''observation digest'') (\<lambda>digest.
        Inr \<lparr> sourceIdsHex = sorted, tipHeight = height, tipHeaderIdHex = header,
              observationDigestHex = digest, startedAtMs = started, completedAtMs = completed \<rparr>))))))))))"

record supervisor =
  svOwner :: nat
  maxAgeMs :: int
  svState :: quorum_state
  generation :: int
  activeGeneration :: "int option"
  activeProbeStartedAtMs :: "int option"
  acceptedGeneration :: "int option"
  consecutiveFailures :: int
  lastFailureCode :: "failure_code option"
  lastAcceptedObservation :: "observation option"

definition newSupervisor :: "nat \<Rightarrow> int \<Rightarrow> quorum_error + supervisor" where
  "newSupervisor owner age = require (\<not> (\<not> isSafeInteger age \<or> age \<le> 0)) BadMaxAge
     (Inr \<lparr> svOwner = owner, maxAgeMs = age, svState = Open, generation = 0, activeGeneration = None,
            activeProbeStartedAtMs = None, acceptedGeneration = None, consecutiveFailures = 0,
            lastFailureCode = Some not_configured, lastAcceptedObservation = None \<rparr>)"

definition recordCurrentFailure :: "supervisor \<Rightarrow> failure_code \<Rightarrow> supervisor" where
  "recordCurrentFailure s failureCode =
     s \<lparr> activeGeneration := None, activeProbeStartedAtMs := None, acceptedGeneration := None, svState := Open,
         consecutiveFailures := consecutiveFailures s + 1, lastFailureCode := Some failureCode \<rparr>"

definition expireIfNeeded :: "supervisor \<Rightarrow> int \<Rightarrow> supervisor" where
  "expireIfNeeded s nowMs = (case lastAcceptedObservation s of
       None \<Rightarrow> s
     | Some accepted \<Rightarrow>
         if svState s = Closed \<and> (nowMs < completedAtMs accepted \<or> nowMs - completedAtMs accepted > maxAgeMs s)
         then s \<lparr> svState := Open, activeGeneration := None, activeProbeStartedAtMs := None,
                  acceptedGeneration := None, consecutiveFailures := consecutiveFailures s + 1,
                  lastFailureCode := Some probe_stale \<rparr>
         else s)"

definition isCurrentToken :: "supervisor \<Rightarrow> probe_token \<Rightarrow> bool" where
  "isCurrentToken s token = (case token of
       Foreign _ \<Rightarrow> False | Issued owner g \<Rightarrow> owner = svOwner s \<and> Some g = activeGeneration s)"

definition beginProbe :: "supervisor \<Rightarrow> int \<Rightarrow> (quorum_error + probe_token) \<times> supervisor" where
  "beginProbe s nowMs = (case normalizeSafeTimestamp nowMs ''probe start'' of
       Inl e \<Rightarrow> (Inl e, s)
     | Inr _ \<Rightarrow>
         let s1 = expireIfNeeded s nowMs; g = generation s1 + 1 in
         (Inr (Issued (svOwner s1) g),
          s1 \<lparr> generation := g, activeGeneration := Some g, activeProbeStartedAtMs := Some nowMs,
               svState := HalfOpen \<rparr>))"

definition recordSuccess ::
  "supervisor \<Rightarrow> probe_token \<Rightarrow> raw_observation \<Rightarrow> int \<Rightarrow> (quorum_error + record_result) \<times> supervisor" where
  "recordSuccess s token obs nowMs = (case normalizeSafeTimestamp nowMs ''success time'' of
       Inl e \<Rightarrow> (Inl e, s)
     | Inr now \<Rightarrow>
         if \<not> isCurrentToken s token then (Inr Stale, s)
         else (case normalizeObservation obs of
             Inl _ \<Rightarrow> (Inr Accepted, recordCurrentFailure s invalid_response)
           | Inr normalized \<Rightarrow>
               if (case activeProbeStartedAtMs s of None \<Rightarrow> True | Some t \<Rightarrow> startedAtMs normalized < t)
                  \<or> completedAtMs normalized - startedAtMs normalized > maxAgeMs s
                  \<or> now < completedAtMs normalized
                  \<or> now - completedAtMs normalized > maxAgeMs s
               then (Inr Accepted, recordCurrentFailure s probe_stale)
               else (Inr Accepted,
                 s \<lparr> activeGeneration := None, activeProbeStartedAtMs := None,
                     acceptedGeneration := Some (tokGeneration token), svState := Closed,
                     consecutiveFailures := 0, lastFailureCode := None,
                     lastAcceptedObservation := Some normalized \<rparr>)))"

definition recordFailure ::
  "supervisor \<Rightarrow> probe_token \<Rightarrow> string \<Rightarrow> int \<Rightarrow> (quorum_error + record_result) \<times> supervisor" where
  "recordFailure s token failureCode nowMs =
     (case andThen (normalizeSafeTimestamp nowMs ''failure time'') (\<lambda>_. normalizeFailureCode failureCode) of
        Inl e \<Rightarrow> (Inl e, s)
      | Inr c \<Rightarrow> if \<not> isCurrentToken s token then (Inr Stale, s)
                 else (Inr Accepted, recordCurrentFailure s c))"

definition buildSnapshot :: "supervisor \<Rightarrow> snapshot" where
  "buildSnapshot s = \<lparr> snState = svState s, snFundsReleaseHeld = (svState s \<noteq> Closed),
     snActiveGeneration = activeGeneration s, snConsecutiveFailures = consecutiveFailures s,
     snReason = lastFailureCode s, snLastFailureCode = lastFailureCode s,
     snLastAccepted = map_option (\<lambda>a. (sourceIdsHex a, tipHeight a, tipHeaderIdHex a, observationDigestHex a,
       completedAtMs a)) (lastAcceptedObservation s) \<rparr>"

definition getSnapshot :: "supervisor \<Rightarrow> int \<Rightarrow> (quorum_error + snapshot) \<times> supervisor" where
  "getSnapshot s nowMs = (case normalizeSafeTimestamp nowMs ''snapshot time'' of
       Inl e \<Rightarrow> (Inl e, s)
     | Inr now \<Rightarrow> let s1 = expireIfNeeded s now in (Inr (buildSnapshot s1), s1))"

definition peekSnapshot :: "supervisor \<Rightarrow> snapshot" where
  "peekSnapshot s = buildSnapshot s"

definition getReadCycleDecision :: "supervisor \<Rightarrow> int \<Rightarrow> (quorum_error + cycle_decision) \<times> supervisor" where
  "getReadCycleDecision s nowMs = (case getSnapshot s nowMs of
       (Inl e, s1) \<Rightarrow> (Inl e, s1)
     | (Inr snap, s1) \<Rightarrow>
         (case (lastAcceptedObservation s1, acceptedGeneration s1) of
            (Some accepted, Some g) \<Rightarrow>
              if snState snap = Closed
              then (Inr \<lparr> dcTip = Some (tipHeight accepted, tipHeaderIdHex accepted, observationDigestHex accepted),
                          dcSnapshot = snap, dcBinding = Some (svOwner s1, g, observationDigestHex accepted) \<rparr>, s1)
              else (Inr \<lparr> dcTip = None, dcSnapshot = snap, dcBinding = None \<rparr>, s1)
          | _ \<Rightarrow> (Inr \<lparr> dcTip = None, dcSnapshot = snap, dcBinding = None \<rparr>, s1)))"

definition isReadCycleDecisionCurrent :: "supervisor \<Rightarrow> cycle_decision \<Rightarrow> int \<Rightarrow> (quorum_error + bool) \<times> supervisor" where
  "isReadCycleDecisionCurrent s decision nowMs = (case normalizeSafeTimestamp nowMs ''decision time'' of
       Inl e \<Rightarrow> (Inl e, s)
     | Inr now \<Rightarrow>
         let s1 = expireIfNeeded s now in
         (Inr (case (acceptedGeneration s1, lastAcceptedObservation s1) of
            (Some g, Some accepted) \<Rightarrow>
              if dcTip decision = None \<or> svState s1 \<noteq> Closed then False
              else (case dcBinding decision of
                  None \<Rightarrow> False
                | Some (owner, bg, digest) \<Rightarrow>
                    owner = svOwner s1 \<and> bg = g \<and> digest = observationDigestHex accepted)
          | _ \<Rightarrow> False), s1))"

text \<open>One call on a supervisor, and what is left of it.\<close>

datatype quorum_op =
    BeginProbe int
  | RecordSuccess probe_token raw_observation int
  | RecordFailure probe_token string int
  | GetSnapshot int
  | GetReadCycleDecision int
  | IsReadCycleDecisionCurrent cycle_decision int

fun quorumStep :: "supervisor \<Rightarrow> quorum_op \<Rightarrow> supervisor" where
  "quorumStep s (BeginProbe t) = snd (beginProbe s t)"
| "quorumStep s (RecordSuccess k obs t) = snd (recordSuccess s k obs t)"
| "quorumStep s (RecordFailure k c t) = snd (recordFailure s k c t)"
| "quorumStep s (GetSnapshot t) = snd (getSnapshot s t)"
| "quorumStep s (GetReadCycleDecision t) = snd (getReadCycleDecision s t)"
| "quorumStep s (IsReadCycleDecisionCurrent d t) = snd (isReadCycleDecisionCurrent s d t)"


section \<open>The invariant\<close>

text \<open>What a normalized observation satisfies.\<close>

definition obsOk :: "observation \<Rightarrow> bool" where
  "obsOk a \<longleftrightarrow> isHex64 (fst (sourceIdsHex a)) \<and> isHex64 (snd (sourceIdsHex a)) \<and> fst (sourceIdsHex a) \<noteq> snd (sourceIdsHex a)
     \<and> 0 \<le> startedAtMs a \<and> startedAtMs a \<le> completedAtMs a \<and> 0 \<le> tipHeight a
     \<and> isHex64 (tipHeaderIdHex a) \<and> isHex64 (observationDigestHex a)"

definition quorumInv :: "supervisor \<Rightarrow> bool" where
  "quorumInv s \<longleftrightarrow> 0 < maxAgeMs s \<and> 0 \<le> generation s \<and> 0 \<le> consecutiveFailures s
     \<and> (svState s = HalfOpen \<longleftrightarrow> activeGeneration s \<noteq> None)
     \<and> (activeGeneration s = None \<longleftrightarrow> activeProbeStartedAtMs s = None)
     \<and> (\<forall>g. activeGeneration s = Some g \<longrightarrow> g = generation s \<and> acceptedGeneration s \<noteq> Some g)
     \<and> (\<forall>g. acceptedGeneration s = Some g \<longrightarrow> g \<le> generation s)
     \<and> (svState s = Closed \<longrightarrow> acceptedGeneration s \<noteq> None \<and> lastFailureCode s = None \<and> consecutiveFailures s = 0)
     \<and> (svState s = Open \<longrightarrow> acceptedGeneration s = None \<and> lastFailureCode s \<noteq> None)
     \<and> (acceptedGeneration s \<noteq> None \<longrightarrow> lastAcceptedObservation s \<noteq> None)
     \<and> (\<forall>a. lastAcceptedObservation s = Some a \<longrightarrow> obsOk a \<and> completedAtMs a - startedAtMs a \<le> maxAgeMs s)"

lemma normalizeHex32_ok: "normalizeHex32 v l = Inr h \<Longrightarrow> isHex64 h"
  by (auto simp: normalizeHex32_def result_simps Let_def split: option.splits)

lemma normalizeObservation_ok: "normalizeObservation raw = Inr a \<Longrightarrow> obsOk a"
proof -
  assume n: "normalizeObservation raw = Inr a"
  then obtain ids where ids: "mapR (\<lambda>i. normalizeHex32 i ''source ID'') (rawSourceIds raw) = Inr ids"
    and two: "length (rawSourceIds raw) = 2"
    and src: "sourceIdsHex a = (if strLess (ids ! 1) (ids ! 0) then (ids ! 1, ids ! 0) else (ids ! 0, ids ! 1))"
    by (auto simp: normalizeObservation_def result_simps Let_def)
  have "isHex64 (ids ! 0)" "isHex64 (ids ! 1)"
    using mapR_Inr_nth [OF ids, of 0] mapR_Inr_nth [OF ids, of 1] two by (auto dest: normalizeHex32_ok)
  with n src show ?thesis
    by (auto simp: obsOk_def normalizeObservation_def result_simps Let_def normalizeSafeTimestamp_def
        dest: normalizeHex32_ok split: if_splits)
qed

lemma expire_inv: "quorumInv s \<Longrightarrow> quorumInv (expireIfNeeded s t)"
  by (auto simp: quorumInv_def expireIfNeeded_def split: option.splits)

lemma failure_inv: "quorumInv s \<Longrightarrow> quorumInv (recordCurrentFailure s c)"
  by (auto simp: quorumInv_def recordCurrentFailure_def)

definition probing :: "supervisor \<Rightarrow> int \<Rightarrow> supervisor" where
  "probing s t = s \<lparr> generation := generation s + 1, activeGeneration := Some (generation s + 1),
     activeProbeStartedAtMs := Some t, svState := HalfOpen \<rparr>"

definition closing :: "supervisor \<Rightarrow> int \<Rightarrow> observation \<Rightarrow> supervisor" where
  "closing s g a = s \<lparr> activeGeneration := None, activeProbeStartedAtMs := None, acceptedGeneration := Some g,
     svState := Closed, consecutiveFailures := 0, lastFailureCode := None, lastAcceptedObservation := Some a \<rparr>"

definition timely :: "supervisor \<Rightarrow> observation \<Rightarrow> int \<Rightarrow> bool" where
  "timely s a now \<longleftrightarrow> (\<exists>t. activeProbeStartedAtMs s = Some t \<and> t \<le> startedAtMs a)
     \<and> completedAtMs a - startedAtMs a \<le> maxAgeMs s \<and> completedAtMs a \<le> now \<and> now - completedAtMs a \<le> maxAgeMs s"

text \<open>The branches of the two operations that change more than the failure counters.\<close>

lemma beginProbe_eq:
  "beginProbe s t = (if isNonnegSafe t
     then (Inr (Issued (svOwner s) (generation s + 1)), probing (expireIfNeeded s t) t)
     else (Inl (NotSafeTimestamp ''probe start''), s))"
  by (auto simp: beginProbe_def normalizeSafeTimestamp_def require_def isNonnegSafe_def probing_def
      expireIfNeeded_def Let_def split: option.splits)

lemma recordSuccess_eq:
  "recordSuccess s k obs t = (if \<not> isNonnegSafe t then (Inl (NotSafeTimestamp ''success time''), s)
     else if \<not> isCurrentToken s k then (Inr Stale, s)
     else (Inr Accepted, case normalizeObservation obs of
         Inl _ \<Rightarrow> recordCurrentFailure s invalid_response
       | Inr a \<Rightarrow> if timely s a t then closing s (tokGeneration k) a else recordCurrentFailure s probe_stale))"
  by (auto simp: recordSuccess_def normalizeSafeTimestamp_def require_def isNonnegSafe_def timely_def closing_def
      split: sum.splits option.splits)

lemma current_iff: "isCurrentToken s k \<longleftrightarrow> (\<exists>g. k = Issued (svOwner s) g \<and> activeGeneration s = Some g)"
  by (auto simp: isCurrentToken_def split: probe_token.splits)

lemma probing_inv: "quorumInv s \<Longrightarrow> quorumInv (probing s t)"
  by (force simp: quorumInv_def probing_def)

lemma closing_inv:
  assumes "quorumInv s" and "activeGeneration s = Some g" and "obsOk a" and "timely s a t"
  shows "quorumInv (closing s g a)"
  using assms by (simp add: quorumInv_def closing_def timely_def)

lemma begin_inv: "quorumInv s \<Longrightarrow> quorumInv (snd (beginProbe s t))"
  by (simp add: beginProbe_eq probing_inv expire_inv)

lemma success_inv: "quorumInv s \<Longrightarrow> quorumInv (snd (recordSuccess s k obs t))"
  by (auto simp: recordSuccess_eq current_iff failure_inv closing_inv dest: normalizeObservation_ok split: sum.splits)

lemma recordFailure_inv: "quorumInv s \<Longrightarrow> quorumInv (snd (recordFailure s k c t))"
  using failure_inv [of s] by (auto simp: recordFailure_def split: sum.splits)

text \<open>The three queries change a supervisor by expiry only.\<close>

lemma query_states:
  "snd (getSnapshot s t) = (if isNonnegSafe t then expireIfNeeded s t else s)"
  "snd (getReadCycleDecision s t) = (if isNonnegSafe t then expireIfNeeded s t else s)"
  "snd (isReadCycleDecisionCurrent s d t) = (if isNonnegSafe t then expireIfNeeded s t else s)"
  by (auto simp: getSnapshot_def getReadCycleDecision_def isReadCycleDecisionCurrent_def normalizeSafeTimestamp_def
      require_def isNonnegSafe_def Let_def split: option.splits prod.splits)

lemma quorumStep_inv: "quorumInv s \<Longrightarrow> quorumInv (quorumStep s op)"
  by (cases op) (simp_all add: begin_inv success_inv recordFailure_inv query_states expire_inv)

lemma begin_fields:
  "generation (snd (beginProbe s t)) = (if isNonnegSafe t then generation s + 1 else generation s)"
  by (auto simp: beginProbe_eq probing_def expireIfNeeded_def split: option.splits)

lemma generation_step: "generation s \<le> generation (quorumStep s op)"
  by (cases op) (auto simp: begin_fields query_states recordSuccess_eq recordFailure_def recordCurrentFailure_def
      closing_def expireIfNeeded_def split: sum.splits option.splits)

interpretation quorum: monotone_system quorumStep quorumInv generation
  by unfold_locales (simp_all add: quorumStep_inv generation_step)


lemma new_inv: "newSupervisor o' age = Inr s \<Longrightarrow> quorumInv s"
  by (auto simp: newSupervisor_def quorumInv_def result_simps)

text \<open>The supervisor's invariant: after any sequence of calls on a new supervisor, probing is the state exactly
  when one generation is active (the latest one), a closed breaker has an accepted generation and observation
  and no failures, an open one has a reason and nothing accepted, and a kept observation comes from two
  distinct sources and was taken within the maximum age.\<close>

theorem quorum_invariant:
  assumes "newSupervisor owner age = Inr s"
  shows "quorumInv (foldl quorumStep s ops)"
  by (rule quorum.run_inv) (rule new_inv [OF assms])


section \<open>Decisions\<close>

lemma timestamp_eq:
  "normalizeSafeTimestamp t l = (if isNonnegSafe t then Inr t else Inl (NotSafeTimestamp l))"
  by (simp add: normalizeSafeTimestamp_def require_def isNonnegSafe_def)

text \<open>A decision under the invariant: allow exactly when the breaker is closed after expiry.\<close>

lemma closed_accepted:
  assumes "quorumInv s" and "svState s = Closed"
  obtains a g where "lastAcceptedObservation s = Some a" and "acceptedGeneration s = Some g"
  using assms by (auto simp: quorumInv_def)

lemma decision_hold:
  "isNonnegSafe t \<Longrightarrow> svState (expireIfNeeded s t) \<noteq> Closed \<Longrightarrow> getReadCycleDecision s t =
     (Inr \<lparr> dcTip = None, dcSnapshot = buildSnapshot (expireIfNeeded s t), dcBinding = None \<rparr>, expireIfNeeded s t)"
  by (cases "lastAcceptedObservation (expireIfNeeded s t)"; cases "acceptedGeneration (expireIfNeeded s t)")
    (simp_all add: getReadCycleDecision_def getSnapshot_def timestamp_eq Let_def buildSnapshot_def)

lemma decision_allow:
  assumes "isNonnegSafe t" and "svState (expireIfNeeded s t) = Closed"
    and "lastAcceptedObservation (expireIfNeeded s t) = Some a" and "acceptedGeneration (expireIfNeeded s t) = Some g"
  shows "getReadCycleDecision s t =
     (Inr \<lparr> dcTip = Some (tipHeight a, tipHeaderIdHex a, observationDigestHex a),
            dcSnapshot = buildSnapshot (expireIfNeeded s t),
            dcBinding = Some (svOwner (expireIfNeeded s t), g, observationDigestHex a) \<rparr>, expireIfNeeded s t)"
  using assms by (simp add: getReadCycleDecision_def getSnapshot_def timestamp_eq Let_def) (simp add: buildSnapshot_def)

lemma decision_unsafe: "\<not> isNonnegSafe t \<Longrightarrow> getReadCycleDecision s t = (Inl (NotSafeTimestamp ''snapshot time''), s)"
  by (simp add: getReadCycleDecision_def getSnapshot_def timestamp_eq)

lemma expire_Closed:
  "svState (expireIfNeeded s t) = Closed \<Longrightarrow> expireIfNeeded s t = s \<and> svState s = Closed
     \<and> (\<forall>a. lastAcceptedObservation s = Some a \<longrightarrow> completedAtMs a \<le> t \<and> t - completedAtMs a \<le> maxAgeMs s)"
  by (auto simp: expireIfNeeded_def split: option.splits if_splits)

lemma decision_cases:
  assumes inv: "quorumInv s" and "getReadCycleDecision s t = (Inr d, s')"
  obtains (hold) "dcTip d = None" and "dcBinding d = None" and "snFundsReleaseHeld (dcSnapshot d)"
  | (allow) a g where "lastAcceptedObservation s = Some a" and "acceptedGeneration s = Some g"
      and "dcTip d = Some (tipHeight a, tipHeaderIdHex a, observationDigestHex a)"
      and "dcBinding d = Some (svOwner s, g, observationDigestHex a)" and "\<not> snFundsReleaseHeld (dcSnapshot d)"
      and "completedAtMs a \<le> t" and "t - completedAtMs a \<le> maxAgeMs s" and "obsOk a"
      and "completedAtMs a - startedAtMs a \<le> maxAgeMs s"
proof -
  have t: "isNonnegSafe t" using assms(2) decision_unsafe [of t s] by auto
  show ?thesis
  proof (cases "svState (expireIfNeeded s t) = Closed")
    case True
    note e = expire_Closed [OF True]
    then obtain a g where ag: "lastAcceptedObservation s = Some a" "acceptedGeneration s = Some g"
      using closed_accepted [OF inv] by blast
    have ok: "obsOk a" "completedAtMs a - startedAtMs a \<le> maxAgeMs s" using inv ag by (auto simp: quorumInv_def)
    show ?thesis
      using decision_allow [OF t True] e ag assms(2) ok by (intro allow) (auto simp: buildSnapshot_def)
  next
    case False
    from decision_hold [OF t False] assms(2) False show ?thesis by (intro hold) (auto simp: buildSnapshot_def)
  qed
qed

text \<open>C5. A read cycle is allowed only on fresh agreement: the tip of an allowing decision is that of an observation
  made by two distinct sources, completed at most the maximum age before the decision, and taken in at most
  that time; in every other case the snapshot holds the release of funds.\<close>

theorem allow_requires_fresh_quorum:
  assumes "newSupervisor owner age = Inr s0" and "s = foldl quorumStep s0 ops"
    and "getReadCycleDecision s t = (Inr d, s')"
  shows "case dcTip d of
      None \<Rightarrow> snFundsReleaseHeld (dcSnapshot d)
    | Some tip \<Rightarrow> \<exists>a. lastAcceptedObservation s = Some a \<and> tip = (tipHeight a, tipHeaderIdHex a, observationDigestHex a)
        \<and> fst (sourceIdsHex a) \<noteq> snd (sourceIdsHex a) \<and> completedAtMs a \<le> t \<and> t \<le> completedAtMs a + maxAgeMs s
        \<and> completedAtMs a - startedAtMs a \<le> maxAgeMs s \<and> \<not> snFundsReleaseHeld (dcSnapshot d)"
proof -
  have inv: "quorumInv s" unfolding assms(2) by (rule quorum.run_inv) (rule new_inv [OF assms(1)])
  from inv assms(3) show ?thesis by (cases rule: decision_cases) (auto simp: obsOk_def)
qed

text \<open>A generation is over when it is neither accepted nor being probed and cannot be issued again.\<close>

definition over :: "int \<Rightarrow> supervisor \<Rightarrow> bool" where
  "over g s \<longleftrightarrow> g \<le> generation s \<and> activeGeneration s \<noteq> Some g \<and> acceptedGeneration s \<noteq> Some g"

lemma over_expire: "over g s \<Longrightarrow> over g (expireIfNeeded s t)"
  by (auto simp: over_def expireIfNeeded_def split: option.splits)

lemma over_step: "over g s \<Longrightarrow> over g (quorumStep s op)"
  by (cases op)
    (auto simp: over_def beginProbe_eq probing_def query_states recordSuccess_eq current_iff recordFailure_def
      recordCurrentFailure_def closing_def expireIfNeeded_def split: sum.splits option.splits)

interpretation overs: invariant_system quorumStep "over g" for g
  by unfold_locales (rule over_step)

lemma not_current:
  assumes "over g s" and "dcBinding d = Some (svOwner s, g, h)"
  shows "fst (isReadCycleDecisionCurrent s d t) \<noteq> Inr True"
  using over_expire [OF assms(1), of t] assms(2)
  by (auto simp: isReadCycleDecisionCurrent_def timestamp_eq over_def Let_def split: sum.splits option.splits)

lemma owner_step: "svOwner (quorumStep s op) = svOwner s"
  by (cases op) (auto simp: beginProbe_eq probing_def query_states recordSuccess_eq recordFailure_def
      recordCurrentFailure_def closing_def expireIfNeeded_def split: sum.splits option.splits)

lemma owner_run: "svOwner (foldl quorumStep s ops) = svOwner s"
  by (induction ops arbitrary: s) (auto simp: owner_step)

lemma age_step: "maxAgeMs (quorumStep s op) = maxAgeMs s"
  by (cases op) (auto simp: beginProbe_eq probing_def query_states recordSuccess_eq recordFailure_def
      recordCurrentFailure_def closing_def expireIfNeeded_def split: sum.splits option.splits)

lemma accepted_step:
  assumes "quorumInv s" and "acceptedGeneration s = Some g"
  shows "acceptedGeneration (quorumStep s op) = Some g \<or> over g (quorumStep s op)"
proof -
  have g: "g \<le> generation s" "activeGeneration s \<noteq> Some g" using assms by (auto simp: quorumInv_def)
  show ?thesis using assms(2) g
    by (cases op) (auto simp: over_def beginProbe_eq probing_def query_states recordSuccess_eq current_iff recordFailure_def
      recordCurrentFailure_def closing_def expireIfNeeded_def split: sum.splits option.splits)
qed


text \<open>A decision dies once and for all: take an allowing decision. If after some calls it is no longer the
  accepted generation (a newer success, a failure or an expiry came in between), it is not current then and
  not after any further calls.\<close>

theorem superseded_decision_stays_dead:
  assumes "newSupervisor owner age = Inr s0" and "s = foldl quorumStep s0 before"
    and "getReadCycleDecision s t = (Inr d, s')" and "dcBinding d = Some (o', g, h)"
    and "acceptedGeneration (foldl quorumStep s between) \<noteq> Some g"
  shows "fst (isReadCycleDecisionCurrent (foldl quorumStep s (between @ after)) d now) \<noteq> Inr True"
proof -
  have inv: "quorumInv s" unfolding assms(2) by (rule quorum.run_inv) (rule new_inv [OF assms(1)])
  from inv assms(3,4) have acc: "acceptedGeneration s = Some g" and o': "o' = svOwner s"
    by (cases rule: decision_cases; auto)+
  have "acceptedGeneration (foldl quorumStep u ops) = Some g \<or> over g (foldl quorumStep u ops)"
    if "quorumInv u" "acceptedGeneration u = Some g" for u ops using that
  proof (induction ops arbitrary: u)
    case (Cons op ops)
    from accepted_step [OF Cons.prems, of op] show ?case
    proof
      assume "over g (quorumStep u op)"
      then show ?thesis using overs.run_inv by simp
    qed (use Cons.IH [of "quorumStep u op"] Cons.prems quorumStep_inv in simp)
  qed simp
  with inv acc assms(5) have "over g (foldl quorumStep s between)" by blast
  then have "over g (foldl quorumStep s (between @ after))" by (simp add: overs.run_inv)
  then show ?thesis using assms(4) o' by (intro not_current) (simp_all add: owner_run)
qed

text \<open>A late answer changes nothing: once a newer probe was begun, a report carrying an older token is answered
  with \<^verbatim>\<open>stale\<close> and leaves the supervisor as it was, whatever calls came in between.\<close>

theorem stale_token_no_effect:
  assumes "newSupervisor owner age = Inr s0" and "s = foldl quorumStep s0 ops"
    and "g < generation s" and "isNonnegSafe now"
  shows "recordSuccess (foldl quorumStep s later) (Issued owner g) obs now = (Inr Stale, foldl quorumStep s later)
    \<and> (\<forall>c. recordFailure (foldl quorumStep s later) (Issued owner g) (failureCodeName c) now
          = (Inr Stale, foldl quorumStep s later))"
proof -
  let ?s = "foldl quorumStep s later"
  have inv: "quorumInv s" unfolding assms(2) by (rule quorum.run_inv) (rule new_inv [OF assms(1)])
  have "quorumInv ?s" "g < generation ?s"
    using quorum.run_inv [OF inv, of later] quorum.run_rank [OF inv, of later] assms(3) by auto
  then have "\<not> isCurrentToken ?s (Issued owner g)" by (auto simp: current_iff quorumInv_def)
  moreover have "normalizeFailureCode (failureCodeName c) \<noteq> Inl e" for c e
    by (cases c) (simp_all add: normalizeFailureCode_def FAILURE_CODES_def failureCodeName_def)
  ultimately show ?thesis
    using assms(4) by (auto simp: recordSuccess_eq recordFailure_def timestamp_eq split: sum.splits)
qed

text \<open>C31. Recovery: from every reachable state, one probe answered in time by a well-formed observation of two
  sources closes the breaker, allows the read cycle at the observed tip, and the decision is current.\<close>

theorem probe_recovers:
  assumes "newSupervisor owner age = Inr s0" and "s = foldl quorumStep s0 ops"
    and "isNonnegSafe t0" and "isNonnegSafe t1" and "normalizeObservation obs = Inr a"
    and "t0 \<le> startedAtMs a" and "completedAtMs a - startedAtMs a \<le> maxAgeMs s"
    and "completedAtMs a \<le> t1" and "t1 - completedAtMs a \<le> maxAgeMs s"
  shows "\<exists>k s1 s2 d s3. beginProbe s t0 = (Inr k, s1) \<and> recordSuccess s1 k obs t1 = (Inr Accepted, s2)
    \<and> getReadCycleDecision s2 t1 = (Inr d, s3)
    \<and> dcTip d = Some (tipHeight a, tipHeaderIdHex a, observationDigestHex a)
    \<and> fst (isReadCycleDecisionCurrent s3 d t1) = Inr True"
proof -
  define s1 where "s1 = probing (expireIfNeeded s t0) t0"
  define s2 where "s2 = closing s1 (generation s + 1) a"
  have f: "maxAgeMs s1 = maxAgeMs s" "activeProbeStartedAtMs s1 = Some t0" "svOwner s1 = svOwner s"
    "activeGeneration s1 = Some (generation s + 1)"
    by (auto simp: s1_def probing_def expireIfNeeded_def split: option.splits)
  have r: "recordSuccess s1 (Issued (svOwner s) (generation s + 1)) obs t1 = (Inr Accepted, s2)"
    using assms(4-9) f by (simp add: recordSuccess_eq current_iff timely_def s2_def)
  have e: "expireIfNeeded s2 t1 = s2"
    using assms f by (simp add: expireIfNeeded_def s2_def closing_def)
  have d: "svState s2 = Closed" "lastAcceptedObservation s2 = Some a" "acceptedGeneration s2 = Some (generation s + 1)"
    by (simp_all add: s2_def closing_def)
  note dec = decision_allow [OF assms(4), of s2, unfolded e, OF d]
  have "fst (isReadCycleDecisionCurrent s2 \<lparr> dcTip = Some (tipHeight a, tipHeaderIdHex a, observationDigestHex a),
      dcSnapshot = buildSnapshot s2, dcBinding = Some (svOwner s2, generation s + 1, observationDigestHex a) \<rparr> t1) = Inr True"
    using assms(4) d by (simp add: isReadCycleDecisionCurrent_def timestamp_eq e)
  then show ?thesis
    using assms(3) r dec by (intro exI conjI, unfold beginProbe_eq, auto simp: s1_def)
qed



section \<open>Refinement of a circuit breaker\<close>

text \<open>The contract of the breaker, without failure counters and derived fields: it is held, it probes one
  generation since a time, or it is live on one observation.\<close>

datatype phase = Held | Probing int int | Live int observation

definition expired :: "int \<Rightarrow> observation \<Rightarrow> int \<Rightarrow> bool" where
  "expired age a t \<longleftrightarrow> t < completedAtMs a \<or> t - completedAtMs a > age"

definition settle :: "int \<Rightarrow> phase \<Rightarrow> int \<Rightarrow> phase" where
  "settle age ph t = (case ph of Live g a \<Rightarrow> if isNonnegSafe t \<and> expired age a t then Held else ph | _ \<Rightarrow> ph)"

fun breaker :: "nat \<Rightarrow> int \<Rightarrow> int \<times> phase \<Rightarrow> quorum_op \<Rightarrow> int \<times> phase" where
  "breaker owner age (n, ph) (BeginProbe t) = (if isNonnegSafe t then (n + 1, Probing (n + 1) t) else (n, ph))"
| "breaker owner age (n, ph) (RecordSuccess k obs t) = (n, case ph of
       Probing g t0 \<Rightarrow> if isNonnegSafe t \<and> k = Issued owner g
         then (case normalizeObservation obs of
             Inl _ \<Rightarrow> Held
           | Inr a \<Rightarrow> if t0 \<le> startedAtMs a \<and> completedAtMs a - startedAtMs a \<le> age \<and> \<not> expired age a t
                       then Live g a else Held)
         else ph
     | _ \<Rightarrow> ph)"
| "breaker owner age (n, ph) (RecordFailure k c t) = (n, case ph of
       Probing g t0 \<Rightarrow> if isNonnegSafe t \<and> isOk (normalizeFailureCode c) \<and> k = Issued owner g then Held else ph
     | _ \<Rightarrow> ph)"
| "breaker owner age (n, ph) (GetSnapshot t) = (n, settle age ph t)"
| "breaker owner age (n, ph) (GetReadCycleDecision t) = (n, settle age ph t)"
| "breaker owner age (n, ph) (IsReadCycleDecisionCurrent d t) = (n, settle age ph t)"

definition phaseOf :: "supervisor \<Rightarrow> int \<times> phase" where
  "phaseOf s = (generation s, case svState s of
       Open \<Rightarrow> Held
     | HalfOpen \<Rightarrow> Probing (the (activeGeneration s)) (the (activeProbeStartedAtMs s))
     | Closed \<Rightarrow> Live (the (acceptedGeneration s)) (the (lastAcceptedObservation s)))"

lemma phase_expire:
  assumes "quorumInv s" and "isNonnegSafe t"
  shows "phaseOf (expireIfNeeded s t) = (generation s, settle (maxAgeMs s) (snd (phaseOf s)) t)"
  using assms by (auto simp: phaseOf_def expireIfNeeded_def settle_def expired_def quorumInv_def split: option.splits quorum_state.splits)

lemma phase_unsafe: "\<not> isNonnegSafe t \<Longrightarrow> settle age ph t = ph"
  by (auto simp: settle_def split: phase.splits)

lemma phase_probing: "phaseOf (probing s t) = (generation s + 1, Probing (generation s + 1) t)"
  and phase_closing: "phaseOf (closing s g a) = (generation s, Live g a)"
  and phase_failure: "phaseOf (recordCurrentFailure s c) = (generation s, Held)"
  by (simp_all add: phaseOf_def probing_def closing_def recordCurrentFailure_def)

lemma phase_current:
  assumes "quorumInv s"
  shows "(\<exists>t0. snd (phaseOf s) = Probing g t0) \<longleftrightarrow> activeGeneration s = Some g"
    and "snd (phaseOf s) = Probing g t0 \<Longrightarrow> activeProbeStartedAtMs s = Some t0"
  using assms by (auto simp: phaseOf_def quorumInv_def split: quorum_state.splits)

lemma expire_generation: "generation (expireIfNeeded s t) = generation s"
  by (simp add: expireIfNeeded_def split: option.splits)

lemma phase_step:
  assumes inv: "quorumInv s"
  shows "phaseOf (quorumStep s op) = breaker (svOwner s) (maxAgeMs s) (phaseOf s) op"
proof -
  obtain ph where ph: "phaseOf s = (generation s, ph)" by (simp add: phaseOf_def)
  note cur = phase_current [OF inv, unfolded ph snd_conv]
  show ?thesis
  proof (cases op)
    case (BeginProbe t)
    then show ?thesis by (simp add: beginProbe_eq phase_probing expire_generation ph)
  next
    case (RecordSuccess k obs t)
    show ?thesis
    proof (cases "isNonnegSafe t \<and> isCurrentToken s k")
      case True
      then obtain g t0 where g: "k = Issued (svOwner s) g" "ph = Probing g t0" "activeProbeStartedAtMs s = Some t0"
        using cur by (auto simp: current_iff) metis
      with True show ?thesis
        by (auto simp: RecordSuccess recordSuccess_eq ph phase_closing phase_failure timely_def expired_def
            split: sum.splits)
    next
      case False
      with cur(1) have "\<not> (isNonnegSafe t \<and> ph = Probing g t0 \<and> k = Issued (svOwner s) g)" for g t0
        by (auto simp: current_iff)
      with False show ?thesis
        by (auto simp: RecordSuccess recordSuccess_eq ph current_iff split: phase.splits)
    qed
  next
    case (RecordFailure k c t)
    show ?thesis
    proof (cases "isNonnegSafe t \<and> isCurrentToken s k")
      case True
      then obtain g t0 where g: "k = Issued (svOwner s) g" "ph = Probing g t0"
        using cur by (auto simp: current_iff) metis
      with True show ?thesis
        by (auto simp: RecordFailure recordFailure_def timestamp_eq ph phase_failure isOk_def split: sum.splits)
    next
      case False
      with cur(1) have "\<not> (isNonnegSafe t \<and> ph = Probing g t0 \<and> k = Issued (svOwner s) g)" for g t0
        by (auto simp: current_iff)
      with False show ?thesis
        by (auto simp: RecordFailure recordFailure_def timestamp_eq ph current_iff split: phase.splits sum.splits)
    qed
  qed (use phase_expire [OF inv] in \<open>auto simp: query_states ph phase_unsafe\<close>)
qed

text \<open>C11. The supervisor implements the circuit breaker: seen through its phase, every sequence of calls on it is
  that sequence on the abstract machine.\<close>

theorem quorum_refines_breaker:
  assumes "newSupervisor owner age = Inr s"
  shows "phaseOf (foldl quorumStep s ops) = foldl (breaker owner age) (0, Held) ops"
proof -
  have "phaseOf (foldl quorumStep u ops) = foldl (breaker (svOwner u) (maxAgeMs u)) (phaseOf u) ops"
    if "quorumInv u" for u using that
    by (induction ops arbitrary: u) (simp_all add: quorumStep_inv phase_step owner_step age_step)
  from this [OF new_inv [OF assms]] assms show ?thesis
    by (auto simp: newSupervisor_def result_simps phaseOf_def)
qed



section \<open>Concrete runs\<close>

definition demoRaw :: raw_observation where
  "demoRaw = \<lparr> rawSchema = ERGO_READ_QUORUM_OBSERVATION_SCHEMA,
     rawSourceIds = [Some (replicate 64 (CHR ''a'')), Some (replicate 64 (CHR ''b''))], rawTipHeight = 900000,
     rawTipHeaderId = Some (replicate 64 (CHR ''c'')), rawDigest = Some (replicate 64 (CHR ''d'')),
     rawStartedAt = 1000, rawCompletedAt = 1500 \<rparr>"

definition demoObs :: observation where
  "demoObs = \<lparr> sourceIdsHex = (replicate 64 (CHR ''a''), replicate 64 (CHR ''b'')), tipHeight = 900000,
     tipHeaderIdHex = replicate 64 (CHR ''c''), observationDigestHex = replicate 64 (CHR ''d''),
     startedAtMs = 1000, completedAtMs = 1500 \<rparr>"

lemma hex32Observation_id: "isHex64 h \<Longrightarrow> normalizeHex32 (Some h) l = Inr h"
  by (simp add: normalizeHex32_def isHex64_def trimBlanks_lowerHex strip0xAny_lowerHex lowerStr_lowerHex)

lemma demo_hex: "isHex64 (replicate 64 (CHR ''a''))" "isHex64 (replicate 64 (CHR ''b''))"
  "isHex64 (replicate 64 (CHR ''c''))" "isHex64 (replicate 64 (CHR ''d''))"
  by (rule isHex64_replicate, simp add: isLowerHexChar_def code_def)+

lemma strLess_replicate: "code a < code b \<Longrightarrow> \<not> strLess (replicate n b) (replicate n a)"
  by (induction n) auto

lemma demo_normalized: "normalizeObservation demoRaw = Inr demoObs"
proof -
  have "\<not> strLess (replicate 64 (CHR ''b'')) (replicate 64 (CHR ''a''))" by (rule strLess_replicate) (simp add: code_def)
  then show ?thesis
    by (simp add: normalizeObservation_def demoRaw_def demoObs_def hex32Observation_id demo_hex timestamp_eq safe_defs Let_def)
qed

definition demoStart :: supervisor where
  "demoStart = \<lparr> svOwner = 1, maxAgeMs = 5000, svState = Open, generation = 0, activeGeneration = None,
     activeProbeStartedAtMs = None, acceptedGeneration = None, consecutiveFailures = 0,
     lastFailureCode = Some not_configured, lastAcceptedObservation = None \<rparr>"

lemma demo_new: "newSupervisor 1 5000 = Inr demoStart"
  by (simp add: newSupervisor_def demoStart_def safe_defs)

text \<open>A probe begun at 900 and answered at 2000, then a second probe, which fails.\<close>

definition demoOps :: "quorum_op list" where
  "demoOps = [BeginProbe 900, RecordSuccess (Issued 1 1) demoRaw 2000]"

lemma demoQuorum_run: "foldl quorumStep demoStart demoOps = closing (probing demoStart 900) 1 demoObs"
  by (simp add: demoOps_def beginProbe_eq recordSuccess_eq current_iff demo_normalized safe_defs expireIfNeeded_def)
    (simp add: demoStart_def demoObs_def probing_def timely_def)

theorem quorum_invariant_witness: "quorumInv (foldl quorumStep demoStart demoOps) \<and> foldl quorumStep demoStart demoOps \<noteq> demoStart"
  using quorum_invariant [OF demo_new, of demoOps] unfolding demoQuorum_run by (simp add: closing_def probing_def demoStart_def)

lemma demo_decision:
  "\<exists>d s'. getReadCycleDecision (foldl quorumStep demoStart demoOps) 2500 = (Inr d, s')
     \<and> dcTip d = Some (900000, replicate 64 (CHR ''c''), replicate 64 (CHR ''d''))
     \<and> dcBinding d = Some (1, 1, replicate 64 (CHR ''d''))"
proof -
  let ?s = "foldl quorumStep demoStart demoOps"
  have f: "svState ?s = Closed" "lastAcceptedObservation ?s = Some demoObs" "acceptedGeneration ?s = Some 1"
    "maxAgeMs ?s = 5000" "svOwner ?s = 1"
    unfolding demoQuorum_run by (simp_all add: closing_def probing_def demoStart_def)
  have e: "expireIfNeeded ?s 2500 = ?s" by (simp add: expireIfNeeded_def f) (simp add: demoObs_def)
  have t: "isNonnegSafe 2500" by (simp add: safe_defs)
  show ?thesis using decision_allow [OF t, of ?s, unfolded e, OF f(1-3)] f(5) by (simp add: demoObs_def)
qed

theorem allow_requires_fresh_quorum_witness:
  "\<exists>d s' a. getReadCycleDecision (foldl quorumStep demoStart demoOps) 2500 = (Inr d, s')
     \<and> lastAcceptedObservation (foldl quorumStep demoStart demoOps) = Some a \<and> 2500 \<le> completedAtMs a + 5000"
proof -
  obtain d s' where d: "getReadCycleDecision (foldl quorumStep demoStart demoOps) 2500 = (Inr d, s')"
    "dcTip d = Some (900000, replicate 64 (CHR ''c''), replicate 64 (CHR ''d''))" using demo_decision by blast
  have "maxAgeMs (foldl quorumStep demoStart demoOps) = 5000"
    unfolding demoQuorum_run by (simp add: closing_def probing_def demoStart_def)
  with allow_requires_fresh_quorum [OF demo_new refl d(1)] d show ?thesis by auto
qed

theorem superseded_decision_stays_dead_witness:
  "\<exists>d s'. getReadCycleDecision (foldl quorumStep demoStart demoOps) 2500 = (Inr d, s') \<and>
     fst (isReadCycleDecisionCurrent (foldl quorumStep (foldl quorumStep demoStart demoOps)
        ([BeginProbe 2600, RecordFailure (Issued 1 2) ''source_unavailable'' 2700] @ demoOps)) d 3000) \<noteq> Inr True"
proof -
  obtain d s' where d: "getReadCycleDecision (foldl quorumStep demoStart demoOps) 2500 = (Inr d, s')"
    "dcBinding d = Some (1, 1, replicate 64 (CHR ''d''))" using demo_decision by blast
  have "acceptedGeneration (foldl quorumStep (foldl quorumStep demoStart demoOps)
      [BeginProbe 2600, RecordFailure (Issued 1 2) ''source_unavailable'' 2700]) \<noteq> Some 1"
    unfolding demoQuorum_run by (simp add: beginProbe_eq recordFailure_def timestamp_eq safe_defs normalizeFailureCode_def
        FAILURE_CODES_def failureCodeName_def)
      (simp add: closing_def probing_def demoStart_def isCurrentToken_def expireIfNeeded_def recordCurrentFailure_def demoObs_def)
  from superseded_decision_stays_dead [OF demo_new refl d(1) d(2) this, of demoOps 3000] d(1) show ?thesis by blast
qed

theorem stale_token_no_effect_witness:
  "recordSuccess (foldl quorumStep demoStart [BeginProbe 900, BeginProbe 1000]) (Issued 1 1) demoRaw 2000
     = (Inr Stale, foldl quorumStep demoStart [BeginProbe 900, BeginProbe 1000])"
proof -
  have "1 < generation (foldl quorumStep demoStart [BeginProbe 900, BeginProbe 1000])"
    by (simp add: begin_fields safe_defs) (simp add: demoStart_def)
  then show ?thesis using stale_token_no_effect [OF demo_new refl, of 1 "[BeginProbe 900, BeginProbe 1000]" 2000 "[]" demoRaw]
    by (simp add: safe_defs)
qed

theorem probe_recovers_witness:
  "\<exists>k s1 s2 d s3. beginProbe demoStart 900 = (Inr k, s1) \<and> recordSuccess s1 k demoRaw 2000 = (Inr Accepted, s2)
     \<and> getReadCycleDecision s2 2000 = (Inr d, s3) \<and> fst (isReadCycleDecisionCurrent s3 d 2000) = Inr True"
  using probe_recovers [OF demo_new, of demoStart "[]" 900 2000 demoRaw demoObs]
  by (simp add: demo_normalized safe_defs) (auto simp: demoObs_def demoStart_def)

theorem quorum_refines_breaker_witness:
  "phaseOf (foldl quorumStep demoStart demoOps) = (1, Live 1 demoObs)"
  unfolding quorum_refines_breaker [OF demo_new]
  by (simp add: demoOps_def safe_defs demo_normalized) (simp add: demoObs_def expired_def)


section \<open>Signer availability\<close>

record signer =
  signerAvailable :: bool
  terminalUnavailable :: bool

datatype signer_error = ErgoSignerUnavailableError

definition newSigner :: signer where
  "newSigner = \<lparr> signerAvailable = False, terminalUnavailable = False \<rparr>"

definition recordAvailable :: "signer \<Rightarrow> (signer_error + bool) \<times> signer" where
  "recordAvailable s = (if terminalUnavailable s then (Inl ErgoSignerUnavailableError, s)
     else (let s1 = s \<lparr> signerAvailable := True \<rparr> in (Inr (signerAvailable s1), s1)))"

definition recordUnavailable :: "signer \<Rightarrow> bool \<times> signer" where
  "recordUnavailable s = (\<not> terminalUnavailable s, s \<lparr> terminalUnavailable := True, signerAvailable := False \<rparr>)"

definition assertAvailable :: "signer \<Rightarrow> signer_error + unit" where
  "assertAvailable s = (if terminalUnavailable s \<or> \<not> signerAvailable s then Inl ErgoSignerUnavailableError else Inr ())"

datatype signer_op = RecordAvailable | RecordUnavailable

fun signerStep :: "signer \<Rightarrow> signer_op \<Rightarrow> signer" where
  "signerStep s RecordAvailable = snd (recordAvailable s)"
| "signerStep s RecordUnavailable = snd (recordUnavailable s)"

lemma signer_run:
  "terminalUnavailable (foldl signerStep s ops) \<longleftrightarrow> terminalUnavailable s \<or> RecordUnavailable \<in> set ops"
proof (induction ops arbitrary: s)
  case (Cons op ops)
  then show ?case by (cases op) (auto simp: recordAvailable_def recordUnavailable_def)
qed simp

lemma signer_available:
  "\<not> terminalUnavailable s \<Longrightarrow> RecordUnavailable \<notin> set ops \<Longrightarrow>
     signerAvailable (foldl signerStep s ops) \<longleftrightarrow> signerAvailable s \<or> RecordAvailable \<in> set ops"
proof (induction ops arbitrary: s)
  case (Cons op ops)
  then show ?case by (cases op) (auto simp: recordAvailable_def)
qed simp

text \<open>The signer latch: after any reports, the signer may be used exactly when it was reported available at least
  once and never unavailable; one unavailable report is terminal.\<close>

theorem signer_latch:
  "assertAvailable (foldl signerStep newSigner ops) = Inr () \<longleftrightarrow>
     RecordAvailable \<in> set ops \<and> RecordUnavailable \<notin> set ops"
  using signer_run [of newSigner ops] signer_available [of newSigner ops]
  by (auto simp: assertAvailable_def newSigner_def)

end
