(* ===== verification/Canonical_Json.thy ===== *)
theory Canonical_Json
  imports Bridge_Prelude "HOL-Library.Char_ord" "HOL-Library.List_Lexorder" "HOL-Library.Multiset"
begin

text \<open>
  Canonical JSON text (\<^verbatim>\<open>canonicalJson\<close> and \<^verbatim>\<open>sha256CanonicalJson\<close> of
  \<^verbatim>\<open>ergo-settlement-core/strict-json.ts\<close>), the preimage of every binding digest of the relayer.

  A value is a tree; an object is the list of its own members in insertion order. Strings are ordered by
  code units, which is the lexicographic order of the library on characters. Numbers are integers; a number
  that is not a safe integer throws.
\<close>

section \<open>Definitions\<close>

datatype json =
    JNull
  | JBool bool
  | JNum int
  | JStr string
  | JArr "json list"
  | JObj "(string \<times> json) list"
  | JInstance
  | JUndefined
  | JForeign

datatype json_error = UnsafeInteger | UndefinedMember | NotPlainObject | NotEncodableJson

text \<open>\<^verbatim>\<open>JSON.stringify\<close> on strings of code units below 256 and on integers.\<close>

definition hex4 :: "nat \<Rightarrow> string" where
  "hex4 n = ''00'' @ [hexDigit (n div 16), hexDigit (n mod 16)]"

definition escapeChar :: "char \<Rightarrow> string" where
  "escapeChar c = (let n = code c in
     if n = 34 then [CHR 0x5C, CHR 0x22]
     else if n = 92 then [CHR 0x5C, CHR 0x5C]
     else if n = 8 then [CHR 0x5C, CHR ''b'']
     else if n = 9 then [CHR 0x5C, CHR ''t'']
     else if n = 10 then [CHR 0x5C, CHR ''n'']
     else if n = 12 then [CHR 0x5C, CHR ''f'']
     else if n = 13 then [CHR 0x5C, CHR ''r'']
     else if n < 32 then [CHR 0x5C, CHR ''u''] @ hex4 n
     else [c])"

definition jsonString :: "string \<Rightarrow> string" where
  "jsonString s = [CHR 0x22] @ concat (map escapeChar s) @ [CHR 0x22]"

definition jsonInt :: "int \<Rightarrow> string" where
  "jsonInt n = (if n < 0 then ''-'' @ decStr (nat (- n)) else decStr (nat n))"

fun joinComma :: "string list \<Rightarrow> string" where
  "joinComma [] = []"
| "joinComma [x] = x"
| "joinComma (x # y # r) = x @ '','' @ joinComma (y # r)"

lemma mapR_cong [fundef_cong]:
  "xs = ys \<Longrightarrow> (\<And>x. x \<in> set ys \<Longrightarrow> f x = g x) \<Longrightarrow> mapR f xs = mapR g ys"
  by (induction xs arbitrary: ys) auto

fun canonicalJson :: "json \<Rightarrow> json_error + string" where
  "canonicalJson JNull = Inr ''null''"
| "canonicalJson (JBool b) = Inr (if b then ''true'' else ''false'')"
| "canonicalJson (JStr s) = Inr (jsonString s)"
| "canonicalJson (JNum n) = require (isSafeInteger n) UnsafeInteger (Inr (jsonInt n))"
| "canonicalJson (JArr xs) = andThen (mapR canonicalJson xs) (\<lambda>ts. Inr (''['' @ joinComma ts @ '']''))"
| "canonicalJson (JObj ms) =
     andThen (mapR (\<lambda>m. require (snd m \<noteq> JUndefined) UndefinedMember
                (andThen (canonicalJson (snd m)) (\<lambda>t. Inr (jsonString (fst m) @ '':'' @ t))))
              (sort_key fst ms)) (\<lambda>ts. Inr (CHR 0x7B # joinComma ts @ [CHR 0x7D]))"
| "canonicalJson JInstance = Inl NotPlainObject"
| "canonicalJson JUndefined = Inl NotEncodableJson"
| "canonicalJson JForeign = Inl NotEncodableJson"

definition sha256CanonicalJson :: "(string \<Rightarrow> string) \<Rightarrow> json \<Rightarrow> string option \<Rightarrow> json_error + string" where
  "sha256CanonicalJson sha256 value domain =
     andThen (canonicalJson value) (\<lambda>encoded. case domain of
         None \<Rightarrow> Inr (sha256 encoded)
       | Some d \<Rightarrow> Inr (sha256 (d @ [CHR 0x00] @ encoded)))"


section \<open>Totality\<close>

lemma mapR_isOk: "(\<And>x. x \<in> set xs \<Longrightarrow> isOk (f x)) \<Longrightarrow> isOk (mapR f xs)"
proof (induction xs)
  case (Cons x xs)
  then have "isOk (f x)" "isOk (mapR f xs)" by auto
  then show ?case by (auto simp: isOk_iff)
qed simp

lemma isOk_andThen: "isOk m \<Longrightarrow> (\<And>x. m = Inr x \<Longrightarrow> isOk (f x)) \<Longrightarrow> isOk (andThen m f)"
  by (cases m) auto

lemma canonicalJson_object_ok:
  assumes "\<And>m. m \<in> set ms \<Longrightarrow> snd m \<noteq> JUndefined \<and> isOk (canonicalJson (snd m))"
  shows "isOk (canonicalJson (JObj ms))"
  using assms by (auto intro!: isOk_andThen mapR_isOk)

lemma canonicalJson_array_ok: "(\<And>x. x \<in> set xs \<Longrightarrow> isOk (canonicalJson x)) \<Longrightarrow> isOk (canonicalJson (JArr xs))"
  by (auto intro!: isOk_andThen mapR_isOk)


section \<open>Independence of member order\<close>

text \<open>Canonical text does not depend on the order in which an object got its members: two objects with the same
  members (keys are unique in an object) have the same canonical text, or fail alike.\<close>

theorem canonicalJson_key_order:
  assumes "distinct (map fst ms)" and "mset ms = mset ns"
  shows "canonicalJson (JObj ms) = canonicalJson (JObj ns)"
proof -
  have "inj_on fst (set ms)" using assms(1) by (simp add: distinct_map)
  then have "sort_key fst ms = sort_key fst ns"
    using assms(2) by (intro sort_key_inj_key_eq) auto
  then show ?thesis by simp
qed

theorem canonicalJson_key_order_witness:
  "canonicalJson (JObj [(''b'', JNum 1), (''a'', JNull)]) = canonicalJson (JObj [(''a'', JNull), (''b'', JNum 1)])"
  by (rule canonicalJson_key_order) simp_all

end
