(* ===== verification/Operational_Tx.thy ===== *)
theory Operational_Tx
  imports Canonical_Json
begin

text \<open>
  The lifecycle of one operational Ergo transaction
  (\<^verbatim>\<open>relayer-core/ergo-operational-transaction-lifecycle.ts\<close>): admission, signing, the node check,
  revalidation, broadcast authorization, the durable reservation, submission and journal finalization.

  The ports are functions on a world the model knows nothing about; each may throw. A run keeps that world,
  the calls made on the ports in order, and what was added to the six \<^verbatim>\<open>WeakSet\<close>s of provenance.
  SHA-256 and the platform's URL parser are parameters. An artifact is an opaque object, a number in the
  model, and \<open>None\<close> for a value that is not an object. In the answer of a submitter a missing text is \<open>None\<close>,
  \<^verbatim>\<open>null\<close> and \<^verbatim>\<open>undefined\<close> alike: its declared type has the first only.
\<close>

section \<open>Data\<close>

datatype op_profile =
    PEG_IN_COMMITTED_VAULT
  | SCS_ORACLE_UPDATE
  | DUP_HEARTBEAT
  | DEVNET_REWARD_CONSOLIDATION
  | SUBSTRATE_FEDERATED_LOCAL_DEVNET_GENESIS
  | UnknownProfile string

datatype op_error =
    NotHex32 string
  | NotHeight string
  | NotNodeOrigin
  | NotArtifact string
  | NoInputBoxes
  | InputsNotUnique
  | SourceNotFirst
  | ForbiddenContext
  | UnknownOperationProfile
  | BindingDigest json_error
  | LacksProvenance
  | OutsideAdmission
  | InvalidAmbiguous
  | StatusChanged
  | PortThrew string

record op_input =
  inProfile :: op_profile
  inExpectedTxId :: "string option"
  inSourceBoxId :: "string option"
  inInputBoxIds :: "string option list"
  inAttemptedAtHeight :: "int option"
  inTargetHeight :: "int option"
  inTargetBlockHash :: "string option"
  inHeartbeatKey :: "string option"
  inUnsignedTransaction :: json

record op_admission =
  adProfile :: op_profile
  expectedTxId :: string
  sourceBoxId :: string
  inputBoxIds :: "string list"
  attemptedAtHeight :: int
  targetSidechainHeight :: "int option"
  targetSidechainBlockHashHex :: "string option"
  heartbeatKeyHex :: "string option"
  bindingDigestHex :: string
  unsignedTransaction :: json

record signed_candidate =
  sgAdmission :: op_admission
  nodeOrigin :: string
  signedTransactionDigestHex :: string
  signerArtifact :: nat

record checked_candidate =
  ckSigned :: signed_candidate
  checkResponseDigestHex :: string
  checkerArtifact :: nat

record revalidated_candidate =
  rvChecked :: checked_candidate
  revalidationDigestHex :: string

record broadcast_authorization =
  auRevalidated :: revalidated_candidate
  authorizationDigestHex :: string
  authorizationArtifact :: nat

record durable_attempt =
  atAuthorization :: broadcast_authorization
  durableAttemptDigestHex :: string
  durableArtifact :: nat

datatype submission = AcceptedTx string string | AmbiguousTx "string option"

datatype op_result =
    SigningRejected string
  | CheckRejected string
  | ResultAccepted string string string string
  | ResultAmbiguous string string string

text \<open>The tag of a submission, and what a submitter hands back before it is checked.\<close>

datatype raw_status = RawAccepted | RawAmbiguous | RawOther

record raw_submission =
  rwStatus :: raw_status
  rwSubmittedTxId :: "string option"
  rwResponseDigest :: "string option"

fun submissionStatus :: "submission \<Rightarrow> raw_status" where
  "submissionStatus (AcceptedTx _ _) = RawAccepted"
| "submissionStatus (AmbiguousTx _) = RawAmbiguous"

record url =
  protocol :: string
  username :: string
  password :: string
  pathname :: string
  search :: string
  urlHash :: string
  origin :: string


section \<open>Normalization and admission\<close>

definition normalizeHex32 :: "string option \<Rightarrow> string \<Rightarrow> op_error + string" where
  "normalizeHex32 value label = (case value of
       None \<Rightarrow> Inl (NotHex32 label)
     | Some v \<Rightarrow> let normalized = lowerStr (strip0xAny (trimBlanks v)) in
         require (isHex64 normalized) (NotHex32 label) (Inr normalized))"

definition normalizeHeight :: "int option \<Rightarrow> string \<Rightarrow> op_error + int" where
  "normalizeHeight value label = (case value of
       None \<Rightarrow> Inl (NotHeight label)
     | Some v \<Rightarrow> require (\<not> (\<not> isSafeInteger v \<or> v < 0)) (NotHeight label) (Inr v))"

definition normalizeNodeOrigin :: "(string \<Rightarrow> url option) \<Rightarrow> string option \<Rightarrow> op_error + string" where
  "normalizeNodeOrigin parseUrl value = (case value of
       None \<Rightarrow> Inl NotNodeOrigin
     | Some v \<Rightarrow> (case parseUrl v of
         None \<Rightarrow> Inl NotNodeOrigin
       | Some parsed \<Rightarrow>
           if \<not> (protocol parsed = ''http:'' \<or> protocol parsed = ''https:'') \<or> username parsed \<noteq> []
              \<or> password parsed \<noteq> [] \<or> pathname parsed \<noteq> ''/'' \<or> search parsed \<noteq> [] \<or> urlHash parsed \<noteq> []
           then Inl NotNodeOrigin else Inr (lowerStr (origin parsed))))"

definition normalizeArtifact :: "nat option \<Rightarrow> string \<Rightarrow> op_error + nat" where
  "normalizeArtifact value label = (case value of None \<Rightarrow> Inl (NotArtifact label) | Some a \<Rightarrow> Inr a)"

definition normalizeInputBoxIds :: "string option list \<Rightarrow> string \<Rightarrow> op_error + string list" where
  "normalizeInputBoxIds values source =
     require (length values \<noteq> 0) NoInputBoxes
     (andThen (mapR (\<lambda>v. normalizeHex32 v ''operational inputBoxIds'') values) (\<lambda>normalized.
      require (card (set normalized) = length normalized) InputsNotUnique
      (require (normalized ! 0 = source) SourceNotFirst (Inr normalized))))"

definition normalizeOperationContext ::
  "op_input \<Rightarrow> op_error + int option \<times> string option \<times> string option" where
  "normalizeOperationContext input = (case inProfile input of
       PEG_IN_COMMITTED_VAULT \<Rightarrow>
         if inTargetHeight input \<noteq> None \<or> inTargetBlockHash input \<noteq> None \<or> inHeartbeatKey input \<noteq> None
         then Inl ForbiddenContext else Inr (None, None, None)
     | SCS_ORACLE_UPDATE \<Rightarrow>
         if inHeartbeatKey input \<noteq> None then Inl ForbiddenContext
         else andThen (normalizeHeight (inTargetHeight input) ''SCS target sidechain height'') (\<lambda>h.
              andThen (normalizeHex32 (inTargetBlockHash input) ''SCS target sidechain block hash'') (\<lambda>b.
              Inr (Some h, Some b, None)))
     | DUP_HEARTBEAT \<Rightarrow>
         if inTargetHeight input \<noteq> None \<or> inTargetBlockHash input \<noteq> None then Inl ForbiddenContext
         else andThen (normalizeHex32 (inHeartbeatKey input) ''DUP heartbeat key'') (\<lambda>k. Inr (None, None, Some k))
     | DEVNET_REWARD_CONSOLIDATION \<Rightarrow>
         if inTargetHeight input \<noteq> None \<or> inTargetBlockHash input \<noteq> None \<or> inHeartbeatKey input \<noteq> None
         then Inl ForbiddenContext else Inr (None, None, None)
     | SUBSTRATE_FEDERATED_LOCAL_DEVNET_GENESIS \<Rightarrow>
         if inTargetHeight input \<noteq> None \<or> inTargetBlockHash input \<noteq> None \<or> inHeartbeatKey input \<noteq> None
         then Inl ForbiddenContext else Inr (None, None, None)
     | UnknownProfile _ \<Rightarrow> Inl UnknownOperationProfile)"

definition profileName :: "op_profile \<Rightarrow> string" where
  "profileName p = (case p of
       PEG_IN_COMMITTED_VAULT \<Rightarrow> ''e2s.peg-in-committed-vault-operation.v1''
     | SCS_ORACLE_UPDATE \<Rightarrow> ''e2s.scs-oracle-update-operation.v1''
     | DUP_HEARTBEAT \<Rightarrow> ''e2s.dup-heartbeat-operation.v1''
     | DEVNET_REWARD_CONSOLIDATION \<Rightarrow> ''e2s.devnet-reward-consolidation-operation.v1''
     | SUBSTRATE_FEDERATED_LOCAL_DEVNET_GENESIS \<Rightarrow> ''e2s.substrate-federated-local-devnet-genesis-operation.v1''
     | UnknownProfile s \<Rightarrow> s)"

definition optJson :: "('a \<Rightarrow> json) \<Rightarrow> 'a option \<Rightarrow> json" where
  "optJson f x = (case x of None \<Rightarrow> JNull | Some v \<Rightarrow> f v)"

definition bindingJson :: "op_profile \<Rightarrow> string \<Rightarrow> string \<Rightarrow> string list \<Rightarrow> int
    \<Rightarrow> int option \<times> string option \<times> string option \<Rightarrow> json" where
  "bindingJson p tx source boxes height c = JObj
     [(''domain'', JStr ''E2S_ERGO_OPERATIONAL_TRANSACTION_BINDING_V1''),
      (''schema'', JStr ''e2s.ergo-operational-transaction.v1''),
      (''operationProfile'', JStr (profileName p)), (''expectedTxId'', JStr tx), (''sourceBoxId'', JStr source),
      (''inputBoxIds'', JArr (map JStr boxes)), (''attemptedAtHeight'', JNum height),
      (''targetSidechainHeight'', optJson JNum (fst c)),
      (''targetSidechainBlockHashHex'', optJson JStr (fst (snd c))),
      (''heartbeatKeyHex'', optJson JStr (snd (snd c)))]"

fun mapError :: "('e \<Rightarrow> 'f) \<Rightarrow> 'e + 'a \<Rightarrow> 'f + 'a" where
  "mapError f (Inl e) = Inl (f e)"
| "mapError f (Inr x) = Inr x"

lemma mapError_Inr [result_simps]: "mapError f m = Inr x \<longleftrightarrow> m = Inr x"
  by (cases m) auto

definition admitErgoOperationalTransaction :: "(string \<Rightarrow> string) \<Rightarrow> op_input \<Rightarrow> op_error + op_admission" where
  "admitErgoOperationalTransaction sha256 input =
     andThen (normalizeHex32 (inExpectedTxId input) ''operational expectedTxId'') (\<lambda>tx.
     andThen (normalizeHex32 (inSourceBoxId input) ''operational sourceBoxId'') (\<lambda>source.
     andThen (normalizeInputBoxIds (inInputBoxIds input) source) (\<lambda>boxes.
     andThen (normalizeHeight (inAttemptedAtHeight input) ''operational attempted height'') (\<lambda>height.
     andThen (normalizeOperationContext input) (\<lambda>context'.
     andThen (mapError BindingDigest
       (sha256CanonicalJson sha256 (bindingJson (inProfile input) tx source boxes height context') None)) (\<lambda>digest.
     Inr \<lparr> adProfile = inProfile input, expectedTxId = tx, sourceBoxId = source, inputBoxIds = boxes,
           attemptedAtHeight = height, targetSidechainHeight = fst context',
           targetSidechainBlockHashHex = fst (snd context'), heartbeatKeyHex = snd (snd context'),
           bindingDigestHex = digest, unsignedTransaction = inUnsignedTransaction input \<rparr>))))))"

definition normalizeSubmission :: "op_admission \<Rightarrow> raw_submission option \<Rightarrow> op_error + submission" where
  "normalizeSubmission admission value = (case value of
       None \<Rightarrow> Inr (AmbiguousTx None)
     | Some v \<Rightarrow>
         if rwStatus v = RawAccepted
         then andThen (normalizeHex32 (rwSubmittedTxId v) ''operational submitted transaction ID'') (\<lambda>tx.
              require (tx = expectedTxId admission) OutsideAdmission
              (andThen (normalizeHex32 (rwResponseDigest v) ''operational response digest'') (\<lambda>d.
               Inr (AcceptedTx tx d))))
         else require (\<not> (rwStatus v \<noteq> RawAmbiguous \<or> rwSubmittedTxId v \<noteq> None)) InvalidAmbiguous
              (case rwResponseDigest v of
                 None \<Rightarrow> Inr (AmbiguousTx None)
               | Some d \<Rightarrow> andThen (normalizeHex32 (Some d) ''operational ambiguous response digest'') (\<lambda>n.
                   require (\<not> n \<noteq> lowerStr d) InvalidAmbiguous (Inr (AmbiguousTx (Some (lowerStr d)))))))"


section \<open>Execution\<close>

record signed_evidence =
  seOrigin :: "string option"
  seDigest :: "string option"
  seArtifact :: "nat option"

record artifact_evidence =
  aeDigest :: "string option"
  aeArtifact :: "nat option"

record finalization_evidence =
  feStatus :: raw_status
  feDigest :: "string option"

text \<open>The ports. Each takes its argument and the world and returns, or throws, and leaves a world.\<close>

record 'w op_ports =
  sign :: "op_admission \<Rightarrow> 'w \<Rightarrow> (string + signed_evidence option) \<times> 'w"
  check :: "signed_candidate \<Rightarrow> 'w \<Rightarrow> (string + artifact_evidence option) \<times> 'w"
  revalidate :: "checked_candidate \<Rightarrow> 'w \<Rightarrow> (string + string option) \<times> 'w"
  authorize :: "revalidated_candidate \<Rightarrow> 'w \<Rightarrow> (string + artifact_evidence) \<times> 'w"
  reserve :: "broadcast_authorization \<Rightarrow> 'w \<Rightarrow> (string + artifact_evidence) \<times> 'w"
  submit :: "durable_attempt \<Rightarrow> 'w \<Rightarrow> (string + raw_submission option) \<times> 'w"
  finalize :: "durable_attempt \<times> submission \<Rightarrow> 'w \<Rightarrow> (string + finalization_evidence) \<times> 'w"

datatype port_call =
    SignCall op_admission
  | CheckCall signed_candidate
  | RevalidateCall checked_candidate
  | AuthorizeCall revalidated_candidate
  | ReserveCall broadcast_authorization
  | SubmitCall durable_attempt
  | FinalizeCall durable_attempt submission

datatype provenance =
    ADMISSIONS op_admission
  | SIGNED_CANDIDATES signed_candidate
  | CHECKED_CANDIDATES checked_candidate
  | REVALIDATED_CANDIDATES revalidated_candidate
  | BROADCAST_AUTHORIZATIONS broadcast_authorization
  | DURABLE_ATTEMPTS durable_attempt

record 'w op_run =
  world :: 'w
  calls :: "port_call list"
  registered :: "provenance list"

definition callPort ::
  "port_call \<Rightarrow> ('a \<Rightarrow> 'w \<Rightarrow> (string + 'b) \<times> 'w) \<Rightarrow> 'a \<Rightarrow> ('w op_run, op_error, 'b) action" where
  "callPort c port x = (\<lambda>s. case port x (world s) of (r, w) \<Rightarrow>
     (mapError PortThrew r, s \<lparr> world := w, calls := calls s @ [c] \<rparr>))"

text \<open>\<^verbatim>\<open>try { ... } catch { rawSubmission = null }\<close>\<close>

definition callSubmit ::
  "'w op_ports \<Rightarrow> durable_attempt \<Rightarrow> ('w op_run, op_error, raw_submission option) action" where
  "callSubmit ports attempt = (\<lambda>s. case submit ports attempt (world s) of (r, w) \<Rightarrow>
     (Inr (case r of Inl _ \<Rightarrow> None | Inr raw \<Rightarrow> raw), s \<lparr> world := w, calls := calls s @ [SubmitCall attempt] \<rparr>))"

definition register :: "provenance \<Rightarrow> ('w op_run, op_error, unit) action" where
  "register p = (\<lambda>s. (Inr (), s \<lparr> registered := p # registered s \<rparr>))"

definition assertRegistered :: "provenance \<Rightarrow> ('w op_run, op_error, unit) action" where
  "assertRegistered p = (\<lambda>s. (require (List.member (registered s) p) LacksProvenance (Inr ()), s))"

definition assertAdmission :: "op_admission \<Rightarrow> ('w op_run, op_error, unit) action" where
  "assertAdmission a = assertRegistered (ADMISSIONS a)"

definition assertSigned :: "signed_candidate \<Rightarrow> ('w op_run, op_error, unit) action" where
  "assertSigned c = bindA (assertAdmission (sgAdmission c)) (\<lambda>_. assertRegistered (SIGNED_CANDIDATES c))"

definition assertChecked :: "checked_candidate \<Rightarrow> ('w op_run, op_error, unit) action" where
  "assertChecked c = bindA (assertSigned (ckSigned c)) (\<lambda>_. assertRegistered (CHECKED_CANDIDATES c))"

definition assertRevalidated :: "revalidated_candidate \<Rightarrow> ('w op_run, op_error, unit) action" where
  "assertRevalidated c = bindA (assertChecked (rvChecked c)) (\<lambda>_. assertRegistered (REVALIDATED_CANDIDATES c))"

definition assertAuthorization :: "broadcast_authorization \<Rightarrow> ('w op_run, op_error, unit) action" where
  "assertAuthorization a = bindA (assertRevalidated (auRevalidated a)) (\<lambda>_. assertRegistered (BROADCAST_AUTHORIZATIONS a))"

definition assertAttempt :: "durable_attempt \<Rightarrow> ('w op_run, op_error, unit) action" where
  "assertAttempt a = bindA (assertAuthorization (atAuthorization a)) (\<lambda>_. assertRegistered (DURABLE_ATTEMPTS a))"

text \<open>\<^verbatim>\<open>executeErgoOperationalTransaction\<close>, stage by stage from the last one.\<close>

definition finalizeStage ::
  "'w op_ports \<Rightarrow> op_admission \<Rightarrow> durable_attempt \<Rightarrow> raw_submission option \<Rightarrow> ('w op_run, op_error, op_result) action" where
  "finalizeStage ports admission attempt raw =
     bindA (liftA (normalizeSubmission admission raw)) (\<lambda>sub.
     bindA (callPort (FinalizeCall attempt sub) (finalize ports) (attempt, sub)) (\<lambda>fin.
     bindA (liftA (require (feStatus fin = submissionStatus sub) StatusChanged (Inr ()))) (\<lambda>_.
     bindA (liftA (normalizeHex32 (feDigest fin) ''operational journal digest'')) (\<lambda>journal.
     returnA (case sub of
         AcceptedTx tx _ \<Rightarrow> ResultAccepted (expectedTxId admission) tx (durableAttemptDigestHex attempt) journal
       | AmbiguousTx _ \<Rightarrow> ResultAmbiguous (expectedTxId admission) (durableAttemptDigestHex attempt) journal)))))"

definition submitStage ::
  "'w op_ports \<Rightarrow> op_admission \<Rightarrow> durable_attempt \<Rightarrow> ('w op_run, op_error, op_result) action" where
  "submitStage ports admission attempt =
     bindA (callSubmit ports attempt) (\<lambda>raw.
     bindA (assertAttempt attempt) (\<lambda>_. finalizeStage ports admission attempt raw))"

definition reserveStage ::
  "'w op_ports \<Rightarrow> op_admission \<Rightarrow> broadcast_authorization \<Rightarrow> ('w op_run, op_error, op_result) action" where
  "reserveStage ports admission au =
     bindA (callPort (ReserveCall au) (reserve ports) au) (\<lambda>e.
     bindA (liftA (normalizeHex32 (aeDigest e) ''operational durable attempt digest'')) (\<lambda>d.
     bindA (liftA (normalizeArtifact (aeArtifact e) ''operational durable artifact'')) (\<lambda>art.
     let attempt = \<lparr> atAuthorization = au, durableAttemptDigestHex = d, durableArtifact = art \<rparr> in
     bindA (register (DURABLE_ATTEMPTS attempt)) (\<lambda>_. submitStage ports admission attempt))))"

definition authorizeStage ::
  "'w op_ports \<Rightarrow> op_admission \<Rightarrow> revalidated_candidate \<Rightarrow> ('w op_run, op_error, op_result) action" where
  "authorizeStage ports admission rv =
     bindA (callPort (AuthorizeCall rv) (authorize ports) rv) (\<lambda>e.
     bindA (liftA (normalizeHex32 (aeDigest e) ''operational authorization digest'')) (\<lambda>d.
     bindA (liftA (normalizeArtifact (aeArtifact e) ''operational authorization artifact'')) (\<lambda>art.
     let au = \<lparr> auRevalidated = rv, authorizationDigestHex = d, authorizationArtifact = art \<rparr> in
     bindA (register (BROADCAST_AUTHORIZATIONS au)) (\<lambda>_. reserveStage ports admission au))))"

definition revalidateStage ::
  "'w op_ports \<Rightarrow> op_admission \<Rightarrow> checked_candidate \<Rightarrow> ('w op_run, op_error, op_result) action" where
  "revalidateStage ports admission ck =
     bindA (callPort (RevalidateCall ck) (revalidate ports) ck) (\<lambda>e.
     bindA (liftA (normalizeHex32 e ''operational revalidation digest'')) (\<lambda>d.
     let rv = \<lparr> rvChecked = ck, revalidationDigestHex = d \<rparr> in
     bindA (register (REVALIDATED_CANDIDATES rv)) (\<lambda>_. authorizeStage ports admission rv)))"

definition checkStage ::
  "'w op_ports \<Rightarrow> op_admission \<Rightarrow> signed_candidate \<Rightarrow> ('w op_run, op_error, op_result) action" where
  "checkStage ports admission sg =
     bindA (callPort (CheckCall sg) (check ports) sg) (\<lambda>answer. case answer of
         None \<Rightarrow> returnA (CheckRejected (expectedTxId admission))
       | Some e \<Rightarrow>
           bindA (liftA (normalizeHex32 (aeDigest e) ''operational check response digest'')) (\<lambda>d.
           bindA (liftA (normalizeArtifact (aeArtifact e) ''operational checker artifact'')) (\<lambda>art.
           let ck = \<lparr> ckSigned = sg, checkResponseDigestHex = d, checkerArtifact = art \<rparr> in
           bindA (register (CHECKED_CANDIDATES ck)) (\<lambda>_. revalidateStage ports admission ck))))"

definition signStage ::
  "(string \<Rightarrow> url option) \<Rightarrow> 'w op_ports \<Rightarrow> op_admission \<Rightarrow> ('w op_run, op_error, op_result) action" where
  "signStage parseUrl ports admission =
     bindA (callPort (SignCall admission) (sign ports) admission) (\<lambda>answer. case answer of
         None \<Rightarrow> returnA (SigningRejected (expectedTxId admission))
       | Some e \<Rightarrow>
           bindA (liftA (normalizeNodeOrigin parseUrl (seOrigin e))) (\<lambda>node.
           bindA (liftA (normalizeHex32 (seDigest e) ''operational signed transaction digest'')) (\<lambda>d.
           bindA (liftA (normalizeArtifact (seArtifact e) ''operational signer artifact'')) (\<lambda>art.
           let sg = \<lparr> sgAdmission = admission, nodeOrigin = node, signedTransactionDigestHex = d, signerArtifact = art \<rparr> in
           bindA (register (SIGNED_CANDIDATES sg)) (\<lambda>_. checkStage ports admission sg)))))"

definition executeErgoOperationalTransaction ::
  "(string \<Rightarrow> string) \<Rightarrow> (string \<Rightarrow> url option) \<Rightarrow> 'w op_ports \<Rightarrow> op_input \<Rightarrow> ('w op_run, op_error, op_result) action" where
  "executeErgoOperationalTransaction sha256 parseUrl ports input =
     bindA (liftA (admitErgoOperationalTransaction sha256 input)) (\<lambda>admission.
     bindA (register (ADMISSIONS admission)) (\<lambda>_. signStage parseUrl ports admission))"


section \<open>What a run does\<close>

text \<open>The next call takes the artefact made from the one the call before took, and there is no way back.\<close>

fun linked :: "port_call \<Rightarrow> port_call \<Rightarrow> bool" where
  "linked (SignCall a) (CheckCall c) = (sgAdmission c = a)"
| "linked (CheckCall c) (RevalidateCall k) = (ckSigned k = c)"
| "linked (RevalidateCall k) (AuthorizeCall v) = (rvChecked v = k)"
| "linked (AuthorizeCall v) (ReserveCall u) = (auRevalidated u = v)"
| "linked (ReserveCall u) (SubmitCall t) = (atAuthorization t = u)"
| "linked (SubmitCall t) (FinalizeCall t' sub) = (t' = t)"
| "linked _ _ = False"

fun isSubmitCall :: "port_call \<Rightarrow> bool" where
  "isSubmitCall (SubmitCall _) = True"
| "isSubmitCall _ = False"

definition pipeline :: "op_admission \<Rightarrow> port_call list \<Rightarrow> bool" where
  "pipeline adm tr \<longleftrightarrow> (tr = [] \<or> hd tr = SignCall adm) \<and> successively linked tr"

lemma callPort_effect:
  "callPort c port x s = (r, s') \<Longrightarrow> calls s' = calls s @ [c] \<and> registered s' = registered s"
  by (auto simp: callPort_def split: prod.splits)

lemma callSubmit_effect:
  assumes "callSubmit ports at s = (r, s')"
  shows "calls s' = calls s @ [SubmitCall at] \<and> registered s' = registered s \<and> (\<exists>raw. r = Inr raw)"
    and "(\<And>w. \<exists>e w'. submit ports at w = (Inl e, w')) \<Longrightarrow> r = Inr None"
proof -
  from assms show "calls s' = calls s @ [SubmitCall at] \<and> registered s' = registered s \<and> (\<exists>raw. r = Inr raw)"
    by (auto simp: callSubmit_def split: prod.splits)
  assume "\<And>w. \<exists>e w'. submit ports at w = (Inl e, w')"
  then obtain e w' where "submit ports at (world s) = (Inl e, w')" by blast
  with assms show "r = Inr None" by (simp add: callSubmit_def)
qed

text \<open>Provenance: what the assertions ask for.\<close>

definition knownSigned :: "provenance set \<Rightarrow> signed_candidate \<Rightarrow> bool" where
  "knownSigned R c \<longleftrightarrow> ADMISSIONS (sgAdmission c) \<in> R \<and> SIGNED_CANDIDATES c \<in> R"

definition knownChecked :: "provenance set \<Rightarrow> checked_candidate \<Rightarrow> bool" where
  "knownChecked R c \<longleftrightarrow> knownSigned R (ckSigned c) \<and> CHECKED_CANDIDATES c \<in> R"

definition knownRevalidated :: "provenance set \<Rightarrow> revalidated_candidate \<Rightarrow> bool" where
  "knownRevalidated R c \<longleftrightarrow> knownChecked R (rvChecked c) \<and> REVALIDATED_CANDIDATES c \<in> R"

definition knownAuthorization :: "provenance set \<Rightarrow> broadcast_authorization \<Rightarrow> bool" where
  "knownAuthorization R c \<longleftrightarrow> knownRevalidated R (auRevalidated c) \<and> BROADCAST_AUTHORIZATIONS c \<in> R"

definition knownAttempt :: "provenance set \<Rightarrow> durable_attempt \<Rightarrow> bool" where
  "knownAttempt R c \<longleftrightarrow> knownAuthorization R (atAuthorization c) \<and> DURABLE_ATTEMPTS c \<in> R"

lemmas known_defs = knownSigned_def knownChecked_def knownRevalidated_def knownAuthorization_def knownAttempt_def
lemmas assert_defs = assertRegistered_def assertAdmission_def assertSigned_def assertChecked_def assertRevalidated_def
  assertAuthorization_def assertAttempt_def

lemma assertAttempt_known: "knownAttempt (set (registered s)) at \<Longrightarrow> assertAttempt at s = (Inr (), s)"
  by (simp add: assert_defs known_defs bindA_def)

text \<open>The trace and the result of each stage.\<close>

definition submissionOk :: "op_admission \<Rightarrow> submission \<Rightarrow> bool" where
  "submissionOk adm sub \<longleftrightarrow> (case sub of AcceptedTx tx _ \<Rightarrow> tx = expectedTxId adm | AmbiguousTx _ \<Rightarrow> True)"

definition resultOf :: "op_admission \<Rightarrow> durable_attempt \<Rightarrow> submission \<Rightarrow> op_result \<Rightarrow> bool" where
  "resultOf adm at sub x \<longleftrightarrow> (\<exists>j. x = (case sub of
      AcceptedTx tx _ \<Rightarrow> ResultAccepted (expectedTxId adm) tx (durableAttemptDigestHex at) j
    | AmbiguousTx _ \<Rightarrow> ResultAmbiguous (expectedTxId adm) (durableAttemptDigestHex at) j))"

type_synonym op_answer = "op_error + op_result"

definition finalizeTrace :: "op_admission \<Rightarrow> durable_attempt \<Rightarrow> raw_submission option \<Rightarrow> port_call list \<Rightarrow> op_answer \<Rightarrow> bool" where
  "finalizeTrace adm at raw tr r \<longleftrightarrow>
     (\<exists>e. normalizeSubmission adm raw = Inl e \<and> r = Inl e \<and> tr = [])
   \<or> (\<exists>sub. normalizeSubmission adm raw = Inr sub \<and> submissionOk adm sub \<and> tr = [FinalizeCall at sub]
        \<and> (\<forall>x. r = Inr x \<longrightarrow> resultOf adm at sub x))"

definition submitTrace :: "'w op_ports \<Rightarrow> op_admission \<Rightarrow> durable_attempt \<Rightarrow> port_call list \<Rightarrow> op_answer \<Rightarrow> bool" where
  "submitTrace ports adm at tr r \<longleftrightarrow> (\<exists>raw tr'. tr = SubmitCall at # tr' \<and> finalizeTrace adm at raw tr' r
     \<and> ((\<forall>w. \<exists>e w'. submit ports at w = (Inl e, w')) \<longrightarrow> raw = None))"

definition reserveTrace :: "'w op_ports \<Rightarrow> op_admission \<Rightarrow> broadcast_authorization \<Rightarrow> port_call list \<Rightarrow> op_answer \<Rightarrow> bool" where
  "reserveTrace ports adm au tr r \<longleftrightarrow> tr = [ReserveCall au] \<and> \<not> isOk r
     \<or> (\<exists>at tr'. atAuthorization at = au \<and> tr = ReserveCall au # tr' \<and> submitTrace ports adm at tr' r)"

definition authorizeTrace :: "'w op_ports \<Rightarrow> op_admission \<Rightarrow> revalidated_candidate \<Rightarrow> port_call list \<Rightarrow> op_answer \<Rightarrow> bool" where
  "authorizeTrace ports adm rv tr r \<longleftrightarrow> tr = [AuthorizeCall rv] \<and> \<not> isOk r
     \<or> (\<exists>au tr'. auRevalidated au = rv \<and> tr = AuthorizeCall rv # tr' \<and> reserveTrace ports adm au tr' r)"

definition revalidateTrace :: "'w op_ports \<Rightarrow> op_admission \<Rightarrow> checked_candidate \<Rightarrow> port_call list \<Rightarrow> op_answer \<Rightarrow> bool" where
  "revalidateTrace ports adm ck tr r \<longleftrightarrow> tr = [RevalidateCall ck] \<and> \<not> isOk r
     \<or> (\<exists>rv tr'. rvChecked rv = ck \<and> tr = RevalidateCall ck # tr' \<and> authorizeTrace ports adm rv tr' r)"

definition checkTrace :: "'w op_ports \<Rightarrow> op_admission \<Rightarrow> signed_candidate \<Rightarrow> port_call list \<Rightarrow> op_answer \<Rightarrow> bool" where
  "checkTrace ports adm sg tr r \<longleftrightarrow> tr = [CheckCall sg] \<and> (isOk r \<longrightarrow> r = Inr (CheckRejected (expectedTxId adm)))
     \<or> (\<exists>ck tr'. ckSigned ck = sg \<and> tr = CheckCall sg # tr' \<and> revalidateTrace ports adm ck tr' r)"

definition signTrace :: "'w op_ports \<Rightarrow> op_admission \<Rightarrow> port_call list \<Rightarrow> op_answer \<Rightarrow> bool" where
  "signTrace ports adm tr r \<longleftrightarrow> tr = [SignCall adm] \<and> (isOk r \<longrightarrow> r = Inr (SigningRejected (expectedTxId adm)))
     \<or> (\<exists>sg tr'. sgAdmission sg = adm \<and> tr = SignCall adm # tr' \<and> checkTrace ports adm sg tr' r)"

lemma normalizeSubmission_ok: "normalizeSubmission adm raw = Inr sub \<Longrightarrow> submissionOk adm sub"
  by (auto simp: normalizeSubmission_def submissionOk_def result_simps split: option.splits if_splits)

lemma finalizeStage_trace:
  assumes "finalizeStage ports adm at raw s = (r, s')"
  shows "\<exists>tr. calls s' = calls s @ tr \<and> finalizeTrace adm at raw tr r"
proof (cases "normalizeSubmission adm raw")
  case (Inl e)
  with assms show ?thesis by (auto simp: finalizeStage_def bindA_def liftA_def finalizeTrace_def)
next
  case (Inr sub)
  with assms obtain q s1 where c: "callPort (FinalizeCall at sub) (finalize ports) (at, sub) s = (q, s1)"
    and rest: "s' = s1" "\<forall>x. r = Inr x \<longrightarrow> resultOf adm at sub x"
    by (auto simp: finalizeStage_def bindA_def liftA_def returnA_def require_def resultOf_def
        split: sum.splits prod.splits if_splits)
  from callPort_effect [OF c] rest Inr normalizeSubmission_ok [OF Inr] show ?thesis
    by (auto simp: finalizeTrace_def)
qed

lemma submitStage_trace:
  assumes "submitStage ports adm at s = (r, s')" and "knownAttempt (set (registered s)) at"
  shows "\<exists>tr. calls s' = calls s @ tr \<and> submitTrace ports adm at tr r"
proof -
  obtain q s1 where c: "callSubmit ports at s = (q, s1)" by fastforce
  note e = callSubmit_effect [OF c]
  then obtain raw where raw: "q = Inr raw" by blast
  have "assertAttempt at s1 = (Inr (), s1)" using e(1) assms(2) by (intro assertAttempt_known) simp
  with assms(1) c raw have "finalizeStage ports adm at raw s1 = (r, s')" by (simp add: submitStage_def bindA_def)
  from finalizeStage_trace [OF this] obtain tr where "calls s' = calls s1 @ tr" "finalizeTrace adm at raw tr r" by blast
  with e raw show ?thesis unfolding submitTrace_def by (intro exI [of _ "SubmitCall at # tr"]) auto
qed

text \<open>One stage: it calls its port, then fails or stops there, or registers what it made and hands over.\<close>

lemma stage_trace:
  assumes "bindA (callPort c port x) k s = (r, s')"
    and stop: "\<And>e. r = Inl (PortThrew e) \<Longrightarrow> E"
    and split: "\<And>e s1. k e s1 = (r, s') \<Longrightarrow>
      s' = s1 \<and> E \<or> (\<exists>v. nxt v (s1 \<lparr> registered := P v # registered s1 \<rparr>) = (r, s') \<and> sel v)"
    and nxt: "\<And>v u. nxt v u = (r, s') \<Longrightarrow> sel v \<Longrightarrow> set (registered u) = insert (P v) (set (registered s)) \<Longrightarrow>
      \<exists>tr. calls s' = calls u @ tr \<and> T v tr"
  shows "\<exists>tr. calls s' = calls s @ tr \<and> (tr = [c] \<and> E \<or> (\<exists>v tr'. sel v \<and> tr = c # tr' \<and> T v tr'))"
proof -
  obtain q s1 where c: "callPort c port x s = (q, s1)" by fastforce
  note e = callPort_effect [OF c]
  have q: "\<exists>m. e = PortThrew m" if "q = Inl e" for e
    using c that by (auto simp: callPort_def split: prod.splits elim!: mapError.elims)
  have "s' = s1 \<and> E \<or> (\<exists>v. nxt v (s1 \<lparr> registered := P v # registered s1 \<rparr>) = (r, s') \<and> sel v)"
    using assms(1) c q stop split by (auto simp: bindA_def split: sum.splits)
  then show ?thesis
  proof (elim disjE exE conjE)
    fix v
    assume v: "nxt v (s1 \<lparr> registered := P v # registered s1 \<rparr>) = (r, s')" "sel v"
    from nxt [OF this] e obtain tr where "calls s' = calls s1 @ tr" "T v tr" by auto
    with e v(2) show ?thesis by auto
  qed (use e in auto)
qed

lemmas stage_simps = bindA_def liftA_def returnA_def register_def Let_def

lemma reserveStage_trace:
  assumes "reserveStage ports adm au s = (r, s')" and "knownAuthorization (set (registered s)) au"
  shows "\<exists>tr. calls s' = calls s @ tr \<and> reserveTrace ports adm au tr r"
  unfolding reserveTrace_def
proof (rule stage_trace [OF assms(1)[unfolded reserveStage_def], where P = DURABLE_ATTEMPTS
    and nxt = "submitStage ports adm" and sel = "\<lambda>at. atAuthorization at = au"])
  show "\<exists>tr. calls s' = calls u @ tr \<and> submitTrace ports adm at tr r"
    if "submitStage ports adm at u = (r, s')" "atAuthorization at = au"
      "set (registered u) = insert (DURABLE_ATTEMPTS at) (set (registered s))" for at u
    using that assms(2) by (intro submitStage_trace) (auto simp: known_defs)
qed (fastforce simp: stage_simps split: sum.splits prod.splits option.splits)+

lemma authorizeStage_trace:
  assumes "authorizeStage ports adm rv s = (r, s')" and "knownRevalidated (set (registered s)) rv"
  shows "\<exists>tr. calls s' = calls s @ tr \<and> authorizeTrace ports adm rv tr r"
  unfolding authorizeTrace_def
proof (rule stage_trace [OF assms(1)[unfolded authorizeStage_def], where P = BROADCAST_AUTHORIZATIONS
    and nxt = "reserveStage ports adm" and sel = "\<lambda>au. auRevalidated au = rv"])
  show "\<exists>tr. calls s' = calls u @ tr \<and> reserveTrace ports adm au tr r"
    if "reserveStage ports adm au u = (r, s')" "auRevalidated au = rv"
      "set (registered u) = insert (BROADCAST_AUTHORIZATIONS au) (set (registered s))" for au u
    using that assms(2) by (intro reserveStage_trace) (auto simp: known_defs)
qed (fastforce simp: stage_simps split: sum.splits prod.splits option.splits)+

lemma revalidateStage_trace:
  assumes "revalidateStage ports adm ck s = (r, s')" and "knownChecked (set (registered s)) ck"
  shows "\<exists>tr. calls s' = calls s @ tr \<and> revalidateTrace ports adm ck tr r"
  unfolding revalidateTrace_def
proof (rule stage_trace [OF assms(1)[unfolded revalidateStage_def], where P = REVALIDATED_CANDIDATES
    and nxt = "authorizeStage ports adm" and sel = "\<lambda>rv. rvChecked rv = ck"])
  show "\<exists>tr. calls s' = calls u @ tr \<and> authorizeTrace ports adm rv tr r"
    if "authorizeStage ports adm rv u = (r, s')" "rvChecked rv = ck"
      "set (registered u) = insert (REVALIDATED_CANDIDATES rv) (set (registered s))" for rv u
    using that assms(2) by (intro authorizeStage_trace) (auto simp: known_defs)
qed (fastforce simp: stage_simps split: sum.splits prod.splits option.splits)+

lemma checkStage_trace:
  assumes "checkStage ports adm sg s = (r, s')" and "knownSigned (set (registered s)) sg"
  shows "\<exists>tr. calls s' = calls s @ tr \<and> checkTrace ports adm sg tr r"
  unfolding checkTrace_def
proof (rule stage_trace [OF assms(1)[unfolded checkStage_def], where P = CHECKED_CANDIDATES
    and nxt = "revalidateStage ports adm" and sel = "\<lambda>ck. ckSigned ck = sg"])
  show "\<exists>tr. calls s' = calls u @ tr \<and> revalidateTrace ports adm ck tr r"
    if "revalidateStage ports adm ck u = (r, s')" "ckSigned ck = sg"
      "set (registered u) = insert (CHECKED_CANDIDATES ck) (set (registered s))" for ck u
    using that assms(2) by (intro revalidateStage_trace) (auto simp: known_defs)
qed (fastforce simp: stage_simps split: sum.splits prod.splits option.splits)+

lemma signStage_trace:
  assumes "signStage parseUrl ports adm s = (r, s')" and "ADMISSIONS adm \<in> set (registered s)"
  shows "\<exists>tr. calls s' = calls s @ tr \<and> signTrace ports adm tr r"
  unfolding signTrace_def
proof (rule stage_trace [OF assms(1)[unfolded signStage_def], where P = SIGNED_CANDIDATES
    and nxt = "checkStage ports adm" and sel = "\<lambda>sg. sgAdmission sg = adm"])
  show "\<exists>tr. calls s' = calls u @ tr \<and> checkTrace ports adm sg tr r"
    if "checkStage ports adm sg u = (r, s')" "sgAdmission sg = adm"
      "set (registered u) = insert (SIGNED_CANDIDATES sg) (set (registered s))" for sg u
    using that assms(2) by (intro checkStage_trace) (auto simp: known_defs)
qed (fastforce simp: stage_simps split: sum.splits prod.splits option.splits)+



lemma execute_trace:
  assumes "executeErgoOperationalTransaction sha256 parseUrl ports input s = (r, s')"
  shows "\<not> isOk (admitErgoOperationalTransaction sha256 input) \<and> \<not> isOk r \<and> calls s' = calls s
    \<or> (\<exists>adm tr. admitErgoOperationalTransaction sha256 input = Inr adm \<and> calls s' = calls s @ tr \<and> signTrace ports adm tr r)"
proof (cases "admitErgoOperationalTransaction sha256 input")
  case (Inl e)
  with assms show ?thesis by (auto simp: executeErgoOperationalTransaction_def stage_simps)
next
  case (Inr adm)
  with assms have "signStage parseUrl ports adm (s \<lparr> registered := ADMISSIONS adm # registered s \<rparr>) = (r, s')"
    by (simp add: executeErgoOperationalTransaction_def stage_simps)
  from signStage_trace [OF this] Inr show ?thesis by auto
qed

lemmas trace_defs = signTrace_def checkTrace_def revalidateTrace_def authorizeTrace_def reserveTrace_def
  submitTrace_def finalizeTrace_def

lemma signTrace_pipeline:
  "signTrace ports adm tr r \<Longrightarrow> pipeline adm tr \<and> length (filter isSubmitCall tr) \<le> 1
     \<and> (\<forall>at. SubmitCall at \<in> set tr \<longrightarrow> ReserveCall (atAuthorization at) \<in> set tr)"
  unfolding trace_defs pipeline_def by (elim disjE exE conjE) simp_all

text \<open>C3. Order and single submission: the port calls of one execution are a run of the pipeline sign, check,
  revalidate, authorize, reserve, submit, finalize, each on what the one before produced for this admission;
  there is at most one submission, and never one without the durable reservation of the same attempt.\<close>

theorem operational_call_order:
  assumes "executeErgoOperationalTransaction sha256 parseUrl ports input s = (r, s')"
  shows "\<exists>tr. calls s' = calls s @ tr
    \<and> (tr = [] \<or> (\<exists>adm. admitErgoOperationalTransaction sha256 input = Inr adm \<and> pipeline adm tr))
    \<and> length (filter isSubmitCall tr) \<le> 1
    \<and> (\<forall>at. SubmitCall at \<in> set tr \<longrightarrow> ReserveCall (atAuthorization at) \<in> set tr)"
  using execute_trace [OF assms] signTrace_pipeline by fastforce

lemma signTrace_result:
  assumes "signTrace ports adm tr (Inr res)"
  shows "case res of
      SigningRejected t \<Rightarrow> t = expectedTxId adm \<and> tr = [SignCall adm]
    | CheckRejected t \<Rightarrow> t = expectedTxId adm \<and> (\<exists>sg. tr = [SignCall adm, CheckCall sg])
    | ResultAccepted t tx d j \<Rightarrow> t = expectedTxId adm \<and> tx = expectedTxId adm \<and> length tr = 7
        \<and> (\<exists>at dg. last tr = FinalizeCall at (AcceptedTx tx dg) \<and> d = durableAttemptDigestHex at)
    | ResultAmbiguous t d j \<Rightarrow> t = expectedTxId adm \<and> length tr = 7
        \<and> (\<exists>at dg. last tr = FinalizeCall at (AmbiguousTx dg) \<and> d = durableAttemptDigestHex at)"
  using assms unfolding trace_defs
  by (elim disjE exE conjE; cases res) (auto simp: resultOf_def submissionOk_def split: submission.splits)

text \<open>What an answer means: a rejection leaves no reservation and no submission; an accepted answer carries the
  admitted transaction id, and an accepted or ambiguous one was journaled with that status for the attempt
  whose digest is returned.\<close>

theorem operational_outcome:
  assumes "executeErgoOperationalTransaction sha256 parseUrl ports input s = (Inr res, s')"
  shows "\<exists>adm tr. admitErgoOperationalTransaction sha256 input = Inr adm \<and> calls s' = calls s @ tr \<and> (case res of
      SigningRejected t \<Rightarrow> t = expectedTxId adm \<and> tr = [SignCall adm]
    | CheckRejected t \<Rightarrow> t = expectedTxId adm \<and> (\<exists>sg. tr = [SignCall adm, CheckCall sg])
    | ResultAccepted t tx d j \<Rightarrow> t = expectedTxId adm \<and> tx = expectedTxId adm \<and> length tr = 7
        \<and> (\<exists>at dg. last tr = FinalizeCall at (AcceptedTx tx dg) \<and> d = durableAttemptDigestHex at)
    | ResultAmbiguous t d j \<Rightarrow> t = expectedTxId adm \<and> length tr = 7
        \<and> (\<exists>at dg. last tr = FinalizeCall at (AmbiguousTx dg) \<and> d = durableAttemptDigestHex at))"
  using execute_trace [OF assms] signTrace_result by fastforce

lemma signTrace_throw:
  assumes "signTrace ports adm tr r" and "\<And>at w. \<exists>e w'. submit ports at w = (Inl e, w')" and "SubmitCall at \<in> set tr"
  shows "last tr = FinalizeCall at (AmbiguousTx None) \<and> (\<forall>t tx d j. r \<noteq> Inr (ResultAccepted t tx d j))"
  using assms unfolding trace_defs
  by (elim disjE exE conjE) (auto simp: normalizeSubmission_def resultOf_def)

text \<open>A submitter that throws never loses the attempt: when every submission attempt throws, an execution that
  got as far as submitting journals that attempt as ambiguous and does not answer accepted.\<close>

theorem operational_submit_throw:
  assumes "executeErgoOperationalTransaction sha256 parseUrl ports input s = (r, s')" and "calls s' = calls s @ tr"
    and "\<And>at w. \<exists>e w'. submit ports at w = (Inl e, w')" and "SubmitCall at \<in> set tr"
  shows "last tr = FinalizeCall at (AmbiguousTx None) \<and> (\<forall>t tx d j. r \<noteq> Inr (ResultAccepted t tx d j))"
  using execute_trace [OF assms(1)] assms(2-) signTrace_throw [of ports _ tr r at] by fastforce


section \<open>Concrete runs\<close>

lemma hex32Operational_id: "isHex64 h \<Longrightarrow> normalizeHex32 (Some h) l = Inr h"
  by (simp add: normalizeHex32_def isHex64_def trimBlanks_lowerHex strip0xAny_lowerHex lowerStr_lowerHex)

lemma binding_ok: "isSafeInteger height \<Longrightarrow> isOk (canonicalJson (bindingJson p tx source boxes height (None, None, None)))"
  unfolding bindingJson_def
  by (rule canonicalJson_object_ok) (auto simp: optJson_def isOk_iff [symmetric] simp del: canonicalJson.simps(5)
      intro!: canonicalJson_array_ok)

definition demoHex :: "char \<Rightarrow> string" where
  "demoHex c = replicate 64 c"

definition demoInput :: op_input where
  "demoInput = \<lparr> inProfile = PEG_IN_COMMITTED_VAULT, inExpectedTxId = Some (demoHex (CHR ''a'')),
     inSourceBoxId = Some (demoHex (CHR ''b'')), inInputBoxIds = [Some (demoHex (CHR ''b''))],
     inAttemptedAtHeight = Some 900000, inTargetHeight = None, inTargetBlockHash = None, inHeartbeatKey = None,
     inUnsignedTransaction = JNull \<rparr>"

definition demoUrl :: "string \<Rightarrow> url option" where
  "demoUrl v = Some \<lparr> protocol = ''http:'', username = [], password = [], pathname = ''/'', search = [], urlHash = [],
     origin = v \<rparr>"

text \<open>Ports that answer well, with a given answer of the submitter and status of the journal.\<close>

definition demoPorts :: "string + raw_submission option \<Rightarrow> raw_status \<Rightarrow> unit op_ports" where
  "demoPorts answer status = \<lparr>
     sign = \<lambda>a w. (Inr (Some \<lparr> seOrigin = Some ''http://127.0.0.1:9053'', seDigest = Some (demoHex (CHR ''c'')),
                             seArtifact = Some 1 \<rparr>), w),
     check = \<lambda>a w. (Inr (Some \<lparr> aeDigest = Some (demoHex (CHR ''d'')), aeArtifact = Some 2 \<rparr>), w),
     revalidate = \<lambda>a w. (Inr (Some (demoHex (CHR ''e''))), w),
     authorize = \<lambda>a w. (Inr \<lparr> aeDigest = Some (demoHex (CHR ''f'')), aeArtifact = Some 3 \<rparr>, w),
     reserve = \<lambda>a w. (Inr \<lparr> aeDigest = Some (demoHex (CHR ''0'')), aeArtifact = Some 4 \<rparr>, w),
     submit = \<lambda>a w. (answer, w),
     finalize = \<lambda>a w. (Inr \<lparr> feStatus = status, feDigest = Some (demoHex (CHR ''1'')) \<rparr>, w) \<rparr>"

definition demoState :: "unit op_run" where
  "demoState = \<lparr> world = (), calls = [], registered = [] \<rparr>"

lemma demo_hex64: "isLowerHexChar c \<Longrightarrow> isHex64 (demoHex c)"
  by (simp add: demoHex_def isHex64_replicate)

lemma demo_hex_ids:
  "normalizeHex32 (Some (demoHex (CHR ''a''))) l = Inr (demoHex (CHR ''a''))"
  "normalizeHex32 (Some (demoHex (CHR ''b''))) l = Inr (demoHex (CHR ''b''))"
  "normalizeHex32 (Some (demoHex (CHR ''c''))) l = Inr (demoHex (CHR ''c''))"
  "normalizeHex32 (Some (demoHex (CHR ''d''))) l = Inr (demoHex (CHR ''d''))"
  "normalizeHex32 (Some (demoHex (CHR ''e''))) l = Inr (demoHex (CHR ''e''))"
  "normalizeHex32 (Some (demoHex (CHR ''f''))) l = Inr (demoHex (CHR ''f''))"
  "normalizeHex32 (Some (demoHex (CHR ''0''))) l = Inr (demoHex (CHR ''0''))"
  "normalizeHex32 (Some (demoHex (CHR ''1''))) l = Inr (demoHex (CHR ''1''))"
  by (rule hex32Operational_id, rule demo_hex64, simp add: isLowerHexChar_def code_def)+

lemma demoOperational_admitted:
  "\<exists>adm. admitErgoOperationalTransaction id demoInput = Inr adm \<and> expectedTxId adm = demoHex (CHR ''a'')"
proof -
  obtain t where "canonicalJson (bindingJson PEG_IN_COMMITTED_VAULT (demoHex (CHR ''a'')) (demoHex (CHR ''b''))
      [demoHex (CHR ''b'')] 900000 (None, None, None)) = Inr t"
    using binding_ok [of 900000 PEG_IN_COMMITTED_VAULT "demoHex (CHR ''a'')" "demoHex (CHR ''b'')" "[demoHex (CHR ''b'')]"]
    by (auto simp: isOk_iff safe_defs)
  then show ?thesis
    by (simp add: admitErgoOperationalTransaction_def demoInput_def demo_hex_ids normalizeInputBoxIds_def
        normalizeHeight_def safe_defs normalizeOperationContext_def sha256CanonicalJson_def)
qed

definition demoSubmission :: raw_submission where
  "demoSubmission = \<lparr> rwStatus = RawAccepted, rwSubmittedTxId = Some (demoHex (CHR ''a'')),
     rwResponseDigest = Some (demoHex (CHR ''c'')) \<rparr>"

lemma demo_runs:
  "\<exists>t tx d j s'. executeErgoOperationalTransaction id demoUrl (demoPorts (Inr (Some demoSubmission)) RawAccepted) demoInput demoState
     = (Inr (ResultAccepted t tx d j), s') \<and> length (calls s') = 7"
  "\<exists>r s' at. executeErgoOperationalTransaction id demoUrl (demoPorts (Inl ''timeout'') RawAmbiguous) demoInput demoState
     = (r, s') \<and> SubmitCall at \<in> set (calls s')"
proof -
  obtain adm where adm: "admitErgoOperationalTransaction id demoInput = Inr adm" "expectedTxId adm = demoHex (CHR ''a'')"
    using demoOperational_admitted by blast
  show "\<exists>t tx d j s'. executeErgoOperationalTransaction id demoUrl (demoPorts (Inr (Some demoSubmission)) RawAccepted) demoInput demoState
     = (Inr (ResultAccepted t tx d j), s') \<and> length (calls s') = 7"
    by (simp add: executeErgoOperationalTransaction_def adm signStage_def checkStage_def revalidateStage_def
        authorizeStage_def reserveStage_def submitStage_def finalizeStage_def stage_simps callPort_def callSubmit_def
        demoPorts_def demo_hex_ids normalizeNodeOrigin_def demoUrl_def normalizeArtifact_def assert_defs demoState_def
        normalizeSubmission_def demoSubmission_def)
  show "\<exists>r s' at. executeErgoOperationalTransaction id demoUrl (demoPorts (Inl ''timeout'') RawAmbiguous) demoInput demoState
     = (r, s') \<and> SubmitCall at \<in> set (calls s')"
    by (simp add: executeErgoOperationalTransaction_def adm signStage_def checkStage_def revalidateStage_def
        authorizeStage_def reserveStage_def submitStage_def finalizeStage_def stage_simps callPort_def callSubmit_def
        demoPorts_def demo_hex_ids normalizeNodeOrigin_def demoUrl_def normalizeArtifact_def assert_defs demoState_def
        normalizeSubmission_def)
qed


theorem operational_call_order_witness:
  "\<exists>s' adm. pipeline adm (calls (s' :: unit op_run)) \<and> length (calls s') = 7 \<and> length (filter isSubmitCall (calls s')) \<le> 1"
proof -
  obtain t tx d j s' where run: "executeErgoOperationalTransaction id demoUrl (demoPorts (Inr (Some demoSubmission)) RawAccepted)
      demoInput demoState = (Inr (ResultAccepted t tx d j), s')" "length (calls s') = 7" using demo_runs(1) by blast
  from operational_call_order [OF run(1)] run(2) show ?thesis by (auto simp: demoState_def)
qed

theorem operational_outcome_witness:
  "\<exists>t d j (s' :: unit op_run). executeErgoOperationalTransaction id demoUrl (demoPorts (Inr (Some demoSubmission)) RawAccepted)
      demoInput demoState = (Inr (ResultAccepted t (demoHex (CHR ''a'')) d j), s') \<and> t = demoHex (CHR ''a'')"
proof -
  obtain t tx d j s' where run: "executeErgoOperationalTransaction id demoUrl (demoPorts (Inr (Some demoSubmission)) RawAccepted)
      demoInput demoState = (Inr (ResultAccepted t tx d j), s')" using demo_runs(1) by blast
  from operational_outcome [OF run] demoOperational_admitted have "t = demoHex (CHR ''a'')" "tx = demoHex (CHR ''a'')" by auto
  with run show ?thesis by blast
qed

theorem operational_submit_throw_witness:
  "\<exists>at (s' :: unit op_run). last (calls s') = FinalizeCall at (AmbiguousTx None) \<and> SubmitCall at \<in> set (calls s')"
proof -
  obtain r s' at where run: "executeErgoOperationalTransaction id demoUrl (demoPorts (Inl ''timeout'') RawAmbiguous)
      demoInput demoState = (r, s')" "SubmitCall at \<in> set (calls s')" using demo_runs(2) by blast
  have "calls s' = calls demoState @ calls s'" by (simp add: demoState_def)
  from operational_submit_throw [OF run(1) this _ run(2)] run(2) show ?thesis by (auto simp: demoPorts_def)
qed

end
