(* ===== verification/Peg_Out_Backing.thy ===== *)
theory Peg_Out_Backing
  imports Burn_Proof "HOL-Library.Multiset"
begin

text \<open>
  The backing side of peg-outs: the burn-observation cursor
  (\<^verbatim>\<open>relayer-core/peg-out-observation-cursor.ts\<close>), the cross-ledger backing alarm
  (\<^verbatim>\<open>relayer-core/cross-ledger-backing-alarm.ts\<close>) and the complete inventory of burns
  (\<^verbatim>\<open>relayer-core/peg-out-backing-inventory.ts\<close>).

  The sync-state port is a row of two heights that is read and overwritten. The persistence port of the
  inventory is a parameter: it takes the entries and the validation callback, and what the code relies on is
  that the value it returns was produced by that callback. The two provenance \<^verbatim>\<open>WeakSet\<close>s are lists in the
  module state.
\<close>

section \<open>The observation cursor\<close>

datatype backing_error =
    NotNonnegativeSafeInteger string
  | NotNonnegativeLong string
  | NotPositiveLong string
  | NotLowerHex32 string
  | EmptyRecipient
  | EmptyUser
  | UnsupportedStatus
  | SubmittedDisagrees
  | SnapshotUnavailable
  | SnapshotHeightMismatch
  | SnapshotHashUnavailable
  | NotExactHex32 string
  | SnapshotChanged
  | DuplicateBurn string
  | NotProjectable
  | NotFromGenesis
  | BurnIdDerivation burn_error
  | BurnIdMismatchesEvent
  | AboveThePin
  | PinBlockMismatch
  | AmountNotPositive
  | ResultCountMismatch
  | UnknownPersistenceResult
  | NoInventoryProvenance
  | NoSnapshotProvenance
  | NegativeSupply
  | SnapshotPinMismatch
  | PersistenceThrew string

definition assertNonnegativeSafeInteger :: "int \<Rightarrow> string \<Rightarrow> backing_error + unit" where
  "assertNonnegativeSafeInteger value label =
     require (\<not> (\<not> isSafeInteger value \<or> value < 0)) (NotNonnegativeSafeInteger label) (Inr ())"

record sync_state =
  latestErgoHeight :: int
  latestSidechainHeight :: int

record cursor_update =
  ergoHeight :: int
  observedSidechainHeight :: int
  observationComplete :: bool

definition persistPegOutObservationCursor :: "sync_state \<Rightarrow> cursor_update \<Rightarrow> (backing_error + int) \<times> sync_state" where
  "persistPegOutObservationCursor st u =
     (case andThen (assertNonnegativeSafeInteger (ergoHeight u) ''Ergo height'') (\<lambda>_.
           andThen (assertNonnegativeSafeInteger (observedSidechainHeight u) ''observed sidechain height'') (\<lambda>_.
           assertNonnegativeSafeInteger (latestSidechainHeight st) ''persisted sidechain observation cursor'')) of
        Inl e \<Rightarrow> (Inl e, st)
      | Inr _ \<Rightarrow>
          let previous = latestSidechainHeight st;
              nextHeight = (if observationComplete u then max previous (observedSidechainHeight u) else previous)
          in (Inr nextHeight, st \<lparr> latestErgoHeight := ergoHeight u, latestSidechainHeight := nextHeight \<rparr>))"

definition cursorStep :: "sync_state \<Rightarrow> cursor_update \<Rightarrow> sync_state" where
  "cursorStep st u = snd (persistPegOutObservationCursor st u)"

text \<open>An update that is not refused.\<close>

definition updateValid :: "cursor_update \<Rightarrow> bool" where
  "updateValid u \<longleftrightarrow> isNonnegSafe (ergoHeight u) \<and> isNonnegSafe (observedSidechainHeight u)"

lemma cursorStep_eq:
  "isNonnegSafe (latestSidechainHeight st) \<Longrightarrow> cursorStep st u = (if updateValid u
     then st \<lparr> latestErgoHeight := ergoHeight u, latestSidechainHeight :=
       (if observationComplete u then max (latestSidechainHeight st) (observedSidechainHeight u) else latestSidechainHeight st) \<rparr>
     else st)"
  by (auto simp: cursorStep_def persistPegOutObservationCursor_def assertNonnegativeSafeInteger_def require_def
      updateValid_def isNonnegSafe_def Let_def)

definition cursorOk :: "sync_state \<Rightarrow> bool" where
  "cursorOk st \<longleftrightarrow> isNonnegSafe (latestSidechainHeight st)"

interpretation cursor: monotone_system cursorStep cursorOk latestSidechainHeight
proof
  show "cursorOk (cursorStep s u)" if "cursorOk s" for s u
    using that by (auto simp: cursorOk_def cursorStep_eq updateValid_def max_def)
  show "latestSidechainHeight s \<le> latestSidechainHeight (cursorStep s u)" if "cursorOk s" for s u
    using that by (auto simp: cursorOk_def cursorStep_eq)
qed

text \<open>The heights complete observations reached.\<close>

definition completeHeights :: "cursor_update list \<Rightarrow> int list" where
  "completeHeights us = map observedSidechainHeight (filter (\<lambda>u. updateValid u \<and> observationComplete u) us)"

lemma cursor_run:
  "cursorOk st \<Longrightarrow> latestSidechainHeight (foldl cursorStep st us) = foldl max (latestSidechainHeight st) (completeHeights us)"
proof (induction us arbitrary: st)
  case (Cons u us)
  have "cursorOk (cursorStep st u)" using Cons.prems by (rule cursor.step_inv)
  from Cons.IH [OF this] Cons.prems show ?case
    by (simp add: cursorStep_eq completeHeights_def cursorOk_def)
qed (simp add: completeHeights_def)

lemma foldl_max_cases: "foldl max (a :: int) xs \<in> insert a (set xs) \<and> a \<le> foldl max a xs \<and> (\<forall>x \<in> set xs. x \<le> foldl max a xs)"
proof (induction xs arbitrary: a)
  case (Cons x xs)
  from Cons.IH [of "max a x"] show ?case by (auto simp: max_def split: if_splits)
qed simp

text \<open>The cursor never skips a height: after any sequence of updates it has not gone back, and it stands at a
  height it started from or one that a complete observation reached; it is at least every such height.\<close>

theorem cursor_no_skip:
  assumes "isNonnegSafe (latestSidechainHeight st)"
  shows "latestSidechainHeight st \<le> latestSidechainHeight (foldl cursorStep st us)
    \<and> latestSidechainHeight (foldl cursorStep st us) \<in> insert (latestSidechainHeight st) (set (completeHeights us))
    \<and> list_all (\<lambda>h. h \<le> latestSidechainHeight (foldl cursorStep st us)) (completeHeights us)"
  using assms cursor.run_rank [of st us] cursor_run [of st us] foldl_max_cases [of "latestSidechainHeight st" "completeHeights us"]
  by (simp add: cursorOk_def list_all_iff)

definition demoSync :: sync_state where
  "demoSync = \<lparr> latestErgoHeight = 5, latestSidechainHeight = 7 \<rparr>"

theorem cursor_no_skip_witness:
  "7 \<le> latestSidechainHeight (foldl cursorStep demoSync
     [\<lparr> ergoHeight = 6, observedSidechainHeight = 12, observationComplete = False \<rparr>,
      \<lparr> ergoHeight = 6, observedSidechainHeight = 9, observationComplete = True \<rparr>])"
  using cursor_no_skip [of demoSync "[\<lparr> ergoHeight = 6, observedSidechainHeight = 12, observationComplete = False \<rparr>,
      \<lparr> ergoHeight = 6, observedSidechainHeight = 9, observationComplete = True \<rparr>]"]
  by (simp add: demoSync_def safe_defs)


section \<open>The backing alarm\<close>

datatype peg_out_status =
    detected | confirmed | phase1_created | aggregate_submitted | batch_submitted
  | phase2_unlocked | burn_reverted | failed | OtherStatus string

record liability =
  burnIdHex :: string
  sidechainIdHex :: string
  sidechainTransactionHashHex :: string
  sidechainBlockHashHex :: string
  sidechainLogIndex :: int
  sidechainBurnHeight :: int
  amountNanoErg :: int
  ergoRecipientAddress :: string
  inFlightSettlementTransactionIdHex :: "string option"
  phase2UnlockTransactionIdHex :: "string option"
  liabilityStatus :: peg_out_status

record alarm_input =
  totalSupplyNanoErg :: int
  canonicalVaultBackingNanoErg :: int
  outstandingPegOuts :: "liability list"

record alarm_projection =
  prTotalSupply :: int
  prPendingExitLiability :: int
  prRequiredBacking :: int
  prCanonicalVaultBacking :: int
  prDeficit :: int

record snapshot_block =
  number :: int
  hash :: "string option"

definition assertNonnegativeSignedLong :: "int \<Rightarrow> string \<Rightarrow> backing_error + unit" where
  "assertNonnegativeSignedLong value label =
     require (\<not> (value < 0 \<or> value > MAX_SIGNED_LONG)) (NotNonnegativeLong label) (Inr ())"

definition assertPositiveSignedLong :: "int \<Rightarrow> string \<Rightarrow> backing_error + unit" where
  "assertPositiveSignedLong value label =
     require (\<not> (value \<le> 0 \<or> value > MAX_SIGNED_LONG)) (NotPositiveLong label) (Inr ())"

definition assertHex32 :: "string \<Rightarrow> string \<Rightarrow> backing_error + unit" where
  "assertHex32 value label = require (isHex64 value) (NotLowerHex32 label) (Inr ())"

definition assertHex32Option :: "string option \<Rightarrow> string \<Rightarrow> backing_error + unit" where
  "assertHex32Option value label = (case value of None \<Rightarrow> Inr () | Some v \<Rightarrow> assertHex32 v label)"

definition assertOutstandingPegOutLiabilityObservation :: "liability \<Rightarrow> backing_error + unit" where
  "assertOutstandingPegOutLiabilityObservation b =
     andThen (assertHex32 (burnIdHex b) ''peg-out burn ID'') (\<lambda>_.
     andThen (assertHex32 (sidechainIdHex b) ''peg-out sidechain ID'') (\<lambda>_.
     andThen (assertHex32 (sidechainTransactionHashHex b) ''peg-out sidechain transaction hash'') (\<lambda>_.
     andThen (assertHex32 (sidechainBlockHashHex b) ''peg-out sidechain block hash'') (\<lambda>_.
     andThen (assertNonnegativeSafeInteger (sidechainLogIndex b) ''peg-out log index'') (\<lambda>_.
     andThen (assertNonnegativeSafeInteger (sidechainBurnHeight b) ''peg-out burn height'') (\<lambda>_.
     andThen (assertPositiveSignedLong (amountNanoErg b) ''peg-out liability'') (\<lambda>_.
     require (length (ergoRecipientAddress b) \<noteq> 0) EmptyRecipient
     (andThen (assertHex32Option (inFlightSettlementTransactionIdHex b) ''peg-out in-flight settlement transaction ID'') (\<lambda>_.
      andThen (assertHex32Option (phase2UnlockTransactionIdHex b) ''peg-out phase-2 settlement transaction ID'') (\<lambda>_.
      require (case liabilityStatus b of OtherStatus _ \<Rightarrow> False | _ \<Rightarrow> True) UnsupportedStatus
      (let isSubmitted = liabilityStatus b = aggregate_submitted \<or> liabilityStatus b = batch_submitted in
       require (\<not> isSubmitted \<noteq> (inFlightSettlementTransactionIdHex b \<noteq> None)) SubmittedDisagrees (Inr ()))))))))))))"

definition normalizeSidechainBlockHashHex :: "string \<Rightarrow> string \<Rightarrow> backing_error + string" where
  "normalizeSidechainBlockHashHex value label =
     (let lowercase = lowerStr (strip0x value) in require (isHex64 lowercase) (NotExactHex32 label) (Inr lowercase))"

definition assertStableSidechainBackingSnapshot ::
  "int \<Rightarrow> snapshot_block option \<Rightarrow> snapshot_block option \<Rightarrow> backing_error + int \<times> string" where
  "assertStableSidechainBackingSnapshot expectedHeight before after =
     andThen (assertNonnegativeSafeInteger expectedHeight ''expected sidechain snapshot height'') (\<lambda>_.
     case (before, after) of
       (Some b, Some a) \<Rightarrow>
         andThen (assertNonnegativeSafeInteger (number b) ''initial sidechain snapshot height'') (\<lambda>_.
         andThen (assertNonnegativeSafeInteger (number a) ''final sidechain snapshot height'') (\<lambda>_.
         require (\<not> (number b \<noteq> expectedHeight \<or> number a \<noteq> expectedHeight)) SnapshotHeightMismatch
         (case (hash b, hash a) of
            (Some hb, Some ha) \<Rightarrow>
              andThen (normalizeSidechainBlockHashHex hb ''initial sidechain snapshot block hash'') (\<lambda>x.
              andThen (normalizeSidechainBlockHashHex ha ''final sidechain snapshot block hash'') (\<lambda>y.
              require (x = y) SnapshotChanged (Inr (expectedHeight, x))))
          | _ \<Rightarrow> Inl SnapshotHashUnavailable)))
     | _ \<Rightarrow> Inl SnapshotUnavailable)"

fun liabilityLoop :: "string list \<Rightarrow> int \<Rightarrow> liability list \<Rightarrow> backing_error + int" where
  "liabilityLoop seen pending [] = Inr pending"
| "liabilityLoop seen pending (b # rest) =
     andThen (assertOutstandingPegOutLiabilityObservation b) (\<lambda>_.
     require (\<not> List.member seen (burnIdHex b)) (DuplicateBurn (burnIdHex b))
     (require (\<not> (liabilityStatus b \<noteq> detected \<and> liabilityStatus b \<noteq> confirmed)) NotProjectable
     (let pending' = pending + amountNanoErg b in
      andThen (assertNonnegativeSignedLong pending' ''aggregate pending exit liability'') (\<lambda>_.
      liabilityLoop (burnIdHex b # seen) pending' rest))))"

definition projectCrossLedgerBackingAlarm :: "alarm_input \<Rightarrow> backing_error + alarm_projection" where
  "projectCrossLedgerBackingAlarm input =
     andThen (assertNonnegativeSignedLong (totalSupplyNanoErg input) ''sERG total supply'') (\<lambda>_.
     andThen (assertNonnegativeSignedLong (canonicalVaultBackingNanoErg input) ''canonical vault backing'') (\<lambda>_.
     andThen (liabilityLoop [] 0 (outstandingPegOuts input)) (\<lambda>pending.
     let required = totalSupplyNanoErg input + pending in
     andThen (assertNonnegativeSignedLong required ''required cross-ledger backing'') (\<lambda>_.
     Inr \<lparr> prTotalSupply = totalSupplyNanoErg input, prPendingExitLiability = pending, prRequiredBacking = required,
           prCanonicalVaultBacking = canonicalVaultBackingNanoErg input,
           prDeficit = (if required > canonicalVaultBackingNanoErg input
                        then required - canonicalVaultBackingNanoErg input else 0) \<rparr>))))"


lemma assert_iffs [result_simps]:
  "assertHex32 v l = Inr u \<longleftrightarrow> isHex64 v"
  "assertNonnegativeSafeInteger n l = Inr u \<longleftrightarrow> isNonnegSafe n"
  "assertNonnegativeSignedLong n l = Inr u \<longleftrightarrow> 0 \<le> n \<and> n \<le> MAX_SIGNED_LONG"
  "assertPositiveSignedLong n l = Inr u \<longleftrightarrow> 0 < n \<and> n \<le> MAX_SIGNED_LONG"
  by (auto simp: assertHex32_def assertNonnegativeSafeInteger_def assertNonnegativeSignedLong_def
      assertPositiveSignedLong_def isNonnegSafe_def result_simps)

text \<open>What the alarm counts: a well-formed liability that is not yet in settlement.\<close>

definition pendingExit :: "liability \<Rightarrow> bool" where
  "pendingExit b \<longleftrightarrow> assertOutstandingPegOutLiabilityObservation b = Inr ()
     \<and> (liabilityStatus b = detected \<or> liabilityStatus b = confirmed)"

lemma pendingExit_amount: "pendingExit b \<Longrightarrow> 0 < amountNanoErg b"
  by (auto simp: pendingExit_def assertOutstandingPegOutLiabilityObservation_def result_simps)

lemma pending_total_nonneg: "list_all pendingExit bs \<Longrightarrow> 0 \<le> sum_list (map amountNanoErg bs)"
  by (induction bs) (auto dest: pendingExit_amount)

lemma liabilityLoop_Cons:
  "liabilityLoop seen pending (b # bs) = Inr t \<longleftrightarrow> pendingExit b \<and> burnIdHex b \<notin> set seen
     \<and> 0 \<le> pending + amountNanoErg b \<and> pending + amountNanoErg b \<le> MAX_SIGNED_LONG
     \<and> liabilityLoop (burnIdHex b # seen) (pending + amountNanoErg b) bs = Inr t"
  by (auto simp: result_simps pendingExit_def Let_def)

lemma liabilityLoop_iff:
  "0 \<le> pending \<Longrightarrow> pending \<le> MAX_SIGNED_LONG \<Longrightarrow> liabilityLoop seen pending bs = Inr t \<longleftrightarrow>
     list_all pendingExit bs \<and> distinct (map burnIdHex bs) \<and> set (map burnIdHex bs) \<inter> set seen = {}
   \<and> t = pending + sum_list (map amountNanoErg bs) \<and> t \<le> MAX_SIGNED_LONG"
proof (induction bs arbitrary: seen pending)
  case (Cons b bs)
  show ?case
  proof (cases "pendingExit b \<and> pending + amountNanoErg b \<le> MAX_SIGNED_LONG")
    case True
    then have "0 \<le> pending + amountNanoErg b" using Cons.prems pendingExit_amount [of b] by simp
    with Cons.IH [of "pending + amountNanoErg b" "burnIdHex b # seen"] True show ?thesis
      by (auto simp: liabilityLoop_Cons simp del: liabilityLoop.simps)
  next
    case False
    have "\<not> pending + (amountNanoErg b + sum_list (map amountNanoErg bs)) \<le> MAX_SIGNED_LONG"
      if "pendingExit b" "list_all pendingExit bs"
      using that False pending_total_nonneg [of bs] by auto
    with False show ?thesis by (auto simp: liabilityLoop_Cons simp del: liabilityLoop.simps)
  qed
qed auto

lemma project_iff:
  "projectCrossLedgerBackingAlarm input = Inr p \<longleftrightarrow>
     0 \<le> totalSupplyNanoErg input \<and> totalSupplyNanoErg input \<le> MAX_SIGNED_LONG
   \<and> 0 \<le> canonicalVaultBackingNanoErg input \<and> canonicalVaultBackingNanoErg input \<le> MAX_SIGNED_LONG
   \<and> (\<exists>t. liabilityLoop [] 0 (outstandingPegOuts input) = Inr t \<and> 0 \<le> totalSupplyNanoErg input + t
        \<and> totalSupplyNanoErg input + t \<le> MAX_SIGNED_LONG
        \<and> p = \<lparr> prTotalSupply = totalSupplyNanoErg input, prPendingExitLiability = t,
              prRequiredBacking = totalSupplyNanoErg input + t,
              prCanonicalVaultBacking = canonicalVaultBackingNanoErg input,
              prDeficit = max 0 (totalSupplyNanoErg input + t - canonicalVaultBackingNanoErg input) \<rparr>)"
proof -
  have "(if a > b then a - b else 0) = max 0 (a - b)" for a b :: int by (simp add: max_def)
  then show ?thesis unfolding projectCrossLedgerBackingAlarm_def Let_def result_simps by auto
qed

text \<open>C15. The alarm projection, exactly: it is produced if and only if supply and vault are nonnegative Longs, every
  liability is well formed and awaits settlement, no burn is counted twice, and the required backing fits a
  Long; then the pending liability is the sum of the amounts and the deficit is the shortfall of the vault
  against supply plus pending exits, or zero.\<close>

theorem backingAlarm_exact:
  "projectCrossLedgerBackingAlarm input = Inr p \<longleftrightarrow>
     (let pending = sum_list (map amountNanoErg (outstandingPegOuts input)); supply = totalSupplyNanoErg input;
          vault = canonicalVaultBackingNanoErg input in
      0 \<le> supply \<and> 0 \<le> vault \<and> vault \<le> MAX_SIGNED_LONG \<and> supply + pending \<le> MAX_SIGNED_LONG
    \<and> list_all pendingExit (outstandingPegOuts input) \<and> distinct (map burnIdHex (outstandingPegOuts input))
    \<and> p = \<lparr> prTotalSupply = supply, prPendingExitLiability = pending, prRequiredBacking = supply + pending,
            prCanonicalVaultBacking = vault, prDeficit = max 0 (supply + pending - vault) \<rparr>)"
proof -
  have z: "(0 :: int) \<le> 0" "0 \<le> MAX_SIGNED_LONG" by (simp_all add: MAX_SIGNED_LONG_def)
  show ?thesis
    unfolding project_iff liabilityLoop_iff [OF z] Let_def
    using pending_total_nonneg [of "outstandingPegOuts input"] by auto
qed


section \<open>The complete inventory\<close>

record inventory_entry =
  eBurnIdHex :: string
  eSidechainIdHex :: string
  eTransactionHashHex :: string
  eBlockHashHex :: string
  eLogIndex :: int
  eBurnHeight :: int
  eAmountNanoErg :: int
  eRecipient :: string
  eUser :: string

record inventory_result =
  irPinnedHeight :: int
  irPinnedBlockHashHex :: string
  irEntries :: "inventory_entry list"
  irObservedCount :: int
  irInsertedBurnIds :: "string list"

record backing_snapshot =
  bsPinnedHeight :: int
  bsPinnedBlockHashHex :: string
  bsTotalSupply :: int
  bsInventory :: inventory_result

record inventory_input =
  iiEntries :: "inventory_entry list"
  iiScanFromHeight :: int
  iiPinnedHeight :: int
  iiPinnedBlockHashHex :: string

record inventory_module =
  COMPLETE_INVENTORIES :: "inventory_result list"
  COMPLETE_BACKING_SNAPSHOTS :: "backing_snapshot list"

definition assertInventoryEntry ::
  "(bytes \<Rightarrow> bytes) \<Rightarrow> inventory_entry \<Rightarrow> int \<Rightarrow> string \<Rightarrow> backing_error + unit" where
  "assertInventoryEntry H e pinnedHeight pinnedBlockHashHex =
     andThen (assertHex32 (eBurnIdHex e) ''complete inventory burn ID'') (\<lambda>_.
     andThen (assertHex32 (eSidechainIdHex e) ''complete inventory sidechain ID'') (\<lambda>_.
     andThen (assertHex32 (eTransactionHashHex e) ''complete inventory sidechain transaction hash'') (\<lambda>_.
     andThen (assertHex32 (eBlockHashHex e) ''complete inventory block hash'') (\<lambda>_.
     andThen (assertNonnegativeSafeInteger (eLogIndex e) ''complete inventory log index'') (\<lambda>_.
     andThen (assertNonnegativeSafeInteger (eBurnHeight e) ''complete inventory burn height'') (\<lambda>_.
     case deriveTrustlessBurnIdHex H (eSidechainIdHex e) (eTransactionHashHex e) (SNum (eLogIndex e)) of
       Inl err \<Rightarrow> Inl (BurnIdDerivation err)
     | Inr derived \<Rightarrow>
         require (eBurnIdHex e = derived) BurnIdMismatchesEvent
         (require (\<not> eBurnHeight e > pinnedHeight) AboveThePin
         (require (\<not> (eBurnHeight e = pinnedHeight \<and> eBlockHashHex e \<noteq> pinnedBlockHashHex)) PinBlockMismatch
         (require (\<not> eAmountNanoErg e \<le> 0) AmountNotPositive
         (require (length (eRecipient e) \<noteq> 0) EmptyRecipient
         (require (length (eUser e) \<noteq> 0) EmptyUser (Inr ())))))))))))) "

fun inventoryLoop :: "(bytes \<Rightarrow> bytes) \<Rightarrow> int \<Rightarrow> string \<Rightarrow> string list \<Rightarrow> inventory_entry list
    \<Rightarrow> backing_error + inventory_entry list" where
  "inventoryLoop H pin block seen [] = Inr []"
| "inventoryLoop H pin block seen (e # rest) =
     andThen (assertInventoryEntry H e pin block) (\<lambda>_.
     require (\<not> List.member seen (eBurnIdHex e)) (DuplicateBurn (eBurnIdHex e))
     (andThen (inventoryLoop H pin block (eBurnIdHex e # seen) rest) (\<lambda>es. Inr (e # es))))"

text \<open>The callback given to the persistence port.\<close>

fun insertedOf :: "inventory_entry list \<Rightarrow> string list \<Rightarrow> backing_error + string list" where
  "insertedOf (e # es) (result # results) =
     require (\<not> (result \<noteq> ''inserted'' \<and> result \<noteq> ''revalidated'')) UnknownPersistenceResult
     (andThen (insertedOf es results) (\<lambda>ids. Inr (if result = ''inserted'' then eBurnIdHex e # ids else ids)))"
| "insertedOf _ _ = Inr []"

definition validatePersistence :: "inventory_entry list \<Rightarrow> string list \<Rightarrow> backing_error + string list" where
  "validatePersistence entries results =
     require (length results = length entries) ResultCountMismatch (insertedOf entries results)"

type_synonym 'w persistence =
  "inventory_entry list \<Rightarrow> (string list \<Rightarrow> backing_error + string list) \<Rightarrow> 'w \<Rightarrow> (backing_error + string list) \<times> 'w"

definition reconcileCompletePegOutBackingInventory ::
  "(bytes \<Rightarrow> bytes) \<Rightarrow> 'w persistence \<Rightarrow> inventory_input \<Rightarrow> inventory_module \<times> 'w
   \<Rightarrow> (backing_error + inventory_result) \<times> (inventory_module \<times> 'w)" where
  "reconcileCompletePegOutBackingInventory H persist input = (\<lambda>(m, w).
     case require (iiScanFromHeight input = 0) NotFromGenesis
          (andThen (assertNonnegativeSafeInteger (iiPinnedHeight input) ''complete inventory pinned height'') (\<lambda>_.
           andThen (assertHex32 (iiPinnedBlockHashHex input) ''complete inventory pinned block hash'') (\<lambda>_.
           inventoryLoop H (iiPinnedHeight input) (iiPinnedBlockHashHex input) [] (iiEntries input)))) of
       Inl e \<Rightarrow> (Inl e, (m, w))
     | Inr entries \<Rightarrow> (case persist entries (validatePersistence entries) w of
           (Inl e, w') \<Rightarrow> (Inl e, (m, w'))
         | (Inr ids, w') \<Rightarrow>
             let result = \<lparr> irPinnedHeight = iiPinnedHeight input, irPinnedBlockHashHex = iiPinnedBlockHashHex input,
                   irEntries = entries, irObservedCount = int (length entries), irInsertedBurnIds = ids \<rparr>
             in (Inr result, (m \<lparr> COMPLETE_INVENTORIES := result # COMPLETE_INVENTORIES m \<rparr>, w'))))"

definition assertCompletePegOutBackingInventoryProvenance :: "inventory_module \<Rightarrow> inventory_result \<Rightarrow> backing_error + unit" where
  "assertCompletePegOutBackingInventoryProvenance m v =
     require (List.member (COMPLETE_INVENTORIES m) v) NoInventoryProvenance (Inr ())"

definition createCompleteSidechainBackingSnapshot ::
  "inventory_result \<Rightarrow> int \<Rightarrow> inventory_module \<Rightarrow> (backing_error + backing_snapshot) \<times> inventory_module" where
  "createCompleteSidechainBackingSnapshot inventory supply m =
     (case andThen (assertCompletePegOutBackingInventoryProvenance m inventory) (\<lambda>_.
           require (\<not> supply < 0) NegativeSupply (Inr ())) of
        Inl e \<Rightarrow> (Inl e, m)
      | Inr _ \<Rightarrow>
          let snapshot = \<lparr> bsPinnedHeight = irPinnedHeight inventory, bsPinnedBlockHashHex = irPinnedBlockHashHex inventory,
                bsTotalSupply = supply, bsInventory = inventory \<rparr>
          in (Inr snapshot, m \<lparr> COMPLETE_BACKING_SNAPSHOTS := snapshot # COMPLETE_BACKING_SNAPSHOTS m \<rparr>))"

definition assertCompleteSidechainBackingSnapshotProvenance :: "inventory_module \<Rightarrow> backing_snapshot \<Rightarrow> backing_error + unit" where
  "assertCompleteSidechainBackingSnapshotProvenance m v =
     require (List.member (COMPLETE_BACKING_SNAPSHOTS m) v) NoSnapshotProvenance
     (andThen (assertCompletePegOutBackingInventoryProvenance m (bsInventory v)) (\<lambda>_.
      require (\<not> (bsPinnedHeight v \<noteq> irPinnedHeight (bsInventory v)
                \<or> bsPinnedBlockHashHex v \<noteq> irPinnedBlockHashHex (bsInventory v))) SnapshotPinMismatch (Inr ())))"


text \<open>What an entry satisfies when it is admitted.\<close>

definition entryOk :: "(bytes \<Rightarrow> bytes) \<Rightarrow> int \<Rightarrow> string \<Rightarrow> inventory_entry \<Rightarrow> bool" where
  "entryOk H pin block e \<longleftrightarrow>
     deriveTrustlessBurnIdHex H (eSidechainIdHex e) (eTransactionHashHex e) (SNum (eLogIndex e)) = Inr (eBurnIdHex e)
   \<and> eBurnHeight e \<le> pin \<and> (eBurnHeight e = pin \<longrightarrow> eBlockHashHex e = block) \<and> 0 < eAmountNanoErg e"

lemma assertInventoryEntry_ok: "assertInventoryEntry H e pin block = Inr u \<Longrightarrow> entryOk H pin block e"
  by (auto simp: assertInventoryEntry_def entryOk_def result_simps split: sum.splits)

lemma inventoryLoop_ok:
  "inventoryLoop H pin block seen es = Inr fs \<Longrightarrow>
     fs = es \<and> list_all (entryOk H pin block) es \<and> distinct (map eBurnIdHex es) \<and> set (map eBurnIdHex es) \<inter> set seen = {}"
proof (induction es arbitrary: seen fs)
  case (Cons e es)
  from Cons.prems obtain gs where "assertInventoryEntry H e pin block = Inr ()" "eBurnIdHex e \<notin> set seen"
    and l: "inventoryLoop H pin block (eBurnIdHex e # seen) es = Inr gs" and "fs = e # gs"
    by (auto simp: result_simps)
  with Cons.IH [OF l] show ?case by (auto dest: assertInventoryEntry_ok)
qed simp

lemma insertedOf_subset: "insertedOf es rs = Inr ids \<Longrightarrow> set ids \<subseteq> eBurnIdHex ` set es"
  by (induction es rs arbitrary: ids rule: insertedOf.induct) (auto simp: result_simps split: if_splits)

lemma reconcile_cases:
  assumes "reconcileCompletePegOutBackingInventory H persist input (m, w) = (r, (m', w'))"
  shows "(\<exists>e. r = Inl e) \<and> m' = m
    \<or> (\<exists>ids. r = Inr \<lparr> irPinnedHeight = iiPinnedHeight input, irPinnedBlockHashHex = iiPinnedBlockHashHex input,
           irEntries = iiEntries input, irObservedCount = int (length (iiEntries input)), irInsertedBurnIds = ids \<rparr>
        \<and> m' = m \<lparr> COMPLETE_INVENTORIES := \<lparr> irPinnedHeight = iiPinnedHeight input,
           irPinnedBlockHashHex = iiPinnedBlockHashHex input, irEntries = iiEntries input,
           irObservedCount = int (length (iiEntries input)), irInsertedBurnIds = ids \<rparr> # COMPLETE_INVENTORIES m \<rparr>
        \<and> inventoryLoop H (iiPinnedHeight input) (iiPinnedBlockHashHex input) [] (iiEntries input) = Inr (iiEntries input)
        \<and> iiScanFromHeight input = 0
        \<and> persist (iiEntries input) (validatePersistence (iiEntries input)) w = (Inr ids, w'))"
  using assms unfolding reconcileCompletePegOutBackingInventory_def
  by (auto simp: Let_def result_simps split: sum.splits prod.splits dest: inventoryLoop_ok)

text \<open>C33. An accepted inventory is complete and names every burn once: it starts at height 0 and holds exactly the
  entries given, each with the burn id its sidechain event derives, none above the pin and those at the pin in
  the pinned block, no burn id twice and hence no event twice; and where the persistence port returns a value
  its callback produced, the burns reported as inserted are burns of the inventory.\<close>

theorem inventory_complete:
  assumes "reconcileCompletePegOutBackingInventory H persist input (m, w) = (Inr result, (m', w'))"
    and port: "\<And>es v w ids w'. persist es v w = (Inr ids, w') \<Longrightarrow> \<exists>rs. v rs = Inr ids"
  shows "iiScanFromHeight input = 0 \<and> irEntries result = iiEntries input
    \<and> irObservedCount result = int (length (iiEntries input))
    \<and> list_all (entryOk H (irPinnedHeight result) (irPinnedBlockHashHex result)) (irEntries result)
    \<and> distinct (map eBurnIdHex (irEntries result))
    \<and> distinct (map (\<lambda>e. (eSidechainIdHex e, eTransactionHashHex e, eLogIndex e)) (irEntries result))
    \<and> set (irInsertedBurnIds result) \<subseteq> eBurnIdHex ` set (irEntries result)"
proof -
  from reconcile_cases [OF assms(1)] obtain ids where
    r: "result = \<lparr> irPinnedHeight = iiPinnedHeight input, irPinnedBlockHashHex = iiPinnedBlockHashHex input,
           irEntries = iiEntries input, irObservedCount = int (length (iiEntries input)), irInsertedBurnIds = ids \<rparr>"
    and l: "inventoryLoop H (iiPinnedHeight input) (iiPinnedBlockHashHex input) [] (iiEntries input) = Inr (iiEntries input)"
    and z: "iiScanFromHeight input = 0"
    and p: "persist (iiEntries input) (validatePersistence (iiEntries input)) w = (Inr ids, w')" by auto
  note ok = inventoryLoop_ok [OF l]
  have ev: "distinct (map (\<lambda>e. (eSidechainIdHex e, eTransactionHashHex e, eLogIndex e)) es)"
    if "list_all (entryOk H a b) es" "distinct (map eBurnIdHex es)" for es a b
    using that by (auto simp: distinct_map inj_on_def entryOk_def list_all_iff) (metis sum.inject(2))
  obtain rs where "validatePersistence (iiEntries input) rs = Inr ids" using port [OF p] by blast
  then have "set ids \<subseteq> eBurnIdHex ` set (iiEntries input)"
    by (auto simp: validatePersistence_def result_simps dest: insertedOf_subset)
  with ok ev z show ?thesis by (auto simp: r)
qed

datatype inventory_op = Reconcile inventory_input | CreateSnapshot inventory_result int

fun inventoryStep ::
  "(bytes \<Rightarrow> bytes) \<Rightarrow> 'w persistence \<Rightarrow> inventory_module \<times> 'w \<Rightarrow> inventory_op \<Rightarrow> inventory_module \<times> 'w" where
  "inventoryStep H persist (m, w) (Reconcile input) = snd (reconcileCompletePegOutBackingInventory H persist input (m, w))"
| "inventoryStep H persist (m, w) (CreateSnapshot inventory supply) = (snd (createCompleteSidechainBackingSnapshot inventory supply m), w)"

definition moduleOk :: "(bytes \<Rightarrow> bytes) \<Rightarrow> inventory_module \<times> 'w \<Rightarrow> bool" where
  "moduleOk H mw \<longleftrightarrow>
     list_all (\<lambda>i. list_all (entryOk H (irPinnedHeight i) (irPinnedBlockHashHex i)) (irEntries i)
         \<and> distinct (map eBurnIdHex (irEntries i))) (COMPLETE_INVENTORIES (fst mw))
   \<and> list_all (\<lambda>s. assertCompleteSidechainBackingSnapshotProvenance (fst mw) s = Inr () \<and> 0 \<le> bsTotalSupply s)
       (COMPLETE_BACKING_SNAPSHOTS (fst mw))"

lemma moduleOk_step:
  assumes "moduleOk H mw"
  shows "moduleOk H (inventoryStep H persist mw op)"
proof -
  obtain m w where mw: "mw = (m, w)" by (cases mw)
  show ?thesis
  proof (cases op)
    case (Reconcile input)
    obtain r m' w' where run: "reconcileCompletePegOutBackingInventory H persist input (m, w) = (r, (m', w'))"
      by (metis prod.exhaust)
    from reconcile_cases [OF run] assms show ?thesis
      by (auto simp: Reconcile run mw moduleOk_def assertCompleteSidechainBackingSnapshotProvenance_def
          assertCompletePegOutBackingInventoryProvenance_def list_all_iff require_def split: if_splits dest!: inventoryLoop_ok)
  next
    case (CreateSnapshot inventory amount)
    show ?thesis using assms
      by (auto simp: CreateSnapshot mw moduleOk_def createCompleteSidechainBackingSnapshot_def Let_def
          assertCompleteSidechainBackingSnapshotProvenance_def assertCompletePegOutBackingInventoryProvenance_def
          list_all_iff require_def split: if_splits)
  qed
qed

interpretation inventories: invariant_system "inventoryStep H persist" "moduleOk H" for H persist
  by unfold_locales (rule moduleOk_step)

text \<open>The inventory module's invariant: after any sequence of reconciliations and snapshot creations, whatever the
  persistence port does, every retained inventory has derived, distinct burn ids below its pin, and every
  retained snapshot still passes its provenance check (its pin is that of a retained inventory) with a
  nonnegative supply.\<close>

theorem inventory_module_invariant:
  "moduleOk H (foldl (inventoryStep H persist) (\<lparr> COMPLETE_INVENTORIES = [], COMPLETE_BACKING_SNAPSHOTS = [] \<rparr>, w) ops)"
  by (rule inventories.run_inv) (simp add: moduleOk_def)


section \<open>A concrete inventory\<close>

definition demoEntry :: inventory_entry where
  "demoEntry = \<lparr> eBurnIdHex = toHex (demoHash (BURN_ID_DOMAIN @ replicate 32 1 @ replicate 32 2 @ uint32Be 0)),
     eSidechainIdHex = toHex (replicate 32 1), eTransactionHashHex = toHex (replicate 32 2),
     eBlockHashHex = toHex (replicate 32 3), eLogIndex = 0, eBurnHeight = 10, eAmountNanoErg = 1000000,
     eRecipient = ''9f'', eUser = ''0x01'' \<rparr>"

definition demoInventoryInput :: inventory_input where
  "demoInventoryInput = \<lparr> iiEntries = [demoEntry], iiScanFromHeight = 0, iiPinnedHeight = 12,
     iiPinnedBlockHashHex = toHex (replicate 32 4) \<rparr>"

definition demoPersist :: "unit persistence" where
  "demoPersist es v w = (v (map (\<lambda>_. ''inserted'') es), w)"

lemma demoEntry_ok: "assertInventoryEntry demoHash demoEntry 12 (toHex (replicate 32 4)) = Inr ()"
proof -
  have "deriveTrustlessBurnIdHex demoHash (toHex (replicate 32 1)) (toHex (replicate 32 2)) (SNum 0)
      = Inr (toHex (demoHash (BURN_ID_DOMAIN @ replicate 32 1 @ replicate 32 2 @ uint32Be 0)))"
    by (subst deriveBurnId_canonical) (simp_all add: hexOf_def)
  then show ?thesis
    by (simp add: assertInventoryEntry_def assertHex32_def assertNonnegativeSafeInteger_def safe_defs demoEntry_def
        isHex64_toHex)
qed

lemma demo_reconciled:
  "\<exists>result m'. reconcileCompletePegOutBackingInventory demoHash demoPersist demoInventoryInput
     (\<lparr> COMPLETE_INVENTORIES = [], COMPLETE_BACKING_SNAPSHOTS = [] \<rparr>, ()) = (Inr result, (m', ()))"
  by (simp add: reconcileCompletePegOutBackingInventory_def demoInventoryInput_def demoEntry_ok assertHex32_def
      isHex64_toHex assertNonnegativeSafeInteger_def safe_defs demoPersist_def validatePersistence_def Let_def)

theorem inventory_complete_witness:
  "\<exists>result m'. reconcileCompletePegOutBackingInventory demoHash demoPersist demoInventoryInput
     (\<lparr> COMPLETE_INVENTORIES = [], COMPLETE_BACKING_SNAPSHOTS = [] \<rparr>, ()) = (Inr result, (m', ()))
     \<and> irEntries result = [demoEntry]"
proof -
  obtain result m' where run: "reconcileCompletePegOutBackingInventory demoHash demoPersist demoInventoryInput
     (\<lparr> COMPLETE_INVENTORIES = [], COMPLETE_BACKING_SNAPSHOTS = [] \<rparr>, ()) = (Inr result, (m', ()))"
    using demo_reconciled by blast
  have "\<exists>rs. v rs = Inr ids" if "demoPersist es v w = (Inr ids, w')" for es v w ids w'
    using that by (auto simp: demoPersist_def)
  from inventory_complete [OF run this] run show ?thesis by (auto simp: demoInventoryInput_def)
qed

end
