(* ===== verification/Port_Run.thy ===== *)
theory Port_Run
  imports Bridge_Prelude
begin

text \<open>
  Runs of handlers that drive ports (a journal, a chain observer, a signer). A port is a function on a world the
  model knows nothing about, which returns or throws and leaves a world; a run keeps the current world and the
  calls made so far, each with the answer it got. A handler's own mutable state extends the record.
\<close>

section \<open>Calling a port\<close>

record ('w, 'c) port_run =
  world :: 'w
  calls :: "'c list"

type_synonym ('w, 'a) port = "'w \<Rightarrow> (string + 'a) \<times> 'w"

definition portAction :: "(string \<Rightarrow> 'e) \<Rightarrow> (string + 'a \<Rightarrow> 'c) \<Rightarrow> ('w, 'a) port
    \<Rightarrow> (('w, 'c, 'z) port_run_scheme, 'e, 'a) action" where
  "portAction threw event port = (\<lambda>s. case port (world s) of (answer, w) \<Rightarrow>
     (case answer of Inl e \<Rightarrow> Inl (threw e) | Inr x \<Rightarrow> Inr x,
      s \<lparr> world := w, calls := calls s @ [event answer] \<rparr>))"

text \<open>\<^verbatim>\<open>try { ... } catch { ... }\<close>: the handler of the error sees the state the body left.\<close>

definition tryA :: "('s, 'e, 'a) action \<Rightarrow> ('e \<Rightarrow> ('s, 'e, 'a) action) \<Rightarrow> ('s, 'e, 'a) action" where
  "tryA m h = (\<lambda>s. case m s of (Inl e, s') \<Rightarrow> h e s' | (Inr x, s') \<Rightarrow> (Inr x, s'))"

definition modifyA :: "('s \<Rightarrow> 's) \<Rightarrow> ('s, 'e, unit) action" where
  "modifyA f = (\<lambda>s. (Inr (), f s))"


section \<open>Inversion\<close>

lemma portAction_cases:
  assumes "portAction threw event port s = (r, s')"
  obtains (answer) x w where "r = Inr x" and "s' = s \<lparr> world := w, calls := calls s @ [event (Inr x)] \<rparr>"
  | (threw) e w where "r = Inl (threw e)" and "s' = s \<lparr> world := w, calls := calls s @ [event (Inl e)] \<rparr>"
  using assms by (auto simp: portAction_def split: prod.splits sum.splits)

lemma portAction_effect: "portAction threw event port s = (r, s') \<Longrightarrow> \<exists>a. calls s' = calls s @ [event a]"
  by (auto simp: portAction_def split: prod.splits)

lemma bindA_cases:
  assumes "bindA m f s = (r, s'')"
  obtains (throw) e where "m s = (Inl e, s'')" and "r = Inl e"
  | (step) x s' where "m s = (Inr x, s')" and "f x s' = (r, s'')"
  using assms by (auto simp: bindA_def split: prod.splits sum.splits)

lemma modifyA_iff [result_simps]: "modifyA f s = (r, s') \<longleftrightarrow> r = Inr () \<and> s' = f s"
  by (auto simp: modifyA_def)

lemmas action_defs = bindA_def returnA_def throwA_def liftA_def tryA_def modifyA_def portAction_def


section \<open>Invariants of the world\<close>

definition keeps :: "('w \<Rightarrow> bool) \<Rightarrow> (('w, 'c, 'z) port_run_scheme, 'e, 'a) action \<Rightarrow> bool" where
  "keeps I m \<longleftrightarrow> (\<forall>s. I (world s) \<longrightarrow> I (world (snd (m s))))"

named_theorems keeps_intros \<open>actions that keep an invariant of the world\<close>

lemma keeps_liftA [keeps_intros]: "keeps I (liftA r)" and keeps_returnA [keeps_intros]: "keeps I (returnA x)"
  by (simp_all add: keeps_def liftA_def returnA_def)

lemma keeps_bindA [keeps_intros]: "keeps I m \<Longrightarrow> (\<And>x. keeps I (f x)) \<Longrightarrow> keeps I (bindA m f)"
  unfolding keeps_def bindA_def by (auto split: prod.splits sum.splits)

lemma keeps_tryA [keeps_intros]: "keeps I m \<Longrightarrow> (\<And>e. keeps I (h e)) \<Longrightarrow> keeps I (tryA m h)"
  unfolding keeps_def tryA_def by (auto split: prod.splits sum.splits)

lemma keeps_portAction: "(\<And>w. I w \<Longrightarrow> I (snd (port w))) \<Longrightarrow> keeps I (portAction threw event port)"
  unfolding keeps_def portAction_def by (auto split: prod.splits) (metis snd_conv)

end
