(* ===== verification/Settlement_Recovery.thy ===== *)
theory Settlement_Recovery
  imports Port_Run
begin

text \<open>
  Recovery of aggregate settlements after a restart or a reorganisation
  (\<^verbatim>\<open>relayer-core/aggregate-settlement-recovery.ts\<close>).

  The observation port and the journal are functions on a world the model knows nothing about; each may
  throw. A run keeps that world and the calls made, with the answers of the observation port. An observation
  and a consensus are opaque but for the observed status. The log callback has no influence on the run and is
  left out.
\<close>

section \<open>Definitions\<close>

datatype observed_status = absent | mempool | confirmed_pre_finality | confirmed_final

datatype attempt_status = pending | submitted | confirmed | abandoned

datatype recovery_mode = single | single_with_ingest | batch

datatype binding_status = legacy_unbound | policy_v1

record attempt_view =
  avMode :: recovery_mode
  avStatus :: attempt_status
  avExpectedTxId :: string
  avSubmittedTxId :: "string option"
  avBurnTxHashes :: "string list"
  avLifecycleVersion :: int
  avBindingStatus :: binding_status
  avPolicyVersion :: "int option"
  avRequiredConfirmations :: "int option"
  avErgoObservation :: "observed_status option"
  avQuarantined :: bool

record observation =
  obStatus :: observed_status
  obEvidence :: nat

record mutation =
  muApplied :: bool
  muRestoredBurns :: int
  muSkippedBurns :: int
  muMissingPegOuts :: int
  muRolledBackBurns :: int
  muRolledBackPreFinality :: bool

record recovery_result =
  restoredBurns :: int
  deferredAttempts :: int
  missingPegOuts :: int
  skippedBurns :: int
  rolledBackAttempts :: int
  rolledBackBurns :: int
  quarantinedConfirmedAttempts :: int

datatype recovery_error = NotTxId | SubmittedNotExpected | PortThrew string

text \<open>The calls of a run: the two listings and the observations with their answers, a mutation of a recoverable attempt, a
  quarantine.\<close>

datatype recovery_call =
    ListRecoverable "string + attempt_view list"
  | Observe string int "observation \<times> nat option"
  | ObserveThrew string int
  | Apply attempt_view observation "nat option"
  | ListConfirmed "string + attempt_view list"
  | Quarantine attempt_view observation nat

record 'w recovery_ports =
  observe :: "string \<Rightarrow> int \<Rightarrow> 'w \<Rightarrow> (string + observation \<times> nat option) \<times> 'w"
  listRecoverableAttempts :: "'w \<Rightarrow> (string + attempt_view list) \<times> 'w"
  applyRecoverableObservation :: "attempt_view \<Rightarrow> observation \<Rightarrow> nat option \<Rightarrow> 'w \<Rightarrow> (string + mutation) \<times> 'w"
  listConfirmedAttempts :: "'w \<Rightarrow> (string + attempt_view list) \<times> 'w"
  quarantineConfirmedAbsence :: "attempt_view \<Rightarrow> observation \<Rightarrow> nat \<Rightarrow> 'w \<Rightarrow> (string + bool) \<times> 'w"

type_synonym ('w, 'a) recovery = "(('w, recovery_call) port_run, recovery_error, 'a) action"

definition getAggregateSettlementRecoveryPolicy :: "attempt_view \<Rightarrow> int option" where
  "getAggregateSettlementRecoveryPolicy a =
     (if avBindingStatus a \<noteq> policy_v1 \<or> avPolicyVersion a \<noteq> Some 1 then None else avRequiredConfirmations a)"

definition normalizeAggregateSettlementRecoveryTxId :: "string \<Rightarrow> recovery_error + string" where
  "normalizeAggregateSettlementRecoveryTxId txId =
     (let clean = strip0x txId in
      require (length clean = 64 \<and> list_all isHexChar clean) NotTxId (Inr (lowerStr clean)))"

definition portCall :: "recovery_call \<Rightarrow> ('w \<Rightarrow> (string + 'a) \<times> 'w) \<Rightarrow> ('w, 'a) recovery" where
  "portCall c port = portAction PortThrew (\<lambda>_. c) port"

definition observeCall :: "'w recovery_ports \<Rightarrow> string \<Rightarrow> int \<Rightarrow> ('w, observation \<times> nat option) recovery" where
  "observeCall ports tx policy = portAction PortThrew
     (\<lambda>answer. case answer of Inl _ \<Rightarrow> ObserveThrew tx policy | Inr a \<Rightarrow> Observe tx policy a) (observe ports tx policy)"

text \<open>The id a recoverable attempt is observed under, after its two ids were compared.\<close>

definition recoverableTxId :: "attempt_view \<Rightarrow> recovery_error + string" where
  "recoverableTxId a =
     andThen (normalizeAggregateSettlementRecoveryTxId (avExpectedTxId a)) (\<lambda>expected.
     case avSubmittedTxId a of
       None \<Rightarrow> Inr expected
     | Some t \<Rightarrow> andThen (normalizeAggregateSettlementRecoveryTxId t) (\<lambda>sub.
         require (\<not> sub \<noteq> expected) SubmittedNotExpected (Inr sub)))"

text \<open>The read phase: it returns the number of deferred attempts and the observations.\<close>

fun readPhase :: "'w recovery_ports \<Rightarrow> attempt_view list
    \<Rightarrow> ('w, int \<times> (attempt_view \<times> observation \<times> nat option) list) recovery" where
  "readPhase ports [] = returnA (0, [])"
| "readPhase ports (a # rest) = (case getAggregateSettlementRecoveryPolicy a of
       None \<Rightarrow> bindA (readPhase ports rest) (\<lambda>(n, os). returnA (n + 1, os))
     | Some policy \<Rightarrow>
         bindA (liftA (recoverableTxId a)) (\<lambda>tx.
         bindA (observeCall ports tx policy) (\<lambda>(ob, consensus).
         bindA (readPhase ports rest) (\<lambda>(n, os). returnA (n, (a, ob, consensus) # os)))))"

definition addMutation :: "recovery_result \<Rightarrow> mutation \<Rightarrow> recovery_result" where
  "addMutation r m = r \<lparr> missingPegOuts := missingPegOuts r + muMissingPegOuts m,
     skippedBurns := skippedBurns r + muSkippedBurns m, restoredBurns := restoredBurns r + muRestoredBurns m,
     rolledBackBurns := rolledBackBurns r + muRolledBackBurns m,
     rolledBackAttempts := rolledBackAttempts r + (if muRolledBackPreFinality m then 1 else 0) \<rparr>"

definition defer' :: "recovery_result \<Rightarrow> recovery_result" where
  "defer' r = r \<lparr> deferredAttempts := deferredAttempts r + 1 \<rparr>"

text \<open>A disappearance after an observed inclusion needs a second source.\<close>

definition needsWitness :: "attempt_view \<Rightarrow> observation \<Rightarrow> nat option \<Rightarrow> bool" where
  "needsWitness a ob consensus \<longleftrightarrow>
     obStatus ob = absent \<and> avErgoObservation a = Some confirmed_pre_finality \<and> consensus = None"

fun writePhase :: "'w recovery_ports \<Rightarrow> recovery_result \<Rightarrow> (attempt_view \<times> observation \<times> nat option) list
    \<Rightarrow> ('w, recovery_result) recovery" where
  "writePhase ports r [] = returnA r"
| "writePhase ports r ((a, ob, consensus) # rest) =
     (if needsWitness a ob consensus then writePhase ports (defer' r) rest
      else bindA (portCall (Apply a ob consensus) (applyRecoverableObservation ports a ob consensus)) (\<lambda>m.
           let r1 = addMutation r m in
           writePhase ports (if \<not> muApplied m \<or> obStatus ob = absent then defer' r1 else r1) rest))"

text \<open>The body of the loop over the confirmed attempts; \<^verbatim>\<open>continue\<close> returns the counters.\<close>

definition confirmedAttempt :: "'w recovery_ports \<Rightarrow> recovery_result \<Rightarrow> attempt_view \<Rightarrow> ('w, recovery_result) recovery" where
  "confirmedAttempt ports r a =
     (if avQuarantined a then returnA r
      else (case getAggregateSettlementRecoveryPolicy a of
          None \<Rightarrow> returnA (defer' r)
        | Some policy \<Rightarrow>
            bindA (liftA (normalizeAggregateSettlementRecoveryTxId
                     (case avSubmittedTxId a of None \<Rightarrow> avExpectedTxId a | Some t \<Rightarrow> t))) (\<lambda>tx.
            bindA (observeCall ports tx policy) (\<lambda>(ob, consensus).
            if obStatus ob \<noteq> absent then returnA r
            else (case consensus of
                None \<Rightarrow> returnA (defer' r)
              | Some c \<Rightarrow>
                  bindA (portCall (Quarantine a ob c) (quarantineConfirmedAbsence ports a ob c)) (\<lambda>quarantined.
                  returnA (if quarantined
                    then r \<lparr> quarantinedConfirmedAttempts := quarantinedConfirmedAttempts r + 1 \<rparr> else defer' r)))))))"

fun confirmedPhase :: "'w recovery_ports \<Rightarrow> recovery_result \<Rightarrow> attempt_view list \<Rightarrow> ('w, recovery_result) recovery" where
  "confirmedPhase ports r [] = returnA r"
| "confirmedPhase ports r (a # rest) = bindA (confirmedAttempt ports r a) (\<lambda>r1. confirmedPhase ports r1 rest)"

definition emptyResult :: recovery_result where
  "emptyResult = \<lparr> restoredBurns = 0, deferredAttempts = 0, missingPegOuts = 0, skippedBurns = 0,
     rolledBackAttempts = 0, rolledBackBurns = 0, quarantinedConfirmedAttempts = 0 \<rparr>"

definition recoverAggregateSettlementLifecycle :: "'w recovery_ports \<Rightarrow> ('w, recovery_result) recovery" where
  "recoverAggregateSettlementLifecycle ports =
     bindA (portAction PortThrew ListRecoverable (listRecoverableAttempts ports)) (\<lambda>attempts.
     bindA (readPhase ports attempts) (\<lambda>(n, observations).
     bindA (writePhase ports (emptyResult \<lparr> deferredAttempts := n \<rparr>) observations) (\<lambda>r.
     bindA (portAction PortThrew ListConfirmed (listConfirmedAttempts ports)) (\<lambda>confirmed'.
     confirmedPhase ports r confirmed'))))"


section \<open>Phases\<close>

lemma portCall_effect: "portCall c port s = (r, s') \<Longrightarrow> calls s' = calls s @ [c]"
  by (auto simp: portCall_def dest: portAction_effect)

lemma listing_effect:
  "portAction PortThrew c port s = (Inr x, s') \<Longrightarrow> calls s' = calls s @ [c (Inr x)]"
  "portAction PortThrew c port s = (Inl e, s') \<Longrightarrow> \<exists>m. calls s' = calls s @ [c (Inl m)]"
  by (auto elim!: portAction_cases)

lemma observeCall_effect:
  "observeCall ports tx policy s = (r, s') \<Longrightarrow>
     (\<exists>answer. r = Inr answer \<and> calls s' = calls s @ [Observe tx policy answer])
   \<or> (\<exists>e. r = Inl e) \<and> calls s' = calls s @ [ObserveThrew tx policy]"
  by (auto simp: observeCall_def elim!: portAction_cases)

text \<open>The call that observed a recoverable attempt: under its own policy and the id both its records agree on.\<close>

definition observedAs :: "attempt_view \<times> observation \<times> nat option \<Rightarrow> recovery_call \<Rightarrow> bool" where
  "observedAs = (\<lambda>(a, ob, consensus) c. \<exists>tx policy. recoverableTxId a = Inr tx
     \<and> getAggregateSettlementRecoveryPolicy a = Some policy \<and> c = Observe tx policy (ob, consensus))"

definition observes :: "attempt_view \<Rightarrow> recovery_call \<Rightarrow> bool" where
  "observes a c \<longleftrightarrow> (\<exists>tx policy. recoverableTxId a = Inr tx \<and> getAggregateSettlementRecoveryPolicy a = Some policy
     \<and> (c = ObserveThrew tx policy \<or> (\<exists>answer. c = Observe tx policy answer)))"

definition hasPolicy :: "attempt_view \<Rightarrow> bool" where
  "hasPolicy a \<longleftrightarrow> getAggregateSettlementRecoveryPolicy a \<noteq> None"

lemma readPhase_trace:
  "readPhase ports as s = (r, s') \<Longrightarrow> \<exists>tr. calls s' = calls s @ tr \<and> list_all2 observes (take (length tr) (filter hasPolicy as)) tr
     \<and> (\<forall>n os. r = Inr (n, os) \<longrightarrow> map fst os = filter hasPolicy as \<and> list_all2 observedAs os tr)"
proof (induction as arbitrary: s r s')
  case Nil
  then show ?case by (auto simp: returnA_def)
next
  case (Cons a as)
  show ?case
  proof (cases "getAggregateSettlementRecoveryPolicy a")
    case None
    with Cons.prems have "bindA (readPhase ports as) (\<lambda>(n, os). returnA (n + 1, os)) s = (r, s')" by simp
    then show ?thesis
    proof (cases rule: bindA_cases)
      case (throw e)
      from Cons.IH [OF throw(1)] throw(2) None show ?thesis by (auto simp: hasPolicy_def)
    next
      case (step x s1)
      from Cons.IH [OF step(1)] step(2) None show ?thesis by (cases x) (auto simp: returnA_def hasPolicy_def)
    qed
  next
    case (Some policy)
    with Cons.prems have b: "bindA (liftA (recoverableTxId a)) (\<lambda>tx. bindA (observeCall ports tx policy) (\<lambda>(ob, consensus).
        bindA (readPhase ports as) (\<lambda>(n, os). returnA (n, (a, ob, consensus) # os)))) s = (r, s')" by simp
    then show ?thesis
    proof (cases rule: bindA_cases)
      case (step tx s1)
      then have tx: "recoverableTxId a = Inr tx" "s1 = s" by (auto simp: liftA_def)
      from step(2) show ?thesis
      proof (cases rule: bindA_cases)
        case (throw e)
        from observeCall_effect [OF throw(1)] obtain c where "calls s' = calls s @ [c]" "observes a c"
          using tx Some throw(2) by (auto simp: observes_def)
        with throw(2) Some show ?thesis by (intro exI [of _ "[c]"]) (auto simp: hasPolicy_def)
      next
        case (step ans s2)
        obtain ob consensus where ans: "ans = (ob, consensus)" by (cases ans)
        from observeCall_effect [OF step(1)] tx ans have c: "calls s2 = calls s @ [Observe tx policy (ob, consensus)]" by auto
        have here: "hasPolicy a" "observes a (Observe tx policy (ob, consensus))"
          "observedAs (a, ob, consensus) (Observe tx policy (ob, consensus))"
          using tx Some by (auto simp: hasPolicy_def observes_def observedAs_def)
        from step(2) ans have "bindA (readPhase ports as) (\<lambda>(n, os). returnA (n, (a, ob, consensus) # os)) s2 = (r, s')" by simp
        then show ?thesis
        proof (cases rule: bindA_cases)
          case (throw e)
          from Cons.IH [OF throw(1)] obtain tr where "calls s' = calls s2 @ tr"
            "list_all2 observes (take (length tr) (filter hasPolicy as)) tr" by blast
          with throw(2) c Some tx show ?thesis
            by (intro exI [of _ "Observe tx policy (ob, consensus) # tr"]) (simp add: here)
        next
          case (step x s3)
          from Cons.IH [OF step(1)] obtain tr where "calls s3 = calls s2 @ tr"
            "list_all2 observes (take (length tr) (filter hasPolicy as)) tr"
            "\<forall>n os. Inr x = Inr (n, os) \<longrightarrow> map fst os = filter hasPolicy as \<and> list_all2 observedAs os tr" by blast
          with step(2) c Some tx show ?thesis
            by (cases x; intro exI [of _ "Observe tx policy (ob, consensus) # tr"])
              (simp add: returnA_def here; auto simp: here)
        qed
      qed
    qed (auto simp: liftA_def)
  qed
qed

text \<open>The mutations of the observations: all of them but the disappearances that only one source saw.\<close>

definition mutations :: "(attempt_view \<times> observation \<times> nat option) list \<Rightarrow> recovery_call list" where
  "mutations os = map (\<lambda>(a, ob, consensus). Apply a ob consensus)
     (filter (\<lambda>(a, ob, consensus). \<not> needsWitness a ob consensus) os)"

lemma writePhase_trace:
  "writePhase ports r os s = (q, s') \<Longrightarrow> \<exists>writes left. mutations os = writes @ left \<and> calls s' = calls s @ writes \<and> (isOk q \<longrightarrow> left = [])"
proof (induction os arbitrary: s r)
  case Nil
  then show ?case by (auto simp: returnA_def mutations_def)
next
  case (Cons x os)
  obtain a ob consensus where x: "x = (a, ob, consensus)" by (cases x)
  show ?case
  proof (cases "needsWitness a ob consensus")
    case True
    with Cons.prems x have "writePhase ports (defer' r) os s = (q, s')" by simp
    from Cons.IH [OF this] True x show ?thesis by (simp add: mutations_def)
  next
    case False
    then have m: "mutations (x # os) = Apply a ob consensus # mutations os" by (simp add: mutations_def x)
    from False Cons.prems x have "bindA (portCall (Apply a ob consensus) (applyRecoverableObservation ports a ob consensus)) (\<lambda>m.
        writePhase ports (if \<not> muApplied m \<or> obStatus ob = absent then defer' (addMutation r m) else addMutation r m) os) s
      = (q, s')" by (simp add: Let_def)
    then show ?thesis
    proof (cases rule: bindA_cases)
      case (throw e)
      with portCall_effect [OF throw(1)] m show ?thesis by auto
    next
      case (step y s1)
      from Cons.IH [OF step(2)] portCall_effect [OF step(1)] m show ?thesis by auto
    qed
  qed
qed

text \<open>The id a confirmed attempt is observed under, and the calls its check makes: one observation under that id and the
  attempt's policy, followed by a quarantine with that very answer exactly when it says absent and carries a second
  source. An attempt that is quarantined already, has no policy or no well-formed id is not observed.\<close>

definition confirmedTxId :: "attempt_view \<Rightarrow> recovery_error + string" where
  "confirmedTxId a = normalizeAggregateSettlementRecoveryTxId
     (case avSubmittedTxId a of None \<Rightarrow> avExpectedTxId a | Some t \<Rightarrow> t)"

definition checkCalls :: "attempt_view \<Rightarrow> recovery_call list \<Rightarrow> bool" where
  "checkCalls a tr = (case (getAggregateSettlementRecoveryPolicy a, confirmedTxId a) of
       (Some policy, Inr tx) \<Rightarrow> if avQuarantined a then tr = [] else
         tr = [ObserveThrew tx policy]
         \<or> (\<exists>ob consensus. tr = Observe tx policy (ob, consensus) #
              (case consensus of Some k \<Rightarrow> if obStatus ob = absent then [Quarantine a ob k] else [] | None \<Rightarrow> []))
     | _ \<Rightarrow> tr = [])"

lemma confirmedAttempt_trace:
  assumes "confirmedAttempt ports r a s = (q, s')"
  shows "\<exists>tr. calls s' = calls s @ tr \<and> checkCalls a tr"
proof (cases "\<exists>policy tx. getAggregateSettlementRecoveryPolicy a = Some policy \<and> confirmedTxId a = Inr tx \<and> \<not> avQuarantined a")
  case False
  with assms have "s' = s"
    by (auto simp: confirmedAttempt_def bindA_def liftA_def returnA_def confirmedTxId_def split: if_splits option.splits sum.splits)
  then show ?thesis using False by (intro exI [of _ "[]"]) (auto simp: checkCalls_def split: option.splits sum.splits)
next
  case True
  then obtain policy tx where p: "getAggregateSettlementRecoveryPolicy a = Some policy" "confirmedTxId a = Inr tx" "\<not> avQuarantined a"
    by blast
  obtain ans s1 where o: "observeCall ports tx policy s = (ans, s1)" by fastforce
  show ?thesis
  proof (cases ans)
    case (Inl e)
    with assms p o observeCall_effect [OF o] show ?thesis
      by (auto simp: confirmedAttempt_def bindA_def liftA_def confirmedTxId_def checkCalls_def)
  next
    case (Inr v)
    obtain ob consensus where v: "v = (ob, consensus)" by (cases v)
    have c: "calls s1 = calls s @ [Observe tx policy (ob, consensus)]" using observeCall_effect [OF o] Inr v by auto
    show ?thesis
    proof (cases "obStatus ob = absent \<and> consensus \<noteq> None")
      case True
      then obtain k where k: "consensus = Some k" "obStatus ob = absent" by blast
      obtain b s2 where quar: "portCall (Quarantine a ob k) (quarantineConfirmedAbsence ports a ob k) s1 = (b, s2)" by fastforce
      from assms p o Inr v k quar have "s' = s2"
        by (auto simp: confirmedAttempt_def bindA_def liftA_def returnA_def confirmedTxId_def split: sum.splits)
      with portCall_effect [OF quar] c k p show ?thesis by (auto simp: checkCalls_def)
    next
      case False
      with assms p o Inr v have "s' = s1"
        by (auto simp: confirmedAttempt_def bindA_def liftA_def returnA_def confirmedTxId_def split: option.splits if_splits)
      with c p False show ?thesis by (auto simp: checkCalls_def split: option.splits)
    qed
  qed
qed

text \<open>The checks of a list of confirmed attempts, in its order; a throw may end them early.\<close>

definition checksOf :: "attempt_view list \<Rightarrow> recovery_call list list \<Rightarrow> bool" where
  "checksOf as checks \<longleftrightarrow> list_all2 checkCalls (take (length checks) as) checks"

lemma confirmedPhase_trace:
  "confirmedPhase ports r as s = (q, s') \<Longrightarrow>
     \<exists>checks. calls s' = calls s @ concat checks \<and> checksOf as checks \<and> (isOk q \<longrightarrow> length checks = length as)"
proof (induction as arbitrary: s r)
  case Nil
  then show ?case by (auto simp: returnA_def checksOf_def)
next
  case (Cons a as)
  from Cons.prems have "bindA (confirmedAttempt ports r a) (\<lambda>r1. confirmedPhase ports r1 as) s = (q, s')" by simp
  then show ?case
  proof (cases rule: bindA_cases)
    case (throw e)
    from confirmedAttempt_trace [OF throw(1)] obtain tr where "calls s' = calls s @ tr" "checkCalls a tr" by blast
    with throw(2) show ?thesis by (intro exI [of _ "[tr]"]) (simp add: checksOf_def)
  next
    case (step r1 s1)
    from confirmedAttempt_trace [OF step(1)] obtain tr where tr: "calls s1 = calls s @ tr" "checkCalls a tr" by blast
    from Cons.IH [OF step(2)] obtain checks where "calls s' = calls s1 @ concat checks" "checksOf as checks"
      "isOk q \<longrightarrow> length checks = length as" by blast
    with tr show ?thesis by (intro exI [of _ "tr # checks"]) (simp add: checksOf_def)
  qed
qed

text \<open>What follows the mutations: the listing of the confirmed attempts and their checks.\<close>

definition checkPhase :: "bool \<Rightarrow> recovery_call list \<Rightarrow> bool" where
  "checkPhase finished rest \<longleftrightarrow> (\<exists>e. rest = [ListConfirmed (Inl e)]) \<and> \<not> finished
     \<or> (\<exists>as checks. rest = ListConfirmed (Inr as) # concat checks \<and> checksOf as checks
          \<and> (finished \<longrightarrow> length checks = length as))"

lemma after_writes:
  assumes "bindA (portAction PortThrew ListConfirmed (listConfirmedAttempts ports)) (confirmedPhase ports r1) s = (r, s')"
  shows "\<exists>rest. calls s' = calls s @ rest \<and> checkPhase (isOk r) rest"
  using assms
proof (cases rule: bindA_cases)
  case (throw e)
  with listing_effect(2) [OF throw(1)] show ?thesis by (auto simp: checkPhase_def)
next
  case (step as s1)
  note listing_effect(1) [OF step(1)]
  moreover obtain checks where "calls s' = calls s1 @ concat checks" "checksOf as checks" "isOk r \<longrightarrow> length checks = length as"
    using confirmedPhase_trace [OF step(2)] by blast
  ultimately show ?thesis
    by (intro exI [of _ "ListConfirmed (Inr as) # concat checks"]) (auto simp: checkPhase_def)
qed

lemma after_reads:
  assumes "bindA (writePhase ports r0 os) (\<lambda>r. bindA (portAction PortThrew ListConfirmed (listConfirmedAttempts ports))
      (confirmedPhase ports r)) s = (r, s')"
  shows "\<exists>writes left rest. mutations os = writes @ left \<and> calls s' = calls s @ writes @ rest
    \<and> (rest = [] \<and> \<not> isOk r \<or> left = [] \<and> checkPhase (isOk r) rest)"
  using assms
proof (cases rule: bindA_cases)
  case (throw e)
  from writePhase_trace [OF throw(1)] obtain writes left where "mutations os = writes @ left" "calls s' = calls s @ writes" by blast
  then show ?thesis using throw(2) by (intro exI [of _ writes] exI [of _ left] exI [of _ "[]"]) simp
next
  case (step r1 s1)
  from writePhase_trace [OF step(1)] have "calls s1 = calls s @ mutations os" by auto
  moreover obtain rest where "calls s' = calls s1 @ rest" "checkPhase (isOk r) rest" using after_writes [OF step(2)] by blast
  ultimately show ?thesis by (intro exI [of _ "mutations os"] exI [of _ "[]"] exI [of _ rest]) simp
qed

text \<open>C7. Recovery finishes its read phase before it mutates a recoverable attempt, and acts on nothing it did not observe.
  The calls of a run are the listing of the recoverable attempts; one observation of each listed attempt with a policy,
  in the order of the list; only when all of them answered, the mutations, which carry those answers in the same order
  and leave out just the disappearances that one source alone saw; only when all of them were applied, the listing of
  the confirmed attempts; and then, attempt by attempt, an observation of the attempt's own transaction under its
  policy, followed at once by a quarantine with that answer exactly when it is an absence a second source saw. A run
  that stops early has thrown, and a run that returns has checked every confirmed attempt.\<close>

theorem recovery_reads_before_writes:
  assumes "recoverAggregateSettlementLifecycle ports s = (r, s')"
  shows "\<exists>listing reads. (calls s' = calls s @ ListRecoverable listing # reads \<and> \<not> isOk r
        \<and> (case listing of Inl _ \<Rightarrow> reads = [] | Inr as \<Rightarrow> list_all2 observes (take (length reads) (filter hasPolicy as)) reads))
    \<or> (\<exists>as os writes left rest. listing = Inr as \<and> calls s' = calls s @ ListRecoverable listing # reads @ writes @ rest
        \<and> map fst os = filter hasPolicy as \<and> list_all2 observedAs os reads \<and> mutations os = writes @ left
        \<and> (rest = [] \<and> \<not> isOk r \<or> left = [] \<and> checkPhase (isOk r) rest))"
  using assms [unfolded recoverAggregateSettlementLifecycle_def]
proof (cases rule: bindA_cases)
  case (throw e)
  from listing_effect(2) [OF throw(1)] obtain m where "calls s' = calls s @ [ListRecoverable (Inl m)]" by blast
  with throw(2) show ?thesis by (intro exI [of _ "Inl m"] exI [of _ "[]"]) simp
next
  case (step as s1)
  note c1 = listing_effect(1) [OF step(1)]
  from step(2) show ?thesis
  proof (cases rule: bindA_cases)
    case (throw e)
    from readPhase_trace [OF throw(1)] obtain reads where "calls s' = calls s1 @ reads" "list_all2 observes (take (length reads) (filter hasPolicy as)) reads" by blast
    with c1 throw(2) show ?thesis by (intro exI [of _ "Inr as"] exI [of _ reads]) simp
  next
    case (step x s2)
    obtain n os where x: "x = (n, os)" by (cases x)
    from readPhase_trace [OF step(1)] x obtain reads where
      c2: "calls s2 = calls s1 @ reads" "map fst os = filter hasPolicy as" "list_all2 observedAs os reads" by auto
    from step(2) x have "bindA (writePhase ports (emptyResult \<lparr> deferredAttempts := n \<rparr>) os) (\<lambda>r.
        bindA (portAction PortThrew ListConfirmed (listConfirmedAttempts ports)) (confirmedPhase ports r)) s2 = (r, s')" by simp
    from after_reads [OF this] obtain writes left rest where "mutations os = writes @ left" "calls s' = calls s2 @ writes @ rest"
      "rest = [] \<and> \<not> isOk r \<or> left = [] \<and> checkPhase (isOk r) rest" by blast
    with c1 c2 show ?thesis by (intro exI [of _ "Inr as"] exI [of _ reads] disjI2) auto
  qed
qed


section \<open>A concrete run\<close>

definition demoAttempt :: attempt_view where
  "demoAttempt = \<lparr> avMode = single, avStatus = submitted, avExpectedTxId = replicate 64 (CHR ''a''),
     avSubmittedTxId = Some (replicate 64 (CHR ''A'')), avBurnTxHashes = [''b1''], avLifecycleVersion = 3,
     avBindingStatus = policy_v1, avPolicyVersion = Some 1, avRequiredConfirmations = Some 10,
     avErgoObservation = Some confirmed_pre_finality, avQuarantined = False \<rparr>"

definition demoPorts :: "unit recovery_ports" where
  "demoPorts = \<lparr> observe = \<lambda>tx p w. (Inr (\<lparr> obStatus = absent, obEvidence = 1 \<rparr>, Some 2), w),
     listRecoverableAttempts = \<lambda>w. (Inr [demoAttempt], w),
     applyRecoverableObservation = \<lambda>a ob c w. (Inr \<lparr> muApplied = True, muRestoredBurns = 1, muSkippedBurns = 0,
       muMissingPegOuts = 0, muRolledBackBurns = 1, muRolledBackPreFinality = True \<rparr>, w),
     listConfirmedAttempts = \<lambda>w. (Inr [demoAttempt], w),
     quarantineConfirmedAbsence = \<lambda>a ob c w. (Inr True, w) \<rparr>"

lemma demo_txid:
  "normalizeAggregateSettlementRecoveryTxId (replicate 64 (CHR ''a'')) = Inr (replicate 64 (CHR ''a''))"
  "normalizeAggregateSettlementRecoveryTxId (replicate 64 (CHR ''A'')) = Inr (replicate 64 (CHR ''a''))"
proof -
  have h: "isHexChar (CHR ''a'')" "isHexChar (CHR ''A'')" "lowerChar (CHR ''a'') = CHR ''a''"
    "lowerChar (CHR ''A'') = CHR ''a''"
    by (simp add: isHexChar_def hexVal_def code_def, simp add: isHexChar_def hexVal_def code_def, code_simp, code_simp)
  then have "list_all isHexChar (replicate 64 (CHR ''a''))" "list_all isHexChar (replicate 64 (CHR ''A''))"
    by (simp_all add: list_all_iff)
  with h strip0x_lowerHex show
    "normalizeAggregateSettlementRecoveryTxId (replicate 64 (CHR ''a'')) = Inr (replicate 64 (CHR ''a''))"
    "normalizeAggregateSettlementRecoveryTxId (replicate 64 (CHR ''A'')) = Inr (replicate 64 (CHR ''a''))"
    by (simp_all add: normalizeAggregateSettlementRecoveryTxId_def Let_def)
qed

lemma demoRecovery_run:
  "\<exists>r s'. recoverAggregateSettlementLifecycle demoPorts \<lparr> world = (), calls = [] \<rparr> = (Inr r, s')
     \<and> length (calls s') = 6 \<and> quarantinedConfirmedAttempts r = 1"
proof -
  have a: "getAggregateSettlementRecoveryPolicy demoAttempt = Some 10"
    "recoverableTxId demoAttempt = Inr (replicate 64 (CHR ''a''))"
    by (simp_all add: getAggregateSettlementRecoveryPolicy_def recoverableTxId_def demoAttempt_def demo_txid)
  have b: "avSubmittedTxId demoAttempt = Some (replicate 64 (CHR ''A''))" "\<not> avQuarantined demoAttempt"
    by (simp_all add: demoAttempt_def)
  show ?thesis
    by (simp add: recoverAggregateSettlementLifecycle_def demoPorts_def bindA_def portCall_def observeCall_def portAction_def
        liftA_def returnA_def a b demo_txid confirmedAttempt_def needsWitness_def Let_def addMutation_def defer'_def
        emptyResult_def)
qed

theorem recovery_reads_before_writes_witness:
  "\<exists>r s' as os reads rest. recoverAggregateSettlementLifecycle demoPorts \<lparr> world = (), calls = [] \<rparr> = (Inr r, s')
     \<and> quarantinedConfirmedAttempts r = 1 \<and> length (calls s') = 6
     \<and> calls s' = ListRecoverable (Inr as) # reads @ mutations os @ rest
     \<and> map fst os = filter hasPolicy as \<and> list_all2 observedAs os reads \<and> checkPhase True rest"
proof -
  obtain r s' where run: "recoverAggregateSettlementLifecycle demoPorts \<lparr> world = (), calls = [] \<rparr> = (Inr r, s')"
    "length (calls s') = 6" "quarantinedConfirmedAttempts r = 1" using demoRecovery_run by blast
  from recovery_reads_before_writes [OF run(1)] obtain as os reads rest where
    "calls s' = ListRecoverable (Inr as) # reads @ mutations os @ rest" "map fst os = filter hasPolicy as"
    "list_all2 observedAs os reads" "checkPhase True rest" by auto
  with run show ?thesis by blast
qed

end
