(* ===== verification/Peg_In_Recovery.thy ===== *)
theory Peg_In_Recovery
  imports Bridge_Prelude
begin

text \<open>
  After a peg-in was minted: the confirmed mint submission
  (\<^verbatim>\<open>relayer-core/peg-in-mint-transport-lifecycle.ts\<close>) and the check that the committed deposit is still what
  was retained (\<^verbatim>\<open>relayer-core/peg-in-post-mint-recovery.ts\<close>).

  The incident port is a function on an unknown world that may throw; the run also keeps the incidents it was
  asked to persist.
\<close>

section \<open>Mint submissions\<close>

datatype mint_error = NotFixedHex string | NotBlockNumber string | OutsideReservation | WrongConfirmationPolicy

definition PEG_IN_MINT_CONFIRMATIONS :: int where "PEG_IN_MINT_CONFIRMATIONS = 3"

record mint_submission =
  transactionHashHex :: "string option"
  responseDigestHex :: "string option"
  confirmationBlockNumber :: int
  confirmationBlockHashHex :: "string option"
  confirmationCount :: int

definition fixedHex :: "string option \<Rightarrow> nat \<Rightarrow> string \<Rightarrow> mint_error + string" where
  "fixedHex value bytes label = (case value of
       None \<Rightarrow> Inl (NotFixedHex label)
     | Some v \<Rightarrow> let normalized = lowerStr (strip0xAny (trimBlanks v)) in
         require (length normalized = bytes * 2 \<and> list_all isLowerHexChar normalized) (NotFixedHex label) (Inr normalized))"

definition blockNumber :: "int \<Rightarrow> string \<Rightarrow> mint_error + int" where
  "blockNumber value label = require (\<not> (\<not> isSafeInteger value \<or> value < 0)) (NotBlockNumber label) (Inr value)"

definition normalizePegInMintAcceptedSubmission :: "string option \<Rightarrow> mint_submission \<Rightarrow> mint_error + mint_submission" where
  "normalizePegInMintAcceptedSubmission expected value =
     andThen (fixedHex expected 32 ''reserved peg-in mint transaction hash'') (\<lambda>expectedHash.
     andThen (fixedHex (transactionHashHex value) 32 ''peg-in mint transaction hash'') (\<lambda>txHash.
     require (txHash = expectedHash) OutsideReservation
     (require (confirmationCount value = PEG_IN_MINT_CONFIRMATIONS) WrongConfirmationPolicy
     (andThen (fixedHex (responseDigestHex value) 32 ''peg-in mint response digest'') (\<lambda>digest.
      andThen (blockNumber (confirmationBlockNumber value) ''peg-in mint confirmation block number'') (\<lambda>n.
      andThen (fixedHex (confirmationBlockHashHex value) 32 ''peg-in mint confirmation block hash'') (\<lambda>block.
      Inr \<lparr> transactionHashHex = Some txHash, responseDigestHex = Some digest, confirmationBlockNumber = n,
            confirmationBlockHashHex = Some block, confirmationCount = PEG_IN_MINT_CONFIRMATIONS \<rparr>)))))))"

lemma fixedHex_result: "fixedHex v n l = Inr h \<Longrightarrow> length h = n * 2 \<and> list_all isLowerHexChar h"
  by (auto simp: fixedHex_def result_simps Let_def split: option.splits)

lemma fixedHex_canonical: "length h = n * 2 \<Longrightarrow> list_all isLowerHexChar h \<Longrightarrow> fixedHex (Some h) n l = Inr h"
  by (simp add: fixedHex_def trimBlanks_lowerHex strip0xAny_lowerHex lowerStr_lowerHex)

lemma fixedHex_stable: "fixedHex v n l = Inr h \<Longrightarrow> fixedHex (Some h) n l' = Inr h"
  using fixedHex_result fixedHex_canonical by blast

lemma normalizeMint_stable:
  assumes "normalizePegInMintAcceptedSubmission expected v = Inr n"
  shows "normalizePegInMintAcceptedSubmission (transactionHashHex n) n = Inr n \<and> confirmationCount n = 3
    \<and> (\<exists>h. fixedHex expected 32 [] = Inr h \<and> transactionHashHex n = Some h)"
proof -
  from assms obtain h d b where f: "fixedHex expected 32 ''reserved peg-in mint transaction hash'' = Inr h"
      "fixedHex (transactionHashHex v) 32 ''peg-in mint transaction hash'' = Inr h"
      "fixedHex (responseDigestHex v) 32 ''peg-in mint response digest'' = Inr d"
      "fixedHex (confirmationBlockHashHex v) 32 ''peg-in mint confirmation block hash'' = Inr b"
      "blockNumber (confirmationBlockNumber v) ''peg-in mint confirmation block number'' = Inr (confirmationBlockNumber n)"
    and n: "transactionHashHex n = Some h" "responseDigestHex n = Some d" "confirmationBlockHashHex n = Some b"
      "confirmationCount n = PEG_IN_MINT_CONFIRMATIONS"
    by (auto simp: normalizePegInMintAcceptedSubmission_def result_simps)
  have "blockNumber (confirmationBlockNumber n) l = Inr (confirmationBlockNumber n)" for l
    using f(5) by (auto simp: blockNumber_def result_simps)
  moreover have "fixedHex expected 32 [] = Inr h"
    using f(1) by (auto simp: fixedHex_def result_simps Let_def split: option.splits)
  ultimately show ?thesis
    using fixedHex_stable [OF f(1)] fixedHex_stable [OF f(3)] fixedHex_stable [OF f(4)] n
    by (cases n) (simp add: normalizePegInMintAcceptedSubmission_def PEG_IN_MINT_CONFIRMATIONS_def)
qed

text \<open>A normalized mint submission is for the reserved transaction under the three-confirmation policy, and
  normalizing it again changes nothing.\<close>

theorem mintSubmission_bound:
  assumes "normalizePegInMintAcceptedSubmission expected v = Inr n"
  shows "normalizePegInMintAcceptedSubmission (transactionHashHex n) n = Inr n \<and> confirmationCount n = 3
    \<and> (\<exists>h. fixedHex expected 32 [] = Inr h \<and> transactionHashHex n = Some h)"
  using assms by (rule normalizeMint_stable)


section \<open>Post-mint recovery\<close>

datatype incident_kind =
    commitment_disappeared | refundable_source_restored | commitment_receipt_conflict | committed_vault_unavailable

datatype classification = refundable | commit_pending | committed | refunded | unresolved

record retained_lifecycle =
  sourceBoxIdHex :: string
  targetEvmAddressHex :: string
  amountNanoErg :: string
  depositorErgoTreeHex :: string
  commitmentTxIdHex :: string
  committedVaultBoxIdHex :: string
  commitmentInclusionHeight :: int
  commitmentInclusionHeaderIdHex :: string

record transition =
  spendingTransactionIdHex :: string
  inclusionHeight :: int
  inclusionBlockIdHex :: string
  vaultBoxIdHex :: "string option"

record route_deposit =
  valueNanoErg :: string
  declaredAmountNanoErg :: string
  rdTargetEvmAddressHex :: string
  rdDepositorErgoTreeHex :: string
  spentTransactionIdHex :: "string option"
  classification :: classification
  transition :: "transition option"

record route =
  exactDepositMatchCount :: int
  deposit :: "route_deposit option"
  sourceBoxCurrentlyUnspent :: bool
  committedVaultCurrentlyUnspent :: bool

datatype recovery_status = Canonical | Incident

text \<open>A run of the incident port: the world and the incidents it was asked to persist.\<close>

record 'w incident_run =
  world :: 'w
  persisted :: "incident_kind list"

definition incident ::
  "(incident_kind \<Rightarrow> 'w \<Rightarrow> (string + unit) \<times> 'w) \<Rightarrow> incident_kind \<Rightarrow> ('w incident_run, string, recovery_status) action" where
  "incident persist kind = (\<lambda>s. case persist kind (world s) of (r, w) \<Rightarrow>
     (case r of Inl e \<Rightarrow> Inl e | Inr _ \<Rightarrow> Inr Incident, s \<lparr> world := w, persisted := persisted s @ [kind] \<rparr>))"

definition recoverPegInPostMintLifecycle ::
  "(incident_kind \<Rightarrow> 'w \<Rightarrow> (string + unit) \<times> 'w) \<Rightarrow> retained_lifecycle \<Rightarrow> route
   \<Rightarrow> ('w incident_run, string, recovery_status) action" where
  "recoverPegInPostMintLifecycle persist retained rt =
     (if exactDepositMatchCount rt \<noteq> 1 \<or> deposit rt = None then incident persist commitment_disappeared
      else (let observed = the (deposit rt) in
        if valueNanoErg observed \<noteq> amountNanoErg retained
           \<or> declaredAmountNanoErg observed \<noteq> amountNanoErg retained
           \<or> rdTargetEvmAddressHex observed \<noteq> targetEvmAddressHex retained
           \<or> rdDepositorErgoTreeHex observed \<noteq> depositorErgoTreeHex retained
        then incident persist commitment_receipt_conflict
        else if classification observed = refundable
        then (if spentTransactionIdHex observed \<noteq> None \<or> transition observed \<noteq> None \<or> \<not> sourceBoxCurrentlyUnspent rt
              then incident persist commitment_receipt_conflict
              else incident persist refundable_source_restored)
        else if classification observed = committed
        then (if sourceBoxCurrentlyUnspent rt
                 \<or> spentTransactionIdHex observed \<noteq> Some (commitmentTxIdHex retained)
                 \<or> (case transition observed of
                      None \<Rightarrow> True
                    | Some t \<Rightarrow> spendingTransactionIdHex t \<noteq> commitmentTxIdHex retained
                        \<or> vaultBoxIdHex t \<noteq> Some (committedVaultBoxIdHex retained)
                        \<or> inclusionHeight t \<noteq> commitmentInclusionHeight retained
                        \<or> inclusionBlockIdHex t \<noteq> commitmentInclusionHeaderIdHex retained)
              then incident persist commitment_receipt_conflict
              else if \<not> committedVaultCurrentlyUnspent rt
              then incident persist committed_vault_unavailable
              else returnA Canonical)
        else incident persist commitment_disappeared))"

text \<open>The route of a deposit that is still what was retained when it was minted.\<close>

definition routeIntact :: "retained_lifecycle \<Rightarrow> route \<Rightarrow> bool" where
  "routeIntact k rt \<longleftrightarrow> exactDepositMatchCount rt = 1
     \<and> deposit rt = Some \<lparr> valueNanoErg = amountNanoErg k, declaredAmountNanoErg = amountNanoErg k,
         rdTargetEvmAddressHex = targetEvmAddressHex k, rdDepositorErgoTreeHex = depositorErgoTreeHex k,
         spentTransactionIdHex = Some (commitmentTxIdHex k), classification = committed,
         transition = Some \<lparr> spendingTransactionIdHex = commitmentTxIdHex k,
           inclusionHeight = commitmentInclusionHeight k, inclusionBlockIdHex = commitmentInclusionHeaderIdHex k,
           vaultBoxIdHex = Some (committedVaultBoxIdHex k) \<rparr> \<rparr>
     \<and> \<not> sourceBoxCurrentlyUnspent rt \<and> committedVaultCurrentlyUnspent rt"

lemma recover_intact: "routeIntact k rt \<Longrightarrow> recoverPegInPostMintLifecycle persist k rt = returnA Canonical"
  by (simp add: routeIntact_def recoverPegInPostMintLifecycle_def)

lemma recover_broken:
  assumes "\<not> routeIntact k rt"
  shows "\<exists>kind. recoverPegInPostMintLifecycle persist k rt = incident persist kind"
proof (rule ccontr)
  assume none: "\<nexists>kind. recoverPegInPostMintLifecycle persist k rt = incident persist kind"
  then obtain d where d: "deposit rt = Some d" "exactDepositMatchCount rt = 1"
    unfolding recoverPegInPostMintLifecycle_def by (cases "deposit rt") (auto split: if_splits)
  from none obtain t where "transition d = Some t"
    unfolding recoverPegInPostMintLifecycle_def by (cases "transition d") (auto simp: d Let_def split: if_splits)
  with none d have "routeIntact k rt"
    unfolding recoverPegInPostMintLifecycle_def routeIntact_def
    by (cases d; cases t) (auto simp: Let_def split: if_splits)
  with assms show False by blast
qed

text \<open>C32. Post-mint recovery answers canonical exactly when the route is intact: one exact deposit, committed by the
  retained transaction into the retained vault at the retained block, source spent and vault unspent. Then no
  incident is persisted; in every other case exactly one is, and the answer is an incident or the port's error.\<close>

theorem postMint_exact:
  assumes "recoverPegInPostMintLifecycle persist k rt s = (r, s')"
  shows "if routeIntact k rt then r = Inr Canonical \<and> s' = s
    else r \<noteq> Inr Canonical \<and> (\<exists>kind. persisted s' = persisted s @ [kind])"
proof (cases "routeIntact k rt")
  case True
  with assms show ?thesis by (simp add: recover_intact returnA_def)
next
  case False
  then obtain kind where "recoverPegInPostMintLifecycle persist k rt = incident persist kind"
    using recover_broken by blast
  with assms False show ?thesis by (auto simp: incident_def split: prod.splits sum.splits)
qed

definition demoRetained :: retained_lifecycle where
  "demoRetained = \<lparr> sourceBoxIdHex = ''s'', targetEvmAddressHex = ''e'', amountNanoErg = ''1000'',
     depositorErgoTreeHex = ''d'', commitmentTxIdHex = ''t'', committedVaultBoxIdHex = ''v'',
     commitmentInclusionHeight = 5, commitmentInclusionHeaderIdHex = ''h'' \<rparr>"

definition demoRoute :: "bool \<Rightarrow> route" where
  "demoRoute unspent = \<lparr> exactDepositMatchCount = 1,
     deposit = Some \<lparr> valueNanoErg = ''1000'', declaredAmountNanoErg = ''1000'', rdTargetEvmAddressHex = ''e'',
       rdDepositorErgoTreeHex = ''d'', spentTransactionIdHex = Some ''t'', classification = committed,
       transition = Some \<lparr> spendingTransactionIdHex = ''t'', inclusionHeight = 5, inclusionBlockIdHex = ''h'',
         vaultBoxIdHex = Some ''v'' \<rparr> \<rparr>,
     sourceBoxCurrentlyUnspent = False, committedVaultCurrentlyUnspent = unspent \<rparr>"

theorem postMint_exact_witness:
  "recoverPegInPostMintLifecycle (\<lambda>k w. (Inr (), w)) demoRetained (demoRoute True) \<lparr> world = (), persisted = [] \<rparr>
     = (Inr Canonical, \<lparr> world = (), persisted = [] \<rparr>)"
proof -
  obtain r s' where run: "recoverPegInPostMintLifecycle (\<lambda>k w. (Inr (), w)) demoRetained (demoRoute True)
      \<lparr> world = (), persisted = [] \<rparr> = (r, s')" by fastforce
  have "routeIntact demoRetained (demoRoute True)" by (simp add: routeIntact_def demoRetained_def demoRoute_def)
  with postMint_exact [OF run] run show ?thesis by simp
qed

definition demoMint :: mint_submission where
  "demoMint = \<lparr> transactionHashHex = Some (toHex (replicate 32 1)), responseDigestHex = Some (toHex (replicate 32 2)),
     confirmationBlockNumber = 10, confirmationBlockHashHex = Some (toHex (replicate 32 3)), confirmationCount = 3 \<rparr>"

lemma fixedHex_toHex: "length bs = n \<Longrightarrow> fixedHex (Some (toHex bs)) n l = Inr (toHex bs)"
  by (rule fixedHex_canonical) simp_all

theorem mintSubmission_bound_witness:
  "\<exists>n. normalizePegInMintAcceptedSubmission (Some (toHex (replicate 32 1))) demoMint = Inr n \<and> confirmationCount n = 3"
proof -
  have "\<exists>n. normalizePegInMintAcceptedSubmission (Some (toHex (replicate 32 1))) demoMint = Inr n"
    by (simp add: normalizePegInMintAcceptedSubmission_def demoMint_def fixedHex_toHex PEG_IN_MINT_CONFIRMATIONS_def
        blockNumber_def safe_defs)
  then show ?thesis using mintSubmission_bound by blast
qed

end
