(* ===== verification/Json_Scanner.thy ===== *)
theory Json_Scanner
  imports Canonical_Json
begin

text \<open>
  The duplicate-key scanner (\<^verbatim>\<open>assertNoDuplicateJsonKeys\<close> of
  \<^verbatim>\<open>ergo-settlement-core/strict-json.ts\<close>), run on every JSON text before it is parsed: it walks the text
  and throws when an object repeats a key, when the text is not JSON, or when it nests too deeply.

  The mutable \<^verbatim>\<open>offset\<close> is the part of the text that is left: each parser takes the rest of the text and
  returns what is left after it. The loops over the members and the items carry fuel; twice the length of the
  text is enough (\<open>scan_enough_fuel\<close>). A decoded key is a list of code units, since \<^verbatim>\<open>\u\<close> escapes reach
  beyond the 256 characters of the model's text. The grammar of the second half is independent of the
  scanner; the scanner accepts exactly its words with no repeated key and at most 256 levels of nesting.
\<close>

section \<open>Definitions\<close>

datatype scan_error =
    KeyNotString
  | ControlCharacter
  | StringUnterminated
  | BadEscape
  | InvalidValue
  | NestingTooDeep
  | DuplicateKey "nat list"
  | MissingColon
  | MembersNotSeparated
  | ObjectUnterminated
  | ItemsNotSeparated
  | ArrayUnterminated
  | TrailingContent
  | OutOfFuel

definition MAX_STRICT_JSON_DEPTH :: nat where
  "MAX_STRICT_JSON_DEPTH = 256"

definition isWs :: "char \<Rightarrow> bool" where
  "isWs c \<longleftrightarrow> c \<in> {CHR 0x09, CHR 0x0A, CHR 0x0D, CHR 0x20}"

definition skipWhitespace :: "string \<Rightarrow> string" where
  "skipWhitespace source = dropWhile isWs source"

text \<open>The loop of \<^verbatim>\<open>parseString\<close> after the opening quote: the text up to the closing quote and what follows it.\<close>

fun stringLoop :: "string \<Rightarrow> scan_error + string \<times> string" where
  "stringLoop [] = Inl StringUnterminated"
| "stringLoop (c # r) =
     (if c = CHR 0x22 then Inr ([], r)
      else if c = CHR 0x5C
      then let n = (if take 1 r = ''u'' then 5 else 1) in
           andThen (stringLoop (drop n r)) (\<lambda>(body, rest). Inr (c # take n r @ body, rest))
      else if code c < 32 then Inl ControlCharacter
      else andThen (stringLoop r) (\<lambda>(body, rest). Inr (c # body, rest)))"

text \<open>\<^verbatim>\<open>JSON.parse\<close> on a string literal, given what is between its quotes: the code units of the string, or
  \<open>None\<close> where it throws.\<close>

definition simpleEscape :: "char \<Rightarrow> nat option" where
  "simpleEscape c = map_of
     [(CHR 0x22, 34), (CHR 0x5C, 92), (CHR ''/'', 47), (CHR ''b'', 8), (CHR ''f'', 12), (CHR ''n'', 10),
      (CHR ''r'', 13), (CHR ''t'', 9)] c"

definition hexUnit :: "char \<Rightarrow> char \<Rightarrow> char \<Rightarrow> char \<Rightarrow> nat option" where
  "hexUnit a b c d = (case (hexVal a, hexVal b, hexVal c, hexVal d) of
       (Some w, Some x, Some y, Some z) \<Rightarrow> Some (((w * 16 + x) * 16 + y) * 16 + z)
     | _ \<Rightarrow> None)"

definition consUnit :: "nat option \<Rightarrow> nat list option \<Rightarrow> nat list option" where
  "consUnit u us = (case (u, us) of (Some x, Some xs) \<Rightarrow> Some (x # xs) | _ \<Rightarrow> None)"

fun decodeString :: "string \<Rightarrow> nat list option" where
  "decodeString [] = Some []"
| "decodeString (c # r) =
     (if c = CHR 0x22 \<or> code c < 32 then None
      else if c = CHR 0x5C
      then (case r of
          [] \<Rightarrow> None
        | e # r' \<Rightarrow>
            if e = CHR ''u''
            then (case r' of
                h0 # h1 # h2 # h3 # r'' \<Rightarrow> consUnit (hexUnit h0 h1 h2 h3) (decodeString r'')
              | _ \<Rightarrow> None)
            else consUnit (simpleEscape e) (decodeString r'))
      else consUnit (Some (code c)) (decodeString r))"

definition parseString :: "string \<Rightarrow> scan_error + nat list \<times> string" where
  "parseString source = (case source of
       c # r \<Rightarrow> require (c = CHR 0x22) KeyNotString
         (andThen (stringLoop r) (\<lambda>(body, rest). case decodeString body of
            None \<Rightarrow> Inl BadEscape
          | Some key \<Rightarrow> Inr (key, rest)))
     | [] \<Rightarrow> Inl KeyNotString)"

text \<open>The regular expression of \<^verbatim>\<open>parsePrimitive\<close>, part by part; each part returns what it leaves.\<close>

definition startsDigit :: "string \<Rightarrow> bool" where
  "startsDigit s \<longleftrightarrow> (case s of [] \<Rightarrow> False | c # _ \<Rightarrow> isDigit c)"

definition fractionPart :: "string \<Rightarrow> string" where
  "fractionPart s = (case s of
       c # r \<Rightarrow> if c = CHR ''.'' \<and> startsDigit r then dropWhile isDigit r else s
     | [] \<Rightarrow> [])"

definition signPart :: "string \<Rightarrow> string" where
  "signPart s = (case s of c # r \<Rightarrow> if c = CHR ''+'' \<or> c = CHR ''-'' then r else s | [] \<Rightarrow> [])"

definition exponentPart :: "string \<Rightarrow> string" where
  "exponentPart s = (case s of
       c # r \<Rightarrow> if (c = CHR ''e'' \<or> c = CHR ''E'') \<and> startsDigit (signPart r)
               then dropWhile isDigit (signPart r) else s
     | [] \<Rightarrow> [])"

definition numberPart :: "string \<Rightarrow> string option" where
  "numberPart s = (case (if take 1 s = ''-'' then drop 1 s else s) of
       c # r \<Rightarrow> if c = CHR ''0'' then Some (exponentPart (fractionPart r))
               else if isDigit c then Some (exponentPart (fractionPart (dropWhile isDigit r)))
               else None
     | [] \<Rightarrow> None)"

definition parsePrimitive :: "string \<Rightarrow> scan_error + string" where
  "parsePrimitive source =
     (if take 4 source = ''true'' then Inr (drop 4 source)
      else if take 5 source = ''false'' then Inr (drop 5 source)
      else if take 4 source = ''null'' then Inr (drop 4 source)
      else (case numberPart source of None \<Rightarrow> Inl InvalidValue | Some rest \<Rightarrow> Inr rest))"

text \<open>\<^verbatim>\<open>parseValue\<close> and the two loops in it.\<close>

fun parseValue :: "nat \<Rightarrow> nat \<Rightarrow> string \<Rightarrow> scan_error + string"
  and membersLoop :: "nat \<Rightarrow> nat \<Rightarrow> nat list list \<Rightarrow> string \<Rightarrow> scan_error + string"
  and itemsLoop :: "nat \<Rightarrow> nat \<Rightarrow> string \<Rightarrow> scan_error + string" where
  "parseValue 0 depth source = Inl OutOfFuel"
| "parseValue (Suc fuel) depth source =
     require (\<not> depth > MAX_STRICT_JSON_DEPTH) NestingTooDeep
     (let s = skipWhitespace source in
      if take 1 s = ''{''
      then let r = skipWhitespace (drop 1 s) in
           if take 1 r = ''}'' then Inr (drop 1 r) else membersLoop fuel depth [] r
      else if take 1 s = ''[''
      then let r = skipWhitespace (drop 1 s) in
           if take 1 r = '']'' then Inr (drop 1 r) else itemsLoop fuel depth r
      else if take 1 s = [CHR 0x22] then andThen (parseString s) (\<lambda>(_, rest). Inr rest)
      else parsePrimitive s)"
| "membersLoop 0 depth keys source = Inl OutOfFuel"
| "membersLoop (Suc fuel) depth keys source =
     (if source = [] then Inl ObjectUnterminated
      else andThen (parseString (skipWhitespace source)) (\<lambda>(key, r1).
           require (\<not> List.member keys key) (DuplicateKey key)
           (let r2 = skipWhitespace r1 in
            require (take 1 r2 = '':'') MissingColon
            (andThen (parseValue fuel (Suc depth) (drop 1 r2)) (\<lambda>r3.
             let r4 = skipWhitespace r3 in
             if take 1 r4 = ''}'' then Inr (drop 1 r4)
             else require (take 1 r4 = '','') MembersNotSeparated
                  (membersLoop fuel depth (key # keys) (drop 1 r4)))))))"
| "itemsLoop 0 depth source = Inl OutOfFuel"
| "itemsLoop (Suc fuel) depth source =
     (if source = [] then Inl ArrayUnterminated
      else andThen (parseValue fuel (Suc depth) source) (\<lambda>r1.
           let r2 = skipWhitespace r1 in
           if take 1 r2 = '']'' then Inr (drop 1 r2)
           else require (take 1 r2 = '','') ItemsNotSeparated (itemsLoop fuel depth (drop 1 r2))))"

definition assertNoDuplicateJsonKeys :: "string \<Rightarrow> scan_error + unit" where
  "assertNoDuplicateJsonKeys source =
     andThen (parseValue (Suc (2 * length source)) 0 source) (\<lambda>rest.
     require (skipWhitespace rest = []) TrailingContent (Inr ()))"


section \<open>The grammar\<close>

text \<open>What of a JSON value matters here: its objects with their decoded keys, its arrays, and everything else.\<close>

datatype jtree = Atom | Items "jtree list" | Members "(nat list \<times> jtree) list"

definition ws :: "string \<Rightarrow> bool" where
  "ws w \<longleftrightarrow> list_all isWs w"

definition jInteger :: "string \<Rightarrow> bool" where
  "jInteger s \<longleftrightarrow> s = ''0'' \<or> (allDigits s \<and> hd s \<noteq> CHR ''0'')"

definition jFraction :: "string \<Rightarrow> bool" where
  "jFraction s \<longleftrightarrow> s = [] \<or> (\<exists>d. s = CHR ''.'' # d \<and> allDigits d)"

definition jExponent :: "string \<Rightarrow> bool" where
  "jExponent s \<longleftrightarrow> s = [] \<or> (\<exists>c g d. s = c # g @ d \<and> c \<in> {CHR ''e'', CHR ''E''} \<and> g \<in> {[], ''+'', ''-''} \<and> allDigits d)"

definition jNumber :: "string \<Rightarrow> bool" where
  "jNumber s \<longleftrightarrow> (\<exists>g i f e. s = g @ i @ f @ e \<and> g \<in> {[], ''-''} \<and> jInteger i \<and> jFraction f \<and> jExponent e)"

definition jPrimitive :: "string \<Rightarrow> bool" where
  "jPrimitive s \<longleftrightarrow> s \<in> {''true'', ''false'', ''null''} \<or> jNumber s"

definition jString :: "string \<Rightarrow> nat list \<Rightarrow> bool" where
  "jString s key \<longleftrightarrow> (\<exists>body. s = CHR 0x22 # body @ [CHR 0x22] \<and> decodeString body = Some key)"

inductive jValue :: "string \<Rightarrow> jtree \<Rightarrow> bool"
  and jMembers :: "string \<Rightarrow> (nat list \<times> jtree) list \<Rightarrow> bool"
  and jItems :: "string \<Rightarrow> jtree list \<Rightarrow> bool" where
  value_object0: "ws w \<Longrightarrow> ws v \<Longrightarrow> jValue (w @ CHR ''{'' # v @ ''}'') (Members [])"
| value_object: "ws w \<Longrightarrow> jMembers t ms \<Longrightarrow> jValue (w @ CHR ''{'' # t @ ''}'') (Members ms)"
| value_array0: "ws w \<Longrightarrow> ws v \<Longrightarrow> jValue (w @ CHR ''['' # v @ '']'') (Items [])"
| value_array: "ws w \<Longrightarrow> jItems t xs \<Longrightarrow> jValue (w @ CHR ''['' # t @ '']'') (Items xs)"
| value_string: "ws w \<Longrightarrow> jString s key \<Longrightarrow> jValue (w @ s) Atom"
| value_primitive: "ws w \<Longrightarrow> jPrimitive s \<Longrightarrow> jValue (w @ s) Atom"
| members_one: "ws w \<Longrightarrow> jString s key \<Longrightarrow> ws v \<Longrightarrow> jValue t x \<Longrightarrow> ws u
    \<Longrightarrow> jMembers (w @ s @ v @ CHR '':'' # t @ u) [(key, x)]"
| members_more: "ws w \<Longrightarrow> jString s key \<Longrightarrow> ws v \<Longrightarrow> jValue t x \<Longrightarrow> ws u \<Longrightarrow> jMembers rest ms
    \<Longrightarrow> jMembers (w @ s @ v @ CHR '':'' # t @ u @ CHR '','' # rest) ((key, x) # ms)"
| items_one: "jValue t x \<Longrightarrow> ws u \<Longrightarrow> jItems (t @ u) [x]"
| items_more: "jValue t x \<Longrightarrow> ws u \<Longrightarrow> jItems rest xs \<Longrightarrow> jItems (t @ u @ CHR '','' # rest) (x # xs)"

text \<open>No object repeats a key, and the number of levels below a value.\<close>

fun distinctKeys :: "jtree \<Rightarrow> bool" where
  "distinctKeys Atom = True"
| "distinctKeys (Items xs) = list_all distinctKeys xs"
| "distinctKeys (Members ms) = (distinct (map fst ms) \<and> list_all (\<lambda>m. distinctKeys (snd m)) ms)"

fun levels :: "jtree \<Rightarrow> nat" where
  "levels Atom = 0"
| "levels (Items xs) = foldr max (map (\<lambda>x. Suc (levels x)) xs) 0"
| "levels (Members ms) = foldr max (map (\<lambda>m. Suc (levels (snd m))) ms) 0"


section \<open>Tokens\<close>

lemma skip_split: "\<exists>w. source = w @ skipWhitespace source \<and> ws w"
  unfolding skipWhitespace_def ws_def
  by (intro exI [of _ "takeWhile isWs source"]) (auto simp: list_all_iff dest: set_takeWhileD)

lemma skip_ws: "ws w \<Longrightarrow> skipWhitespace (w @ s) = skipWhitespace s"
  by (auto simp: skipWhitespace_def ws_def list_all_iff dropWhile_append)

lemma skip_id: "\<not> isWs c \<Longrightarrow> skipWhitespace (c # s) = c # s"
  by (simp add: skipWhitespace_def)

lemma skip_length: "length (skipWhitespace s) \<le> length s"
  by (simp add: skipWhitespace_def length_dropWhile_le)

lemma skip_Cons_length: "skipWhitespace s = c # r \<Longrightarrow> length r < length s"
  using skip_length [of s] by simp

lemma isWs_chars [simp]: "\<not> isWs (CHR ''{'')" "\<not> isWs (CHR ''}'')" "\<not> isWs (CHR ''['')" "\<not> isWs (CHR '']'')"
  "\<not> isWs (CHR '','')" "\<not> isWs (CHR '':'')" "\<not> isWs (CHR 0x22)" "\<not> isWs (CHR ''t'')" "\<not> isWs (CHR ''f'')"
  "\<not> isWs (CHR ''n'')" "\<not> isWs (CHR ''-'')"
  by (simp_all add: isWs_def)

lemma take1_iff: "take 1 s = [c] \<longleftrightarrow> (\<exists>r. s = c # r)"
  by (cases s) auto

lemma stringLoop_split:
  "stringLoop s = Inr (body, rest) \<Longrightarrow> s = body @ CHR 0x22 # rest"
proof (induction s arbitrary: body rule: stringLoop.induct)
  case (2 c r)
  show ?case
  proof (cases "c = CHR 0x5C")
    case True
    define n where "n = (if take 1 r = ''u'' then 5 else 1 :: nat)"
    from 2(3) True obtain b where b: "stringLoop (drop n r) = Inr (b, rest)" "body = c # take n r @ b"
      by (auto simp: n_def Let_def result_simps split: if_splits)
    from 2(1) [OF _ True n_def b(1)] True have "drop n r = b @ CHR 0x22 # rest" by simp
    then have "r = take n r @ b @ CHR 0x22 # rest" by (metis append_take_drop_id)
    then show ?thesis using b(2) by simp
  next
    case False
    with 2 show ?thesis by (auto simp: result_simps split: if_splits)
  qed
qed simp


lemma consUnit_Some [simp]: "consUnit u us = Some k \<longleftrightarrow> (\<exists>x xs. u = Some x \<and> us = Some xs \<and> k = x # xs)"
  by (auto simp: consUnit_def split: option.splits)

lemma stringLoop_complete:
  "decodeString body = Some key \<Longrightarrow> stringLoop (body @ CHR 0x22 # rest) = Inr (body, rest)"
proof (induction body arbitrary: key rule: decodeString.induct)
  case (2 c r)
  show ?case
  proof (cases "c = CHR 0x5C")
    case True
    from 2(4) True obtain e r' where r: "r = e # r'" by (auto split: list.splits if_splits)
    show ?thesis
    proof (cases "e = CHR ''u''")
      case u: True
      with 2(4) True r obtain h0 h1 h2 h3 r'' where r': "r' = h0 # h1 # h2 # h3 # r''"
        and k: "\<exists>k. decodeString r'' = Some k"
        by (auto split: list.splits if_splits)
      have "\<not> (c = CHR 0x22 \<or> code c < 32)" using 2(4) by (auto split: if_splits)
      from 2(1) [OF this True r u r' refl refl refl] k have "stringLoop (r'' @ CHR 0x22 # rest) = Inr (r'', rest)" by blast
      moreover have "drop 5 (r @ CHR 0x22 # rest) = r'' @ CHR 0x22 # rest" "take 5 (r @ CHR 0x22 # rest) = [e, h0, h1, h2, h3]"
        using r r' by (simp_all add: numeral_eq_Suc)
      ultimately show ?thesis using True u r r' by simp
    next
      case False
      have c: "\<not> (c = CHR 0x22 \<or> code c < 32)" using 2(4) by (auto split: if_splits)
      from False 2(4) True r have "\<exists>k. decodeString r' = Some k" by (auto split: if_splits)
      with 2(2) [OF c True r False] have "stringLoop (r' @ CHR 0x22 # rest) = Inr (r', rest)" by blast
      then show ?thesis using True r False by simp
    qed
  next
    case False
    with 2 show ?thesis by (auto split: if_splits)
  qed
qed simp

lemma parseString_sound:
  "parseString s = Inr (key, rest) \<Longrightarrow> \<exists>t. s = t @ rest \<and> jString t key"
  by (auto simp: parseString_def jString_def result_simps split: list.splits option.splits dest!: stringLoop_split)

lemma parseString_complete: "jString t key \<Longrightarrow> parseString (t @ rest) = Inr (key, rest)"
  by (auto simp: parseString_def jString_def stringLoop_complete)

lemma jString_start: "jString t key \<Longrightarrow> \<exists>r. t = CHR 0x22 # r"
  by (auto simp: jString_def)

text \<open>Numbers. What may follow a value ends a number: none of it continues one.\<close>

definition follow :: "string \<Rightarrow> bool" where
  "follow s \<longleftrightarrow> (case s of [] \<Rightarrow> True | c # _ \<Rightarrow> isWs c \<or> c \<in> {CHR '','', CHR ''}'', CHR '']''})"

lemma follow_stops:
  "follow (c # r) \<Longrightarrow> \<not> isDigit c \<and> c \<noteq> CHR ''.'' \<and> c \<noteq> CHR ''e'' \<and> c \<noteq> CHR ''E''"
  by (auto simp: follow_def isWs_def isDigit_def code_def)

lemma dropWhile_digits:
  "list_all isDigit d \<Longrightarrow> \<not> startsDigit s \<Longrightarrow> dropWhile isDigit (d @ s) = s"
  by (induction d) (auto simp: startsDigit_def split: list.splits)

lemma digits_start: "allDigits d \<Longrightarrow> startsDigit (d @ s)"
  by (cases d) (auto simp: allDigits_def startsDigit_def)

lemma digits_split: "startsDigit s \<Longrightarrow> \<exists>d. s = d @ dropWhile isDigit s \<and> allDigits d"
  by (intro exI [of _ "takeWhile isDigit s"])
    (auto simp: allDigits_def startsDigit_def list_all_iff split: list.splits dest: set_takeWhileD)

lemma fraction_sound: "\<exists>f. s = f @ fractionPart s \<and> jFraction f"
proof (cases "\<exists>r. s = CHR ''.'' # r \<and> startsDigit r")
  case True
  then obtain r where r: "s = CHR ''.'' # r" "startsDigit r" by blast
  obtain d where "r = d @ dropWhile isDigit r" "allDigits d" using digits_split [OF r(2)] by blast
  then show ?thesis using r by (intro exI [of _ "CHR ''.'' # d"]) (simp add: fractionPart_def jFraction_def)
next
  case False
  then show ?thesis by (intro exI [of _ "[]"]) (auto simp: fractionPart_def jFraction_def split: list.splits)
qed

lemma sign_split: "\<exists>g. s = g @ signPart s \<and> g \<in> {[], ''+'', ''-''}"
  by (cases s) (auto simp: signPart_def)

lemma exponent_sound: "\<exists>e. s = e @ exponentPart s \<and> jExponent e"
proof (cases "\<exists>c r. s = c # r \<and> c \<in> {CHR ''e'', CHR ''E''} \<and> startsDigit (signPart r)")
  case True
  then obtain c r where r: "s = c # r" "c \<in> {CHR ''e'', CHR ''E''}" "startsDigit (signPart r)" by blast
  obtain g where g: "r = g @ signPart r" "g \<in> {[], ''+'', ''-''}" using sign_split by blast
  obtain d where d: "signPart r = d @ dropWhile isDigit (signPart r)" "allDigits d" using digits_split [OF r(3)] by blast
  have "s = (c # g @ d) @ dropWhile isDigit (signPart r)" using r(1) g(1) d(1) by (metis append_Cons append_assoc)
  moreover have "exponentPart s = dropWhile isDigit (signPart r)" using r by (auto simp: exponentPart_def)
  moreover have "jExponent (c # g @ d)" using r(2) g(2) d(2) by (auto simp: jExponent_def)
  ultimately show ?thesis by metis
next
  case False
  then show ?thesis by (intro exI [of _ "[]"]) (auto simp: exponentPart_def jExponent_def split: list.splits)
qed

lemma fraction_complete:
  assumes "jFraction f" and "\<not> startsDigit s" and "\<And>r. s \<noteq> CHR ''.'' # r"
  shows "fractionPart (f @ s) = s"
  using assms(1) unfolding jFraction_def
proof
  assume "f = []"
  with assms(3) show ?thesis by (cases s) (auto simp: fractionPart_def)
next
  assume "\<exists>d. f = CHR ''.'' # d \<and> allDigits d"
  with assms(2) show ?thesis by (auto simp: fractionPart_def digits_start dropWhile_digits allDigits_def)
qed

lemma sign_complete: "allDigits d \<Longrightarrow> g \<in> {[], ''+'', ''-''} \<Longrightarrow> signPart (g @ d @ s) = d @ s"
  by (cases d) (auto simp: signPart_def allDigits_def isDigit_def code_def)

lemma follow_ends: "follow s \<Longrightarrow> \<not> startsDigit s \<and> s \<noteq> CHR ''.'' # r \<and> s \<noteq> CHR ''e'' # r \<and> s \<noteq> CHR ''E'' # r"
  by (cases s) (auto simp: startsDigit_def dest: follow_stops)

lemma exponent_complete:
  assumes "jExponent e" and "follow s"
  shows "exponentPart (e @ s) = s"
  using assms(1) unfolding jExponent_def
proof
  assume "e = []"
  with assms(2) show ?thesis by (cases s) (auto simp: exponentPart_def dest: follow_stops)
next
  assume "\<exists>c g d. e = c # g @ d \<and> c \<in> {CHR ''e'', CHR ''E''} \<and> g \<in> {[], ''+'', ''-''} \<and> allDigits d"
  then obtain c g d where e: "e = c # g @ d" "c \<in> {CHR ''e'', CHR ''E''}" "g \<in> {[], ''+'', ''-''}" "allDigits d" by blast
  have "\<not> startsDigit s" using follow_ends [OF assms(2)] by blast
  with e show ?thesis
    by (simp add: exponentPart_def sign_complete digits_start dropWhile_digits allDigits_def conj_commute)
qed

lemma exponent_start: "jExponent e \<Longrightarrow> follow s \<Longrightarrow> \<not> startsDigit (e @ s) \<and> e @ s \<noteq> CHR ''.'' # r"
  using follow_ends [of s r] by (auto simp: jExponent_def startsDigit_def isDigit_def code_def)

lemma fraction_start: "jFraction f \<Longrightarrow> jExponent e \<Longrightarrow> follow s \<Longrightarrow> \<not> startsDigit (f @ e @ s)"
  using exponent_start [of e s] by (auto simp: jFraction_def startsDigit_def isDigit_def code_def)

definition unsignedPart :: "string \<Rightarrow> string option" where
  "unsignedPart s = (case s of
       c # r \<Rightarrow> if c = CHR ''0'' then Some (exponentPart (fractionPart r))
               else if isDigit c then Some (exponentPart (fractionPart (dropWhile isDigit r)))
               else None
     | [] \<Rightarrow> None)"

lemma numberPart_unsigned: "numberPart s = unsignedPart (if take 1 s = ''-'' then drop 1 s else s)"
  by (simp add: numberPart_def unsignedPart_def)

lemma unsigned_tail: "\<exists>f e. s = f @ e @ exponentPart (fractionPart s) \<and> jFraction f \<and> jExponent e"
  using fraction_sound [of s] exponent_sound [of "fractionPart s"] by (metis append_assoc)

lemma unsigned_sound:
  assumes "unsignedPart s = Some rest"
  shows "\<exists>i f e. s = i @ f @ e @ rest \<and> jInteger i \<and> jFraction f \<and> jExponent e"
proof (cases s)
  case (Cons c r)
  show ?thesis
  proof (cases "c = CHR ''0''")
    case True
    with assms Cons have "rest = exponentPart (fractionPart r)" by (simp add: unsignedPart_def)
    with unsigned_tail [of r] obtain f e where "r = f @ e @ rest" "jFraction f" "jExponent e" by blast
    moreover from this True Cons have "s = ''0'' @ f @ e @ rest" by simp
    ultimately show ?thesis unfolding jInteger_def by blast
  next
    case False
    with assms Cons have c: "isDigit c" and rest: "rest = exponentPart (fractionPart (dropWhile isDigit r))"
      by (auto simp: unsignedPart_def split: if_splits)
    from unsigned_tail [of "dropWhile isDigit r"] rest obtain f e
      where fe: "dropWhile isDigit r = f @ e @ rest" "jFraction f" "jExponent e" by blast
    have "r = takeWhile isDigit r @ f @ e @ rest" using fe(1) by (metis takeWhile_dropWhile_id)
    then have "s = (c # takeWhile isDigit r) @ f @ e @ rest" using Cons by simp
    moreover have "jInteger (c # takeWhile isDigit r)"
      using c False by (auto simp: jInteger_def allDigits_def list_all_iff dest: set_takeWhileD)
    ultimately show ?thesis using fe(2,3) by blast
  qed
qed (use assms in \<open>simp add: unsignedPart_def\<close>)

lemma unsigned_complete:
  assumes "jInteger i" and "jFraction f" and "jExponent e" and "follow s"
  shows "unsignedPart (i @ f @ e @ s) = Some s"
proof -
  have tail: "exponentPart (fractionPart (f @ e @ s)) = s"
    using assms(2-4) exponent_start [OF assms(3,4)] by (simp add: fraction_complete exponent_complete)
  show ?thesis
  proof (cases "i = ''0''")
    case True
    with tail show ?thesis by (simp add: unsignedPart_def)
  next
    case False
    with assms(1) obtain c d where i: "i = c # d" "c \<noteq> CHR ''0''" "isDigit c" "list_all isDigit d"
      by (cases i) (auto simp: jInteger_def allDigits_def)
    have "dropWhile isDigit (d @ f @ e @ s) = f @ e @ s"
      using i(4) fraction_start [OF assms(2-4)] by (rule dropWhile_digits)
    with i tail show ?thesis by (simp add: unsignedPart_def)
  qed
qed

lemma number_sound: "numberPart s = Some rest \<Longrightarrow> \<exists>t. s = t @ rest \<and> jNumber t"
proof -
  assume n: "numberPart s = Some rest"
  define g where "g = (if take 1 s = ''-'' then ''-'' else [])"
  have s: "s = g @ (if take 1 s = ''-'' then drop 1 s else s)" by (cases s) (auto simp: g_def)
  from unsigned_sound [OF n [unfolded numberPart_unsigned]] obtain i f e
    where u: "(if take 1 s = ''-'' then drop 1 s else s) = i @ f @ e @ rest" "jInteger i" "jFraction f" "jExponent e" by blast
  have "s = (g @ i @ f @ e) @ rest" using s u(1) by simp
  moreover have "g \<in> {[], ''-''}" by (simp add: g_def)
  ultimately show ?thesis using u unfolding jNumber_def by blast
qed

lemma integer_start: "jInteger i \<Longrightarrow> \<exists>c r. i = c # r \<and> isDigit c"
  by (cases i) (auto simp: jInteger_def allDigits_def isDigit_def code_def)

lemma number_complete: "jNumber t \<Longrightarrow> follow s \<Longrightarrow> numberPart (t @ s) = Some s"
proof -
  assume "jNumber t" and s: "follow s"
  then obtain g i f e where t: "t = g @ i @ f @ e" "g \<in> {[], ''-''}" "jInteger i" "jFraction f" "jExponent e"
    by (auto simp: jNumber_def)
  obtain c r where i: "i = c # r" "isDigit c" using integer_start [OF t(3)] by blast
  then have "c \<noteq> CHR ''-''" by (auto simp: isDigit_def code_def)
  with i have "(if take 1 (t @ s) = ''-'' then drop 1 (t @ s) else t @ s) = i @ f @ e @ s" using t(1,2) i by auto
  with unsigned_complete [OF t(3-5) s] show ?thesis by (simp add: numberPart_unsigned)
qed

lemma number_start: "jNumber t \<Longrightarrow> \<exists>c r. t = c # r \<and> (isDigit c \<or> c = CHR ''-'')"
  by (auto simp: jNumber_def dest!: integer_start)

lemma primitive_sound: "parsePrimitive s = Inr rest \<Longrightarrow> \<exists>t. s = t @ rest \<and> jPrimitive t"
proof (cases "take 4 s = ''true'' \<or> take 5 s = ''false'' \<or> take 4 s = ''null''")
  case True
  assume "parsePrimitive s = Inr rest"
  with True show ?thesis unfolding parsePrimitive_def jPrimitive_def
    by (metis append_take_drop_id insertCI sum.inject(2))
next
  case False
  assume "parsePrimitive s = Inr rest"
  with False have "numberPart s = Some rest" by (auto simp: parsePrimitive_def split: option.splits)
  from number_sound [OF this] show ?thesis by (auto simp: jPrimitive_def)
qed

lemma primitive_complete: "jPrimitive t \<Longrightarrow> follow s \<Longrightarrow> parsePrimitive (t @ s) = Inr s"
proof -
  assume "jPrimitive t" and s: "follow s"
  then consider "t \<in> {''true'', ''false'', ''null''}" | "jNumber t" by (auto simp: jPrimitive_def)
  then show ?thesis
  proof cases
    case 2
    with number_start obtain c r where "t = c # r" "isDigit c \<or> c = CHR ''-''" by blast
    then have "take 4 (t @ s) \<noteq> ''true'' \<and> take 5 (t @ s) \<noteq> ''false'' \<and> take 4 (t @ s) \<noteq> ''null''"
      by (auto simp: isDigit_def code_def)
    with number_complete [OF 2 s] show ?thesis by (simp add: parsePrimitive_def)
  qed (auto simp: parsePrimitive_def)
qed

lemma primitive_start: "jPrimitive t \<Longrightarrow> \<exists>c r. t = c # r \<and> (isDigit c \<or> c \<in> {CHR ''-'', CHR ''t'', CHR ''f'', CHR ''n''})"
  by (auto simp: jPrimitive_def dest!: number_start)


section \<open>The scanner accepts only words of the grammar\<close>

lemma levels_Items: "n + levels (Items xs) \<le> m \<longleftrightarrow> n \<le> m \<and> (\<forall>x \<in> set xs. Suc n + levels x \<le> m)"
  by (induction xs) auto

lemma levels_Members: "n + levels (Members ms) \<le> m \<longleftrightarrow> n \<le> m \<and> (\<forall>x \<in> set ms. Suc n + levels (snd x) \<le> m)"
  by (induction ms) auto

text \<open>The trees below an object or an array at some depth.\<close>

definition fits :: "nat \<Rightarrow> jtree \<Rightarrow> bool" where
  "fits d x \<longleftrightarrow> distinctKeys x \<and> d + levels x \<le> MAX_STRICT_JSON_DEPTH"

lemma fits_simps:
  "fits d Atom \<longleftrightarrow> d \<le> MAX_STRICT_JSON_DEPTH"
  "fits d (Items xs) \<longleftrightarrow> d \<le> MAX_STRICT_JSON_DEPTH \<and> (\<forall>x \<in> set xs. fits (Suc d) x)"
  "fits d (Members ms) \<longleftrightarrow> d \<le> MAX_STRICT_JSON_DEPTH \<and> distinct (map fst ms) \<and> (\<forall>x \<in> set ms. fits (Suc d) (snd x))"
  unfolding fits_def levels_Items levels_Members by (auto simp: list_all_iff)

lemma ws_append [simp]: "ws (v @ w) \<longleftrightarrow> ws v \<and> ws w" and ws_Nil [simp]: "ws []"
  by (auto simp: ws_def)

lemma jValue_ws:
  assumes "jValue t x" and "ws w"
  shows "jValue (w @ t) x"
  using assms(1)
proof (cases rule: jValue.cases)
  case (value_object0 wa v)
  then show ?thesis using assms(2) jValue_jMembers_jItems.value_object0 [of "w @ wa" v] by simp
next
  case (value_object wa u ms)
  then show ?thesis using assms(2) jValue_jMembers_jItems.value_object [of "w @ wa" u ms] by simp
next
  case (value_array0 wa v)
  then show ?thesis using assms(2) jValue_jMembers_jItems.value_array0 [of "w @ wa" v] by simp
next
  case (value_array wa u xs)
  then show ?thesis using assms(2) jValue_jMembers_jItems.value_array [of "w @ wa" u xs] by simp
next
  case (value_string wa u k)
  then show ?thesis using assms(2) jValue_jMembers_jItems.value_string [of "w @ wa" u k] by simp
next
  case (value_primitive wa u)
  then show ?thesis using assms(2) jValue_jMembers_jItems.value_primitive [of "w @ wa" u] by simp
qed

lemma jItems_ws:
  assumes "jItems t xs" and "ws w"
  shows "jItems (w @ t) xs"
  using assms(1)
proof (cases rule: jItems.cases)
  case (items_one u x v)
  then show ?thesis using assms(2) jValue_jMembers_jItems.items_one [of "w @ u" x v] jValue_ws by simp
next
  case (items_more u x v rest ys)
  then show ?thesis using assms(2) jValue_jMembers_jItems.items_more [of "w @ u" x v rest ys] jValue_ws by simp
qed

lemma jMembers_ws:
  assumes "jMembers t ms" and "ws w"
  shows "jMembers (w @ t) ms"
  using assms(1)
proof (cases rule: jMembers.cases)
  case (members_one wa u k v r x z)
  then show ?thesis using assms(2) jValue_jMembers_jItems.members_one [of "w @ wa" u k v r x z] by simp
next
  case (members_more wa u k v r x z rest ms)
  then show ?thesis using assms(2) jValue_jMembers_jItems.members_more [of "w @ wa" u k v r x z rest ms] by simp
qed

text \<open>Soundness, by induction on the scanner's own recursion.\<close>

lemma skip_obtain:
  obtains w where "s = w @ skipWhitespace s" and "ws w"
  using skip_split [of s] by blast

definition valueSound :: "nat \<Rightarrow> bool" where
  "valueSound n \<longleftrightarrow> (\<forall>d s rest. parseValue n d s = Inr rest \<longrightarrow> (\<exists>t x. s = t @ rest \<and> jValue t x \<and> fits d x))"

definition membersSound :: "nat \<Rightarrow> bool" where
  "membersSound n \<longleftrightarrow> (\<forall>d keys s rest. membersLoop n d keys s = Inr rest \<longrightarrow>
     (\<exists>t ms. s = t @ CHR ''}'' # rest \<and> jMembers t ms \<and> distinct (map fst ms) \<and> set (map fst ms) \<inter> set keys = {}
        \<and> (\<forall>m \<in> set ms. fits (Suc d) (snd m))))"

definition itemsSound :: "nat \<Rightarrow> bool" where
  "itemsSound n \<longleftrightarrow> (\<forall>d s rest. itemsLoop n d s = Inr rest \<longrightarrow>
     (\<exists>t xs. s = t @ CHR '']'' # rest \<and> jItems t xs \<and> (\<forall>x \<in> set xs. fits (Suc d) x)))"

lemmas grammar_intros = jValue_jMembers_jItems.intros

lemma members_sound_step:
  assumes "valueSound n" and "membersSound n"
  shows "membersSound (Suc n)"
  unfolding membersSound_def
proof (intro allI impI)
  fix d keys s rest
  assume run: "membersLoop (Suc n) d keys s = Inr rest"
  from run obtain key r1 r3 where
    key: "parseString (skipWhitespace s) = Inr (key, r1)" "key \<notin> set keys"
    and colon': "take 1 (skipWhitespace r1) = '':''" and val': "parseValue n (Suc d) (drop 1 (skipWhitespace r1)) = Inr r3"
    and more: "if take 1 (skipWhitespace r3) = ''}'' then rest = drop 1 (skipWhitespace r3)
      else take 1 (skipWhitespace r3) = '','' \<and> membersLoop n d (key # keys) (drop 1 (skipWhitespace r3)) = Inr rest"
    by (auto simp: result_simps Let_def simp del: One_nat_def split: if_splits)
  from colon' obtain c where colon: "skipWhitespace r1 = CHR '':'' # c" unfolding take1_iff by blast
  with val' have val: "parseValue n (Suc d) c = Inr r3" by simp
  obtain w where w: "s = w @ skipWhitespace s" "ws w" by (rule skip_obtain)
  obtain k where k: "skipWhitespace s = k @ r1" "jString k key" using parseString_sound [OF key(1)] by blast
  obtain v where v: "r1 = v @ CHR '':'' # c" "ws v" using skip_obtain [of r1] colon by metis
  obtain t x where t: "c = t @ r3" "jValue t x" "fits (Suc d) x" using assms(1) val unfolding valueSound_def by blast
  obtain u where u: "r3 = u @ skipWhitespace r3" "ws u" by (rule skip_obtain)
  have s: "s = w @ k @ v @ CHR '':'' # t @ u @ skipWhitespace r3"
    using w(1) k(1) v(1) t(1) u(1) by simp
  show "\<exists>t ms. s = t @ CHR ''}'' # rest \<and> jMembers t ms \<and> distinct (map fst ms) \<and> set (map fst ms) \<inter> set keys = {}
        \<and> (\<forall>m \<in> set ms. fits (Suc d) (snd m))"
  proof (cases "take 1 (skipWhitespace r3) = ''}''")
    case True
    with more have "skipWhitespace r3 = CHR ''}'' # rest" by (cases "skipWhitespace r3") auto
    with s have "s = (w @ k @ v @ CHR '':'' # t @ u) @ CHR ''}'' # rest" by simp
    moreover have "jMembers (w @ k @ v @ CHR '':'' # t @ u) [(key, x)]"
      using w(2) k(2) v(2) t(2) u(2) by (rule members_one)
    ultimately show ?thesis using key(2) t(3) by (intro exI conjI) auto
  next
    case False
    with more have comma: "take 1 (skipWhitespace r3) = '',''" "membersLoop n d (key # keys) (drop 1 (skipWhitespace r3)) = Inr rest"
      by simp_all
    from comma(1) obtain q where q1: "skipWhitespace r3 = CHR '','' # q" unfolding take1_iff by blast
    with comma(2) have q: "skipWhitespace r3 = CHR '','' # q" "membersLoop n d (key # keys) q = Inr rest" by simp_all
    with assms(2) obtain tl ms where ms: "q = tl @ CHR ''}'' # rest" "jMembers tl ms" "distinct (map fst ms)"
      "set (map fst ms) \<inter> set (key # keys) = {}" "\<forall>m \<in> set ms. fits (Suc d) (snd m)"
      unfolding membersSound_def by blast
    have "s = (w @ k @ v @ CHR '':'' # t @ u @ CHR '','' # tl) @ CHR ''}'' # rest" using s q(1) ms(1) by simp
    moreover have "jMembers (w @ k @ v @ CHR '':'' # t @ u @ CHR '','' # tl) ((key, x) # ms)"
      using w(2) k(2) v(2) t(2) u(2) ms(2) by (rule members_more)
    moreover have "distinct (map fst ((key, x) # ms))" "set (map fst ((key, x) # ms)) \<inter> set keys = {}"
      using ms(3,4) key(2) by auto
    ultimately show ?thesis using ms(5) t(3)
      by (intro exI [of _ "w @ k @ v @ CHR '':'' # t @ u @ CHR '','' # tl"] exI [of _ "(key, x) # ms"]) simp
  qed
qed

lemma items_sound_step:
  assumes "valueSound n" and "itemsSound n"
  shows "itemsSound (Suc n)"
  unfolding itemsSound_def
proof (intro allI impI)
  fix d s rest
  assume run: "itemsLoop (Suc n) d s = Inr rest"
  from run obtain r1 where val: "parseValue n (Suc d) s = Inr r1"
    and more: "if take 1 (skipWhitespace r1) = '']'' then rest = drop 1 (skipWhitespace r1)
      else take 1 (skipWhitespace r1) = '','' \<and> itemsLoop n d (drop 1 (skipWhitespace r1)) = Inr rest"
    by (auto simp: result_simps Let_def split: if_splits)
  obtain t x where t: "s = t @ r1" "jValue t x" "fits (Suc d) x" using assms(1) val unfolding valueSound_def by blast
  obtain u where u: "r1 = u @ skipWhitespace r1" "ws u" by (rule skip_obtain)
  have s: "s = t @ u @ skipWhitespace r1" using t(1) u(1) by simp
  show "\<exists>t xs. s = t @ CHR '']'' # rest \<and> jItems t xs \<and> (\<forall>x \<in> set xs. fits (Suc d) x)"
  proof (cases "take 1 (skipWhitespace r1) = '']''")
    case True
    with more have "skipWhitespace r1 = CHR '']'' # rest" by (cases "skipWhitespace r1") auto
    with s have "s = (t @ u) @ CHR '']'' # rest" by simp
    with items_one [OF t(2) u(2)] t(3) show ?thesis by (intro exI conjI) auto
  next
    case False
    with more have comma: "take 1 (skipWhitespace r1) = '',''" "itemsLoop n d (drop 1 (skipWhitespace r1)) = Inr rest"
      by simp_all
    from comma(1) obtain q where q1: "skipWhitespace r1 = CHR '','' # q" unfolding take1_iff by blast
    with comma(2) have q: "skipWhitespace r1 = CHR '','' # q" "itemsLoop n d q = Inr rest" by simp_all
    with assms(2) obtain tl xs where xs: "q = tl @ CHR '']'' # rest" "jItems tl xs" "\<forall>x \<in> set xs. fits (Suc d) x"
      unfolding itemsSound_def by blast
    have "s = (t @ u @ CHR '','' # tl) @ CHR '']'' # rest" using s q(1) xs(1) by simp
    with items_more [OF t(2) u(2) xs(2)] t(3) xs(3) show ?thesis
      by (intro exI [of _ "t @ u @ CHR '','' # tl"] exI [of _ "x # xs"]) simp
  qed
qed

lemma value_sound_step:
  assumes "membersSound n" and "itemsSound n"
  shows "valueSound (Suc n)"
  unfolding valueSound_def
proof (intro allI impI)
  fix d source rest
  assume run: "parseValue (Suc n) d source = Inr rest"
  define s where "s = skipWhitespace source"
  define r where "r = skipWhitespace (drop 1 s)"
  have d: "d \<le> MAX_STRICT_JSON_DEPTH" using run by (simp add: result_simps)
  obtain w where w: "source = w @ s" "ws w" using skip_obtain [of source] unfolding s_def by blast
  obtain v where v: "drop 1 s = v @ r" "ws v" using skip_obtain [of "drop 1 s"] unfolding r_def by blast
  show "\<exists>t x. source = t @ rest \<and> jValue t x \<and> fits d x"
  proof -
    consider (obj0) "s = CHR ''{'' # v @ r" "r = CHR ''}'' # rest"
      | (obj) "s = CHR ''{'' # v @ r" "membersLoop n d [] r = Inr rest"
      | (arr0) "s = CHR ''['' # v @ r" "r = CHR '']'' # rest"
      | (arr) "s = CHR ''['' # v @ r" "itemsLoop n d r = Inr rest"
      | (str) key where "parseString s = Inr (key, rest)"
      | (prim) "parsePrimitive s = Inr rest"
    proof (cases s)
      case (Cons c q)
      show thesis
        using run Cons v(1) that unfolding parseValue.simps s_def [symmetric] Let_def r_def [symmetric]
        by (cases r) (auto simp: result_simps split: if_splits)
    next
      case Nil
      then show thesis using run that unfolding parseValue.simps s_def [symmetric] Let_def by (simp add: result_simps)
    qed
    then show ?thesis
    proof cases
      case obj0
      have "source = (w @ CHR ''{'' # v @ ''}'') @ rest" using w(1) obj0 by simp
      with value_object0 [OF w(2) v(2)] d show ?thesis by (metis fits_simps(3) distinct.simps(1) empty_iff list.map(1) list.set(1))
    next
      case obj
      with assms(1) obtain t ms where t: "r = t @ CHR ''}'' # rest" "jMembers t ms" "distinct (map fst ms)"
        "\<forall>m \<in> set ms. fits (Suc d) (snd m)" unfolding membersSound_def by blast
      have "source = (w @ CHR ''{'' # (v @ t) @ ''}'') @ rest" using w(1) obj(1) t(1) by simp
      moreover have "fits d (Members ms)" using d t(3,4) by (simp add: fits_simps)
      ultimately show ?thesis using value_object [OF w(2) jMembers_ws [OF t(2) v(2)]] by blast
    next
      case arr0
      have "source = (w @ CHR ''['' # v @ '']'') @ rest" using w(1) arr0 by simp
      with value_array0 [OF w(2) v(2)] d show ?thesis by (metis fits_simps(2) empty_iff list.set(1))
    next
      case arr
      with assms(2) obtain t xs where t: "r = t @ CHR '']'' # rest" "jItems t xs"
        "\<forall>x \<in> set xs. fits (Suc d) x" unfolding itemsSound_def by blast
      have "source = (w @ CHR ''['' # (v @ t) @ '']'') @ rest" using w(1) arr(1) t(1) by simp
      moreover have "fits d (Items xs)" using d t(3) by (simp add: fits_simps)
      ultimately show ?thesis using value_array [OF w(2) jItems_ws [OF t(2) v(2)]] by blast
    next
      case str
      with parseString_sound obtain t where "s = t @ rest" "jString t key" by blast
      with w value_string [of w t key] d show ?thesis by (metis append_assoc fits_simps(1))
    next
      case prim
      with primitive_sound obtain t where "s = t @ rest" "jPrimitive t" by blast
      with w value_primitive [of w t] d show ?thesis by (metis append_assoc fits_simps(1))
    qed
  qed
qed

lemma scan_sound: "valueSound n \<and> membersSound n \<and> itemsSound n"
proof (induction n)
  case 0
  show ?case by (simp add: valueSound_def membersSound_def itemsSound_def)
next
  case (Suc n)
  then show ?case by (blast intro: value_sound_step members_sound_step items_sound_step)
qed


section \<open>The scanner accepts every such word\<close>

lemma skip_skip [simp]: "skipWhitespace (skipWhitespace s) = skipWhitespace s"
  by (simp add: skipWhitespace_def dropWhile_idem)

lemma parseValue_skip: "parseValue n d (skipWhitespace s) = parseValue n d s"
  by (cases n) simp_all

lemma membersLoop_skip: "skipWhitespace s \<noteq> [] \<Longrightarrow> membersLoop n d keys (skipWhitespace s) = membersLoop n d keys s"
  by (cases n) (auto simp: skipWhitespace_def)

lemma itemsLoop_skip: "skipWhitespace s \<noteq> [] \<Longrightarrow> itemsLoop n d (skipWhitespace s) = itemsLoop n d s"
proof (cases n)
  case (Suc m)
  assume s: "skipWhitespace s \<noteq> []"
  then have "s \<noteq> []" by (auto simp: skipWhitespace_def)
  with s Suc show ?thesis by (simp add: parseValue_skip)
qed simp

lemma digit_not_ws: "isDigit c \<Longrightarrow> \<not> isWs c \<and> c \<noteq> CHR ''{'' \<and> c \<noteq> CHR ''['' \<and> c \<noteq> CHR 0x22 \<and> c \<noteq> CHR '']''"
  by (auto simp: isWs_def isDigit_def code_def)

lemma primitive_first:
  "jPrimitive s \<Longrightarrow> \<exists>c r. s = c # r \<and> \<not> isWs c \<and> c \<notin> {CHR ''{'', CHR ''['', CHR 0x22, CHR '']''}"
proof -
  assume "jPrimitive s"
  then obtain c r where c: "s = c # r" "isDigit c \<or> c \<in> {CHR ''-'', CHR ''t'', CHR ''f'', CHR ''n''}"
    using primitive_start by blast
  have "\<not> isWs c \<and> c \<notin> {CHR ''{'', CHR ''['', CHR 0x22, CHR '']''}"
    using c(2) digit_not_ws [of c] by (elim disjE) auto
  with c(1) show ?thesis by blast
qed

lemma value_first: "jValue t x \<Longrightarrow> \<exists>c r. skipWhitespace (t @ s) = c # r \<and> c \<noteq> CHR '']''"
  by (erule jValue.cases) (auto simp: skip_ws skip_id dest!: jString_start primitive_first)

lemma items_first: "jItems t xs \<Longrightarrow> \<exists>c r. skipWhitespace (t @ s) = c # r \<and> c \<noteq> CHR '']''"
  by (erule jItems.cases) (simp, use value_first in blast)+

lemma members_first: "jMembers t ms \<Longrightarrow> \<exists>r. skipWhitespace (t @ s) = CHR 0x22 # r"
  by (erule jMembers.cases) (auto simp: skip_ws skip_id dest!: jString_start)

lemma follow_ws: "ws u \<Longrightarrow> c \<in> {CHR '','', CHR ''}'', CHR '']''} \<Longrightarrow> follow (u @ c # s)"
  by (cases u) (auto simp: follow_def ws_def)

text \<open>One round of each loop on a word of the grammar.\<close>

lemma membersLoop_round:
  assumes "ws w" and "jString k key" and "ws v" and "ws u" and "key \<notin> set keys"
    and "parseValue n (Suc d) (t @ u @ c # rest) = Inr (u @ c # rest)" and "\<not> isWs c"
  shows "membersLoop (Suc n) d keys (w @ k @ v @ CHR '':'' # t @ u @ c # rest) =
    (if c = CHR ''}'' then Inr rest
     else require (c = CHR '','') MembersNotSeparated (membersLoop n d (key # keys) rest))"
proof -
  obtain q where "k = CHR 0x22 # q" using jString_start [OF assms(2)] by blast
  then have "skipWhitespace (w @ k @ v @ CHR '':'' # t @ u @ c # rest) = k @ v @ CHR '':'' # t @ u @ c # rest"
    using assms(1) by (simp add: skip_ws skip_id)
  then show ?thesis using assms by (simp add: parseString_complete skip_ws skip_id)
qed

lemma itemsLoop_round:
  assumes "ws u" and "parseValue n (Suc d) (t @ u @ c # rest) = Inr (u @ c # rest)" and "\<not> isWs c"
  shows "itemsLoop (Suc n) d (t @ u @ c # rest) =
    (if c = CHR '']'' then Inr rest else require (c = CHR '','') ItemsNotSeparated (itemsLoop n d rest))"
  using assms by (simp add: skip_ws skip_id)

lemma scan_complete:
  "jValue t x \<Longrightarrow> length t < n \<Longrightarrow> fits d x \<Longrightarrow> follow rest \<Longrightarrow> parseValue n d (t @ rest) = Inr rest"
  "jMembers t ms \<Longrightarrow> length t < n \<Longrightarrow> distinct (map fst ms) \<Longrightarrow> set (map fst ms) \<inter> set keys = {}
     \<Longrightarrow> (\<forall>m \<in> set ms. fits (Suc d) (snd m)) \<Longrightarrow> membersLoop n d keys (t @ CHR ''}'' # rest) = Inr rest"
  "jItems t xs \<Longrightarrow> Suc (length t) < n \<Longrightarrow> (\<forall>y \<in> set xs. fits (Suc d) y)
     \<Longrightarrow> itemsLoop n d (t @ CHR '']'' # rest) = Inr rest"
proof (induction arbitrary: n d rest and n d keys rest and n d rest rule: jValue_jMembers_jItems.inducts)
  case (value_object0 w v)
  then show ?case by (cases n) (auto simp: fits_simps skip_ws skip_id)
next
  case (value_object w t ms)
  obtain m where m: "n = Suc m" "length t < m" using value_object.prems(1) by (cases n) auto
  obtain q where q: "skipWhitespace (t @ CHR ''}'' # rest) = CHR 0x22 # q" using members_first [OF value_object.hyps(2)] by blast
  have "membersLoop m d [] (t @ CHR ''}'' # rest) = Inr rest"
    using value_object.prems(2) m(2) by (intro value_object.IH) (auto simp: fits_simps)
  then have "membersLoop m d [] (skipWhitespace (t @ CHR ''}'' # rest)) = Inr rest"
    using membersLoop_skip [of "t @ CHR ''}'' # rest"] q by simp
  then show ?case using value_object.prems(2) value_object.hyps(1) m(1) q by (simp add: fits_simps skip_ws skip_id)
next
  case (value_array0 w v)
  then show ?case by (cases n) (auto simp: fits_simps skip_ws skip_id)
next
  case (value_array w t xs)
  obtain m where m: "n = Suc m" "Suc (length t) < m" using value_array.prems(1) by (cases n) auto
  obtain c q where q: "skipWhitespace (t @ CHR '']'' # rest) = c # q" "c \<noteq> CHR '']''" using items_first [OF value_array.hyps(2)] by blast
  have "itemsLoop m d (t @ CHR '']'' # rest) = Inr rest"
    using value_array.prems(2) m(2) by (intro value_array.IH) (auto simp: fits_simps)
  then have "itemsLoop m d (skipWhitespace (t @ CHR '']'' # rest)) = Inr rest"
    using itemsLoop_skip [of "t @ CHR '']'' # rest"] q by simp
  then show ?case using value_array.prems(2) value_array.hyps(1) m(1) q by (simp add: fits_simps skip_ws skip_id)
next
  case (value_string w s key)
  obtain q where "s = CHR 0x22 # q" using jString_start [OF value_string(2)] by blast
  with value_string parseString_complete [OF value_string(2), of rest] show ?case
    by (cases n) (auto simp: fits_simps skip_ws skip_id)
next
  case (value_primitive w s)
  obtain c q where "s = c # q" "\<not> isWs c" "c \<notin> {CHR ''{'', CHR ''['', CHR 0x22, CHR '']''}"
    using primitive_first [OF value_primitive(2)] by blast
  with value_primitive primitive_complete [OF value_primitive(2,5)] show ?case
    by (cases n) (auto simp: fits_simps skip_ws skip_id)
next
  case (members_one w s key v t x u)
  obtain m where m: "n = Suc m" "length t < m" using members_one.prems(1) by (cases n) auto
  have "parseValue m (Suc d) (t @ u @ CHR ''}'' # rest) = Inr (u @ CHR ''}'' # rest)"
    using members_one.prems m(2) members_one.hyps by (intro members_one.IH) (auto intro: follow_ws)
  with members_one m(1) show ?case by (simp add: membersLoop_round del: membersLoop.simps)
next
  case (members_more w s key v t x u r ms)
  obtain m where m: "n = Suc m" "length t < m" "length r < m" using members_more.prems(1) by (cases n) auto
  have "parseValue m (Suc d) (t @ u @ CHR '','' # r @ CHR ''}'' # rest) = Inr (u @ CHR '','' # r @ CHR ''}'' # rest)"
    using members_more.prems m(2) members_more.hyps by (intro members_more.IH(1)) (auto intro: follow_ws)
  moreover have "membersLoop m d (key # keys) (r @ CHR ''}'' # rest) = Inr rest"
    using members_more.prems m(3) by (intro members_more.IH(2)) auto
  ultimately show ?case using members_more.hyps members_more.prems m(1) by (simp add: membersLoop_round del: membersLoop.simps)
next
  case (items_one t x u)
  obtain m where m: "n = Suc m" "length t < m" using items_one.prems(1) by (cases n) auto
  have "parseValue m (Suc d) (t @ u @ CHR '']'' # rest) = Inr (u @ CHR '']'' # rest)"
    using items_one.prems m(2) items_one.hyps by (intro items_one.IH) (auto intro: follow_ws)
  with items_one m(1) show ?case by (simp add: itemsLoop_round del: itemsLoop.simps)
next
  case (items_more t x u r xs)
  obtain m where m: "n = Suc m" "length t < m" "Suc (length r) < m" using items_more.prems(1) by (cases n) auto
  have "parseValue m (Suc d) (t @ u @ CHR '','' # r @ CHR '']'' # rest) = Inr (u @ CHR '','' # r @ CHR '']'' # rest)"
    using items_more.prems m(2) items_more.hyps by (intro items_more.IH(1)) (auto intro: follow_ws)
  moreover have "itemsLoop m d (r @ CHR '']'' # rest) = Inr rest"
    using items_more.prems m(3) by (intro items_more.IH(2)) auto
  ultimately show ?case using items_more.hyps m(1) by (simp add: itemsLoop_round del: itemsLoop.simps)
qed


section \<open>Enough fuel\<close>

lemma stringLoop_length: "stringLoop s = Inr (b, r) \<Longrightarrow> length r < length s"
  using stringLoop_split [of s b r] by simp

lemma parseString_length: "parseString s = Inr (k, r) \<Longrightarrow> length r < length s"
  by (auto dest!: parseString_sound jString_start)

lemma parseValue_length: "parseValue n d s = Inr r \<Longrightarrow> length r \<le> length s"
  using scan_sound [of n] unfolding valueSound_def by fastforce

lemma parseString_fuel: "parseString s \<noteq> Inl OutOfFuel"
proof -
  have "stringLoop r \<noteq> Inl OutOfFuel" for r
    by (induction r rule: stringLoop.induct) (auto simp: andThen_Inl_iff Let_def)
  then show ?thesis by (auto simp: parseString_def andThen_Inl_iff require_def split: list.splits option.splits)
qed

lemma parsePrimitive_fuel: "parsePrimitive s \<noteq> Inl OutOfFuel"
  by (simp add: parsePrimitive_def split: option.splits)

lemma require_Inl_iff: "require c e k = Inl x \<longleftrightarrow> (\<not> c \<and> x = e) \<or> (c \<and> k = Inl x)"
  by (auto simp: require_def)

lemma scan_enough_fuel:
  "2 * length s < n \<Longrightarrow> parseValue n d s \<noteq> Inl OutOfFuel"
  "Suc (2 * length s) < n \<Longrightarrow> membersLoop n d keys s \<noteq> Inl OutOfFuel"
  "Suc (2 * length s) < n \<Longrightarrow> itemsLoop n d s \<noteq> Inl OutOfFuel"
proof (induction n arbitrary: s d keys)
  case (Suc n)
  {
    case 1
    define r where "r = skipWhitespace (drop 1 (skipWhitespace s))"
    have r: "Suc (2 * length r) < n" if "take 1 (skipWhitespace s) = [c]" for c
      using 1 skip_length [of s] skip_length [of "drop 1 (skipWhitespace s)"] that unfolding r_def
      by (cases "skipWhitespace s") auto
    show ?case unfolding parseValue.simps Let_def r_def [symmetric]
      using Suc.IH(2) [OF r, of _ d "[]"] Suc.IH(3) [OF r]
      by (auto simp: require_Inl_iff andThen_Inl_iff parseString_fuel parsePrimitive_fuel simp del: One_nat_def)
  next
    case 2
    { fix key r1 r3
      assume a: "parseString (skipWhitespace s) = Inr (key, r1)"
        and b: "parseValue n (Suc d) (drop 1 (skipWhitespace r1)) = Inr r3"
      have "Suc (2 * length (drop 1 (skipWhitespace r3))) < n"
        using parseString_length [OF a] parseValue_length [OF b] 2 skip_length [of s] skip_length [of r1] skip_length [of r3]
        by simp }
    moreover
    { fix key r1
      assume a: "parseString (skipWhitespace s) = Inr (key, r1)"
      have "2 * length (drop 1 (skipWhitespace r1)) < n"
        using parseString_length [OF a] 2 skip_length [of s] skip_length [of r1] by simp }
    ultimately show ?case
      using Suc.IH(1,2) by (auto simp: Let_def require_Inl_iff andThen_Inl_iff parseString_fuel)
  next
    case 3
    { fix r1
      assume "parseValue n (Suc d) s = Inr r1" and "take 1 (skipWhitespace r1) = '',''"
      then have "Suc (2 * length (drop 1 (skipWhitespace r1))) < n"
        using parseValue_length [of n "Suc d" s r1] 3 skip_length [of r1] by (cases "skipWhitespace r1") auto }
    then show ?case
      using Suc.IH(1) [of s "Suc d"] Suc.IH(3) 3 by (auto simp: Let_def require_Inl_iff andThen_Inl_iff)
  }
qed simp_all


section \<open>The scanner on canonical text\<close>

text \<open>The keys and the nesting of a value, and its tree. An object of the program never has a key twice.\<close>

fun uniqueKeys :: "json \<Rightarrow> bool" where
  "uniqueKeys (JArr xs) = list_all uniqueKeys xs"
| "uniqueKeys (JObj ms) = (distinct (map fst ms) \<and> list_all (\<lambda>m. uniqueKeys (snd m)) ms)"
| "uniqueKeys _ = True"

fun nesting :: "json \<Rightarrow> nat" where
  "nesting (JArr xs) = foldr max (map (\<lambda>x. Suc (nesting x)) xs) 0"
| "nesting (JObj ms) = foldr max (map (\<lambda>m. Suc (nesting (snd m))) ms) 0"
| "nesting _ = 0"

function treeOf :: "json \<Rightarrow> jtree" where
  "treeOf (JArr xs) = Items (map treeOf xs)"
| "treeOf (JObj ms) = Members (map (\<lambda>m. (map code (fst m), treeOf (snd m))) (sort_key fst ms))"
| "treeOf JNull = Atom" | "treeOf (JBool b) = Atom" | "treeOf (JNum n) = Atom" | "treeOf (JStr s) = Atom"
| "treeOf JInstance = Atom" | "treeOf JUndefined = Atom" | "treeOf JForeign = Atom"
  by pat_completeness auto
termination by size_change

lemma decode_escapeChar: "decodeString (escapeChar c @ r) = consUnit (Some (code c)) (decodeString r)"
proof -
  have c: "c = char_of (code c)" by (simp add: code_def)
  have n: "code c < 256" by (simp add: code_def)
  show ?thesis
  proof (cases "code c < 32 \<and> code c \<notin> {8, 9, 10, 12, 13}")
    case True
    then have e: "escapeChar c = [CHR 0x5C, CHR ''u'', CHR ''0'', CHR ''0'', hexDigit (code c div 16), hexDigit (code c mod 16)]"
      by (simp add: escapeChar_def hex4_def Let_def)
    have h: "hexVal (hexDigit (code c div 16)) = Some (code c div 16)" "hexVal (hexDigit (code c mod 16)) = Some (code c mod 16)"
      using n by (simp_all add: hexVal_hexDigit)
    have z: "hexVal (CHR ''0'') = Some 0" by (simp add: hexVal_def code_def)
    have b: "code (CHR 0x5C) = 92" by (simp add: code_def)
    show ?thesis unfolding e by (simp add: hexUnit_def h z b)
  next
    case False
    show ?thesis
    proof (cases "code c \<in> {34, 92, 8, 9, 10, 12, 13}")
      case True
      then show ?thesis
        by (auto simp: escapeChar_def simpleEscape_def Let_def code_def)
    next
      case plain: False
      with False have "escapeChar c = [c]" "\<not> code c < 32" by (auto simp: escapeChar_def Let_def)
      moreover have "c \<noteq> CHR 0x22" "c \<noteq> CHR 0x5C" using plain by (auto simp: code_def)
      ultimately show ?thesis by simp
    qed
  qed
qed

lemma decode_escape: "decodeString (concat (map escapeChar s)) = Some (map code s)"
  by (induction s) (simp_all add: decode_escapeChar)

lemma jString_jsonString: "jString (jsonString s) (map code s)"
  by (simp add: jString_def jsonString_def decode_escape)

lemma decStr_first: "n \<noteq> 0 \<Longrightarrow> hd (decStr n) \<noteq> CHR ''0''"
proof (induction n rule: decStr.induct)
  case (1 n)
  show ?case
  proof (cases "n < 10")
    case True
    then have "decStr n = [char_of (48 + n)]" and "code (char_of (48 + n)) \<noteq> code (CHR ''0'')"
      using 1(2) by (simp_all add: decStr.simps [of n] code_char_of) (simp add: code_def)
    then show ?thesis by (metis list.sel(1))
  next
    case False
    then have "hd (decStr (n div 10)) \<noteq> CHR ''0''" using 1 by simp
    moreover have "decStr (n div 10) \<noteq> []" using allDigits_decStr by (auto simp: allDigits_def)
    ultimately show ?thesis using False by (simp add: decStr.simps [of n])
  qed
qed

lemma jInteger_decStr: "jInteger (decStr n)"
proof (cases "n = 0")
  case True
  have "decStr 0 = ''0''" by code_simp
  with True show ?thesis by (simp add: jInteger_def)
next
  case False
  then show ?thesis using decStr_first allDigits_decStr by (auto simp: jInteger_def)
qed

lemma jNumber_jsonInt: "jNumber (jsonInt n)"
proof -
  have "jNumber (g @ decStr k)" if "g \<in> {[], ''-''}" for g k
    unfolding jNumber_def using that jInteger_decStr
    by (intro exI [of _ g] exI [of _ "decStr k"] exI [of _ "[]"]) (auto simp: jFraction_def jExponent_def)
  from this [of "''-''" "nat (- n)"] this [of "[]" "nat n"] show ?thesis by (simp add: jsonInt_def)
qed

lemma atom_text: "jString t k \<or> jPrimitive t \<Longrightarrow> jValue t Atom"
  using value_string [of "[]" t k] value_primitive [of "[]" t] by auto

lemma array_text:
  assumes "list_all2 jValue ts xs"
  shows "jValue (''['' @ joinComma ts @ '']'') (Items xs)"
proof (cases "ts = []")
  case True
  then show ?thesis using assms value_array0 [of "[]" "[]"] by simp
next
  case False
  from assms this have "jItems (joinComma ts) xs"
  proof (induction ts xs rule: list_all2_induct)
    case (Cons t ts x xs)
    then show ?case using items_one [of t x "[]"] items_more [of t x "[]"] by (cases ts) auto
  qed simp
  then show ?thesis using value_array [of "[]"] by simp
qed

lemma object_text:
  assumes "list_all2 (\<lambda>t (k, x). \<exists>s v. t = s @ '':'' @ v \<and> jString s k \<and> jValue v x) ts ms"
  shows "jValue (CHR ''{'' # joinComma ts @ ''}'') (Members ms)"
proof (cases "ts = []")
  case True
  then show ?thesis using assms value_object0 [of "[]" "[]"] by simp
next
  case False
  from assms this have "jMembers (joinComma ts) ms"
  proof (induction ts ms rule: list_all2_induct)
    case (Cons t ts m ms)
    obtain k x where m: "m = (k, x)" by (cases m)
    with Cons obtain s v where t: "t = s @ '':'' @ v" "jString s k" "jValue v x" by auto
    show ?case
    proof (cases ts)
      case Nil
      with Cons(2) have "ms = []" by simp
      then show ?thesis using Nil m t members_one [of "[]" s k "[]" v x "[]"] by simp
    next
      case (Cons t' ts')
      then have "jMembers (joinComma ts) ms" using Cons.IH by simp
      then show ?thesis using Cons m t members_more [of "[]" s k "[]" v x "[]"] by simp
    qed
  qed simp
  then show ?thesis using value_object [of "[]"] by simp
qed

lemma mapR_list_all2: "mapR f xs = Inr ys \<Longrightarrow> (\<And>x y. x \<in> set xs \<Longrightarrow> f x = Inr y \<Longrightarrow> P y (g x)) \<Longrightarrow> list_all2 P ys (map g xs)"
  by (induction xs arbitrary: ys) (auto simp: result_simps)

lemma canonicalJson_jValue: "canonicalJson v = Inr t \<Longrightarrow> jValue t (treeOf v)"
proof (induction v arbitrary: t rule: treeOf.induct)
  case (1 xs)
  then obtain ts where ts: "mapR canonicalJson xs = Inr ts" "t = ''['' @ joinComma ts @ '']''" by (auto simp: result_simps)
  have "list_all2 jValue ts (map treeOf xs)" by (rule mapR_list_all2 [OF ts(1)]) (rule 1(1))
  from array_text [OF this] ts(2) show ?case by simp
next
  case (2 ms)
  then obtain ts where ts: "mapR (\<lambda>m. require (snd m \<noteq> JUndefined) UndefinedMember
        (andThen (canonicalJson (snd m)) (\<lambda>t. Inr (jsonString (fst m) @ '':'' @ t)))) (sort_key fst ms) = Inr ts"
    "t = CHR ''{'' # joinComma ts @ ''}''" by (auto simp: result_simps)
  have "list_all2 (\<lambda>t (k, x). \<exists>s v. t = s @ '':'' @ v \<and> jString s k \<and> jValue v x) ts
      (map (\<lambda>m. (map code (fst m), treeOf (snd m))) (sort_key fst ms))"
  proof (rule mapR_list_all2 [OF ts(1)])
    fix m y
    assume "m \<in> set (sort_key fst ms)" and y: "require (snd m \<noteq> JUndefined) UndefinedMember
        (andThen (canonicalJson (snd m)) (\<lambda>t. Inr (jsonString (fst m) @ '':'' @ t))) = Inr y"
    from y obtain v where v: "canonicalJson (snd m) = Inr v" "y = jsonString (fst m) @ '':'' @ v" by (auto simp: result_simps)
    from 2(1) [OF _ v(1)] \<open>m \<in> _\<close> have "jValue v (treeOf (snd m))" by simp
    with v(2) jString_jsonString show "case (map code (fst m), treeOf (snd m)) of
        (k, x) \<Rightarrow> \<exists>s v. y = s @ '':'' @ v \<and> jString s k \<and> jValue v x" by auto
  qed
  from object_text [OF this] ts(2) show ?case by simp
qed (auto simp: result_simps intro!: atom_text jString_jsonString simp: jPrimitive_def jNumber_jsonInt)

lemma uniqueKeys_tree: "uniqueKeys v \<Longrightarrow> distinctKeys (treeOf v)"
proof (induction v rule: treeOf.induct)
  case (2 ms)
  have "inj_on (map code) A" for A :: "string set"
    by (intro inj_onI) (metis (mono_tags) code_inj inj_onI map_inj_on)
  moreover have "distinct (map fst (sort_key fst ms))" using 2(2) by (metis mset_eq_imp_distinct_iff mset_map mset_sort uniqueKeys.simps(2))
  ultimately have "distinct (map (map code) (map fst (sort_key fst ms)))" by (subst distinct_map) blast
  moreover have "\<forall>m \<in> set ms. distinctKeys (treeOf (snd m))" using 2 by (auto simp: list_all_iff)
  ultimately show ?case by (simp add: list_all_iff comp_def)
qed (simp_all add: list_all_iff)

lemma foldr_max_le: "foldr max xs 0 \<le> (n :: nat) \<longleftrightarrow> (\<forall>x \<in> set xs. x \<le> n)"
  by (induction xs) auto

lemma levels_tree: "levels (treeOf v) \<le> nesting v"
proof (induction v rule: treeOf.induct)
  case (1 xs)
  have "Suc (nesting x) \<le> nesting (JArr xs)" if "x \<in> set xs" for x
    using foldr_max_le [of "map (\<lambda>x. Suc (nesting x)) xs" "nesting (JArr xs)"] that by auto
  with 1 show ?case by (fastforce simp: foldr_max_le simp del: nesting.simps intro: order_trans)
next
  case (2 ms)
  have "Suc (nesting (snd m)) \<le> nesting (JObj ms)" if "m \<in> set ms" for m
    using foldr_max_le [of "map (\<lambda>m. Suc (nesting (snd m))) ms" "nesting (JObj ms)"] that by auto
  with 2 show ?case by (fastforce simp: foldr_max_le simp del: nesting.simps intro: order_trans)
qed simp_all

lemma scan_accepts:
  assumes "jValue t x" and "ws w" and "fits 0 x"
  shows "assertNoDuplicateJsonKeys (t @ w) = Inr ()"
proof -
  have "follow w" using assms(2) by (cases w) (auto simp: follow_def ws_def)
  with scan_complete(1) [OF assms(1) _ assms(3)] have "parseValue (Suc (2 * length (t @ w))) 0 (t @ w) = Inr w"
    by (simp del: parseValue.simps)
  moreover have "skipWhitespace w = []" using skip_ws [OF assms(2), of "[]"] by (simp add: skipWhitespace_def)
  ultimately show ?thesis by (simp add: assertNoDuplicateJsonKeys_def del: parseValue.simps)
qed


section \<open>Properties\<close>

text \<open>C8. The duplicate-key scan, exactly: it returns on the texts of the JSON grammar, with blanks around, in which no
  object repeats a decoded key and nothing lies more than 256 levels deep; on every other text it throws.\<close>

theorem scan_exact:
  "assertNoDuplicateJsonKeys source = Inr () \<longleftrightarrow>
     (\<exists>t w x. source = t @ w \<and> jValue t x \<and> ws w \<and> distinctKeys x \<and> levels x \<le> 256)"
proof
  assume "assertNoDuplicateJsonKeys source = Inr ()"
  then obtain rest where rest: "parseValue (Suc (2 * length source)) 0 source = Inr rest" "skipWhitespace rest = []"
    by (auto simp: assertNoDuplicateJsonKeys_def result_simps simp del: parseValue.simps)
  obtain t x where "source = t @ rest" "jValue t x" "fits 0 x"
    using scan_sound rest(1) unfolding valueSound_def by blast
  moreover have "ws rest" using skip_obtain [of rest] rest(2) by auto
  ultimately show "\<exists>t w x. source = t @ w \<and> jValue t x \<and> ws w \<and> distinctKeys x \<and> levels x \<le> 256"
    by (auto simp: fits_def MAX_STRICT_JSON_DEPTH_def)
next
  assume "\<exists>t w x. source = t @ w \<and> jValue t x \<and> ws w \<and> distinctKeys x \<and> levels x \<le> 256"
  then obtain t w x where "source = t @ w" "jValue t x" "ws w" "fits 0 x" by (auto simp: fits_def MAX_STRICT_JSON_DEPTH_def)
  then show "assertNoDuplicateJsonKeys source = Inr ()" using scan_accepts by simp
qed

text \<open>C40. The scan always ends: the fuel of the model never runs out, on any text.\<close>

theorem scan_total: "assertNoDuplicateJsonKeys source \<noteq> Inl OutOfFuel"
  unfolding assertNoDuplicateJsonKeys_def
  using scan_enough_fuel(1) [of source "Suc (2 * length source)" 0]
  by (simp add: andThen_Inl_iff require_Inl_iff del: parseValue.simps)

text \<open>What one half of the strict JSON module writes the other half accepts: the canonical text of a value whose
  objects have no key twice, nested at most 256 levels deep, passes the scan.\<close>

theorem canonicalJson_scans:
  assumes "canonicalJson v = Inr t" and "uniqueKeys v" and "nesting v \<le> 256"
  shows "assertNoDuplicateJsonKeys t = Inr ()"
proof -
  have "jValue t (treeOf v)" by (rule canonicalJson_jValue) (rule assms)
  moreover have "fits 0 (treeOf v)"
    using uniqueKeys_tree [OF assms(2)] levels_tree [of v] assms(3) by (simp add: fits_def MAX_STRICT_JSON_DEPTH_def)
  ultimately show ?thesis using scan_accepts [of t "treeOf v" "[]"] by simp
qed

definition demoObject :: json where
  "demoObject = JObj [(''b'', JArr [JNum (-5), JBool True, JNull]), (''a'', JStr [CHR 0x0A, CHR 0x22])]"

theorem canonicalJson_scans_witness:
  "\<exists>t. canonicalJson demoObject = Inr t \<and> assertNoDuplicateJsonKeys t = Inr ()"
proof -
  have "isOk (canonicalJson demoObject)" unfolding demoObject_def
    by (intro canonicalJson_object_ok) (auto simp: safe_defs require_def)
  then obtain t where t: "canonicalJson demoObject = Inr t" by (auto simp: isOk_iff)
  have "uniqueKeys demoObject" "nesting demoObject \<le> 256" by (simp_all add: demoObject_def)
  with canonicalJson_scans [OF t] t show ?thesis by blast
qed

text \<open>Keys are compared after decoding: \<^verbatim>\<open>{"a":1,"\u0061":2}\<close> repeats a key.\<close>

definition demoEscaped :: string where
  "demoEscaped = concat [''{'', [CHR 0x22], ''a'', [CHR 0x22], '':1,'', [CHR 0x22, CHR 0x5C], ''u0061'', [CHR 0x22], '':2}'']"

lemma scan_decodes_keys: "assertNoDuplicateJsonKeys demoEscaped = Inl (DuplicateKey [97])"
  by code_simp

end
