(* ===== verification/Candidate_Reconciliation.thy ===== *)
theory Candidate_Reconciliation
  imports Port_Run
begin

text \<open>
  Reconciliation of authenticated settlement candidates
  (\<^verbatim>\<open>relayer-core/authenticated-settlement-candidate-reconciliation.ts\<close>), run by the daemon before it settles:
  every active candidate is checked against its burn and its Ergo inputs, and the cache of revalidations keeps
  an entry only for a candidate that passed.

  Journal, observers and revalidator are ports that may throw. The cache is the \<^verbatim>\<open>Map\<close> the daemon passes,
  an association list in insertion order. A peg-out row is opaque, a type parameter. The log callback has no
  influence on the run and is left out.
\<close>

section \<open>Definitions\<close>

datatype burn_status = burn_confirmed | burn_reverted | burn_unknown | burn_other string

record candidate =
  candidateId :: string
  burnId :: string
  anchorHeaderHeight :: int
  anchorHeaderId :: string
  trackerBoxId :: string
  dupInputBoxId :: string
  vaultBoxId :: string

record ergo_observation =
  oAnchorHeaderId :: string
  trackerBoxPresent :: bool
  dupBoxPresent :: bool
  vaultBoxPresent :: bool

record revalidation =
  rvExpectedTxId :: string
  rvRevalidationDigestHex :: string

type_synonym revalidation_cache = "(string \<times> revalidation) list"

record reconciliation_result =
  activeCandidates :: int
  prunedRevalidations :: int
  retainedRevalidations :: int
  refreshedRevalidations :: int
  deferredCandidates :: int
  invalidatedCandidates :: int
  revertedBurns :: int

datatype reconciliation_error = UnsupportedBurnStatus string | PortThrew string

text \<open>The calls on the ports, each with its answer.\<close>

datatype 'p reconciliation_call =
    ListActive "string + candidate list"
  | FindPegOut string "string + 'p option"
  | ObserveBurn 'p "string + burn_status"
  | ObserveInputs candidate "string + ergo_observation"
  | Invalidate string string "string + unit"
  | MarkReverted string string "string + unit"
  | Recollect candidate 'p "string + revalidation option"

record ('w, 'p) reconciliation_ports =
  listActiveCandidates :: "('w, candidate list) port"
  findPegOutByBurnId :: "string \<Rightarrow> ('w, 'p option) port"
  invalidateCandidate :: "string \<Rightarrow> string \<Rightarrow> ('w, unit) port"
  markBurnRevertedAndInvalidateCandidates :: "string \<Rightarrow> string \<Rightarrow> ('w, unit) port"
  observeBurn :: "'p \<Rightarrow> ('w, burn_status) port"
  observeErgoInputs :: "candidate \<Rightarrow> ('w, ergo_observation) port"
  recollect :: "candidate \<Rightarrow> 'p \<Rightarrow> ('w, revalidation option) port"

record ('w, 'p) reconciliation_run = "('w, 'p reconciliation_call) port_run" +
  revalidations :: revalidation_cache

type_synonym ('w, 'p, 'a) reconciliation = "(('w, 'p) reconciliation_run, reconciliation_error, 'a) action"

text \<open>\<^verbatim>\<open>Map\<close>: a new key goes last, an old one keeps its place.\<close>

definition cacheDelete :: "string \<Rightarrow> revalidation_cache \<Rightarrow> revalidation_cache" where
  "cacheDelete k m = filter (\<lambda>e. fst e \<noteq> k) m"

definition cacheHas :: "string \<Rightarrow> revalidation_cache \<Rightarrow> bool" where
  "cacheHas k m = List.member (map fst m) k"

fun cacheSet :: "string \<Rightarrow> revalidation \<Rightarrow> revalidation_cache \<Rightarrow> revalidation_cache" where
  "cacheSet k v [] = [(k, v)]"
| "cacheSet k v (e # m) = (if fst e = k then (k, v) # m else e # cacheSet k v m)"

definition normalizeHash :: "string \<Rightarrow> string" where
  "normalizeHash value = lowerStr (strip0x value)"

definition staleInputReasons :: "candidate \<Rightarrow> ergo_observation \<Rightarrow> string list" where
  "staleInputReasons c ob =
     (if normalizeHash (oAnchorHeaderId ob) \<noteq> anchorHeaderId c then [''Ergo anchor header left the canonical chain''] else [])
   @ (if \<not> trackerBoxPresent ob then [''authenticated tracker data input is spent or missing''] else [])
   @ (if \<not> dupBoxPresent ob then [''authenticated DUP input is spent or missing''] else [])
   @ (if \<not> vaultBoxPresent ob then [''settlement vault input is spent or missing''] else [])"

fun joinReasons :: "string list \<Rightarrow> string" where
  "joinReasons [] = []"
| "joinReasons [x] = x"
| "joinReasons (x # y # r) = x @ ''; '' @ joinReasons (y # r)"

definition forget :: "candidate \<Rightarrow> ('w, 'p, unit) reconciliation" where
  "forget c = modifyA (\<lambda>s. s \<lparr> revalidations := cacheDelete (candidateId c) (revalidations s) \<rparr>)"

definition deferCandidate :: "candidate \<Rightarrow> reconciliation_result \<Rightarrow> ('w, 'p, reconciliation_result) reconciliation" where
  "deferCandidate c r = bindA (forget c) (\<lambda>_. returnA (r \<lparr> deferredCandidates := deferredCandidates r + 1 \<rparr>))"

definition invalidate :: "('w, 'p) reconciliation_ports \<Rightarrow> candidate \<Rightarrow> string \<Rightarrow> reconciliation_result
    \<Rightarrow> ('w, 'p, reconciliation_result) reconciliation" where
  "invalidate ports c reason r =
     bindA (forget c) (\<lambda>_.
     bindA (portAction PortThrew (Invalidate (candidateId c) reason) (invalidateCandidate ports (candidateId c) reason)) (\<lambda>_.
     returnA (r \<lparr> invalidatedCandidates := invalidatedCandidates r + 1 \<rparr>)))"

text \<open>From the second source on: the Ergo inputs, the cache, the fresh revalidation.\<close>

definition revalidateStep :: "('w, 'p) reconciliation_ports \<Rightarrow> candidate \<Rightarrow> 'p \<Rightarrow> reconciliation_result
    \<Rightarrow> ('w, 'p, reconciliation_result) reconciliation" where
  "revalidateStep ports c pegOut r = (\<lambda>s.
     if cacheHas (candidateId c) (revalidations s)
     then (Inr (r \<lparr> retainedRevalidations := retainedRevalidations r + 1 \<rparr>), s)
     else tryA
       (bindA (portAction PortThrew (Recollect c pegOut) (recollect ports c pegOut)) (\<lambda>answer. case answer of
            None \<Rightarrow> deferCandidate c r
          | Some revalidated \<Rightarrow>
              bindA (modifyA (\<lambda>s. s \<lparr> revalidations := cacheSet (candidateId c) revalidated (revalidations s) \<rparr>)) (\<lambda>_.
              returnA (r \<lparr> refreshedRevalidations := refreshedRevalidations r + 1 \<rparr>))))
       (\<lambda>_. deferCandidate c r) s)"

definition observeStep :: "('w, 'p) reconciliation_ports \<Rightarrow> candidate \<Rightarrow> 'p \<Rightarrow> reconciliation_result
    \<Rightarrow> ('w, 'p, reconciliation_result) reconciliation" where
  "observeStep ports c pegOut r =
     bindA (tryA
        (bindA (portAction PortThrew (ObserveInputs c) (observeErgoInputs ports c)) (\<lambda>ob. returnA (Some ob)))
        (\<lambda>_. returnA None)) (\<lambda>observed. case observed of
       None \<Rightarrow> deferCandidate c r
     | Some ob \<Rightarrow>
         if staleInputReasons c ob \<noteq> [] then invalidate ports c (joinReasons (staleInputReasons c ob)) r
         else revalidateStep ports c pegOut r)"

text \<open>The body of the loop over the candidates; \<^verbatim>\<open>continue\<close> returns the counters.\<close>

definition processCandidate :: "('w, 'p) reconciliation_ports \<Rightarrow> reconciliation_result \<Rightarrow> candidate
    \<Rightarrow> ('w, 'p, reconciliation_result) reconciliation" where
  "processCandidate ports r c =
     bindA (portAction PortThrew (FindPegOut (burnId c)) (findPegOutByBurnId ports (burnId c))) (\<lambda>found. case found of
       None \<Rightarrow> invalidate ports c ''persisted peg-out row is unavailable'' r
     | Some pegOut \<Rightarrow>
         bindA (portAction PortThrew (ObserveBurn pegOut) (observeBurn ports pegOut)) (\<lambda>status. case status of
             burn_reverted \<Rightarrow>
               bindA (forget c) (\<lambda>_.
               bindA (portAction PortThrew
                   (MarkReverted (burnId c) ''candidate burn no longer matches the required source observation'')
                   (markBurnRevertedAndInvalidateCandidates ports (burnId c)
                      ''candidate burn no longer matches the required source observation'')) (\<lambda>_.
               returnA (r \<lparr> revertedBurns := revertedBurns r + 1 \<rparr>)))
           | burn_unknown \<Rightarrow> deferCandidate c r
           | burn_other st \<Rightarrow> throwA (UnsupportedBurnStatus st)
           | burn_confirmed \<Rightarrow> observeStep ports c pegOut r))"

fun candidatesLoop :: "('w, 'p) reconciliation_ports \<Rightarrow> reconciliation_result \<Rightarrow> candidate list
    \<Rightarrow> ('w, 'p, reconciliation_result) reconciliation" where
  "candidatesLoop ports r [] = returnA r"
| "candidatesLoop ports r (c # rest) = bindA (processCandidate ports r c) (\<lambda>r'. candidatesLoop ports r' rest)"

definition pruneLoop :: "string list \<Rightarrow> revalidation_cache \<Rightarrow> int \<times> revalidation_cache" where
  "pruneLoop active m = foldl (\<lambda>(n, m') k. if \<not> List.member active k then (n + 1, cacheDelete k m') else (n, m'))
     (0, m) (map fst m)"

definition reconcileAuthenticatedSettlementCandidates :: "('w, 'p) reconciliation_ports
    \<Rightarrow> ('w, 'p, reconciliation_result) reconciliation" where
  "reconcileAuthenticatedSettlementCandidates ports =
     bindA (portAction PortThrew ListActive (listActiveCandidates ports)) (\<lambda>candidates. \<lambda>s.
     let (pruned, m) = pruneLoop (map candidateId candidates) (revalidations s) in
     candidatesLoop ports
       \<lparr> activeCandidates = int (length candidates), prunedRevalidations = pruned, retainedRevalidations = 0,
         refreshedRevalidations = 0, deferredCandidates = 0, invalidatedCandidates = 0, revertedBurns = 0 \<rparr>
       candidates (s \<lparr> revalidations := m \<rparr>))"


section \<open>The cache\<close>

lemma cacheDelete_set: "set (cacheDelete k m) = {e \<in> set m. fst e \<noteq> k}"
  by (simp add: cacheDelete_def)

lemma cacheSet_set: "e \<in> set (cacheSet k v m) \<Longrightarrow> e = (k, v) \<or> e \<in> set m"
  by (induction m) (auto split: if_splits)

lemma cacheSet_fresh: "\<not> cacheHas k m \<Longrightarrow> cacheSet k v m = m @ [(k, v)]"
  by (induction m) (auto simp: cacheHas_def)

lemma pruneLoop_set: "e \<in> set (snd (pruneLoop active m)) \<longleftrightarrow> e \<in> set m \<and> fst e \<in> set active"
proof -
  have "set (snd (foldl (\<lambda>(n, m') k. if k \<notin> set active then (n + 1, cacheDelete k m') else (n, m')) (n, m') ks))
     = {e \<in> set m'. fst e \<in> set ks \<longrightarrow> fst e \<in> set active}" for n :: int and m' ks
    by (induction ks arbitrary: n m') (auto simp: cacheDelete_set)
  from this [of 0 m "map fst m"] show ?thesis by (auto simp: pruneLoop_def)
qed


section \<open>One candidate\<close>

text \<open>Every way through the body of the loop: the calls it makes, what it leaves in the cache, the counter it raises.\<close>

abbreviation missingReason :: string where
  "missingReason \<equiv> ''persisted peg-out row is unavailable''"

abbreviation revertedReason :: string where
  "revertedReason \<equiv> ''candidate burn no longer matches the required source observation''"

definition writeResult :: "string + unit \<Rightarrow> reconciliation_result \<Rightarrow> reconciliation_error + reconciliation_result" where
  "writeResult a r = (case a of Inl e \<Rightarrow> Inl (PortThrew e) | Inr _ \<Rightarrow> Inr r)"

lemma invalidate_effect:
  assumes "invalidate ports c reason r s = (q, s')"
  shows "\<exists>a. calls s' = calls s @ [Invalidate (candidateId c) reason a]
    \<and> revalidations s' = cacheDelete (candidateId c) (revalidations s)
    \<and> q = writeResult a (r \<lparr> invalidatedCandidates := invalidatedCandidates r + 1 \<rparr>)"
proof -
  obtain a w where "invalidateCandidate ports (candidateId c) reason (world s) = (a, w)" by fastforce
  with assms show ?thesis by (intro exI [of _ a]) (cases a; auto simp: invalidate_def forget_def action_defs writeResult_def)
qed

lemma defer_effect:
  "deferCandidate c r s = (Inr (r \<lparr> deferredCandidates := deferredCandidates r + 1 \<rparr>),
     s \<lparr> revalidations := cacheDelete (candidateId c) (revalidations s) \<rparr>)"
  by (simp add: deferCandidate_def forget_def action_defs)

definition passedChecks :: "candidate \<Rightarrow> 'p \<Rightarrow> ergo_observation \<Rightarrow> 'p reconciliation_call list" where
  "passedChecks c p ob = [FindPegOut (burnId c) (Inr (Some p)), ObserveBurn p (Inr burn_confirmed), ObserveInputs c (Inr ob)]"

lemma revalidateStep_cases:
  assumes "revalidateStep ports c p r s = (q, s')"
  obtains (retained) "cacheHas (candidateId c) (revalidations s)" and "s' = s"
    and "q = Inr (r \<lparr> retainedRevalidations := retainedRevalidations r + 1 \<rparr>)"
  | (refreshed) v where "calls s' = calls s @ [Recollect c p (Inr (Some v))]"
    and "revalidations s' = cacheSet (candidateId c) v (revalidations s)"
    and "q = Inr (r \<lparr> refreshedRevalidations := refreshedRevalidations r + 1 \<rparr>)"
  | (deferred) a where "calls s' = calls s @ [Recollect c p a]"
    and "revalidations s' = cacheDelete (candidateId c) (revalidations s)"
    and "q = Inr (r \<lparr> deferredCandidates := deferredCandidates r + 1 \<rparr>)"
proof (cases "cacheHas (candidateId c) (revalidations s)")
  case False
  obtain a w where a: "recollect ports c p (world s) = (a, w)" by fastforce
  have run: "(q, s') = (case a of
      Inl e \<Rightarrow> deferCandidate c r (s \<lparr> world := w, calls := calls s @ [Recollect c p a] \<rparr>)
    | Inr None \<Rightarrow> deferCandidate c r (s \<lparr> world := w, calls := calls s @ [Recollect c p a] \<rparr>)
    | Inr (Some v) \<Rightarrow> (Inr (r \<lparr> refreshedRevalidations := refreshedRevalidations r + 1 \<rparr>),
        s \<lparr> world := w, calls := calls s @ [Recollect c p a], revalidations := cacheSet (candidateId c) v (revalidations s) \<rparr>))"
    using assms False a by (auto simp: revalidateStep_def action_defs defer_effect split: sum.splits option.splits)
  show thesis using run that(2,3) by (auto simp: defer_effect split: sum.splits option.splits)
next
  case True
  with assms have "s' = s" "q = Inr (r \<lparr> retainedRevalidations := retainedRevalidations r + 1 \<rparr>)"
    by (simp_all add: revalidateStep_def)
  with True show thesis by (intro that(1))
qed

fun isRead :: "'p reconciliation_call \<Rightarrow> bool" where
  "isRead (Invalidate _ _ _) = False"
| "isRead (MarkReverted _ _ _) = False"
| "isRead _ = True"

lemma observeStep_cases:
  assumes "observeStep ports c p r s = (q, s')"
  obtains (deferred) tr where "calls s' = calls s @ tr" and "list_all isRead tr"
    and "revalidations s' = cacheDelete (candidateId c) (revalidations s)"
    and "q = Inr (r \<lparr> deferredCandidates := deferredCandidates r + 1 \<rparr>)"
  | (stale) ob a where "calls s' = calls s @ [ObserveInputs c (Inr ob), Invalidate (candidateId c) (joinReasons (staleInputReasons c ob)) a]"
    and "staleInputReasons c ob \<noteq> []" and "revalidations s' = cacheDelete (candidateId c) (revalidations s)"
    and "q = writeResult a (r \<lparr> invalidatedCandidates := invalidatedCandidates r + 1 \<rparr>)"
  | (retained) ob where "calls s' = calls s @ [ObserveInputs c (Inr ob)]" and "staleInputReasons c ob = []"
    and "revalidations s' = revalidations s"
    and "q = Inr (r \<lparr> retainedRevalidations := retainedRevalidations r + 1 \<rparr>)"
  | (refreshed) ob v where "calls s' = calls s @ [ObserveInputs c (Inr ob), Recollect c p (Inr (Some v))]"
    and "staleInputReasons c ob = []" and "revalidations s' = cacheSet (candidateId c) v (revalidations s)"
    and "q = Inr (r \<lparr> refreshedRevalidations := refreshedRevalidations r + 1 \<rparr>)"
proof -
  obtain a w where a: "observeErgoInputs ports c (world s) = (a, w)" by fastforce
  define s1 where "s1 = s \<lparr> world := w, calls := calls s @ [ObserveInputs c a] \<rparr>"
  have s1: "calls s1 = calls s @ [ObserveInputs c a]" "revalidations s1 = revalidations s" by (simp_all add: s1_def)
  show thesis
  proof (cases a)
    case (Inl e)
    with assms a show thesis by (intro that(1)) (auto simp: observeStep_def action_defs deferCandidate_def forget_def)
  next
    case (Inr ob)
    have step: "(if staleInputReasons c ob \<noteq> [] then invalidate ports c (joinReasons (staleInputReasons c ob)) r
        else revalidateStep ports c p r) s1 = (q, s')"
      using assms a Inr by (simp add: observeStep_def action_defs s1_def)
    show thesis
    proof (cases "staleInputReasons c ob = []")
      case False
      with step have "invalidate ports c (joinReasons (staleInputReasons c ob)) r s1 = (q, s')" by simp
      from invalidate_effect [OF this] False s1 Inr show thesis by (auto intro: that(2))
    next
      case True
      with step have "revalidateStep ports c p r s1 = (q, s')" by simp
      then show thesis
      proof (cases rule: revalidateStep_cases)
        case retained
        with s1 True Inr show thesis by (intro that(3)) auto
      next
        case (refreshed v)
        with s1 True Inr show thesis by (intro that(4)) auto
      next
        case (deferred x)
        with s1 show thesis by (intro that(1)) auto
      qed
    qed
  qed
qed

lemma processCandidate_cases:
  assumes "processCandidate ports r c s = (q, s')"
  obtains (aborted) tr e where "calls s' = calls s @ tr" and "list_all isRead tr" and "revalidations s' = revalidations s"
    and "q = Inl e"
  | (missing) a where "calls s' = calls s @ [FindPegOut (burnId c) (Inr None), Invalidate (candidateId c) missingReason a]"
    and "revalidations s' = cacheDelete (candidateId c) (revalidations s)"
    and "q = writeResult a (r \<lparr> invalidatedCandidates := invalidatedCandidates r + 1 \<rparr>)"
  | (reverted) p a where "calls s' = calls s @ [FindPegOut (burnId c) (Inr (Some p)), ObserveBurn p (Inr burn_reverted),
        MarkReverted (burnId c) revertedReason a]"
    and "revalidations s' = cacheDelete (candidateId c) (revalidations s)"
    and "q = writeResult a (r \<lparr> revertedBurns := revertedBurns r + 1 \<rparr>)"
  | (deferred) tr where "calls s' = calls s @ tr" and "list_all isRead tr"
    and "revalidations s' = cacheDelete (candidateId c) (revalidations s)"
    and "q = Inr (r \<lparr> deferredCandidates := deferredCandidates r + 1 \<rparr>)"
  | (stale) p ob a where "calls s' = calls s @ passedChecks c p ob @ [Invalidate (candidateId c) (joinReasons (staleInputReasons c ob)) a]"
    and "staleInputReasons c ob \<noteq> []" and "revalidations s' = cacheDelete (candidateId c) (revalidations s)"
    and "q = writeResult a (r \<lparr> invalidatedCandidates := invalidatedCandidates r + 1 \<rparr>)"
  | (retained) p ob where "calls s' = calls s @ passedChecks c p ob" and "staleInputReasons c ob = []"
    and "revalidations s' = revalidations s"
    and "q = Inr (r \<lparr> retainedRevalidations := retainedRevalidations r + 1 \<rparr>)"
  | (refreshed) p ob v where "calls s' = calls s @ passedChecks c p ob @ [Recollect c p (Inr (Some v))]"
    and "staleInputReasons c ob = []" and "revalidations s' = cacheSet (candidateId c) v (revalidations s)"
    and "q = Inr (r \<lparr> refreshedRevalidations := refreshedRevalidations r + 1 \<rparr>)"
proof -
  obtain f w1 where f: "findPegOutByBurnId ports (burnId c) (world s) = (f, w1)" by fastforce
  define s1 where "s1 = s \<lparr> world := w1, calls := calls s @ [FindPegOut (burnId c) f] \<rparr>"
  consider (threw) e where "f = Inl e" | (none) "f = Inr None" | (some) p where "f = Inr (Some p)"
    by (cases f) (auto split: option.splits)
  then show thesis
  proof cases
    case threw
    with assms f show thesis by (intro that(1)) (auto simp: processCandidate_def action_defs)
  next
    case none
    with assms f have "invalidate ports c missingReason r s1 = (q, s')" by (simp add: processCandidate_def action_defs s1_def)
    from invalidate_effect [OF this] none show thesis by (auto intro: that(2) simp: s1_def)
  next
    case (some p)
    obtain b w2 where b: "observeBurn ports p w1 = (b, w2)" by fastforce
    define s2 where "s2 = s1 \<lparr> world := w2, calls := calls s1 @ [ObserveBurn p b] \<rparr>"
    have s2: "calls s2 = calls s @ [FindPegOut (burnId c) (Inr (Some p)), ObserveBurn p b]" "revalidations s2 = revalidations s"
      "world s2 = w2" using some by (simp_all add: s1_def s2_def)
    note run = assms [unfolded processCandidate_def]
    consider (bthrew) e where "b = Inl e" | (other) st where "b = Inr (burn_other st)" | (rev) "b = Inr burn_reverted"
      | (unk) "b = Inr burn_unknown" | (conf) "b = Inr burn_confirmed"
      by (cases b) (auto split: burn_status.splits, metis burn_status.exhaust)
    then show thesis
    proof cases
      case bthrew
      with run f b some show thesis by (intro that(1)) (auto simp: action_defs)
    next
      case other
      with run f b some show thesis by (intro that(1)) (auto simp: action_defs)
    next
      case rev
      obtain a w3 where a: "markBurnRevertedAndInvalidateCandidates ports (burnId c) revertedReason w2 = (a, w3)" by fastforce
      show thesis using run f b some rev a
        by (intro that(3) [of p a]) (cases a; auto simp: action_defs forget_def writeResult_def)+
    next
      case unk
      with run f b some show thesis by (intro that(4)) (auto simp: action_defs deferCandidate_def forget_def)
    next
      case conf
      with run f b some have "observeStep ports c p r s2 = (q, s')" by (simp add: action_defs s1_def s2_def)
      then show thesis
      proof (cases rule: observeStep_cases)
        case (deferred tr)
        with s2 show thesis
          by (intro that(4) [of "[FindPegOut (burnId c) (Inr (Some p)), ObserveBurn p b] @ tr"]) simp_all
      next
        case (stale ob a)
        with s2 conf show thesis by (intro that(5) [of p ob a]) (simp_all add: passedChecks_def)
      next
        case (retained ob)
        with s2 conf show thesis by (intro that(6) [of p ob]) (simp_all add: passedChecks_def)
      next
        case (refreshed ob v)
        with s2 conf show thesis by (intro that(7) [of p ob v]) (simp_all add: passedChecks_def)
      qed
    qed
  qed
qed


section \<open>The whole run\<close>

text \<open>The evidence of a run for a candidate: its peg-out row, a confirmed burn, and Ergo inputs with nothing stale.\<close>

definition fresh :: "'p reconciliation_call list \<Rightarrow> candidate \<Rightarrow> bool" where
  "fresh tr c \<longleftrightarrow> (\<exists>p ob. set (passedChecks c p ob) \<subseteq> set tr \<and> staleInputReasons c ob = [])"

definition recollected :: "'p reconciliation_call list \<Rightarrow> candidate \<Rightarrow> revalidation \<Rightarrow> bool" where
  "recollected tr c v \<longleftrightarrow> (\<exists>p. Recollect c p (Inr (Some v)) \<in> set tr)"

text \<open>A write to the journal with the evidence for it in the same run.\<close>

definition invalidJustified :: "'p reconciliation_call list \<Rightarrow> candidate \<Rightarrow> string \<Rightarrow> bool" where
  "invalidJustified tr c reason \<longleftrightarrow> (reason = missingReason \<and> FindPegOut (burnId c) (Inr None) \<in> set tr)
     \<or> (\<exists>p ob. set (passedChecks c p ob) \<subseteq> set tr \<and> staleInputReasons c ob \<noteq> []
          \<and> reason = joinReasons (staleInputReasons c ob))"

definition revertJustified :: "'p reconciliation_call list \<Rightarrow> candidate \<Rightarrow> bool" where
  "revertJustified tr c \<longleftrightarrow> (\<exists>p. FindPegOut (burnId c) (Inr (Some p)) \<in> set tr \<and> ObserveBurn p (Inr burn_reverted) \<in> set tr)"

fun justified :: "candidate list \<Rightarrow> 'p reconciliation_call list \<Rightarrow> 'p reconciliation_call \<Rightarrow> bool" where
  "justified cs tr (Invalidate k reason _) \<longleftrightarrow> (\<exists>c \<in> set cs. k = candidateId c \<and> invalidJustified tr c reason)"
| "justified cs tr (MarkReverted b _ _) \<longleftrightarrow> (\<exists>c \<in> set cs. b = burnId c \<and> revertJustified tr c)"
| "justified _ _ _ \<longleftrightarrow> True"

definition handled :: "reconciliation_result \<Rightarrow> int" where
  "handled r = retainedRevalidations r + refreshedRevalidations r + deferredCandidates r + invalidatedCandidates r + revertedBurns r"

lemma evidence_mono:
  assumes "set tr \<subseteq> set tr'"
  shows "fresh tr c \<Longrightarrow> fresh tr' c" "recollected tr c v \<Longrightarrow> recollected tr' c v"
    "invalidJustified tr c reason \<Longrightarrow> invalidJustified tr' c reason" "revertJustified tr c \<Longrightarrow> revertJustified tr' c"
  using assms unfolding fresh_def recollected_def invalidJustified_def revertJustified_def by (blast+)

lemma justified_mono: "justified cs tr x \<Longrightarrow> set cs \<subseteq> set cs' \<Longrightarrow> set tr \<subseteq> set tr' \<Longrightarrow> justified cs' tr' x"
  by (cases x) (auto dest: evidence_mono)

lemma read_justified: "isRead x \<Longrightarrow> justified cs tr x"
  by (cases x) auto

text \<open>What a part of the run did to the cache: an entry it added was recollected on fresh evidence, and an entry it
  left in place for one of its candidates has fresh evidence.\<close>

definition cacheNew :: "candidate list \<Rightarrow> 'p reconciliation_call list \<Rightarrow> revalidation_cache \<Rightarrow> revalidation_cache \<Rightarrow> bool" where
  "cacheNew cs tr m m' \<longleftrightarrow> (\<forall>e \<in> set m'. e \<in> set m
     \<or> (\<exists>c \<in> set cs. fst e = candidateId c \<and> fresh tr c \<and> recollected tr c (snd e)))"

definition cacheKept :: "candidate list \<Rightarrow> 'p reconciliation_call list \<Rightarrow> revalidation_cache \<Rightarrow> bool" where
  "cacheKept cs tr m \<longleftrightarrow> (\<forall>e \<in> set m. fst e \<in> candidateId ` set cs \<longrightarrow> (\<exists>c \<in> set cs. fst e = candidateId c \<and> fresh tr c))"

lemma cacheNew_append:
  assumes "cacheNew [c] tr1 m m1" and "cacheNew cs tr2 m1 m2"
  shows "cacheNew (c # cs) (tr1 @ tr2) m m2"
proof -
  have sub: "set tr1 \<subseteq> set (tr1 @ tr2)" "set tr2 \<subseteq> set (tr1 @ tr2)" by auto
  show ?thesis unfolding cacheNew_def
  proof
    fix e
    assume "e \<in> set m2"
    with assms(2) consider "e \<in> set m1"
      | d where "d \<in> set cs" "fst e = candidateId d" "fresh tr2 d" "recollected tr2 d (snd e)" by (auto simp: cacheNew_def)
    then show "e \<in> set m \<or> (\<exists>d \<in> set (c # cs). fst e = candidateId d \<and> fresh (tr1 @ tr2) d \<and> recollected (tr1 @ tr2) d (snd e))"
    proof cases
      case 1
      with assms(1) show ?thesis using evidence_mono(1,2) [OF sub(1)] by (auto simp: cacheNew_def)
    next
      case 2
      then show ?thesis using evidence_mono(1,2) [OF sub(2)] by auto
    qed
  qed
qed

lemma cacheKept_append:
  assumes "cacheKept [c] tr1 m1" and "cacheNew cs tr2 m1 m2" and "cacheKept cs tr2 m2"
  shows "cacheKept (c # cs) (tr1 @ tr2) m2"
  unfolding cacheKept_def
proof (intro ballI impI)
  fix e
  assume e: "e \<in> set m2" "fst e \<in> candidateId ` set (c # cs)"
  show "\<exists>d \<in> set (c # cs). fst e = candidateId d \<and> fresh (tr1 @ tr2) d"
  proof (cases "fst e \<in> candidateId ` set cs")
    case True
    with assms(3) e(1) obtain d where "d \<in> set cs" "fst e = candidateId d" "fresh tr2 d" by (auto simp: cacheKept_def)
    then show ?thesis using evidence_mono(1) [of tr2 "tr1 @ tr2"] by auto
  next
    case False
    with assms(2) e(1) have "e \<in> set m1" by (fastforce simp: cacheNew_def)
    with False e(2) assms(1) have "fst e = candidateId c" "fresh tr1 c" by (auto simp: cacheKept_def)
    then show ?thesis using evidence_mono(1) [of tr1 "tr1 @ tr2"] by auto
  qed
qed

lemma call_justified_append:
  assumes "\<forall>x \<in> set tr1. justified [c] tr1 x" and "\<forall>x \<in> set tr2. justified cs tr2 x"
  shows "\<forall>x \<in> set (tr1 @ tr2). justified (c # cs) (tr1 @ tr2) x"
  using assms justified_mono [of "[c]" tr1 _ "c # cs" "tr1 @ tr2"] justified_mono [of cs tr2 _ "c # cs" "tr1 @ tr2"]
  by fastforce

text \<open>One candidate, then the loop.\<close>

lemma processCandidate_spec:
  assumes "processCandidate ports r c s = (q, s')"
  shows "\<exists>tr. calls s' = calls s @ tr \<and> cacheNew [c] tr (revalidations s) (revalidations s')
    \<and> (isOk q \<longrightarrow> cacheKept [c] tr (revalidations s')) \<and> (\<forall>x \<in> set tr. justified [c] tr x)
    \<and> (\<forall>r'. q = Inr r' \<longrightarrow> handled r' = handled r + 1 \<and> activeCandidates r' = activeCandidates r)"
  using assms
proof (cases rule: processCandidate_cases)
  case (aborted tr e)
  then show ?thesis by (intro exI [of _ tr]) (auto simp: cacheNew_def list_all_iff intro: read_justified)
next
  case (missing a)
  then show ?thesis
    by (auto simp: cacheNew_def cacheKept_def cacheDelete_set invalidJustified_def handled_def writeResult_def split: sum.splits)
next
  case (reverted p a)
  then show ?thesis
    by (auto simp: cacheNew_def cacheKept_def cacheDelete_set revertJustified_def handled_def writeResult_def split: sum.splits)
next
  case (deferred tr)
  then show ?thesis
    by (intro exI [of _ tr]) (auto simp: cacheNew_def cacheKept_def list_all_iff cacheDelete_set handled_def intro: read_justified)
next
  case (stale p ob a)
  then show ?thesis
    by (intro exI [of _ "passedChecks c p ob @ [Invalidate (candidateId c) (joinReasons (staleInputReasons c ob)) a]"])
      (auto simp: cacheNew_def cacheKept_def cacheDelete_set invalidJustified_def handled_def writeResult_def passedChecks_def
        split: sum.splits)
next
  case (retained p ob)
  then have "fresh (passedChecks c p ob) c" by (auto simp: fresh_def)
  with retained show ?thesis
    by (intro exI [of _ "passedChecks c p ob"]) (auto simp: cacheNew_def cacheKept_def handled_def passedChecks_def)
next
  case (refreshed p ob v)
  have "fresh (passedChecks c p ob @ [Recollect c p (Inr (Some v))]) c"
    using refreshed(2) unfolding fresh_def by fastforce
  with refreshed show ?thesis
    by (intro exI [of _ "passedChecks c p ob @ [Recollect c p (Inr (Some v))]"])
      (auto simp: cacheNew_def cacheKept_def recollected_def handled_def passedChecks_def dest!: cacheSet_set)
qed

lemma candidatesLoop_spec:
  assumes "candidatesLoop ports r cs s = (q, s')"
  shows "\<exists>tr. calls s' = calls s @ tr \<and> cacheNew cs tr (revalidations s) (revalidations s')
    \<and> (isOk q \<longrightarrow> cacheKept cs tr (revalidations s')) \<and> (\<forall>x \<in> set tr. justified cs tr x)
    \<and> (\<forall>r'. q = Inr r' \<longrightarrow> handled r' = handled r + int (length cs) \<and> activeCandidates r' = activeCandidates r)"
  using assms
proof (induction cs arbitrary: r s)
  case Nil
  then show ?case by (auto simp: result_simps cacheNew_def cacheKept_def)
next
  case (Cons c cs)
  from Cons.prems have "bindA (processCandidate ports r c) (\<lambda>r'. candidatesLoop ports r' cs) s = (q, s')" by simp
  then show ?case
  proof (cases rule: bindA_cases)
    case (throw e)
    then obtain tr where tr: "calls s' = calls s @ tr" "cacheNew [c] tr (revalidations s) (revalidations s')"
      "\<forall>x \<in> set tr. justified [c] tr x" using processCandidate_spec by blast
    then show ?thesis using throw(2) call_justified_append [OF tr(3), of "[]" cs]
      by (intro exI [of _ tr]) (auto simp: cacheNew_def)
  next
    case (step r1 s1)
    from processCandidate_spec [OF step(1)] obtain tr1 where tr1: "calls s1 = calls s @ tr1"
      "cacheNew [c] tr1 (revalidations s) (revalidations s1)" "cacheKept [c] tr1 (revalidations s1)"
      "\<forall>x \<in> set tr1. justified [c] tr1 x" "handled r1 = handled r + 1" "activeCandidates r1 = activeCandidates r" by auto
    from Cons.IH [OF step(2)] obtain tr2 where tr2: "calls s' = calls s1 @ tr2"
      "cacheNew cs tr2 (revalidations s1) (revalidations s')" "isOk q \<longrightarrow> cacheKept cs tr2 (revalidations s')"
      "\<forall>x \<in> set tr2. justified cs tr2 x"
      "\<forall>r'. q = Inr r' \<longrightarrow> handled r' = handled r1 + int (length cs) \<and> activeCandidates r' = activeCandidates r1" by blast
    show ?thesis
    proof (intro exI [of _ "tr1 @ tr2"] conjI)
      show "calls s' = calls s @ tr1 @ tr2" using tr1(1) tr2(1) by simp
      show "cacheNew (c # cs) (tr1 @ tr2) (revalidations s) (revalidations s')" by (rule cacheNew_append [OF tr1(2) tr2(2)])
      show "isOk q \<longrightarrow> cacheKept (c # cs) (tr1 @ tr2) (revalidations s')"
        using cacheKept_append [OF tr1(3) tr2(2)] tr2(3) by blast
      show "\<forall>x \<in> set (tr1 @ tr2). justified (c # cs) (tr1 @ tr2) x" by (rule call_justified_append [OF tr1(4) tr2(4)])
      show "\<forall>r'. q = Inr r' \<longrightarrow> handled r' = handled r + int (length (c # cs)) \<and> activeCandidates r' = activeCandidates r"
      proof (intro allI impI)
        fix r'
        assume "q = Inr r'"
        with tr2(5) have "handled r' = handled r1 + int (length cs)" "activeCandidates r' = activeCandidates r1" by blast+
        with tr1(5,6) show "handled r' = handled r + int (length (c # cs)) \<and> activeCandidates r' = activeCandidates r" by simp
      qed
    qed
  qed
qed


section \<open>Properties\<close>

lemma candidates_pass_cases:
  assumes "reconcileAuthenticatedSettlementCandidates ports s = (q, s')"
  obtains (threw) e where "calls s' = calls s @ [ListActive (Inl e)]" and "revalidations s' = revalidations s" and "q = Inl (PortThrew e)"
  | (run) cs n m r s1 where "calls s1 = calls s @ [ListActive (Inr cs)]" and "pruneLoop (map candidateId cs) (revalidations s) = (n, m)"
    and "revalidations s1 = m" and "handled r = 0" and "activeCandidates r = int (length cs)"
    and "candidatesLoop ports r cs s1 = (q, s')"
  using assms unfolding reconcileAuthenticatedSettlementCandidates_def
proof (cases rule: bindA_cases)
  case (throw e)
  from throw(1) show thesis
  proof (cases rule: portAction_cases)
    case (threw m w)
    with throw(2) show thesis by (intro that(1) [of m]) simp_all
  qed simp
next
  case (step cs s1)
  obtain n m where p: "pruneLoop (map candidateId cs) (revalidations s1) = (n, m)" by fastforce
  from step(1) have s1: "calls s1 = calls s @ [ListActive (Inr cs)]" "revalidations s1 = revalidations s"
    by (auto elim!: portAction_cases)
  define r where "r = \<lparr> activeCandidates = int (length cs), prunedRevalidations = n, retainedRevalidations = 0,
    refreshedRevalidations = 0, deferredCandidates = 0, invalidatedCandidates = 0, revertedBurns = 0 \<rparr>"
  have "candidatesLoop ports r cs (s1 \<lparr> revalidations := m \<rparr>) = (q, s')" using step(2) p by (simp add: r_def)
  from that(2) [OF _ _ _ _ _ this] p s1 show thesis by (simp add: r_def handled_def)
qed

text \<open>C6. Reconciliation fails closed: when it returns, every revalidation left in the cache belongs to a candidate the
  journal listed as active whose peg-out row exists, whose burn was observed confirmed and whose Ergo inputs
  were observed with nothing stale, all in this run; and it was either there before or recollected in this run.
  Even when the run throws, nothing enters the cache in any other way.\<close>

theorem reconciliation_fails_closed:
  assumes "reconcileAuthenticatedSettlementCandidates ports s = (q, s')"
  shows "\<exists>cs tr. calls s' = calls s @ tr \<and> (isOk q \<longrightarrow> hd tr = ListActive (Inr cs)) \<and>
    (\<forall>(k, v) \<in> set (revalidations s').
       (isOk q \<longrightarrow> (\<exists>c \<in> set cs. k = candidateId c \<and> fresh tr c)) \<and>
       ((k, v) \<in> set (revalidations s) \<or> (\<exists>c \<in> set cs. k = candidateId c \<and> fresh tr c \<and> recollected tr c v)))"
  using assms
proof (cases rule: candidates_pass_cases)
  case (threw e)
  then show ?thesis by (intro exI [of _ "[]"] exI [of _ "[ListActive (Inl e)]"]) auto
next
  case (run cs n m r s1)
  from candidatesLoop_spec [OF run(6)] obtain tr where tr: "calls s' = calls s1 @ tr" "cacheNew cs tr m (revalidations s')"
    "isOk q \<longrightarrow> cacheKept cs tr (revalidations s')" unfolding run(3) by blast
  define t where "t = ListActive (Inr cs) # tr"
  have mono: "fresh tr c \<Longrightarrow> fresh t c" "recollected tr c v \<Longrightarrow> recollected t c v" for c v
    by (rule evidence_mono [of tr t]; auto simp: t_def)+
  have m: "e \<in> set m \<longleftrightarrow> e \<in> set (revalidations s) \<and> fst e \<in> candidateId ` set cs" for e
    using pruneLoop_set [of e "map candidateId cs" "revalidations s"] run(2) by simp
  have "(isOk q \<longrightarrow> (\<exists>c \<in> set cs. k = candidateId c \<and> fresh t c)) \<and>
      ((k, v) \<in> set (revalidations s) \<or> (\<exists>c \<in> set cs. k = candidateId c \<and> fresh t c \<and> recollected t c v))"
    if "(k, v) \<in> set (revalidations s')" for k v
    using that tr(2,3) m [of "(k, v)"] mono unfolding cacheNew_def cacheKept_def by fastforce
  moreover have "calls s' = calls s @ t" using run(1) tr(1) by (simp add: t_def)
  ultimately show ?thesis by (intro exI [of _ cs] exI [of _ t]) (auto simp: t_def)
qed

text \<open>The journal is written on evidence only, and every active candidate is accounted for: each invalidation has,
  in the same run, a missing peg-out row or an observation with the stale inputs it names; each revert has a
  burn observed as reverted (an observer that throws or does not know changes nothing in the journal); when the
  run returns, the five outcomes add up to the number of active candidates.\<close>

theorem reconciliation_justified:
  assumes "reconcileAuthenticatedSettlementCandidates ports s = (q, s')"
  shows "\<exists>cs tr. calls s' = calls s @ tr \<and> (\<forall>x \<in> set tr. justified cs tr x) \<and>
    (\<forall>r. q = Inr r \<longrightarrow> hd tr = ListActive (Inr cs) \<and> activeCandidates r = int (length cs) \<and> handled r = activeCandidates r)"
  using assms
proof (cases rule: candidates_pass_cases)
  case (threw e)
  then show ?thesis by (intro exI [of _ "[]"] exI [of _ "[ListActive (Inl e)]"]) auto
next
  case (run cs n m r s1)
  from candidatesLoop_spec [OF run(6)] obtain tr where tr: "calls s' = calls s1 @ tr" "\<forall>x \<in> set tr. justified cs tr x"
    "\<forall>r'. q = Inr r' \<longrightarrow> handled r' = handled r + int (length cs) \<and> activeCandidates r' = activeCandidates r" by blast
  have "\<forall>x \<in> set (ListActive (Inr cs) # tr). justified cs (ListActive (Inr cs) # tr) x"
    using tr(2) justified_mono [of cs tr _ cs "ListActive (Inr cs) # tr"] by auto
  with tr(1,3) run(1,4,5) show ?thesis by (intro exI [of _ cs] exI [of _ "ListActive (Inr cs) # tr"]) simp
qed


section \<open>A concrete run\<close>

text \<open>Two candidates: the burn of the first is confirmed with live inputs, the row of the second is gone; the cache
  holds a stale entry of a candidate that is no longer active.\<close>

definition demoCandidate :: "string \<Rightarrow> candidate" where
  "demoCandidate k = \<lparr> candidateId = k, burnId = k @ ''-burn'', anchorHeaderHeight = 7, anchorHeaderId = ''ab'',
     trackerBoxId = ''t'', dupInputBoxId = ''d'', vaultBoxId = ''v'' \<rparr>"

definition demoRevalidation :: revalidation where
  "demoRevalidation = \<lparr> rvExpectedTxId = ''tx'', rvRevalidationDigestHex = ''dg'' \<rparr>"

definition demoPorts :: "(unit, nat) reconciliation_ports" where
  "demoPorts = \<lparr> listActiveCandidates = Pair (Inr [demoCandidate ''x'', demoCandidate ''y'']),
     findPegOutByBurnId = (\<lambda>b. Pair (Inr (if b = ''x-burn'' then Some 1 else None))),
     invalidateCandidate = (\<lambda>_ _. Pair (Inr ())), markBurnRevertedAndInvalidateCandidates = (\<lambda>_ _. Pair (Inr ())),
     observeBurn = (\<lambda>_. Pair (Inr burn_confirmed)),
     observeErgoInputs = (\<lambda>_. Pair (Inr \<lparr> oAnchorHeaderId = ''0xAB'', trackerBoxPresent = True, dupBoxPresent = True,
        vaultBoxPresent = True \<rparr>)),
     recollect = (\<lambda>_ _. Pair (Inr (Some demoRevalidation))) \<rparr>"

definition demoRun :: "(unit, nat) reconciliation_run" where
  "demoRun = \<lparr> world = (), calls = [], revalidations = [(''y'', demoRevalidation), (''z'', demoRevalidation)] \<rparr>"

lemma demoReconciliation_run:
  "case reconcileAuthenticatedSettlementCandidates demoPorts demoRun of (q, s') \<Rightarrow>
     (case q of Inl _ \<Rightarrow> False | Inr r \<Rightarrow> invalidatedCandidates r = 1 \<and> refreshedRevalidations r = 1)
     \<and> revalidations s' = [(''x'', demoRevalidation)]"
  by code_simp

theorem reconciliation_fails_closed_witness:
  "\<exists>q s' cs tr. reconcileAuthenticatedSettlementCandidates demoPorts demoRun = (q, s') \<and> isOk q \<and> calls s' = tr
     \<and> (\<exists>c \<in> set cs. candidateId c = ''x'' \<and> fresh tr c \<and> recollected tr c demoRevalidation)"
proof -
  obtain q s' where run: "reconcileAuthenticatedSettlementCandidates demoPorts demoRun = (q, s')" by fastforce
  with demoReconciliation_run have ok: "isOk q" and e: "(''x'', demoRevalidation) \<in> set (revalidations s')"
    by (auto simp: isOk_iff split: sum.splits)
  from reconciliation_fails_closed [OF run] e show ?thesis
    using run ok by (fastforce simp: demoRun_def)
qed

theorem reconciliation_justified_witness:
  "\<exists>r s' cs tr. reconcileAuthenticatedSettlementCandidates demoPorts demoRun = (Inr r, s') \<and> calls s' = tr
     \<and> (\<forall>x \<in> set tr. justified cs tr x) \<and> handled r = int (length cs)"
proof -
  obtain q s' where run: "reconcileAuthenticatedSettlementCandidates demoPorts demoRun = (q, s')" by fastforce
  with demoReconciliation_run obtain r where r: "q = Inr r" by (auto split: sum.splits)
  from reconciliation_justified [OF run] r run show ?thesis by (fastforce simp: demoRun_def)
qed

end
