(* ===== verification/Prepared_Recovery.thy ===== *)
theory Prepared_Recovery
  imports Port_Run
begin

text \<open>
  Recovery of a prepared settlement candidate from an external package
  (\<^verbatim>\<open>relayer-core/authenticated-v2-prepared-candidate-recovery.ts\<close>): the package is reconstructed against the
  chain, the burn is observed again by at least two sources, and the journal may restore the candidate as
  prepared only, with none of the authority of an earlier check.

  Reconstruction, observation, the binding digest and the journal are ports that may throw. The cache recovery
  is only carried, a type parameter, and so is the package. An object the module freezes carries an identity, so
  that the \<^verbatim>\<open>WeakSet\<close> of admissions knows an admission and not a copy of it. Values have their declared
  types; the \<^verbatim>\<open>typeof\<close> guards on them are subsumed, and the constant \<^verbatim>\<open>boundary\<close> of a result is left out.
\<close>

section \<open>Data\<close>

record recovery_candidate =
  rcSchemaVersion :: int
  rcCandidateId :: string
  rcBurnId :: string
  rcBurnTxHash :: string
  rcSidechainId :: string
  rcSidechainHeight :: int
  rcSidechainBlockHash :: string
  rcSidechainLogIndex :: int
  rcTrackerKey :: string
  rcTrackerValue :: string
  rcTrackerBoxId :: string
  rcAnchorHeaderId :: string
  rcAnchorHeaderHeight :: int
  rcDupInputBoxId :: string
  rcDupInputDigest :: string
  rcVaultBoxId :: string
  rcUnsignedTxDigest :: string
  rcCreationHeight :: int
  rcObservedSidechainTip :: int
  rcObservedErgoTip :: int

record recovery_peg_out =
  poUser :: string
  poAmount :: int
  poErgoRecipientAddress :: string
  poSidechainTxHash :: string
  poSidechainBlockNumber :: int
  poSidechainBlockHash :: "string option"
  poSidechainLogIndex :: "int option"

record consensus_view =
  cvCandidateId :: string
  cvBurnIdHex :: string
  cvSidechainIdHex :: string
  cvSidechainTxHashHex :: string
  cvSidechainHeight :: int
  cvExecutionBlockHashHex :: string
  cvEventIndex :: int
  cvAmountNanoErg :: int
  cvRecipientErgoTreeHex :: string
  cvObservedTipHeight :: int
  cvObservedTipHashHex :: string
  cvConfirmations :: int
  cvRequiredConfirmations :: int

record sidechain_consensus =
  scView :: consensus_view
  scSourceCount :: int
  scConsensusDigestHex :: string

record 'k recovery_draft =
  dCandidate :: recovery_candidate
  dPegOut :: recovery_peg_out
  dCacheRecovery :: 'k
  dPackageDigestHex :: string
  dExpectedTxId :: string
  dCacheRecoveryDigestHex :: string

record recovery_binding =
  bSchema :: string
  bCandidateId :: string
  bBurnId :: string
  bPackageDigestHex :: string
  bExpectedTxId :: string
  bCacheRecoveryDigestHex :: string
  bSidechainConsensusDigestHex :: string
  bSidechainTipHashHex :: string

record 'k recovery_admission =
  raIdentity :: nat
  raSchema :: string
  raDraft :: "'k recovery_draft"
  raSidechainConsensus :: sidechain_consensus
  raSidechainConsensusDigestHex :: string
  raSidechainTipHashHex :: string
  raRecoveryAdmissionDigestHex :: string

text \<open>The journal's row: the candidate, the recovery columns, and the columns a check would have filled (the eighteen
  texts of \<^verbatim>\<open>assertPreparedOnly\<close>, the finality horizon height and the proof system id).\<close>

record recovered_candidate =
  rdCandidate :: recovery_candidate
  rdStatus :: string
  rdRecoverySchema :: "string option"
  rdRecoverySidechainConsensusDigest :: "string option"
  rdRecoveryAdmissionDigest :: "string option"
  rdRecoverySidechainTipHash :: "string option"
  rdRecoverySidechainSourceCount :: "int option"
  checkExpectedTxId :: "string option"
  checkUnsignedPackageDigest :: "string option"
  checkSignedTransactionDigest :: "string option"
  checkResponseDigest :: "string option"
  checkSignerContextDigest :: "string option"
  checkCheckerIdentityDigest :: "string option"
  checkRevalidationDigest :: "string option"
  checkNativeVerificationRequestDigest :: "string option"
  checkTrustAnchorDigest :: "string option"
  checkFinalityHorizonHash :: "string option"
  checkFinalityHorizonHeight :: "int option"
  checkFinalityStatementDigest :: "string option"
  checkFinalityProgramId :: "string option"
  checkFinalityProofSystemId :: "int option"
  checkFinalityVerifierProfileId :: "string option"
  checkFinalityProofPayloadDigest :: "string option"
  checkFinalityProofDigest :: "string option"
  checkStableErgoViewDigest :: "string option"
  checkStableSidechainViewDigest :: "string option"
  checkAdmissionDigest :: "string option"

record recovery_outcome =
  roSchema :: string
  roCandidate :: recovered_candidate
  roPackageDigestHex :: string
  roExpectedTxId :: string
  roCacheRecoveryDigestHex :: string
  roSidechainConsensusDigestHex :: string
  roSidechainTipHashHex :: string
  roRecoveryAdmissionDigestHex :: string

datatype prepared_error =
    NotFixedHex string
  | TipMismatch
  | SourceMismatch
  | TooFewSources
  | ProvenanceMissing
  | BindingInconsistent
  | NotPreparedOnly
  | PortThrew string

datatype ('i, 'k) prepared_call =
    Reconstruct 'i "string + 'k recovery_draft"
  | ObserveSource "'k recovery_draft" "string + sidechain_consensus"
  | DigestBinding recovery_binding "string + string"
  | RecordRecovery "'k recovery_admission" "string + recovered_candidate"

record ('w, 'i, 'k) prepared_ports =
  reconstruct :: "'i \<Rightarrow> ('w, 'k recovery_draft) port"
  observeSource :: "'k recovery_draft \<Rightarrow> ('w, sidechain_consensus) port"
  digestBinding :: "recovery_binding \<Rightarrow> ('w, string) port"
  recordRecovery :: "'k recovery_admission \<Rightarrow> ('w, recovered_candidate) port"

record ('w, 'i, 'k) prepared_run = "('w, ('i, 'k) prepared_call) port_run" +
  admissions :: "'k recovery_admission list"


section \<open>Operations\<close>

definition AUTHENTICATED_V2_PACKAGE_RECOVERY_SCHEMA :: string where
  "AUTHENTICATED_V2_PACKAGE_RECOVERY_SCHEMA = ''e2s.authenticated-v2-package-recovery.v2''"

definition fixedHex :: "string \<Rightarrow> string \<Rightarrow> prepared_error + string" where
  "fixedHex value label = require (isHex64 value) (NotFixedHex label) (Inr value)"

definition assertAuthenticatedV2RecoverySourceMatchesDraft ::
  "'k recovery_draft \<Rightarrow> sidechain_consensus \<Rightarrow> prepared_error + unit" where
  "assertAuthenticatedV2RecoverySourceMatchesDraft draft consensus =
     (let candidate = dCandidate draft; pegOut = dPegOut draft; view = scView consensus in
      if cvObservedTipHeight view \<noteq> rcObservedSidechainTip candidate then Inl TipMismatch
      else if cvCandidateId view \<noteq> rcCandidateId candidate
        \<or> cvBurnIdHex view \<noteq> rcBurnId candidate
        \<or> cvSidechainIdHex view \<noteq> rcSidechainId candidate
        \<or> cvSidechainTxHashHex view \<noteq> rcBurnTxHash candidate
        \<or> cvSidechainTxHashHex view \<noteq> poSidechainTxHash pegOut
        \<or> cvSidechainHeight view \<noteq> rcSidechainHeight candidate
        \<or> cvSidechainHeight view \<noteq> poSidechainBlockNumber pegOut
        \<or> cvExecutionBlockHashHex view \<noteq> rcSidechainBlockHash candidate
        \<or> (poSidechainBlockHash pegOut \<noteq> None \<and> Some (cvExecutionBlockHashHex view) \<noteq> poSidechainBlockHash pegOut)
        \<or> cvEventIndex view \<noteq> rcSidechainLogIndex candidate
        \<or> (poSidechainLogIndex pegOut \<noteq> None \<and> Some (cvEventIndex view) \<noteq> poSidechainLogIndex pegOut)
        \<or> cvAmountNanoErg view \<noteq> poAmount pegOut
        \<or> cvRecipientErgoTreeHex view \<noteq> poErgoRecipientAddress pegOut
      then Inl SourceMismatch else Inr ())"

definition authorityFields :: "recovered_candidate \<Rightarrow> bool list" where
  "authorityFields r = map (\<lambda>v. v \<noteq> None)
     [checkExpectedTxId r, checkUnsignedPackageDigest r, checkSignedTransactionDigest r, checkResponseDigest r,
      checkSignerContextDigest r, checkCheckerIdentityDigest r, checkRevalidationDigest r,
      checkNativeVerificationRequestDigest r, checkTrustAnchorDigest r, checkFinalityHorizonHash r]
   @ [checkFinalityHorizonHeight r \<noteq> None, checkFinalityStatementDigest r \<noteq> None, checkFinalityProgramId r \<noteq> None,
      checkFinalityProofSystemId r \<noteq> None]
   @ map (\<lambda>v. v \<noteq> None)
     [checkFinalityVerifierProfileId r, checkFinalityProofPayloadDigest r, checkFinalityProofDigest r,
      checkStableErgoViewDigest r, checkStableSidechainViewDigest r, checkAdmissionDigest r]"

definition assertPreparedOnly :: "recovered_candidate \<Rightarrow> 'k recovery_admission \<Rightarrow> prepared_error + unit" where
  "assertPreparedOnly recovered admission =
     (if rdStatus recovered \<noteq> ''prepared''
        \<or> rdRecoverySchema recovered \<noteq> Some AUTHENTICATED_V2_PACKAGE_RECOVERY_SCHEMA
        \<or> rdRecoverySidechainConsensusDigest recovered \<noteq> Some (raSidechainConsensusDigestHex admission)
        \<or> rdRecoveryAdmissionDigest recovered \<noteq> Some (raRecoveryAdmissionDigestHex admission)
        \<or> rdRecoverySidechainTipHash recovered \<noteq> Some (raSidechainTipHashHex admission)
        \<or> rdRecoverySidechainSourceCount recovered \<noteq> Some (scSourceCount (raSidechainConsensus admission))
        \<or> list_ex (\<lambda>present. present) (authorityFields recovered)
      then Inl NotPreparedOnly else Inr ())"

text \<open>The checks between the observation and the journal: the consensus against the draft, the number of sources, the
  two digests of the consensus.\<close>

definition admitConsensus :: "'k recovery_draft \<Rightarrow> sidechain_consensus \<Rightarrow> prepared_error + string \<times> string" where
  "admitConsensus draft consensus =
     andThen (assertAuthenticatedV2RecoverySourceMatchesDraft draft consensus) (\<lambda>_.
     require (\<not> (\<not> isSafeInteger (scSourceCount consensus) \<or> scSourceCount consensus < 2)) TooFewSources
     (andThen (fixedHex (scConsensusDigestHex consensus) ''sidechain consensus digest'') (\<lambda>digest.
      andThen (fixedHex (cvObservedTipHashHex (scView consensus)) ''sidechain tip hash'') (\<lambda>tip. Inr (digest, tip)))))"

text \<open>The lifecycle, step by step: one port each.\<close>

type_synonym ('w, 'i, 'k, 'a) prepared = "(('w, 'i, 'k) prepared_run, prepared_error, 'a) action"

definition reconstructStep :: "'i \<Rightarrow> ('w, 'i, 'k) prepared_ports \<Rightarrow> ('w, 'i, 'k, 'k recovery_draft \<times> string \<times> string \<times> string) prepared" where
  "reconstructStep input ports =
     bindA (portAction PortThrew (Reconstruct input) (reconstruct ports input)) (\<lambda>draft.
     bindA (liftA (fixedHex (dPackageDigestHex draft) ''unsigned package digest'')) (\<lambda>packageDigest.
     bindA (liftA (fixedHex (dExpectedTxId draft) ''expected transaction ID'')) (\<lambda>expectedTxId.
     bindA (liftA (fixedHex (dCacheRecoveryDigestHex draft) ''cache recovery digest'')) (\<lambda>cacheDigest.
     returnA (draft, packageDigest, expectedTxId, cacheDigest)))))"

definition consensusStep :: "('w, 'i, 'k) prepared_ports \<Rightarrow> 'k recovery_draft
    \<Rightarrow> ('w, 'i, 'k, sidechain_consensus \<times> string \<times> string) prepared" where
  "consensusStep ports draft =
     bindA (portAction PortThrew (ObserveSource draft) (observeSource ports draft)) (\<lambda>consensus.
     bindA (liftA (admitConsensus draft consensus)) (\<lambda>(consensusDigest, tipHash).
     returnA (consensus, consensusDigest, tipHash)))"

definition bindingStep :: "('w, 'i, 'k) prepared_ports \<Rightarrow> recovery_binding \<Rightarrow> ('w, 'i, 'k, string) prepared" where
  "bindingStep ports binding =
     bindA (portAction PortThrew (DigestBinding binding) (digestBinding ports binding)) (\<lambda>digest.
     liftA (fixedHex digest ''recovery admission digest''))"

definition journalStep :: "('w, 'i, 'k) prepared_ports \<Rightarrow> 'k recovery_admission \<Rightarrow> ('w, 'i, 'k, recovery_outcome) prepared" where
  "journalStep ports admission =
     bindA (modifyA (\<lambda>s. s \<lparr> admissions := admission # admissions s \<rparr>)) (\<lambda>_.
     bindA (portAction PortThrew (RecordRecovery admission) (recordRecovery ports admission)) (\<lambda>recovered.
     bindA (liftA (assertPreparedOnly recovered admission)) (\<lambda>_.
     returnA \<lparr> roSchema = AUTHENTICATED_V2_PACKAGE_RECOVERY_SCHEMA, roCandidate = recovered,
       roPackageDigestHex = dPackageDigestHex (raDraft admission), roExpectedTxId = dExpectedTxId (raDraft admission),
       roCacheRecoveryDigestHex = dCacheRecoveryDigestHex (raDraft admission),
       roSidechainConsensusDigestHex = raSidechainConsensusDigestHex admission,
       roSidechainTipHashHex = raSidechainTipHashHex admission,
       roRecoveryAdmissionDigestHex = raRecoveryAdmissionDigestHex admission \<rparr>)))"

definition recoverAuthenticatedV2PreparedCandidateLifecycle ::
  "'i \<Rightarrow> ('w, 'i, 'k) prepared_ports \<Rightarrow> ('w, 'i, 'k, recovery_outcome) prepared" where
  "recoverAuthenticatedV2PreparedCandidateLifecycle input ports =
     bindA (reconstructStep input ports) (\<lambda>(draft, packageDigest, expectedTxId, cacheDigest).
     bindA (consensusStep ports draft) (\<lambda>(consensus, consensusDigest, tipHash).
     bindA (bindingStep ports \<lparr> bSchema = AUTHENTICATED_V2_PACKAGE_RECOVERY_SCHEMA,
         bCandidateId = rcCandidateId (dCandidate draft), bBurnId = rcBurnId (dCandidate draft),
         bPackageDigestHex = packageDigest, bExpectedTxId = expectedTxId, bCacheRecoveryDigestHex = cacheDigest,
         bSidechainConsensusDigestHex = consensusDigest, bSidechainTipHashHex = tipHash \<rparr>) (\<lambda>admissionDigest. \<lambda>s.
     journalStep ports \<lparr> raIdentity = length (admissions s), raSchema = AUTHENTICATED_V2_PACKAGE_RECOVERY_SCHEMA,
         raDraft = draft \<lparr> dPackageDigestHex := packageDigest, dExpectedTxId := expectedTxId,
           dCacheRecoveryDigestHex := cacheDigest \<rparr>,
         raSidechainConsensus = consensus, raSidechainConsensusDigestHex = consensusDigest,
         raSidechainTipHashHex = tipHash, raRecoveryAdmissionDigestHex = admissionDigest \<rparr> s)))"

text \<open>\<open>None\<close> stands for an argument that is not an object.\<close>

definition assertAuthenticatedV2PreparedCandidateRecoveryAdmissionProvenance ::
  "'k recovery_admission list \<Rightarrow> 'k recovery_admission option \<Rightarrow> prepared_error + unit" where
  "assertAuthenticatedV2PreparedCandidateRecoveryAdmissionProvenance registry value = (case value of
       None \<Rightarrow> Inl ProvenanceMissing
     | Some admission \<Rightarrow>
         if \<not> List.member registry admission then Inl ProvenanceMissing
         else if raSchema admission \<noteq> AUTHENTICATED_V2_PACKAGE_RECOVERY_SCHEMA
           \<or> raSidechainConsensusDigestHex admission \<noteq> scConsensusDigestHex (raSidechainConsensus admission)
           \<or> raSidechainTipHashHex admission \<noteq> cvObservedTipHashHex (scView (raSidechainConsensus admission))
           \<or> scSourceCount (raSidechainConsensus admission) < 2
         then Inl BindingInconsistent else Inr ())"



section \<open>What a run does\<close>

text \<open>The observed burn is the one of the candidate and of the payout.\<close>

definition sameBurn :: "recovery_candidate \<Rightarrow> recovery_peg_out \<Rightarrow> consensus_view \<Rightarrow> bool" where
  "sameBurn c p v \<longleftrightarrow> cvObservedTipHeight v = rcObservedSidechainTip c \<and> cvCandidateId v = rcCandidateId c
     \<and> cvBurnIdHex v = rcBurnId c \<and> cvSidechainIdHex v = rcSidechainId c
     \<and> cvSidechainTxHashHex v = rcBurnTxHash c \<and> cvSidechainTxHashHex v = poSidechainTxHash p
     \<and> cvSidechainHeight v = rcSidechainHeight c \<and> cvSidechainHeight v = poSidechainBlockNumber p
     \<and> cvExecutionBlockHashHex v = rcSidechainBlockHash c \<and> poSidechainBlockHash p \<in> {None, Some (cvExecutionBlockHashHex v)}
     \<and> cvEventIndex v = rcSidechainLogIndex c \<and> poSidechainLogIndex p \<in> {None, Some (cvEventIndex v)}
     \<and> cvAmountNanoErg v = poAmount p \<and> cvRecipientErgoTreeHex v = poErgoRecipientAddress p"

lemma sourceMatches_iff:
  "assertAuthenticatedV2RecoverySourceMatchesDraft draft consensus = Inr u \<longleftrightarrow>
     sameBurn (dCandidate draft) (dPegOut draft) (scView consensus)"
  by (auto simp: assertAuthenticatedV2RecoverySourceMatchesDraft_def sameBurn_def Let_def)

lemma fixedHex_iff [result_simps]: "fixedHex v l = Inr w \<longleftrightarrow> isHex64 v \<and> w = v"
  by (auto simp: fixedHex_def result_simps)

lemma admitConsensus_iff:
  "admitConsensus draft consensus = Inr (d, t) \<longleftrightarrow> sameBurn (dCandidate draft) (dPegOut draft) (scView consensus)
     \<and> isSafeInteger (scSourceCount consensus) \<and> 2 \<le> scSourceCount consensus \<and> d = scConsensusDigestHex consensus
     \<and> isHex64 d \<and> t = cvObservedTipHashHex (scView consensus) \<and> isHex64 t"
  by (auto simp: admitConsensus_def result_simps sourceMatches_iff)

definition bindingOf :: "'k recovery_admission \<Rightarrow> recovery_binding" where
  "bindingOf a = \<lparr> bSchema = raSchema a, bCandidateId = rcCandidateId (dCandidate (raDraft a)),
     bBurnId = rcBurnId (dCandidate (raDraft a)), bPackageDigestHex = dPackageDigestHex (raDraft a),
     bExpectedTxId = dExpectedTxId (raDraft a), bCacheRecoveryDigestHex = dCacheRecoveryDigestHex (raDraft a),
     bSidechainConsensusDigestHex = raSidechainConsensusDigestHex a, bSidechainTipHashHex = raSidechainTipHashHex a \<rparr>"

text \<open>What every admission the module makes satisfies.\<close>

definition admissionOk :: "'k recovery_admission \<Rightarrow> bool" where
  "admissionOk a \<longleftrightarrow> raSchema a = AUTHENTICATED_V2_PACKAGE_RECOVERY_SCHEMA
     \<and> sameBurn (dCandidate (raDraft a)) (dPegOut (raDraft a)) (scView (raSidechainConsensus a))
     \<and> 2 \<le> scSourceCount (raSidechainConsensus a)
     \<and> raSidechainConsensusDigestHex a = scConsensusDigestHex (raSidechainConsensus a)
     \<and> raSidechainTipHashHex a = cvObservedTipHashHex (scView (raSidechainConsensus a))
     \<and> isHex64 (dPackageDigestHex (raDraft a)) \<and> isHex64 (dExpectedTxId (raDraft a))
     \<and> isHex64 (dCacheRecoveryDigestHex (raDraft a)) \<and> isHex64 (raSidechainConsensusDigestHex a)
     \<and> isHex64 (raSidechainTipHashHex a) \<and> isHex64 (raRecoveryAdmissionDigestHex a)"

fun isRecord :: "('i, 'k) prepared_call \<Rightarrow> bool" where
  "isRecord (RecordRecovery _ _) = True"
| "isRecord _ = False"

definition admissionOf :: "nat \<Rightarrow> 'k recovery_draft \<Rightarrow> sidechain_consensus \<Rightarrow> string \<Rightarrow> 'k recovery_admission" where
  "admissionOf i draft consensus digest = \<lparr> raIdentity = i, raSchema = AUTHENTICATED_V2_PACKAGE_RECOVERY_SCHEMA, raDraft = draft,
     raSidechainConsensus = consensus, raSidechainConsensusDigestHex = scConsensusDigestHex consensus,
     raSidechainTipHashHex = cvObservedTipHashHex (scView consensus), raRecoveryAdmissionDigestHex = digest \<rparr>"

definition outcomeOf :: "'k recovery_admission \<Rightarrow> recovered_candidate \<Rightarrow> recovery_outcome" where
  "outcomeOf a r = \<lparr> roSchema = AUTHENTICATED_V2_PACKAGE_RECOVERY_SCHEMA, roCandidate = r,
     roPackageDigestHex = dPackageDigestHex (raDraft a), roExpectedTxId = dExpectedTxId (raDraft a),
     roCacheRecoveryDigestHex = dCacheRecoveryDigestHex (raDraft a),
     roSidechainConsensusDigestHex = raSidechainConsensusDigestHex a, roSidechainTipHashHex = raSidechainTipHashHex a,
     roRecoveryAdmissionDigestHex = raRecoveryAdmissionDigestHex a \<rparr>"

text \<open>The calls before the journal, and the two ways a run ends.\<close>

definition beforeJournal :: "'i \<Rightarrow> 'k recovery_admission \<Rightarrow> ('i, 'k) prepared_call list" where
  "beforeJournal input a = [Reconstruct input (Inr (raDraft a)), ObserveSource (raDraft a) (Inr (raSidechainConsensus a)),
     DigestBinding (bindingOf a) (Inr (raRecoveryAdmissionDigestHex a))]"

text \<open>Each step: it calls its port once and fails, or returns what it took from the answer.\<close>

lemma reconstructStep_effect:
  assumes "reconstructStep input ports s = (q, s')"
  shows "admissions s' = admissions s \<and> (\<exists>a. calls s' = calls s @ [Reconstruct input a]
    \<and> (\<forall>d p t c. q = Inr (d, p, t, c) \<longrightarrow> a = Inr d \<and> p = dPackageDigestHex d \<and> t = dExpectedTxId d
         \<and> c = dCacheRecoveryDigestHex d \<and> isHex64 p \<and> isHex64 t \<and> isHex64 c))"
proof -
  obtain a w where a: "reconstruct ports input (world s) = (a, w)" by fastforce
  from assms a show ?thesis
    by (cases a) (auto simp: reconstructStep_def action_defs fixedHex_def require_def split: if_splits)
qed

lemma consensusStep_effect:
  assumes "consensusStep ports d s = (q, s')"
  shows "admissions s' = admissions s \<and> (\<exists>a. calls s' = calls s @ [ObserveSource d a]
    \<and> (\<forall>c g t. q = Inr (c, g, t) \<longrightarrow> a = Inr c \<and> admitConsensus d c = Inr (g, t)))"
proof -
  obtain a w where a: "observeSource ports d (world s) = (a, w)" by fastforce
  from assms a show ?thesis
    by (cases a) (auto simp: consensusStep_def action_defs split: sum.splits prod.splits)
qed

lemma bindingStep_effect:
  assumes "bindingStep ports b s = (q, s')"
  shows "admissions s' = admissions s \<and> (\<exists>a. calls s' = calls s @ [DigestBinding b a]
    \<and> (\<forall>g. q = Inr g \<longrightarrow> a = Inr g \<and> isHex64 g))"
proof -
  obtain a w where a: "digestBinding ports b (world s) = (a, w)" by fastforce
  from assms a show ?thesis
    by (cases a) (auto simp: bindingStep_def action_defs fixedHex_def require_def split: if_splits)
qed

lemma journalStep_effect:
  assumes "journalStep ports a s = (q, s')"
  shows "admissions s' = a # admissions s \<and> (\<exists>r. calls s' = calls s @ [RecordRecovery a r]
    \<and> q = (case r of Inl e \<Rightarrow> Inl (PortThrew e) | Inr x \<Rightarrow> andThen (assertPreparedOnly x a) (\<lambda>_. Inr (outcomeOf a x))))"
proof -
  obtain r w where r: "recordRecovery ports a (world s) = (r, w)" by fastforce
  from assms r show ?thesis
    by (intro conjI exI [of _ r]; cases r; cases "assertPreparedOnly (projr r) a")
      (auto simp: journalStep_def action_defs outcomeOf_def)
qed

lemma recover_cases:
  assumes "recoverAuthenticatedV2PreparedCandidateLifecycle input ports s = (q, s')"
  obtains (stopped) tr e where "calls s' = calls s @ tr" and "\<not> list_ex isRecord tr" and "admissions s' = admissions s"
    and "q = Inl e"
  | (recorded) a answer where "calls s' = calls s @ beforeJournal input a @ [RecordRecovery a answer]"
    and "admissions s' = a # admissions s" and "admissionOk a" and "raIdentity a = length (admissions s)"
    and "q = (case answer of Inl e \<Rightarrow> Inl (PortThrew e) | Inr r \<Rightarrow> andThen (assertPreparedOnly r a) (\<lambda>_. Inr (outcomeOf a r)))"
  using assms unfolding recoverAuthenticatedV2PreparedCandidateLifecycle_def
proof (cases rule: bindA_cases)
  case (throw e)
  from reconstructStep_effect [OF throw(1)] throw(2) show thesis by (auto intro: that(1))
next
  case (step x s1)
  obtain d p t c where x: "x = (d, p, t, c)" by (cases x) auto
  with reconstructStep_effect [OF step(1)] have 1: "calls s1 = calls s @ [Reconstruct input (Inr d)]" "admissions s1 = admissions s"
    "p = dPackageDigestHex d" "t = dExpectedTxId d" "c = dCacheRecoveryDigestHex d" "isHex64 p" "isHex64 t" "isHex64 c" by auto
  from step(2) [unfolded x prod.case] show thesis
  proof (cases rule: bindA_cases)
    case (throw e)
    from consensusStep_effect [OF throw(1)] throw(2) 1(1,2) show thesis by (auto intro: that(1))
  next
    case (step y s2)
    obtain k g h where y: "y = (k, g, h)" by (cases y) auto
    with consensusStep_effect [OF step(1)] 1(1,2) have 2: "admissions s2 = admissions s" "admitConsensus d k = Inr (g, h)"
      "calls s2 = calls s @ [Reconstruct input (Inr d), ObserveSource d (Inr k)]" by auto
    from step(2) [unfolded y prod.case] show thesis
    proof (cases rule: bindA_cases)
      case (throw e)
      from bindingStep_effect [OF throw(1)] throw(2) 2 show thesis by (auto intro: that(1))
    next
      case (step z s3)
      define a where "a = admissionOf (length (admissions s)) d k z"
      note b = bindingStep_effect [OF step(1)]
      have "admissionOk a" using 1 2(2) b by (auto simp: a_def admissionOf_def admissionOk_def admitConsensus_iff)
      moreover have "calls s3 = calls s @ beforeJournal input a"
        using 1 2 b by (auto simp: a_def admissionOf_def beforeJournal_def bindingOf_def admitConsensus_iff)
      moreover have "journalStep ports a s3 = (q, s')"
        using step(2) 1 2 b by (auto simp: a_def admissionOf_def admitConsensus_iff)
      ultimately show thesis
        using journalStep_effect [of ports a s3 q s'] 2(1) b that(2) [of a] by (auto simp: a_def admissionOf_def)
    qed
  qed
qed



section \<open>Properties\<close>

lemma preparedOnly_iff:
  "assertPreparedOnly r a = Inr u \<longleftrightarrow> rdStatus r = ''prepared''
     \<and> rdRecoverySchema r = Some AUTHENTICATED_V2_PACKAGE_RECOVERY_SCHEMA
     \<and> rdRecoverySidechainConsensusDigest r = Some (raSidechainConsensusDigestHex a)
     \<and> rdRecoveryAdmissionDigest r = Some (raRecoveryAdmissionDigestHex a)
     \<and> rdRecoverySidechainTipHash r = Some (raSidechainTipHashHex a)
     \<and> rdRecoverySidechainSourceCount r = Some (scSourceCount (raSidechainConsensus a))
     \<and> \<not> list_ex (\<lambda>p. p) (authorityFields r)"
  by (auto simp: assertPreparedOnly_def)

text \<open>C13. The journal is touched last, and only for a burn seen again: in every run, whatever its outcome, there is at most
  one journal call; it comes after the reconstruction of the package, the observation and the digest of the
  binding, and its admission carries exactly their answers, with an observed burn that is the candidate's and
  the payout's and at least two matching sources.\<close>

theorem preparedRecovery_journal_guard:
  assumes "recoverAuthenticatedV2PreparedCandidateLifecycle input ports s = (q, s')"
  shows "\<exists>tr. calls s' = calls s @ tr \<and> (\<not> list_ex isRecord tr \<and> \<not> isOk q
    \<or> (\<exists>a answer. tr = [Reconstruct input (Inr (raDraft a)), ObserveSource (raDraft a) (Inr (raSidechainConsensus a)),
          DigestBinding (bindingOf a) (Inr (raRecoveryAdmissionDigestHex a)), RecordRecovery a answer]
        \<and> sameBurn (dCandidate (raDraft a)) (dPegOut (raDraft a)) (scView (raSidechainConsensus a))
        \<and> 2 \<le> scSourceCount (raSidechainConsensus a) \<and> (isOk q \<longrightarrow> isOk answer)))"
  using assms
proof (cases rule: recover_cases)
  case (stopped tr e)
  then show ?thesis by auto
next
  case (recorded a answer)
  then show ?thesis
    by (intro exI [of _ "beforeJournal input a @ [RecordRecovery a answer]"] conjI disjI2 exI [of _ a] exI [of _ answer])
      (auto simp: beforeJournal_def admissionOk_def split: sum.splits)
qed

text \<open>Recovery restores no authority: a run that returns leaves a candidate whose status is prepared, with every
  column of a check empty, bound to the admission digest that was computed over the package digest, the
  transaction id, the cache digest, the consensus digest and the tip hash the outcome reports.\<close>

theorem preparedRecovery_restores_prepared_only:
  assumes "recoverAuthenticatedV2PreparedCandidateLifecycle input ports s = (Inr out, s')"
  shows "rdStatus (roCandidate out) = ''prepared'' \<and> (\<forall>p \<in> set (authorityFields (roCandidate out)). \<not> p)
    \<and> rdRecoveryAdmissionDigest (roCandidate out) = Some (roRecoveryAdmissionDigestHex out)
    \<and> (\<exists>c b. DigestBinding \<lparr> bSchema = roSchema out, bCandidateId = c, bBurnId = b, bPackageDigestHex = roPackageDigestHex out,
          bExpectedTxId = roExpectedTxId out, bCacheRecoveryDigestHex = roCacheRecoveryDigestHex out,
          bSidechainConsensusDigestHex = roSidechainConsensusDigestHex out, bSidechainTipHashHex = roSidechainTipHashHex out \<rparr>
          (Inr (roRecoveryAdmissionDigestHex out)) \<in> set (calls s'))"
  using assms
proof (cases rule: recover_cases)
  case (recorded a answer)
  obtain r where r: "assertPreparedOnly r a = Inr ()" "out = outcomeOf a r"
  proof (cases answer)
    case (Inr r)
    with recorded(5) have "andThen (assertPreparedOnly r a) (\<lambda>_. Inr (outcomeOf a r)) = Inr out" by simp
    then show thesis by (intro that [of r]) (auto simp: result_simps)
  qed (use recorded(5) in simp)
  have "DigestBinding (bindingOf a) (Inr (raRecoveryAdmissionDigestHex a)) \<in> set (calls s')"
    using recorded(1) by (simp add: beforeJournal_def)
  with r recorded(3) show ?thesis
    by (auto simp: preparedOnly_iff outcomeOf_def list_ex_iff bindingOf_def admissionOk_def)
qed auto

text \<open>The registry of admissions over any number of runs, with any ports.\<close>

definition recoveryStep :: "('w, 'i, 'k) prepared_run \<Rightarrow> 'i \<times> ('w, 'i, 'k) prepared_ports \<Rightarrow> ('w, 'i, 'k) prepared_run" where
  "recoveryStep s = (\<lambda>(input, ports). snd (recoverAuthenticatedV2PreparedCandidateLifecycle input ports s))"

definition registryOk :: "('w, 'i, 'k) prepared_run \<Rightarrow> bool" where
  "registryOk s \<longleftrightarrow> list_all admissionOk (admissions s) \<and> map raIdentity (admissions s) = rev [0..<length (admissions s)]"

interpretation recoveries: invariant_system recoveryStep registryOk
proof
  fix s :: "('w, 'i, 'k) prepared_run" and op :: "'i \<times> ('w, 'i, 'k) prepared_ports"
  assume s: "registryOk s"
  obtain input ports where op: "op = (input, ports)" by (cases op)
  obtain q s' where run: "recoverAuthenticatedV2PreparedCandidateLifecycle input ports s = (q, s')" by fastforce
  from run have "registryOk s'" by (cases rule: recover_cases) (use s in \<open>auto simp: registryOk_def\<close>)
  with run op show "registryOk (recoveryStep s op)" by (simp add: recoveryStep_def)
qed

text \<open>Provenance is exact: after any sequence of recoveries, with any packages and any ports, an admission passes the
  provenance check just when this module made it, the check never finds an inconsistent binding, and no two
  admissions share an identity.\<close>

theorem preparedRecovery_provenance:
  assumes "admissions s = []" and "s' = foldl recoveryStep s ops"
  shows "assertAuthenticatedV2PreparedCandidateRecoveryAdmissionProvenance (admissions s') (Some a) =
      (if a \<in> set (admissions s') then Inr () else Inl ProvenanceMissing)
    \<and> distinct (map raIdentity (admissions s'))"
proof -
  have "registryOk s'" unfolding assms(2) by (rule recoveries.run_inv) (simp add: registryOk_def assms(1))
  then have ok: "\<And>a. a \<in> set (admissions s') \<Longrightarrow> admissionOk a" and "distinct (map raIdentity (admissions s'))"
    by (auto simp: registryOk_def list_all_iff)
  moreover have "assertAuthenticatedV2PreparedCandidateRecoveryAdmissionProvenance (admissions s') (Some a) = Inr ()"
    if "a \<in> set (admissions s')"
    using ok [OF that] that by (simp add: assertAuthenticatedV2PreparedCandidateRecoveryAdmissionProvenance_def admissionOk_def)
  ultimately show ?thesis by (simp add: assertAuthenticatedV2PreparedCandidateRecoveryAdmissionProvenance_def)
qed


section \<open>A concrete run\<close>

definition demoHexOf :: "char \<Rightarrow> string" where
  "demoHexOf c = replicate 64 c"

lemma demoHexOf_hex: "isLowerHexChar c \<Longrightarrow> isHex64 (demoHexOf c)"
  by (simp add: demoHexOf_def isHex64_replicate)

definition demoCandidate :: recovery_candidate where
  "demoCandidate = \<lparr> rcSchemaVersion = 2, rcCandidateId = ''c'', rcBurnId = ''b'', rcBurnTxHash = ''tx'', rcSidechainId = ''sc'',
     rcSidechainHeight = 40, rcSidechainBlockHash = ''bh'', rcSidechainLogIndex = 3, rcTrackerKey = [], rcTrackerValue = [],
     rcTrackerBoxId = [], rcAnchorHeaderId = [], rcAnchorHeaderHeight = 9, rcDupInputBoxId = [], rcDupInputDigest = [],
     rcVaultBoxId = [], rcUnsignedTxDigest = [], rcCreationHeight = 8, rcObservedSidechainTip = 50, rcObservedErgoTip = 10 \<rparr>"

definition demoDraft :: "unit recovery_draft" where
  "demoDraft = \<lparr> dCandidate = demoCandidate,
     dPegOut = \<lparr> poUser = ''u'', poAmount = 5, poErgoRecipientAddress = ''r'', poSidechainTxHash = ''tx'',
       poSidechainBlockNumber = 40, poSidechainBlockHash = Some ''bh'', poSidechainLogIndex = None \<rparr>,
     dCacheRecovery = (), dPackageDigestHex = demoHexOf (CHR ''a''), dExpectedTxId = demoHexOf (CHR ''b''),
     dCacheRecoveryDigestHex = demoHexOf (CHR ''c'') \<rparr>"

definition demoConsensus :: sidechain_consensus where
  "demoConsensus = \<lparr> scView = \<lparr> cvCandidateId = ''c'', cvBurnIdHex = ''b'', cvSidechainIdHex = ''sc'', cvSidechainTxHashHex = ''tx'',
       cvSidechainHeight = 40, cvExecutionBlockHashHex = ''bh'', cvEventIndex = 3, cvAmountNanoErg = 5,
       cvRecipientErgoTreeHex = ''r'', cvObservedTipHeight = 50, cvObservedTipHashHex = demoHexOf (CHR ''d''),
       cvConfirmations = 10, cvRequiredConfirmations = 6 \<rparr>,
     scSourceCount = 2, scConsensusDigestHex = demoHexOf (CHR ''e'') \<rparr>"

definition demoRecovered :: recovered_candidate where
  "demoRecovered = \<lparr> rdCandidate = demoCandidate, rdStatus = ''prepared'',
     rdRecoverySchema = Some AUTHENTICATED_V2_PACKAGE_RECOVERY_SCHEMA,
     rdRecoverySidechainConsensusDigest = Some (demoHexOf (CHR ''e'')), rdRecoveryAdmissionDigest = Some (demoHexOf (CHR ''f'')),
     rdRecoverySidechainTipHash = Some (demoHexOf (CHR ''d'')), rdRecoverySidechainSourceCount = Some 2,
     checkExpectedTxId = None, checkUnsignedPackageDigest = None, checkSignedTransactionDigest = None,
     checkResponseDigest = None, checkSignerContextDigest = None, checkCheckerIdentityDigest = None,
     checkRevalidationDigest = None, checkNativeVerificationRequestDigest = None, checkTrustAnchorDigest = None,
     checkFinalityHorizonHash = None, checkFinalityHorizonHeight = None, checkFinalityStatementDigest = None,
     checkFinalityProgramId = None, checkFinalityProofSystemId = None, checkFinalityVerifierProfileId = None,
     checkFinalityProofPayloadDigest = None, checkFinalityProofDigest = None, checkStableErgoViewDigest = None,
     checkStableSidechainViewDigest = None, checkAdmissionDigest = None \<rparr>"

definition demoPorts :: "(unit, unit, unit) prepared_ports" where
  "demoPorts = \<lparr> reconstruct = (\<lambda>_. Pair (Inr demoDraft)), observeSource = (\<lambda>_. Pair (Inr demoConsensus)),
     digestBinding = (\<lambda>_. Pair (Inr (demoHexOf (CHR ''f'')))), recordRecovery = (\<lambda>_. Pair (Inr demoRecovered)) \<rparr>"

definition demoStart :: "(unit, unit, unit) prepared_run" where
  "demoStart = \<lparr> world = (), calls = [], admissions = [] \<rparr>"

lemma demoPrepared_run:
  "\<exists>out s'. recoverAuthenticatedV2PreparedCandidateLifecycle () demoPorts demoStart = (Inr out, s') \<and> length (admissions s') = 1"
proof -
  have hex: "isHex64 (demoHexOf (CHR ''a''))" "isHex64 (demoHexOf (CHR ''b''))" "isHex64 (demoHexOf (CHR ''c''))"
    "isHex64 (demoHexOf (CHR ''d''))" "isHex64 (demoHexOf (CHR ''e''))" "isHex64 (demoHexOf (CHR ''f''))"
    by (rule demoHexOf_hex, simp add: isLowerHexChar_def code_def)+
  have "admitConsensus demoDraft demoConsensus = Inr (demoHexOf (CHR ''e''), demoHexOf (CHR ''d''))"
    unfolding admitConsensus_iff using hex
    by (simp add: sameBurn_def demoDraft_def demoConsensus_def demoCandidate_def safe_defs)
  with hex show ?thesis
    by (simp add: recoverAuthenticatedV2PreparedCandidateLifecycle_def reconstructStep_def consensusStep_def bindingStep_def
        journalStep_def action_defs demoPorts_def demoStart_def fixedHex_def assertPreparedOnly_def authorityFields_def
        demoRecovered_def) (simp add: demoDraft_def demoConsensus_def hex)
qed

theorem preparedRecovery_journal_guard_witness:
  "\<exists>q s' a answer. recoverAuthenticatedV2PreparedCandidateLifecycle () demoPorts demoStart = (q, s') \<and> isOk q
     \<and> last (calls s') = RecordRecovery a answer \<and> 2 \<le> scSourceCount (raSidechainConsensus a)"
proof -
  obtain out s' where run: "recoverAuthenticatedV2PreparedCandidateLifecycle () demoPorts demoStart = (Inr out, s')"
    using demoPrepared_run by blast
  from preparedRecovery_journal_guard [OF run] obtain a answer where
    "calls s' = calls demoStart @ [Reconstruct () (Inr (raDraft a)), ObserveSource (raDraft a) (Inr (raSidechainConsensus a)),
          DigestBinding (bindingOf a) (Inr (raRecoveryAdmissionDigestHex a)), RecordRecovery a answer]"
    "2 \<le> scSourceCount (raSidechainConsensus a)" by auto
  with run show ?thesis by fastforce
qed

theorem preparedRecovery_restores_prepared_only_witness:
  "\<exists>out s'. recoverAuthenticatedV2PreparedCandidateLifecycle () demoPorts demoStart = (Inr out, s')
     \<and> rdStatus (roCandidate out) = ''prepared''"
proof -
  obtain out s' where run: "recoverAuthenticatedV2PreparedCandidateLifecycle () demoPorts demoStart = (Inr out, s')"
    using demoPrepared_run by blast
  with preparedRecovery_restores_prepared_only [OF run] show ?thesis by auto
qed

theorem preparedRecovery_provenance_witness:
  "\<exists>s' a. s' = recoveryStep demoStart ((), demoPorts) \<and> a \<in> set (admissions s')
     \<and> assertAuthenticatedV2PreparedCandidateRecoveryAdmissionProvenance (admissions s') (Some a) = Inr ()"
proof -
  obtain out s' where run: "recoverAuthenticatedV2PreparedCandidateLifecycle () demoPorts demoStart = (Inr out, s')"
    "length (admissions s') = 1" using demoPrepared_run by blast
  then obtain a where a: "a \<in> set (admissions s')" by (cases "admissions s'") auto
  have "s' = foldl recoveryStep demoStart [((), demoPorts)]" using run(1) by (simp add: recoveryStep_def)
  with preparedRecovery_provenance [of demoStart s' "[((), demoPorts)]" a] a show ?thesis by (auto simp: demoStart_def)
qed

end
