(* ===== verification/Storage_Rent.thy ===== *)
theory Storage_Rent
  imports Bridge_Prelude
begin

text \<open>
  Storage-rent projection (\<^verbatim>\<open>ergo-settlement-core/storage-rent-maintenance.ts\<close>): the inventory of the bridge's
  contract surfaces, and for one box its age, the height at which rent can be charged, the projected fee and
  what the box keeps, with an alert level.

  The module is pure. A \<^verbatim>\<open>number\<close> argument is an integer; the conversion \<^verbatim>\<open>BigInt(value)\<close> of a string is
  written out. \<^verbatim>\<open>Math.floor(ERGO_STORAGE_PERIOD_BLOCKS * 0.9)\<close> is exact in double precision and so is the
  watch age; both are given as the integers they are.
\<close>

section \<open>Definitions\<close>

definition ERGO_STORAGE_PERIOD_BLOCKS :: int where
  "ERGO_STORAGE_PERIOD_BLOCKS = 1051200"

definition WATCH_AGE_BLOCKS :: int where
  "WATCH_AGE_BLOCKS = 788400"

definition REFRESH_DUE_AGE_BLOCKS :: int where
  "REFRESH_DUE_AGE_BLOCKS = 946080"

definition LEGACY_SPV_TRACKER_STORAGE_RENT_PROFILE :: string where
  "LEGACY_SPV_TRACKER_STORAGE_RENT_PROFILE = ''substrate-grandpa-legacy-spv-tracker-v1''"

datatype refresh_mode = neutral_successor | semantic_transition_only | value_transition_only

datatype surface_profile = active_compatibility | candidate_profile | preactivation

record storage_surface =
  surfaceId :: string
  contractFile :: string
  surfaceProfile :: surface_profile
  refreshMode :: refresh_mode
  neutralMaintenanceEligible :: bool
  reason :: string

definition surface :: "string \<Rightarrow> string \<Rightarrow> surface_profile \<Rightarrow> refresh_mode \<Rightarrow> string \<Rightarrow> storage_surface" where
  "surface sid file p mode why = \<lparr> surfaceId = sid, contractFile = file, surfaceProfile = p, refreshMode = mode,
     neutralMaintenanceEligible = (mode = neutral_successor), reason = why \<rparr>"

definition STORAGE_RENT_SURFACE_INVENTORY :: "storage_surface list" where
  "STORAGE_RENT_SURFACE_INVENTORY =
    [surface ''side-chain-state-v1'' ''SideChainState.es'' active_compatibility semantic_transition_only
       ''a successor must advance sidechain height and state metadata'',
     surface LEGACY_SPV_TRACKER_STORAGE_RENT_PROFILE ''SPVTracker.es'' active_compatibility neutral_successor
       ''the no-ingest branch preserves R5 and R7 while advancing only R4 and R8'',
     surface ''substrate-grandpa-authenticated-spv-tracker-v2'' ''SPVTrackerAuthenticated.es'' candidate_profile semantic_transition_only
       ''every accepted successor binds an authenticated checkpoint transition'',
     surface ''validity-spv-tracker-v1'' ''SPVTrackerValidityV1.es'' preactivation semantic_transition_only
       ''every successor binds a validity-proof transition'',
     surface ''validity-application-spv-tracker-v2'' ''SPVTrackerValidityApplicationV2.es'' preactivation semantic_transition_only
       ''every successor binds an application validity-proof transition'',
     surface ''validity-application-lineage-spv-tracker-v3'' ''SPVTrackerValidityApplicationLineageV3.es'' preactivation semantic_transition_only
       ''every successor binds an application proof and lineage transition'',
     surface ''validity-application-pooled-reserve-spv-tracker-v4'' ''SPVTrackerValidityApplicationPooledReserveV4.es'' preactivation semantic_transition_only
       ''every successor binds an application proof and pooled-reserve transition'',
     surface ''pooled-reserve-burn-spv-tracker-v4'' ''SPVTrackerPooledReserveBurnV4.es'' preactivation semantic_transition_only
       ''every successor binds a pooled-reserve burn-proof transition'',
     surface ''pooled-reserve-burn-spv-tracker-v5'' ''SPVTrackerPooledReserveBurnV5.es'' preactivation semantic_transition_only
       ''every successor binds a versioned pooled-reserve burn-proof transition'',
     surface ''pooled-reserve-burn-settlement-spv-tracker-v5'' ''SPVTrackerPooledReserveBurnSettlementV5.es'' preactivation semantic_transition_only
       ''every successor binds the integrated V5 burn-settlement proof transition'',
     surface ''pooled-reserve-burn-settlement-spv-tracker-v6'' ''SPVTrackerPooledReserveBurnSettlementV6.es'' preactivation semantic_transition_only
       ''every successor binds the V6 lineage and retained V5 burn-settlement proof transition'',
     surface ''substrate-federated-spv-tracker-v1'' ''SPVTrackerSubstrateFederatedV1.es'' candidate_profile semantic_transition_only
       ''every successor binds a federation-authorized checkpoint and tracker transition'',
     surface ''double-unlock-prevention-v1'' ''DoubleUnlockPrevention.es'' active_compatibility semantic_transition_only
       ''every ordinary spend inserts a replay key into the AVL tree'',
     surface ''double-unlock-prevention-aggregate-v1'' ''DoubleUnlockPreventionAggregate.es'' active_compatibility semantic_transition_only
       ''every ordinary spend inserts an aggregate replay key'',
     surface ''double-unlock-prevention-aggregate-batch-v1'' ''DoubleUnlockPreventionAggregateBatch.es'' candidate_profile semantic_transition_only
       ''every ordinary spend inserts one or more aggregate replay keys'',
     surface ''double-unlock-prevention-authenticated-v2'' ''DoubleUnlockPreventionAuthenticated.es'' candidate_profile semantic_transition_only
       ''every ordinary spend binds an authenticated settlement replay insertion'',
     surface ''double-unlock-prevention-authenticated-external-fee-v1'' ''DoubleUnlockPreventionAuthenticatedExternalFeeV1.es'' candidate_profile semantic_transition_only
       ''every ordinary spend binds an authenticated replay insertion'',
     surface ''double-unlock-prevention-causal-v2'' ''DoubleUnlockPreventionCausalV2.es'' candidate_profile semantic_transition_only
       ''every ordinary spend binds a causal settlement replay insertion'',
     surface ''double-unlock-prevention-validity-v1'' ''DoubleUnlockPreventionValidityV1.es'' preactivation semantic_transition_only
       ''every ordinary spend binds a validity-settlement replay insertion'',
     surface ''double-unlock-prevention-validity-application-v2'' ''DoubleUnlockPreventionValidityApplicationV2.es'' preactivation semantic_transition_only
       ''every ordinary spend binds an application-validity replay insertion'',
     surface ''double-unlock-prevention-pooled-reserve-v4'' ''DoubleUnlockPreventionPooledReserveV4.es'' preactivation semantic_transition_only
       ''every ordinary spend binds a pooled-reserve replay insertion'',
     surface ''double-unlock-prevention-pooled-reserve-v5'' ''DoubleUnlockPreventionPooledReserveV5.es'' preactivation semantic_transition_only
       ''every ordinary spend binds the V5 replay insertion and successor lineage'',
     surface ''double-unlock-prevention-pooled-reserve-v6'' ''DoubleUnlockPreventionPooledReserveV6.es'' preactivation semantic_transition_only
       ''every ordinary spend binds the V6 burn proof and replay insertion'',
     surface ''double-unlock-prevention-substrate-federated-v1'' ''DoubleUnlockPreventionSubstrateFederatedV1.es'' candidate_profile semantic_transition_only
       ''every ordinary spend binds the federated burn proof and replay insertion'',
     surface ''main-chain-lock-v1'' ''MainChainLock.es'' active_compatibility value_transition_only
       ''ordinary spends are deposit commitment or depositor refund transitions'',
     surface ''main-chain-lock-causal-v2'' ''MainChainLockCausalV2.es'' candidate_profile value_transition_only
       ''ordinary spends are causal commitment or depositor refund transitions'',
     surface ''main-chain-lock-causal-lineage-v3'' ''MainChainLockCausalLineageV3.es'' candidate_profile value_transition_only
       ''ordinary spends are lineage-bound commitment or depositor refund transitions'',
     surface ''main-chain-lock-pooled-reserve-v4'' ''MainChainLockPooledReserveV4.es'' preactivation value_transition_only
       ''ordinary spends are pooled-reserve commitment or depositor refund transitions'',
     surface ''main-chain-lock-pooled-reserve-v5'' ''MainChainLockPooledReserveV5.es'' preactivation value_transition_only
       ''ordinary spends are V5 pooled-reserve commitment or depositor refund transitions'',
     surface ''main-chain-lock-pooled-reserve-v6'' ''MainChainLockPooledReserveV6.es'' preactivation value_transition_only
       ''ordinary spends are V6 pooled-reserve commitment or depositor refund transitions'',
     surface ''main-chain-unlock-v1'' ''MainChainUnlock.es'' active_compatibility value_transition_only
       ''ordinary spends release or return settlement value'',
     surface ''main-chain-aggregate-unlock-v1'' ''MainChainAggregateUnlock.es'' active_compatibility value_transition_only
       ''ordinary spends execute aggregate settlement value release'',
     surface ''main-chain-aggregate-unlock-trustless-candidate-v1'' ''MainChainAggregateUnlockTrustless.es'' candidate_profile value_transition_only
       ''ordinary spends execute a proof-bound settlement value release'',
     surface ''main-chain-aggregate-unlock-authenticated-v2'' ''MainChainAggregateUnlockAuthenticated.es'' candidate_profile value_transition_only
       ''ordinary spends execute an authenticated settlement value release'',
     surface ''main-chain-aggregate-unlock-authenticated-external-fee-v1'' ''MainChainAggregateUnlockAuthenticatedExternalFeeV1.es'' candidate_profile value_transition_only
       ''ordinary spends execute an authenticated settlement value release'',
     surface ''main-chain-aggregate-unlock-batch-v1'' ''MainChainAggregateUnlockBatch.es'' candidate_profile value_transition_only
       ''ordinary spends execute one or more settlement value releases'',
     surface ''main-chain-causal-vault-v2'' ''MainChainCausalVaultV2.es'' candidate_profile value_transition_only
       ''ordinary spends change settlement liabilities through a causal payout'',
     surface ''main-chain-causal-vault-validity-v1'' ''MainChainCausalVaultValidityV1.es'' preactivation value_transition_only
       ''ordinary spends change settlement liabilities through a validity payout'',
     surface ''main-chain-causal-vault-validity-application-v2'' ''MainChainCausalVaultValidityApplicationV2.es'' preactivation value_transition_only
       ''ordinary spends change liabilities through an application-validity payout'',
     surface ''main-chain-pooled-reserve-validity-application-v4'' ''MainChainPooledReserveValidityApplicationV4.es'' preactivation value_transition_only
       ''ordinary spends change reserve value through a deposit or payout transition'',
     surface ''main-chain-pooled-reserve-validity-application-v5'' ''MainChainPooledReserveValidityApplicationV5.es'' preactivation value_transition_only
       ''ordinary spends change V5 reserve value through a deposit or payout transition'',
     surface ''main-chain-pooled-reserve-validity-application-v6'' ''MainChainPooledReserveValidityApplicationV6.es'' preactivation value_transition_only
       ''ordinary spends change V6 reserve value through a deposit or payout transition'']"

datatype age_risk = fresh_box | watch | refresh_due | rent_eligible

datatype js_amount = ANumber int | AString string | ABigint int

datatype rent_error =
    NotBoxHex
  | UnknownSurface
  | NotHeight string
  | CreationAboveCurrent
  | NotPositiveSafe string
  | NotErgoLong string
  | NotPositive string
  | ObservedInFuture
  | NotSourceId
  | EligibilityUnsafe

record rent_input =
  inSurfaceId :: string
  inCurrentHeight :: int
  inCreationHeight :: int
  inSerializedSizeBytes :: int
  inValueNanoErg :: js_amount
  inStorageFeeFactor :: js_amount
  inParameterObservedAtHeight :: int
  inParameterSourceId :: string

record rent_projection =
  prSurfaceId :: string
  prContractFile :: string
  prCurrentHeight :: int
  prCreationHeight :: int
  prAgeBlocks :: int
  prRentEligibilityHeight :: int
  prBlocksUntilRentEligible :: int
  prSerializedSizeBytes :: int
  prValueNanoErg :: string
  prStorageFeeFactor :: string
  prProjectedStorageFee :: string
  prRetainedValueAfterRent :: string
  prFeeCovered :: bool
  prParameterObservedAtHeight :: int
  prParameterSourceId :: string
  prAgeRisk :: age_risk
  prNeutralMaintenanceEligible :: bool
  prRefreshMode :: refresh_mode

definition serializedBoxSizeBytesFromHex :: "string \<Rightarrow> rent_error + nat" where
  "serializedBoxSizeBytesFromHex serializedBoxHex =
     (let clean = strip0x serializedBoxHex in
      require (\<not> (\<not> (clean \<noteq> [] \<and> list_all isHexChar clean) \<or> length clean mod 2 \<noteq> 0)) NotBoxHex
      (Inr (length clean div 2)))"

definition requireSurface :: "string \<Rightarrow> rent_error + storage_surface" where
  "requireSurface sid = (case find (\<lambda>e. surfaceId e = sid) STORAGE_RENT_SURFACE_INVENTORY of
     None \<Rightarrow> Inl UnknownSurface | Some found \<Rightarrow> Inr found)"

definition storageRentAgeRisk :: "int \<Rightarrow> bool \<Rightarrow> age_risk" where
  "storageRentAgeRisk ageBlocks feeCovered =
     (if ageBlocks \<ge> ERGO_STORAGE_PERIOD_BLOCKS then rent_eligible
      else if \<not> feeCovered \<or> ageBlocks \<ge> REFRESH_DUE_AGE_BLOCKS then refresh_due
      else if ageBlocks \<ge> WATCH_AGE_BLOCKS then watch
      else fresh_box)"

definition nonnegativeHeight :: "int \<Rightarrow> string \<Rightarrow> rent_error + int" where
  "nonnegativeHeight value label = require (\<not> (\<not> isSafeInteger value \<or> value < 0)) (NotHeight label) (Inr value)"

definition positiveSafeInteger :: "int \<Rightarrow> string \<Rightarrow> rent_error + int" where
  "positiveSafeInteger value label = require (\<not> (\<not> isSafeInteger value \<or> value \<le> 0)) (NotPositiveSafe label) (Inr value)"

text \<open>\<^verbatim>\<open>BigInt(text)\<close>: blanks around are dropped, the empty text is zero, a decimal number may have a sign, a number
  with a radix prefix may not; \<open>None\<close> where it throws.\<close>

definition radixDigits :: "nat \<Rightarrow> string \<Rightarrow> int option" where
  "radixDigits base ds = (if ds \<noteq> [] \<and> list_all (\<lambda>c. case hexVal c of None \<Rightarrow> False | Some d \<Rightarrow> d < base) ds
     then Some (foldl (\<lambda>a c. a * int base + int (the (hexVal c))) 0 ds) else None)"

definition bigintOfString :: "string \<Rightarrow> int option" where
  "bigintOfString text = (let t = trimBlanks text; prefix = lowerStr (take 2 t) in
     if t = [] then Some 0
     else if prefix = ''0x'' then radixDigits 16 (drop 2 t)
     else if prefix = ''0o'' then radixDigits 8 (drop 2 t)
     else if prefix = ''0b'' then radixDigits 2 (drop 2 t)
     else if take 1 t = ''-'' then map_option uminus (radixDigits 10 (drop 1 t))
     else if take 1 t = ''+'' then radixDigits 10 (drop 1 t)
     else radixDigits 10 t)"

definition nonnegativeErgoLong :: "js_amount \<Rightarrow> string \<Rightarrow> rent_error + int" where
  "nonnegativeErgoLong value label =
     (case (case value of
         ANumber n \<Rightarrow> if \<not> isSafeInteger n \<or> n < 0 then None else Some n
       | AString s \<Rightarrow> bigintOfString s
       | ABigint n \<Rightarrow> Some n) of
       None \<Rightarrow> Inl (NotErgoLong label)
     | Some parsed \<Rightarrow> require (\<not> (parsed < 0 \<or> parsed > MAX_SIGNED_LONG)) (NotErgoLong label) (Inr parsed))"

definition positiveErgoLong :: "js_amount \<Rightarrow> string \<Rightarrow> rent_error + int" where
  "positiveErgoLong value label =
     andThen (nonnegativeErgoLong value label) (\<lambda>parsed. require (parsed \<noteq> 0) (NotPositive label) (Inr parsed))"

definition isSourceIdStart :: "char \<Rightarrow> bool" where
  "isSourceIdStart c \<longleftrightarrow> (97 \<le> code c \<and> code c \<le> 122) \<or> isDigit c"

definition opaqueSourceId :: "string \<Rightarrow> rent_error + string" where
  "opaqueSourceId value =
     require (\<not> (length value = 0 \<or> length value > 128
       \<or> \<not> (isSourceIdStart (hd value) \<and> list_all (\<lambda>c. isSourceIdStart c \<or> c \<in> set ''._:-'') (tl value)))) NotSourceId (Inr value)"

definition projectStorageRent :: "rent_input \<Rightarrow> rent_error + rent_projection" where
  "projectStorageRent input =
     andThen (requireSurface (inSurfaceId input)) (\<lambda>sf.
     andThen (nonnegativeHeight (inCurrentHeight input) ''current height'') (\<lambda>currentHeight.
     andThen (nonnegativeHeight (inCreationHeight input) ''creation height'') (\<lambda>creationHeight.
     require (\<not> creationHeight > currentHeight) CreationAboveCurrent
     (andThen (positiveSafeInteger (inSerializedSizeBytes input) ''serialized box size'') (\<lambda>size.
      andThen (nonnegativeErgoLong (inValueNanoErg input) ''box value'') (\<lambda>value.
      andThen (positiveErgoLong (inStorageFeeFactor input) ''storage fee factor'') (\<lambda>factor.
      andThen (nonnegativeHeight (inParameterObservedAtHeight input) ''storage fee factor observation height'') (\<lambda>observedAt.
      require (\<not> observedAt > currentHeight) ObservedInFuture
      (andThen (opaqueSourceId (inParameterSourceId input)) (\<lambda>source.
       let ageBlocks = currentHeight - creationHeight;
           rentEligibilityHeight = creationHeight + ERGO_STORAGE_PERIOD_BLOCKS in
       require (isSafeInteger rentEligibilityHeight) EligibilityUnsafe
       (let projectedFee = factor * size;
            retainedValue = value - projectedFee;
            feeCovered = retainedValue > 0 in
        Inr \<lparr> prSurfaceId = surfaceId sf, prContractFile = contractFile sf, prCurrentHeight = currentHeight,
          prCreationHeight = creationHeight, prAgeBlocks = ageBlocks, prRentEligibilityHeight = rentEligibilityHeight,
          prBlocksUntilRentEligible = max 0 (rentEligibilityHeight - currentHeight), prSerializedSizeBytes = size,
          prValueNanoErg = decStr (nat value), prStorageFeeFactor = decStr (nat factor),
          prProjectedStorageFee = decStr (nat projectedFee),
          prRetainedValueAfterRent = decStr (nat (if retainedValue > 0 then retainedValue else 0)),
          prFeeCovered = feeCovered, prParameterObservedAtHeight = observedAt, prParameterSourceId = source,
          prAgeRisk = storageRentAgeRisk ageBlocks feeCovered,
          prNeutralMaintenanceEligible = neutralMaintenanceEligible sf, prRefreshMode = refreshMode sf \<rparr>)))))))))))"



section \<open>Properties\<close>

lemma inventory_distinct: "distinct (map surfaceId STORAGE_RENT_SURFACE_INVENTORY)"
  by code_simp

lemma inventory_neutral:
  "filter neutralMaintenanceEligible STORAGE_RENT_SURFACE_INVENTORY =
     filter (\<lambda>e. surfaceId e = LEGACY_SPV_TRACKER_STORAGE_RENT_PROFILE) STORAGE_RENT_SURFACE_INVENTORY"
  by code_simp

lemma inventory_tracker: "LEGACY_SPV_TRACKER_STORAGE_RENT_PROFILE \<in> set (map surfaceId STORAGE_RENT_SURFACE_INVENTORY)"
  by code_simp

lemma requireSurface_iff:
  "requireSurface sid = Inr sf \<longleftrightarrow> sf \<in> set STORAGE_RENT_SURFACE_INVENTORY \<and> surfaceId sf = sid"
proof
  assume "requireSurface sid = Inr sf"
  then show "sf \<in> set STORAGE_RENT_SURFACE_INVENTORY \<and> surfaceId sf = sid"
    by (auto simp: requireSurface_def find_Some_iff split: option.splits)
next
  assume sf: "sf \<in> set STORAGE_RENT_SURFACE_INVENTORY \<and> surfaceId sf = sid"
  then obtain g where g: "find (\<lambda>e. surfaceId e = sid) STORAGE_RENT_SURFACE_INVENTORY = Some g"
    by (cases "find (\<lambda>e. surfaceId e = sid) STORAGE_RENT_SURFACE_INVENTORY") (auto simp: find_None_iff)
  then have "g \<in> set STORAGE_RENT_SURFACE_INVENTORY" "surfaceId g = sid" by (auto simp: find_Some_iff)
  with sf inventory_distinct have "g = sf" by (metis distinct_map inj_onD)
  with g show "requireSurface sid = Inr sf" by (simp add: requireSurface_def)
qed

text \<open>One box can be kept alive without moving value: the surface ids are unique, so a lookup is decided by the id
  alone, and of all the surfaces only the legacy tracker may be refreshed by a neutral successor.\<close>

theorem neutral_surface_unique:
  "(\<exists>sf. requireSurface sid = Inr sf \<and> neutralMaintenanceEligible sf) \<longleftrightarrow> sid = LEGACY_SPV_TRACKER_STORAGE_RENT_PROFILE"
proof -
  have "(\<exists>sf. requireSurface sid = Inr sf \<and> neutralMaintenanceEligible sf) \<longleftrightarrow>
      (\<exists>sf \<in> set (filter neutralMaintenanceEligible STORAGE_RENT_SURFACE_INVENTORY). surfaceId sf = sid)"
    unfolding requireSurface_iff by auto
  also have "\<dots> \<longleftrightarrow> sid = LEGACY_SPV_TRACKER_STORAGE_RENT_PROFILE
      \<and> LEGACY_SPV_TRACKER_STORAGE_RENT_PROFILE \<in> set (map surfaceId STORAGE_RENT_SURFACE_INVENTORY)"
    unfolding inventory_neutral by (auto simp: image_iff) metis
  finally show ?thesis
    using inventory_tracker by simp
qed

lemma ergoLong_bounds: "nonnegativeErgoLong v l = Inr n \<Longrightarrow> 0 \<le> n \<and> n \<le> MAX_SIGNED_LONG"
  by (auto simp: nonnegativeErgoLong_def result_simps split: option.splits)

lemma positiveErgoLong_bounds: "positiveErgoLong v l = Inr n \<Longrightarrow> 0 < n \<and> n \<le> MAX_SIGNED_LONG"
  by (auto simp: positiveErgoLong_def result_simps dest!: ergoLong_bounds)

lemma projection_inversion:
  assumes "projectStorageRent input = Inr p"
  obtains sf v factor where "requireSurface (inSurfaceId input) = Inr sf"
    and "nonnegativeErgoLong (inValueNanoErg input) ''box value'' = Inr v"
    and "positiveErgoLong (inStorageFeeFactor input) ''storage fee factor'' = Inr factor"
    and "0 \<le> inCreationHeight input" and "inCreationHeight input \<le> inCurrentHeight input" and "0 < inSerializedSizeBytes input"
    and "isSafeInteger (inCreationHeight input + ERGO_STORAGE_PERIOD_BLOCKS)"
    and "prCurrentHeight p = inCurrentHeight input" and "prAgeBlocks p = inCurrentHeight input - inCreationHeight input"
    and "prRentEligibilityHeight p = inCreationHeight input + ERGO_STORAGE_PERIOD_BLOCKS"
    and "prBlocksUntilRentEligible p = max 0 (inCreationHeight input + ERGO_STORAGE_PERIOD_BLOCKS - inCurrentHeight input)"
    and "prValueNanoErg p = decStr (nat v)" and "prProjectedStorageFee p = decStr (nat (factor * inSerializedSizeBytes input))"
    and "prRetainedValueAfterRent p = decStr (nat (max 0 (v - factor * inSerializedSizeBytes input)))"
    and "prFeeCovered p = (v - factor * inSerializedSizeBytes input > 0)"
    and "prAgeRisk p = storageRentAgeRisk (prAgeBlocks p) (prFeeCovered p)"
    and "prNeutralMaintenanceEligible p = neutralMaintenanceEligible sf"
  using assms unfolding projectStorageRent_def
  by (auto simp: result_simps Let_def nonnegativeHeight_def positiveSafeInteger_def opaqueSourceId_def max_def)

text \<open>The projection adds up: on every input it accepts, fee and retained value are bounded by what the box holds (they
  sum to it exactly when the fee is covered, and the box keeps nothing otherwise), the eligibility height is a
  safe integer, and the box is reported rent eligible just when no blocks are left until that height.\<close>

theorem projection_exact:
  assumes "projectStorageRent input = Inr p"
  shows "(if prFeeCovered p then decVal (prProjectedStorageFee p) + decVal (prRetainedValueAfterRent p) = decVal (prValueNanoErg p)
            \<and> 0 < decVal (prRetainedValueAfterRent p)
          else decVal (prRetainedValueAfterRent p) = 0 \<and> decVal (prValueNanoErg p) \<le> decVal (prProjectedStorageFee p))
    \<and> 0 < decVal (prProjectedStorageFee p) \<and> decVal (prValueNanoErg p) \<le> MAX_SIGNED_LONG
    \<and> isSafeInteger (prRentEligibilityHeight p)
    \<and> (prAgeRisk p = rent_eligible \<longleftrightarrow> prBlocksUntilRentEligible p = 0)
    \<and> (prAgeRisk p = rent_eligible \<longleftrightarrow> prRentEligibilityHeight p \<le> prCurrentHeight p)"
  using assms
proof (cases rule: projection_inversion)
  case (1 sf v factor)
  note val = ergoLong_bounds [OF 1(2)] and f = positiveErgoLong_bounds [OF 1(3)]
  have fee: "0 < factor * inSerializedSizeBytes input" using f 1(6) by simp
  have risk: "prAgeRisk p = rent_eligible \<longleftrightarrow> prAgeBlocks p \<ge> ERGO_STORAGE_PERIOD_BLOCKS"
    unfolding 1(16) by (auto simp: storageRentAgeRisk_def)
  have "prAgeRisk p = rent_eligible \<longleftrightarrow> prBlocksUntilRentEligible p = 0"
    "prAgeRisk p = rent_eligible \<longleftrightarrow> prRentEligibilityHeight p \<le> prCurrentHeight p"
    unfolding risk using 1(8-11) by auto
  moreover have "if prFeeCovered p then decVal (prProjectedStorageFee p) + decVal (prRetainedValueAfterRent p) = decVal (prValueNanoErg p)
      \<and> 0 < decVal (prRetainedValueAfterRent p)
    else decVal (prRetainedValueAfterRent p) = 0 \<and> decVal (prValueNanoErg p) \<le> decVal (prProjectedStorageFee p)"
    using val fee by (simp add: 1(12-15) decVal_decStr)
  ultimately show ?thesis using val fee 1(7) by (simp add: 1(10,12,13) decVal_decStr)
qed

definition riskLevel :: "age_risk \<Rightarrow> nat" where
  "riskLevel r = (case r of fresh_box \<Rightarrow> 0 | watch \<Rightarrow> 1 | refresh_due \<Rightarrow> 2 | rent_eligible \<Rightarrow> 3)"

text \<open>The alert level never falls while a box ages or its value stops covering the fee.\<close>

theorem ageRisk_monotone:
  assumes "age \<le> age'" and "covered' \<longrightarrow> covered"
  shows "riskLevel (storageRentAgeRisk age covered) \<le> riskLevel (storageRentAgeRisk age' covered')"
  using assms by (auto simp: storageRentAgeRisk_def riskLevel_def WATCH_AGE_BLOCKS_def REFRESH_DUE_AGE_BLOCKS_def
      ERGO_STORAGE_PERIOD_BLOCKS_def)

theorem ageRisk_monotone_witness:
  "riskLevel (storageRentAgeRisk 788399 True) \<le> riskLevel (storageRentAgeRisk 946080 False)"
  by (rule ageRisk_monotone) simp_all

definition demoRent :: rent_input where
  "demoRent = \<lparr> inSurfaceId = ''main-chain-unlock-v1'', inCurrentHeight = 1100000, inCreationHeight = 48800,
     inSerializedSizeBytes = 200, inValueNanoErg = AString ''1000000000'', inStorageFeeFactor = ANumber 1250000,
     inParameterObservedAtHeight = 1099000, inParameterSourceId = ''node-1'' \<rparr>"

lemma demoRent_ok: "isOk (projectStorageRent demoRent)"
proof -
  have "isOk (requireSurface ''main-chain-unlock-v1'')" by code_simp
  then obtain sf where "requireSurface ''main-chain-unlock-v1'' = Inr sf" by (auto simp: isOk_iff)
  moreover have "nonnegativeErgoLong (AString ''1000000000'') l = Inr 1000000000" for l by code_simp
  moreover have "positiveErgoLong (ANumber 1250000) l = Inr 1250000" for l by code_simp
  moreover have "opaqueSourceId ''node-1'' = Inr ''node-1''" by code_simp
  ultimately show ?thesis
    by (simp add: projectStorageRent_def demoRent_def nonnegativeHeight_def positiveSafeInteger_def safe_defs
        ERGO_STORAGE_PERIOD_BLOCKS_def)
qed

theorem projection_exact_witness:
  "\<exists>p. projectStorageRent demoRent = Inr p \<and> isSafeInteger (prRentEligibilityHeight p)
     \<and> (prAgeRisk p = rent_eligible \<longleftrightarrow> prBlocksUntilRentEligible p = 0)"
  using demoRent_ok projection_exact by (auto simp: isOk_iff)

end
