(* ===== verification/Settlement_Lifecycle.thy ===== *)
theory Settlement_Lifecycle
  imports Port_Run
begin

text \<open>
  The authenticated settlement execution lifecycle
  (\<^verbatim>\<open>relayer-core/authenticated-settlement-execution-lifecycle.ts\<close>), the path on which the relayer releases funds:
  eleven ports from revalidation to an execution reservation, seven from there to the submission of the signed
  transaction and its confirmation, and the reconciliation of a submission after a restart.

  JavaScript compares parents by object identity. An object is a record with its identity, a number, and a field
  that holds an object holds its identity; \<open>exactParent\<close> compares two of them. What a port returns is whatever
  the port likes: any identity, any content, \<open>None\<close> for a text that is missing; an answer is an object or \<^verbatim>\<open>null\<close>,
  as its declared type says, never \<^verbatim>\<open>undefined\<close>. The digests of an artifact are
  looked up by key, as \<open>assertBinding\<close> does with \<^verbatim>\<open>record[key]\<close>. The three \<^verbatim>\<open>WeakSet\<close>s are lists of
  identities, and objects the module makes get a new identity. An artifact does not change while one function
  runs; between preparation and execution it may, which is why the second function checks everything again.
  Every branded object is frozen before it is registered, so the \<^verbatim>\<open>Object.isFrozen\<close> guards are subsumed.
\<close>

section \<open>Objects\<close>

type_synonym ref = nat

datatype digest_key =
    unsignedTxDigestHex | unsignedPackageDigestHex | payoutDigestHex | revalidationDigestHex | packageBindingDigestHex
  | signedTransactionDigestHex | signerContextDigestHex | checkResponseDigestHex | checkerIdentityDigestHex
  | stableErgoViewDigestHex | stableSidechainViewDigestHex | admissionDigestHex | authorizationDigestHex
  | reservationDigestHex | preSubmitRevalidationDigestHex | broadcastAuthorizationDigestHex
  | transportReservationDigestHex | durableAttemptDigestHex | observationDigestHex

record lifecycle_binding =
  self :: ref
  candidate :: ref
  candidateId :: "string option"
  expectedTxId :: "string option"
  trackerBoxId :: "string option"
  duplicatePreventionBoxId :: "string option"
  digestOf :: "digest_key \<Rightarrow> string option"

record lifecycle_input =
  inSelf :: ref
  inCandidate :: ref
  inCandidateId :: "string option"
  inTrackerBoxId :: "string option"
  inDuplicatePreventionBoxId :: "string option"
  inUnsignedTxDigestHex :: "string option"
  inUnsignedPackageDigestHex :: "string option"
  inPayoutDigestHex :: "string option"

record revalidation = lifecycle_binding +
  rvInput :: ref
  rvPrepared :: ref

record package_binding = lifecycle_binding +
  pbRevalidation :: ref
  pbPrepared :: ref

record signed_package = lifecycle_binding +
  sgPackageBinding :: ref
  sgSignedArtifact :: "ref option"

record checked_artifact = lifecycle_binding +
  ckSigned :: ref

record stable_observation = lifecycle_binding +
  soCheck :: ref
  soViewDigestHex :: "string option"

record check_admission = lifecycle_binding +
  caCheck :: ref
  caStableErgoView :: ref
  caStableSidechainView :: ref

record check_journal = lifecycle_binding +
  cjAdmission :: ref
  cjApplied :: bool
  cjStatus :: string

record execution_authorization = lifecycle_binding +
  eaCheckAdmission :: ref
  eaCheckJournal :: ref

record reservation_admission = lifecycle_binding +
  raAuthorization :: ref

record execution_reservation = lifecycle_binding +
  erAdmission :: ref
  erApplied :: bool
  erStatus :: string

record pre_submit_request =
  psSelf :: ref
  psReservation :: ref
  psSignedArtifact :: "ref option"

record immediate_revalidation = lifecycle_binding +
  irRequest :: ref
  irSignedArtifact :: "ref option"
  irStatus :: string

record broadcast_authorization = lifecycle_binding +
  baRevalidation :: ref
  baSignedArtifact :: "ref option"

record transport_request =
  tqSelf :: ref
  tqAuthorization :: broadcast_authorization
  tqRevalidation :: immediate_revalidation
  tqSignedArtifact :: "ref option"

record transport_reservation = lifecycle_binding +
  trAuthorization :: ref
  trSignedArtifact :: "ref option"
  trApplied :: bool
  trStatus :: string

record submit_request =
  sqSelf :: ref
  sqAuthorization :: ref
  sqTransportReservation :: ref
  sqSignedArtifact :: "ref option"
  sqSignedTransactionDigestHex :: "string option"

datatype submit_status = accepted | rejected | ambiguous | other_status string

record submit_result = lifecycle_binding +
  suRequest :: ref
  suSignedArtifact :: "ref option"
  suStatus :: submit_status
  suSubmittedTxId :: "string option"

record submission_finalization = lifecycle_binding +
  sfRequest :: ref
  sfSubmission :: "ref option"
  sfApplied :: bool
  sfStatus :: string
  sfSubmittedTxId :: "string option"

datatype observation_status = submitted_unconfirmed | observed_confirmed | inconclusive | stale | reorged

record confirmation_observation = lifecycle_binding +
  coFinalization :: ref
  coStatus :: observation_status

record confirmation_journal = lifecycle_binding +
  cnObservation :: ref
  cnApplied :: bool
  cnTerminalStateRetained :: "bool option"
  cnStatus :: string

datatype lifecycle_status = submitted | pending_reconciliation | confirmed | fail_closed

record reserved_identity =
  idCandidateId :: "string option"
  idExpectedTxId :: "string option"
  idTrackerBoxId :: "string option"
  idDuplicatePreventionBoxId :: "string option"
  idDigestOf :: "digest_key \<Rightarrow> string option"

record reserved_handoff =
  hoSelf :: ref
  hoSchema :: string
  hoInput :: lifecycle_input
  hoIdentity :: reserved_identity
  hoCandidate :: ref
  hoRevalidation :: revalidation
  hoPackageBinding :: package_binding
  hoSigned :: signed_package
  hoSignedArtifact :: "ref option"
  hoCheck :: checked_artifact
  hoStableErgoView :: stable_observation
  hoStableSidechainView :: stable_observation
  hoCheckAdmission :: check_admission
  hoCheckJournal :: check_journal
  hoAuthorization :: execution_authorization
  hoReservationAdmission :: reservation_admission
  hoReservation :: execution_reservation
  hoLaterExecutionRequired :: bool
  hoSubmissionCapabilityPresent :: bool
  hoFundsAuthorityGranted :: bool

record lifecycle_handoff =
  lhSelf :: ref
  lhSchema :: string
  lhStatus :: lifecycle_status
  lhCandidate :: ref
  lhSignedArtifact :: "ref option"
  lhSigned :: signed_package
  lhCheck :: checked_artifact
  lhAuthorization :: execution_authorization
  lhReservation :: execution_reservation
  lhImmediateRevalidation :: immediate_revalidation
  lhBroadcastAuthorization :: broadcast_authorization
  lhTransportReservation :: transport_reservation
  lhSubmission :: "submit_result option"
  lhFinalization :: submission_finalization
  lhConfirmation :: "confirmation_observation option"
  lhConfirmationJournal :: "confirmation_journal option"
  lhPortsAloneGrantFundsAuthority :: bool
  lhFreshRestartCannotRecreateEphemeralAuthority :: bool

datatype settlement_error =
    NotCanonicalHex string
  | BindingMismatch string
  | IdentityLost string
  | NoEstablishedBinding string
  | SignedArtifactUnavailable
  | NotApplied string
  | UnsupportedStatus string
  | UnsupportedSubmission
  | FinalizedIdInconsistent
  | ProvenanceMissing
  | ProvenanceInconsistent
  | NotDurable
  | StatusMismatch
  | PortThrew string


section \<open>The binding established so far\<close>

record expected_binding =
  exCandidate :: ref
  exCandidateId :: string
  exExpectedTxId :: "string option"
  exTrackerBoxId :: string
  exDuplicatePreventionBoxId :: string
  exDigest :: "digest_key \<Rightarrow> string option"

definition CHECK_DIGESTS :: "digest_key list" where
  "CHECK_DIGESTS = [unsignedTxDigestHex, unsignedPackageDigestHex, payoutDigestHex, revalidationDigestHex,
     packageBindingDigestHex, signedTransactionDigestHex, signerContextDigestHex, checkResponseDigestHex,
     checkerIdentityDigestHex]"

definition ADMISSION_DIGESTS :: "digest_key list" where
  "ADMISSION_DIGESTS = CHECK_DIGESTS @ [stableErgoViewDigestHex, stableSidechainViewDigestHex, admissionDigestHex]"

definition RESERVATION_DIGESTS :: "digest_key list" where
  "RESERVATION_DIGESTS = ADMISSION_DIGESTS @ [authorizationDigestHex, reservationDigestHex]"

definition PRE_SUBMIT_DIGESTS :: "digest_key list" where
  "PRE_SUBMIT_DIGESTS = RESERVATION_DIGESTS @ [preSubmitRevalidationDigestHex]"

definition BROADCAST_DIGESTS :: "digest_key list" where
  "BROADCAST_DIGESTS = PRE_SUBMIT_DIGESTS @ [broadcastAuthorizationDigestHex]"

definition TRANSPORT_DIGESTS :: "digest_key list" where
  "TRANSPORT_DIGESTS = BROADCAST_DIGESTS @ [transportReservationDigestHex, durableAttemptDigestHex]"

definition canonicalHex :: "string option \<Rightarrow> string \<Rightarrow> settlement_error + string" where
  "canonicalHex value label = (case value of
       None \<Rightarrow> Inl (NotCanonicalHex label)
     | Some v \<Rightarrow> require (isHex64 v) (NotCanonicalHex label) (Inr v))"

definition exactCanonicalHex :: "string option \<Rightarrow> string \<Rightarrow> string \<Rightarrow> settlement_error + string" where
  "exactCanonicalHex actual expected label =
     andThen (canonicalHex actual label) (\<lambda>canonical. require (canonical = expected) (BindingMismatch label) (Inr canonical))"

definition exactParent :: "'r \<Rightarrow> 'r \<Rightarrow> string \<Rightarrow> settlement_error + 'a \<Rightarrow> settlement_error + 'a" where
  "exactParent actual expected label k = require (actual = expected) (IdentityLost label) k"

definition requiredExpectedTxId :: "expected_binding \<Rightarrow> string \<Rightarrow> settlement_error + string" where
  "requiredExpectedTxId expected label = (case exExpectedTxId expected of
     None \<Rightarrow> Inl (NoEstablishedBinding label) | Some t \<Rightarrow> Inr t)"

fun assertDigests :: "(digest_key \<Rightarrow> string option) \<Rightarrow> string \<Rightarrow> expected_binding \<Rightarrow> digest_key list \<Rightarrow> settlement_error + unit" where
  "assertDigests digests label expected [] = Inr ()"
| "assertDigests digests label expected (k # ks) = (case exDigest expected k of
       None \<Rightarrow> Inl (NoEstablishedBinding label)
     | Some d \<Rightarrow> andThen (exactCanonicalHex (digests k) d label) (\<lambda>_. assertDigests digests label expected ks))"

definition assertBinding :: "'z lifecycle_binding_scheme \<Rightarrow> string \<Rightarrow> expected_binding \<Rightarrow> digest_key list \<Rightarrow> settlement_error + unit" where
  "assertBinding value label expected digestKeys =
     exactParent (candidate value) (exCandidate expected) label
     (andThen (exactCanonicalHex (candidateId value) (exCandidateId expected) label) (\<lambda>_.
      andThen (requiredExpectedTxId expected label) (\<lambda>txId.
      andThen (exactCanonicalHex (expectedTxId value) txId label) (\<lambda>_.
      andThen (exactCanonicalHex (trackerBoxId value) (exTrackerBoxId expected) label) (\<lambda>_.
      andThen (exactCanonicalHex (duplicatePreventionBoxId value) (exDuplicatePreventionBoxId expected) label) (\<lambda>_.
      assertDigests (digestOf value) label expected digestKeys))))))"

definition requireAppliedStatus :: "bool \<Rightarrow> string \<Rightarrow> string \<Rightarrow> string \<Rightarrow> settlement_error + 'a \<Rightarrow> settlement_error + 'a" where
  "requireAppliedStatus applied status expected label k =
     require applied (NotApplied label) (require (status = expected) (UnsupportedStatus label) k)"

definition expectedFromInput :: "lifecycle_input \<Rightarrow> settlement_error + expected_binding" where
  "expectedFromInput input =
     andThen (canonicalHex (inCandidateId input) ''input candidate ID'') (\<lambda>cid.
     andThen (canonicalHex (inTrackerBoxId input) ''input tracker box ID'') (\<lambda>tracker.
     andThen (canonicalHex (inDuplicatePreventionBoxId input) ''input duplicate-prevention box ID'') (\<lambda>dup.
     andThen (canonicalHex (inUnsignedTxDigestHex input) ''input unsigned transaction digest'') (\<lambda>tx.
     andThen (canonicalHex (inUnsignedPackageDigestHex input) ''input unsigned package digest'') (\<lambda>pkg.
     andThen (canonicalHex (inPayoutDigestHex input) ''input payout digest'') (\<lambda>payout.
     Inr \<lparr> exCandidate = inCandidate input, exCandidateId = cid, exExpectedTxId = None, exTrackerBoxId = tracker,
           exDuplicatePreventionBoxId = dup,
           exDigest = [unsignedTxDigestHex \<mapsto> tx, unsignedPackageDigestHex \<mapsto> pkg, payoutDigestHex \<mapsto> payout] \<rparr>))))))"

text \<open>\<^verbatim>\<open>expected.key = canonicalHex(value, label)\<close>\<close>

definition establish :: "expected_binding \<Rightarrow> digest_key \<Rightarrow> string option \<Rightarrow> settlement_error + expected_binding" where
  "establish expected key value =
     andThen (canonicalHex value ''established digest'') (\<lambda>d. Inr (expected \<lparr> exDigest := (exDigest expected)(key \<mapsto> d) \<rparr>))"


section \<open>What is checked of each answer\<close>

definition acceptRevalidation :: "lifecycle_input \<Rightarrow> expected_binding \<Rightarrow> revalidation \<Rightarrow> settlement_error + expected_binding" where
  "acceptRevalidation input expected v =
     exactParent (rvInput v) (inSelf input) ''revalidation input''
     (andThen (canonicalHex (expectedTxId v) ''revalidated expected transaction ID'') (\<lambda>tx.
      let expected1 = expected \<lparr> exExpectedTxId := Some tx \<rparr> in
      andThen (assertBinding v ''revalidation'' expected1 [unsignedTxDigestHex, unsignedPackageDigestHex, payoutDigestHex]) (\<lambda>_.
      establish expected1 revalidationDigestHex (digestOf v revalidationDigestHex))))"

definition acceptPackageBinding :: "revalidation \<Rightarrow> expected_binding \<Rightarrow> package_binding \<Rightarrow> settlement_error + expected_binding" where
  "acceptPackageBinding rv expected v =
     exactParent (pbRevalidation v) (self rv) ''package binding revalidation''
     (exactParent (pbPrepared v) (rvPrepared rv) ''package binding prepared artifact''
     (andThen (assertBinding v ''package binding'' expected
        [unsignedTxDigestHex, unsignedPackageDigestHex, payoutDigestHex, revalidationDigestHex]) (\<lambda>_.
      establish expected packageBindingDigestHex (digestOf v packageBindingDigestHex))))"

definition acceptSigned :: "package_binding \<Rightarrow> expected_binding \<Rightarrow> signed_package \<Rightarrow> settlement_error + expected_binding" where
  "acceptSigned pb expected v =
     exactParent (sgPackageBinding v) (self pb) ''signed package binding''
     (andThen (assertBinding v ''signed artifact'' expected
        [unsignedTxDigestHex, unsignedPackageDigestHex, payoutDigestHex, revalidationDigestHex, packageBindingDigestHex]) (\<lambda>_.
      require (sgSignedArtifact v \<noteq> None) SignedArtifactUnavailable
      (andThen (establish expected signedTransactionDigestHex (digestOf v signedTransactionDigestHex)) (\<lambda>e.
       establish e signerContextDigestHex (digestOf v signerContextDigestHex)))))"

definition acceptCheck :: "signed_package \<Rightarrow> expected_binding \<Rightarrow> checked_artifact \<Rightarrow> settlement_error + expected_binding" where
  "acceptCheck sg expected v =
     exactParent (ckSigned v) (self sg) ''checked signed artifact''
     (andThen (assertBinding v ''checked artifact'' expected (take 7 CHECK_DIGESTS)) (\<lambda>_.
      andThen (establish expected checkResponseDigestHex (digestOf v checkResponseDigestHex)) (\<lambda>e.
      establish e checkerIdentityDigestHex (digestOf v checkerIdentityDigestHex))))"

definition acceptStableView :: "digest_key \<Rightarrow> string \<Rightarrow> checked_artifact \<Rightarrow> expected_binding \<Rightarrow> stable_observation
    \<Rightarrow> settlement_error + expected_binding" where
  "acceptStableView key label ck expected v =
     exactParent (soCheck v) (self ck) label
     (andThen (assertBinding v label expected CHECK_DIGESTS) (\<lambda>_. establish expected key (soViewDigestHex v)))"

definition acceptCheckAdmission :: "checked_artifact \<Rightarrow> stable_observation \<Rightarrow> stable_observation \<Rightarrow> expected_binding
    \<Rightarrow> check_admission \<Rightarrow> settlement_error + expected_binding" where
  "acceptCheckAdmission ck ergo side expected v =
     exactParent (caCheck v) (self ck) ''check admission check''
     (exactParent (caStableErgoView v) (self ergo) ''check admission stable Ergo view''
     (exactParent (caStableSidechainView v) (self side) ''check admission stable sidechain view''
     (andThen (assertBinding v ''check admission'' expected (butlast ADMISSION_DIGESTS)) (\<lambda>_.
      establish expected admissionDigestHex (digestOf v admissionDigestHex)))))"

definition acceptCheckJournal :: "check_admission \<Rightarrow> expected_binding \<Rightarrow> check_journal \<Rightarrow> settlement_error + expected_binding" where
  "acceptCheckJournal ca expected v =
     exactParent (cjAdmission v) (self ca) ''check journal admission''
     (andThen (assertBinding v ''check journal result'' expected ADMISSION_DIGESTS) (\<lambda>_.
      requireAppliedStatus (cjApplied v) (cjStatus v) ''check_passed'' ''check journal'' (Inr expected)))"

definition acceptAuthorization :: "check_admission \<Rightarrow> check_journal \<Rightarrow> expected_binding \<Rightarrow> execution_authorization
    \<Rightarrow> settlement_error + expected_binding" where
  "acceptAuthorization ca cj expected v =
     exactParent (eaCheckAdmission v) (self ca) ''execution authorization check admission''
     (exactParent (eaCheckJournal v) (self cj) ''execution authorization check journal''
     (andThen (assertBinding v ''execution authorization'' expected ADMISSION_DIGESTS) (\<lambda>_.
      establish expected authorizationDigestHex (digestOf v authorizationDigestHex))))"

definition acceptReservationAdmission :: "execution_authorization \<Rightarrow> expected_binding \<Rightarrow> reservation_admission
    \<Rightarrow> settlement_error + expected_binding" where
  "acceptReservationAdmission ea expected v =
     exactParent (raAuthorization v) (self ea) ''reservation admission authorization''
     (andThen (assertBinding v ''reservation admission'' expected (butlast RESERVATION_DIGESTS)) (\<lambda>_.
      establish expected reservationDigestHex (digestOf v reservationDigestHex)))"

definition acceptReservation :: "reservation_admission \<Rightarrow> expected_binding \<Rightarrow> execution_reservation
    \<Rightarrow> settlement_error + expected_binding" where
  "acceptReservation ra expected v =
     exactParent (erAdmission v) (self ra) ''execution reservation admission''
     (andThen (assertBinding v ''execution reservation'' expected RESERVATION_DIGESTS) (\<lambda>_.
      requireAppliedStatus (erApplied v) (erStatus v) ''active'' ''execution reservation journal'' (Inr expected)))"

definition acceptImmediateRevalidation :: "pre_submit_request \<Rightarrow> signed_package \<Rightarrow> expected_binding \<Rightarrow> immediate_revalidation
    \<Rightarrow> settlement_error + expected_binding" where
  "acceptImmediateRevalidation request sg expected v =
     exactParent (irRequest v) (psSelf request) ''immediate revalidation request''
     (exactParent (irSignedArtifact v) (sgSignedArtifact sg) ''immediate revalidation signed artifact''
     (andThen (assertBinding v ''immediate revalidation'' expected RESERVATION_DIGESTS) (\<lambda>_.
      require (irStatus v = ''valid'') (UnsupportedStatus ''immediate revalidation'')
      (establish expected preSubmitRevalidationDigestHex (digestOf v preSubmitRevalidationDigestHex)))))"

definition acceptBroadcast :: "immediate_revalidation \<Rightarrow> signed_package \<Rightarrow> expected_binding \<Rightarrow> broadcast_authorization
    \<Rightarrow> settlement_error + expected_binding" where
  "acceptBroadcast ir sg expected v =
     exactParent (baRevalidation v) (self ir) ''broadcast authorization revalidation''
     (exactParent (baSignedArtifact v) (sgSignedArtifact sg) ''broadcast authorization signed artifact''
     (andThen (assertBinding v ''broadcast authorization'' expected PRE_SUBMIT_DIGESTS) (\<lambda>_.
      establish expected broadcastAuthorizationDigestHex (digestOf v broadcastAuthorizationDigestHex))))"

definition acceptTransport :: "broadcast_authorization \<Rightarrow> signed_package \<Rightarrow> expected_binding \<Rightarrow> transport_reservation
    \<Rightarrow> settlement_error + expected_binding" where
  "acceptTransport ba sg expected v =
     exactParent (trAuthorization v) (self ba) ''transport reservation authorization''
     (exactParent (trSignedArtifact v) (sgSignedArtifact sg) ''transport reservation signed artifact''
     (andThen (assertBinding v ''transport reservation'' expected BROADCAST_DIGESTS) (\<lambda>_.
      andThen (establish expected transportReservationDigestHex (digestOf v transportReservationDigestHex)) (\<lambda>e.
      andThen (establish e durableAttemptDigestHex (digestOf v durableAttemptDigestHex)) (\<lambda>e'.
      requireAppliedStatus (trApplied v) (trStatus v) ''active'' ''transport reservation journal'' (Inr e'))))))"

text \<open>A submission that is \<^verbatim>\<open>null\<close> is not checked.\<close>

definition acceptSubmission :: "submit_request \<Rightarrow> signed_package \<Rightarrow> expected_binding \<Rightarrow> submit_result option
    \<Rightarrow> settlement_error + expected_binding" where
  "acceptSubmission request sg expected submission = (case submission of
       None \<Rightarrow> Inr expected
     | Some v \<Rightarrow>
         exactParent (suRequest v) (sqSelf request) ''submission request''
         (exactParent (suSignedArtifact v) (sgSignedArtifact sg) ''submitted signed artifact''
         (andThen (assertBinding v ''submission result'' expected TRANSPORT_DIGESTS) (\<lambda>_.
          if suStatus v = accepted
          then andThen (requiredExpectedTxId expected ''submission result'') (\<lambda>tx.
               andThen (exactCanonicalHex (suSubmittedTxId v) tx ''submitted transaction ID'') (\<lambda>_. Inr expected))
          else require (\<not> ((suStatus v \<noteq> rejected \<and> suStatus v \<noteq> ambiguous) \<or> suSubmittedTxId v \<noteq> None))
                 UnsupportedSubmission (Inr expected)))))"

definition acceptFinalization :: "submit_request \<Rightarrow> submit_result option \<Rightarrow> expected_binding \<Rightarrow> submission_finalization
    \<Rightarrow> settlement_error + expected_binding" where
  "acceptFinalization request submission expected v =
     (let wasAccepted = (map_option suStatus submission = Some accepted);
          wasRejected = (map_option suStatus submission = Some rejected) in
      exactParent (sfRequest v) (sqSelf request) ''submission finalization request''
      (exactParent (sfSubmission v) (map_option self submission) ''submission finalization result''
      (andThen (assertBinding v ''submission finalization'' expected TRANSPORT_DIGESTS) (\<lambda>_.
       require (sfApplied v) (NotApplied ''submission journal'')
       (require (sfStatus v = (if wasAccepted then ''submitted'' else if wasRejected then ''rejected'' else ''pending''))
          (UnsupportedStatus ''submission journal'')
       (if wasAccepted
        then andThen (requiredExpectedTxId expected ''submission finalization'') (\<lambda>tx.
             andThen (exactCanonicalHex (sfSubmittedTxId v) tx ''finalized submitted transaction ID'') (\<lambda>t.
             require (\<not> t \<noteq> tx) FinalizedIdInconsistent (Inr expected)))
        else require (\<not> sfSubmittedTxId v \<noteq> None) FinalizedIdInconsistent (Inr expected)))))))"

definition acceptConfirmation :: "submission_finalization \<Rightarrow> expected_binding \<Rightarrow> confirmation_observation
    \<Rightarrow> settlement_error + expected_binding" where
  "acceptConfirmation sf expected v =
     exactParent (coFinalization v) (self sf) ''confirmation observation finalization''
     (andThen (assertBinding v ''confirmation observation'' expected TRANSPORT_DIGESTS) (\<lambda>_.
      establish expected observationDigestHex (digestOf v observationDigestHex)))"

definition assertJournalApplicationOrTerminalRetention :: "bool \<Rightarrow> bool option \<Rightarrow> string \<Rightarrow> string \<Rightarrow> settlement_error + 'a \<Rightarrow> settlement_error + 'a" where
  "assertJournalApplicationOrTerminalRetention applied retained status label k =
     (if applied \<and> retained \<noteq> Some True then k
      else if \<not> applied \<and> retained = Some True \<and> status = ''quarantined'' then k
      else Inl (NotApplied label))"

definition acceptConfirmationJournal :: "confirmation_observation \<Rightarrow> expected_binding \<Rightarrow> confirmation_journal
    \<Rightarrow> settlement_error + expected_binding" where
  "acceptConfirmationJournal co expected v =
     exactParent (cnObservation v) (self co) ''confirmation journal observation''
     (andThen (assertBinding v ''confirmation journal result'' expected (TRANSPORT_DIGESTS @ [observationDigestHex])) (\<lambda>_.
      assertJournalApplicationOrTerminalRetention (cnApplied v) (cnTerminalStateRetained v) (cnStatus v)
        ''confirmation journal'' (Inr expected)))"

definition confirmationOutcomeStatus :: "observation_status \<Rightarrow> string \<Rightarrow> settlement_error + lifecycle_status" where
  "confirmationOutcomeStatus observation journal =
     (if journal = ''quarantined'' then Inr fail_closed
      else if observation = observed_confirmed \<and> journal = ''confirmed'' then Inr confirmed
      else if observation = submitted_unconfirmed \<and> journal = ''submitted'' then Inr submitted
      else if observation = inconclusive \<and> journal = ''pending_reconciliation'' then Inr pending_reconciliation
      else Inl StatusMismatch)"


section \<open>Ports and runs\<close>

datatype settlement_call =
    Revalidate lifecycle_input "string + revalidation"
  | BindPackage revalidation "string + package_binding"
  | Sign package_binding "string + signed_package"
  | Check signed_package "string + checked_artifact"
  | ObserveErgo checked_artifact "string + stable_observation"
  | ObserveSidechain checked_artifact "string + stable_observation"
  | AdmitCheck checked_artifact stable_observation stable_observation "string + check_admission"
  | RecordCheck check_admission "string + check_journal"
  | AuthorizeExecution check_admission check_journal "string + execution_authorization"
  | AdmitReservation execution_authorization "string + reservation_admission"
  | ReserveExecution reservation_admission "string + execution_reservation"
  | RevalidateNow pre_submit_request "string + immediate_revalidation"
  | AuthorizeBroadcast immediate_revalidation "string + broadcast_authorization"
  | ReserveTransport transport_request "string + transport_reservation"
  | Submit submit_request "string + submit_result option"
  | Finalize submit_request "submit_result option" "string + submission_finalization"
  | ObserveConfirmation submission_finalization "string + confirmation_observation"
  | RecordConfirmation confirmation_observation "string + confirmation_journal"

record 'w settlement_ports =
  revalidate :: "lifecycle_input \<Rightarrow> ('w, revalidation) port"
  bindPackage :: "revalidation \<Rightarrow> ('w, package_binding) port"
  sign :: "package_binding \<Rightarrow> ('w, signed_package) port"
  check :: "signed_package \<Rightarrow> ('w, checked_artifact) port"
  observeErgo :: "checked_artifact \<Rightarrow> ('w, stable_observation) port"
  observeSidechain :: "checked_artifact \<Rightarrow> ('w, stable_observation) port"
  admitCheck :: "checked_artifact \<Rightarrow> stable_observation \<Rightarrow> stable_observation \<Rightarrow> ('w, check_admission) port"
  recordCheck :: "check_admission \<Rightarrow> ('w, check_journal) port"
  authorizeExecution :: "check_admission \<Rightarrow> check_journal \<Rightarrow> ('w, execution_authorization) port"
  admitReservation :: "execution_authorization \<Rightarrow> ('w, reservation_admission) port"
  reserveExecution :: "reservation_admission \<Rightarrow> ('w, execution_reservation) port"
  revalidateNow :: "pre_submit_request \<Rightarrow> ('w, immediate_revalidation) port"
  authorizeBroadcast :: "immediate_revalidation \<Rightarrow> ('w, broadcast_authorization) port"
  reserveTransport :: "transport_request \<Rightarrow> ('w, transport_reservation) port"
  submit :: "submit_request \<Rightarrow> ('w, submit_result option) port"
  finalize :: "submit_request \<Rightarrow> submit_result option \<Rightarrow> ('w, submission_finalization) port"
  observeConfirmation :: "submission_finalization \<Rightarrow> ('w, confirmation_observation) port"
  recordConfirmation :: "confirmation_observation \<Rightarrow> ('w, confirmation_journal) port"

record 'w settlement_run = "('w, settlement_call) port_run" +
  nextRef :: ref
  reservedHandoffs :: "ref list"
  transportRequests :: "ref list"
  lifecycleHandoffs :: "ref list"

type_synonym ('w, 'a) settlement = "('w settlement_run, settlement_error, 'a) action"

text \<open>One step: a port is called, its answer is checked against the binding, and the binding may grow.\<close>

definition stage :: "(string + 'a \<Rightarrow> settlement_call) \<Rightarrow> ('w, 'a) port \<Rightarrow> ('a \<Rightarrow> settlement_error + expected_binding)
    \<Rightarrow> ('w, 'a \<times> expected_binding) settlement" where
  "stage event port accept =
     bindA (portAction PortThrew event port) (\<lambda>answer.
     bindA (liftA (accept answer)) (\<lambda>expected. returnA (answer, expected)))"

definition newRef :: "('w, ref) settlement" where
  "newRef = (\<lambda>s. (Inr (nextRef s), s \<lparr> nextRef := nextRef s + 1 \<rparr>))"

definition AUTHENTICATED_SETTLEMENT_LIFECYCLE_SCHEMA :: string where
  "AUTHENTICATED_SETTLEMENT_LIFECYCLE_SCHEMA = ''e2s.authenticated-settlement-lifecycle.v1''"

definition identityOf :: "expected_binding \<Rightarrow> string \<Rightarrow> reserved_identity" where
  "identityOf e tx = \<lparr> idCandidateId = Some (exCandidateId e), idExpectedTxId = Some tx,
     idTrackerBoxId = Some (exTrackerBoxId e), idDuplicatePreventionBoxId = Some (exDuplicatePreventionBoxId e),
     idDigestOf = (\<lambda>k. if List.member RESERVATION_DIGESTS k then exDigest e k else None) \<rparr>"

definition brandReservedHandoff :: "lifecycle_input \<Rightarrow> expected_binding \<Rightarrow> revalidation \<Rightarrow> package_binding \<Rightarrow> signed_package
    \<Rightarrow> checked_artifact \<Rightarrow> stable_observation \<Rightarrow> stable_observation \<Rightarrow> check_admission \<Rightarrow> check_journal
    \<Rightarrow> execution_authorization \<Rightarrow> reservation_admission \<Rightarrow> execution_reservation \<Rightarrow> ('w, reserved_handoff) settlement" where
  "brandReservedHandoff input expected rv pb sg ck ergo side ca cj ea ra er =
     bindA (liftA (requiredExpectedTxId expected ''reserved handoff identity'')) (\<lambda>tx.
     bindA newRef (\<lambda>i.
     bindA (modifyA (\<lambda>s. s \<lparr> reservedHandoffs := i # reservedHandoffs s \<rparr>)) (\<lambda>_.
     returnA \<lparr> hoSelf = i, hoSchema = AUTHENTICATED_SETTLEMENT_LIFECYCLE_SCHEMA, hoInput = input,
       hoIdentity = identityOf expected tx, hoCandidate = inCandidate input, hoRevalidation = rv, hoPackageBinding = pb,
       hoSigned = sg, hoSignedArtifact = sgSignedArtifact sg, hoCheck = ck, hoStableErgoView = ergo,
       hoStableSidechainView = side, hoCheckAdmission = ca, hoCheckJournal = cj, hoAuthorization = ea,
       hoReservationAdmission = ra, hoReservation = er, hoLaterExecutionRequired = True,
       hoSubmissionCapabilityPresent = False, hoFundsAuthorityGranted = False \<rparr>)))"

text \<open>\<^verbatim>\<open>brandHandoff\<close> copies what it needs from the reserved handoff the execution started from.\<close>

definition brandHandoff :: "lifecycle_status \<Rightarrow> reserved_handoff \<Rightarrow> immediate_revalidation \<Rightarrow> broadcast_authorization
    \<Rightarrow> transport_reservation \<Rightarrow> submit_result option \<Rightarrow> submission_finalization \<Rightarrow> confirmation_observation option
    \<Rightarrow> confirmation_journal option \<Rightarrow> ('w, lifecycle_handoff) settlement" where
  "brandHandoff status h ir ba tr submission sf co cn =
     bindA newRef (\<lambda>i.
     bindA (modifyA (\<lambda>s. s \<lparr> lifecycleHandoffs := i # lifecycleHandoffs s \<rparr>)) (\<lambda>_.
     returnA \<lparr> lhSelf = i, lhSchema = AUTHENTICATED_SETTLEMENT_LIFECYCLE_SCHEMA, lhStatus = status,
       lhCandidate = inCandidate (hoInput h), lhSignedArtifact = sgSignedArtifact (hoSigned h), lhSigned = hoSigned h,
       lhCheck = hoCheck h, lhAuthorization = hoAuthorization h, lhReservation = hoReservation h,
       lhImmediateRevalidation = ir, lhBroadcastAuthorization = ba, lhTransportReservation = tr,
       lhSubmission = submission, lhFinalization = sf, lhConfirmation = co, lhConfirmationJournal = cn,
       lhPortsAloneGrantFundsAuthority = False, lhFreshRestartCannotRecreateEphemeralAuthority = True \<rparr>))"

text \<open>The request's field \<open>tqRevalidation\<close> is the object its authorization's \<^verbatim>\<open>revalidation\<close> refers to.\<close>

definition brandTransportReservationRequest :: "broadcast_authorization \<Rightarrow> immediate_revalidation \<Rightarrow> ref option
    \<Rightarrow> ('w, transport_request) settlement" where
  "brandTransportReservationRequest ba ir art =
     bindA newRef (\<lambda>i. bindA (modifyA (\<lambda>s. s \<lparr> transportRequests := i # transportRequests s \<rparr>)) (\<lambda>_.
     returnA \<lparr> tqSelf = i, tqAuthorization = ba, tqRevalidation = ir, tqSignedArtifact = art \<rparr>))"


section \<open>From the input to a reservation\<close>

definition prepareAuthenticatedSettlementExecutionReservation :: "'w settlement_ports \<Rightarrow> lifecycle_input
    \<Rightarrow> ('w, reserved_handoff) settlement" where
  "prepareAuthenticatedSettlementExecutionReservation P input =
     bindA (liftA (expectedFromInput input)) (\<lambda>e0.
     bindA (stage (Revalidate input) (revalidate P input) (acceptRevalidation input e0)) (\<lambda>(rv, e1).
     bindA (stage (BindPackage rv) (bindPackage P rv) (acceptPackageBinding rv e1)) (\<lambda>(pb, e2).
     bindA (stage (Sign pb) (sign P pb) (acceptSigned pb e2)) (\<lambda>(sg, e3).
     bindA (stage (Check sg) (check P sg) (acceptCheck sg e3)) (\<lambda>(ck, e4).
     bindA (stage (ObserveErgo ck) (observeErgo P ck)
              (acceptStableView stableErgoViewDigestHex ''stable Ergo observation'' ck e4)) (\<lambda>(ergo, e5).
     bindA (stage (ObserveSidechain ck) (observeSidechain P ck)
              (acceptStableView stableSidechainViewDigestHex ''stable sidechain observation'' ck e5)) (\<lambda>(side, e6).
     bindA (stage (AdmitCheck ck ergo side) (admitCheck P ck ergo side) (acceptCheckAdmission ck ergo side e6)) (\<lambda>(ca, e7).
     bindA (stage (RecordCheck ca) (recordCheck P ca) (acceptCheckJournal ca e7)) (\<lambda>(cj, e8).
     bindA (stage (AuthorizeExecution ca cj) (authorizeExecution P ca cj) (acceptAuthorization ca cj e8)) (\<lambda>(ea, e9).
     bindA (stage (AdmitReservation ea) (admitReservation P ea) (acceptReservationAdmission ea e9)) (\<lambda>(ra, e10).
     bindA (stage (ReserveExecution ra) (reserveExecution P ra) (acceptReservation ra e10)) (\<lambda>(er, e11).
     brandReservedHandoff input e11 rv pb sg ck ergo side ca cj ea ra er))))))))))))"


section \<open>Provenance of the branded objects\<close>

definition reservedParentsExact :: "reserved_handoff \<Rightarrow> bool" where
  "reservedParentsExact h \<longleftrightarrow>
     hoSchema h = AUTHENTICATED_SETTLEMENT_LIFECYCLE_SCHEMA
   \<and> hoCandidate h = inCandidate (hoInput h)
   \<and> rvInput (hoRevalidation h) = inSelf (hoInput h)
   \<and> pbRevalidation (hoPackageBinding h) = self (hoRevalidation h)
   \<and> pbPrepared (hoPackageBinding h) = rvPrepared (hoRevalidation h)
   \<and> sgPackageBinding (hoSigned h) = self (hoPackageBinding h)
   \<and> hoSignedArtifact h = sgSignedArtifact (hoSigned h)
   \<and> ckSigned (hoCheck h) = self (hoSigned h)
   \<and> soCheck (hoStableErgoView h) = self (hoCheck h)
   \<and> soCheck (hoStableSidechainView h) = self (hoCheck h)
   \<and> caCheck (hoCheckAdmission h) = self (hoCheck h)
   \<and> caStableErgoView (hoCheckAdmission h) = self (hoStableErgoView h)
   \<and> caStableSidechainView (hoCheckAdmission h) = self (hoStableSidechainView h)
   \<and> cjAdmission (hoCheckJournal h) = self (hoCheckAdmission h)
   \<and> eaCheckAdmission (hoAuthorization h) = self (hoCheckAdmission h)
   \<and> eaCheckJournal (hoAuthorization h) = self (hoCheckJournal h)
   \<and> raAuthorization (hoReservationAdmission h) = self (hoAuthorization h)
   \<and> erAdmission (hoReservation h) = self (hoReservationAdmission h)
   \<and> hoLaterExecutionRequired h \<and> \<not> hoSubmissionCapabilityPresent h \<and> \<not> hoFundsAuthorityGranted h"

definition assertAuthenticatedSettlementReservedHandoffProvenance :: "reserved_handoff \<Rightarrow> ('w, unit) settlement" where
  "assertAuthenticatedSettlementReservedHandoffProvenance h = (\<lambda>s.
     (require (List.member (reservedHandoffs s) (hoSelf h)) ProvenanceMissing
      (require (reservedParentsExact h) ProvenanceInconsistent (Inr ())), s))"

definition assertAuthenticatedSettlementTransportReservationRequestProvenance :: "transport_request \<Rightarrow> ('w, unit) settlement" where
  "assertAuthenticatedSettlementTransportReservationRequestProvenance q = (\<lambda>s.
     (require (List.member (transportRequests s) (tqSelf q)) ProvenanceMissing
      (require (tqSignedArtifact q = baSignedArtifact (tqAuthorization q)
                \<and> irSignedArtifact (tqRevalidation q) = tqSignedArtifact q) ProvenanceInconsistent (Inr ())), s))"

definition assertAuthenticatedSettlementLifecycleHandoffProvenance :: "lifecycle_handoff \<Rightarrow> ('w, unit) settlement" where
  "assertAuthenticatedSettlementLifecycleHandoffProvenance h = (\<lambda>s.
     (require (List.member (lifecycleHandoffs s) (lhSelf h)) ProvenanceMissing
      (require (lhSchema h = AUTHENTICATED_SETTLEMENT_LIFECYCLE_SCHEMA
                \<and> lhSignedArtifact h = sgSignedArtifact (lhSigned h)
                \<and> \<not> lhPortsAloneGrantFundsAuthority h \<and> lhFreshRestartCannotRecreateEphemeralAuthority h)
         ProvenanceInconsistent (Inr ())), s))"

fun adoptIdentityDigests :: "(digest_key \<Rightarrow> string option) \<Rightarrow> digest_key list \<Rightarrow> expected_binding \<Rightarrow> settlement_error + expected_binding" where
  "adoptIdentityDigests identity [] expected = Inr expected"
| "adoptIdentityDigests identity (k # ks) expected =
     andThen (canonicalHex (identity k) ''reserved handoff digest'') (\<lambda>v.
     require (\<not> (exDigest expected k \<noteq> None \<and> exDigest expected k \<noteq> Some v)) (BindingMismatch ''reserved handoff digest'')
     (adoptIdentityDigests identity ks (expected \<lparr> exDigest := (exDigest expected)(k \<mapsto> v) \<rparr>)))"

definition requiredDigest :: "expected_binding \<Rightarrow> digest_key \<Rightarrow> string option \<Rightarrow> string \<Rightarrow> settlement_error + string" where
  "requiredDigest expected key actual label = (case exDigest expected key of
     None \<Rightarrow> Inl (BindingMismatch label) | Some d \<Rightarrow> exactCanonicalHex actual d label)"

text \<open>The first half of \<open>expectedFromReservedHandoff\<close>: the input and the identity, before any artifact is looked at.\<close>

definition adoptedBinding :: "reserved_handoff \<Rightarrow> settlement_error + expected_binding" where
  "adoptedBinding h =
     andThen (expectedFromInput (hoInput h)) (\<lambda>e0.
     andThen (exactCanonicalHex (idCandidateId (hoIdentity h)) (exCandidateId e0) ''reserved handoff candidate ID'') (\<lambda>_.
     andThen (canonicalHex (idExpectedTxId (hoIdentity h)) ''reserved handoff expected transaction ID'') (\<lambda>tx.
     andThen (exactCanonicalHex (idTrackerBoxId (hoIdentity h)) (exTrackerBoxId e0) ''reserved handoff tracker box ID'') (\<lambda>_.
     andThen (exactCanonicalHex (idDuplicatePreventionBoxId (hoIdentity h)) (exDuplicatePreventionBoxId e0)
                ''reserved handoff duplicate-prevention box ID'') (\<lambda>_.
     adoptIdentityDigests (idDigestOf (hoIdentity h)) RESERVATION_DIGESTS (e0 \<lparr> exExpectedTxId := Some tx \<rparr>))))))"

definition expectedFromReservedHandoff :: "reserved_handoff \<Rightarrow> settlement_error + expected_binding" where
  "expectedFromReservedHandoff h =
     andThen (adoptedBinding h) (\<lambda>e.
     andThen (assertBinding (hoRevalidation h) ''reserved handoff revalidation'' e (take 4 CHECK_DIGESTS)) (\<lambda>_.
     andThen (assertBinding (hoPackageBinding h) ''reserved handoff package binding'' e (take 5 CHECK_DIGESTS)) (\<lambda>_.
     andThen (assertBinding (hoSigned h) ''reserved handoff signed artifact'' e (take 7 CHECK_DIGESTS)) (\<lambda>_.
     andThen (assertBinding (hoCheck h) ''reserved handoff check'' e CHECK_DIGESTS) (\<lambda>_.
     andThen (assertBinding (hoStableErgoView h) ''reserved handoff stable Ergo view'' e CHECK_DIGESTS) (\<lambda>_.
     andThen (requiredDigest e stableErgoViewDigestHex (soViewDigestHex (hoStableErgoView h))
                ''reserved handoff stable Ergo view digest'') (\<lambda>_.
     andThen (assertBinding (hoStableSidechainView h) ''reserved handoff stable sidechain view'' e CHECK_DIGESTS) (\<lambda>_.
     andThen (requiredDigest e stableSidechainViewDigestHex (soViewDigestHex (hoStableSidechainView h))
                ''reserved handoff stable sidechain view digest'') (\<lambda>_.
     andThen (assertBinding (hoCheckAdmission h) ''reserved handoff check admission'' e ADMISSION_DIGESTS) (\<lambda>_.
     andThen (assertBinding (hoCheckJournal h) ''reserved handoff check journal'' e ADMISSION_DIGESTS) (\<lambda>_.
     requireAppliedStatus (cjApplied (hoCheckJournal h)) (cjStatus (hoCheckJournal h)) ''check_passed''
       ''reserved handoff check journal''
     (andThen (assertBinding (hoAuthorization h) ''reserved handoff execution authorization'' e
                (ADMISSION_DIGESTS @ [authorizationDigestHex])) (\<lambda>_.
      andThen (assertBinding (hoReservationAdmission h) ''reserved handoff reservation admission'' e RESERVATION_DIGESTS) (\<lambda>_.
      andThen (assertBinding (hoReservation h) ''reserved handoff reservation'' e RESERVATION_DIGESTS) (\<lambda>_.
      requireAppliedStatus (erApplied (hoReservation h)) (erStatus (hoReservation h)) ''active''
        ''reserved handoff execution reservation'' (Inr e))))))))))))))))"


section \<open>From the reservation to a confirmation\<close>

definition observeOutcome :: "'w settlement_ports \<Rightarrow> reserved_handoff \<Rightarrow> immediate_revalidation \<Rightarrow> broadcast_authorization
    \<Rightarrow> transport_reservation \<Rightarrow> submit_result option \<Rightarrow> submission_finalization \<Rightarrow> expected_binding
    \<Rightarrow> ('w, lifecycle_handoff) settlement" where
  "observeOutcome P h ir ba tr submission sf expected =
     bindA (stage (ObserveConfirmation sf) (observeConfirmation P sf) (acceptConfirmation sf expected)) (\<lambda>(co, e).
     bindA (stage (RecordConfirmation co) (recordConfirmation P co) (acceptConfirmationJournal co e)) (\<lambda>(cn, e').
     bindA (liftA (confirmationOutcomeStatus (coStatus co) (cnStatus cn))) (\<lambda>status.
     brandHandoff status h ir ba tr submission sf (Some co) (Some cn))))"

definition submitAndFinalize :: "'w settlement_ports \<Rightarrow> reserved_handoff \<Rightarrow> immediate_revalidation \<Rightarrow> broadcast_authorization
    \<Rightarrow> transport_reservation \<Rightarrow> submit_request \<Rightarrow> expected_binding \<Rightarrow> ('w, lifecycle_handoff) settlement" where
  "submitAndFinalize P h ir ba tr request expected =
     bindA (stage (Submit request) (submit P request) (acceptSubmission request (hoSigned h) expected)) (\<lambda>(submission, e).
     bindA (stage (Finalize request submission) (finalize P request submission) (acceptFinalization request submission e)) (\<lambda>(sf, e').
     if map_option suStatus submission \<noteq> Some accepted
     then brandHandoff (if map_option suStatus submission = Some rejected then fail_closed else pending_reconciliation)
            h ir ba tr submission sf None None
     else observeOutcome P h ir ba tr submission sf e'))"

definition executeAuthenticatedSettlementReservedHandoff :: "'w settlement_ports \<Rightarrow> reserved_handoff
    \<Rightarrow> ('w, lifecycle_handoff) settlement" where
  "executeAuthenticatedSettlementReservedHandoff P h =
     bindA (assertAuthenticatedSettlementReservedHandoffProvenance h) (\<lambda>_.
     bindA (liftA (expectedFromReservedHandoff h)) (\<lambda>e0.
     bindA newRef (\<lambda>i.
     let preSubmitRequest = \<lparr> psSelf = i, psReservation = self (hoReservation h), psSignedArtifact = sgSignedArtifact (hoSigned h) \<rparr> in
     bindA (stage (RevalidateNow preSubmitRequest) (revalidateNow P preSubmitRequest)
              (acceptImmediateRevalidation preSubmitRequest (hoSigned h) e0)) (\<lambda>(ir, e1).
     bindA (stage (AuthorizeBroadcast ir) (authorizeBroadcast P ir) (acceptBroadcast ir (hoSigned h) e1)) (\<lambda>(ba, e2).
     bindA (brandTransportReservationRequest ba ir (sgSignedArtifact (hoSigned h))) (\<lambda>request.
     bindA (stage (ReserveTransport request) (reserveTransport P request) (acceptTransport ba (hoSigned h) e2)) (\<lambda>(tr, e3).
     bindA newRef (\<lambda>j.
     submitAndFinalize P h ir ba tr
       \<lparr> sqSelf = j, sqAuthorization = self ba, sqTransportReservation = self tr,
         sqSignedArtifact = sgSignedArtifact (hoSigned h),
         sqSignedTransactionDigestHex = exDigest e3 signedTransactionDigestHex \<rparr> e3))))))))"

definition executeAuthenticatedSettlementLifecycle :: "'w settlement_ports \<Rightarrow> lifecycle_input \<Rightarrow> ('w, lifecycle_handoff) settlement" where
  "executeAuthenticatedSettlementLifecycle P input =
     bindA (prepareAuthenticatedSettlementExecutionReservation P input) (\<lambda>reserved.
     executeAuthenticatedSettlementReservedHandoff P reserved)"

end
