(* ===== verification/Settlement_Authority.thy ===== *)
theory Settlement_Authority
  imports Settlement_Lifecycle
begin

text \<open>
  What the settlement lifecycle guarantees: the order of its port calls, what stands behind every call that
  submits a transaction, the meaning of the status it returns, and that a reservation it made is accepted again
  when the execution starts from it.
\<close>

section \<open>Stages\<close>

lemma stage_cases:
  assumes "bindA (stage event port accept) k s = (r, s')"
  obtains (failed) e a w where "r = Inl e" and "s' = s \<lparr> world := w, calls := calls s @ [event a] \<rparr>"
  | (passed) x e w where "accept x = Inr e"
      and "k (x, e) (s \<lparr> world := w, calls := calls s @ [event (Inr x)] \<rparr>) = (r, s')"
proof -
  obtain a w where port: "port (world s) = (a, w)"
    by fastforce
  show thesis
  proof (cases a)
    case (Inl e)
    then show thesis
      using assms port by (intro failed) (auto simp: stage_def action_defs)
  next
    case (Inr x)
    then show thesis
      using assms port by (cases "accept x") (auto simp: stage_def action_defs intro: failed passed)
  qed
qed

lemma stage_Inr_iff:
  "bindA (stage event port accept) k s = (Inr y, s') \<longleftrightarrow>
     (\<exists>x e w. port (world s) = (Inr x, w) \<and> accept x = Inr e
        \<and> k (x, e) (s \<lparr> world := w, calls := calls s @ [event (Inr x)] \<rparr>) = (Inr y, s'))"
  by (auto simp: stage_def action_defs split: prod.splits sum.splits)

lemma bindA_liftA_Inr_iff: "bindA (liftA m) k s = (Inr y, s') \<longleftrightarrow> (\<exists>x. m = Inr x \<and> k x s = (Inr y, s'))"
  by (cases m) (auto simp: action_defs)

lemma bindA_newRef: "bindA newRef k s = k (nextRef s) (s \<lparr> nextRef := nextRef s + 1 \<rparr>)"
  by (simp add: newRef_def action_defs)

lemma bindA_modifyA: "bindA (modifyA f) k s = k () (f s)"
  by (simp add: action_defs)

text \<open>A computation that makes no call leaves the trace as it is, whatever it returns.\<close>

definition quiet :: "('w, 'a) settlement \<Rightarrow> bool" where
  "quiet m \<longleftrightarrow> (\<forall>s. calls (snd (m s)) = calls s)"

lemma quiet_liftA: "quiet (liftA m)" and quiet_newRef: "quiet newRef" and quiet_returnA: "quiet (returnA x)"
  by (auto simp: quiet_def newRef_def action_defs)

lemma quiet_bindA: "quiet m \<Longrightarrow> (\<And>x. quiet (k x)) \<Longrightarrow> quiet (bindA m k)"
  by (auto simp: quiet_def bindA_def split: prod.splits sum.splits) (metis snd_conv)+

lemma quiet_brands:
  "quiet (brandReservedHandoff input e rv pb sg ck ergo side ca cj ea ra er)"
  "quiet (brandHandoff status h ir ba tr submission sf co cn)"
  "quiet (brandTransportReservationRequest ba ir art)"
  "quiet (assertAuthenticatedSettlementReservedHandoffProvenance h)"
  by (auto simp: quiet_def brandReservedHandoff_def brandHandoff_def brandTransportReservationRequest_def
      assertAuthenticatedSettlementReservedHandoffProvenance_def newRef_def action_defs split: sum.splits)

lemmas quiet_rules = quiet_liftA quiet_newRef quiet_returnA quiet_brands


section \<open>The order of the calls\<close>

fun stageOf :: "settlement_call \<Rightarrow> nat" where
  "stageOf (Revalidate _ _) = 0"
| "stageOf (BindPackage _ _) = 1"
| "stageOf (Sign _ _) = 2"
| "stageOf (Check _ _) = 3"
| "stageOf (ObserveErgo _ _) = 4"
| "stageOf (ObserveSidechain _ _) = 5"
| "stageOf (AdmitCheck _ _ _ _) = 6"
| "stageOf (RecordCheck _ _) = 7"
| "stageOf (AuthorizeExecution _ _ _) = 8"
| "stageOf (AdmitReservation _ _) = 9"
| "stageOf (ReserveExecution _ _) = 10"
| "stageOf (RevalidateNow _ _) = 11"
| "stageOf (AuthorizeBroadcast _ _) = 12"
| "stageOf (ReserveTransport _ _) = 13"
| "stageOf (Submit _ _) = 14"
| "stageOf (Finalize _ _ _) = 15"
| "stageOf (ObserveConfirmation _ _) = 16"
| "stageOf (RecordConfirmation _ _) = 17"

definition orderly :: "nat \<Rightarrow> ('w, 'a) settlement \<Rightarrow> bool" where
  "orderly n m \<longleftrightarrow> (\<forall>s. \<exists>tr. calls (snd (m s)) = calls s @ tr \<and> map stageOf tr = [n..<n + length tr])"

lemma orderly_run: "orderly n m \<Longrightarrow> m s = (r, s') \<Longrightarrow> \<exists>tr. calls s' = calls s @ tr \<and> map stageOf tr = [n..<n + length tr]"
  by (metis orderly_def snd_conv)

lemma orderly_quiet: "quiet m \<Longrightarrow> orderly n m"
  by (auto simp: quiet_def orderly_def)

lemma orderly_quiet_bindA:
  assumes "quiet m" and "\<And>x. orderly n (k x)"
  shows "orderly n (bindA m k)"
  unfolding orderly_def
proof
  fix s
  show "\<exists>tr. calls (snd (bindA m k s)) = calls s @ tr \<and> map stageOf tr = [n..<n + length tr]"
  proof (cases "m s")
    case (Pair r s1)
    then have "calls s1 = calls s"
      using assms(1) by (metis quiet_def snd_conv)
    then show ?thesis
      using assms(2)[unfolded orderly_def, rule_format, of _ s1] Pair by (cases r) (simp_all add: bindA_def)
  qed
qed

lemma orderly_stage:
  assumes kind: "\<And>a. stageOf (event a) = n" and rest: "\<And>x. orderly (Suc n) (k x)"
  shows "orderly n (bindA (stage event port accept) k)"
  unfolding orderly_def
proof
  fix s
  obtain r s' where run: "bindA (stage event port accept) k s = (r, s')"
    by fastforce
  then show "\<exists>tr. calls (snd (bindA (stage event port accept) k s)) = calls s @ tr \<and> map stageOf tr = [n..<n + length tr]"
  proof (cases rule: stage_cases)
    case (failed e a w)
    then show ?thesis
      using run kind by (intro exI[of _ "[event a]"]) simp
  next
    case (passed x e w)
    then obtain tr where "calls s' = calls s @ event (Inr x) # tr" and "map stageOf tr = [Suc n..<Suc n + length tr]"
      using rest[of "(x, e)"] unfolding orderly_def by (metis (no_types, lifting) append_Cons append_Nil
          append_assoc port_run.select_convs(2) port_run.surjective port_run.update_convs(2) snd_conv)
    then show ?thesis
      using run kind by (intro exI[of _ "event (Inr x) # tr"]) (simp add: upt_rec)
  qed
qed


lemma orderly_if: "(c \<Longrightarrow> orderly n m) \<Longrightarrow> (\<not> c \<Longrightarrow> orderly n m') \<Longrightarrow> orderly n (if c then m else m')"
  by simp

lemma orderly_case_prod: "(\<And>x y. orderly n (f x y)) \<Longrightarrow> orderly n (case p of (x, y) \<Rightarrow> f x y)"
  by (cases p) simp

lemmas orderly_rules = orderly_stage orderly_case_prod orderly_if orderly_quiet_bindA orderly_quiet quiet_rules

lemma orderly_execute: "orderly 11 (executeAuthenticatedSettlementReservedHandoff P h)"
  unfolding executeAuthenticatedSettlementReservedHandoff_def submitAndFinalize_def observeOutcome_def Let_def
  by (intro orderly_rules) simp_all

lemma bindA_assoc: "bindA (bindA m k) k' = bindA m (\<lambda>x. bindA (k x) k')"
  by (auto simp: bindA_def fun_eq_iff split: prod.splits sum.splits)

lemma orderly_lifecycle: "orderly 0 (executeAuthenticatedSettlementLifecycle P input)"
  unfolding executeAuthenticatedSettlementLifecycle_def prepareAuthenticatedSettlementExecutionReservation_def
    case_prod_unfold bindA_assoc
  by (intro orderly_stage orderly_quiet_bindA quiet_rules) (use orderly_execute in \<open>simp_all add: eval_nat_numeral\<close>)



section \<open>Artifacts that carry the binding\<close>

definition binds :: "expected_binding \<Rightarrow> digest_key list \<Rightarrow> 'z lifecycle_binding_scheme \<Rightarrow> bool" where
  "binds E ks v \<longleftrightarrow>
     candidate v = exCandidate E \<and> candidateId v = Some (exCandidateId E)
   \<and> exExpectedTxId E \<noteq> None \<and> expectedTxId v = exExpectedTxId E
   \<and> trackerBoxId v = Some (exTrackerBoxId E) \<and> duplicatePreventionBoxId v = Some (exDuplicatePreventionBoxId E)
   \<and> (\<forall>k\<in>set ks. exDigest E k \<noteq> None \<and> digestOf v k = exDigest E k)"

text \<open>Every value of a binding is canonical: this is an invariant of the module's own record.\<close>

definition canonical_binding :: "expected_binding \<Rightarrow> bool" where
  "canonical_binding E \<longleftrightarrow> isHex64 (exCandidateId E) \<and> isHex64 (exTrackerBoxId E) \<and> isHex64 (exDuplicatePreventionBoxId E)
   \<and> (\<forall>t. exExpectedTxId E = Some t \<longrightarrow> isHex64 t) \<and> (\<forall>k d. exDigest E k = Some d \<longrightarrow> isHex64 d)"

lemma canonicalHex_Inr_iff [result_simps]: "canonicalHex v l = Inr x \<longleftrightarrow> v = Some x \<and> isHex64 x"
  by (auto simp: canonicalHex_def result_simps split: option.splits)

lemma exactCanonicalHex_Inr_iff [result_simps]: "exactCanonicalHex v x l = Inr y \<longleftrightarrow> y = x \<and> v = Some x \<and> isHex64 x"
  by (auto simp: exactCanonicalHex_def result_simps)

lemma exactParent_Inr_iff [result_simps]: "exactParent a b l k = Inr y \<longleftrightarrow> a = b \<and> k = Inr y"
  by (auto simp: exactParent_def result_simps)

lemma requireAppliedStatus_Inr_iff [result_simps]:
  "requireAppliedStatus applied status expected l k = Inr y \<longleftrightarrow> applied \<and> status = expected \<and> k = Inr y"
  by (auto simp: requireAppliedStatus_def result_simps)

lemma requiredExpectedTxId_Inr_iff [result_simps]: "requiredExpectedTxId E l = Inr t \<longleftrightarrow> exExpectedTxId E = Some t"
  by (auto simp: requiredExpectedTxId_def split: option.splits)

lemma assertDigests_Inr_iff:
  "assertDigests f l E ks = Inr u \<longleftrightarrow> (\<forall>k\<in>set ks. \<exists>d. exDigest E k = Some d \<and> f k = Some d \<and> isHex64 d)"
  by (induction ks) (auto simp: result_simps split: option.splits)

lemma assertBinding_binds: "assertBinding v l E ks = Inr u \<Longrightarrow> binds E ks v"
  by (auto simp: assertBinding_def binds_def result_simps assertDigests_Inr_iff)

lemma assertBinding_iff: "canonical_binding E \<Longrightarrow> assertBinding v l E ks = Inr u \<longleftrightarrow> binds E ks v"
  by (auto simp: assertBinding_def binds_def canonical_binding_def result_simps assertDigests_Inr_iff; blast)

lemma establish_Inr_iff [result_simps]:
  "establish E k v = Inr E' \<longleftrightarrow> (\<exists>d. v = Some d \<and> isHex64 d \<and> E' = E \<lparr> exDigest := (exDigest E)(k \<mapsto> d) \<rparr>)"
  by (auto simp: establish_def result_simps)


text \<open>A binding grows: the identity stays, digests are added, none is replaced.\<close>

definition grows :: "expected_binding \<Rightarrow> expected_binding \<Rightarrow> bool" where
  "grows E E' \<longleftrightarrow> exCandidate E' = exCandidate E \<and> exCandidateId E' = exCandidateId E \<and> exTrackerBoxId E' = exTrackerBoxId E
   \<and> exDuplicatePreventionBoxId E' = exDuplicatePreventionBoxId E
   \<and> (exExpectedTxId E \<noteq> None \<longrightarrow> exExpectedTxId E' = exExpectedTxId E) \<and> exDigest E \<subseteq>\<^sub>m exDigest E'"

definition holds :: "expected_binding \<Rightarrow> digest_key list \<Rightarrow> bool" where
  "holds E D \<longleftrightarrow> canonical_binding E \<and> dom (exDigest E) = set D"

lemma grows_refl: "grows E E"
  by (simp add: grows_def)

lemma grows_trans: "grows E E' \<Longrightarrow> grows E' E'' \<Longrightarrow> grows E E''"
  by (auto simp: grows_def intro: map_le_trans)

lemma binds_grows: "binds E ks v \<Longrightarrow> grows E E' \<Longrightarrow> binds E' ks v"
  by (auto simp: binds_def grows_def map_le_def dom_def)

lemma binds_mono: "binds E ks v \<Longrightarrow> set ks' \<subseteq> set ks \<Longrightarrow> binds E ks' v"
  by (auto simp: binds_def)

lemma binds_add: "binds E ks v \<Longrightarrow> exDigest E k = Some d \<Longrightarrow> digestOf v k = Some d \<Longrightarrow> binds E (ks @ [k]) v"
  by (auto simp: binds_def)

lemma establish_grows:
  assumes "establish E k v = Inr E'" and "holds E D" and "k \<notin> set D"
  shows "grows E E'" and "holds E' (D @ [k])" and "exDigest E' k = v" and "\<exists>d. v = Some d"
proof -
  obtain d where "v = Some d" "isHex64 d" "E' = E \<lparr> exDigest := (exDigest E)(k \<mapsto> d) \<rparr>"
    using assms(1) by (auto simp: result_simps)
  moreover have "k \<notin> dom (exDigest E)"
    using assms by (auto simp: holds_def)
  ultimately show "grows E E'" and "holds E' (D @ [k])" and "exDigest E' k = v" and "\<exists>d. v = Some d"
    using assms(2) by (auto simp: grows_def holds_def canonical_binding_def map_le_def)
qed

text \<open>What a stage gives: the answer carries the binding, with the digests it has established itself.\<close>

definition carries :: "expected_binding \<Rightarrow> expected_binding \<Rightarrow> digest_key list \<Rightarrow> 'z lifecycle_binding_scheme \<Rightarrow> bool" where
  "carries E E' D v \<longleftrightarrow> grows E E' \<and> holds E' D \<and> binds E' D v"

lemma carries_establish:
  assumes "binds E D v" and "holds E D" and "establish E k (digestOf v k) = Inr E'" and "k \<notin> set D"
  shows "carries E E' (D @ [k]) v"
proof -
  note facts = establish_grows[OF assms(3,2,4)]
  obtain d where "digestOf v k = Some d"
    using facts(4) by blast
  then show ?thesis
    using facts assms(1) by (auto simp: carries_def intro: binds_add binds_grows)
qed

lemma carries_trans: "carries E E' D v \<Longrightarrow> carries E' E'' D' v \<Longrightarrow> carries E E'' D' v"
  by (auto simp: carries_def intro: grows_trans)

lemma carries_holds: "carries E E' D v \<Longrightarrow> holds E' D" and carries_grows: "carries E E' D v \<Longrightarrow> grows E E'"
  and carries_binds: "carries E E' D v \<Longrightarrow> grows E' E'' \<Longrightarrow> binds E'' D v"
  by (auto simp: carries_def intro: binds_grows)

lemma carries_keep: "binds E D v \<Longrightarrow> holds E D \<Longrightarrow> carries E E D v"
  by (simp add: carries_def grows_refl)

lemma carries_establish2:
  assumes "binds E D v" and "holds E D" and "establish E k (digestOf v k) = Inr E1" and "establish E1 k' (digestOf v k') = Inr E'"
    and "k \<notin> set D" and "k' \<notin> set D" and "k' \<noteq> k"
  shows "carries E E' (D @ [k, k']) v"
proof -
  have 1: "carries E E1 (D @ [k]) v"
    by (rule carries_establish) (use assms in auto)
  then have "carries E1 E' ((D @ [k]) @ [k']) v"
    by (intro carries_establish[OF _ _ assms(4)]) (use assms in \<open>auto simp: carries_def\<close>)
  from carries_trans[OF 1 this] show ?thesis
    by simp
qed

lemmas digest_lists = CHECK_DIGESTS_def ADMISSION_DIGESTS_def RESERVATION_DIGESTS_def PRE_SUBMIT_DIGESTS_def
  BROADCAST_DIGESTS_def TRANSPORT_DIGESTS_def



section \<open>The stages up to the reservation\<close>

lemma expectedFromInput_holds: "expectedFromInput input = Inr E \<Longrightarrow> holds E (take 3 CHECK_DIGESTS)"
  by (auto simp: expectedFromInput_def holds_def canonical_binding_def CHECK_DIGESTS_def result_simps split: if_splits)

lemma acceptRevalidation_carries:
  assumes "acceptRevalidation input E v = Inr E'" and "holds E (take 3 CHECK_DIGESTS)" and "exExpectedTxId E = None"
  shows "carries E E' (take 4 CHECK_DIGESTS) v" and "rvInput v = inSelf input"
proof -
  obtain tx where tx: "expectedTxId v = Some tx" "isHex64 tx"
    and bound: "assertBinding v ''revalidation'' (E \<lparr> exExpectedTxId := Some tx \<rparr>) [unsignedTxDigestHex, unsignedPackageDigestHex, payoutDigestHex] = Inr ()"
    and est: "establish (E \<lparr> exExpectedTxId := Some tx \<rparr>) revalidationDigestHex (digestOf v revalidationDigestHex) = Inr E'"
    using assms(1) by (auto simp: acceptRevalidation_def Let_def result_simps)
  let ?E = "E \<lparr> exExpectedTxId := Some tx \<rparr>"
  have "grows E ?E" "holds ?E (take 3 CHECK_DIGESTS)"
    using assms(2,3) tx by (auto simp: grows_def holds_def canonical_binding_def)
  moreover have "binds ?E (take 3 CHECK_DIGESTS) v"
    using assertBinding_binds[OF bound] by (simp add: CHECK_DIGESTS_def)
  ultimately show "carries E E' (take 4 CHECK_DIGESTS) v"
    using carries_establish[of ?E "take 3 CHECK_DIGESTS" v, OF _ _ est]
    by (auto simp: carries_def CHECK_DIGESTS_def intro: grows_trans)
  show "rvInput v = inSelf input"
    using assms(1) by (auto simp: acceptRevalidation_def result_simps)
qed

lemma acceptPackageBinding_carries:
  assumes "acceptPackageBinding rv E v = Inr E'" and "holds E (take 4 CHECK_DIGESTS)"
  shows "carries E E' (take 5 CHECK_DIGESTS) v" and "pbRevalidation v = self rv \<and> pbPrepared v = rvPrepared rv"
  using assms carries_establish[of E "take 4 CHECK_DIGESTS" v packageBindingDigestHex E']
  by (auto simp: acceptPackageBinding_def result_simps CHECK_DIGESTS_def dest!: assertBinding_binds)

lemma acceptSigned_carries:
  assumes "acceptSigned pb E v = Inr E'" and "holds E (take 5 CHECK_DIGESTS)"
  shows "carries E E' (take 7 CHECK_DIGESTS) v" and "sgPackageBinding v = self pb \<and> sgSignedArtifact v \<noteq> None"
proof -
  obtain E1 where "binds E (take 5 CHECK_DIGESTS) v" "establish E signedTransactionDigestHex (digestOf v signedTransactionDigestHex) = Inr E1"
      "establish E1 signerContextDigestHex (digestOf v signerContextDigestHex) = Inr E'"
    using assms(1) assertBinding_binds[of v _ E "take 5 CHECK_DIGESTS"]
    by (auto simp: acceptSigned_def andThen_Inr_iff require_Inr_iff exactParent_Inr_iff CHECK_DIGESTS_def)
  from carries_establish2[OF this(1) assms(2) this(2,3)] show "carries E E' (take 7 CHECK_DIGESTS) v"
    by (simp add: CHECK_DIGESTS_def)
  show "sgPackageBinding v = self pb \<and> sgSignedArtifact v \<noteq> None"
    using assms(1) by (auto simp: acceptSigned_def result_simps)
qed

lemma acceptCheck_carries:
  assumes "acceptCheck sg E v = Inr E'" and "holds E (take 7 CHECK_DIGESTS)"
  shows "carries E E' CHECK_DIGESTS v" and "ckSigned v = self sg"
proof -
  obtain E1 where "binds E (take 7 CHECK_DIGESTS) v" "establish E checkResponseDigestHex (digestOf v checkResponseDigestHex) = Inr E1"
      "establish E1 checkerIdentityDigestHex (digestOf v checkerIdentityDigestHex) = Inr E'"
    using assms(1) by (auto simp: acceptCheck_def andThen_Inr_iff exactParent_Inr_iff dest: assertBinding_binds)
  from carries_establish2[OF this(1) assms(2) this(2,3)] show "carries E E' CHECK_DIGESTS v"
    by (simp add: CHECK_DIGESTS_def)
  show "ckSigned v = self sg"
    using assms(1) by (auto simp: acceptCheck_def result_simps)
qed

lemma acceptStableView_grows:
  assumes "acceptStableView key l ck E v = Inr E'" and "holds E D" and "key \<notin> set D"
  shows "grows E E'" and "holds E' (D @ [key])" and "binds E' CHECK_DIGESTS v"
    and "soCheck v = self ck \<and> soViewDigestHex v = exDigest E' key \<and> exDigest E' key \<noteq> None"
proof -
  have bound: "binds E CHECK_DIGESTS v" and est: "establish E key (soViewDigestHex v) = Inr E'" and parent: "soCheck v = self ck"
    using assms(1) by (auto simp: acceptStableView_def andThen_Inr_iff exactParent_Inr_iff dest: assertBinding_binds)
  note facts = establish_grows[OF est assms(2,3)]
  show "grows E E'" and "holds E' (D @ [key])" and "binds E' CHECK_DIGESTS v"
    and "soCheck v = self ck \<and> soViewDigestHex v = exDigest E' key \<and> exDigest E' key \<noteq> None"
    using facts parent binds_grows[OF bound facts(1)] by auto
qed

lemma acceptCheckAdmission_carries:
  assumes "acceptCheckAdmission ck ergo side E v = Inr E'" and "holds E (butlast ADMISSION_DIGESTS)"
  shows "carries E E' ADMISSION_DIGESTS v"
    and "caCheck v = self ck \<and> caStableErgoView v = self ergo \<and> caStableSidechainView v = self side"
proof -
  have "binds E (butlast ADMISSION_DIGESTS) v" "establish E admissionDigestHex (digestOf v admissionDigestHex) = Inr E'"
    using assms(1) by (auto simp: acceptCheckAdmission_def andThen_Inr_iff exactParent_Inr_iff dest: assertBinding_binds)
  from carries_establish[OF this(1) assms(2) this(2)] show "carries E E' ADMISSION_DIGESTS v"
    by (simp add: digest_lists)
  show "caCheck v = self ck \<and> caStableErgoView v = self ergo \<and> caStableSidechainView v = self side"
    using assms(1) by (auto simp: acceptCheckAdmission_def result_simps)
qed

lemma acceptCheckJournal_carries:
  assumes "acceptCheckJournal ca E v = Inr E'" and "holds E ADMISSION_DIGESTS"
  shows "carries E E' ADMISSION_DIGESTS v" and "cjAdmission v = self ca \<and> cjApplied v \<and> cjStatus v = ''check_passed''"
  using assms by (auto simp: acceptCheckJournal_def result_simps intro: carries_keep dest: assertBinding_binds)

lemma acceptAuthorization_carries:
  assumes "acceptAuthorization ca cj E v = Inr E'" and "holds E ADMISSION_DIGESTS"
  shows "carries E E' (ADMISSION_DIGESTS @ [authorizationDigestHex]) v"
    and "eaCheckAdmission v = self ca \<and> eaCheckJournal v = self cj"
proof -
  have "binds E ADMISSION_DIGESTS v" "establish E authorizationDigestHex (digestOf v authorizationDigestHex) = Inr E'"
    using assms(1) by (auto simp: acceptAuthorization_def andThen_Inr_iff exactParent_Inr_iff dest: assertBinding_binds)
  from carries_establish[OF this(1) assms(2) this(2)] show "carries E E' (ADMISSION_DIGESTS @ [authorizationDigestHex]) v"
    by (simp add: digest_lists)
  show "eaCheckAdmission v = self ca \<and> eaCheckJournal v = self cj"
    using assms(1) by (auto simp: acceptAuthorization_def result_simps)
qed

lemma acceptReservationAdmission_carries:
  assumes "acceptReservationAdmission ea E v = Inr E'" and "holds E (ADMISSION_DIGESTS @ [authorizationDigestHex])"
  shows "carries E E' RESERVATION_DIGESTS v" and "raAuthorization v = self ea"
proof -
  have "binds E (ADMISSION_DIGESTS @ [authorizationDigestHex]) v" "establish E reservationDigestHex (digestOf v reservationDigestHex) = Inr E'"
    using assms(1) assertBinding_binds[of v _ E "butlast RESERVATION_DIGESTS"]
    by (auto simp: acceptReservationAdmission_def andThen_Inr_iff exactParent_Inr_iff RESERVATION_DIGESTS_def butlast_append)
  from carries_establish[OF this(1) assms(2) this(2)] show "carries E E' RESERVATION_DIGESTS v"
    by (simp add: digest_lists)
  show "raAuthorization v = self ea"
    using assms(1) by (auto simp: acceptReservationAdmission_def result_simps)
qed

lemma acceptReservation_carries:
  assumes "acceptReservation ra E v = Inr E'" and "holds E RESERVATION_DIGESTS"
  shows "carries E E' RESERVATION_DIGESTS v" and "erAdmission v = self ra \<and> erApplied v \<and> erStatus v = ''active''"
  using assms by (auto simp: acceptReservation_def result_simps intro: carries_keep dest: assertBinding_binds)



section \<open>What stands behind a reservation\<close>

definition input_states :: "expected_binding \<Rightarrow> lifecycle_input \<Rightarrow> bool" where
  "input_states E input \<longleftrightarrow> exCandidate E = inCandidate input \<and> inCandidateId input = Some (exCandidateId E)
   \<and> inTrackerBoxId input = Some (exTrackerBoxId E) \<and> inDuplicatePreventionBoxId input = Some (exDuplicatePreventionBoxId E)
   \<and> inUnsignedTxDigestHex input = exDigest E unsignedTxDigestHex
   \<and> inUnsignedPackageDigestHex input = exDigest E unsignedPackageDigestHex
   \<and> inPayoutDigestHex input = exDigest E payoutDigestHex"

definition reserved_evidence :: "expected_binding \<Rightarrow> reserved_handoff \<Rightarrow> bool" where
  "reserved_evidence E h \<longleftrightarrow>
     holds E RESERVATION_DIGESTS
   \<and> input_states E (hoInput h)
   \<and> binds E (take 4 CHECK_DIGESTS) (hoRevalidation h)
   \<and> binds E (take 5 CHECK_DIGESTS) (hoPackageBinding h)
   \<and> binds E (take 7 CHECK_DIGESTS) (hoSigned h)
   \<and> binds E CHECK_DIGESTS (hoCheck h)
   \<and> binds E CHECK_DIGESTS (hoStableErgoView h)
   \<and> soViewDigestHex (hoStableErgoView h) = exDigest E stableErgoViewDigestHex
   \<and> binds E CHECK_DIGESTS (hoStableSidechainView h)
   \<and> soViewDigestHex (hoStableSidechainView h) = exDigest E stableSidechainViewDigestHex
   \<and> binds E ADMISSION_DIGESTS (hoCheckAdmission h)
   \<and> binds E ADMISSION_DIGESTS (hoCheckJournal h)
   \<and> cjApplied (hoCheckJournal h) \<and> cjStatus (hoCheckJournal h) = ''check_passed''
   \<and> binds E (ADMISSION_DIGESTS @ [authorizationDigestHex]) (hoAuthorization h)
   \<and> binds E RESERVATION_DIGESTS (hoReservationAdmission h)
   \<and> binds E RESERVATION_DIGESTS (hoReservation h)
   \<and> erApplied (hoReservation h) \<and> erStatus (hoReservation h) = ''active''"

definition identity_states :: "expected_binding \<Rightarrow> reserved_identity \<Rightarrow> bool" where
  "identity_states E i \<longleftrightarrow> idCandidateId i = Some (exCandidateId E) \<and> idExpectedTxId i = exExpectedTxId E
   \<and> idTrackerBoxId i = Some (exTrackerBoxId E) \<and> idDuplicatePreventionBoxId i = Some (exDuplicatePreventionBoxId E)
   \<and> (\<forall>k\<in>set RESERVATION_DIGESTS. idDigestOf i k = exDigest E k)"

lemma adoptIdentityDigests_Inr_iff:
  "adoptIdentityDigests f ks E = Inr E' \<longleftrightarrow>
     (\<forall>k\<in>set ks. \<exists>v. f k = Some v \<and> isHex64 v \<and> (exDigest E k = None \<or> exDigest E k = Some v))
   \<and> E' = E \<lparr> exDigest := (\<lambda>k. if k \<in> set ks then f k else exDigest E k) \<rparr>"
proof (induction ks arbitrary: E)
  case Nil
  then show ?case by auto
next
  case (Cons k ks)
  show ?case
  proof (cases "f k")
    case None
    then show ?thesis by (simp add: canonicalHex_def)
  next
    case (Some v)
    let ?E = "E \<lparr> exDigest := (exDigest E)(k \<mapsto> v) \<rparr>"
    have step: "adoptIdentityDigests f (k # ks) E = Inr E' \<longleftrightarrow>
        (isHex64 v \<and> (exDigest E k = None \<or> exDigest E k = Some v)) \<and> adoptIdentityDigests f ks ?E = Inr E'"
      using Some by (simp add: canonicalHex_def require_def)
    have "(\<lambda>x. if x \<in> set ks then f x else ((exDigest E)(k \<mapsto> v)) x) = (\<lambda>x. if x \<in> set (k # ks) then f x else exDigest E x)"
      using Some by (auto simp: fun_eq_iff)
    then have result: "?E \<lparr> exDigest := (\<lambda>x. if x \<in> set ks then f x else exDigest ?E x) \<rparr>
        = E \<lparr> exDigest := (\<lambda>x. if x \<in> set (k # ks) then f x else exDigest E x) \<rparr>"
      by (simp cong: if_cong)
    have "(isHex64 v \<and> (exDigest E k = None \<or> exDigest E k = Some v))
        \<and> (\<forall>x\<in>set ks. \<exists>u. f x = Some u \<and> isHex64 u \<and> (exDigest ?E x = None \<or> exDigest ?E x = Some u)) \<longleftrightarrow>
          (\<forall>x\<in>set (k # ks). \<exists>u. f x = Some u \<and> isHex64 u \<and> (exDigest E x = None \<or> exDigest E x = Some u))"
      using Some by (auto split: if_splits)
    then show ?thesis
      unfolding step Cons.IH result by blast
  qed
qed


lemma expectedFromInput_Inr_iff:
  "expectedFromInput input = Inr E \<longleftrightarrow>
     (\<exists>c t d x p y. inCandidateId input = Some c \<and> inTrackerBoxId input = Some t \<and> inDuplicatePreventionBoxId input = Some d
      \<and> inUnsignedTxDigestHex input = Some x \<and> inUnsignedPackageDigestHex input = Some p \<and> inPayoutDigestHex input = Some y
      \<and> list_all isHex64 [c, t, d, x, p, y]
      \<and> E = \<lparr> exCandidate = inCandidate input, exCandidateId = c, exExpectedTxId = None, exTrackerBoxId = t,
            exDuplicatePreventionBoxId = d,
            exDigest = [unsignedTxDigestHex \<mapsto> x, unsignedPackageDigestHex \<mapsto> p, payoutDigestHex \<mapsto> y] \<rparr>)"
  by (auto simp: expectedFromInput_def result_simps)

lemma requiredDigest_Inr_iff: "canonical_binding E \<Longrightarrow>
    requiredDigest E k v l = Inr u \<longleftrightarrow> exDigest E k = Some u \<and> v = Some u"
  by (auto simp: requiredDigest_def canonical_binding_def result_simps split: option.splits)

lemma adoptedBinding_sound:
  assumes "adoptedBinding h = Inr E"
  shows "holds E RESERVATION_DIGESTS" and "exExpectedTxId E \<noteq> None" and "input_states E (hoInput h)" and "identity_states E (hoIdentity h)"
proof -
  obtain e0 tx where e0: "expectedFromInput (hoInput h) = Inr e0"
      and i: "idCandidateId (hoIdentity h) = Some (exCandidateId e0)" "idExpectedTxId (hoIdentity h) = Some tx" "isHex64 tx"
        "idTrackerBoxId (hoIdentity h) = Some (exTrackerBoxId e0)"
        "idDuplicatePreventionBoxId (hoIdentity h) = Some (exDuplicatePreventionBoxId e0)"
      and adopt: "adoptIdentityDigests (idDigestOf (hoIdentity h)) RESERVATION_DIGESTS (e0 \<lparr> exExpectedTxId := Some tx \<rparr>) = Inr E"
    using assms by (auto simp: adoptedBinding_def result_simps)
  have digests: "\<forall>k\<in>set RESERVATION_DIGESTS. \<exists>v. idDigestOf (hoIdentity h) k = Some v \<and> isHex64 v \<and> (exDigest e0 k = None \<or> exDigest e0 k = Some v)"
    and E: "E = e0 \<lparr> exExpectedTxId := Some tx, exDigest := (\<lambda>k. if k \<in> set RESERVATION_DIGESTS then idDigestOf (hoIdentity h) k else exDigest e0 k) \<rparr>"
    using adopt by (simp_all add: adoptIdentityDigests_Inr_iff cong: if_cong)
  have e0_dom: "dom (exDigest e0) \<subseteq> set RESERVATION_DIGESTS" "canonical_binding e0"
    using expectedFromInput_holds[OF e0] by (auto simp: holds_def digest_lists)
  show "exExpectedTxId E \<noteq> None" and "identity_states E (hoIdentity h)"
    using i by (simp_all add: E identity_states_def)
  have inside: "\<exists>v. exDigest E k = Some v \<and> isHex64 v" if "k \<in> set RESERVATION_DIGESTS" for k
    using digests that by (auto simp: E)
  moreover have outside: "exDigest E k = None" if "k \<notin> set RESERVATION_DIGESTS" for k
    using e0_dom(1) that by (auto simp: E domIff)
  ultimately have "dom (exDigest E) = set RESERVATION_DIGESTS"
    by (fastforce simp: dom_def)
  moreover have "\<forall>k d. exDigest E k = Some d \<longrightarrow> isHex64 d"
    using inside outside by (metis option.distinct(1) option.inject)
  ultimately show "holds E RESERVATION_DIGESTS"
    using e0_dom(2) i(3) by (simp add: holds_def canonical_binding_def E)
  have same: "exDigest E k = exDigest e0 k" if "k \<in> dom (exDigest e0)" for k
    using that digests e0_dom(1) by (fastforce simp: E)
  have keys: "unsignedTxDigestHex \<in> dom (exDigest e0)" "unsignedPackageDigestHex \<in> dom (exDigest e0)"
      "payoutDigestHex \<in> dom (exDigest e0)" and "input_states e0 (hoInput h)"
    using e0 by (auto simp: expectedFromInput_Inr_iff input_states_def)
  then show "input_states E (hoInput h)"
    unfolding input_states_def same[OF keys(1)] same[OF keys(2)] same[OF keys(3)] by (simp add: E)
qed


lemma adoptedBinding_complete:
  assumes holds: "holds E RESERVATION_DIGESTS" and tx: "exExpectedTxId E = Some tx"
    and input: "input_states E (hoInput h)" and identity: "identity_states E (hoIdentity h)"
  shows "adoptedBinding h = Inr E"
proof -
  have canonical: "canonical_binding E" and dom: "dom (exDigest E) = set RESERVATION_DIGESTS"
    using holds by (simp_all add: holds_def)
  have hex: "\<exists>d. exDigest E k = Some d \<and> isHex64 d" if "k \<in> set RESERVATION_DIGESTS" for k
    using that dom canonical by (metis canonical_binding_def domD)
  obtain x p y where d: "exDigest E unsignedTxDigestHex = Some x" "exDigest E unsignedPackageDigestHex = Some p"
      "exDigest E payoutDigestHex = Some y" "isHex64 x" "isHex64 p" "isHex64 y"
    using hex[of unsignedTxDigestHex] hex[of unsignedPackageDigestHex] hex[of payoutDigestHex] by (auto simp: digest_lists)
  let ?e0 = "\<lparr> exCandidate = exCandidate E, exCandidateId = exCandidateId E, exExpectedTxId = None, exTrackerBoxId = exTrackerBoxId E,
      exDuplicatePreventionBoxId = exDuplicatePreventionBoxId E,
      exDigest = [unsignedTxDigestHex \<mapsto> x, unsignedPackageDigestHex \<mapsto> p, payoutDigestHex \<mapsto> y] \<rparr>"
  have e0: "expectedFromInput (hoInput h) = Inr ?e0"
    using input canonical d by (auto simp: expectedFromInput_Inr_iff input_states_def canonical_binding_def)
  let ?e1 = "?e0 \<lparr> exExpectedTxId := Some tx \<rparr>"
  let ?adopted = "\<lambda>k. if k \<in> set RESERVATION_DIGESTS then idDigestOf (hoIdentity h) k else exDigest ?e1 k"
  have "\<forall>k\<in>set RESERVATION_DIGESTS. \<exists>v. idDigestOf (hoIdentity h) k = Some v \<and> isHex64 v
      \<and> (exDigest ?e1 k = None \<or> exDigest ?e1 k = Some v)"
  proof
    fix k assume k: "k \<in> set RESERVATION_DIGESTS"
    then obtain v where "exDigest E k = Some v" "isHex64 v"
      using hex by blast
    then show "\<exists>v. idDigestOf (hoIdentity h) k = Some v \<and> isHex64 v \<and> (exDigest ?e1 k = None \<or> exDigest ?e1 k = Some v)"
      using k identity d by (auto simp: identity_states_def)
  qed
  moreover have "E = ?e1 \<lparr> exDigest := ?adopted \<rparr>"
  proof -
    have "exDigest E k = ?adopted k" for k
    proof (cases "k \<in> set RESERVATION_DIGESTS")
      case True
      then show ?thesis
        using identity by (simp add: identity_states_def)
    next
      case False
      moreover have "{unsignedTxDigestHex, unsignedPackageDigestHex, payoutDigestHex} \<subseteq> set RESERVATION_DIGESTS"
        by (simp add: digest_lists)
      ultimately show ?thesis
        using dom by auto
    qed
    then have "exDigest E = ?adopted" ..
    then have "exDigest E = exDigest (?e1 \<lparr> exDigest := ?adopted \<rparr>)"
      by (simp only: expected_binding.simps)
    then show ?thesis
      by (rule expected_binding.equality[rotated 5]) (simp_all add: tx)
  qed
  ultimately have "adoptIdentityDigests (idDigestOf (hoIdentity h)) RESERVATION_DIGESTS ?e1 = Inr E"
    unfolding adoptIdentityDigests_Inr_iff by blast
  then show ?thesis
    using e0 tx canonical identity by (simp add: adoptedBinding_def exactCanonicalHex_def canonicalHex_def identity_states_def canonical_binding_def)
qed


lemma expectedFromReservedHandoff_iff:
  "expectedFromReservedHandoff h = Inr E \<longleftrightarrow> reserved_evidence E h \<and> identity_states E (hoIdentity h)"
proof
  assume run: "expectedFromReservedHandoff h = Inr E"
  then have adopted: "adoptedBinding h = Inr E"
    by (auto simp: expectedFromReservedHandoff_def andThen_Inr_iff requireAppliedStatus_Inr_iff)
  note facts = adoptedBinding_sound[OF adopted]
  have canonical: "canonical_binding E"
    using facts(1) by (simp add: holds_def)
  show "reserved_evidence E h \<and> identity_states E (hoIdentity h)"
    using run adopted facts
    by (clarsimp simp: expectedFromReservedHandoff_def reserved_evidence_def andThen_Inr_iff requireAppliedStatus_Inr_iff
        assertBinding_iff[OF canonical] requiredDigest_Inr_iff[OF canonical])
next
  assume e: "reserved_evidence E h \<and> identity_states E (hoIdentity h)"
  then have canonical: "canonical_binding E" and holds: "holds E RESERVATION_DIGESTS"
    by (simp_all add: reserved_evidence_def holds_def)
  have "exExpectedTxId E \<noteq> None"
    using e by (simp add: reserved_evidence_def binds_def)
  then obtain tx where "exExpectedTxId E = Some tx"
    by blast
  then have "adoptedBinding h = Inr E"
    using adoptedBinding_complete[OF holds] e by (simp add: reserved_evidence_def)
  moreover have "\<exists>d. exDigest E stableErgoViewDigestHex = Some d" "\<exists>d. exDigest E stableSidechainViewDigestHex = Some d"
    using holds by (auto simp: holds_def digest_lists simp flip: domIff)
  ultimately show "expectedFromReservedHandoff h = Inr E"
    using e by (simp add: expectedFromReservedHandoff_def reserved_evidence_def andThen_Inr_iff requireAppliedStatus_Inr_iff
        assertBinding_iff[OF canonical] requiredDigest_Inr_iff[OF canonical])
qed


section \<open>A prepared reservation\<close>

lemma brandReservedHandoff_Inr:
  assumes "brandReservedHandoff input E rv pb sg ck ergo side ca cj ea ra er s = (Inr h, s')"
  obtains tx where "exExpectedTxId E = Some tx" and "hoIdentity h = identityOf E tx"
    and "hoSelf h = nextRef s" and "reservedHandoffs s' = nextRef s # reservedHandoffs s"
    and "hoInput h = input" and "hoRevalidation h = rv" and "hoPackageBinding h = pb" and "hoSigned h = sg"
    and "hoCheck h = ck" and "hoStableErgoView h = ergo" and "hoStableSidechainView h = side"
    and "hoCheckAdmission h = ca" and "hoCheckJournal h = cj" and "hoAuthorization h = ea"
    and "hoReservationAdmission h = ra" and "hoReservation h = er"
    and "hoSchema h = AUTHENTICATED_SETTLEMENT_LIFECYCLE_SCHEMA" and "hoCandidate h = inCandidate input"
    and "hoSignedArtifact h = sgSignedArtifact sg"
    and "hoLaterExecutionRequired h" and "\<not> hoSubmissionCapabilityPresent h" and "\<not> hoFundsAuthorityGranted h"
    and "calls s' = calls s"
proof -
  obtain tx where "exExpectedTxId E = Some tx"
    using assms by (cases "exExpectedTxId E") (auto simp: brandReservedHandoff_def requiredExpectedTxId_def action_defs)
  then show thesis
    using assms by (intro that[of tx]) (auto simp: brandReservedHandoff_def requiredExpectedTxId_def newRef_def action_defs)
qed

lemma identity_states_identityOf: "holds E RESERVATION_DIGESTS \<Longrightarrow> exExpectedTxId E = Some tx \<Longrightarrow> identity_states E (identityOf E tx)"
  by (auto simp: identity_states_def identityOf_def)

lemma grows_digest: "grows E E' \<Longrightarrow> exDigest E k \<noteq> None \<Longrightarrow> exDigest E' k = exDigest E k"
  by (auto simp: grows_def map_le_def dom_def)

lemma grows_input: "expectedFromInput input = Inr e0 \<Longrightarrow> grows e0 E \<Longrightarrow> input_states E input"
  using grows_digest[of e0 E unsignedTxDigestHex] grows_digest[of e0 E unsignedPackageDigestHex] grows_digest[of e0 E payoutDigestHex]
  by (auto simp: expectedFromInput_Inr_iff input_states_def grows_def)

lemma prepare_reserved:
  assumes "prepareAuthenticatedSettlementExecutionReservation P input s = (Inr h, s')"
  shows "\<exists>E. reserved_evidence E h \<and> identity_states E (hoIdentity h)" and "reservedParentsExact h"
    and "hoInput h = input" and "hoSelf h \<in> set (reservedHandoffs s')"
proof -
  obtain e0 e1 e2 e3 e4 e5 e6 e7 e8 e9 e10 e11 rv pb sg ck ergo side ca cj ea ra er u where
    a0: "expectedFromInput input = Inr e0" and
    a1: "acceptRevalidation input e0 rv = Inr e1" and
    a2: "acceptPackageBinding rv e1 pb = Inr e2" and
    a3: "acceptSigned pb e2 sg = Inr e3" and
    a4: "acceptCheck sg e3 ck = Inr e4" and
    a5: "acceptStableView stableErgoViewDigestHex ''stable Ergo observation'' ck e4 ergo = Inr e5" and
    a6: "acceptStableView stableSidechainViewDigestHex ''stable sidechain observation'' ck e5 side = Inr e6" and
    a7: "acceptCheckAdmission ck ergo side e6 ca = Inr e7" and
    a8: "acceptCheckJournal ca e7 cj = Inr e8" and
    a9: "acceptAuthorization ca cj e8 ea = Inr e9" and
    a10: "acceptReservationAdmission ea e9 ra = Inr e10" and
    a11: "acceptReservation ra e10 er = Inr e11" and
    brand: "brandReservedHandoff input e11 rv pb sg ck ergo side ca cj ea ra er u = (Inr h, s')"
    using assms unfolding prepareAuthenticatedSettlementExecutionReservation_def bindA_liftA_Inr_iff stage_Inr_iff case_prod_conv
    by (elim exE conjE) (rule that; assumption)
  have h0: "holds e0 (take 3 CHECK_DIGESTS)" and n0: "exExpectedTxId e0 = None"
    using expectedFromInput_holds[OF a0] a0 by (auto simp: expectedFromInput_Inr_iff)
  note c1 = acceptRevalidation_carries[OF a1 h0 n0]
  note c2 = acceptPackageBinding_carries[OF a2 carries_holds[OF c1(1)]]
  note c3 = acceptSigned_carries[OF a3 carries_holds[OF c2(1)]]
  note c4 = acceptCheck_carries[OF a4 carries_holds[OF c3(1)]]
  have "stableErgoViewDigestHex \<notin> set CHECK_DIGESTS" "stableSidechainViewDigestHex \<notin> set (CHECK_DIGESTS @ [stableErgoViewDigestHex])"
    by (simp_all add: CHECK_DIGESTS_def)
  note fresh = this
  note c5 = acceptStableView_grows[OF a5 carries_holds[OF c4(1)] fresh(1)]
  note c6 = acceptStableView_grows[OF a6 c5(2) fresh(2)]
  have h6: "holds e6 (butlast ADMISSION_DIGESTS)"
    using c6(2) by (simp add: ADMISSION_DIGESTS_def CHECK_DIGESTS_def)
  note c7 = acceptCheckAdmission_carries[OF a7 h6]
  note c8 = acceptCheckJournal_carries[OF a8 carries_holds[OF c7(1)]]
  note c9 = acceptAuthorization_carries[OF a9 carries_holds[OF c8(1)]]
  note c10 = acceptReservationAdmission_carries[OF a10 carries_holds[OF c9(1)]]
  note c11 = acceptReservation_carries[OF a11 carries_holds[OF c10(1)]]
  note g10 = carries_grows[OF c11(1)]
  note g9 = grows_trans[OF carries_grows[OF c10(1)] g10]
  note g8 = grows_trans[OF carries_grows[OF c9(1)] g9]
  note g7 = grows_trans[OF carries_grows[OF c8(1)] g8]
  note g6 = grows_trans[OF carries_grows[OF c7(1)] g7]
  note g5 = grows_trans[OF c6(1) g6]
  note g4 = grows_trans[OF c5(1) g5]
  note g3 = grows_trans[OF carries_grows[OF c4(1)] g4]
  note g2 = grows_trans[OF carries_grows[OF c3(1)] g3]
  note g1 = grows_trans[OF carries_grows[OF c2(1)] g2]
  note g0 = grows_trans[OF carries_grows[OF c1(1)] g1]
  note bound = carries_binds[OF c1(1) g1] carries_binds[OF c2(1) g2] carries_binds[OF c3(1) g3] carries_binds[OF c4(1) g4]
    binds_grows[OF c5(3) g5] binds_grows[OF c6(3) g6] carries_binds[OF c7(1) g7] carries_binds[OF c8(1) g8]
    carries_binds[OF c9(1) g9] carries_binds[OF c10(1) g10] carries_binds[OF c11(1) grows_refl]
  have views: "exDigest e11 stableErgoViewDigestHex = exDigest e5 stableErgoViewDigestHex"
      "exDigest e11 stableSidechainViewDigestHex = exDigest e6 stableSidechainViewDigestHex"
    using grows_digest[OF g5] grows_digest[OF g6] c5(4) c6(4) by blast+
  have input: "input_states e11 input"
    using grows_input[OF a0 g0] .
  note evidence = bound views input carries_holds[OF c11(1)] c5(4) c6(4) c8(2) c11(2)
  from brand show "hoInput h = input" and "hoSelf h \<in> set (reservedHandoffs s')"
    by (rule brandReservedHandoff_Inr, simp)+
  from brand show "reservedParentsExact h"
    by (rule brandReservedHandoff_Inr)
      (use c1(2) c2(2) c3(2) c4(2) c5(4) c6(4) c7(2) c8(2) c9(2) c10(2) c11(2) in \<open>simp add: reservedParentsExact_def\<close>)
  from brand show "\<exists>E. reserved_evidence E h \<and> identity_states E (hoIdentity h)"
    by (rule brandReservedHandoff_Inr)
      (use evidence in \<open>auto simp: reserved_evidence_def intro!: exI[of _ e11] identity_states_identityOf\<close>)
qed



section \<open>The stages from the reservation to the submission\<close>

lemma acceptImmediateRevalidation_carries:
  assumes "acceptImmediateRevalidation request sg E v = Inr E'" and "holds E RESERVATION_DIGESTS"
  shows "carries E E' PRE_SUBMIT_DIGESTS v"
    and "irRequest v = psSelf request \<and> irSignedArtifact v = sgSignedArtifact sg \<and> irStatus v = ''valid''"
proof -
  have "binds E RESERVATION_DIGESTS v" "establish E preSubmitRevalidationDigestHex (digestOf v preSubmitRevalidationDigestHex) = Inr E'"
    using assms(1) by (auto simp: acceptImmediateRevalidation_def andThen_Inr_iff exactParent_Inr_iff require_Inr_iff dest: assertBinding_binds)
  from carries_establish[OF this(1) assms(2) this(2)] show "carries E E' PRE_SUBMIT_DIGESTS v"
    by (simp add: digest_lists)
  show "irRequest v = psSelf request \<and> irSignedArtifact v = sgSignedArtifact sg \<and> irStatus v = ''valid''"
    using assms(1) by (auto simp: acceptImmediateRevalidation_def result_simps)
qed

lemma acceptBroadcast_carries:
  assumes "acceptBroadcast ir sg E v = Inr E'" and "holds E PRE_SUBMIT_DIGESTS"
  shows "carries E E' BROADCAST_DIGESTS v" and "baRevalidation v = self ir \<and> baSignedArtifact v = sgSignedArtifact sg"
proof -
  have "binds E PRE_SUBMIT_DIGESTS v" "establish E broadcastAuthorizationDigestHex (digestOf v broadcastAuthorizationDigestHex) = Inr E'"
    using assms(1) by (auto simp: acceptBroadcast_def andThen_Inr_iff exactParent_Inr_iff dest: assertBinding_binds)
  from carries_establish[OF this(1) assms(2) this(2)] show "carries E E' BROADCAST_DIGESTS v"
    by (simp add: digest_lists)
  show "baRevalidation v = self ir \<and> baSignedArtifact v = sgSignedArtifact sg"
    using assms(1) by (auto simp: acceptBroadcast_def result_simps)
qed

lemma acceptTransport_carries:
  assumes "acceptTransport ba sg E v = Inr E'" and "holds E BROADCAST_DIGESTS"
  shows "carries E E' TRANSPORT_DIGESTS v"
    and "trAuthorization v = self ba \<and> trSignedArtifact v = sgSignedArtifact sg \<and> trApplied v \<and> trStatus v = ''active''"
proof -
  obtain E1 where "binds E BROADCAST_DIGESTS v"
      "establish E transportReservationDigestHex (digestOf v transportReservationDigestHex) = Inr E1"
      "establish E1 durableAttemptDigestHex (digestOf v durableAttemptDigestHex) = Inr E'"
    using assms(1) by (auto simp: acceptTransport_def andThen_Inr_iff exactParent_Inr_iff requireAppliedStatus_Inr_iff dest: assertBinding_binds)
  from carries_establish2[OF this(1) assms(2) this(2,3)] show "carries E E' TRANSPORT_DIGESTS v"
    by (simp add: digest_lists)
  show "trAuthorization v = self ba \<and> trSignedArtifact v = sgSignedArtifact sg \<and> trApplied v \<and> trStatus v = ''active''"
    using assms(1) by (auto simp: acceptTransport_def result_simps)
qed

text \<open>A run of the execution either ends before the submitter is called, or reaches it with everything in place.\<close>

definition submission_authority :: "reserved_handoff \<Rightarrow> pre_submit_request \<Rightarrow> immediate_revalidation \<Rightarrow> broadcast_authorization
    \<Rightarrow> transport_request \<Rightarrow> transport_reservation \<Rightarrow> submit_request \<Rightarrow> expected_binding \<Rightarrow> bool" where
  "submission_authority h pq ir ba rq tr q E \<longleftrightarrow>
     holds E TRANSPORT_DIGESTS
   \<and> psReservation pq = self (hoReservation h) \<and> psSignedArtifact pq = hoSignedArtifact h
   \<and> binds E PRE_SUBMIT_DIGESTS ir \<and> irRequest ir = psSelf pq \<and> irSignedArtifact ir = hoSignedArtifact h \<and> irStatus ir = ''valid''
   \<and> binds E BROADCAST_DIGESTS ba \<and> baRevalidation ba = self ir \<and> baSignedArtifact ba = hoSignedArtifact h
   \<and> tqAuthorization rq = ba \<and> tqRevalidation rq = ir \<and> tqSignedArtifact rq = hoSignedArtifact h
   \<and> binds E TRANSPORT_DIGESTS tr \<and> trAuthorization tr = self ba \<and> trSignedArtifact tr = hoSignedArtifact h
   \<and> trApplied tr \<and> trStatus tr = ''active''
   \<and> sqAuthorization q = self ba \<and> sqTransportReservation q = self tr \<and> sqSignedArtifact q = hoSignedArtifact h
   \<and> sqSignedTransactionDigestHex q = digestOf (hoSigned h) signedTransactionDigestHex"

lemma submission_authority_stages:
  assumes e0: "reserved_evidence e0 h" and parents: "reservedParentsExact h"
    and ir: "acceptImmediateRevalidation pq (hoSigned h) e0 ir = Inr e1" and ba: "acceptBroadcast ir (hoSigned h) e1 ba = Inr e2"
    and tr: "acceptTransport ba (hoSigned h) e2 tr = Inr e3"
    and pq: "psReservation pq = self (hoReservation h)" "psSignedArtifact pq = sgSignedArtifact (hoSigned h)"
    and rq: "rq = \<lparr> tqSelf = i, tqAuthorization = ba, tqRevalidation = ir, tqSignedArtifact = sgSignedArtifact (hoSigned h) \<rparr>"
    and q: "q = \<lparr> sqSelf = j, sqAuthorization = self ba, sqTransportReservation = self tr,
      sqSignedArtifact = sgSignedArtifact (hoSigned h), sqSignedTransactionDigestHex = exDigest e3 signedTransactionDigestHex \<rparr>"
  shows "grows e0 e3" and "submission_authority h pq ir ba rq tr q e3"
proof -
  have h0: "holds e0 RESERVATION_DIGESTS"
    using e0 by (simp add: reserved_evidence_def)
  note c1 = acceptImmediateRevalidation_carries[OF ir h0]
  note c2 = acceptBroadcast_carries[OF ba carries_holds[OF c1(1)]]
  note c3 = acceptTransport_carries[OF tr carries_holds[OF c2(1)]]
  note g2 = carries_grows[OF c3(1)]
  note g1 = grows_trans[OF carries_grows[OF c2(1)] g2]
  show g0: "grows e0 e3"
    by (rule grows_trans[OF carries_grows[OF c1(1)] g1])
  have "exDigest e0 signedTransactionDigestHex = digestOf (hoSigned h) signedTransactionDigestHex"
      and "exDigest e0 signedTransactionDigestHex \<noteq> None"
    using e0 by (auto simp: reserved_evidence_def binds_def CHECK_DIGESTS_def)
  then have "exDigest e3 signedTransactionDigestHex = digestOf (hoSigned h) signedTransactionDigestHex"
    using grows_digest[OF g0] by metis
  moreover have "hoSignedArtifact h = sgSignedArtifact (hoSigned h)"
    using parents by (simp add: reservedParentsExact_def)
  ultimately show "submission_authority h pq ir ba rq tr q e3"
    using carries_holds[OF c3(1)] carries_binds[OF c1(1) g1] carries_binds[OF c2(1) g2] carries_binds[OF c3(1) grows_refl]
      c1(2) c2(2) c3(2) pq by (simp add: submission_authority_def rq q)
qed

lemma provenance_cases:
  assumes "bindA (assertAuthenticatedSettlementReservedHandoffProvenance h) k s = (r, s')"
  obtains (refused) e where "r = Inl e" and "s' = s"
  | (granted) "hoSelf h \<in> set (reservedHandoffs s)" and "reservedParentsExact h" and "k () s = (r, s')"
  using assms by (auto simp: assertAuthenticatedSettlementReservedHandoffProvenance_def bindA_def require_def split: if_splits)

lemma bindA_liftA_cases:
  assumes "bindA (liftA m) k s = (r, s')"
  obtains (throws) e where "m = Inl e" and "r = Inl e" and "s' = s" | (value_of) x where "m = Inr x" and "k x s = (r, s')"
  using assms by (cases m) (auto simp: action_defs)

lemma brandTransport_bindA:
  "bindA (brandTransportReservationRequest ba ir art) k s =
     k \<lparr> tqSelf = nextRef s, tqAuthorization = ba, tqRevalidation = ir, tqSignedArtifact = art \<rparr>
       (s \<lparr> nextRef := nextRef s + 1, transportRequests := nextRef s # transportRequests s \<rparr>)"
  by (simp add: brandTransportReservationRequest_def newRef_def action_defs)

lemma execute_cases:
  assumes run: "executeAuthenticatedSettlementReservedHandoff P h s = (r, s')"
  obtains (unsubmitted) e tr where "r = Inl e" and "calls s' = calls s @ tr" and "\<forall>q a. Submit q a \<notin> set tr"
  | (submitting) E0 E pq ir ba rq tr q sN where "hoSelf h \<in> set (reservedHandoffs s)" and "reservedParentsExact h"
      and "expectedFromReservedHandoff h = Inr E0" and "grows E0 E" and "submission_authority h pq ir ba rq tr q E"
      and "calls sN = calls s @ [RevalidateNow pq (Inr ir), AuthorizeBroadcast ir (Inr ba), ReserveTransport rq (Inr tr)]"
      and "submitAndFinalize P h ir ba tr q E sN = (r, s')"
  using run[unfolded executeAuthenticatedSettlementReservedHandoff_def Let_def]
proof (cases rule: provenance_cases)
  case (refused e)
  then show thesis
    by (intro unsubmitted[of e "[]"]) auto
next
  case granted
  note prov = granted(1,2)
  from granted(3) show thesis
  proof (cases rule: bindA_liftA_cases)
    case (throws e)
    then show thesis
      by (intro unsubmitted[of e "[]"]) auto
  next
    case (value_of e0)
    have evidence: "reserved_evidence e0 h"
      using value_of(1) by (simp add: expectedFromReservedHandoff_iff)
    from value_of(2)[unfolded bindA_newRef] show thesis
    proof (cases rule: stage_cases)
      case (failed e a w)
      then show thesis by (intro unsubmitted) auto
    next
      case (passed ir e1 w1)
      note ir = passed(1)
      from passed(2)[unfolded case_prod_conv] show thesis
      proof (cases rule: stage_cases)
        case (failed e a w)
        then show thesis by (intro unsubmitted) auto
      next
        case (passed ba e2 w2)
        note ba = passed(1)
        from passed(2)[unfolded case_prod_conv brandTransport_bindA] show thesis
        proof (cases rule: stage_cases)
          case (failed e a w)
          then show thesis by (intro unsubmitted) auto
        next
          case (passed tr e3 w3)
          from submission_authority_stages[OF evidence prov(2) ir ba passed(1)]
          show thesis
            by (rule submitting[OF prov value_of(1) _ _ _ passed(2)[unfolded case_prod_conv bindA_newRef]]) simp_all
        qed
      qed
    qed
  qed
qed


lemma submitAndFinalize_calls:
  assumes "submitAndFinalize P h ir ba tr q E s = (r, s')"
  obtains a rest where "calls s' = calls s @ Submit q a # rest" and "\<forall>q' a'. Submit q' a' \<notin> set rest"
  using assms[unfolded submitAndFinalize_def]
proof (cases rule: stage_cases)
  case (failed e a w)
  then show thesis by (intro that[of a "[]"]) auto
next
  case (passed x e w)
  have "orderly 15 (bindA (stage (Finalize q x) (finalize P q x) (acceptFinalization q x e)) (\<lambda>(sf, e').
     if map_option suStatus x \<noteq> Some accepted
     then brandHandoff (if map_option suStatus x = Some rejected then fail_closed else pending_reconciliation) h ir ba tr x sf None None
     else observeOutcome P h ir ba tr x sf e'))"
    unfolding observeOutcome_def by (intro orderly_rules) simp_all
  from orderly_run[OF this passed(2)[unfolded case_prod_conv]]
  obtain rest where rest: "calls s' = calls s @ Submit q (Inr x) # rest" and "map stageOf rest = [15..<15 + length rest]"
    by auto
  then have "\<forall>c\<in>set rest. stageOf c \<ge> 15"
    by (metis (no_types, lifting) atLeastLessThan_iff imageI set_map set_upt)
  then show thesis
    using rest by (intro that) fastforce+
qed


section \<open>What the status says\<close>

definition outcome_table :: "lifecycle_status \<Rightarrow> observation_status \<Rightarrow> string \<Rightarrow> bool" where
  "outcome_table status observation journal \<longleftrightarrow>
     (status = fail_closed \<and> journal = ''quarantined'')
   \<or> (status = confirmed \<and> observation = observed_confirmed \<and> journal = ''confirmed'')
   \<or> (status = submitted \<and> observation = submitted_unconfirmed \<and> journal = ''submitted'')
   \<or> (status = pending_reconciliation \<and> observation = inconclusive \<and> journal = ''pending_reconciliation'')"

lemma confirmationOutcomeStatus_iff: "confirmationOutcomeStatus ob j = Inr st \<longleftrightarrow> outcome_table st ob j"
  by (auto simp: confirmationOutcomeStatus_def outcome_table_def)

definition journal_decided :: "bool \<Rightarrow> bool option \<Rightarrow> string \<Rightarrow> bool" where
  "journal_decided applied retained status \<longleftrightarrow>
     (applied \<and> retained \<noteq> Some True) \<or> (\<not> applied \<and> retained = Some True \<and> status = ''quarantined'')"

lemma retention_Inr_iff: "assertJournalApplicationOrTerminalRetention applied retained status l k = Inr y \<longleftrightarrow>
    journal_decided applied retained status \<and> k = Inr y"
  by (auto simp: assertJournalApplicationOrTerminalRetention_def journal_decided_def)

definition status_evidence :: "string option \<Rightarrow> lifecycle_handoff \<Rightarrow> bool" where
  "status_evidence tx out \<longleftrightarrow> sfApplied (lhFinalization out) \<and> sfSubmission (lhFinalization out) = map_option self (lhSubmission out)
   \<and> (if map_option suStatus (lhSubmission out) = Some accepted
      then map_option suSubmittedTxId (lhSubmission out) = Some tx \<and> tx \<noteq> None
         \<and> sfStatus (lhFinalization out) = ''submitted'' \<and> sfSubmittedTxId (lhFinalization out) = tx
         \<and> (case (lhConfirmation out, lhConfirmationJournal out) of
              (Some co, Some cn) \<Rightarrow> coFinalization co = self (lhFinalization out) \<and> cnObservation cn = self co
                \<and> journal_decided (cnApplied cn) (cnTerminalStateRetained cn) (cnStatus cn)
                \<and> outcome_table (lhStatus out) (coStatus co) (cnStatus cn)
            | _ \<Rightarrow> False)
      else lhConfirmation out = None \<and> lhConfirmationJournal out = None \<and> sfSubmittedTxId (lhFinalization out) = None
         \<and> (if map_option suStatus (lhSubmission out) = Some rejected
            then lhStatus out = fail_closed \<and> sfStatus (lhFinalization out) = ''rejected''
            else lhStatus out = pending_reconciliation \<and> sfStatus (lhFinalization out) = ''pending''
               \<and> (lhSubmission out = None \<or> map_option suStatus (lhSubmission out) = Some ambiguous)))"

lemma brandHandoff_Inr:
  "brandHandoff st h ir ba tr su sf co cn s = (Inr out, s') \<longleftrightarrow>
     s' = s \<lparr> nextRef := nextRef s + 1, lifecycleHandoffs := nextRef s # lifecycleHandoffs s \<rparr>
   \<and> out = \<lparr> lhSelf = nextRef s, lhSchema = AUTHENTICATED_SETTLEMENT_LIFECYCLE_SCHEMA, lhStatus = st,
       lhCandidate = inCandidate (hoInput h), lhSignedArtifact = sgSignedArtifact (hoSigned h), lhSigned = hoSigned h,
       lhCheck = hoCheck h, lhAuthorization = hoAuthorization h, lhReservation = hoReservation h,
       lhImmediateRevalidation = ir, lhBroadcastAuthorization = ba, lhTransportReservation = tr,
       lhSubmission = su, lhFinalization = sf, lhConfirmation = co, lhConfirmationJournal = cn,
       lhPortsAloneGrantFundsAuthority = False, lhFreshRestartCannotRecreateEphemeralAuthority = True \<rparr>"
  by (auto simp: brandHandoff_def newRef_def action_defs)

lemma acceptSubmission_grants:
  assumes "acceptSubmission q sg E su = Inr E'"
  shows "E' = E" and "map_option suStatus su = Some accepted \<Longrightarrow> map_option suSubmittedTxId su = Some (exExpectedTxId E)"
    and "su \<noteq> None \<Longrightarrow> map_option suStatus su \<in> {Some accepted, Some rejected, Some ambiguous}"
  using assms by (auto simp: acceptSubmission_def result_simps split: option.splits if_splits)

lemma acceptFinalization_grants:
  assumes "acceptFinalization q su E sf = Inr E'"
  shows "E' = E" and "sfApplied sf" and "sfSubmission sf = map_option self su"
    and "map_option suStatus su = Some accepted \<Longrightarrow>
         sfStatus sf = ''submitted'' \<and> exExpectedTxId E \<noteq> None \<and> sfSubmittedTxId sf = exExpectedTxId E"
    and "map_option suStatus su = Some rejected \<Longrightarrow> sfStatus sf = ''rejected'' \<and> sfSubmittedTxId sf = None"
    and "map_option suStatus su \<notin> {Some accepted, Some rejected} \<Longrightarrow> sfStatus sf = ''pending'' \<and> sfSubmittedTxId sf = None"
  using assms unfolding acceptFinalization_def Let_def by (auto simp: result_simps split: if_splits)


lemma observeOutcome_Inr:
  assumes "observeOutcome P h ir ba tr su sf E s = (Inr out, s')"
  obtains co cn where "coFinalization co = self sf" and "cnObservation cn = self co"
    and "journal_decided (cnApplied cn) (cnTerminalStateRetained cn) (cnStatus cn)"
    and "outcome_table (lhStatus out) (coStatus co) (cnStatus cn)"
    and "lhSubmission out = su" and "lhFinalization out = sf" and "lhConfirmation out = Some co" and "lhConfirmationJournal out = Some cn"
proof -
  obtain co e cn e' st u where co: "acceptConfirmation sf E co = Inr e" and cn: "acceptConfirmationJournal co e cn = Inr e'"
      and st: "confirmationOutcomeStatus (coStatus co) (cnStatus cn) = Inr st"
      and brand: "brandHandoff st h ir ba tr su sf (Some co) (Some cn) u = (Inr out, s')"
    using assms unfolding observeOutcome_def stage_Inr_iff case_prod_conv bindA_liftA_Inr_iff
    by (elim exE conjE) (rule that; assumption)
  from co cn st brand show thesis
    by (intro that) (auto simp: acceptConfirmation_def acceptConfirmationJournal_def result_simps retention_Inr_iff
        confirmationOutcomeStatus_iff brandHandoff_Inr)
qed

lemma submitAndFinalize_status:
  assumes "submitAndFinalize P h ir ba tr q E s = (Inr out, s')"
  shows "status_evidence (exExpectedTxId E) out"
proof -
  obtain su e sf e' u where su: "acceptSubmission q (hoSigned h) E su = Inr e" and sf: "acceptFinalization q su e sf = Inr e'"
      and k: "(if map_option suStatus su \<noteq> Some accepted
         then brandHandoff (if map_option suStatus su = Some rejected then fail_closed else pending_reconciliation) h ir ba tr su sf None None
         else observeOutcome P h ir ba tr su sf e') u = (Inr out, s')"
    using assms unfolding submitAndFinalize_def stage_Inr_iff case_prod_conv by (elim exE conjE) (rule that; assumption)
  note su = acceptSubmission_grants[OF su] and sf = acceptFinalization_grants[OF sf]
  show ?thesis
  proof (cases "map_option suStatus su = Some accepted")
    case True
    from k True have "observeOutcome P h ir ba tr su sf e' u = (Inr out, s')"
      by simp
    then show ?thesis
      by (rule observeOutcome_Inr) (use True su sf in \<open>auto simp: status_evidence_def\<close>)
  next
    case False
    then show ?thesis
      using k su(1,3) sf by (cases su) (auto simp: status_evidence_def brandHandoff_Inr)
  qed
qed


lemma submitAndFinalize_branded:
  assumes "submitAndFinalize P h ir ba tr q E s = (Inr out, s')"
  obtains st su sf co cn u where "brandHandoff st h ir ba tr su sf co cn u = (Inr out, s')"
proof -
  obtain su sf e' u where "(if map_option suStatus su \<noteq> Some accepted
         then brandHandoff (if map_option suStatus su = Some rejected then fail_closed else pending_reconciliation) h ir ba tr su sf None None
         else observeOutcome P h ir ba tr su sf e') u = (Inr out, s')"
    using assms unfolding submitAndFinalize_def stage_Inr_iff case_prod_conv by (elim exE conjE) (rule that; assumption)
  then show thesis
    by (cases "map_option suStatus su = Some accepted")
      (auto simp: observeOutcome_def stage_Inr_iff bindA_liftA_Inr_iff intro: that)
qed

lemma branded_provenance:
  "brandHandoff st h ir ba tr su sf co cn u = (Inr out, s') \<Longrightarrow>
     fst (assertAuthenticatedSettlementLifecycleHandoffProvenance out s') = Inr ()"
  by (simp add: brandHandoff_Inr assertAuthenticatedSettlementLifecycleHandoffProvenance_def)


section \<open>A settlement that runs through\<close>

text \<open>Ports that answer with artifacts of one candidate; every identifier and digest is the same canonical text.\<close>

definition demoText :: string where
  "demoText = replicate 64 CHR ''a''"

definition demoBinding :: "ref \<Rightarrow> 'z \<Rightarrow> 'z lifecycle_binding_scheme" where
  "demoBinding i x = \<lparr> self = i, candidate = 5, candidateId = Some demoText, expectedTxId = Some demoText,
     trackerBoxId = Some demoText, duplicatePreventionBoxId = Some demoText, digestOf = (\<lambda>_. Some demoText), \<dots> = x \<rparr>"

definition demoInput :: lifecycle_input where
  "demoInput = \<lparr> inSelf = 2, inCandidate = 5, inCandidateId = Some demoText, inTrackerBoxId = Some demoText,
     inDuplicatePreventionBoxId = Some demoText, inUnsignedTxDigestHex = Some demoText,
     inUnsignedPackageDigestHex = Some demoText, inPayoutDigestHex = Some demoText \<rparr>"

definition demoRv :: revalidation where
  "demoRv = demoBinding 10 \<lparr> rvInput = 2, rvPrepared = 3 \<rparr>"

definition demoPb :: package_binding where
  "demoPb = demoBinding 11 \<lparr> pbRevalidation = 10, pbPrepared = 3 \<rparr>"

definition demoSg :: signed_package where
  "demoSg = demoBinding 12 \<lparr> sgPackageBinding = 11, sgSignedArtifact = Some 4 \<rparr>"

definition demoCk :: checked_artifact where
  "demoCk = demoBinding 13 \<lparr> ckSigned = 12 \<rparr>"

definition demoErgo :: stable_observation where
  "demoErgo = demoBinding 14 \<lparr> soCheck = 13, soViewDigestHex = Some demoText \<rparr>"

definition demoSide :: stable_observation where
  "demoSide = demoBinding 15 \<lparr> soCheck = 13, soViewDigestHex = Some demoText \<rparr>"

definition demoCa :: check_admission where
  "demoCa = demoBinding 16 \<lparr> caCheck = 13, caStableErgoView = 14, caStableSidechainView = 15 \<rparr>"

definition demoCj :: check_journal where
  "demoCj = demoBinding 17 \<lparr> cjAdmission = 16, cjApplied = True, cjStatus = ''check_passed'' \<rparr>"

definition demoEa :: execution_authorization where
  "demoEa = demoBinding 18 \<lparr> eaCheckAdmission = 16, eaCheckJournal = 17 \<rparr>"

definition demoRa :: reservation_admission where
  "demoRa = demoBinding 19 \<lparr> raAuthorization = 18 \<rparr>"

definition demoEr :: execution_reservation where
  "demoEr = demoBinding 20 \<lparr> erAdmission = 19, erApplied = True, erStatus = ''active'' \<rparr>"

definition demoIr :: immediate_revalidation where
  "demoIr = demoBinding 21 \<lparr> irRequest = 101, irSignedArtifact = Some 4, irStatus = ''valid'' \<rparr>"

definition demoBa :: broadcast_authorization where
  "demoBa = demoBinding 22 \<lparr> baRevalidation = 21, baSignedArtifact = Some 4 \<rparr>"

definition demoTr :: transport_reservation where
  "demoTr = demoBinding 23 \<lparr> trAuthorization = 22, trSignedArtifact = Some 4, trApplied = True, trStatus = ''active'' \<rparr>"

definition demoSu :: submit_result where
  "demoSu = demoBinding 24 \<lparr> suRequest = 103, suSignedArtifact = Some 4, suStatus = accepted, suSubmittedTxId = Some demoText \<rparr>"

definition demoSf :: submission_finalization where
  "demoSf = demoBinding 25 \<lparr> sfRequest = 103, sfSubmission = Some 24, sfApplied = True, sfStatus = ''submitted'', sfSubmittedTxId = Some demoText \<rparr>"

definition demoCo :: confirmation_observation where
  "demoCo = demoBinding 26 \<lparr> coFinalization = 25, coStatus = observed_confirmed \<rparr>"

definition demoCn :: confirmation_journal where
  "demoCn = demoBinding 27 \<lparr> cnObservation = 26, cnApplied = True, cnTerminalStateRetained = None, cnStatus = ''confirmed'' \<rparr>"

definition demoPorts :: "unit settlement_ports" where
  "demoPorts = \<lparr> revalidate = (\<lambda>_ w. (Inr demoRv, w)), bindPackage = (\<lambda>_ w. (Inr demoPb, w)), sign = (\<lambda>_ w. (Inr demoSg, w)),
     check = (\<lambda>_ w. (Inr demoCk, w)), observeErgo = (\<lambda>_ w. (Inr demoErgo, w)), observeSidechain = (\<lambda>_ w. (Inr demoSide, w)),
     admitCheck = (\<lambda>_ _ _ w. (Inr demoCa, w)), recordCheck = (\<lambda>_ w. (Inr demoCj, w)),
     authorizeExecution = (\<lambda>_ _ w. (Inr demoEa, w)), admitReservation = (\<lambda>_ w. (Inr demoRa, w)),
     reserveExecution = (\<lambda>_ w. (Inr demoEr, w)), revalidateNow = (\<lambda>_ w. (Inr demoIr, w)),
     authorizeBroadcast = (\<lambda>_ w. (Inr demoBa, w)), reserveTransport = (\<lambda>_ w. (Inr demoTr, w)),
     submit = (\<lambda>_ w. (Inr (Some demoSu), w)), finalize = (\<lambda>_ _ w. (Inr demoSf, w)),
     observeConfirmation = (\<lambda>_ w. (Inr demoCo, w)), recordConfirmation = (\<lambda>_ w. (Inr demoCn, w)) \<rparr>"

definition demoStart :: "unit settlement_run" where
  "demoStart = \<lparr> world = (), calls = [], nextRef = 100, reservedHandoffs = [], transportRequests = [], lifecycleHandoffs = [] \<rparr>"

lemma demoText_hex: "isHex64 demoText"
  by code_simp

text \<open>The binding after the digests \<open>ks\<close> have been established.\<close>

definition demoExpected :: "digest_key list \<Rightarrow> expected_binding" where
  "demoExpected ks = \<lparr> exCandidate = 5, exCandidateId = demoText, exExpectedTxId = Some demoText, exTrackerBoxId = demoText,
     exDuplicatePreventionBoxId = demoText, exDigest = (\<lambda>k. if k \<in> set ks then Some demoText else None) \<rparr>"

lemma demoExpected_cong: "set ks = set ks' \<Longrightarrow> demoExpected ks = demoExpected ks'"
  by (simp add: demoExpected_def)

lemma establish_demo: "establish (demoExpected ks) k (Some demoText) = Inr (demoExpected (k # ks))"
  by (auto simp: result_simps demoText_hex demoExpected_def fun_eq_iff)

lemma canonical_demo: "canonical_binding (demoExpected ks)"
  by (auto simp: canonical_binding_def demoExpected_def demoText_hex)

lemma assertBinding_demo:
  "set ks' \<subseteq> set ks \<Longrightarrow> assertBinding (demoBinding i x) l (demoExpected ks) ks' = Inr ()"
  unfolding assertBinding_iff[OF canonical_demo] by (auto simp: binds_def demoExpected_def demoBinding_def)

lemma demo_fields: "self (demoBinding i x) = i" "digestOf (demoBinding i x) k = Some demoText"
  by (simp_all add: demoBinding_def)

lemma demo_input:
  "expectedFromInput demoInput = Inr ((demoExpected (take 3 CHECK_DIGESTS)) \<lparr> exExpectedTxId := None \<rparr>)"
  by (auto simp: expectedFromInput_Inr_iff demoInput_def demoExpected_def demoText_hex CHECK_DIGESTS_def fun_eq_iff)

lemma demo_revalidation:
  "acceptRevalidation demoInput ((demoExpected (take 3 CHECK_DIGESTS)) \<lparr> exExpectedTxId := None \<rparr>) demoRv
     = Inr (demoExpected (take 4 CHECK_DIGESTS))"
proof -
  have "(demoExpected ks) \<lparr> exExpectedTxId := Some demoText \<rparr> = demoExpected ks" for ks
    by (simp add: demoExpected_def)
  then have "acceptRevalidation demoInput ((demoExpected (take 3 CHECK_DIGESTS)) \<lparr> exExpectedTxId := None \<rparr>) demoRv
     = Inr (demoExpected (revalidationDigestHex # take 3 CHECK_DIGESTS))"
    by (simp add: acceptRevalidation_def exactParent_def canonicalHex_def demoInput_def demoText_hex Let_def demoRv_def
        establish_demo assertBinding_demo[unfolded demoBinding_def] demoBinding_def CHECK_DIGESTS_def)
  also have "demoExpected (revalidationDigestHex # take 3 CHECK_DIGESTS) = demoExpected (take 4 CHECK_DIGESTS)"
    by (rule demoExpected_cong) (auto simp: CHECK_DIGESTS_def)
  finally show ?thesis .
qed

lemmas demo_stage_simps = exactParent_def requireAppliedStatus_def requiredExpectedTxId_def exactCanonicalHex_def
  canonicalHex_def demoText_hex Let_def establish_demo assertBinding_demo[unfolded demoBinding_def] demoBinding_def

lemma demo_prepared:
  "acceptPackageBinding demoRv (demoExpected (take 4 CHECK_DIGESTS)) demoPb = Inr (demoExpected (take 5 CHECK_DIGESTS))"
  "acceptSigned demoPb (demoExpected (take 5 CHECK_DIGESTS)) demoSg = Inr (demoExpected (take 7 CHECK_DIGESTS))"
  by (simp_all add: acceptPackageBinding_def acceptSigned_def demoRv_def demoPb_def demoSg_def demo_stage_simps CHECK_DIGESTS_def)
     (auto intro: demoExpected_cong)


lemma demo_checked:
  "acceptCheck demoSg (demoExpected (take 7 CHECK_DIGESTS)) demoCk = Inr (demoExpected CHECK_DIGESTS)"
  "acceptStableView stableErgoViewDigestHex l demoCk (demoExpected CHECK_DIGESTS) demoErgo
     = Inr (demoExpected (CHECK_DIGESTS @ [stableErgoViewDigestHex]))"
  "acceptStableView stableSidechainViewDigestHex l demoCk (demoExpected (CHECK_DIGESTS @ [stableErgoViewDigestHex])) demoSide
     = Inr (demoExpected (butlast ADMISSION_DIGESTS))"
  "acceptCheckAdmission demoCk demoErgo demoSide (demoExpected (butlast ADMISSION_DIGESTS)) demoCa = Inr (demoExpected ADMISSION_DIGESTS)"
  "acceptCheckJournal demoCa (demoExpected ADMISSION_DIGESTS) demoCj = Inr (demoExpected ADMISSION_DIGESTS)"
  by (simp_all add: acceptCheck_def acceptStableView_def acceptCheckAdmission_def acceptCheckJournal_def demoSg_def demoCk_def
        demoErgo_def demoSide_def demoCa_def demoCj_def demo_stage_simps CHECK_DIGESTS_def ADMISSION_DIGESTS_def)
     (auto intro: demoExpected_cong)

lemma demo_reserved:
  "acceptAuthorization demoCa demoCj (demoExpected ADMISSION_DIGESTS) demoEa = Inr (demoExpected (butlast RESERVATION_DIGESTS))"
  "acceptReservationAdmission demoEa (demoExpected (butlast RESERVATION_DIGESTS)) demoRa = Inr (demoExpected RESERVATION_DIGESTS)"
  "acceptReservation demoRa (demoExpected RESERVATION_DIGESTS) demoEr = Inr (demoExpected RESERVATION_DIGESTS)"
  by (simp_all add: acceptAuthorization_def acceptReservationAdmission_def acceptReservation_def demoCa_def demoCj_def demoEa_def
        demoRa_def demoEr_def demo_stage_simps digest_lists)
     (auto intro: demoExpected_cong)

lemma demo_broadcast:
  "acceptImmediateRevalidation \<lparr> psSelf = 101, psReservation = i, psSignedArtifact = a \<rparr> demoSg (demoExpected RESERVATION_DIGESTS) demoIr
     = Inr (demoExpected PRE_SUBMIT_DIGESTS)"
  "acceptBroadcast demoIr demoSg (demoExpected PRE_SUBMIT_DIGESTS) demoBa = Inr (demoExpected BROADCAST_DIGESTS)"
  "acceptTransport demoBa demoSg (demoExpected BROADCAST_DIGESTS) demoTr = Inr (demoExpected TRANSPORT_DIGESTS)"
  by (simp_all add: acceptImmediateRevalidation_def acceptBroadcast_def acceptTransport_def demoSg_def demoIr_def demoBa_def
        demoTr_def demo_stage_simps digest_lists)
     (auto intro: demoExpected_cong)

lemma demoExpected_tx: "exExpectedTxId (demoExpected ks) = Some demoText"
  by (simp add: demoExpected_def)

lemma demo_submitted:
  assumes "sqSelf q = 103"
  shows "acceptSubmission q demoSg (demoExpected TRANSPORT_DIGESTS) (Some demoSu) = Inr (demoExpected TRANSPORT_DIGESTS)"
    and "acceptFinalization q (Some demoSu) (demoExpected TRANSPORT_DIGESTS) demoSf = Inr (demoExpected TRANSPORT_DIGESTS)"
  using assms
  by (simp_all add: acceptSubmission_def acceptFinalization_def demoExpected_tx demoSg_def demoSu_def demoSf_def demo_stage_simps)

lemma demo_confirmed:
  "acceptConfirmation demoSf (demoExpected TRANSPORT_DIGESTS) demoCo = Inr (demoExpected (observationDigestHex # TRANSPORT_DIGESTS))"
  "acceptConfirmationJournal demoCo (demoExpected (observationDigestHex # TRANSPORT_DIGESTS)) demoCn
     = Inr (demoExpected (observationDigestHex # TRANSPORT_DIGESTS))"
  by (simp_all add: acceptConfirmation_def acceptConfirmationJournal_def assertJournalApplicationOrTerminalRetention_def
      demoSf_def demoCo_def demoCn_def demo_stage_simps)

lemma bindA_stage_step:
  "port (world s) = (Inr x, w) \<Longrightarrow> accept x = Inr e \<Longrightarrow>
     bindA (stage event port accept) k s = k (x, e) (s \<lparr> world := w, calls := calls s @ [event (Inr x)] \<rparr>)"
  by (simp add: stage_def action_defs)

lemma bindA_liftA_Inr: "bindA (liftA (Inr x)) k s = k x s"
  by (simp add: action_defs)

definition demoHandoff :: reserved_handoff where
  "demoHandoff = \<lparr> hoSelf = 100, hoSchema = AUTHENTICATED_SETTLEMENT_LIFECYCLE_SCHEMA, hoInput = demoInput,
     hoIdentity = identityOf (demoExpected RESERVATION_DIGESTS) demoText, hoCandidate = 5, hoRevalidation = demoRv,
     hoPackageBinding = demoPb, hoSigned = demoSg, hoSignedArtifact = Some 4, hoCheck = demoCk, hoStableErgoView = demoErgo,
     hoStableSidechainView = demoSide, hoCheckAdmission = demoCa, hoCheckJournal = demoCj, hoAuthorization = demoEa,
     hoReservationAdmission = demoRa, hoReservation = demoEr, hoLaterExecutionRequired = True,
     hoSubmissionCapabilityPresent = False, hoFundsAuthorityGranted = False \<rparr>"

definition demoPrepareCalls :: "settlement_call list" where
  "demoPrepareCalls = [Revalidate demoInput (Inr demoRv), BindPackage demoRv (Inr demoPb), Sign demoPb (Inr demoSg),
     Check demoSg (Inr demoCk), ObserveErgo demoCk (Inr demoErgo), ObserveSidechain demoCk (Inr demoSide),
     AdmitCheck demoCk demoErgo demoSide (Inr demoCa), RecordCheck demoCa (Inr demoCj),
     AuthorizeExecution demoCa demoCj (Inr demoEa), AdmitReservation demoEa (Inr demoRa), ReserveExecution demoRa (Inr demoEr)]"

definition demoMiddle :: "unit settlement_run" where
  "demoMiddle = \<lparr> world = (), calls = demoPrepareCalls, nextRef = 101, reservedHandoffs = [100], transportRequests = [],
     lifecycleHandoffs = [] \<rparr>"

lemma demo_prepare: "prepareAuthenticatedSettlementExecutionReservation demoPorts demoInput demoStart = (Inr demoHandoff, demoMiddle)"
  by (simp add: prepareAuthenticatedSettlementExecutionReservation_def demo_input bindA_liftA_Inr bindA_stage_step
      demoPorts_def demo_revalidation demo_prepared demo_checked demo_reserved brandReservedHandoff_def requiredExpectedTxId_def
      demoExpected_tx bindA_newRef bindA_modifyA returnA_def demoStart_def demoMiddle_def demoHandoff_def demoPrepareCalls_def)
     (simp add: demoInput_def demoSg_def demoBinding_def)

text \<open>The run from there on: the calls and the handoff it ends with.\<close>

definition demoSubmitRequest :: submit_request where
  "demoSubmitRequest = \<lparr> sqSelf = 103, sqAuthorization = 22, sqTransportReservation = 23, sqSignedArtifact = Some 4,
     sqSignedTransactionDigestHex = Some demoText \<rparr>"

definition demoExecuted :: "(settlement_error + lifecycle_handoff) \<times> unit settlement_run" where
  "demoExecuted = executeAuthenticatedSettlementReservedHandoff demoPorts demoHandoff demoMiddle"

lemma demo_evidence: "expectedFromReservedHandoff demoHandoff = Inr (demoExpected RESERVATION_DIGESTS)"
proof -
  have bound: "binds (demoExpected RESERVATION_DIGESTS) ks (demoBinding i x)" if "set ks \<subseteq> set RESERVATION_DIGESTS" for ks i x
    using that by (auto simp: binds_def demoExpected_def demoBinding_def)
  have holds: "holds (demoExpected RESERVATION_DIGESTS) RESERVATION_DIGESTS"
    using canonical_demo[of RESERVATION_DIGESTS] by (auto simp: holds_def demoExpected_def split: if_splits)
  moreover have "identity_states (demoExpected RESERVATION_DIGESTS) (hoIdentity demoHandoff)"
    using identity_states_identityOf[OF holds demoExpected_tx] by (simp add: demoHandoff_def)
  moreover have "input_states (demoExpected RESERVATION_DIGESTS) demoInput"
    by (simp add: input_states_def demoExpected_def demoInput_def digest_lists)
  ultimately show ?thesis
    unfolding expectedFromReservedHandoff_iff reserved_evidence_def demoHandoff_def reserved_handoff.simps demoRv_def demoPb_def
      demoSg_def demoCk_def demoErgo_def demoSide_def demoCa_def demoCj_def demoEa_def demoRa_def demoEr_def
    by (intro conjI bound) (simp_all add: demoBinding_def demoExpected_def digest_lists)
qed

lemma provenance_granted:
  "hoSelf h \<in> set (reservedHandoffs s) \<Longrightarrow> reservedParentsExact h \<Longrightarrow>
     bindA (assertAuthenticatedSettlementReservedHandoffProvenance h) k s = k () s"
  by (simp add: assertAuthenticatedSettlementReservedHandoffProvenance_def bindA_def)

lemma demo_parents: "reservedParentsExact demoHandoff"
  by (simp add: reservedParentsExact_def demoHandoff_def demoInput_def demoRv_def demoPb_def demoSg_def demoCk_def demoErgo_def
      demoSide_def demoCa_def demoCj_def demoEa_def demoRa_def demoEr_def demoBinding_def)

lemma demo_links: "hoSelf demoHandoff = 100" "hoSigned demoHandoff = demoSg" "sgSignedArtifact demoSg = Some 4"
  "self demoBa = 22" "self demoTr = 23" "exDigest (demoExpected TRANSPORT_DIGESTS) signedTransactionDigestHex = Some demoText"
  "suStatus demoSu = accepted" "coStatus demoCo = observed_confirmed" "cnStatus demoCn = ''confirmed''"
  by (simp_all add: demoHandoff_def demoSg_def demoBa_def demoTr_def demoSu_def demoCo_def demoCn_def demoBinding_def demoExpected_def
      digest_lists)

lemma demo_execute: "\<exists>out s. demoExecuted = (Inr out, s) \<and> lhStatus out = confirmed
   \<and> (\<exists>tr. calls s = calls demoMiddle @ tr \<and> Submit demoSubmitRequest (Inr (Some demoSu)) \<in> set tr)"
  by (simp add: demoExecuted_def executeAuthenticatedSettlementReservedHandoff_def Let_def provenance_granted demo_parents demo_links
      demoMiddle_def demo_evidence bindA_liftA_Inr bindA_newRef bindA_stage_step demoPorts_def demo_broadcast brandTransport_bindA
      submitAndFinalize_def observeOutcome_def demo_submitted demo_confirmed confirmationOutcomeStatus_def brandHandoff_def bindA_modifyA returnA_def
      demoSubmitRequest_def)



section \<open>The guarantees of the lifecycle\<close>

text \<open>C2. A transaction is submitted only on full authority, and once. If a run of
  \<^verbatim>\<open>executeAuthenticatedSettlementReservedHandoff\<close>, on any handoff and with any ports, calls the submitter, then
  the handoff was registered by this module and its parents are the exact objects; its evidence (revalidation,
  package, signature, check, two stable views, check admission, applied check journal, authorization, active
  reservation) states one candidate, transaction and set of digests; the immediate revalidation said
  \<^verbatim>\<open>valid\<close>, the broadcast was authorized and the transport reservation applied and active, all for that same
  binding and that same signed artifact; the request carries the digest of the signed transaction; these three
  calls came directly before it and no second submission follows.\<close>

theorem submission_authorized:
  assumes "executeAuthenticatedSettlementReservedHandoff P h s = (r, s')"
    and "calls s' = calls s @ tr" and "Submit q a \<in> set tr"
  shows "hoSelf h \<in> set (reservedHandoffs s) \<and> reservedParentsExact h \<and>
    (\<exists>E0 E pq ir ba rq tp rest. reserved_evidence E0 h \<and> grows E0 E \<and> submission_authority h pq ir ba rq tp q E
      \<and> tr = [RevalidateNow pq (Inr ir), AuthorizeBroadcast ir (Inr ba), ReserveTransport rq (Inr tp), Submit q a] @ rest
      \<and> (\<forall>q' a'. Submit q' a' \<notin> set rest))"
  using assms(1)
proof (cases rule: execute_cases)
  case (unsubmitted e tr')
  then show ?thesis
    using assms(2,3) by auto
next
  case (submitting E0 E pq ir ba rq tp q' sN)
  obtain a' rest where "calls s' = calls sN @ Submit q' a' # rest" and rest: "\<forall>q a. Submit q a \<notin> set rest"
    using submitting(7) by (rule submitAndFinalize_calls)
  then have tr: "tr = [RevalidateNow pq (Inr ir), AuthorizeBroadcast ir (Inr ba), ReserveTransport rq (Inr tp), Submit q' a'] @ rest"
    using submitting(6) assms(2) by simp
  then have "q' = q" "a' = a"
    using assms(3) rest by auto
  then show ?thesis
    using submitting(1-5)[unfolded expectedFromReservedHandoff_iff] tr rest by blast
qed

theorem submission_authorized_witness:
  "\<exists>E0 E pq ir ba rq tp. reserved_evidence E0 demoHandoff \<and> grows E0 E \<and> submission_authority demoHandoff pq ir ba rq tp demoSubmitRequest E"
proof -
  obtain out s tr where "demoExecuted = (Inr out, s)" "calls s = calls demoMiddle @ tr"
      "Submit demoSubmitRequest (Inr (Some demoSu)) \<in> set tr"
    using demo_execute by blast
  from submission_authorized[OF this(1)[unfolded demoExecuted_def] this(2,3)] show ?thesis
    by blast
qed

text \<open>C21. The port calls of a settlement come in one fixed order, each at most once: whatever the ports answer, the
  calls of a run of \<^verbatim>\<open>executeAuthenticatedSettlementLifecycle\<close> are a prefix of the eighteen stages revalidate,
  bind, sign, check, observe Ergo, observe the sidechain, admit, journal the check, authorize, admit the
  reservation, reserve, revalidate again, authorize the broadcast, reserve the transport, submit, finalize, observe
  the confirmation and journal it. In particular nothing is signed before the package is bound, nothing is
  submitted before both journals have reserved, and no stage is retried.\<close>

theorem lifecycle_call_order:
  "\<exists>tr. calls (snd (executeAuthenticatedSettlementLifecycle P input s)) = calls s @ tr \<and> map stageOf tr = [0..<length tr]"
  using orderly_lifecycle by (auto simp: orderly_def)

text \<open>C14. The status means what it says. A lifecycle handoff that is returned is \<^verbatim>\<open>confirmed\<close> only when the
  submitter accepted exactly the expected transaction, the submission journal applied it under that identifier and
  both the observation and the applied confirmation journal say confirmed; \<^verbatim>\<open>fail_closed\<close> only after a journaled
  rejection or a quarantine; \<^verbatim>\<open>pending_reconciliation\<close> after a missing or ambiguous answer journaled as pending,
  or an inconclusive observation; \<^verbatim>\<open>submitted\<close> when an accepted submission is observed unconfirmed. The returned
  handoff passes the provenance check of its kind.\<close>

theorem lifecycle_status_exact:
  assumes "executeAuthenticatedSettlementReservedHandoff P h s = (Inr out, s')"
  shows "(\<exists>E. expectedFromReservedHandoff h = Inr E \<and> status_evidence (exExpectedTxId E) out)
    \<and> fst (assertAuthenticatedSettlementLifecycleHandoffProvenance out s') = Inr ()"
  using assms
proof (cases rule: execute_cases)
  case (submitting E0 E pq ir ba rq tp q sN)
  have "exExpectedTxId E0 \<noteq> None"
    using submitting(3) by (simp add: expectedFromReservedHandoff_iff reserved_evidence_def binds_def)
  then have "exExpectedTxId E = exExpectedTxId E0"
    using submitting(4) by (simp add: grows_def)
  then have "status_evidence (exExpectedTxId E0) out"
    using submitAndFinalize_status[OF submitting(7)] by simp
  moreover have "fst (assertAuthenticatedSettlementLifecycleHandoffProvenance out s') = Inr ()"
    using submitAndFinalize_branded[OF submitting(7)] branded_provenance by metis
  ultimately show ?thesis
    using submitting(3) by blast
qed simp

theorem lifecycle_status_exact_witness:
  "\<exists>out. fst demoExecuted = Inr out \<and> lhStatus out = confirmed \<and> status_evidence (Some demoText) out"
proof -
  obtain out s where run: "demoExecuted = (Inr out, s)" and st: "lhStatus out = confirmed"
    using demo_execute by blast
  have "status_evidence (Some demoText) out"
    using lifecycle_status_exact[OF run[unfolded demoExecuted_def]] by (auto simp: demo_evidence demoExpected_tx)
  moreover have "fst demoExecuted = Inr out"
    unfolding run by (rule fst_conv)
  ultimately show ?thesis
    using st by blast
qed

text \<open>A reservation can be executed. A handoff that \<^verbatim>\<open>prepareAuthenticatedSettlementExecutionReservation\<close>
  returns passes the provenance check in the state it leaves, and \<^verbatim>\<open>expectedFromReservedHandoff\<close> recovers from it,
  without error, a binding with the candidate, boxes and digests of the input, to which every artifact of the handoff
  is bound.\<close>

theorem prepared_handoff_roundtrip:
  assumes "prepareAuthenticatedSettlementExecutionReservation P input s = (Inr h, s')"
  shows "fst (assertAuthenticatedSettlementReservedHandoffProvenance h s') = Inr ()
    \<and> (\<exists>E. expectedFromReservedHandoff h = Inr E \<and> input_states E input \<and> reserved_evidence E h)"
proof -
  obtain E where E: "reserved_evidence E h" "identity_states E (hoIdentity h)"
    using prepare_reserved(1)[OF assms] by blast
  then have "expectedFromReservedHandoff h = Inr E \<and> input_states E input"
    using prepare_reserved(3)[OF assms] by (auto simp: expectedFromReservedHandoff_iff reserved_evidence_def)
  then show ?thesis
    using E prepare_reserved(2,4)[OF assms] by (auto simp: assertAuthenticatedSettlementReservedHandoffProvenance_def)
qed

theorem prepared_handoff_roundtrip_witness:
  "fst (assertAuthenticatedSettlementReservedHandoffProvenance demoHandoff demoMiddle) = Inr ()
   \<and> (\<exists>E. expectedFromReservedHandoff demoHandoff = Inr E \<and> input_states E demoInput \<and> reserved_evidence E demoHandoff)"
  by (rule prepared_handoff_roundtrip[OF demo_prepare])

text \<open>Authority is not recreated from data. A handoff this process has not registered itself (a forged object, or
  one read back after a restart, when the registry is empty) is refused with the provenance error, before any port is
  called and with no change of state, whatever it contains.\<close>

theorem unregistered_handoff_refused:
  assumes "hoSelf h \<notin> set (reservedHandoffs s)"
  shows "executeAuthenticatedSettlementReservedHandoff P h s = (Inl ProvenanceMissing, s)"
  using assms by (simp add: executeAuthenticatedSettlementReservedHandoff_def
      assertAuthenticatedSettlementReservedHandoffProvenance_def bindA_def)

theorem unregistered_handoff_refused_witness:
  "executeAuthenticatedSettlementReservedHandoff demoPorts demoHandoff demoStart = (Inl ProvenanceMissing, demoStart)"
  by (rule unregistered_handoff_refused) (simp add: demoStart_def)

end
