(* ===== verification/Settlement_Restart.thy ===== *)
theory Settlement_Restart
  imports Settlement_Lifecycle
begin

text \<open>
  The restart part of \<^verbatim>\<open>authenticated-settlement-execution-lifecycle.ts\<close>: after a restart nothing but the durable
  identity of an attempted submission is left. It is observed, the observation is journaled, and the status of the
  settlement is what the two say together; nothing of it can submit.

  The ten fields that \<^verbatim>\<open>assertDurableIdentity\<close> and \<^verbatim>\<open>assertRestartBinding\<close> walk through with \<^verbatim>\<open>Object.entries\<close>
  are a datatype, and an object holds a text or nothing for each of them.
\<close>

section \<open>Durable identity, observation, journal\<close>

datatype restart_field =
    candidateIdField | expectedTxIdField | unsignedTxDigestField | unsignedPackageDigestField | payoutDigestField
  | trackerBoxIdField | duplicatePreventionBoxIdField | signedTransactionDigestField | transportReservationDigestField
  | durableAttemptDigestField

definition RESTART_FIELDS :: "restart_field list" where
  "RESTART_FIELDS = [candidateIdField, expectedTxIdField, unsignedTxDigestField, unsignedPackageDigestField, payoutDigestField,
     trackerBoxIdField, duplicatePreventionBoxIdField, signedTransactionDigestField, transportReservationDigestField,
     durableAttemptDigestField]"

record durable_identity =
  duSelf :: ref
  duStatus :: string
  duSubmissionAttempted :: bool
  duField :: "restart_field \<Rightarrow> string option"

record restart_observation =
  roSelf :: ref
  roDurable :: ref
  roStatus :: observation_status
  roObservationDigestHex :: "string option"
  roField :: "restart_field \<Rightarrow> string option"

record restart_journal =
  rjObservation :: ref
  rjObservationDigestHex :: "string option"
  rjApplied :: bool
  rjTerminalStateRetained :: "bool option"
  rjStatus :: string
  rjField :: "restart_field \<Rightarrow> string option"

record restart_result =
  rrStatus :: lifecycle_status
  rrDurable :: durable_identity
  rrObservation :: restart_observation
  rrJournal :: restart_journal
  rrDurableIdentityIsFundsAuthority :: bool
  rrEphemeralAuthorityRestored :: bool

datatype restart_call =
    RestartObserve durable_identity "string + restart_observation"
  | RestartRecord durable_identity restart_observation "string + restart_journal"

record 'w restart_ports =
  restartObserve :: "durable_identity \<Rightarrow> ('w, restart_observation) port"
  restartRecord :: "durable_identity \<Rightarrow> restart_observation \<Rightarrow> ('w, restart_journal) port"

fun assertDurableFields :: "(restart_field \<Rightarrow> string option) \<Rightarrow> restart_field list \<Rightarrow> settlement_error + unit" where
  "assertDurableFields f [] = Inr ()"
| "assertDurableFields f (k # ks) = andThen (canonicalHex (f k) ''restart identity'') (\<lambda>_. assertDurableFields f ks)"

definition assertDurableIdentity :: "durable_identity \<Rightarrow> settlement_error + unit" where
  "assertDurableIdentity d =
     require (\<not> (\<not> duSubmissionAttempted d
              \<or> (duStatus d \<noteq> ''pending'' \<and> duStatus d \<noteq> ''submitted'' \<and> duStatus d \<noteq> ''confirmed''))) NotDurable
     (assertDurableFields (duField d) RESTART_FIELDS)"

text \<open>\<^verbatim>\<open>exactCanonicalHex\<close> against the value the durable object has for the field.\<close>

definition exactRestartHex :: "string option \<Rightarrow> string option \<Rightarrow> string \<Rightarrow> settlement_error + unit" where
  "exactRestartHex actual expected label =
     andThen (canonicalHex actual label) (\<lambda>canonical. require (Some canonical = expected) (BindingMismatch label) (Inr ()))"

fun assertRestartFields :: "(restart_field \<Rightarrow> string option) \<Rightarrow> durable_identity \<Rightarrow> string \<Rightarrow> restart_field list \<Rightarrow> settlement_error + unit" where
  "assertRestartFields f d label [] = Inr ()"
| "assertRestartFields f d label (k # ks) =
     andThen (exactRestartHex (f k) (duField d k) label) (\<lambda>_. assertRestartFields f d label ks)"

definition assertRestartBinding :: "(restart_field \<Rightarrow> string option) \<Rightarrow> durable_identity \<Rightarrow> string \<Rightarrow> settlement_error + unit" where
  "assertRestartBinding f d label = assertRestartFields f d label RESTART_FIELDS"

definition freezeRestartResult :: "lifecycle_status \<Rightarrow> durable_identity \<Rightarrow> restart_observation \<Rightarrow> restart_journal \<Rightarrow> restart_result" where
  "freezeRestartResult status d ob j = \<lparr> rrStatus = status, rrDurable = d, rrObservation = ob, rrJournal = j,
     rrDurableIdentityIsFundsAuthority = False, rrEphemeralAuthorityRestored = False \<rparr>"

definition acceptRestartObservation :: "durable_identity \<Rightarrow> restart_observation \<Rightarrow> settlement_error + unit" where
  "acceptRestartObservation d ob =
     exactParent (roDurable ob) (duSelf d) ''restart observation durable identity''
     (andThen (assertRestartBinding (roField ob) d ''restart observation'') (\<lambda>_.
      andThen (canonicalHex (roObservationDigestHex ob) ''restart observation digest'') (\<lambda>_. Inr ())))"

definition acceptRestartJournal :: "durable_identity \<Rightarrow> restart_observation \<Rightarrow> restart_journal \<Rightarrow> settlement_error + unit" where
  "acceptRestartJournal d ob j =
     exactParent (rjObservation j) (roSelf ob) ''restart journal observation''
     (andThen (assertRestartBinding (rjField j) d ''restart journal result'') (\<lambda>_.
      andThen (exactRestartHex (rjObservationDigestHex j) (roObservationDigestHex ob) ''restart journal observation digest'') (\<lambda>_.
      assertJournalApplicationOrTerminalRetention (rjApplied j) (rjTerminalStateRetained j) (rjStatus j)
        ''restart reconciliation journal'' (Inr ()))))"

definition reconcileAuthenticatedSettlementSubmission :: "'w restart_ports \<Rightarrow> durable_identity
    \<Rightarrow> (('w, restart_call) port_run, settlement_error, restart_result) action" where
  "reconcileAuthenticatedSettlementSubmission P d =
     bindA (liftA (assertDurableIdentity d)) (\<lambda>_.
     bindA (portAction PortThrew (RestartObserve d) (restartObserve P d)) (\<lambda>ob.
     bindA (liftA (acceptRestartObservation d ob)) (\<lambda>_.
     bindA (portAction PortThrew (RestartRecord d ob) (restartRecord P d ob)) (\<lambda>j.
     bindA (liftA (acceptRestartJournal d ob j)) (\<lambda>_.
     bindA (liftA (confirmationOutcomeStatus (roStatus ob) (rjStatus j))) (\<lambda>status.
     returnA (freezeRestartResult status d ob j)))))))"


section \<open>The outcome of a restart\<close>

definition attempted_identity :: "durable_identity \<Rightarrow> bool" where
  "attempted_identity d \<longleftrightarrow> duSubmissionAttempted d \<and> List.member [''pending'', ''submitted'', ''confirmed''] (duStatus d)
   \<and> (\<forall>k. \<exists>v. duField d k = Some v \<and> isHex64 v)"

definition restart_outcome :: "lifecycle_status \<Rightarrow> restart_observation \<Rightarrow> restart_journal \<Rightarrow> bool" where
  "restart_outcome status ob j \<longleftrightarrow>
     (if rjApplied j then rjTerminalStateRetained j \<noteq> Some True else rjTerminalStateRetained j = Some True \<and> rjStatus j = ''quarantined'')
   \<and> (case status of
        fail_closed \<Rightarrow> rjStatus j = ''quarantined''
      | confirmed \<Rightarrow> roStatus ob = observed_confirmed \<and> rjStatus j = ''confirmed''
      | submitted \<Rightarrow> roStatus ob = submitted_unconfirmed \<and> rjStatus j = ''submitted''
      | pending_reconciliation \<Rightarrow> roStatus ob = inconclusive \<and> rjStatus j = ''pending_reconciliation'')"

lemma RESTART_FIELDS_all: "set RESTART_FIELDS = UNIV"
  using restart_field.exhaust by (auto simp: RESTART_FIELDS_def)

lemma assertDurableFields_iff: "assertDurableFields f ks = Inr u \<longleftrightarrow> (\<forall>k\<in>set ks. \<exists>v. f k = Some v \<and> isHex64 v)"
  by (induction ks) (auto simp: result_simps canonicalHex_def split: option.splits)

lemma assertDurableIdentity_iff: "assertDurableIdentity d = Inr u \<longleftrightarrow> attempted_identity d"
  by (auto simp: assertDurableIdentity_def attempted_identity_def result_simps assertDurableFields_iff RESTART_FIELDS_all)

lemma exactRestartHex_iff: "exactRestartHex a b l = Inr u \<longleftrightarrow> (\<exists>v. a = Some v \<and> b = Some v \<and> isHex64 v)"
  by (auto simp: exactRestartHex_def canonicalHex_def result_simps split: option.splits)

lemma assertRestartFields_iff:
  "assertRestartFields f d l ks = Inr u \<longleftrightarrow> (\<forall>k\<in>set ks. \<exists>v. f k = Some v \<and> duField d k = Some v \<and> isHex64 v)"
  by (induction ks) (auto simp: result_simps exactRestartHex_iff)

lemma assertRestartBinding_iff: "attempted_identity d \<Longrightarrow> assertRestartBinding f d l = Inr u \<longleftrightarrow> f = duField d"
  by (simp add: assertRestartBinding_def assertRestartFields_iff RESTART_FIELDS_all attempted_identity_def fun_eq_iff) metis

lemma restart_observation_iff:
  "attempted_identity d \<Longrightarrow> acceptRestartObservation d ob = Inr u \<longleftrightarrow>
     roDurable ob = duSelf d \<and> roField ob = duField d \<and> (\<exists>v. roObservationDigestHex ob = Some v \<and> isHex64 v)"
  by (auto simp: acceptRestartObservation_def exactParent_def require_def assertRestartBinding_iff andThen_Inr_iff canonicalHex_def
      split: option.splits)

lemma restart_journal_iff:
  "attempted_identity d \<Longrightarrow>
     acceptRestartJournal d ob j = Inr () \<and> confirmationOutcomeStatus (roStatus ob) (rjStatus j) = Inr st \<longleftrightarrow>
     rjObservation j = roSelf ob \<and> rjField j = duField d
     \<and> (\<exists>v. rjObservationDigestHex j = Some v \<and> roObservationDigestHex ob = Some v \<and> isHex64 v) \<and> restart_outcome st ob j"
  by (cases st) (auto simp: acceptRestartJournal_def exactParent_def require_def assertRestartBinding_iff andThen_Inr_iff exactRestartHex_iff
      assertJournalApplicationOrTerminalRetention_def confirmationOutcomeStatus_def restart_outcome_def split: if_splits)


definition demoDurable :: durable_identity where
  "demoDurable = \<lparr> duSelf = 1, duStatus = ''submitted'', duSubmissionAttempted = True, duField = (\<lambda>_. Some (replicate 64 CHR ''b'')) \<rparr>"

definition demoRestartPorts :: "unit restart_ports" where
  "demoRestartPorts = \<lparr>
     restartObserve = (\<lambda>d w. (Inr \<lparr> roSelf = 2, roDurable = duSelf d, roStatus = observed_confirmed,
        roObservationDigestHex = Some (replicate 64 CHR ''c''), roField = duField d \<rparr>, w)),
     restartRecord = (\<lambda>d ob w. (Inr \<lparr> rjObservation = roSelf ob, rjObservationDigestHex = roObservationDigestHex ob, rjApplied = True,
        rjTerminalStateRetained = None, rjStatus = ''confirmed'', rjField = duField d \<rparr>, w)) \<rparr>"

text \<open>C28. Restart reconciliation returns a status exactly when the durable identity names one attempted submission, the
  observation is of that identity and repeats its ten fields, and the journal is of that observation, repeats them too
  and either applied or retained a quarantine; the status is then the one their two statuses determine, and the result
  carries no authority. Both ports are called once, in this order, with these arguments.\<close>

theorem restart_exact:
  assumes "restartObserve P d (world s) = (Inr ob, w1)" and "restartRecord P d ob w1 = (Inr j, w2)"
  shows "fst (reconcileAuthenticatedSettlementSubmission P d s) = Inr res \<longleftrightarrow>
    attempted_identity d \<and> roDurable ob = duSelf d \<and> roField ob = duField d \<and> rjObservation j = roSelf ob \<and> rjField j = duField d
    \<and> (\<exists>v. isHex64 v \<and> roObservationDigestHex ob = Some v \<and> rjObservationDigestHex j = Some v)
    \<and> restart_outcome (rrStatus res) ob j \<and> res = freezeRestartResult (rrStatus res) d ob j"
proof (cases "attempted_identity d \<and> isOk (acceptRestartObservation d ob)")
  case True
  then have durable: "attempted_identity d" and parent: "roDurable ob = duSelf d" "roField ob = duField d"
    and accepted: "assertDurableIdentity d = Inr ()" "acceptRestartObservation d ob = Inr ()"
    by (auto simp: assertDurableIdentity_iff isOk_iff restart_observation_iff)
  have "fst (reconcileAuthenticatedSettlementSubmission P d s) = Inr res \<longleftrightarrow>
      (\<exists>st. (acceptRestartJournal d ob j = Inr () \<and> confirmationOutcomeStatus (roStatus ob) (rjStatus j) = Inr st)
         \<and> res = freezeRestartResult st d ob j)"
    using assms accepted
    by (cases "acceptRestartJournal d ob j"; cases "confirmationOutcomeStatus (roStatus ob) (rjStatus j)")
      (auto simp: reconcileAuthenticatedSettlementSubmission_def action_defs)
  also have "\<dots> \<longleftrightarrow> rjObservation j = roSelf ob \<and> rjField j = duField d
     \<and> (\<exists>v. rjObservationDigestHex j = Some v \<and> roObservationDigestHex ob = Some v \<and> isHex64 v)
     \<and> restart_outcome (rrStatus res) ob j \<and> res = freezeRestartResult (rrStatus res) d ob j"
    unfolding restart_journal_iff[OF durable] by (auto simp: freezeRestartResult_def)
  finally show ?thesis
    using durable parent by blast
next
  case False
  then have "(\<exists>e. assertDurableIdentity d = Inl e) \<or> (\<exists>e. acceptRestartObservation d ob = Inl e)"
    by (cases "assertDurableIdentity d"; cases "acceptRestartObservation d ob") (auto simp: assertDurableIdentity_iff)
  then have "\<not> (\<exists>res. fst (reconcileAuthenticatedSettlementSubmission P d s) = Inr res)"
    using assms by (cases "assertDurableIdentity d") (auto simp: reconcileAuthenticatedSettlementSubmission_def action_defs)
  then show ?thesis
    using False by (auto simp: isOk_iff restart_observation_iff)
qed

theorem restart_exact_witness:
  "\<exists>res. fst (reconcileAuthenticatedSettlementSubmission demoRestartPorts demoDurable \<lparr> world = (), calls = [] \<rparr>) = Inr res
     \<and> rrStatus res = confirmed"
proof -
  let ?ob = "\<lparr> roSelf = 2, roDurable = 1, roStatus = observed_confirmed, roObservationDigestHex = Some (replicate 64 CHR ''c''),
     roField = duField demoDurable \<rparr>"
  let ?j = "\<lparr> rjObservation = 2, rjObservationDigestHex = Some (replicate 64 CHR ''c''), rjApplied = True,
     rjTerminalStateRetained = None, rjStatus = ''confirmed'', rjField = duField demoDurable \<rparr>"
  have hex: "isHex64 (replicate 64 CHR ''b'')" "isHex64 (replicate 64 CHR ''c'')"
    by code_simp+
  have "restartObserve demoRestartPorts demoDurable () = (Inr ?ob, ())" "restartRecord demoRestartPorts demoDurable ?ob () = (Inr ?j, ())"
    by (simp_all add: demoRestartPorts_def demoDurable_def)
  from restart_exact[of demoRestartPorts demoDurable "\<lparr> world = (), calls = [] \<rparr>", simplified, OF this,
      of "freezeRestartResult confirmed demoDurable ?ob ?j"]
  show ?thesis
    using hex by (auto simp: demoDurable_def attempted_identity_def restart_outcome_def freezeRestartResult_def)
qed

text \<open>Restart reconciliation calls nothing for an identity that is not a durable attempt: it throws with the state
  unchanged; and whatever happens, it makes at most an observation and then one journal write for this identity, the
  write only for an observation of this identity that was accepted.\<close>

theorem restart_calls:
  "\<exists>tr. calls (snd (reconcileAuthenticatedSettlementSubmission P d s)) = calls s @ tr
    \<and> (tr = [] \<longleftrightarrow> \<not> attempted_identity d)
    \<and> (tr = [] \<or> (\<exists>a. tr = [RestartObserve d a])
      \<or> (\<exists>ob a. tr = [RestartObserve d (Inr ob), RestartRecord d ob a] \<and> roDurable ob = duSelf d \<and> roField ob = duField d))"
proof (cases "assertDurableIdentity d")
  case (Inl e)
  then show ?thesis
    by (simp add: reconcileAuthenticatedSettlementSubmission_def action_defs flip: assertDurableIdentity_iff[of d "()"])
next
  case (Inr u)
  then have durable: "attempted_identity d"
    by (simp add: assertDurableIdentity_iff)
  obtain a w where observe: "restartObserve P d (world s) = (a, w)"
    by fastforce
  show ?thesis
  proof (cases a)
    case (Inl e)
    then show ?thesis
      using observe Inr durable by (auto simp: reconcileAuthenticatedSettlementSubmission_def action_defs)
  next
    case a: (Inr ob)
    obtain a2 w2 where journal: "restartRecord P d ob w = (a2, w2)"
      by fastforce
    show ?thesis
      using observe journal a Inr durable restart_observation_iff[OF durable, of ob "()"]
      by (cases "acceptRestartObservation d ob"; cases a2)
        (auto simp: reconcileAuthenticatedSettlementSubmission_def action_defs split: sum.splits)
  qed
qed

end
