(* ===== verification/Operator_Health.thy ===== *)
theory Operator_Health
  imports Read_Quorum
begin

text \<open>
  The operator health projection (\<^verbatim>\<open>relayer-core/operator-health-projection.ts\<close>): a pure summary of what
  the supervisors, the hold gates and the persistence layer report, with an ordered list of reasons and one
  overall status. Alerts, acknowledgements and recovery actions start from it.

  Each stretch of \<^verbatim>\<open>projectOperatorHealth\<close> that computes one signal is a definition which returns the
  signal and the reasons it adds to the set, in source order, so a \<^verbatim>\<open>throw\<close> of an earlier stretch hides
  those of later ones as in the code. \<^verbatim>\<open>assertEnum\<close> and \<^verbatim>\<open>assertBoolean\<close> check what the types of the
  model already say; an absent number (\<^verbatim>\<open>null\<close>) is \<open>None\<close>. The constant \<^verbatim>\<open>capabilities\<close> object is
  left out.
\<close>

section \<open>Data\<close>

datatype health_status = Healthy | Degraded | Held | Unavailable | NotApplicable

datatype solvency_state = SolvencyNotObserved | SolvencyClear | SolvencyDeficit | SolvencyUnavailable

datatype signer_state = SignerAvailable | SignerUnavailable | SignerNotConfigured

datatype continuity_status = Established | RecoveryRequired

datatype persistence_status = PersistenceAvailable | PersistenceUnavailable

datatype health_reason =
    persistence_unavailable | operator_clock_rollback | signer_unavailable | read_quorum_held
  | read_quorum_stale | funds_release_held | solvency_deficit | solvency_unavailable | solvency_stale
  | commitment_unavailable | commitment_stale | commitment_lagging | finality_unavailable
  | finality_stale | finality_lagging | reorg_reconciliation_pending | reorg_quarantine_present
  | settlement_stalled

datatype health_error =
    NotNonnegativeSafe string
  | NotPositive string
  | UnsupportedPolicy
  | QuorumStateAndHoldDisagree
  | ActiveCountAndOldestDisagree
  | SolvencyStateAndTimeDisagree
  | UnconfiguredCommitmentObserved
  | ReadyCommitmentIncomplete
  | CommitmentAboveCurrentHeight
  | FinalityIncomplete
  | FinalizedAboveCurrentHeight

definition OPERATOR_HEALTH_POLICY_SCHEMA :: string where
  "OPERATOR_HEALTH_POLICY_SCHEMA = ''e2s.operator-health-policy.v1''"

definition OPERATOR_HEALTH_PROJECTION_SCHEMA :: string where
  "OPERATOR_HEALTH_PROJECTION_SCHEMA = ''e2s.operator-health-projection.v3''"

record health_policy =
  policySchema :: string
  readQuorumMaxAgeMs :: int
  commitmentMaxAgeMs :: int
  commitmentMaxLagBlocks :: int
  finalityMaxAgeMs :: int
  finalityMaxLagBlocks :: int
  solvencyMaxAgeMs :: int
  stalledSettlementAgeMs :: int

record persistence_snapshot =
  solvencyDeficitIncidentPresent :: bool
  reorgQuarantineConditionCount :: int
  activeSettlementAttemptCount :: int
  oldestActiveSettlementUpdatedAtMs :: "int option"

record health_input =
  inObservedAtMs :: int
  inPolicy :: health_policy
  inSigner :: signer_state
  inQuorumState :: quorum_state
  inQuorumHeld :: bool
  inQuorumFailures :: int
  inQuorumFailureCode :: "failure_code option"
  inQuorumAcceptedAtMs :: "int option"
  inProcessHoldOpen :: bool
  inDurableHoldOpen :: bool
  inIncidentCount :: int
  inContinuity :: continuity_status
  inWitnessCurrent :: bool
  inRetainedAuthority :: bool
  inSolvencyState :: solvency_state
  inSolvencyAtMs :: "int option"
  inCommitmentConfigured :: bool
  inCommitmentReady :: bool
  inCommitmentAtMs :: "int option"
  inCommitmentObservedHeight :: "int option"
  inCommitmentCurrentHeight :: "int option"
  inFinalityAtMs :: "int option"
  inFinalizedHeight :: "int option"
  inSidechainHeight :: "int option"
  inReconciliationPending :: bool
  inPersistence :: "persistence_snapshot option"

record signer_signal =
  sgStatus :: health_status
  sgAvailability :: signer_state

record quorum_signal =
  rqStatus :: health_status
  rqState :: quorum_state
  rqAgeMs :: "int option"
  rqConsecutiveFailures :: int
  rqLastFailureCode :: "failure_code option"

record funds_signal =
  frStatus :: health_status
  frProcessHoldOpen :: bool
  frDurableHoldOpen :: bool
  frIncidentCount :: int
  frContinuityStatus :: continuity_status
  frWitnessCurrent :: bool
  frRetainedAuthority :: bool

record solvency_signal =
  svStatus :: health_status
  svObservationState :: solvency_state
  svAgeMs :: "int option"
  svDurableDeficit :: "bool option"

record commitment_signal =
  cmStatus :: health_status
  cmConfigured :: bool
  cmReady :: bool
  cmAgeMs :: "int option"
  cmObservedErgoHeight :: "int option"
  cmCurrentErgoHeight :: "int option"
  cmLagBlocks :: "int option"

record finality_signal =
  fnStatus :: health_status
  fnAgeMs :: "int option"
  fnFinalizedHeight :: "int option"
  fnCurrentHeight :: "int option"
  fnLagBlocks :: "int option"

record reorg_signal =
  rgStatus :: health_status
  rgReconciliationPending :: bool
  rgQuarantineCount :: "int option"

record settlement_signal =
  stStatus :: health_status
  stActiveAttemptCount :: "int option"
  stOldestActiveAgeMs :: "int option"
  stStalled :: "bool option"

record health_projection =
  pjSchema :: string
  pjObservedAtMs :: int
  pjOverall :: health_status
  pjReasons :: "health_reason list"
  pjSigner :: signer_signal
  pjReadQuorum :: quorum_signal
  pjFundsRelease :: funds_signal
  pjSolvency :: solvency_signal
  pjCommitment :: commitment_signal
  pjFinality :: finality_signal
  pjReorg :: reorg_signal
  pjSettlement :: settlement_signal
  pjPersistence :: persistence_status

definition REASON_ORDER :: "health_reason list" where
  "REASON_ORDER =
     [persistence_unavailable, operator_clock_rollback, signer_unavailable, read_quorum_held, read_quorum_stale,
      funds_release_held, solvency_deficit, solvency_unavailable, solvency_stale, commitment_unavailable,
      commitment_stale, commitment_lagging, finality_unavailable, finality_stale, finality_lagging,
      reorg_reconciliation_pending, reorg_quarantine_present, settlement_stalled]"

definition HELD_REASONS :: "health_reason list" where
  "HELD_REASONS =
     [persistence_unavailable, operator_clock_rollback, signer_unavailable, read_quorum_held, read_quorum_stale,
      funds_release_held, solvency_deficit, reorg_reconciliation_pending, reorg_quarantine_present]"


section \<open>Operations\<close>

definition healthNonnegative :: "int \<Rightarrow> string \<Rightarrow> health_error + int" where
  "healthNonnegative value label = require (\<not> (\<not> isSafeInteger value \<or> value < 0)) (NotNonnegativeSafe label) (Inr value)"

definition healthPositive :: "int \<Rightarrow> string \<Rightarrow> health_error + int" where
  "healthPositive value label = andThen (healthNonnegative value label) (\<lambda>normalized.
     require (normalized \<noteq> 0) (NotPositive label) (Inr normalized))"

text \<open>The conditional \<^verbatim>\<open>x === null ? null : normalizeNonnegativeSafeInteger(x, label)\<close>.\<close>

definition healthOptional :: "int option \<Rightarrow> string \<Rightarrow> health_error + int option" where
  "healthOptional value label = (case value of
       None \<Rightarrow> Inr None
     | Some v \<Rightarrow> andThen (healthNonnegative v label) (\<lambda>n. Inr (Some n)))"

text \<open>The age of an observation, and whether the clock stands before it.\<close>

definition observationAge :: "int option \<Rightarrow> int \<Rightarrow> string \<Rightarrow> health_error + (int option \<times> bool)" where
  "observationAge observedAtMs nowMs label = (case observedAtMs of
       None \<Rightarrow> Inr (None, False)
     | Some t \<Rightarrow> andThen (healthNonnegative t label) (\<lambda>observedAt.
         if observedAt > nowMs then Inr (None, True) else Inr (Some (nowMs - observedAt), False)))"

definition createOperatorHealthPolicyV1 :: "health_policy \<Rightarrow> health_error + health_policy" where
  "createOperatorHealthPolicyV1 p =
     andThen (healthPositive (readQuorumMaxAgeMs p) ''operator-health read-quorum maximum age'') (\<lambda>a.
     andThen (healthPositive (commitmentMaxAgeMs p) ''operator-health commitment maximum age'') (\<lambda>b.
     andThen (healthNonnegative (commitmentMaxLagBlocks p) ''operator-health commitment maximum lag'') (\<lambda>c.
     andThen (healthPositive (finalityMaxAgeMs p) ''operator-health finality maximum age'') (\<lambda>d.
     andThen (healthNonnegative (finalityMaxLagBlocks p) ''operator-health finality maximum lag'') (\<lambda>e.
     andThen (healthPositive (solvencyMaxAgeMs p) ''operator-health solvency maximum age'') (\<lambda>f.
     andThen (healthPositive (stalledSettlementAgeMs p) ''operator-health stalled-settlement age'') (\<lambda>g.
     Inr \<lparr> policySchema = OPERATOR_HEALTH_POLICY_SCHEMA, readQuorumMaxAgeMs = a, commitmentMaxAgeMs = b,
           commitmentMaxLagBlocks = c, finalityMaxAgeMs = d, finalityMaxLagBlocks = e, solvencyMaxAgeMs = f,
           stalledSettlementAgeMs = g \<rparr>)))))))"

text \<open>\<^verbatim>\<open>ageMs === null || ageMs > maximum\<close>\<close>

definition tooOld :: "int option \<Rightarrow> int \<Rightarrow> bool" where
  "tooOld age maximum = (case age of None \<Rightarrow> True | Some a \<Rightarrow> a > maximum)"

text \<open>\<^verbatim>\<open>lag !== null && lag > maximum\<close>\<close>

definition tooFar :: "int option \<Rightarrow> int \<Rightarrow> bool" where
  "tooFar lag maximum = (case lag of None \<Rightarrow> False | Some l \<Rightarrow> l > maximum)"

definition heightLag :: "int option \<Rightarrow> int option \<Rightarrow> int option" where
  "heightLag observed current = (case observed of None \<Rightarrow> None | Some a \<Rightarrow>
     (case current of None \<Rightarrow> None | Some b \<Rightarrow> Some (b - a)))"

definition heightAbove :: "int option \<Rightarrow> int option \<Rightarrow> bool" where
  "heightAbove observed current = (case observed of None \<Rightarrow> False | Some a \<Rightarrow>
     (case current of None \<Rightarrow> False | Some b \<Rightarrow> a > b))"

definition rollbackReason :: "bool \<Rightarrow> health_reason list" where
  "rollbackReason rollback = (if rollback then [operator_clock_rollback] else [])"

definition signerSignal :: "health_input \<Rightarrow> signer_signal \<times> health_reason list" where
  "signerSignal i =
     (\<lparr> sgStatus = (case inSigner i of SignerAvailable \<Rightarrow> Healthy | SignerUnavailable \<Rightarrow> Held
                    | SignerNotConfigured \<Rightarrow> NotApplicable),
        sgAvailability = inSigner i \<rparr>,
      if inSigner i = SignerUnavailable then [signer_unavailable] else [])"

definition readQuorumSignal :: "health_policy \<Rightarrow> int \<Rightarrow> health_input
    \<Rightarrow> health_error + (quorum_signal \<times> health_reason list)" where
  "readQuorumSignal policy nowMs i =
     andThen (healthNonnegative (inQuorumFailures i) ''operator-health read-quorum failure count'') (\<lambda>failures.
     andThen (observationAge (inQuorumAcceptedAtMs i) nowMs ''operator-health read-quorum observation time'') (\<lambda>(age, rollback).
     require (\<not> ((inQuorumState i = Closed) = inQuorumHeld i)) QuorumStateAndHoldDisagree (
       let (status, added) =
         if inQuorumState i \<noteq> Closed then (Held, [read_quorum_held])
         else if rollback \<or> tooOld age (readQuorumMaxAgeMs policy)
         then (Held, [if rollback then operator_clock_rollback else read_quorum_stale])
         else (Healthy, [])
       in Inr (\<lparr> rqStatus = status, rqState = inQuorumState i, rqAgeMs = age, rqConsecutiveFailures = failures,
                 rqLastFailureCode = inQuorumFailureCode i \<rparr>, rollbackReason rollback @ added))))"

definition fundsReleaseSignal :: "health_input \<Rightarrow> health_error + (funds_signal \<times> health_reason list)" where
  "fundsReleaseSignal i =
     andThen (healthNonnegative (inIncidentCount i) ''operator-health funds-release incident count'') (\<lambda>incidents.
       let fundsReleaseHeld = inProcessHoldOpen i \<or> inDurableHoldOpen i \<or> incidents > 0
             \<or> inContinuity i = RecoveryRequired \<or> \<not> inWitnessCurrent i \<or> inRetainedAuthority i
       in Inr (\<lparr> frStatus = (if fundsReleaseHeld then Held else Healthy), frProcessHoldOpen = inProcessHoldOpen i,
                 frDurableHoldOpen = inDurableHoldOpen i, frIncidentCount = incidents,
                 frContinuityStatus = inContinuity i, frWitnessCurrent = inWitnessCurrent i,
                 frRetainedAuthority = inRetainedAuthority i \<rparr>,
               if fundsReleaseHeld then [funds_release_held] else []))"

text \<open>The persisted counts, checked; \<open>None\<close> when the persistence layer is unavailable.\<close>

definition persistenceSignal :: "health_input \<Rightarrow> health_error + (persistence_snapshot option \<times> health_reason list)" where
  "persistenceSignal i = (case inPersistence i of
       None \<Rightarrow> Inr (None, [persistence_unavailable])
     | Some s \<Rightarrow>
         andThen (healthNonnegative (reorgQuarantineConditionCount s) ''operator-health reorg quarantine condition count'') (\<lambda>quarantine.
         andThen (healthNonnegative (activeSettlementAttemptCount s) ''operator-health active settlement attempt count'') (\<lambda>active.
         require (\<not> ((active = 0) \<noteq> (oldestActiveSettlementUpdatedAtMs s = None))) ActiveCountAndOldestDisagree (
         Inr (Some \<lparr> solvencyDeficitIncidentPresent = solvencyDeficitIncidentPresent s,
                     reorgQuarantineConditionCount = quarantine, activeSettlementAttemptCount = active,
                     oldestActiveSettlementUpdatedAtMs = oldestActiveSettlementUpdatedAtMs s \<rparr>, [])))))"

definition solvencySignal :: "health_policy \<Rightarrow> int \<Rightarrow> persistence_snapshot option \<Rightarrow> health_input
    \<Rightarrow> health_error + (solvency_signal \<times> health_reason list)" where
  "solvencySignal policy nowMs pers i =
     andThen (observationAge (inSolvencyAtMs i) nowMs ''operator-health solvency observation time'') (\<lambda>(age, rollback).
     require (\<not> ((inSolvencyState i = SolvencyNotObserved) \<noteq> (inSolvencyAtMs i = None))) SolvencyStateAndTimeDisagree (
       let deficitRow = map_option solvencyDeficitIncidentPresent pers;
         (status, added) =
           if inSolvencyState i = SolvencyDeficit \<or> deficitRow = Some True then (Held, [solvency_deficit])
           else if pers = None \<or> inSolvencyState i = SolvencyNotObserved \<or> inSolvencyState i = SolvencyUnavailable
           then (if \<not> rollback then (if pers \<noteq> None then Degraded else Unavailable) else Held, [solvency_unavailable])
           else if \<not> rollback \<and> tooOld age (solvencyMaxAgeMs policy) then (Degraded, [solvency_stale])
           else (if rollback then Held else Healthy, [])
       in Inr (\<lparr> svStatus = status, svObservationState = inSolvencyState i, svAgeMs = age,
                 svDurableDeficit = deficitRow \<rparr>, rollbackReason rollback @ added)))"

definition commitmentSignal :: "health_policy \<Rightarrow> int \<Rightarrow> health_input
    \<Rightarrow> health_error + (commitment_signal \<times> health_reason list)" where
  "commitmentSignal policy nowMs i =
     require (\<not> (\<not> inCommitmentConfigured i \<and> (inCommitmentReady i \<or> inCommitmentAtMs i \<noteq> None
                 \<or> inCommitmentObservedHeight i \<noteq> None))) UnconfiguredCommitmentObserved (
     require (\<not> (inCommitmentReady i \<and> (inCommitmentAtMs i = None \<or> inCommitmentObservedHeight i = None
                 \<or> inCommitmentCurrentHeight i = None))) ReadyCommitmentIncomplete (
     andThen (healthOptional (inCommitmentObservedHeight i) ''operator-health commitment Ergo height'') (\<lambda>observed.
     andThen (healthOptional (inCommitmentCurrentHeight i) ''operator-health current Ergo height'') (\<lambda>current.
     require (\<not> heightAbove observed current) CommitmentAboveCurrentHeight (
     andThen (observationAge (inCommitmentAtMs i) nowMs ''operator-health commitment observation time'') (\<lambda>(age, rollback).
       let lag = heightLag observed current;
         (status, added) =
           if rollback then (Held, [])
           else if \<not> inCommitmentConfigured i \<or> \<not> inCommitmentReady i then (Degraded, [commitment_unavailable])
           else if tooOld age (commitmentMaxAgeMs policy) then (Degraded, [commitment_stale])
           else if tooFar lag (commitmentMaxLagBlocks policy) then (Degraded, [commitment_lagging])
           else (Healthy, [])
       in Inr (\<lparr> cmStatus = status, cmConfigured = inCommitmentConfigured i, cmReady = inCommitmentReady i,
                 cmAgeMs = age, cmObservedErgoHeight = observed, cmCurrentErgoHeight = current,
                 cmLagBlocks = lag \<rparr>, rollbackReason rollback @ added)))))))"

definition finalitySignal :: "health_policy \<Rightarrow> int \<Rightarrow> health_input
    \<Rightarrow> health_error + (finality_signal \<times> health_reason list)" where
  "finalitySignal policy nowMs i = (
     let finalityFields = [inFinalityAtMs i, inFinalizedHeight i, inSidechainHeight i];
       finalityPresent = list_all (\<lambda>v. v \<noteq> None) finalityFields
     in
     require (\<not> (\<not> finalityPresent \<and> list_ex (\<lambda>v. v \<noteq> None) finalityFields)) FinalityIncomplete (
     andThen (healthOptional (inFinalizedHeight i) ''operator-health finalized sidechain height'') (\<lambda>finalized.
     andThen (healthOptional (inSidechainHeight i) ''operator-health current sidechain height'') (\<lambda>current.
     require (\<not> heightAbove finalized current) FinalizedAboveCurrentHeight (
     andThen (observationAge (inFinalityAtMs i) nowMs ''operator-health finality observation time'') (\<lambda>(age, rollback).
       let lag = heightLag finalized current;
         (status, added) =
           if rollback then (Held, [])
           else if \<not> finalityPresent then (Degraded, [finality_unavailable])
           else if tooOld age (finalityMaxAgeMs policy) then (Degraded, [finality_stale])
           else if tooFar lag (finalityMaxLagBlocks policy) then (Degraded, [finality_lagging])
           else (Healthy, [])
       in Inr (\<lparr> fnStatus = status, fnAgeMs = age, fnFinalizedHeight = finalized, fnCurrentHeight = current,
                 fnLagBlocks = lag \<rparr>, rollbackReason rollback @ added)))))))"

definition reorgSignal :: "persistence_snapshot option \<Rightarrow> health_input \<Rightarrow> reorg_signal \<times> health_reason list" where
  "reorgSignal pers i = (
     let quarantine = map_option reorgQuarantineConditionCount pers;
       quarantined = (case quarantine of None \<Rightarrow> False | Some n \<Rightarrow> n > 0);
       status0 = (if pers = None then Unavailable else Healthy);
       status1 = (if inReconciliationPending i then Held else status0);
       status2 = (if quarantined then Held else status1)
     in (\<lparr> rgStatus = status2, rgReconciliationPending = inReconciliationPending i, rgQuarantineCount = quarantine \<rparr>,
         (if inReconciliationPending i then [reorg_reconciliation_pending] else [])
         @ (if quarantined then [reorg_quarantine_present] else [])))"

definition settlementSignal :: "health_policy \<Rightarrow> int \<Rightarrow> persistence_snapshot option
    \<Rightarrow> health_error + (settlement_signal \<times> health_reason list)" where
  "settlementSignal policy nowMs pers = (case pers of
       None \<Rightarrow> Inr (\<lparr> stStatus = Unavailable, stActiveAttemptCount = None, stOldestActiveAgeMs = None, stStalled = None \<rparr>, [])
     | Some s \<Rightarrow> (case oldestActiveSettlementUpdatedAtMs s of
         None \<Rightarrow> Inr (\<lparr> stStatus = Healthy, stActiveAttemptCount = Some (activeSettlementAttemptCount s),
                        stOldestActiveAgeMs = None, stStalled = Some False \<rparr>, [])
       | Some t \<Rightarrow>
           andThen (observationAge (Some t) nowMs ''operator-health oldest active settlement update'') (\<lambda>(age, rollback).
             if rollback
             then Inr (\<lparr> stStatus = Held, stActiveAttemptCount = Some (activeSettlementAttemptCount s),
                         stOldestActiveAgeMs = None, stStalled = None \<rparr>, [operator_clock_rollback])
             else let stalled = tooFar age (stalledSettlementAgeMs policy)
               in Inr (\<lparr> stStatus = (if stalled then Degraded else Healthy),
                         stActiveAttemptCount = Some (activeSettlementAttemptCount s),
                         stOldestActiveAgeMs = age, stStalled = Some stalled \<rparr>,
                       if stalled then [settlement_stalled] else []))))"

definition orderReasons :: "health_reason list \<Rightarrow> health_reason list" where
  "orderReasons added = filter (\<lambda>r. List.member added r) REASON_ORDER"

definition overallStatus :: "health_reason list \<Rightarrow> health_status" where
  "overallStatus ordered =
     (if list_ex (\<lambda>r. List.member HELD_REASONS r) ordered then Held
      else if ordered \<noteq> [] then Degraded else Healthy)"

text \<open>The object returned at the end.\<close>

definition assembleProjection :: "int \<Rightarrow> health_reason list \<Rightarrow> persistence_snapshot option \<Rightarrow> signer_signal \<Rightarrow> quorum_signal
    \<Rightarrow> funds_signal \<Rightarrow> solvency_signal \<Rightarrow> commitment_signal \<Rightarrow> finality_signal \<Rightarrow> reorg_signal \<Rightarrow> settlement_signal
    \<Rightarrow> health_projection" where
  "assembleProjection nowMs added pers signer quorum funds solvency commitment finality reorg settlement =
     \<lparr> pjSchema = OPERATOR_HEALTH_PROJECTION_SCHEMA, pjObservedAtMs = nowMs,
       pjOverall = overallStatus (orderReasons added), pjReasons = orderReasons added, pjSigner = signer,
       pjReadQuorum = quorum, pjFundsRelease = funds, pjSolvency = solvency, pjCommitment = commitment,
       pjFinality = finality, pjReorg = reorg, pjSettlement = settlement,
       pjPersistence = (if pers \<noteq> None then PersistenceAvailable else PersistenceUnavailable) \<rparr>"

definition projectOperatorHealth :: "health_input \<Rightarrow> health_error + health_projection" where
  "projectOperatorHealth i =
     andThen (healthNonnegative (inObservedAtMs i) ''operator-health observation time'') (\<lambda>nowMs.
     require (policySchema (inPolicy i) = OPERATOR_HEALTH_POLICY_SCHEMA) UnsupportedPolicy (
     andThen (createOperatorHealthPolicyV1 (inPolicy i)) (\<lambda>policy.
     let (signer, r1) = signerSignal i in
     andThen (readQuorumSignal policy nowMs i) (\<lambda>(quorum, r2).
     andThen (fundsReleaseSignal i) (\<lambda>(funds, r3).
     andThen (persistenceSignal i) (\<lambda>(pers, r4).
     andThen (solvencySignal policy nowMs pers i) (\<lambda>(solvency, r5).
     andThen (commitmentSignal policy nowMs i) (\<lambda>(commitment, r6).
     andThen (finalitySignal policy nowMs i) (\<lambda>(finality, r7).
     let (reorg, r8) = reorgSignal pers i in
     andThen (settlementSignal policy nowMs pers) (\<lambda>(settlement, r9).
     Inr (assembleProjection nowMs (r1 @ r2 @ r3 @ r4 @ r5 @ r6 @ r7 @ r8 @ r9) pers signer quorum funds
       solvency commitment finality reorg settlement)))))))))))"


section \<open>What a projection means\<close>

text \<open>The specification: when an input is accepted, and which condition each reason stands for. A timestamp is
  \<open>ahead\<close> of the clock or \<open>expired\<close> under a maximum age; an absent one is expired.\<close>

definition okOptional :: "int option \<Rightarrow> bool" where
  "okOptional t = (case t of None \<Rightarrow> True | Some v \<Rightarrow> isNonnegSafe v)"

definition ahead :: "health_input \<Rightarrow> int option \<Rightarrow> bool" where
  "ahead i t = (case t of None \<Rightarrow> False | Some v \<Rightarrow> inObservedAtMs i < v)"

definition expired :: "health_input \<Rightarrow> int option \<Rightarrow> int \<Rightarrow> bool" where
  "expired i t maximum = (case t of None \<Rightarrow> True | Some v \<Rightarrow> maximum < inObservedAtMs i - v)"

definition lagsBehind :: "int option \<Rightarrow> int option \<Rightarrow> int \<Rightarrow> bool" where
  "lagsBehind observed current maximum = (case (observed, current) of
       (Some a, Some b) \<Rightarrow> maximum < b - a | _ \<Rightarrow> False)"

definition oldestSettlement :: "health_input \<Rightarrow> int option" where
  "oldestSettlement i = Option.bind (inPersistence i) oldestActiveSettlementUpdatedAtMs"

definition policyOk :: "health_policy \<Rightarrow> bool" where
  "policyOk p \<longleftrightarrow> policySchema p = OPERATOR_HEALTH_POLICY_SCHEMA
     \<and> (\<forall>v \<in> {readQuorumMaxAgeMs p, commitmentMaxAgeMs p, finalityMaxAgeMs p, solvencyMaxAgeMs p, stalledSettlementAgeMs p}.
          isNonnegSafe v \<and> v \<noteq> 0)
     \<and> isNonnegSafe (commitmentMaxLagBlocks p) \<and> isNonnegSafe (finalityMaxLagBlocks p)"

definition persistenceOk :: "persistence_snapshot option \<Rightarrow> bool" where
  "persistenceOk pers = (case pers of None \<Rightarrow> True | Some s \<Rightarrow>
     isNonnegSafe (reorgQuarantineConditionCount s) \<and> isNonnegSafe (activeSettlementAttemptCount s)
     \<and> (activeSettlementAttemptCount s = 0 \<longleftrightarrow> oldestActiveSettlementUpdatedAtMs s = None)
     \<and> okOptional (oldestActiveSettlementUpdatedAtMs s))"

definition healthInputOk :: "health_input \<Rightarrow> bool" where
  "healthInputOk i \<longleftrightarrow> isNonnegSafe (inObservedAtMs i) \<and> policyOk (inPolicy i)
     \<and> isNonnegSafe (inQuorumFailures i) \<and> okOptional (inQuorumAcceptedAtMs i)
     \<and> inQuorumHeld i = (inQuorumState i \<noteq> Closed)
     \<and> isNonnegSafe (inIncidentCount i) \<and> persistenceOk (inPersistence i)
     \<and> okOptional (inSolvencyAtMs i) \<and> (inSolvencyState i = SolvencyNotObserved \<longleftrightarrow> inSolvencyAtMs i = None)
     \<and> (inCommitmentConfigured i \<or> \<not> inCommitmentReady i \<and> inCommitmentAtMs i = None \<and> inCommitmentObservedHeight i = None)
     \<and> (inCommitmentReady i \<longrightarrow> inCommitmentAtMs i \<noteq> None \<and> inCommitmentObservedHeight i \<noteq> None
          \<and> inCommitmentCurrentHeight i \<noteq> None)
     \<and> okOptional (inCommitmentAtMs i) \<and> okOptional (inCommitmentObservedHeight i) \<and> okOptional (inCommitmentCurrentHeight i)
     \<and> \<not> heightAbove (inCommitmentObservedHeight i) (inCommitmentCurrentHeight i)
     \<and> (inFinalityAtMs i = None \<longleftrightarrow> inFinalizedHeight i = None) \<and> (inFinalityAtMs i = None \<longleftrightarrow> inSidechainHeight i = None)
     \<and> okOptional (inFinalityAtMs i) \<and> okOptional (inFinalizedHeight i) \<and> okOptional (inSidechainHeight i)
     \<and> \<not> heightAbove (inFinalizedHeight i) (inSidechainHeight i)"

definition deficitKnown :: "health_input \<Rightarrow> bool" where
  "deficitKnown i \<longleftrightarrow> inSolvencyState i = SolvencyDeficit
     \<or> map_option solvencyDeficitIncidentPresent (inPersistence i) = Some True"

definition solvencyKnown :: "health_input \<Rightarrow> bool" where
  "solvencyKnown i \<longleftrightarrow> inPersistence i \<noteq> None \<and> inSolvencyState i \<in> {SolvencyClear, SolvencyDeficit}"

fun reasonHolds :: "health_input \<Rightarrow> health_reason \<Rightarrow> bool" where
  "reasonHolds i persistence_unavailable = (inPersistence i = None)"
| "reasonHolds i operator_clock_rollback = list_ex (ahead i)
     [inQuorumAcceptedAtMs i, inSolvencyAtMs i, inCommitmentAtMs i, inFinalityAtMs i, oldestSettlement i]"
| "reasonHolds i signer_unavailable = (inSigner i = SignerUnavailable)"
| "reasonHolds i read_quorum_held = (inQuorumState i \<noteq> Closed)"
| "reasonHolds i read_quorum_stale =
     (inQuorumState i = Closed \<and> expired i (inQuorumAcceptedAtMs i) (readQuorumMaxAgeMs (inPolicy i)))"
| "reasonHolds i funds_release_held = (inProcessHoldOpen i \<or> inDurableHoldOpen i \<or> inIncidentCount i > 0
     \<or> inContinuity i = RecoveryRequired \<or> \<not> inWitnessCurrent i \<or> inRetainedAuthority i)"
| "reasonHolds i solvency_deficit = deficitKnown i"
| "reasonHolds i solvency_unavailable = (\<not> deficitKnown i \<and> \<not> solvencyKnown i)"
| "reasonHolds i solvency_stale = (\<not> deficitKnown i \<and> solvencyKnown i
     \<and> expired i (inSolvencyAtMs i) (solvencyMaxAgeMs (inPolicy i)))"
| "reasonHolds i commitment_unavailable = (\<not> inCommitmentReady i \<and> \<not> ahead i (inCommitmentAtMs i))"
| "reasonHolds i commitment_stale =
     (inCommitmentReady i \<and> expired i (inCommitmentAtMs i) (commitmentMaxAgeMs (inPolicy i)))"
| "reasonHolds i commitment_lagging = (inCommitmentReady i \<and> \<not> ahead i (inCommitmentAtMs i)
     \<and> \<not> expired i (inCommitmentAtMs i) (commitmentMaxAgeMs (inPolicy i))
     \<and> lagsBehind (inCommitmentObservedHeight i) (inCommitmentCurrentHeight i) (commitmentMaxLagBlocks (inPolicy i)))"
| "reasonHolds i finality_unavailable = (inFinalityAtMs i = None)"
| "reasonHolds i finality_stale =
     (inFinalityAtMs i \<noteq> None \<and> expired i (inFinalityAtMs i) (finalityMaxAgeMs (inPolicy i)))"
| "reasonHolds i finality_lagging = (\<not> ahead i (inFinalityAtMs i)
     \<and> \<not> expired i (inFinalityAtMs i) (finalityMaxAgeMs (inPolicy i))
     \<and> lagsBehind (inFinalizedHeight i) (inSidechainHeight i) (finalityMaxLagBlocks (inPolicy i)))"
| "reasonHolds i reorg_reconciliation_pending = inReconciliationPending i"
| "reasonHolds i reorg_quarantine_present =
     (case inPersistence i of None \<Rightarrow> False | Some s \<Rightarrow> reorgQuarantineConditionCount s > 0)"
| "reasonHolds i settlement_stalled =
     (oldestSettlement i \<noteq> None \<and> expired i (oldestSettlement i) (stalledSettlementAgeMs (inPolicy i)))"


section \<open>Inversion of the parts\<close>

lemma healthNonnegative_iff: "healthNonnegative v l = Inr n \<longleftrightarrow> isNonnegSafe v \<and> n = v"
  by (auto simp: healthNonnegative_def require_def isNonnegSafe_def)

lemma healthPositive_iff: "healthPositive v l = Inr n \<longleftrightarrow> isNonnegSafe v \<and> v \<noteq> 0 \<and> n = v"
  by (auto simp: healthPositive_def healthNonnegative_iff result_simps)

lemma healthOptional_iff: "healthOptional t l = Inr n \<longleftrightarrow> okOptional t \<and> n = t"
  by (cases t) (auto simp: healthOptional_def okOptional_def healthNonnegative_iff result_simps)

lemma observationAge_iff:
  "observationAge t nowMs l = Inr (a, b) \<longleftrightarrow> okOptional t
     \<and> b = (case t of None \<Rightarrow> False | Some v \<Rightarrow> nowMs < v)
     \<and> a = (case t of None \<Rightarrow> None | Some v \<Rightarrow> if nowMs < v then None else Some (nowMs - v))"
  by (cases t) (auto simp: observationAge_def okOptional_def healthNonnegative_iff result_simps)

lemma createPolicy_iff:
  "policySchema p = OPERATOR_HEALTH_POLICY_SCHEMA \<Longrightarrow> createOperatorHealthPolicyV1 p = Inr q \<longleftrightarrow> policyOk p \<and> q = p"
  by (auto simp: createOperatorHealthPolicyV1_def policyOk_def healthPositive_iff healthNonnegative_iff result_simps)

lemmas health_iffs = healthNonnegative_iff healthOptional_iff observationAge_iff result_simps
  split_paired_Ex prod.case

lemmas age_defs = tooOld_def tooFar_def expired_def ahead_def lagsBehind_def heightLag_def rollbackReason_def

lemma policyOk_pos:
  "policyOk p \<Longrightarrow> 0 < readQuorumMaxAgeMs p \<and> 0 < commitmentMaxAgeMs p \<and> 0 < finalityMaxAgeMs p
     \<and> 0 < solvencyMaxAgeMs p \<and> 0 < stalledSettlementAgeMs p"
  by (auto simp: policyOk_def isNonnegSafe_def)


definition fine :: "health_status \<Rightarrow> bool" where
  "fine st \<longleftrightarrow> st = Healthy \<or> st = NotApplicable"

text \<open>What each signal adds to the set of reasons, and its status, in the terms of the specification.\<close>

lemma signerSignal_eq:
  "signerSignal i = (sg, rs) \<Longrightarrow> (r \<in> set rs \<longleftrightarrow> r = signer_unavailable \<and> reasonHolds i r)
     \<and> (sgStatus sg = Held \<longleftrightarrow> reasonHolds i signer_unavailable)
     \<and> (fine (sgStatus sg) \<longleftrightarrow> \<not> reasonHolds i signer_unavailable) \<and> sgStatus sg \<noteq> Unavailable"
  by (cases "inSigner i") (auto simp: signerSignal_def fine_def)

lemma readQuorumSignal_eq:
  assumes "readQuorumSignal (inPolicy i) (inObservedAtMs i) i = Inr (sg, rs)" and "policyOk (inPolicy i)"
  shows "(r \<in> set rs \<longleftrightarrow> r = operator_clock_rollback \<and> ahead i (inQuorumAcceptedAtMs i)
           \<or> r \<in> {read_quorum_held, read_quorum_stale} \<and> reasonHolds i r)
     \<and> (rqStatus sg = Held \<longleftrightarrow> ahead i (inQuorumAcceptedAtMs i) \<or> reasonHolds i read_quorum_held
           \<or> reasonHolds i read_quorum_stale)
     \<and> (fine (rqStatus sg) \<longleftrightarrow> \<not> ahead i (inQuorumAcceptedAtMs i) \<and> \<not> reasonHolds i read_quorum_held
           \<and> \<not> reasonHolds i read_quorum_stale) \<and> rqStatus sg \<noteq> Unavailable"
  using assms policyOk_pos [OF assms(2)]
  by (cases "inQuorumAcceptedAtMs i") (auto simp: readQuorumSignal_def health_iffs Let_def age_defs fine_def split: if_splits)

lemma fundsReleaseSignal_eq:
  "fundsReleaseSignal i = Inr (sg, rs) \<Longrightarrow> (r \<in> set rs \<longleftrightarrow> r = funds_release_held \<and> reasonHolds i r)
     \<and> (frStatus sg = Held \<longleftrightarrow> reasonHolds i funds_release_held)
     \<and> (fine (frStatus sg) \<longleftrightarrow> \<not> reasonHolds i funds_release_held) \<and> frStatus sg \<noteq> Unavailable"
  by (auto simp: fundsReleaseSignal_def fine_def health_iffs Let_def split: if_splits)

lemma persistenceSignal_eq:
  "persistenceSignal i = Inr (pers, rs) \<Longrightarrow> pers = inPersistence i
     \<and> (r \<in> set rs \<longleftrightarrow> r = persistence_unavailable \<and> reasonHolds i r)"
  by (cases "inPersistence i") (auto simp: persistenceSignal_def health_iffs)

lemma solvencySignal_eq:
  assumes "solvencySignal (inPolicy i) (inObservedAtMs i) (inPersistence i) i = Inr (sg, rs)" and "policyOk (inPolicy i)"
  shows "(r \<in> set rs \<longleftrightarrow> r = operator_clock_rollback \<and> ahead i (inSolvencyAtMs i)
           \<or> r \<in> {solvency_deficit, solvency_unavailable, solvency_stale} \<and> reasonHolds i r)
     \<and> (svStatus sg = Held \<longleftrightarrow> ahead i (inSolvencyAtMs i) \<or> reasonHolds i solvency_deficit)
     \<and> (fine (svStatus sg) \<longleftrightarrow> \<not> ahead i (inSolvencyAtMs i) \<and> \<not> reasonHolds i solvency_deficit
           \<and> \<not> reasonHolds i solvency_unavailable \<and> \<not> reasonHolds i solvency_stale)
     \<and> (svStatus sg = Unavailable \<longrightarrow> inPersistence i = None)"
  using assms policyOk_pos [OF assms(2)]
  by (cases "inSolvencyAtMs i"; cases "inSolvencyState i")
    (auto simp: solvencySignal_def health_iffs Let_def age_defs deficitKnown_def solvencyKnown_def fine_def split: if_splits)

lemma commitmentSignal_eq:
  assumes "commitmentSignal (inPolicy i) (inObservedAtMs i) i = Inr (sg, rs)" and "policyOk (inPolicy i)"
  shows "(r \<in> set rs \<longleftrightarrow> r = operator_clock_rollback \<and> ahead i (inCommitmentAtMs i)
           \<or> r \<in> {commitment_unavailable, commitment_stale, commitment_lagging} \<and> reasonHolds i r)
     \<and> (cmStatus sg = Held \<longleftrightarrow> ahead i (inCommitmentAtMs i))
     \<and> (fine (cmStatus sg) \<longleftrightarrow> \<not> ahead i (inCommitmentAtMs i) \<and> \<not> reasonHolds i commitment_unavailable
           \<and> \<not> reasonHolds i commitment_stale \<and> \<not> reasonHolds i commitment_lagging)
     \<and> cmStatus sg \<noteq> Unavailable"
  using assms policyOk_pos [OF assms(2)]
  by (cases "inCommitmentAtMs i"; cases "inCommitmentReady i")
    (auto simp: commitmentSignal_def health_iffs Let_def age_defs fine_def split: if_splits option.splits)

lemma finalitySignal_eq:
  assumes "finalitySignal (inPolicy i) (inObservedAtMs i) i = Inr (sg, rs)" and "policyOk (inPolicy i)"
  shows "(r \<in> set rs \<longleftrightarrow> r = operator_clock_rollback \<and> ahead i (inFinalityAtMs i)
           \<or> r \<in> {finality_unavailable, finality_stale, finality_lagging} \<and> reasonHolds i r)
     \<and> (fnStatus sg = Held \<longleftrightarrow> ahead i (inFinalityAtMs i))
     \<and> (fine (fnStatus sg) \<longleftrightarrow> \<not> ahead i (inFinalityAtMs i) \<and> \<not> reasonHolds i finality_unavailable
           \<and> \<not> reasonHolds i finality_stale \<and> \<not> reasonHolds i finality_lagging)
     \<and> fnStatus sg \<noteq> Unavailable"
  using assms policyOk_pos [OF assms(2)]
  by (cases "inFinalityAtMs i"; cases "inFinalizedHeight i"; cases "inSidechainHeight i")
    (auto simp: finalitySignal_def health_iffs Let_def age_defs fine_def split: if_splits)

lemma reorgSignal_eq:
  "reorgSignal (inPersistence i) i = (sg, rs) \<Longrightarrow>
     (r \<in> set rs \<longleftrightarrow> r \<in> {reorg_reconciliation_pending, reorg_quarantine_present} \<and> reasonHolds i r)
     \<and> (rgStatus sg = Held \<longleftrightarrow> reasonHolds i reorg_reconciliation_pending \<or> reasonHolds i reorg_quarantine_present)
     \<and> (fine (rgStatus sg) \<longleftrightarrow> \<not> reasonHolds i persistence_unavailable \<and> \<not> reasonHolds i reorg_reconciliation_pending
           \<and> \<not> reasonHolds i reorg_quarantine_present)
     \<and> (rgStatus sg = Unavailable \<longrightarrow> inPersistence i = None)"
  by (cases "inPersistence i") (auto simp: reorgSignal_def Let_def fine_def split: if_splits)

lemma settlementSignal_eq:
  assumes "settlementSignal (inPolicy i) (inObservedAtMs i) (inPersistence i) = Inr (sg, rs)" and "policyOk (inPolicy i)"
  shows "(r \<in> set rs \<longleftrightarrow> r = operator_clock_rollback \<and> ahead i (oldestSettlement i)
           \<or> r = settlement_stalled \<and> reasonHolds i r)
     \<and> (stStatus sg = Held \<longleftrightarrow> ahead i (oldestSettlement i))
     \<and> (fine (stStatus sg) \<longleftrightarrow> \<not> reasonHolds i persistence_unavailable \<and> \<not> ahead i (oldestSettlement i)
           \<and> \<not> reasonHolds i settlement_stalled)
     \<and> (stStatus sg = Unavailable \<longrightarrow> inPersistence i = None)"
  using assms policyOk_pos [OF assms(2)]
  by (cases "inPersistence i"; cases "oldestSettlement i")
    (auto simp: settlementSignal_def health_iffs Let_def age_defs oldestSettlement_def fine_def split: if_splits)

text \<open>A successful projection is the composition of its sections on the checked policy.\<close>

lemma project_parts:
  assumes "projectOperatorHealth i = Inr p"
  obtains sg r1 q r2 f r3 r4 sv r5 cm r6 fn r7 rg r8 st r9
  where "policyOk (inPolicy i)" and "isNonnegSafe (inObservedAtMs i)" and "signerSignal i = (sg, r1)"
    and "readQuorumSignal (inPolicy i) (inObservedAtMs i) i = Inr (q, r2)" and "fundsReleaseSignal i = Inr (f, r3)"
    and "persistenceSignal i = Inr (inPersistence i, r4)"
    and "solvencySignal (inPolicy i) (inObservedAtMs i) (inPersistence i) i = Inr (sv, r5)"
    and "commitmentSignal (inPolicy i) (inObservedAtMs i) i = Inr (cm, r6)"
    and "finalitySignal (inPolicy i) (inObservedAtMs i) i = Inr (fn, r7)"
    and "reorgSignal (inPersistence i) i = (rg, r8)"
    and "settlementSignal (inPolicy i) (inObservedAtMs i) (inPersistence i) = Inr (st, r9)"
    and "p = assembleProjection (inObservedAtMs i) (r1 @ r2 @ r3 @ r4 @ r5 @ r6 @ r7 @ r8 @ r9) (inPersistence i)
           sg q f sv cm fn rg st"
proof -
  obtain sg r1 where sg: "signerSignal i = (sg, r1)" by fastforce
  from assms show thesis unfolding projectOperatorHealth_def sg Let_def prod.case
  proof (elim andThenPairE andThenE requireE casePairE)
    fix nowMs policy q r2 f r3 pers r4 sv r5 cm r6 fn r7 rg' r8' st r9
    assume now: "healthNonnegative (inObservedAtMs i) ''operator-health observation time'' = Inr nowMs"
      and policy: "policySchema (inPolicy i) = OPERATOR_HEALTH_POLICY_SCHEMA"
        "createOperatorHealthPolicyV1 (inPolicy i) = Inr policy"
      and pers: "persistenceSignal i = Inr (pers, r4)" and rg': "reorgSignal pers i = (rg', r8')"
      and rest: "readQuorumSignal policy nowMs i = Inr (q, r2)" "fundsReleaseSignal i = Inr (f, r3)"
        "solvencySignal policy nowMs pers i = Inr (sv, r5)" "commitmentSignal policy nowMs i = Inr (cm, r6)"
        "finalitySignal policy nowMs i = Inr (fn, r7)" "settlementSignal policy nowMs pers = Inr (st, r9)"
        "Inr (assembleProjection nowMs (r1 @ r2 @ r3 @ r4 @ r5 @ r6 @ r7 @ r8' @ r9) pers sg q f sv cm fn rg' st) = Inr p"
    have "nowMs = inObservedAtMs i" "isNonnegSafe (inObservedAtMs i)" "policyOk (inPolicy i)" "policy = inPolicy i"
      "pers = inPersistence i"
      using now policy pers by (auto simp: healthNonnegative_iff createPolicy_iff dest: persistenceSignal_eq)
    then show thesis using that [OF _ _ sg] pers rg' rest by simp
  qed
qed


section \<open>Properties\<close>

lemma REASON_ORDER_all: "r \<in> set REASON_ORDER"
  by (cases r) (simp_all add: REASON_ORDER_def)

lemma project_reasons:
  assumes "projectOperatorHealth i = Inr p"
  shows "pjReasons p = filter (reasonHolds i) REASON_ORDER" and "pjOverall p = overallStatus (pjReasons p)"
proof -
  from assms obtain sg r1 q r2 f r3 r4 sv r5 cm r6 fn r7 rg r8 st r9
    where policy: "policyOk (inPolicy i)"
      and parts: "signerSignal i = (sg, r1)" "fundsReleaseSignal i = Inr (f, r3)"
        "persistenceSignal i = Inr (inPersistence i, r4)" "reorgSignal (inPersistence i) i = (rg, r8)"
      and timed: "readQuorumSignal (inPolicy i) (inObservedAtMs i) i = Inr (q, r2)"
        "solvencySignal (inPolicy i) (inObservedAtMs i) (inPersistence i) i = Inr (sv, r5)"
        "commitmentSignal (inPolicy i) (inObservedAtMs i) i = Inr (cm, r6)"
        "finalitySignal (inPolicy i) (inObservedAtMs i) i = Inr (fn, r7)"
        "settlementSignal (inPolicy i) (inObservedAtMs i) (inPersistence i) = Inr (st, r9)"
      and p: "p = assembleProjection (inObservedAtMs i) (r1 @ r2 @ r3 @ r4 @ r5 @ r6 @ r7 @ r8 @ r9) (inPersistence i)
           sg q f sv cm fn rg st"
    by (rule project_parts)
  have "r \<in> set (r1 @ r2 @ r3 @ r4 @ r5 @ r6 @ r7 @ r8 @ r9) \<longleftrightarrow> reasonHolds i r" for r
    unfolding set_append Un_iff
      signerSignal_eq [OF parts(1), THEN conjunct1] fundsReleaseSignal_eq [OF parts(2), THEN conjunct1]
      persistenceSignal_eq [OF parts(3), THEN conjunct2] reorgSignal_eq [OF parts(4), THEN conjunct1]
      readQuorumSignal_eq [OF timed(1) policy, THEN conjunct1] solvencySignal_eq [OF timed(2) policy, THEN conjunct1]
      commitmentSignal_eq [OF timed(3) policy, THEN conjunct1] finalitySignal_eq [OF timed(4) policy, THEN conjunct1]
      settlementSignal_eq [OF timed(5) policy, THEN conjunct1]
    by (cases r) (simp_all)
  then show "pjReasons p = filter (reasonHolds i) REASON_ORDER"
    by (simp add: p assembleProjection_def orderReasons_def)
  show "pjOverall p = overallStatus (pjReasons p)" by (simp add: p assembleProjection_def)
qed

lemma overallStatus_filter:
  "overallStatus (filter c REASON_ORDER) = Held \<longleftrightarrow> (\<exists>r \<in> set HELD_REASONS. c r)"
  "overallStatus (filter c REASON_ORDER) = Healthy \<longleftrightarrow> (\<forall>r. \<not> c r)"
  "overallStatus l \<in> {Healthy, Degraded, Held}"
  using REASON_ORDER_all by (auto simp: overallStatus_def list_ex_iff filter_empty_conv)

text \<open>When the sections accept.\<close>

lemma readQuorumSignal_ok:
  "(\<exists>sg rs. readQuorumSignal pol nowMs i = Inr (sg, rs)) \<longleftrightarrow> isNonnegSafe (inQuorumFailures i)
     \<and> okOptional (inQuorumAcceptedAtMs i) \<and> inQuorumHeld i = (inQuorumState i \<noteq> Closed)"
  by (auto simp: readQuorumSignal_def health_iffs Let_def split_beta)

lemma fundsReleaseSignal_ok: "(\<exists>sg rs. fundsReleaseSignal i = Inr (sg, rs)) \<longleftrightarrow> isNonnegSafe (inIncidentCount i)"
  by (auto simp: fundsReleaseSignal_def health_iffs Let_def)

lemma persistenceSignal_ok:
  "(\<exists>rs. persistenceSignal i = Inr (pers, rs)) \<and> (\<exists>sg rs. settlementSignal pol nowMs pers = Inr (sg, rs))
     \<longleftrightarrow> pers = inPersistence i \<and> persistenceOk (inPersistence i)"
  by (cases "inPersistence i"; cases "oldestSettlement i")
    (auto simp: persistenceSignal_def settlementSignal_def persistenceOk_def oldestSettlement_def okOptional_def
      health_iffs Let_def split_beta split: if_splits)

lemma solvencySignal_ok:
  "(\<exists>sg rs. solvencySignal pol nowMs pers i = Inr (sg, rs)) \<longleftrightarrow> okOptional (inSolvencyAtMs i)
     \<and> (inSolvencyState i = SolvencyNotObserved \<longleftrightarrow> inSolvencyAtMs i = None)"
  by (auto simp: solvencySignal_def health_iffs Let_def split_beta)

lemma commitmentSignal_ok:
  "(\<exists>sg rs. commitmentSignal pol nowMs i = Inr (sg, rs)) \<longleftrightarrow>
     (inCommitmentConfigured i \<or> \<not> inCommitmentReady i \<and> inCommitmentAtMs i = None \<and> inCommitmentObservedHeight i = None)
     \<and> (inCommitmentReady i \<longrightarrow> inCommitmentAtMs i \<noteq> None \<and> inCommitmentObservedHeight i \<noteq> None
          \<and> inCommitmentCurrentHeight i \<noteq> None)
     \<and> okOptional (inCommitmentAtMs i) \<and> okOptional (inCommitmentObservedHeight i) \<and> okOptional (inCommitmentCurrentHeight i)
     \<and> \<not> heightAbove (inCommitmentObservedHeight i) (inCommitmentCurrentHeight i)"
  by (simp add: commitmentSignal_def health_iffs Let_def split_beta) blast

lemma finalitySignal_ok:
  "(\<exists>sg rs. finalitySignal pol nowMs i = Inr (sg, rs)) \<longleftrightarrow>
     (inFinalityAtMs i = None \<longleftrightarrow> inFinalizedHeight i = None) \<and> (inFinalityAtMs i = None \<longleftrightarrow> inSidechainHeight i = None)
     \<and> okOptional (inFinalityAtMs i) \<and> okOptional (inFinalizedHeight i) \<and> okOptional (inSidechainHeight i)
     \<and> \<not> heightAbove (inFinalizedHeight i) (inSidechainHeight i)"
  by (cases "inFinalityAtMs i"; cases "inFinalizedHeight i"; cases "inSidechainHeight i")
    (auto simp: finalitySignal_def health_iffs Let_def split_beta)

lemma isOk_andThen_pair: "isOk (andThen m (\<lambda>(a, b). k a b)) \<longleftrightarrow> (\<exists>a b. m = Inr (a, b) \<and> isOk (k a b))"
  by (cases m) (auto split: prod.splits)

lemma isOk_andThen_iff: "isOk (andThen m k) \<longleftrightarrow> (\<exists>x. m = Inr x \<and> isOk (k x))"
  by (cases m) auto

lemma isOk_require: "isOk (require c e k) \<longleftrightarrow> c \<and> isOk k"
  by (cases c) auto

text \<open>C26. The projection returns for exactly the inputs whose parts are consistent (a closed quorum is not held,
  active settlements have an oldest timestamp, solvency was observed iff it has a time, a ready commitment and a
  finality observation are complete and not above the current height, all numbers are non-negative safe integers
  and the policy's ages are positive); on every other input it throws.\<close>

theorem projectOperatorHealth_accepts: "isOk (projectOperatorHealth i) \<longleftrightarrow> healthInputOk i"
proof -
  obtain sg r1 where sg: "signerSignal i = (sg, r1)" by fastforce
  have "isOk (projectOperatorHealth i) \<longleftrightarrow> isNonnegSafe (inObservedAtMs i) \<and> policyOk (inPolicy i)
     \<and> (\<exists>q r2. readQuorumSignal (inPolicy i) (inObservedAtMs i) i = Inr (q, r2))
     \<and> (\<exists>f r3. fundsReleaseSignal i = Inr (f, r3))
     \<and> (\<exists>pers. ((\<exists>r4. persistenceSignal i = Inr (pers, r4))
          \<and> (\<exists>st r9. settlementSignal (inPolicy i) (inObservedAtMs i) pers = Inr (st, r9)))
          \<and> (\<exists>sv r5. solvencySignal (inPolicy i) (inObservedAtMs i) pers i = Inr (sv, r5)))
     \<and> (\<exists>cm r6. commitmentSignal (inPolicy i) (inObservedAtMs i) i = Inr (cm, r6))
     \<and> (\<exists>fn r7. finalitySignal (inPolicy i) (inObservedAtMs i) i = Inr (fn, r7))"
    by (cases "policySchema (inPolicy i) = OPERATOR_HEALTH_POLICY_SCHEMA")
      (auto simp: projectOperatorHealth_def isOk_andThen_pair isOk_andThen_iff isOk_require sg Let_def split_beta
        healthNonnegative_iff createPolicy_iff policyOk_def [of "inPolicy i"])
  then show ?thesis
    by (simp only: readQuorumSignal_ok fundsReleaseSignal_ok persistenceSignal_ok solvencySignal_ok
        commitmentSignal_ok finalitySignal_ok simp_thms ex_simps healthInputOk_def) blast
qed

text \<open>The section statuses follow the reasons.\<close>

definition signalStatuses :: "health_projection \<Rightarrow> health_status list" where
  "signalStatuses p = [sgStatus (pjSigner p), rqStatus (pjReadQuorum p), frStatus (pjFundsRelease p), svStatus (pjSolvency p),
     cmStatus (pjCommitment p), fnStatus (pjFinality p), rgStatus (pjReorg p), stStatus (pjSettlement p)]"

lemma project_statuses:
  assumes "projectOperatorHealth i = Inr p"
  shows "Held \<in> set (signalStatuses p) \<longleftrightarrow> (\<exists>r \<in> set HELD_REASONS - {persistence_unavailable}. reasonHolds i r)"
    and "Unavailable \<in> set (signalStatuses p) \<longrightarrow> inPersistence i = None"
    and "(\<forall>st \<in> set (signalStatuses p). fine st) \<longleftrightarrow> (\<forall>r. \<not> reasonHolds i r)"
    and "pjPersistence p = PersistenceUnavailable \<longleftrightarrow> inPersistence i = None"
proof -
  from assms obtain sg r1 q r2 f r3 r4 sv r5 cm r6 fn r7 rg r8 st r9
    where policy: "policyOk (inPolicy i)"
      and parts: "signerSignal i = (sg, r1)" "fundsReleaseSignal i = Inr (f, r3)"
        "reorgSignal (inPersistence i) i = (rg, r8)"
      and timed: "readQuorumSignal (inPolicy i) (inObservedAtMs i) i = Inr (q, r2)"
        "solvencySignal (inPolicy i) (inObservedAtMs i) (inPersistence i) i = Inr (sv, r5)"
        "commitmentSignal (inPolicy i) (inObservedAtMs i) i = Inr (cm, r6)"
        "finalitySignal (inPolicy i) (inObservedAtMs i) i = Inr (fn, r7)"
        "settlementSignal (inPolicy i) (inObservedAtMs i) (inPersistence i) = Inr (st, r9)"
      and p: "p = assembleProjection (inObservedAtMs i) (r1 @ r2 @ r3 @ r4 @ r5 @ r6 @ r7 @ r8 @ r9) (inPersistence i)
           sg q f sv cm fn rg st"
    by (rule project_parts)
  note facts = signerSignal_eq [OF parts(1), THEN conjunct2] fundsReleaseSignal_eq [OF parts(2), THEN conjunct2]
    reorgSignal_eq [OF parts(3), THEN conjunct2] readQuorumSignal_eq [OF timed(1) policy, THEN conjunct2]
    solvencySignal_eq [OF timed(2) policy, THEN conjunct2] commitmentSignal_eq [OF timed(3) policy, THEN conjunct2]
    finalitySignal_eq [OF timed(4) policy, THEN conjunct2] settlementSignal_eq [OF timed(5) policy, THEN conjunct2]
  note held = facts [THEN conjunct1] and fines = facts [THEN conjunct2, THEN conjunct1]
    and unavailable = facts [THEN conjunct2, THEN conjunct2]
  have statuses: "signalStatuses p = [sgStatus sg, rqStatus q, frStatus f, svStatus sv, cmStatus cm, fnStatus fn,
      rgStatus rg, stStatus st]"
    by (simp add: p assembleProjection_def signalStatuses_def)
  show "pjPersistence p = PersistenceUnavailable \<longleftrightarrow> inPersistence i = None"
    by (simp add: p assembleProjection_def)
  show "Held \<in> set (signalStatuses p) \<longleftrightarrow> (\<exists>r \<in> set HELD_REASONS - {persistence_unavailable}. reasonHolds i r)"
    unfolding statuses by (simp add: eq_commute [of Held] held HELD_REASONS_def del: reasonHolds.simps(3-)) auto
  show "Unavailable \<in> set (signalStatuses p) \<longrightarrow> inPersistence i = None"
    using unavailable by (auto simp: statuses)
  have "(\<forall>st \<in> set (signalStatuses p). fine st) \<longleftrightarrow> (\<forall>r \<in> set REASON_ORDER. \<not> reasonHolds i r)"
    unfolding statuses by (simp add: fines REASON_ORDER_def del: reasonHolds.simps(1) reasonHolds.simps(3-)) argo
  then show "(\<forall>st \<in> set (signalStatuses p). fine st) \<longleftrightarrow> (\<forall>r. \<not> reasonHolds i r)"
    using REASON_ORDER_all by blast
qed

text \<open>C19. The reasons of a projection are exactly the conditions that hold of the input, in the fixed order: none is
  dropped, invented or repeated. The overall status is held exactly when a fund-safety condition holds, and healthy
  exactly when no condition holds at all.\<close>

theorem healthReasons_exact:
  assumes "projectOperatorHealth i = Inr p"
  shows "pjReasons p = filter (reasonHolds i) REASON_ORDER
    \<and> (pjOverall p = Held \<longleftrightarrow> (\<exists>r \<in> set HELD_REASONS. reasonHolds i r))
    \<and> (pjOverall p = Healthy \<longleftrightarrow> (\<forall>r. \<not> reasonHolds i r))
    \<and> pjOverall p \<in> {Healthy, Degraded, Held}"
  using project_reasons [OF assms] by (intro conjI; simp add: overallStatus_filter del: insert_iff)

text \<open>The overall status is the worst of the signals: it is held exactly when a signal is held or the
  persistence layer is unavailable, healthy exactly when every signal is healthy (a signer that is not configured
  counts as such), and no signal is reported unavailable while the persistence layer answers.\<close>

theorem overall_is_worst_signal:
  assumes "projectOperatorHealth i = Inr p"
  shows "pjOverall p = Held \<longleftrightarrow> Held \<in> set (signalStatuses p) \<or> pjPersistence p = PersistenceUnavailable"
    and "pjOverall p = Healthy \<longleftrightarrow> (\<forall>st \<in> set (signalStatuses p). st = Healthy \<or> st = NotApplicable)"
    and "Unavailable \<in> set (signalStatuses p) \<longrightarrow> pjPersistence p = PersistenceUnavailable"
proof -
  note st = project_statuses [OF assms] and ov = project_reasons [OF assms]
  have "persistence_unavailable \<in> set HELD_REASONS" by (simp add: HELD_REASONS_def)
  then have "(\<exists>r \<in> set HELD_REASONS. c r) \<longleftrightarrow>
      (\<exists>r \<in> set HELD_REASONS - {persistence_unavailable}. c r) \<or> c persistence_unavailable" for c
    by blast
  then show "pjOverall p = Held \<longleftrightarrow> Held \<in> set (signalStatuses p) \<or> pjPersistence p = PersistenceUnavailable"
    by (simp add: st ov overallStatus_filter)
  show "pjOverall p = Healthy \<longleftrightarrow> (\<forall>st \<in> set (signalStatuses p). st = Healthy \<or> st = NotApplicable)"
    using st(3) by (simp add: ov overallStatus_filter fine_def)
  show "Unavailable \<in> set (signalStatuses p) \<longrightarrow> pjPersistence p = PersistenceUnavailable"
    by (simp add: st)
qed


section \<open>Witnesses\<close>

definition demoHealthPolicy :: health_policy where
  "demoHealthPolicy = \<lparr> policySchema = OPERATOR_HEALTH_POLICY_SCHEMA, readQuorumMaxAgeMs = 60000,
     commitmentMaxAgeMs = 60000, commitmentMaxLagBlocks = 10, finalityMaxAgeMs = 60000, finalityMaxLagBlocks = 20,
     solvencyMaxAgeMs = 60000, stalledSettlementAgeMs = 600000 \<rparr>"

text \<open>A daemon in good order but for a settlement that has not moved for eleven minutes, and the same daemon once
  the quorum supervisor holds.\<close>

definition demoHealthInput :: health_input where
  "demoHealthInput = \<lparr> inObservedAtMs = 1000000, inPolicy = demoHealthPolicy, inSigner = SignerAvailable,
     inQuorumState = Closed, inQuorumHeld = False, inQuorumFailures = 0, inQuorumFailureCode = None,
     inQuorumAcceptedAtMs = Some 990000, inProcessHoldOpen = False, inDurableHoldOpen = False, inIncidentCount = 0,
     inContinuity = Established, inWitnessCurrent = True, inRetainedAuthority = False,
     inSolvencyState = SolvencyClear, inSolvencyAtMs = Some 995000, inCommitmentConfigured = True,
     inCommitmentReady = True, inCommitmentAtMs = Some 999000, inCommitmentObservedHeight = Some 100,
     inCommitmentCurrentHeight = Some 103, inFinalityAtMs = Some 1000000, inFinalizedHeight = Some 50,
     inSidechainHeight = Some 60, inReconciliationPending = False,
     inPersistence = Some \<lparr> solvencyDeficitIncidentPresent = False, reorgQuarantineConditionCount = 0,
       activeSettlementAttemptCount = 1, oldestActiveSettlementUpdatedAtMs = Some 340000 \<rparr> \<rparr>"

definition demoHeldInput :: health_input where
  "demoHeldInput = demoHealthInput \<lparr> inQuorumState := Open, inQuorumHeld := True, inQuorumFailures := 3,
     inQuorumFailureCode := Some source_disagreement \<rparr>"

lemma demo_inputs_ok: "isOk (projectOperatorHealth demoHealthInput)" "isOk (projectOperatorHealth demoHeldInput)"
  by code_simp+

definition accepted :: "'e + 'a \<Rightarrow> 'a" where
  "accepted r = (case r of Inr x \<Rightarrow> x | Inl _ \<Rightarrow> undefined)"

lemma accepted_eq: "isOk r \<Longrightarrow> r = Inr (accepted r)"
  by (auto simp: isOk_iff accepted_def)

theorem healthReasons_exact_witness:
  "pjReasons (accepted (projectOperatorHealth demoHealthInput)) = [settlement_stalled]"
  unfolding conjunct1 [OF healthReasons_exact [OF accepted_eq [OF demo_inputs_ok(1)]]] by code_simp

theorem overall_is_worst_signal_witness:
  "pjOverall (accepted (projectOperatorHealth demoHeldInput)) = Held"
  unfolding overall_is_worst_signal(1) [OF accepted_eq [OF demo_inputs_ok(2)]] by code_simp

end
