(* ===== verification/Alert_State.thy ===== *)
theory Alert_State
  imports Operator_Health Json_Scanner
begin

text \<open>
  The durable state of an operator alert (\<^verbatim>\<open>relayer-core/operator-alert-delivery-state.ts\<close>): the profile, the
  alert id, which is a digest of everything that identifies the occurrence, and the validator every read and write
  of the state goes through. SHA-256 is a parameter. The checks on enumerated strings are what the datatypes say,
  except the overall status, whose type here has two more values than the source allows.
\<close>

section \<open>Data\<close>

datatype alert_transition = Raised | Updated | Recovered

datatype delivery_status = Pending | Delivering | RetryWait | Delivered

datatype delivery_failure = delivery_rejected | delivery_unavailable | delivery_unexpected_failure

datatype alert_error =
    AlertNotNonnegative string
  | AlertNotPositive string
  | AlertNotHex32 string
  | UnsupportedAlertProfile
  | ReasonsNotArray
  | ReasonsUnsupportedOrUnordered
  | UnsupportedAlertState
  | UpdatePrecedesOccurrence
  | UnsupportedAlertStatus
  | TransitionStatusReasonsDisagree
  | PredecessorDisagrees
  | PendingHasMetadata
  | DeliveringHasInvalidLease
  | RetryHasInvalidMetadata
  | DeliveredHasInvalidMetadata
  | AlertIdMismatch
  | AlertJson json_error
  | UnsupportedHealthProjection
  | HealthStatusAndReasonsDisagree
  | AlertNotObject string
  | AlertNotPlainObject string
  | AlertNotExactFields string
  | CapabilityNotFalse string string
  | UnsupportedAlertEvent
  | UnsupportedAlertTransition
  | EventTransitionDisagrees
  | ActionsNotArray
  | ActionIdNotString
  | UnsupportedRecoveryAction
  | ActionDiffersFromCatalogue
  | ActionsDoNotMatchReasons
  | ExceedsSafeRange string
  | OtherCacheGeneration
  | AttemptNotClaimed
  | RevisionNotMonotonic
  | CacheGenerationMismatch
  | AlertPortThrew string

definition OPERATOR_ALERT_PROFILE_SCHEMA :: string where
  "OPERATOR_ALERT_PROFILE_SCHEMA = ''e2s.operator-alert-profile.v1''"

definition OPERATOR_ALERT_PROFILE_ID :: string where
  "OPERATOR_ALERT_PROFILE_ID = ''bridge-daemon-health-v1''"

definition OPERATOR_ALERT_DELIVERY_STATE_SCHEMA :: string where
  "OPERATOR_ALERT_DELIVERY_STATE_SCHEMA = ''e2s.operator-alert-delivery-state.v1''"

definition OPERATOR_ALERT_ID_DOMAIN :: string where
  "OPERATOR_ALERT_ID_DOMAIN = ''ergo-sidechain-bridge:operator-alert-id:v1''"

record alert_profile =
  profileSchema :: string
  profileId :: string
  profileVersion :: int
  retryDelayMs :: int
  attemptLeaseMs :: int
  recoveryActionCatalogVersion :: int

definition BRIDGE_DAEMON_OPERATOR_ALERT_PROFILE_V1 :: alert_profile where
  "BRIDGE_DAEMON_OPERATOR_ALERT_PROFILE_V1 = \<lparr> profileSchema = OPERATOR_ALERT_PROFILE_SCHEMA,
     profileId = OPERATOR_ALERT_PROFILE_ID, profileVersion = 1, retryDelayMs = 30000, attemptLeaseMs = 15000,
     recoveryActionCatalogVersion = 1 \<rparr>"

record alert_state =
  stateSchema :: string
  stateProfileId :: string
  stateProfileVersion :: int
  revision :: int
  alertIdHex :: string
  conditionDigestHex :: string
  cacheGenerationHex :: string
  openedAtMs :: int
  transition :: alert_transition
  conditionActive :: bool
  overall :: health_status
  reasons :: "health_reason list"
  previousAlertIdHex :: "string option"
  deliveryStatus :: delivery_status
  attemptCount :: int
  claimedAtMs :: "int option"
  leaseExpiresAtMs :: "int option"
  nextAttemptAtMs :: "int option"
  deliveredAtMs :: "int option"
  lastFailureCode :: "delivery_failure option"
  updatedAtMs :: int

text \<open>The strings of the source's enumerations.\<close>

fun reasonName :: "health_reason \<Rightarrow> string" where
  "reasonName persistence_unavailable = ''persistence_unavailable''"
| "reasonName operator_clock_rollback = ''operator_clock_rollback''"
| "reasonName signer_unavailable = ''signer_unavailable''"
| "reasonName read_quorum_held = ''read_quorum_held''"
| "reasonName read_quorum_stale = ''read_quorum_stale''"
| "reasonName funds_release_held = ''funds_release_held''"
| "reasonName solvency_deficit = ''solvency_deficit''"
| "reasonName solvency_unavailable = ''solvency_unavailable''"
| "reasonName solvency_stale = ''solvency_stale''"
| "reasonName commitment_unavailable = ''commitment_unavailable''"
| "reasonName commitment_stale = ''commitment_stale''"
| "reasonName commitment_lagging = ''commitment_lagging''"
| "reasonName finality_unavailable = ''finality_unavailable''"
| "reasonName finality_stale = ''finality_stale''"
| "reasonName finality_lagging = ''finality_lagging''"
| "reasonName reorg_reconciliation_pending = ''reorg_reconciliation_pending''"
| "reasonName reorg_quarantine_present = ''reorg_quarantine_present''"
| "reasonName settlement_stalled = ''settlement_stalled''"

fun statusName :: "health_status \<Rightarrow> string" where
  "statusName Healthy = ''healthy''"
| "statusName Degraded = ''degraded''"
| "statusName Held = ''held''"
| "statusName Unavailable = ''unavailable''"
| "statusName NotApplicable = ''not_applicable''"

fun transitionName :: "alert_transition \<Rightarrow> string" where
  "transitionName Raised = ''raised''"
| "transitionName Updated = ''updated''"
| "transitionName Recovered = ''recovered''"

definition HEALTH_REASONS :: "health_reason list" where
  "HEALTH_REASONS =
     [persistence_unavailable, operator_clock_rollback, signer_unavailable, read_quorum_held, read_quorum_stale,
      funds_release_held, solvency_deficit, solvency_unavailable, solvency_stale, commitment_unavailable,
      commitment_stale, commitment_lagging, finality_unavailable, finality_stale, finality_lagging,
      reorg_reconciliation_pending, reorg_quarantine_present, settlement_stalled]"


section \<open>Operations\<close>

definition alertNonnegative :: "int \<Rightarrow> string \<Rightarrow> alert_error + int" where
  "alertNonnegative value label = require (\<not> (\<not> isSafeInteger value \<or> value < 0)) (AlertNotNonnegative label) (Inr value)"

definition alertPositive :: "int \<Rightarrow> string \<Rightarrow> alert_error + int" where
  "alertPositive value label = andThen (alertNonnegative value label) (\<lambda>normalized.
     require (normalized \<noteq> 0) (AlertNotPositive label) (Inr normalized))"

definition normalizeOptionalTime :: "int option \<Rightarrow> string \<Rightarrow> alert_error + int option" where
  "normalizeOptionalTime value label = (case value of
       None \<Rightarrow> Inr None | Some v \<Rightarrow> andThen (alertNonnegative v label) (\<lambda>n. Inr (Some n)))"

definition alertHex32 :: "string \<Rightarrow> string \<Rightarrow> alert_error + unit" where
  "alertHex32 value label = require (isHex64 value) (AlertNotHex32 label) (Inr ())"

definition normalizeOperatorAlertCacheGenerationHex :: "string \<Rightarrow> alert_error + string" where
  "normalizeOperatorAlertCacheGenerationHex value =
     andThen (alertHex32 value ''operator alert cache generation'') (\<lambda>_. Inr value)"

definition assertSupportedOperatorAlertProfile :: "alert_profile \<Rightarrow> alert_error + unit" where
  "assertSupportedOperatorAlertProfile p = require
     (\<not> (profileSchema p \<noteq> OPERATOR_ALERT_PROFILE_SCHEMA
       \<or> profileId p \<noteq> OPERATOR_ALERT_PROFILE_ID
       \<or> profileVersion p \<noteq> 1
       \<or> recoveryActionCatalogVersion p \<noteq> 1
       \<or> retryDelayMs p \<noteq> retryDelayMs BRIDGE_DAEMON_OPERATOR_ALERT_PROFILE_V1
       \<or> attemptLeaseMs p \<noteq> attemptLeaseMs BRIDGE_DAEMON_OPERATOR_ALERT_PROFILE_V1))
     UnsupportedAlertProfile (Inr ())"

text \<open>\<^verbatim>\<open>Array.prototype.indexOf\<close>\<close>

fun indexOf :: "'a list \<Rightarrow> 'a \<Rightarrow> int" where
  "indexOf [] x = -1"
| "indexOf (y # ys) x = (if y = x then 0 else (let i = indexOf ys x in if i < 0 then -1 else i + 1))"

fun reasonsLoop :: "health_reason list \<Rightarrow> int \<Rightarrow> health_reason list \<Rightarrow> alert_error + unit" where
  "reasonsLoop seen lastIndex [] = Inr ()"
| "reasonsLoop seen lastIndex (reason # rest) = (
     let index = indexOf HEALTH_REASONS reason in
     require (\<not> (index < 0 \<or> List.member seen reason \<or> index \<le> lastIndex)) ReasonsUnsupportedOrUnordered
       (reasonsLoop (reason # seen) index rest))"

definition normalizeOperatorAlertReasons :: "health_reason list \<Rightarrow> alert_error + health_reason list" where
  "normalizeOperatorAlertReasons rs = andThen (reasonsLoop [] (-1) rs) (\<lambda>_. Inr rs)"

definition jsonOptional :: "string option \<Rightarrow> json" where
  "jsonOptional s = (case s of None \<Rightarrow> JNull | Some v \<Rightarrow> JStr v)"

definition alertDigest :: "(string \<Rightarrow> string) \<Rightarrow> json \<Rightarrow> string \<Rightarrow> alert_error + string" where
  "alertDigest sha256 j domain = (case sha256CanonicalJson sha256 j (Some domain) of
       Inl e \<Rightarrow> Inl (AlertJson e) | Inr d \<Rightarrow> Inr d)"

definition deriveOperatorAlertId :: "(string \<Rightarrow> string) \<Rightarrow> alert_profile \<Rightarrow> alert_transition \<Rightarrow> string \<Rightarrow> string \<Rightarrow> int
    \<Rightarrow> health_status \<Rightarrow> health_reason list \<Rightarrow> string option \<Rightarrow> alert_error + string" where
  "deriveOperatorAlertId sha256 profile kind digest cacheGen opened status rs previous =
     alertDigest sha256 (JObj
       [(''profileId'', JStr (profileId profile)),
        (''profileVersion'', JNum (profileVersion profile)),
        (''transition'', JStr (transitionName kind)),
        (''conditionDigestHex'', JStr digest),
        (''cacheGenerationHex'', JStr cacheGen),
        (''openedAtMs'', JNum opened),
        (''overall'', JStr (statusName status)),
        (''reasons'', JArr (map (\<lambda>r. JStr (reasonName r)) rs)),
        (''previousAlertIdHex'', jsonOptional previous)]) OPERATOR_ALERT_ID_DOMAIN"

text \<open>The delivery metadata each status allows; \<open>openedAtMs\<close> and \<open>updatedAtMs\<close> are those of the state.\<close>

definition assertDeliveryMetadata :: "alert_state \<Rightarrow> alert_error + unit" where
  "assertDeliveryMetadata s = (case deliveryStatus s of
       Pending \<Rightarrow> require (\<not> (attemptCount s \<noteq> 0 \<or> claimedAtMs s \<noteq> None \<or> leaseExpiresAtMs s \<noteq> None
           \<or> nextAttemptAtMs s \<noteq> None \<or> deliveredAtMs s \<noteq> None \<or> lastFailureCode s \<noteq> None))
           PendingHasMetadata (Inr ())
     | Delivering \<Rightarrow> require (\<not> (attemptCount s = 0
           \<or> (case claimedAtMs s of None \<Rightarrow> True | Some c \<Rightarrow> c < openedAtMs s
               \<or> (case leaseExpiresAtMs s of None \<Rightarrow> True | Some l \<Rightarrow> l \<le> c))
           \<or> nextAttemptAtMs s \<noteq> None \<or> deliveredAtMs s \<noteq> None \<or> lastFailureCode s \<noteq> None))
           DeliveringHasInvalidLease (Inr ())
     | RetryWait \<Rightarrow> require (\<not> (attemptCount s = 0 \<or> claimedAtMs s \<noteq> None \<or> leaseExpiresAtMs s \<noteq> None
           \<or> (case nextAttemptAtMs s of None \<Rightarrow> True | Some n \<Rightarrow> n \<le> updatedAtMs s)
           \<or> deliveredAtMs s \<noteq> None \<or> lastFailureCode s = None))
           RetryHasInvalidMetadata (Inr ())
     | Delivered \<Rightarrow> require (\<not> (attemptCount s = 0 \<or> claimedAtMs s \<noteq> None \<or> leaseExpiresAtMs s \<noteq> None
           \<or> nextAttemptAtMs s \<noteq> None
           \<or> (case deliveredAtMs s of None \<Rightarrow> True | Some d \<Rightarrow> d < openedAtMs s) \<or> lastFailureCode s \<noteq> None))
           DeliveredHasInvalidMetadata (Inr ()))"

definition normalizeOperatorAlertDeliveryState ::
    "(string \<Rightarrow> string) \<Rightarrow> alert_state \<Rightarrow> alert_profile \<Rightarrow> alert_error + alert_state" where
  "normalizeOperatorAlertDeliveryState sha256 s profile =
     andThen (assertSupportedOperatorAlertProfile profile) (\<lambda>_.
     require (\<not> (stateSchema s \<noteq> OPERATOR_ALERT_DELIVERY_STATE_SCHEMA \<or> stateProfileId s \<noteq> profileId profile
                 \<or> stateProfileVersion s \<noteq> profileVersion profile)) UnsupportedAlertState (
     andThen (alertPositive (revision s) ''operator alert state revision'') (\<lambda>rev.
     andThen (alertNonnegative (attemptCount s) ''operator alert attempt count'') (\<lambda>attempts.
     andThen (alertNonnegative (openedAtMs s) ''operator alert open time'') (\<lambda>opened.
     andThen (alertNonnegative (updatedAtMs s) ''operator alert state update time'') (\<lambda>updated.
     require (\<not> updated < opened) UpdatePrecedesOccurrence (
     andThen (alertHex32 (alertIdHex s) ''operator alert id'') (\<lambda>_.
     andThen (alertHex32 (conditionDigestHex s) ''operator alert condition digest'') (\<lambda>_.
     andThen (alertHex32 (cacheGenerationHex s) ''operator alert cache generation'') (\<lambda>_.
     andThen (case previousAlertIdHex s of None \<Rightarrow> Inr () | Some p \<Rightarrow> alertHex32 p ''previous operator alert id'') (\<lambda>_.
     require (List.member [Healthy, Degraded, Held] (overall s)) UnsupportedAlertStatus (
     andThen (normalizeOperatorAlertReasons (reasons s)) (\<lambda>rs.
     let reasonsActive = rs \<noteq> [] in
     require (\<not> (conditionActive s \<noteq> reasonsActive \<or> (overall s = Healthy) \<noteq> (\<not> reasonsActive)
                 \<or> conditionActive s = (transition s = Recovered))) TransitionStatusReasonsDisagree (
     require (\<not> (transition s \<noteq> Raised \<and> previousAlertIdHex s = None)) PredecessorDisagrees (
     andThen (normalizeOptionalTime (claimedAtMs s) ''operator alert claim time'') (\<lambda>claimed.
     andThen (normalizeOptionalTime (leaseExpiresAtMs s) ''operator alert lease expiry'') (\<lambda>lease.
     andThen (normalizeOptionalTime (nextAttemptAtMs s) ''operator alert next attempt time'') (\<lambda>nextAt.
     andThen (normalizeOptionalTime (deliveredAtMs s) ''operator alert delivery time'') (\<lambda>deliveredAt.
     andThen (assertDeliveryMetadata s) (\<lambda>_.
     andThen (deriveOperatorAlertId sha256 profile (transition s) (conditionDigestHex s) (cacheGenerationHex s) opened
                (overall s) rs (previousAlertIdHex s)) (\<lambda>expectedAlertId.
     require (alertIdHex s = expectedAlertId) AlertIdMismatch (
     Inr (s \<lparr> revision := rev, openedAtMs := opened, reasons := rs, attemptCount := attempts, claimedAtMs := claimed,
             leaseExpiresAtMs := lease, nextAttemptAtMs := nextAt, deliveredAtMs := deliveredAt,
             updatedAtMs := updated \<rparr>)))))))))))))))))))))))"


section \<open>Inversion of the parts\<close>

lemma alertNonnegative_iff: "alertNonnegative v l = Inr n \<longleftrightarrow> isNonnegSafe v \<and> n = v"
  by (auto simp: alertNonnegative_def require_def isNonnegSafe_def)

lemma alertPositive_iff: "alertPositive v l = Inr n \<longleftrightarrow> isNonnegSafe v \<and> v \<noteq> 0 \<and> n = v"
  by (auto simp: alertPositive_def alertNonnegative_iff result_simps)

lemma normalizeOptionalTime_iff: "normalizeOptionalTime t l = Inr n \<longleftrightarrow> okOptional t \<and> n = t"
  by (cases t) (auto simp: normalizeOptionalTime_def okOptional_def alertNonnegative_iff result_simps)

lemma alertHex32_iff: "alertHex32 v l = Inr u \<longleftrightarrow> isHex64 v"
  by (simp add: alertHex32_def result_simps)

lemma profileOk_iff: "assertSupportedOperatorAlertProfile p = Inr u \<longleftrightarrow> p = BRIDGE_DAEMON_OPERATOR_ALERT_PROFILE_V1"
  by (cases p) (auto simp: assertSupportedOperatorAlertProfile_def result_simps BRIDGE_DAEMON_OPERATOR_ALERT_PROFILE_V1_def)


text \<open>Reasons are accepted exactly when their positions in the fixed order increase.\<close>

definition inOrder :: "health_reason list \<Rightarrow> bool" where
  "inOrder = sorted_wrt (\<lambda>a b. indexOf HEALTH_REASONS a < indexOf HEALTH_REASONS b)"

lemma indexOf_nonneg: "x \<in> set xs \<longleftrightarrow> 0 \<le> indexOf xs x"
  by (induction xs) (auto simp: Let_def)

lemma HEALTH_REASONS_eq: "HEALTH_REASONS = REASON_ORDER"
  by (simp add: HEALTH_REASONS_def REASON_ORDER_def)

lemma index_reason: "0 \<le> indexOf HEALTH_REASONS r"
  using REASON_ORDER_all indexOf_nonneg HEALTH_REASONS_eq by metis

lemma reasonsLoop_iff:
  "(\<forall>x \<in> set seen. indexOf HEALTH_REASONS x \<le> m) \<Longrightarrow>
     reasonsLoop seen m rs = Inr u \<longleftrightarrow> (\<forall>r \<in> set rs. m < indexOf HEALTH_REASONS r) \<and> inOrder rs"
proof (induction rs arbitrary: seen m)
  case (Cons r rs)
  let ?i = "indexOf HEALTH_REASONS"
  have "reasonsLoop seen m (r # rs) = Inr u \<longleftrightarrow> m < ?i r \<and> reasonsLoop (r # seen) (?i r) rs = Inr u"
    using Cons.prems index_reason [of r] by (auto simp: Let_def result_simps)
  moreover have "m < ?i r \<Longrightarrow> reasonsLoop (r # seen) (?i r) rs = Inr u \<longleftrightarrow>
      (\<forall>x \<in> set rs. ?i r < ?i x) \<and> inOrder rs"
    using Cons.prems by (intro Cons.IH) auto
  ultimately show ?case by (simp del: reasonsLoop.simps add: inOrder_def) fastforce
qed (simp add: inOrder_def)

lemma reasons_iff: "normalizeOperatorAlertReasons rs = Inr rs' \<longleftrightarrow> inOrder rs \<and> rs' = rs"
proof -
  have "\<forall>r \<in> set rs. -1 < indexOf HEALTH_REASONS r" using index_reason by (auto intro: less_le_trans [of _ 0])
  then show ?thesis by (auto simp: normalizeOperatorAlertReasons_def result_simps reasonsLoop_iff)
qed

lemma inOrder_filter: "inOrder (filter c REASON_ORDER)"
proof -
  have "inOrder REASON_ORDER" by code_simp
  then show ?thesis by (simp add: inOrder_def sorted_wrt_filter)
qed

text \<open>What the validator accepts, as a predicate.\<close>

definition metadataOk :: "alert_state \<Rightarrow> bool" where
  "metadataOk s = (case deliveryStatus s of
       Pending \<Rightarrow> attemptCount s = 0 \<and> claimedAtMs s = None \<and> leaseExpiresAtMs s = None \<and> nextAttemptAtMs s = None
         \<and> deliveredAtMs s = None \<and> lastFailureCode s = None
     | Delivering \<Rightarrow> attemptCount s \<noteq> 0 \<and> (\<exists>c l. claimedAtMs s = Some c \<and> leaseExpiresAtMs s = Some l \<and> openedAtMs s \<le> c \<and> c < l)
         \<and> nextAttemptAtMs s = None \<and> deliveredAtMs s = None \<and> lastFailureCode s = None
     | RetryWait \<Rightarrow> attemptCount s \<noteq> 0 \<and> claimedAtMs s = None \<and> leaseExpiresAtMs s = None
         \<and> (\<exists>n. nextAttemptAtMs s = Some n \<and> updatedAtMs s < n) \<and> deliveredAtMs s = None \<and> lastFailureCode s \<noteq> None
     | Delivered \<Rightarrow> attemptCount s \<noteq> 0 \<and> claimedAtMs s = None \<and> leaseExpiresAtMs s = None \<and> nextAttemptAtMs s = None
         \<and> (\<exists>d. deliveredAtMs s = Some d \<and> openedAtMs s \<le> d) \<and> lastFailureCode s = None)"

definition occurrenceOk :: "(string \<Rightarrow> string) \<Rightarrow> alert_state \<Rightarrow> bool" where
  "occurrenceOk sha256 s \<longleftrightarrow> stateSchema s = OPERATOR_ALERT_DELIVERY_STATE_SCHEMA
     \<and> stateProfileId s = OPERATOR_ALERT_PROFILE_ID \<and> stateProfileVersion s = 1
     \<and> isNonnegSafe (openedAtMs s) \<and> isHex64 (alertIdHex s) \<and> isHex64 (conditionDigestHex s)
     \<and> isHex64 (cacheGenerationHex s) \<and> pred_option isHex64 (previousAlertIdHex s)
     \<and> overall s \<in> {Healthy, Degraded, Held} \<and> inOrder (reasons s)
     \<and> conditionActive s = (reasons s \<noteq> []) \<and> (overall s = Healthy \<longleftrightarrow> reasons s = [])
     \<and> (transition s = Recovered \<longleftrightarrow> reasons s = []) \<and> (previousAlertIdHex s = None \<longrightarrow> transition s = Raised)
     \<and> deriveOperatorAlertId sha256 BRIDGE_DAEMON_OPERATOR_ALERT_PROFILE_V1 (transition s) (conditionDigestHex s)
         (cacheGenerationHex s) (openedAtMs s) (overall s) (reasons s) (previousAlertIdHex s) = Inr (alertIdHex s)"

definition alertStateOk :: "(string \<Rightarrow> string) \<Rightarrow> alert_state \<Rightarrow> bool" where
  "alertStateOk sha256 s \<longleftrightarrow> occurrenceOk sha256 s \<and> isNonnegSafe (revision s) \<and> revision s \<noteq> 0
     \<and> isNonnegSafe (attemptCount s) \<and> isNonnegSafe (updatedAtMs s) \<and> openedAtMs s \<le> updatedAtMs s
     \<and> okOptional (claimedAtMs s) \<and> okOptional (leaseExpiresAtMs s) \<and> okOptional (nextAttemptAtMs s)
     \<and> okOptional (deliveredAtMs s) \<and> metadataOk s"

lemma assertDeliveryMetadata_iff: "assertDeliveryMetadata s = Inr u \<longleftrightarrow> metadataOk s"
  by (cases "deliveryStatus s"; cases "claimedAtMs s"; cases "leaseExpiresAtMs s"; cases "nextAttemptAtMs s"; cases "deliveredAtMs s")
    (auto simp: assertDeliveryMetadata_def metadataOk_def result_simps)

lemma profile_simps [simp]:
  "profileId BRIDGE_DAEMON_OPERATOR_ALERT_PROFILE_V1 = OPERATOR_ALERT_PROFILE_ID"
  "profileVersion BRIDGE_DAEMON_OPERATOR_ALERT_PROFILE_V1 = 1"
  "retryDelayMs BRIDGE_DAEMON_OPERATOR_ALERT_PROFILE_V1 = 30000"
  "attemptLeaseMs BRIDGE_DAEMON_OPERATOR_ALERT_PROFILE_V1 = 15000"
  "recoveryActionCatalogVersion BRIDGE_DAEMON_OPERATOR_ALERT_PROFILE_V1 = 1"
  by (simp_all add: BRIDGE_DAEMON_OPERATOR_ALERT_PROFILE_V1_def)

lemma previous_iff:
  "(case p of None \<Rightarrow> Inr () | Some p \<Rightarrow> alertHex32 p l) = Inr u \<longleftrightarrow> pred_option isHex64 p"
  by (cases p) (auto simp: alertHex32_iff)

lemma normalize_state_iff:
  "normalizeOperatorAlertDeliveryState sha256 s profile = Inr s' \<longleftrightarrow>
     profile = BRIDGE_DAEMON_OPERATOR_ALERT_PROFILE_V1 \<and> alertStateOk sha256 s \<and> s' = s"
  by (auto simp: normalizeOperatorAlertDeliveryState_def alertStateOk_def occurrenceOk_def profileOk_iff alertNonnegative_iff
      alertPositive_iff alertHex32_iff previous_iff reasons_iff normalizeOptionalTime_iff assertDeliveryMetadata_iff
      result_simps Let_def)

end
