(* ===== verification/Alert_Event.thy ===== *)
theory Alert_Event
  imports Alert_State
begin

text \<open>
  Operator alert events (first half of \<^verbatim>\<open>relayer-core/operator-alert-delivery.ts\<close>): the recovery-action
  catalogue, the event object and the strict normalizer that reads one back from untrusted JSON.

  A value of unknown type is a \<open>json\<close> tree. The capability objects hold only \<^verbatim>\<open>false\<close>, so the
  normalized event does not carry them.
\<close>

section \<open>Recovery actions\<close>

definition OPERATOR_ALERT_EVENT_SCHEMA :: string where
  "OPERATOR_ALERT_EVENT_SCHEMA = ''e2s.operator-alert-event.v1''"

definition OPERATOR_RECOVERY_ACTION_SCHEMA :: string where
  "OPERATOR_RECOVERY_ACTION_SCHEMA = ''e2s.operator-recovery-action.v1''"

definition OPERATOR_ALERT_EVENT_DIGEST_DOMAIN :: string where
  "OPERATOR_ALERT_EVENT_DIGEST_DOMAIN = ''ergo-sidechain-bridge:operator-alert-event:v1''"

definition OPERATOR_ALERT_CONDITION_DIGEST_DOMAIN :: string where
  "OPERATOR_ALERT_CONDITION_DIGEST_DOMAIN = ''ergo-sidechain-bridge:operator-alert-condition:v1''"

datatype action_id =
    RestoreLocalDeliveryState | InspectStorageAndLiquidity | ClassifyOperatorIncident
  | ReconcileSourceHistory | TriageSettlement

fun actionName :: "action_id \<Rightarrow> string" where
  "actionName RestoreLocalDeliveryState = ''restore-local-delivery-state''"
| "actionName ClassifyOperatorIncident = ''classify-operator-incident''"
| "actionName InspectStorageAndLiquidity = ''inspect-storage-and-liquidity''"
| "actionName ReconcileSourceHistory = ''reconcile-source-history''"
| "actionName TriageSettlement = ''triage-settlement''"

fun runbookReference :: "action_id \<Rightarrow> string" where
  "runbookReference RestoreLocalDeliveryState = ''docs/operator-runbooks.md#runbook-12-sqlite-and-avl-backup-restore''"
| "runbookReference ClassifyOperatorIncident = ''docs/operator-runbooks.md#runbook-10-incident-response''"
| "runbookReference InspectStorageAndLiquidity = ''docs/operator-runbooks.md#runbook-9-storage-rent-and-liquidity-maintenance''"
| "runbookReference ReconcileSourceHistory = ''docs/operator-runbooks.md#runbook-6-reorg-recovery''"
| "runbookReference TriageSettlement = ''docs/operator-runbooks.md#runbook-5-settlement-failure-triage''"

definition CAPABILITY_FIELDS :: "string list" where
  "CAPABILITY_FIELDS = [''mutation'', ''holdClear'', ''checking'', ''signing'', ''authorization'', ''submission'',
     ''broadcast'', ''fundsAuthority'']"

definition NO_ACTION_CAPABILITIES :: json where
  "NO_ACTION_CAPABILITIES = JObj (map (\<lambda>k. (k, JBool False)) CAPABILITY_FIELDS)"

text \<open>An entry of \<^verbatim>\<open>RECOVERY_ACTIONS\<close> as the object it is.\<close>

definition actionJson :: "action_id \<Rightarrow> json" where
  "actionJson a = JObj [(''schema'', JStr OPERATOR_RECOVERY_ACTION_SCHEMA), (''actionId'', JStr (actionName a)),
     (''runbookReference'', JStr (runbookReference a)), (''capabilities'', NO_ACTION_CAPABILITIES)]"

definition RECOVERY_ACTIONS :: "action_id list" where
  "RECOVERY_ACTIONS = [RestoreLocalDeliveryState, ClassifyOperatorIncident, InspectStorageAndLiquidity, ReconcileSourceHistory, TriageSettlement]"

fun actionsByReason :: "health_reason \<Rightarrow> action_id list" where
  "actionsByReason persistence_unavailable = [RestoreLocalDeliveryState, ClassifyOperatorIncident]"
| "actionsByReason operator_clock_rollback = [ClassifyOperatorIncident]"
| "actionsByReason signer_unavailable = [TriageSettlement, ClassifyOperatorIncident]"
| "actionsByReason read_quorum_held = [ClassifyOperatorIncident, ReconcileSourceHistory]"
| "actionsByReason read_quorum_stale = [ClassifyOperatorIncident, ReconcileSourceHistory]"
| "actionsByReason funds_release_held = [ClassifyOperatorIncident]"
| "actionsByReason solvency_deficit = [InspectStorageAndLiquidity, ClassifyOperatorIncident]"
| "actionsByReason solvency_unavailable = [ClassifyOperatorIncident]"
| "actionsByReason solvency_stale = [ClassifyOperatorIncident]"
| "actionsByReason commitment_unavailable = [TriageSettlement, ClassifyOperatorIncident]"
| "actionsByReason commitment_stale = [TriageSettlement, ReconcileSourceHistory]"
| "actionsByReason commitment_lagging = [TriageSettlement]"
| "actionsByReason finality_unavailable = [TriageSettlement, ClassifyOperatorIncident]"
| "actionsByReason finality_stale = [ReconcileSourceHistory, ClassifyOperatorIncident]"
| "actionsByReason finality_lagging = [TriageSettlement]"
| "actionsByReason reorg_reconciliation_pending = [ReconcileSourceHistory]"
| "actionsByReason reorg_quarantine_present = [ReconcileSourceHistory, ClassifyOperatorIncident]"
| "actionsByReason settlement_stalled = [TriageSettlement, ClassifyOperatorIncident]"

definition resolveOperatorRecoveryAction :: "string \<Rightarrow> alert_error + action_id" where
  "resolveOperatorRecoveryAction name = (case List.find (\<lambda>a. actionName a = name) RECOVERY_ACTIONS of
       None \<Rightarrow> Inl UnsupportedRecoveryAction | Some a \<Rightarrow> Inr a)"

definition pushNew :: "action_id list \<Rightarrow> action_id \<Rightarrow> action_id list" where
  "pushNew ids a = (if \<not> List.member ids a then ids @ [a] else ids)"

definition recoveryActionsForReasons :: "health_reason list \<Rightarrow> action_id list" where
  "recoveryActionsForReasons rs = foldl (\<lambda>ids r. foldl pushNew ids (actionsByReason r)) [] rs"


section \<open>Events\<close>

text \<open>The normalizer checks \<^verbatim>\<open>String(record.transition)\<close> and \<^verbatim>\<open>String(record.overall)\<close> and returns the
  values themselves, so those two fields are \<open>json\<close>.\<close>

record alert_event =
  evAlertIdHex :: string
  evOpenedAtMs :: int
  evTransition :: json
  evConditionDigestHex :: string
  evPreviousAlertIdHex :: "string option"
  evOverall :: json
  evReasons :: "health_reason list"
  evRecoveryActions :: "action_id list"

definition eventJson :: "alert_event \<Rightarrow> json" where
  "eventJson e = JObj
     [(''schema'', JStr OPERATOR_ALERT_EVENT_SCHEMA),
      (''profileId'', JStr OPERATOR_ALERT_PROFILE_ID),
      (''profileVersion'', JNum 1),
      (''alertIdHex'', JStr (evAlertIdHex e)),
      (''openedAtMs'', JNum (evOpenedAtMs e)),
      (''transition'', evTransition e),
      (''conditionDigestHex'', JStr (evConditionDigestHex e)),
      (''previousAlertIdHex'', jsonOptional (evPreviousAlertIdHex e)),
      (''overall'', evOverall e),
      (''reasons'', JArr (map (\<lambda>r. JStr (reasonName r)) (evReasons e))),
      (''recoveryActions'', JArr (map actionJson (evRecoveryActions e))),
      (''capabilities'', NO_ACTION_CAPABILITIES)]"

definition EVENT_FIELDS :: "string list" where
  "EVENT_FIELDS = [''schema'', ''profileId'', ''profileVersion'', ''alertIdHex'', ''openedAtMs'', ''transition'',
     ''conditionDigestHex'', ''previousAlertIdHex'', ''overall'', ''reasons'', ''recoveryActions'', ''capabilities'']"

definition ACTION_FIELDS :: "string list" where
  "ACTION_FIELDS = [''schema'', ''actionId'', ''runbookReference'', ''capabilities'']"

text \<open>\<^verbatim>\<open>record.field\<close> on an object, \<^verbatim>\<open>undefined\<close> when it has no such member.\<close>

definition field :: "(string \<times> json) list \<Rightarrow> string \<Rightarrow> json" where
  "field ms k = (case map_of ms k of None \<Rightarrow> JUndefined | Some v \<Rightarrow> v)"

text \<open>\<^verbatim>\<open>String(value)\<close>. Objects whose class brings its own \<^verbatim>\<open>toString\<close> are outside the model.\<close>

fun jsString :: "json \<Rightarrow> string" where
  "jsString JNull = ''null''"
| "jsString (JBool b) = (if b then ''true'' else ''false'')"
| "jsString (JNum n) = jsonInt n"
| "jsString (JStr s) = s"
| "jsString (JArr xs) = joinComma (map (\<lambda>x. if x = JNull \<or> x = JUndefined then [] else jsString x) xs)"
| "jsString (JObj ms) = ''[object Object]''"
| "jsString JInstance = ''[object Object]''"
| "jsString JUndefined = ''undefined''"
| "jsString JForeign = ''[object Object]''"

definition alertCanonical :: "json \<Rightarrow> alert_error + string" where
  "alertCanonical j = (case canonicalJson j of Inl e \<Rightarrow> Inl (AlertJson e) | Inr t \<Rightarrow> Inr t)"

definition exactObject :: "json \<Rightarrow> string list \<Rightarrow> string \<Rightarrow> alert_error + (string \<times> json) list" where
  "exactObject value names label = (case value of
       JObj ms \<Rightarrow>
         andThen (alertCanonical (JArr (map JStr (sort (map fst ms))))) (\<lambda>actual.
         andThen (alertCanonical (JArr (map JStr (sort names)))) (\<lambda>expected.
         require (actual = expected) (AlertNotExactFields label) (Inr ms)))
     | JInstance \<Rightarrow> Inl (AlertNotPlainObject label)
     | _ \<Rightarrow> Inl (AlertNotObject label))"

definition canonicalHex32 :: "json \<Rightarrow> string \<Rightarrow> alert_error + string" where
  "canonicalHex32 value label = (case value of
       JStr s \<Rightarrow> require (isHex64 s) (AlertNotHex32 label) (Inr s) | _ \<Rightarrow> Inl (AlertNotHex32 label))"

fun firstNotFalse :: "(string \<times> json) list \<Rightarrow> string option" where
  "firstNotFalse [] = None"
| "firstNotFalse (m # ms) = (if snd m \<noteq> JBool False then Some (fst m) else firstNotFalse ms)"

definition assertAllFalseCapabilities :: "json \<Rightarrow> string \<Rightarrow> alert_error + unit" where
  "assertAllFalseCapabilities value label =
     andThen (exactObject value CAPABILITY_FIELDS (label @ '' capabilities'')) (\<lambda>ms. case firstNotFalse ms of
         Some k \<Rightarrow> Inl (CapabilityNotFalse label k) | None \<Rightarrow> Inr ())"

definition safeNumber :: "json \<Rightarrow> string \<Rightarrow> alert_error + int" where
  "safeNumber value label = (case value of JNum n \<Rightarrow> alertNonnegative n label | _ \<Rightarrow> Inl (AlertNotNonnegative label))"

definition reasonOf :: "json \<Rightarrow> alert_error + health_reason" where
  "reasonOf j = (case List.find (\<lambda>r. JStr (reasonName r) = j) HEALTH_REASONS of
       None \<Rightarrow> Inl ReasonsUnsupportedOrUnordered | Some r \<Rightarrow> Inr r)"

definition eventReasons :: "json \<Rightarrow> alert_error + health_reason list" where
  "eventReasons value = (case value of
       JArr xs \<Rightarrow> andThen (mapR reasonOf xs) normalizeOperatorAlertReasons | _ \<Rightarrow> Inl ReasonsNotArray)"

definition eventAction :: "nat \<times> json \<Rightarrow> alert_error + action_id" where
  "eventAction = (\<lambda>(index, action). let label = ''operator recovery action '' @ decStr index in
     andThen (exactObject action ACTION_FIELDS label) (\<lambda>ms.
     case field ms ''actionId'' of
       JStr name \<Rightarrow>
         andThen (assertAllFalseCapabilities (field ms ''capabilities'') label) (\<lambda>_.
         andThen (resolveOperatorRecoveryAction name) (\<lambda>expected.
         andThen (alertCanonical (JObj ms)) (\<lambda>actualText.
         andThen (alertCanonical (actionJson expected)) (\<lambda>expectedText.
         require (actualText = expectedText) ActionDiffersFromCatalogue (Inr expected)))))
     | _ \<Rightarrow> Inl ActionIdNotString))"

definition eventActions :: "json \<Rightarrow> alert_error + action_id list" where
  "eventActions value = (case value of JArr xs \<Rightarrow> mapR eventAction (enumerate 0 xs) | _ \<Rightarrow> Inl ActionsNotArray)"

definition normalizeOperatorAlertEvent :: "json \<Rightarrow> alert_error + alert_event" where
  "normalizeOperatorAlertEvent value =
     andThen (exactObject value EVENT_FIELDS ''operator alert event'') (\<lambda>ms.
     require (\<not> (field ms ''schema'' \<noteq> JStr OPERATOR_ALERT_EVENT_SCHEMA \<or> field ms ''profileId'' \<noteq> JStr OPERATOR_ALERT_PROFILE_ID
                 \<or> field ms ''profileVersion'' \<noteq> JNum 1)) UnsupportedAlertEvent (
     andThen (canonicalHex32 (field ms ''alertIdHex'') ''operator alert id'') (\<lambda>alertId.
     andThen (canonicalHex32 (field ms ''conditionDigestHex'') ''operator alert condition digest'') (\<lambda>digest.
     andThen (if field ms ''previousAlertIdHex'' = JNull then Inr None
              else andThen (canonicalHex32 (field ms ''previousAlertIdHex'') ''previous operator alert id'') (\<lambda>p. Inr (Some p))) (\<lambda>previous.
     andThen (safeNumber (field ms ''openedAtMs'') ''operator alert open time'') (\<lambda>opened.
     require (List.member [''raised'', ''updated'', ''recovered''] (jsString (field ms ''transition''))) UnsupportedAlertTransition (
     let kind = field ms ''transition'' in
     require (List.member [''healthy'', ''degraded'', ''held''] (jsString (field ms ''overall''))) UnsupportedAlertStatus (
     let status = field ms ''overall'' in
     andThen (eventReasons (field ms ''reasons'')) (\<lambda>rs.
     let active = rs \<noteq> [] in
     require (\<not> ((status = JStr ''healthy'') \<noteq> (\<not> active) \<or> (kind = JStr ''recovered'') \<noteq> (\<not> active)
                 \<or> (kind \<noteq> JStr ''raised'' \<and> previous = None))) EventTransitionDisagrees (
     let expectedActions = recoveryActionsForReasons rs in
     andThen (eventActions (field ms ''recoveryActions'')) (\<lambda>actualActions.
     andThen (alertCanonical (JArr (map actionJson actualActions))) (\<lambda>actualText.
     andThen (alertCanonical (JArr (map actionJson expectedActions))) (\<lambda>expectedText.
     require (actualText = expectedText) ActionsDoNotMatchReasons (
     andThen (assertAllFalseCapabilities (field ms ''capabilities'') ''operator alert event'') (\<lambda>_.
     Inr \<lparr> evAlertIdHex = alertId, evOpenedAtMs = opened, evTransition = kind, evConditionDigestHex = digest,
           evPreviousAlertIdHex = previous, evOverall = status, evReasons = rs,
           evRecoveryActions = expectedActions \<rparr>)))))))))))))))"

definition digestOperatorAlertEvent :: "(string \<Rightarrow> string) \<Rightarrow> json \<Rightarrow> alert_error + string" where
  "digestOperatorAlertEvent sha256 value = andThen (normalizeOperatorAlertEvent value) (\<lambda>e.
     alertDigest sha256 (eventJson e) OPERATOR_ALERT_EVENT_DIGEST_DOMAIN)"


section \<open>Exact objects\<close>

lemma jsonString_cancel: "jsonString s @ r = jsonString t @ r' \<Longrightarrow> s = t \<and> r = r'"
proof -
  assume "jsonString s @ r = jsonString t @ r'"
  then have "parseString (jsonString s @ r) = parseString (jsonString t @ r')" by simp
  then have eq: "(map code s, r) = (map code t, r')" by (simp add: parseString_complete [OF jString_jsonString])
  moreover have "inj code" by (auto intro: injI code_inj)
  ultimately show ?thesis by (simp add: inj_map_eq_map)
qed

lemma joinComma_strings:
  "joinComma (map jsonString (x # xs)) = jsonString x @ (if xs = [] then [] else '','' @ joinComma (map jsonString xs))"
  by (cases xs) auto

lemma jsonString_not_bracket: "jsonString x @ r \<noteq> CHR '']'' # r'"
  by (simp add: jsonString_def)

lemma joinComma_strings_Nil: "joinComma (map jsonString ys) @ '']'' = '']'' \<longleftrightarrow> ys = []"
proof (cases ys)
  case (Cons a list)
  then show ?thesis using joinComma_strings [of a list] by (simp add: jsonString_def del: list.map(2))
qed simp

lemma joinComma_strings_inj:
  "joinComma (map jsonString xs) @ '']'' = joinComma (map jsonString ys) @ '']'' \<Longrightarrow> xs = ys"
proof (induction xs arbitrary: ys)
  case Nil
  then have "joinComma (map jsonString ys) @ '']'' = '']''" by simp
  then show ?case by (simp only: joinComma_strings_Nil)
next
  case (Cons x xs)
  then obtain y zs where ys: "ys = y # zs"
    using joinComma_strings_Nil [of "x # xs"] by (cases ys) (auto simp del: list.map(2))
  let ?rest = "\<lambda>xs. (if xs = [] then [] else '','' @ joinComma (map jsonString xs)) @ '']''"
  have "x = y \<and> ?rest xs = ?rest zs"
    using Cons.prems by (intro jsonString_cancel) (simp add: ys joinComma_strings del: list.map)
  then show ?case using Cons.IH [of zs] by (auto simp: ys split: if_splits)
qed

lemma strings_text: "canonicalJson (JArr (map JStr xs)) = Inr (''['' @ joinComma (map jsonString xs) @ '']'')"
proof -
  have "mapR canonicalJson (map JStr xs) = Inr (map jsonString xs)" by (induction xs) auto
  then show ?thesis by simp
qed

lemma exactObject_iff:
  "exactObject j names l = Inr ms \<longleftrightarrow> j = JObj ms \<and> sort (map fst ms) = sort names"
proof -
  have "joinComma (map jsonString xs) = joinComma (map jsonString ys) \<Longrightarrow> xs = ys" for xs ys
    by (rule joinComma_strings_inj) simp
  then show ?thesis by (cases j) (auto simp: exactObject_def alertCanonical_def strings_text result_simps
      simp del: canonicalJson.simps)
qed

lemma sort_keys:
  assumes "sort (map fst ms) = sort (names :: string list)" and "distinct names"
  shows "distinct (map fst ms)" and "set (map fst ms) = set names" and "mset (map fst ms) = mset names"
    and "mset ms = mset (map (\<lambda>k. (k, field ms k)) names)"
proof -
  show keys: "mset (map fst ms) = mset names" by (metis assms(1) mset_sort)
  then show "set (map fst ms) = set names" by (metis set_mset_mset)
  show d: "distinct (map fst ms)" using keys assms(2) mset_eq_imp_distinct_iff by blast
  have "ms = map (\<lambda>k. (k, field ms k)) (map fst ms)"
    using d by (auto simp: field_def intro!: map_idI [symmetric] simp: map_of_is_SomeI)
  then have "mset ms = image_mset (\<lambda>k. (k, field ms k)) (mset (map fst ms))" by (metis mset_map)
  then show "mset ms = mset (map (\<lambda>k. (k, field ms k)) names)" unfolding keys by (simp only: mset_map)
qed

text \<open>Objects with the same keys in the same places and canonically equal values have the same canonical text.\<close>

definition sameText :: "string \<times> json \<Rightarrow> string \<times> json \<Rightarrow> bool" where
  "sameText a b \<longleftrightarrow> fst a = fst b \<and> canonicalJson (snd a) = canonicalJson (snd b) \<and> (snd a = JUndefined \<longleftrightarrow> snd b = JUndefined)"

lemma sameText_insort: "sameText a b \<Longrightarrow> list_all2 sameText xs ys \<Longrightarrow> list_all2 sameText (insort_key fst a xs) (insort_key fst b ys)"
proof (rotate_tac 1, induction xs ys rule: list_all2_induct)
  case Nil
  then show ?case by simp
next
  case (Cons x xs y ys)
  then have "fst a = fst b" "fst x = fst y" by (auto simp: sameText_def)
  with Cons show ?case by auto
qed

lemma sameText_sort: "list_all2 sameText xs ys \<Longrightarrow> list_all2 sameText (sort_key fst xs) (sort_key fst ys)"
  by (induction xs ys rule: list_all2_induct) (auto intro: sameText_insort)

lemma mapR_list_all2_cong: "list_all2 R xs ys \<Longrightarrow> (\<And>x y. R x y \<Longrightarrow> f x = g y) \<Longrightarrow> mapR f xs = mapR g ys"
  by (induction xs ys rule: list_all2_induct) auto

lemma sameText_object: "list_all2 sameText ms ns \<Longrightarrow> canonicalJson (JObj ms) = canonicalJson (JObj ns)"
  unfolding canonicalJson.simps by (rule arg_cong [where f = "\<lambda>m. andThen m _"], rule mapR_list_all2_cong [OF sameText_sort])
    (auto simp: sameText_def)


section \<open>Reading an event back\<close>

lemma reasonOf_iff: "reasonOf j = Inr r \<longleftrightarrow> j = JStr (reasonName r)"
proof
  assume "reasonOf j = Inr r"
  then show "j = JStr (reasonName r)" by (auto simp: reasonOf_def find_Some_iff split: option.splits)
next
  assume "j = JStr (reasonName r)"
  then show "reasonOf j = Inr r" by (cases r) (simp_all add: reasonOf_def HEALTH_REASONS_def)
qed

lemma mapR_reasonOf: "mapR reasonOf xs = Inr rs \<longleftrightarrow> xs = map (\<lambda>r. JStr (reasonName r)) rs"
proof (induction xs arbitrary: rs)
  case (Cons x xs)
  then show ?case by (cases rs) (auto simp: result_simps reasonOf_iff)
qed auto

lemma firstNotFalse_None: "firstNotFalse ms = None \<longleftrightarrow> (\<forall>m \<in> set ms. snd m = JBool False)"
  by (induction ms) auto

lemma capabilities_iff:
  "assertAllFalseCapabilities j l = Inr u \<longleftrightarrow>
     (\<exists>ms. j = JObj ms \<and> sort (map fst ms) = sort CAPABILITY_FIELDS \<and> (\<forall>m \<in> set ms. snd m = JBool False))"
  by (auto simp: assertAllFalseCapabilities_def result_simps exactObject_iff split: option.splits
      simp flip: firstNotFalse_None)

lemma distinct_fields: "distinct CAPABILITY_FIELDS" "distinct ACTION_FIELDS" "distinct EVENT_FIELDS"
  by (simp_all add: CAPABILITY_FIELDS_def ACTION_FIELDS_def EVENT_FIELDS_def)

lemma capabilities_text:
  assumes "assertAllFalseCapabilities j l = Inr u"
  shows "canonicalJson j = canonicalJson NO_ACTION_CAPABILITIES" and "j \<noteq> JUndefined"
proof -
  from assms obtain ms where j: "j = JObj ms" and keys: "sort (map fst ms) = sort CAPABILITY_FIELDS"
    and false: "\<forall>m \<in> set ms. snd m = JBool False" by (auto simp: capabilities_iff)
  note facts = sort_keys [OF keys distinct_fields(1)]
  have "field ms k = JBool False" if "k \<in> set CAPABILITY_FIELDS" for k
  proof -
    from that facts(2) obtain v where "map_of ms k = Some v" by (metis domIff dom_map_of_conv_image_fst list.set_map not_None_eq)
    then show ?thesis using false by (auto simp: field_def dest!: map_of_SomeD)
  qed
  then have "mset ms = mset (map (\<lambda>k. (k, JBool False)) CAPABILITY_FIELDS)"
    using facts(4) by (metis (no_types, lifting) map_eq_conv)
  then show "canonicalJson j = canonicalJson NO_ACTION_CAPABILITIES"
    unfolding j NO_ACTION_CAPABILITIES_def using facts(1) by (rule canonicalJson_key_order [rotated])
  show "j \<noteq> JUndefined" by (simp add: j)
qed

lemma capabilities_accepted: "assertAllFalseCapabilities NO_ACTION_CAPABILITIES l = Inr ()"
  by (auto simp: capabilities_iff NO_ACTION_CAPABILITIES_def comp_def)

lemma resolve_name: "resolveOperatorRecoveryAction (actionName a) = Inr a"
  by (cases a) (simp_all add: resolveOperatorRecoveryAction_def RECOVERY_ACTIONS_def)

lemma alertCanonical_iff: "alertCanonical j = Inr t \<longleftrightarrow> canonicalJson j = Inr t"
  by (simp add: alertCanonical_def split: sum.splits)

lemma capabilities_ok: "isOk (canonicalJson NO_ACTION_CAPABILITIES)"
  unfolding NO_ACTION_CAPABILITIES_def by (rule canonicalJson_object_ok) auto

lemma action_ok: "isOk (canonicalJson (actionJson a))"
  unfolding actionJson_def by (rule canonicalJson_object_ok)
    (auto simp: capabilities_ok NO_ACTION_CAPABILITIES_def [THEN arg_cong [where f = "\<lambda>x. x = JUndefined"]])

lemma action_read:
  assumes "eventAction (i, j) = Inr a"
  shows "canonicalJson j = canonicalJson (actionJson a)"
proof -
  from assms obtain ms where "j = JObj ms"
    by (auto simp: eventAction_def Let_def andThen_Inr_iff exactObject_iff)
  with assms show ?thesis
    by (cases "field ms ''actionId''")
      (auto simp: eventAction_def Let_def andThen_Inr_iff require_Inr_iff exactObject_iff alertCanonical_iff
        simp del: canonicalJson.simps)
qed

lemma action_accepted: "eventAction (i, actionJson a) = Inr a"
proof -
  obtain t where t: "canonicalJson (actionJson a) = Inr t" using action_ok by (auto simp: isOk_iff)
  let ?ms = "[(''schema'', JStr OPERATOR_RECOVERY_ACTION_SCHEMA), (''actionId'', JStr (actionName a)),
     (''runbookReference'', JStr (runbookReference a)), (''capabilities'', NO_ACTION_CAPABILITIES)]"
  have "exactObject (actionJson a) ACTION_FIELDS l = Inr ?ms" for l
    by (simp add: exactObject_iff actionJson_def ACTION_FIELDS_def)
  moreover have "field ?ms ''actionId'' = JStr (actionName a)" "field ?ms ''capabilities'' = NO_ACTION_CAPABILITIES"
    by (simp_all add: field_def)
  moreover have "alertCanonical (JObj ?ms) = Inr t" "alertCanonical (actionJson a) = Inr t"
    using t by (simp_all add: alertCanonical_iff actionJson_def del: canonicalJson.simps)
  ultimately show ?thesis by (simp add: eventAction_def Let_def capabilities_accepted resolve_name)
qed

lemma actions_read:
  assumes "eventActions j = Inr as"
  shows "canonicalJson j = canonicalJson (JArr (map actionJson as))" and "j \<noteq> JUndefined"
proof -
  from assms obtain xs where j: "j = JArr xs" and m: "mapR eventAction (enumerate 0 xs) = Inr as"
    by (auto simp: eventActions_def split: json.splits)
  have "mapR canonicalJson xs = mapR canonicalJson (map actionJson as)"
  proof (rule mapR_list_all2_cong)
    show "list_all2 (\<lambda>x y. canonicalJson x = canonicalJson y) xs (map actionJson as)"
      using mapR_Inr_length [OF m] mapR_Inr_nth [OF m] action_read
      by (auto simp: list_all2_conv_all_nth nth_enumerate_eq)
  qed simp
  then show "canonicalJson j = canonicalJson (JArr (map actionJson as))" by (simp add: j)
  show "j \<noteq> JUndefined" by (simp add: j)
qed

lemma actions_accepted: "eventActions (JArr (map actionJson as)) = Inr as"
proof -
  have "mapR eventAction (enumerate n (map actionJson as)) = Inr as" for n
    by (induction as arbitrary: n) (simp_all add: action_accepted)
  then show ?thesis by (simp add: eventActions_def)
qed

text \<open>The event a state gives.\<close>

definition eventOk :: "alert_event \<Rightarrow> bool" where
  "eventOk e \<longleftrightarrow> isHex64 (evAlertIdHex e) \<and> isHex64 (evConditionDigestHex e) \<and> pred_option isHex64 (evPreviousAlertIdHex e)
     \<and> isNonnegSafe (evOpenedAtMs e) \<and> inOrder (evReasons e)
     \<and> (\<exists>kind status. evTransition e = JStr (transitionName kind) \<and> evOverall e = JStr (statusName status)
          \<and> status \<in> {Healthy, Degraded, Held} \<and> (status = Healthy \<longleftrightarrow> evReasons e = [])
          \<and> (kind = Recovered \<longleftrightarrow> evReasons e = []) \<and> (evPreviousAlertIdHex e = None \<longrightarrow> kind = Raised))
     \<and> evRecoveryActions e = recoveryActionsForReasons (evReasons e)"

lemma eventReasons_iff:
  "eventReasons j = Inr rs \<longleftrightarrow> j = JArr (map (\<lambda>r. JStr (reasonName r)) rs) \<and> inOrder rs"
  by (cases j) (auto simp: eventReasons_def andThen_Inr_iff mapR_reasonOf reasons_iff)

lemma canonicalHex32_iff: "canonicalHex32 j l = Inr h \<longleftrightarrow> j = JStr h \<and> isHex64 h"
  by (cases j) (auto simp: canonicalHex32_def result_simps)

lemma safeNumber_iff: "safeNumber j l = Inr n \<longleftrightarrow> j = JNum n \<and> isNonnegSafe n"
  by (cases j) (auto simp: safeNumber_def alertNonnegative_iff)

lemma previousHex_iff:
  "(if j = JNull then Inr None else andThen (canonicalHex32 j l) (\<lambda>p. Inr (Some p))) = Inr previous \<longleftrightarrow>
     j = jsonOptional previous \<and> pred_option isHex64 previous"
  by (cases previous) (auto simp: jsonOptional_def andThen_Inr_iff canonicalHex32_iff)

lemma normalizeEvent_iff:
  "normalizeOperatorAlertEvent j = Inr e \<longleftrightarrow> (\<exists>ms t actions. j = JObj ms \<and> sort (map fst ms) = sort EVENT_FIELDS
     \<and> field ms ''schema'' = JStr OPERATOR_ALERT_EVENT_SCHEMA \<and> field ms ''profileId'' = JStr OPERATOR_ALERT_PROFILE_ID
     \<and> field ms ''profileVersion'' = JNum 1
     \<and> field ms ''alertIdHex'' = JStr (evAlertIdHex e) \<and> isHex64 (evAlertIdHex e)
     \<and> field ms ''conditionDigestHex'' = JStr (evConditionDigestHex e) \<and> isHex64 (evConditionDigestHex e)
     \<and> field ms ''previousAlertIdHex'' = jsonOptional (evPreviousAlertIdHex e) \<and> pred_option isHex64 (evPreviousAlertIdHex e)
     \<and> field ms ''openedAtMs'' = JNum (evOpenedAtMs e) \<and> isNonnegSafe (evOpenedAtMs e)
     \<and> field ms ''transition'' = evTransition e \<and> jsString (evTransition e) \<in> {''raised'', ''updated'', ''recovered''}
     \<and> field ms ''overall'' = evOverall e \<and> jsString (evOverall e) \<in> {''healthy'', ''degraded'', ''held''}
     \<and> field ms ''reasons'' = JArr (map (\<lambda>r. JStr (reasonName r)) (evReasons e)) \<and> inOrder (evReasons e)
     \<and> (evOverall e = JStr ''healthy'' \<longleftrightarrow> evReasons e = []) \<and> (evTransition e = JStr ''recovered'' \<longleftrightarrow> evReasons e = [])
     \<and> (evPreviousAlertIdHex e = None \<longrightarrow> evTransition e = JStr ''raised'')
     \<and> evRecoveryActions e = recoveryActionsForReasons (evReasons e)
     \<and> eventActions (field ms ''recoveryActions'') = Inr actions
     \<and> canonicalJson (JArr (map actionJson actions)) = Inr t
     \<and> canonicalJson (JArr (map actionJson (evRecoveryActions e))) = Inr t
     \<and> assertAllFalseCapabilities (field ms ''capabilities'') ''operator alert event'' = Inr ())"
  unfolding normalizeOperatorAlertEvent_def Let_def andThen_Inr_iff require_Inr_iff exactObject_iff canonicalHex32_iff
    safeNumber_iff eventReasons_iff previousHex_iff alertCanonical_iff
  by (cases e) (auto simp del: canonicalJson.simps)

lemma event_accepted:
  assumes "isHex64 (evAlertIdHex e)" "isHex64 (evConditionDigestHex e)" "pred_option isHex64 (evPreviousAlertIdHex e)"
    "isNonnegSafe (evOpenedAtMs e)" "inOrder (evReasons e)"
    "jsString (evTransition e) \<in> {''raised'', ''updated'', ''recovered''}" "jsString (evOverall e) \<in> {''healthy'', ''degraded'', ''held''}"
    "evOverall e = JStr ''healthy'' \<longleftrightarrow> evReasons e = []" "evTransition e = JStr ''recovered'' \<longleftrightarrow> evReasons e = []"
    "evPreviousAlertIdHex e = None \<longrightarrow> evTransition e = JStr ''raised''"
    "evRecoveryActions e = recoveryActionsForReasons (evReasons e)"
  shows "normalizeOperatorAlertEvent (eventJson e) = Inr e"
proof -
  obtain ms where ms: "eventJson e = JObj ms" and names: "map fst ms = EVENT_FIELDS"
    by (simp add: eventJson_def EVENT_FIELDS_def)
  have fields: "field ms ''schema'' = JStr OPERATOR_ALERT_EVENT_SCHEMA" "field ms ''profileId'' = JStr OPERATOR_ALERT_PROFILE_ID"
    "field ms ''profileVersion'' = JNum 1" "field ms ''alertIdHex'' = JStr (evAlertIdHex e)"
    "field ms ''openedAtMs'' = JNum (evOpenedAtMs e)" "field ms ''transition'' = evTransition e"
    "field ms ''conditionDigestHex'' = JStr (evConditionDigestHex e)"
    "field ms ''previousAlertIdHex'' = jsonOptional (evPreviousAlertIdHex e)" "field ms ''overall'' = evOverall e"
    "field ms ''reasons'' = JArr (map (\<lambda>r. JStr (reasonName r)) (evReasons e))"
    "field ms ''recoveryActions'' = JArr (map actionJson (evRecoveryActions e))"
    "field ms ''capabilities'' = NO_ACTION_CAPABILITIES"
    using ms by (auto simp: eventJson_def field_def)
  obtain t where t: "canonicalJson (JArr (map actionJson (evRecoveryActions e))) = Inr t"
    using canonicalJson_array_ok [of "map actionJson (evRecoveryActions e)"] action_ok by (auto simp: isOk_iff)
  show ?thesis
    unfolding normalizeEvent_iff
    using assms ms names fields t actions_accepted [of "evRecoveryActions e"]
      capabilities_accepted [of "''operator alert event''"]
    by (intro exI [of _ ms] exI [of _ t] exI [of _ "evRecoveryActions e"])
      (simp del: canonicalJson.simps insert_iff)
qed

lemma eventOk_accepted:
  assumes "eventOk e"
  shows "normalizeOperatorAlertEvent (eventJson e) = Inr e"
proof -
  from assms obtain kind status where kind: "evTransition e = JStr (transitionName kind)"
    and status: "evOverall e = JStr (statusName status)" "status \<in> {Healthy, Degraded, Held}"
    and agree: "status = Healthy \<longleftrightarrow> evReasons e = []" "kind = Recovered \<longleftrightarrow> evReasons e = []"
      "evPreviousAlertIdHex e = None \<longrightarrow> kind = Raised"
    unfolding eventOk_def by (elim exE conjE) (rule that; assumption)
  have "jsString (evTransition e) \<in> {''raised'', ''updated'', ''recovered''}"
    "evTransition e = JStr ''recovered'' \<longleftrightarrow> evReasons e = []" "evPreviousAlertIdHex e = None \<longrightarrow> evTransition e = JStr ''raised''"
    using agree kind by (cases kind; simp)+
  moreover have "jsString (evOverall e) \<in> {''healthy'', ''degraded'', ''held''}" "evOverall e = JStr ''healthy'' \<longleftrightarrow> evReasons e = []"
    using agree status by (cases status; simp)+
  ultimately show ?thesis using assms unfolding eventOk_def by (intro event_accepted) simp_all
qed

lemma event_idem: "normalizeOperatorAlertEvent j = Inr e \<Longrightarrow> normalizeOperatorAlertEvent (eventJson e) = Inr e"
  unfolding normalizeEvent_iff [of j] by (elim exE conjE) (rule event_accepted)

text \<open>C24. The event normalizer is strict: an object it accepts has the same canonical text as the event it returns, so
  there is no second spelling of an event with another digest, no extra member and no other recovery action than the
  catalogue lists for the reasons.\<close>

theorem alertEvent_exact:
  assumes "normalizeOperatorAlertEvent j = Inr e"
  shows "canonicalJson j = canonicalJson (eventJson e) \<and> evRecoveryActions e = recoveryActionsForReasons (evReasons e)
    \<and> inOrder (evReasons e)"
proof -
  from assms obtain ms t actions where ms: "j = JObj ms" "sort (map fst ms) = sort EVENT_FIELDS"
    and acts: "eventActions (field ms ''recoveryActions'') = Inr actions" "canonicalJson (JArr (map actionJson actions)) = Inr t"
      "canonicalJson (JArr (map actionJson (evRecoveryActions e))) = Inr t"
    and caps: "assertAllFalseCapabilities (field ms ''capabilities'') ''operator alert event'' = Inr ()"
    and same: "field ms ''schema'' = JStr OPERATOR_ALERT_EVENT_SCHEMA" "field ms ''profileId'' = JStr OPERATOR_ALERT_PROFILE_ID"
      "field ms ''profileVersion'' = JNum 1" "field ms ''alertIdHex'' = JStr (evAlertIdHex e)"
      "field ms ''openedAtMs'' = JNum (evOpenedAtMs e)" "field ms ''transition'' = evTransition e"
      "field ms ''conditionDigestHex'' = JStr (evConditionDigestHex e)"
      "field ms ''previousAlertIdHex'' = jsonOptional (evPreviousAlertIdHex e)" "field ms ''overall'' = evOverall e"
      "field ms ''reasons'' = JArr (map (\<lambda>r. JStr (reasonName r)) (evReasons e))"
    and rest: "evRecoveryActions e = recoveryActionsForReasons (evReasons e)" "inOrder (evReasons e)"
    unfolding normalizeEvent_iff by (elim exE conjE) (rule that; assumption)
  note keys = sort_keys [OF ms(2) distinct_fields(3)]
  have texts: "canonicalJson (field ms ''recoveryActions'') = canonicalJson (JArr (map actionJson (evRecoveryActions e)))"
    "field ms ''recoveryActions'' \<noteq> JUndefined"
    "canonicalJson (field ms ''capabilities'') = canonicalJson NO_ACTION_CAPABILITIES" "field ms ''capabilities'' \<noteq> JUndefined"
    using actions_read [OF acts(1)] acts(2,3) capabilities_text [OF caps] by simp_all
  have "canonicalJson j = canonicalJson (JObj (map (\<lambda>k. (k, field ms k)) EVENT_FIELDS))"
    unfolding ms(1) using keys(1,4) by (rule canonicalJson_key_order)
  also have "\<dots> = canonicalJson (eventJson e)"
    unfolding eventJson_def
    by (rule sameText_object) (use same texts in \<open>simp add: EVENT_FIELDS_def sameText_def NO_ACTION_CAPABILITIES_def del: canonicalJson.simps\<close>)
  finally show ?thesis using rest by blast
qed


section \<open>Witnesses\<close>

definition demoAlertHex :: string where
  "demoAlertHex = replicate 64 (CHR ''a'')"

lemma demoAlertHex_ok: "isHex64 demoAlertHex"
  unfolding demoAlertHex_def by (rule isHex64_replicate) code_simp

definition demoEvent :: alert_event where
  "demoEvent = \<lparr> evAlertIdHex = demoAlertHex, evOpenedAtMs = 1000, evTransition = JStr ''raised'',
     evConditionDigestHex = demoAlertHex, evPreviousAlertIdHex = None, evOverall = JStr ''held'',
     evReasons = [signer_unavailable, read_quorum_held],
     evRecoveryActions = [TriageSettlement, ClassifyOperatorIncident, ReconcileSourceHistory] \<rparr>"

lemma demoEvent_accepted: "normalizeOperatorAlertEvent (eventJson demoEvent) = Inr demoEvent"
proof (rule event_accepted)
  show "inOrder (evReasons demoEvent)" by code_simp
  show "evRecoveryActions demoEvent = recoveryActionsForReasons (evReasons demoEvent)" by code_simp
qed (simp_all add: demoEvent_def demoAlertHex_ok safe_defs)

theorem alertEvent_exact_witness:
  "recoveryActionsForReasons [signer_unavailable, read_quorum_held]
     = [TriageSettlement, ClassifyOperatorIncident, ReconcileSourceHistory]"
  using alertEvent_exact [OF demoEvent_accepted] by (simp add: demoEvent_def)

text \<open>The normalizer compares \<^verbatim>\<open>String(record.transition)\<close> with the allowed names and keeps the value itself, so
  an array that holds the name is accepted where a string is meant.\<close>

definition demoArrayEvent :: alert_event where
  "demoArrayEvent = demoEvent \<lparr> evTransition := JArr [JStr ''updated''], evPreviousAlertIdHex := Some demoAlertHex \<rparr>"

theorem array_transition_accepted:
  "normalizeOperatorAlertEvent (eventJson demoArrayEvent) = Inr demoArrayEvent \<and> evTransition demoArrayEvent \<noteq> JStr s"
proof
  show "normalizeOperatorAlertEvent (eventJson demoArrayEvent) = Inr demoArrayEvent"
  proof (rule event_accepted)
    show "inOrder (evReasons demoArrayEvent)" by code_simp
    show "evRecoveryActions demoArrayEvent = recoveryActionsForReasons (evReasons demoArrayEvent)" by code_simp
  qed (simp_all add: demoArrayEvent_def demoEvent_def demoAlertHex_ok safe_defs)
qed (simp add: demoArrayEvent_def)

end
