(* ===== verification/Alert_Delivery.thy ===== *)
theory Alert_Delivery
  imports Alert_Event Port_Run
begin

text \<open>
  The alert delivery cycle (second half of \<^verbatim>\<open>relayer-core/operator-alert-delivery.ts\<close>): the condition digest
  of a health projection, the transitions of the durable state, and the cycle that reads the state, reconciles it
  with the projection, claims an attempt, delivers it and records the outcome.

  The state store and the delivery sink are ports; the run keeps every call with its answer. A delivery answer that
  is neither of the two supported shapes is \<open>RawUnsupported\<close>.
\<close>

section \<open>The condition of a projection\<close>

fun quorumStateName :: "quorum_state \<Rightarrow> string" where
  "quorumStateName Open = ''open''"
| "quorumStateName HalfOpen = ''half_open''"
| "quorumStateName Closed = ''closed''"

fun signerName :: "signer_state \<Rightarrow> string" where
  "signerName SignerAvailable = ''available''"
| "signerName SignerUnavailable = ''unavailable''"
| "signerName SignerNotConfigured = ''not_configured''"

fun continuityName :: "continuity_status \<Rightarrow> string" where
  "continuityName Established = ''established''"
| "continuityName RecoveryRequired = ''recovery_required''"

fun solvencyName :: "solvency_state \<Rightarrow> string" where
  "solvencyName SolvencyNotObserved = ''not_observed''"
| "solvencyName SolvencyClear = ''clear''"
| "solvencyName SolvencyDeficit = ''deficit''"
| "solvencyName SolvencyUnavailable = ''unavailable''"

fun persistenceName :: "persistence_status \<Rightarrow> string" where
  "persistenceName PersistenceAvailable = ''available''"
| "persistenceName PersistenceUnavailable = ''unavailable''"

definition jsonNumber :: "int option \<Rightarrow> json" where
  "jsonNumber n = (case n of None \<Rightarrow> JNull | Some v \<Rightarrow> JNum v)"

definition jsonFlag :: "bool option \<Rightarrow> json" where
  "jsonFlag b = (case b of None \<Rightarrow> JNull | Some v \<Rightarrow> JBool v)"

record alert_condition =
  cdActive :: bool
  cdOverall :: health_status
  cdReasons :: "health_reason list"
  cdDigestHex :: string

text \<open>The part of a projection that identifies its condition: no ages, no heights, no lags.\<close>

definition stableState :: "alert_profile \<Rightarrow> health_projection \<Rightarrow> health_reason list \<Rightarrow> json" where
  "stableState profile p rs = JObj
     [(''profile'', JObj
        [(''schema'', JStr (profileSchema profile)), (''profileId'', JStr (profileId profile)),
         (''version'', JNum (profileVersion profile)),
         (''recoveryActionCatalogVersion'', JNum (recoveryActionCatalogVersion profile))]),
      (''healthSchema'', JStr (pjSchema p)),
      (''overall'', JStr (statusName (pjOverall p))),
      (''reasons'', JArr (map (\<lambda>r. JStr (reasonName r)) rs)),
      (''signals'', JObj
        [(''signer'', JObj [(''status'', JStr (statusName (sgStatus (pjSigner p)))),
            (''availability'', JStr (signerName (sgAvailability (pjSigner p))))]),
         (''readQuorum'', JObj [(''status'', JStr (statusName (rqStatus (pjReadQuorum p)))),
            (''state'', JStr (quorumStateName (rqState (pjReadQuorum p)))),
            (''consecutiveFailures'', JNum (rqConsecutiveFailures (pjReadQuorum p))),
            (''lastFailureCode'', jsonOptional (map_option failureCodeName (rqLastFailureCode (pjReadQuorum p))))]),
         (''fundsRelease'', JObj [(''status'', JStr (statusName (frStatus (pjFundsRelease p)))),
            (''processHoldOpen'', JBool (frProcessHoldOpen (pjFundsRelease p))),
            (''durableHoldOpen'', JBool (frDurableHoldOpen (pjFundsRelease p))),
            (''incidentCount'', JNum (frIncidentCount (pjFundsRelease p))),
            (''continuityStatus'', JStr (continuityName (frContinuityStatus (pjFundsRelease p)))),
            (''externalContinuityWitnessCurrent'', JBool (frWitnessCurrent (pjFundsRelease p))),
            (''retainedExecutionAuthority'', JBool (frRetainedAuthority (pjFundsRelease p)))]),
         (''solvency'', JObj [(''status'', JStr (statusName (svStatus (pjSolvency p)))),
            (''observationState'', JStr (solvencyName (svObservationState (pjSolvency p)))),
            (''durableDeficitIncidentPresent'', jsonFlag (svDurableDeficit (pjSolvency p)))]),
         (''commitment'', JObj [(''status'', JStr (statusName (cmStatus (pjCommitment p)))),
            (''configured'', JBool (cmConfigured (pjCommitment p))), (''ready'', JBool (cmReady (pjCommitment p)))]),
         (''finality'', JObj [(''status'', JStr (statusName (fnStatus (pjFinality p))))]),
         (''reorg'', JObj [(''status'', JStr (statusName (rgStatus (pjReorg p)))),
            (''reconciliationPending'', JBool (rgReconciliationPending (pjReorg p))),
            (''quarantineConditionCount'', jsonNumber (rgQuarantineCount (pjReorg p)))]),
         (''settlement'', JObj [(''status'', JStr (statusName (stStatus (pjSettlement p)))),
            (''activeAttemptCount'', jsonNumber (stActiveAttemptCount (pjSettlement p))),
            (''stalled'', jsonFlag (stStalled (pjSettlement p)))]),
         (''persistence'', JObj [(''status'', JStr (persistenceName (pjPersistence p)))])])]"

definition operatorAlertConditionMaterial ::
    "(string \<Rightarrow> string) \<Rightarrow> health_projection \<Rightarrow> alert_profile \<Rightarrow> alert_error + alert_condition" where
  "operatorAlertConditionMaterial sha256 p profile =
     andThen (assertSupportedOperatorAlertProfile profile) (\<lambda>_.
     require (pjSchema p = OPERATOR_HEALTH_PROJECTION_SCHEMA) UnsupportedHealthProjection (
     require (List.member [Healthy, Degraded, Held] (pjOverall p)) UnsupportedAlertStatus (
     andThen (normalizeOperatorAlertReasons (pjReasons p)) (\<lambda>rs.
     let active = rs \<noteq> [] in
     require (\<not> ((pjOverall p = Healthy) \<noteq> (\<not> active))) HealthStatusAndReasonsDisagree (
     andThen (alertDigest sha256 (stableState profile p rs) OPERATOR_ALERT_CONDITION_DIGEST_DOMAIN) (\<lambda>digest.
     Inr \<lparr> cdActive = active, cdOverall = pjOverall p, cdReasons = rs, cdDigestHex = digest \<rparr>))))))"


section \<open>Transitions of the state\<close>

definition createPendingState :: "(string \<Rightarrow> string) \<Rightarrow> alert_profile \<Rightarrow> int \<Rightarrow> alert_transition \<Rightarrow> alert_condition \<Rightarrow> string
    \<Rightarrow> string option \<Rightarrow> int \<Rightarrow> alert_error + alert_state" where
  "createPendingState sha256 profile revNo kind condition cacheGen previous nowMs =
     andThen (alertNonnegative nowMs ''operator alert open time'') (\<lambda>opened.
     andThen (normalizeOperatorAlertReasons (cdReasons condition)) (\<lambda>rs.
     andThen (deriveOperatorAlertId sha256 profile kind (cdDigestHex condition) cacheGen opened (cdOverall condition) rs
                previous) (\<lambda>alertId.
     Inr \<lparr> stateSchema = OPERATOR_ALERT_DELIVERY_STATE_SCHEMA, stateProfileId = profileId profile,
           stateProfileVersion = profileVersion profile, revision = revNo, alertIdHex = alertId,
           conditionDigestHex = cdDigestHex condition, cacheGenerationHex = cacheGen, openedAtMs = opened,
           transition = kind, conditionActive = cdActive condition, overall = cdOverall condition, reasons = rs,
           previousAlertIdHex = previous, deliveryStatus = Pending, attemptCount = 0, claimedAtMs = None,
           leaseExpiresAtMs = None, nextAttemptAtMs = None, deliveredAtMs = None, lastFailureCode = None,
           updatedAtMs = opened \<rparr>)))"

definition incrementSafeInteger :: "int \<Rightarrow> string \<Rightarrow> alert_error + int" where
  "incrementSafeInteger value label = (let n = value + 1 in require (isSafeInteger n) (ExceedsSafeRange label) (Inr n))"

definition reconcileOperatorAlertState :: "(string \<Rightarrow> string) \<Rightarrow> health_projection \<Rightarrow> alert_profile \<Rightarrow> alert_state option
    \<Rightarrow> string \<Rightarrow> int \<Rightarrow> alert_error + alert_state option" where
  "reconcileOperatorAlertState sha256 p profile current cacheGen nowMs =
     andThen (operatorAlertConditionMaterial sha256 p profile) (\<lambda>condition.
     andThen (alertNonnegative nowMs ''operator alert time'') (\<lambda>now.
     case current of
       None \<Rightarrow>
         if \<not> cdActive condition then Inr None
         else andThen (createPendingState sha256 profile 1 Raised condition cacheGen None now) (\<lambda>s. Inr (Some s))
     | Some c \<Rightarrow>
         andThen (normalizeOperatorAlertDeliveryState sha256 c profile) (\<lambda>cur.
         require (cacheGenerationHex cur = cacheGen) OtherCacheGeneration (
         if conditionDigestHex cur = cdDigestHex condition then Inr (Some cur)
         else if deliveryStatus cur \<noteq> Delivered then Inr (Some cur)
         else if \<not> cdActive condition \<and> \<not> conditionActive cur then Inr (Some cur)
         else andThen (incrementSafeInteger (revision cur) ''operator alert state revision'') (\<lambda>rev.
              andThen (createPendingState sha256 profile rev
                 (if cdActive condition then (if conditionActive cur then Updated else Raised) else Recovered)
                 condition cacheGen (Some (alertIdHex cur)) now) (\<lambda>s. Inr (Some s)))))))"

text \<open>\<^verbatim>\<open>field !== null && nowMs < field\<close>\<close>

definition notYet :: "int option \<Rightarrow> int \<Rightarrow> bool" where
  "notYet t nowMs = (case t of None \<Rightarrow> False | Some v \<Rightarrow> nowMs < v)"

definition claimOperatorAlertAttempt ::
    "(string \<Rightarrow> string) \<Rightarrow> alert_state \<Rightarrow> alert_profile \<Rightarrow> int \<Rightarrow> alert_error + alert_state option" where
  "claimOperatorAlertAttempt sha256 s0 profile nowMs =
     andThen (normalizeOperatorAlertDeliveryState sha256 s0 profile) (\<lambda>s.
     andThen (alertNonnegative nowMs ''operator alert time'') (\<lambda>now.
     if deliveryStatus s = Delivered then Inr None
     else if deliveryStatus s = RetryWait \<and> notYet (nextAttemptAtMs s) now then Inr None
     else if deliveryStatus s = Delivering \<and> notYet (leaseExpiresAtMs s) now then Inr None
     else
       let lease = now + attemptLeaseMs profile in
       require (isSafeInteger lease) (ExceedsSafeRange ''operator alert lease expiry'') (
       andThen (incrementSafeInteger (revision s) ''operator alert state revision'') (\<lambda>rev.
       andThen (incrementSafeInteger (attemptCount s) ''operator alert attempt count'') (\<lambda>attempts.
       Inr (Some (s \<lparr> revision := rev, deliveryStatus := Delivering, attemptCount := attempts, claimedAtMs := Some now,
              leaseExpiresAtMs := Some lease, nextAttemptAtMs := None, deliveredAtMs := None, lastFailureCode := None,
              updatedAtMs := now \<rparr>)))))))"

datatype delivery_result = ResultDelivered | ResultRetryable delivery_failure

definition finishOperatorAlertAttempt ::
    "(string \<Rightarrow> string) \<Rightarrow> alert_state \<Rightarrow> alert_profile \<Rightarrow> int \<Rightarrow> delivery_result \<Rightarrow> alert_error + alert_state" where
  "finishOperatorAlertAttempt sha256 s0 profile nowMs result =
     andThen (normalizeOperatorAlertDeliveryState sha256 s0 profile) (\<lambda>s.
     andThen (alertNonnegative nowMs ''operator alert time'') (\<lambda>now.
     require (deliveryStatus s = Delivering) AttemptNotClaimed (
     case result of
       ResultDelivered \<Rightarrow>
         andThen (incrementSafeInteger (revision s) ''operator alert state revision'') (\<lambda>rev.
         Inr (s \<lparr> revision := rev, deliveryStatus := Delivered, claimedAtMs := None, leaseExpiresAtMs := None,
                 nextAttemptAtMs := None, deliveredAtMs := Some now, lastFailureCode := None, updatedAtMs := now \<rparr>))
     | ResultRetryable failure \<Rightarrow>
         let nextAt = now + retryDelayMs profile in
         require (isSafeInteger nextAt) (ExceedsSafeRange ''operator alert retry time'') (
         andThen (incrementSafeInteger (revision s) ''operator alert state revision'') (\<lambda>rev.
         Inr (s \<lparr> revision := rev, deliveryStatus := RetryWait, claimedAtMs := None, leaseExpiresAtMs := None,
                 nextAttemptAtMs := Some nextAt, deliveredAtMs := None, lastFailureCode := Some failure,
                 updatedAtMs := now \<rparr>))))))"

definition operatorAlertEventForState ::
    "(string \<Rightarrow> string) \<Rightarrow> alert_state \<Rightarrow> alert_profile \<Rightarrow> alert_error + alert_event" where
  "operatorAlertEventForState sha256 s0 profile =
     andThen (normalizeOperatorAlertDeliveryState sha256 s0 profile) (\<lambda>s.
     Inr \<lparr> evAlertIdHex = alertIdHex s, evOpenedAtMs = openedAtMs s, evTransition = JStr (transitionName (transition s)),
           evConditionDigestHex = conditionDigestHex s, evPreviousAlertIdHex = previousAlertIdHex s,
           evOverall = JStr (statusName (overall s)), evReasons = reasons s,
           evRecoveryActions = recoveryActionsForReasons (reasons s) \<rparr>)"


section \<open>The delivery cycle\<close>

datatype alert_read = ReadUnavailable | ReadAvailable string "alert_state option"

datatype cas_result = CasStored | CasConflict | CasUnavailable

datatype raw_delivery = RawDelivered | RawRetryable delivery_failure | RawUnsupported

datatype cycle_outcome =
    Idle | Deduplicated | InFlight | RetryWaiting | DeliveredNow | RetryScheduled | PersistenceFailed | StateConflict

datatype alert_call =
    ReadCall string "string + alert_read"
  | CasCall "int option" alert_state "string + cas_result"
  | DeliverCall alert_event "string + raw_delivery"

record 'w alert_ports =
  readPort :: "string \<Rightarrow> ('w, alert_read) port"
  casPort :: "int option \<Rightarrow> alert_state \<Rightarrow> ('w, cas_result) port"
  deliverPort :: "alert_event \<Rightarrow> ('w, raw_delivery) port"

type_synonym ('w, 'a) alert_action = "(('w, alert_call) port_run, alert_error, 'a) action"

definition compareAndSet :: "'w alert_ports \<Rightarrow> int option \<Rightarrow> alert_state \<Rightarrow> ('w, cas_result) alert_action" where
  "compareAndSet ports expected s = portAction AlertPortThrew (CasCall expected s) (casPort ports expected s)"

text \<open>\<^verbatim>\<open>deliver\<close> inside its \<^verbatim>\<open>try\<close>: a throw and an unsupported answer are retryable failures.\<close>

definition attemptDelivery :: "'w alert_ports \<Rightarrow> alert_event \<Rightarrow> ('w, delivery_result) alert_action" where
  "attemptDelivery ports event = tryA
     (bindA (portAction AlertPortThrew (DeliverCall event) (deliverPort ports event)) (\<lambda>answer. returnA (case answer of
         RawDelivered \<Rightarrow> ResultDelivered
       | RawRetryable failure \<Rightarrow> ResultRetryable failure
       | RawUnsupported \<Rightarrow> ResultRetryable delivery_unexpected_failure)))
     (\<lambda>_. returnA (ResultRetryable delivery_unexpected_failure))"

definition finishStage :: "(string \<Rightarrow> string) \<Rightarrow> 'w alert_ports \<Rightarrow> alert_profile \<Rightarrow> int \<Rightarrow> alert_state
    \<Rightarrow> ('w, cycle_outcome) alert_action" where
  "finishStage sha256 ports profile now claimed =
     bindA (liftA (operatorAlertEventForState sha256 claimed profile)) (\<lambda>event.
     bindA (attemptDelivery ports event) (\<lambda>result.
     bindA (liftA (finishOperatorAlertAttempt sha256 claimed profile now result)) (\<lambda>finished.
     bindA (compareAndSet ports (Some (revision claimed)) finished) (\<lambda>stored.
     returnA (case stored of
         CasUnavailable \<Rightarrow> PersistenceFailed
       | CasConflict \<Rightarrow> StateConflict
       | CasStored \<Rightarrow> if result = ResultDelivered then DeliveredNow else RetryScheduled)))))"

definition claimStage :: "(string \<Rightarrow> string) \<Rightarrow> 'w alert_ports \<Rightarrow> alert_profile \<Rightarrow> int \<Rightarrow> alert_state
    \<Rightarrow> ('w, cycle_outcome) alert_action" where
  "claimStage sha256 ports profile now stored =
     (if deliveryStatus stored = Delivered then returnA Deduplicated
      else if deliveryStatus stored = RetryWait \<and> notYet (nextAttemptAtMs stored) now then returnA RetryWaiting
      else if deliveryStatus stored = Delivering \<and> notYet (leaseExpiresAtMs stored) now then returnA InFlight
      else bindA (liftA (claimOperatorAlertAttempt sha256 stored profile now)) (\<lambda>attempt. case attempt of
          None \<Rightarrow> returnA Deduplicated
        | Some claimed \<Rightarrow>
            bindA (compareAndSet ports (Some (revision stored)) claimed) (\<lambda>result. case result of
                CasUnavailable \<Rightarrow> returnA PersistenceFailed
              | CasConflict \<Rightarrow> returnA StateConflict
              | CasStored \<Rightarrow> finishStage sha256 ports profile now claimed)))"

definition reconcileStage :: "(string \<Rightarrow> string) \<Rightarrow> 'w alert_ports \<Rightarrow> alert_profile \<Rightarrow> health_projection \<Rightarrow> int \<Rightarrow> string
    \<Rightarrow> alert_state option \<Rightarrow> ('w, cycle_outcome) alert_action" where
  "reconcileStage sha256 ports profile p now cacheGen current =
     bindA (liftA (reconcileOperatorAlertState sha256 p profile current cacheGen now)) (\<lambda>answer. case answer of
         None \<Rightarrow> returnA Idle
       | Some reconciled \<Rightarrow>
           if current = None \<or> revision reconciled \<noteq> revision (the current)
           then bindA (compareAndSet ports (map_option revision current) reconciled) (\<lambda>result. case result of
               CasUnavailable \<Rightarrow> returnA PersistenceFailed
             | CasConflict \<Rightarrow> returnA StateConflict
             | CasStored \<Rightarrow> claimStage sha256 ports profile now reconciled)
           else claimStage sha256 ports profile now (the current))"

definition runOperatorAlertDeliveryCycle :: "(string \<Rightarrow> string) \<Rightarrow> 'w alert_ports \<Rightarrow> alert_profile \<Rightarrow> health_projection \<Rightarrow> int
    \<Rightarrow> ('w, cycle_outcome) alert_action" where
  "runOperatorAlertDeliveryCycle sha256 ports profile p nowMs =
     bindA (liftA (assertSupportedOperatorAlertProfile profile)) (\<lambda>_.
     bindA (liftA (alertNonnegative nowMs ''operator alert time'')) (\<lambda>now.
     bindA (portAction AlertPortThrew (ReadCall (profileId profile)) (readPort ports (profileId profile))) (\<lambda>answer.
     case answer of
       ReadUnavailable \<Rightarrow> returnA PersistenceFailed
     | ReadAvailable cacheGen found \<Rightarrow>
         bindA (liftA (case found of None \<Rightarrow> Inr None
                  | Some s \<Rightarrow> andThen (normalizeOperatorAlertDeliveryState sha256 s profile) (\<lambda>n. Inr (Some n)))) (\<lambda>current.
         reconcileStage sha256 ports profile p now cacheGen current))))"


section \<open>The state machine of an alert\<close>

text \<open>\<open>sha256\<close> returns 64 lower-case hexadecimal digits.\<close>

definition hexDigest :: "(string \<Rightarrow> string) \<Rightarrow> bool" where
  "hexDigest sha256 \<longleftrightarrow> (\<forall>t. isHex64 (sha256 t))"

definition due :: "int \<Rightarrow> alert_state \<Rightarrow> bool" where
  "due now s = (case deliveryStatus s of
       Pending \<Rightarrow> True
     | Delivering \<Rightarrow> \<not> notYet (leaseExpiresAtMs s) now
     | RetryWait \<Rightarrow> \<not> notYet (nextAttemptAtMs s) now
     | Delivered \<Rightarrow> False)"

definition freshPending :: "(string \<Rightarrow> string) \<Rightarrow> int \<Rightarrow> alert_state \<Rightarrow> bool" where
  "freshPending sha256 now s \<longleftrightarrow> deliveryStatus s = Pending \<and> metadataOk s \<and> openedAtMs s = now \<and> updatedAtMs s = now
     \<and> stateSchema s = OPERATOR_ALERT_DELIVERY_STATE_SCHEMA
     \<and> stateProfileId s = OPERATOR_ALERT_PROFILE_ID \<and> stateProfileVersion s = 1
     \<and> inOrder (reasons s) \<and> conditionActive s = (reasons s \<noteq> []) \<and> overall s \<in> {Healthy, Degraded, Held}
     \<and> (overall s = Healthy \<longleftrightarrow> reasons s = [])
     \<and> deriveOperatorAlertId sha256 BRIDGE_DAEMON_OPERATOR_ALERT_PROFILE_V1 (transition s) (conditionDigestHex s)
         (cacheGenerationHex s) now (overall s) (reasons s) (previousAlertIdHex s) = Inr (alertIdHex s)"

text \<open>The alert \<open>k\<close> may be opened when \<open>current\<close> is recorded: the first one, or one for a new condition after the
  recorded alert was delivered.\<close>

inductive opens :: "(string \<Rightarrow> string) \<Rightarrow> int \<Rightarrow> alert_state option \<Rightarrow> alert_state \<Rightarrow> bool" for sha256 now where
  raise: "freshPending sha256 now s \<Longrightarrow> revision s = 1 \<Longrightarrow> transition s = Raised \<Longrightarrow> reasons s \<noteq> []
      \<Longrightarrow> previousAlertIdHex s = None \<Longrightarrow> opens sha256 now None s"
| replace: "deliveryStatus c = Delivered \<Longrightarrow> conditionDigestHex s \<noteq> conditionDigestHex c
      \<Longrightarrow> cacheGenerationHex s = cacheGenerationHex c \<Longrightarrow> freshPending sha256 now s
      \<Longrightarrow> revision s = revision c + 1 \<Longrightarrow> previousAlertIdHex s = Some (alertIdHex c)
      \<Longrightarrow> reasons s \<noteq> [] \<or> conditionActive c
      \<Longrightarrow> transition s = (if reasons s \<noteq> [] then (if conditionActive c then Updated else Raised) else Recovered)
      \<Longrightarrow> opens sha256 now (Some c) s"

text \<open>The claim of an attempt at an alert, and the record of what the sink answered to it.\<close>

definition claimedFrom :: "int \<Rightarrow> alert_state \<Rightarrow> alert_state" where
  "claimedFrom now c = c \<lparr> revision := revision c + 1, deliveryStatus := Delivering, attemptCount := attemptCount c + 1,
     claimedAtMs := Some now, leaseExpiresAtMs := Some (now + 15000), nextAttemptAtMs := None, deliveredAtMs := None,
     lastFailureCode := None, updatedAtMs := now \<rparr>"

definition resultOf :: "string + raw_delivery \<Rightarrow> delivery_result" where
  "resultOf a = (case a of Inr RawDelivered \<Rightarrow> ResultDelivered | Inr (RawRetryable failure) \<Rightarrow> ResultRetryable failure
     | _ \<Rightarrow> ResultRetryable delivery_unexpected_failure)"

definition recordOf :: "int \<Rightarrow> alert_state \<Rightarrow> delivery_result \<Rightarrow> alert_state" where
  "recordOf now c r = (case r of
       ResultDelivered \<Rightarrow> c \<lparr> revision := revision c + 1, deliveryStatus := Delivered, claimedAtMs := None, leaseExpiresAtMs := None,
         nextAttemptAtMs := None, deliveredAtMs := Some now, lastFailureCode := None, updatedAtMs := now \<rparr>
     | ResultRetryable failure \<Rightarrow> c \<lparr> revision := revision c + 1, deliveryStatus := RetryWait, claimedAtMs := None,
         leaseExpiresAtMs := None, nextAttemptAtMs := Some (now + 30000), deliveredAtMs := None,
         lastFailureCode := Some failure, updatedAtMs := now \<rparr>)"

lemma claimedFrom_simps [simp]: "revision (claimedFrom now c) = revision c + 1" "deliveryStatus (claimedFrom now c) = Delivering"
  "claimedAtMs (claimedFrom now c) = Some now" "reasons (claimedFrom now c) = reasons c" "overall (claimedFrom now c) = overall c"
  "transition (claimedFrom now c) = transition c"
  by (simp_all add: claimedFrom_def)

lemma incrementSafeInteger_iff: "incrementSafeInteger v l = Inr n \<longleftrightarrow> isSafeInteger (v + 1) \<and> n = v + 1"
  by (auto simp: incrementSafeInteger_def result_simps Let_def)

lemma alertDigest_iff:
  "alertDigest sha256 j d = Inr x \<longleftrightarrow> (\<exists>t. canonicalJson j = Inr t \<and> x = sha256 (d @ CHR 0x00 # t))"
  by (auto simp: alertDigest_def sha256CanonicalJson_def result_simps andThen_Inl_iff split: sum.splits)

lemma hexDigest_alertDigest: "hexDigest sha256 \<Longrightarrow> alertDigest sha256 j d = Inr x \<Longrightarrow> isHex64 x"
  by (auto simp: alertDigest_iff hexDigest_def)

lemma hexDigest_id: "hexDigest sha256 \<Longrightarrow> deriveOperatorAlertId sha256 p k d g t st rs pr = Inr x \<Longrightarrow> isHex64 x"
  unfolding deriveOperatorAlertId_def by (rule hexDigest_alertDigest)

lemma condition_iff:
  "operatorAlertConditionMaterial sha256 p profile = Inr c \<Longrightarrow> profile = BRIDGE_DAEMON_OPERATOR_ALERT_PROFILE_V1
     \<and> inOrder (cdReasons c) \<and> cdActive c = (cdReasons c \<noteq> []) \<and> cdReasons c = pjReasons p
     \<and> cdOverall c = pjOverall p \<and> cdOverall c \<in> {Healthy, Degraded, Held} \<and> (cdOverall c = Healthy \<longleftrightarrow> cdReasons c = [])
     \<and> alertDigest sha256 (stableState profile p (pjReasons p)) OPERATOR_ALERT_CONDITION_DIGEST_DOMAIN = Inr (cdDigestHex c)"
  by (auto simp: operatorAlertConditionMaterial_def result_simps profileOk_iff reasons_iff Let_def)

lemma createPending_eq:
  assumes "operatorAlertConditionMaterial sha256 p profile = Inr c"
    and "createPendingState sha256 profile n kind c g previous now = Inr s"
  shows "freshPending sha256 now s \<and> revision s = n \<and> transition s = kind \<and> reasons s = cdReasons c
     \<and> conditionDigestHex s = cdDigestHex c \<and> cacheGenerationHex s = g \<and> previousAlertIdHex s = previous
     \<and> isNonnegSafe now"
  using assms(2) condition_iff [OF assms(1)]
  by (auto simp: createPendingState_def result_simps alertNonnegative_iff reasons_iff freshPending_def metadataOk_def)

lemma reconcile_step:
  assumes "reconcileOperatorAlertState sha256 p profile current g now = Inr (Some s)"
  shows "current = Some s \<or> opens sha256 now current s \<and> current = None \<or>
     (\<exists>c. current = Some c \<and> opens sha256 now current s \<and> revision s \<noteq> revision c)"
proof (cases current)
  case None
  with assms obtain c where c: "operatorAlertConditionMaterial sha256 p profile = Inr c" "cdActive c"
    "createPendingState sha256 profile 1 Raised c g None now = Inr s"
    by (auto simp: reconcileOperatorAlertState_def result_simps alertNonnegative_iff split: if_splits)
  then have "opens sha256 now None s"
    using createPending_eq [OF c(1,3)] condition_iff [OF c(1)] by (intro opens.raise) auto
  with None show ?thesis by simp
next
  case (Some cur)
  show ?thesis
  proof (cases "s = cur")
    case False
    with assms Some obtain c where c: "operatorAlertConditionMaterial sha256 p profile = Inr c"
      "createPendingState sha256 profile (revision cur + 1) (if cdActive c then (if conditionActive cur then Updated
          else Raised) else Recovered) c g (Some (alertIdHex cur)) now = Inr s"
      and guards: "cacheGenerationHex cur = g" "conditionDigestHex cur \<noteq> cdDigestHex c" "deliveryStatus cur = Delivered"
      "cdActive c \<or> conditionActive cur"
      by (auto simp: reconcileOperatorAlertState_def result_simps alertNonnegative_iff normalize_state_iff
          incrementSafeInteger_iff split: if_splits)
    then have "opens sha256 now (Some cur) s" and "revision s = revision cur + 1"
      using createPending_eq [OF c] condition_iff [OF c(1)] by (auto intro!: opens.replace)
    with Some show ?thesis by auto
  qed (use Some in simp)
qed

lemma claim_step:
  "claimOperatorAlertAttempt sha256 s profile now = Inr (Some s') \<Longrightarrow>
     due now s \<and> s' = claimedFrom now s \<and> profile = BRIDGE_DAEMON_OPERATOR_ALERT_PROFILE_V1"
  by (cases "deliveryStatus s") (auto simp: claimOperatorAlertAttempt_def result_simps alertNonnegative_iff normalize_state_iff
      incrementSafeInteger_iff Let_def due_def claimedFrom_def split: if_splits)

lemma finish_step: "finishOperatorAlertAttempt sha256 s profile now r = Inr s' \<Longrightarrow> s' = recordOf now s r"
  by (cases r) (auto simp: finishOperatorAlertAttempt_def result_simps alertNonnegative_iff normalize_state_iff
      incrementSafeInteger_iff Let_def recordOf_def)

text \<open>Every state an operation makes is one the validator accepts; a claim needs a clock that has not fallen behind the
  occurrence.\<close>

lemma incr_pos: "isNonnegSafe v \<Longrightarrow> isSafeInteger (v + 1) \<Longrightarrow> isNonnegSafe (v + 1) \<and> v + 1 \<noteq> 0"
  by (auto simp: isNonnegSafe_def)

lemma createPending_ok:
  assumes c: "operatorAlertConditionMaterial sha256 p profile = Inr c"
    and s: "createPendingState sha256 profile n kind c g previous now = Inr s"
    and hex: "hexDigest sha256" and g: "isHex64 g" and n: "isNonnegSafe n" "n \<noteq> 0"
    and prev: "pred_option isHex64 previous" "previous = None \<longrightarrow> kind = Raised"
    and kind: "kind = Recovered \<longleftrightarrow> cdReasons c = []"
  shows "alertStateOk sha256 s"
proof -
  note eq = createPending_eq [OF c s] and cond = condition_iff [OF c]
  have "isHex64 (alertIdHex s)" and "isHex64 (conditionDigestHex s)"
    using eq cond hexDigest_id [OF hex] hexDigest_alertDigest [OF hex] by (auto simp: freshPending_def)
  then have "occurrenceOk sha256 s" using eq cond g prev kind
    unfolding occurrenceOk_def freshPending_def by (elim conjE) (intro conjI, simp_all)
  then show ?thesis using eq n unfolding alertStateOk_def freshPending_def
    by (elim conjE) (simp add: metadataOk_def okOptional_def safe_defs)
qed

lemma occurrence_update [simp]:
  "occurrenceOk sha256 (s \<lparr> revision := n, deliveryStatus := st, attemptCount := k, claimedAtMs := c, leaseExpiresAtMs := l,
     nextAttemptAtMs := m, deliveredAtMs := d, lastFailureCode := f, updatedAtMs := u \<rparr>) = occurrenceOk sha256 s"
  "occurrenceOk sha256 (s \<lparr> revision := n, deliveryStatus := st, claimedAtMs := c, leaseExpiresAtMs := l,
     nextAttemptAtMs := m, deliveredAtMs := d, lastFailureCode := f, updatedAtMs := u \<rparr>) = occurrenceOk sha256 s"
  by (simp_all add: occurrenceOk_def)

lemma reconcile_ok:
  assumes "reconcileOperatorAlertState sha256 p profile current g now = Inr (Some s)"
    and hex: "hexDigest sha256" and g: "isHex64 g"
  shows "alertStateOk sha256 s" and "current = Some s \<or> openedAtMs s = now"
proof -
  from assms(1) obtain c where c: "operatorAlertConditionMaterial sha256 p profile = Inr c"
    and cases: "(current = None \<and> cdActive c \<and> createPendingState sha256 profile 1 Raised c g None now = Inr s)
      \<or> (\<exists>cur. current = Some cur \<and> alertStateOk sha256 cur \<and> (s = cur \<or> (cdActive c \<or> conditionActive cur)
          \<and> isSafeInteger (revision cur + 1)
          \<and> createPendingState sha256 profile (revision cur + 1) (if cdActive c then (if conditionActive cur then Updated
          else Raised) else Recovered) c g (Some (alertIdHex cur)) now = Inr s))"
    by (cases current) (auto simp: reconcileOperatorAlertState_def result_simps alertNonnegative_iff normalize_state_iff
        incrementSafeInteger_iff split: if_splits)
  note ok = createPending_ok [OF c _ hex g] and eq = createPending_eq [OF c] and cond = condition_iff [OF c]
  have one: "isNonnegSafe 1" by (simp add: safe_defs)
  have again: "alertStateOk sha256 s" if cur: "alertStateOk sha256 cur" "isSafeInteger (revision cur + 1)"
      "createPendingState sha256 profile (revision cur + 1) (if cdActive c then (if conditionActive cur then Updated
          else Raised) else Recovered) c g (Some (alertIdHex cur)) now = Inr s" for cur
  proof -
    have "isNonnegSafe (revision cur + 1)" "revision cur + 1 \<noteq> 0" "isHex64 (alertIdHex cur)"
      using cur incr_pos by (auto simp: alertStateOk_def occurrenceOk_def)
    then show ?thesis using ok [OF cur(3)] cond by simp
  qed
  from cases show "alertStateOk sha256 s"
    using again ok cond one by (elim disjE exE conjE) simp_all
  from cases show "current = Some s \<or> openedAtMs s = now"
    using eq by (auto simp: freshPending_def)
qed

lemma claim_ok:
  assumes "claimOperatorAlertAttempt sha256 s profile now = Inr (Some s')" and "openedAtMs s \<le> now"
  shows "alertStateOk sha256 s'"
proof -
  have "alertStateOk sha256 s" "isNonnegSafe now" "isSafeInteger (revision s + 1)" "isSafeInteger (attemptCount s + 1)"
    "isSafeInteger (now + 15000)" and s': "s' = s \<lparr> revision := revision s + 1, deliveryStatus := Delivering,
        attemptCount := attemptCount s + 1, claimedAtMs := Some now, leaseExpiresAtMs := Some (now + 15000),
        nextAttemptAtMs := None, deliveredAtMs := None, lastFailureCode := None, updatedAtMs := now \<rparr>"
    using assms(1) by (auto simp: claimOperatorAlertAttempt_def result_simps alertNonnegative_iff normalize_state_iff
        incrementSafeInteger_iff Let_def split: if_splits)
  then show ?thesis using assms(2) incr_pos [of "revision s"] incr_pos [of "attemptCount s"]
    unfolding s' alertStateOk_def by (simp add: metadataOk_def okOptional_def isNonnegSafe_def)
qed

lemma finish_ok:
  assumes "finishOperatorAlertAttempt sha256 s profile now r = Inr s'" and "claimedAtMs s = Some now"
  shows "alertStateOk sha256 s'"
proof -
  have s: "alertStateOk sha256 s" "isNonnegSafe now" "isSafeInteger (revision s + 1)" "deliveryStatus s = Delivering"
    and s': "s' = s \<lparr> revision := revision s + 1, deliveryStatus := Delivered, claimedAtMs := None, leaseExpiresAtMs := None,
        nextAttemptAtMs := None, deliveredAtMs := Some now, lastFailureCode := None, updatedAtMs := now \<rparr>
      \<or> (\<exists>failure. s' = s \<lparr> revision := revision s + 1, deliveryStatus := RetryWait, claimedAtMs := None, leaseExpiresAtMs := None,
        nextAttemptAtMs := Some (now + 30000), deliveredAtMs := None, lastFailureCode := Some failure,
        updatedAtMs := now \<rparr> \<and> isSafeInteger (now + 30000))"
    using assms(1) by (cases r; auto simp: finishOperatorAlertAttempt_def result_simps alertNonnegative_iff normalize_state_iff
        incrementSafeInteger_iff Let_def)+
  have "openedAtMs s \<le> now" "attemptCount s \<noteq> 0" using s assms(2) by (auto simp: alertStateOk_def metadataOk_def)
  with s s' show ?thesis using incr_pos [of "revision s"]
    unfolding alertStateOk_def by (elim disjE exE conjE) (simp_all add: metadataOk_def okOptional_def isNonnegSafe_def)
qed


section \<open>What a cycle does\<close>

text \<open>The calls of a cycle by stage. After the claim \<open>c\<close> was stored, its event is delivered once and the answer recorded
  under the revision of the claim; the record is missing only when none can be made of the claim.\<close>

inductive attemptTrace :: "(string \<Rightarrow> string) \<Rightarrow> int \<Rightarrow> alert_state \<Rightarrow> alert_call list \<Rightarrow> bool" for sha256 now c where
  no_event: "operatorAlertEventForState sha256 c BRIDGE_DAEMON_OPERATOR_ALERT_PROFILE_V1 = Inl e \<Longrightarrow> attemptTrace sha256 now c []"
| delivered: "operatorAlertEventForState sha256 c BRIDGE_DAEMON_OPERATOR_ALERT_PROFILE_V1 = Inr ev \<Longrightarrow>
    finishOperatorAlertAttempt sha256 c BRIDGE_DAEMON_OPERATOR_ALERT_PROFILE_V1 now (resultOf a) = Inl e \<Longrightarrow>
    attemptTrace sha256 now c [DeliverCall ev a]"
| recorded: "operatorAlertEventForState sha256 c BRIDGE_DAEMON_OPERATOR_ALERT_PROFILE_V1 = Inr ev \<Longrightarrow>
    attemptTrace sha256 now c [DeliverCall ev a, CasCall (Some (revision c)) (recordOf now c (resultOf a)) b]"

text \<open>An alert that is due is claimed under its revision; only a claim that this cycle stored is attempted.\<close>

inductive claimTrace :: "(string \<Rightarrow> string) \<Rightarrow> int \<Rightarrow> alert_state \<Rightarrow> alert_call list \<Rightarrow> bool" for sha256 now c where
  none: "(\<And>k. claimOperatorAlertAttempt sha256 c BRIDGE_DAEMON_OPERATOR_ALERT_PROFILE_V1 now \<noteq> Inr (Some k)) \<Longrightarrow>
    claimTrace sha256 now c []"
| lost: "due now c \<Longrightarrow> a \<noteq> Inr CasStored \<Longrightarrow> claimTrace sha256 now c [CasCall (Some (revision c)) (claimedFrom now c) a]"
| owned: "due now c \<Longrightarrow> attemptTrace sha256 now (claimedFrom now c) tr \<Longrightarrow>
    claimTrace sha256 now c (CasCall (Some (revision c)) (claimedFrom now c) (Inr CasStored) # tr)"

text \<open>The alert the projection calls for is opened where the state machine allows it, and only one that was stored goes on;
  when the recorded alert stands, it does.\<close>

inductive reconcileTrace :: "(string \<Rightarrow> string) \<Rightarrow> health_projection \<Rightarrow> int \<Rightarrow> string \<Rightarrow> alert_state option \<Rightarrow> alert_call list \<Rightarrow> bool"
    for sha256 p now g cur where
  idle: "(\<And>k. reconcileOperatorAlertState sha256 p BRIDGE_DAEMON_OPERATOR_ALERT_PROFILE_V1 cur g now \<noteq> Inr (Some k)) \<Longrightarrow>
    reconcileTrace sha256 p now g cur []"
| kept: "reconcileOperatorAlertState sha256 p BRIDGE_DAEMON_OPERATOR_ALERT_PROFILE_V1 cur g now = Inr (Some c) \<Longrightarrow>
    cur = Some c \<Longrightarrow> claimTrace sha256 now c tr \<Longrightarrow> reconcileTrace sha256 p now g cur tr"
| refused: "reconcileOperatorAlertState sha256 p BRIDGE_DAEMON_OPERATOR_ALERT_PROFILE_V1 cur g now = Inr (Some k) \<Longrightarrow>
    opens sha256 now cur k \<Longrightarrow> a \<noteq> Inr CasStored \<Longrightarrow>
    reconcileTrace sha256 p now g cur [CasCall (map_option revision cur) k a]"
| opened: "reconcileOperatorAlertState sha256 p BRIDGE_DAEMON_OPERATOR_ALERT_PROFILE_V1 cur g now = Inr (Some k) \<Longrightarrow>
    opens sha256 now cur k \<Longrightarrow> claimTrace sha256 now k tr \<Longrightarrow>
    reconcileTrace sha256 p now g cur (CasCall (map_option revision cur) k (Inr CasStored) # tr)"

definition cycleTrace :: "(string \<Rightarrow> string) \<Rightarrow> health_projection \<Rightarrow> int \<Rightarrow> alert_call list \<Rightarrow> bool" where
  "cycleTrace sha256 p now tr = (case tr of
       [] \<Rightarrow> True
     | ReadCall i (Inr (ReadAvailable g cur)) # rest \<Rightarrow> i = OPERATOR_ALERT_PROFILE_ID \<and>
         (if pred_option (alertStateOk sha256) cur then reconcileTrace sha256 p now g cur rest else rest = [])
     | ReadCall i a # rest \<Rightarrow> i = OPERATOR_ALERT_PROFILE_ID \<and> rest = []
     | _ \<Rightarrow> False)"

definition wroteOk :: "(string \<Rightarrow> string) \<Rightarrow> alert_call list \<Rightarrow> bool" where
  "wroteOk sha256 tr \<longleftrightarrow> (\<forall>e s a. CasCall e s a \<in> set tr \<longrightarrow> alertStateOk sha256 s)"

lemma wroteOk_simps [simp]:
  "wroteOk sha256 []" "wroteOk sha256 (CasCall e s a # tr) \<longleftrightarrow> alertStateOk sha256 s \<and> wroteOk sha256 tr"
  "wroteOk sha256 (DeliverCall ev b # tr) \<longleftrightarrow> wroteOk sha256 tr" "wroteOk sha256 (ReadCall i c # tr) \<longleftrightarrow> wroteOk sha256 tr"
  by (auto simp: wroteOk_def)

lemma attemptDelivery_cases:
  assumes "attemptDelivery ports ev s = (r, s')"
  obtains w a where "r = Inr (resultOf a)" and "s' = s \<lparr> world := w, calls := calls s @ [DeliverCall ev a] \<rparr>"
proof -
  obtain a w where p: "deliverPort ports ev (world s) = (a, w)" by fastforce
  show thesis
    using assms p by (intro that [of a w]; cases a; cases "projr a") (auto simp: attemptDelivery_def action_defs resultOf_def)
qed

lemma compareAndSet_cases:
  assumes "compareAndSet ports e st s = (r, s')"
  obtains a w where "s' = s \<lparr> world := w, calls := calls s @ [CasCall e st a] \<rparr>"
    and "r = (case a of Inl x \<Rightarrow> Inl (AlertPortThrew x) | Inr x \<Rightarrow> Inr x)"
  using assms by (auto simp: compareAndSet_def portAction_def split: prod.splits)

lemma finishStage_trace:
  assumes "finishStage sha256 ports BRIDGE_DAEMON_OPERATOR_ALERT_PROFILE_V1 now c s = (r, s')" and c: "claimedAtMs c = Some now"
  shows "\<exists>tr. calls s' = calls s @ tr \<and> attemptTrace sha256 now c tr \<and> wroteOk sha256 tr"
proof (cases "operatorAlertEventForState sha256 c BRIDGE_DAEMON_OPERATOR_ALERT_PROFILE_V1")
  case (Inl e)
  with assms(1) show ?thesis
    by (intro exI [of _ "[]"]) (auto simp: finishStage_def action_defs intro: attemptTrace.no_event)
next
  case (Inr ev)
  obtain r1 s1 where d: "attemptDelivery ports ev s = (r1, s1)" by fastforce
  then obtain w a where r1: "r1 = Inr (resultOf a)" and s1: "s1 = s \<lparr> world := w, calls := calls s @ [DeliverCall ev a] \<rparr>"
    by (rule attemptDelivery_cases)
  show ?thesis
  proof (cases "finishOperatorAlertAttempt sha256 c BRIDGE_DAEMON_OPERATOR_ALERT_PROFILE_V1 now (resultOf a)")
    case (Inl e)
    with assms(1) Inr d r1 have "s' = s1" by (simp add: finishStage_def bindA_def liftA_def)
    then show ?thesis using s1 attemptTrace.delivered [OF Inr Inl] by (intro exI [of _ "[DeliverCall ev a]"]) simp
  next
    case fin: (Inr fin)
    obtain r2 s2 where w: "compareAndSet ports (Some (revision c)) fin s1 = (r2, s2)" by fastforce
    then obtain b w2 where s2: "s2 = s1 \<lparr> world := w2, calls := calls s1 @ [CasCall (Some (revision c)) fin b] \<rparr>"
      by (rule compareAndSet_cases)
    have "s' = s2" using assms(1) Inr d r1 fin w by (auto simp: finishStage_def bindA_def liftA_def returnA_def split: sum.splits)
    then show ?thesis
      using s1 s2 finish_step [OF fin] finish_ok [OF fin c] attemptTrace.recorded [OF Inr]
      by (intro exI [of _ "[DeliverCall ev a, CasCall (Some (revision c)) fin b]"]) simp
  qed
qed

lemma claimStage_trace:
  assumes "claimStage sha256 ports BRIDGE_DAEMON_OPERATOR_ALERT_PROFILE_V1 now c s = (r, s')"
  shows "\<exists>tr. calls s' = calls s @ tr \<and> claimTrace sha256 now c tr \<and> (openedAtMs c \<le> now \<longrightarrow> wroteOk sha256 tr)"
proof (cases "\<exists>k. claimOperatorAlertAttempt sha256 c BRIDGE_DAEMON_OPERATOR_ALERT_PROFILE_V1 now = Inr (Some k)")
  case False
  with assms have "s' = s"
    by (auto simp: claimStage_def bindA_def liftA_def returnA_def split: if_splits sum.splits option.splits)
  then show ?thesis using False by (intro exI [of _ "[]"]) (auto intro: claimTrace.none)
next
  case True
  then obtain k where k: "claimOperatorAlertAttempt sha256 c BRIDGE_DAEMON_OPERATOR_ALERT_PROFILE_V1 now = Inr (Some k)" by blast
  then have step: "due now c" "k = claimedFrom now c" and ok: "openedAtMs c \<le> now \<longrightarrow> alertStateOk sha256 k"
    using claim_step claim_ok by blast+
  obtain r1 s1 where w: "compareAndSet ports (Some (revision c)) k s = (r1, s1)" by fastforce
  then obtain a w1 where s1: "s1 = s \<lparr> world := w1, calls := calls s @ [CasCall (Some (revision c)) k a] \<rparr>"
    and r1: "r1 = (case a of Inl x \<Rightarrow> Inl (AlertPortThrew x) | Inr x \<Rightarrow> Inr x)" by (rule compareAndSet_cases)
  have run: "(case r1 of Inl e \<Rightarrow> (Inl e, s1) | Inr CasUnavailable \<Rightarrow> returnA PersistenceFailed s1
      | Inr CasConflict \<Rightarrow> returnA StateConflict s1
      | Inr CasStored \<Rightarrow> finishStage sha256 ports BRIDGE_DAEMON_OPERATOR_ALERT_PROFILE_V1 now k s1) = (r, s')"
    using assms k w step(1)
    by (cases "deliveryStatus c") (auto simp: claimStage_def bindA_def liftA_def due_def split: sum.splits cas_result.splits)
  show ?thesis
  proof (cases "a = Inr CasStored")
    case True
    with run r1 have "finishStage sha256 ports BRIDGE_DAEMON_OPERATOR_ALERT_PROFILE_V1 now k s1 = (r, s')" by simp
    from finishStage_trace [OF this] obtain tr where "calls s' = calls s1 @ tr" "attemptTrace sha256 now k tr" "wroteOk sha256 tr"
      using step(2) by auto
    then show ?thesis using True s1 step ok claimTrace.owned [OF step(1)]
      by (intro exI [of _ "CasCall (Some (revision c)) k a # tr"]) simp
  next
    case False
    with run r1 have "s' = s1" by (auto simp: returnA_def split: sum.splits cas_result.splits)
    then show ?thesis using False s1 step ok claimTrace.lost [OF step(1) False]
      by (intro exI [of _ "[CasCall (Some (revision c)) k a]"]) simp
  qed
qed

lemma reconcileStage_trace:
  assumes "reconcileStage sha256 ports BRIDGE_DAEMON_OPERATOR_ALERT_PROFILE_V1 p now g current s = (r, s')"
  shows "\<exists>tr. calls s' = calls s @ tr \<and> reconcileTrace sha256 p now g current tr
     \<and> (hexDigest sha256 \<longrightarrow> isHex64 g \<longrightarrow> pred_option (\<lambda>c. openedAtMs c \<le> now) current \<longrightarrow> wroteOk sha256 tr)"
proof (cases "\<exists>k. reconcileOperatorAlertState sha256 p BRIDGE_DAEMON_OPERATOR_ALERT_PROFILE_V1 current g now = Inr (Some k)")
  case False
  with assms have "s' = s"
    by (auto simp: reconcileStage_def bindA_def liftA_def returnA_def split: sum.splits option.splits)
  then show ?thesis using False by (intro exI [of _ "[]"]) (auto intro: reconcileTrace.idle)
next
  case True
  then obtain k where k: "reconcileOperatorAlertState sha256 p BRIDGE_DAEMON_OPERATOR_ALERT_PROFILE_V1 current g now = Inr (Some k)" by blast
  note ok = reconcile_ok [OF k]
  show ?thesis
  proof (cases "current = Some k")
    case True
    with assms k have "claimStage sha256 ports BRIDGE_DAEMON_OPERATOR_ALERT_PROFILE_V1 now k s = (r, s')"
      by (simp add: reconcileStage_def bindA_def liftA_def)
    from claimStage_trace [OF this] True k show ?thesis by (auto intro!: reconcileTrace.kept)
  next
    case False
    then have new: "current = None \<or> revision k \<noteq> revision (the current)" and step: "opens sha256 now current k"
      using reconcile_step [OF k] by auto
    obtain r1 s1 where w: "compareAndSet ports (map_option revision current) k s = (r1, s1)" by fastforce
    then obtain a w1 where s1: "s1 = s \<lparr> world := w1, calls := calls s @ [CasCall (map_option revision current) k a] \<rparr>"
      and r1: "r1 = (case a of Inl x \<Rightarrow> Inl (AlertPortThrew x) | Inr x \<Rightarrow> Inr x)" by (rule compareAndSet_cases)
    have run: "(case r1 of Inl e \<Rightarrow> (Inl e, s1) | Inr CasUnavailable \<Rightarrow> returnA PersistenceFailed s1
        | Inr CasConflict \<Rightarrow> returnA StateConflict s1
        | Inr CasStored \<Rightarrow> claimStage sha256 ports BRIDGE_DAEMON_OPERATOR_ALERT_PROFILE_V1 now k s1) = (r, s')"
      using assms k w new by (auto simp: reconcileStage_def bindA_def liftA_def split: sum.splits cas_result.splits)
    show ?thesis
    proof (cases "a = Inr CasStored")
      case True
      with run r1 have "claimStage sha256 ports BRIDGE_DAEMON_OPERATOR_ALERT_PROFILE_V1 now k s1 = (r, s')" by simp
      then obtain tr where "calls s' = calls s1 @ tr" "claimTrace sha256 now k tr" "openedAtMs k \<le> now \<longrightarrow> wroteOk sha256 tr"
        using claimStage_trace by blast
      then show ?thesis using True s1 step ok False k
        by (intro exI [of _ "CasCall (map_option revision current) k a # tr"]) (auto intro: reconcileTrace.opened)
    next
      case nostore: False
      with run r1 have "s' = s1" by (auto simp: returnA_def split: sum.splits cas_result.splits)
      then show ?thesis using nostore s1 step ok k
        by (intro exI [of _ "[CasCall (map_option revision current) k a]"]) (auto intro: reconcileTrace.refused)
    qed
  qed
qed

lemma cycle_cases:
  assumes "runOperatorAlertDeliveryCycle sha256 ports profile p nowMs s = (r, s')"
  obtains (refused) "s' = s" and "profile \<noteq> BRIDGE_DAEMON_OPERATOR_ALERT_PROFILE_V1 \<or> \<not> isNonnegSafe nowMs"
  | (read) a w where "profile = BRIDGE_DAEMON_OPERATOR_ALERT_PROFILE_V1" and "isNonnegSafe nowMs"
      and "s' = s \<lparr> world := w, calls := calls s @ [ReadCall OPERATOR_ALERT_PROFILE_ID a] \<rparr>"
      and "\<And>g cur. a = Inr (ReadAvailable g cur) \<Longrightarrow> \<not> pred_option (alertStateOk sha256) cur"
  | (found) w g cur where "profile = BRIDGE_DAEMON_OPERATOR_ALERT_PROFILE_V1" and "isNonnegSafe nowMs"
      and "pred_option (alertStateOk sha256) cur"
      and "reconcileStage sha256 ports profile p nowMs g cur (s \<lparr> world := w, calls := calls s
        @ [ReadCall OPERATOR_ALERT_PROFILE_ID (Inr (ReadAvailable g cur))] \<rparr>) = (r, s')"
      and "readPort ports OPERATOR_ALERT_PROFILE_ID (world s) = (Inr (ReadAvailable g cur), w)"
proof (cases "profile = BRIDGE_DAEMON_OPERATOR_ALERT_PROFILE_V1 \<and> isNonnegSafe nowMs")
  case False
  then have "assertSupportedOperatorAlertProfile profile \<noteq> Inr () \<or> alertNonnegative nowMs ''operator alert time'' \<noteq> Inr nowMs"
    by (auto simp: profileOk_iff alertNonnegative_iff)
  with assms have "s' = s"
    by (auto simp: runOperatorAlertDeliveryCycle_def bindA_def liftA_def alertNonnegative_def require_def
        split: sum.splits if_splits)
  then show thesis using refused False by blast
next
  case True
  then have prof: "profile = BRIDGE_DAEMON_OPERATOR_ALERT_PROFILE_V1" and now: "isNonnegSafe nowMs"
    and pre: "assertSupportedOperatorAlertProfile profile = Inr ()" "alertNonnegative nowMs ''operator alert time'' = Inr nowMs"
    by (auto simp: profileOk_iff alertNonnegative_iff)
  obtain a w where port: "readPort ports OPERATOR_ALERT_PROFILE_ID (world s) = (a, w)" by fastforce
  show thesis
  proof (cases "\<exists>g cur. a = Inr (ReadAvailable g cur) \<and> pred_option (alertStateOk sha256) cur")
    case False
    have "s' = s \<lparr> world := w, calls := calls s @ [ReadCall OPERATOR_ALERT_PROFILE_ID a] \<rparr>"
    proof (cases "\<exists>g cur. a = Inr (ReadAvailable g cur)")
      case True
      then obtain g c where "a = Inr (ReadAvailable g (Some c))" "\<not> alertStateOk sha256 c"
        using False by (metis option.pred_inject(1) option.exhaust option.pred_inject(2))
      moreover from this(2) obtain e where "normalizeOperatorAlertDeliveryState sha256 c BRIDGE_DAEMON_OPERATOR_ALERT_PROFILE_V1 = Inl e"
        by (metis normalize_state_iff sum.exhaust)
      ultimately show ?thesis using assms pre port prof
        by (simp add: runOperatorAlertDeliveryCycle_def bindA_def liftA_def portAction_def)
    next
      case False
      with assms pre port prof show ?thesis
        by (cases a; cases "projr a") (auto simp: runOperatorAlertDeliveryCycle_def action_defs)
    qed
    then show thesis using read [OF prof now] False by blast
  next
    case True
    then obtain g cur where a: "a = Inr (ReadAvailable g cur)" and ok: "pred_option (alertStateOk sha256) cur" by blast
    then have "(case cur of None \<Rightarrow> Inr None | Some s \<Rightarrow>
        andThen (normalizeOperatorAlertDeliveryState sha256 s BRIDGE_DAEMON_OPERATOR_ALERT_PROFILE_V1)
        (\<lambda>n. Inr (Some n))) = Inr cur"
      using prof by (cases cur) (auto simp: result_simps normalize_state_iff)
    then show thesis using found [OF prof now ok] assms pre port prof a
      by (simp add: runOperatorAlertDeliveryCycle_def bindA_def liftA_def portAction_def)
  qed
qed

lemma cycle_trace:
  assumes "runOperatorAlertDeliveryCycle sha256 ports profile p nowMs s = (r, s')" and "calls s = []"
  shows "cycleTrace sha256 p nowMs (calls s')
     \<and> (calls s' = [] \<longleftrightarrow> profile \<noteq> BRIDGE_DAEMON_OPERATOR_ALERT_PROFILE_V1 \<or> \<not> isNonnegSafe nowMs)
     \<and> (hexDigest sha256 \<longrightarrow>
      (\<forall>g cur w. readPort ports OPERATOR_ALERT_PROFILE_ID (world s) = (Inr (ReadAvailable g cur), w) \<longrightarrow>
           isHex64 g \<and> pred_option (\<lambda>c. openedAtMs c \<le> nowMs) cur) \<longrightarrow> wroteOk sha256 (calls s'))"
proof (cases rule: cycle_cases [OF assms(1)])
  case 1
  then show ?thesis using assms(2) by (simp add: cycleTrace_def)
next
  case (2 a w)
  then show ?thesis using assms(2) by (cases a; cases "projr a") (auto simp: cycleTrace_def)
next
  case (3 w g cur)
  from reconcileStage_trace [OF 3(4) [unfolded 3(1)]] obtain tr
    where tr: "calls s' = ReadCall OPERATOR_ALERT_PROFILE_ID (Inr (ReadAvailable g cur)) # tr"
      "reconcileTrace sha256 p nowMs g cur tr"
      "hexDigest sha256 \<longrightarrow> isHex64 g \<longrightarrow> pred_option (\<lambda>c. openedAtMs c \<le> nowMs) cur \<longrightarrow> wroteOk sha256 tr"
    using assms(2) by auto
  then show ?thesis using 3 by (simp add: cycleTrace_def)
qed

fun isDeliver :: "alert_call \<Rightarrow> bool" where
  "isDeliver (DeliverCall ev a) = True"
| "isDeliver _ = False"

lemma attempt_deliveries: "attemptTrace sha256 now c tr \<Longrightarrow> length (filter isDeliver tr) \<le> 1"
  by (cases rule: attemptTrace.cases) auto

lemma claim_deliveries: "claimTrace sha256 now c tr \<Longrightarrow> length (filter isDeliver tr) \<le> 1"
  by (cases rule: claimTrace.cases) (auto dest: attempt_deliveries)

lemma reconcile_deliveries: "reconcileTrace sha256 p now g cur tr \<Longrightarrow> length (filter isDeliver tr) \<le> 1"
  by (cases rule: reconcileTrace.cases) (auto dest: claim_deliveries)

lemma cycleTrace_deliveries: "cycleTrace sha256 p now tr \<Longrightarrow> length (filter isDeliver tr) \<le> 1"
  using reconcile_deliveries
  by (auto simp: cycleTrace_def split: list.splits alert_call.splits sum.splits alert_read.splits if_splits)

text \<open>C10. Whatever the store and the sink answer, and whatever else happens between the calls, the calls of a delivery
  cycle are the read of the state and then, stage by stage: the alert of a new condition, only when none is recorded or
  the recorded one was delivered; the claim of an attempt that is due, under the revision of the alert read or just
  stored; only after the store answered that this very claim was stored, one delivery of the event of the claimed
  state; and after the delivery the record of exactly what the sink answered to it, under the revision of the claim. A
  refused write ends the cycle, nothing is recorded without a delivery, and there is at most one. There are no calls at
  all exactly when the profile or the time is not supported.\<close>

theorem alert_cycle_lawful:
  assumes "runOperatorAlertDeliveryCycle sha256 ports profile p nowMs s = (r, s')" and "calls s = []"
  shows "cycleTrace sha256 p nowMs (calls s')
    \<and> (calls s' = [] \<longleftrightarrow> profile \<noteq> BRIDGE_DAEMON_OPERATOR_ALERT_PROFILE_V1 \<or> \<not> isNonnegSafe nowMs)
    \<and> length (filter isDeliver (calls s')) \<le> 1"
  using cycle_trace [OF assms] cycleTrace_deliveries by auto

text \<open>C27. Every state a cycle hands to the store is well formed (the validator accepts it unchanged), provided the store
  answers its read with a canonical generation and an alert that was not opened after the current time.\<close>

theorem alert_writes_well_formed:
  assumes "runOperatorAlertDeliveryCycle sha256 ports profile p nowMs s = (r, s')" and "calls s = []"
    and "hexDigest sha256"
    and "\<And>g cur w. readPort ports OPERATOR_ALERT_PROFILE_ID (world s) = (Inr (ReadAvailable g cur), w) \<Longrightarrow>
           isHex64 g \<and> pred_option (\<lambda>c. openedAtMs c \<le> nowMs) cur"
  shows "\<forall>e st a. CasCall e st a \<in> set (calls s') \<longrightarrow>
           normalizeOperatorAlertDeliveryState sha256 st BRIDGE_DAEMON_OPERATOR_ALERT_PROFILE_V1 = Inr st"
  using cycle_trace [OF assms(1,2)] assms(3,4) by (simp add: wroteOk_def normalize_state_iff)


section \<open>Every projection has a condition\<close>

lemma project_shape:
  assumes "projectOperatorHealth i = Inr p"
  shows "pjSchema p = OPERATOR_HEALTH_PROJECTION_SCHEMA" and "isSafeInteger (rqConsecutiveFailures (pjReadQuorum p))"
    and "isSafeInteger (frIncidentCount (pjFundsRelease p))" and "pred_option isSafeInteger (rgQuarantineCount (pjReorg p))"
    and "pred_option isSafeInteger (stActiveAttemptCount (pjSettlement p))"
proof -
  from assms obtain sg r1 q r2 f r3 r4 sv r5 cm r6 fn r7 rg r8 st r9
    where funds: "fundsReleaseSignal i = Inr (f, r3)" and pers: "persistenceSignal i = Inr (inPersistence i, r4)"
      and reorg: "reorgSignal (inPersistence i) i = (rg, r8)"
      and quorum: "readQuorumSignal (inPolicy i) (inObservedAtMs i) i = Inr (q, r2)"
      and settle: "settlementSignal (inPolicy i) (inObservedAtMs i) (inPersistence i) = Inr (st, r9)"
      and p: "p = assembleProjection (inObservedAtMs i) (r1 @ r2 @ r3 @ r4 @ r5 @ r6 @ r7 @ r8 @ r9) (inPersistence i)
           sg q f sv cm fn rg st"
    by (rule project_parts)
  have counts: "inPersistence i = Some x \<Longrightarrow> isNonnegSafe (reorgQuarantineConditionCount x)
      \<and> isNonnegSafe (activeSettlementAttemptCount x)" for x
    using pers by (auto simp: persistenceSignal_def health_iffs)
  show "pjSchema p = OPERATOR_HEALTH_PROJECTION_SCHEMA" by (simp add: p assembleProjection_def)
  show "isSafeInteger (rqConsecutiveFailures (pjReadQuorum p))"
    using quorum by (auto simp: p assembleProjection_def readQuorumSignal_def health_iffs Let_def isNonnegSafe_def split: prod.splits)
  show "isSafeInteger (frIncidentCount (pjFundsRelease p))"
    using funds by (auto simp: p assembleProjection_def fundsReleaseSignal_def health_iffs Let_def isNonnegSafe_def)
  show "pred_option isSafeInteger (rgQuarantineCount (pjReorg p))"
    using reorg counts by (cases "inPersistence i") (auto simp: p assembleProjection_def reorgSignal_def Let_def isNonnegSafe_def)
  show "pred_option isSafeInteger (stActiveAttemptCount (pjSettlement p))"
    using settle counts by (cases "inPersistence i"; cases "oldestSettlement i")
      (auto simp: p assembleProjection_def settlementSignal_def oldestSettlement_def health_iffs Let_def isNonnegSafe_def
        split: if_splits)
qed

lemma canonical_atoms:
  "isOk (canonicalJson (JStr x))" "isOk (canonicalJson (JBool b))" "isOk (canonicalJson (jsonOptional y))"
  "isOk (canonicalJson (jsonFlag c))" "isSafeInteger n \<Longrightarrow> isOk (canonicalJson (JNum n))"
  "isSafeInteger 1"
  "pred_option isSafeInteger m \<Longrightarrow> isOk (canonicalJson (jsonNumber m))"
  "jsonOptional y \<noteq> JUndefined" "jsonFlag c \<noteq> JUndefined" "jsonNumber m \<noteq> JUndefined"
  "isOk (canonicalJson (JArr (map (\<lambda>r. JStr (reasonName r)) rs)))"
  by (auto simp: jsonOptional_def jsonFlag_def jsonNumber_def safe_defs split: option.splits intro!: canonicalJson_array_ok
      simp del: canonicalJson.simps(5)) 

lemma canonicalJson_members_ok:
  "list_all (\<lambda>m. snd m \<noteq> JUndefined \<and> isOk (canonicalJson (snd m))) ms \<Longrightarrow> isOk (canonicalJson (JObj ms))"
  by (rule canonicalJson_object_ok) (simp add: list_all_iff)

lemma stableState_ok:
  assumes "projectOperatorHealth i = Inr p"
  shows "isOk (canonicalJson (stableState BRIDGE_DAEMON_OPERATOR_ALERT_PROFILE_V1 p rs))"
  unfolding stableState_def using project_shape [OF assms] canonical_atoms
  by (intro canonicalJson_members_ok) (simp add: canonicalJson_members_ok del: canonicalJson.simps(6))

lemma projection_condition:
  assumes "projectOperatorHealth i = Inr p"
  shows "\<exists>c. operatorAlertConditionMaterial sha256 p BRIDGE_DAEMON_OPERATOR_ALERT_PROFILE_V1 = Inr c
     \<and> (cdActive c \<longleftrightarrow> pjOverall p \<noteq> Healthy) \<and> cdReasons c = pjReasons p \<and> cdOverall c = pjOverall p"
proof -
  note pr = project_reasons [OF assms]
  have order: "normalizeOperatorAlertReasons (pjReasons p) = Inr (pjReasons p)"
    by (simp add: reasons_iff pr inOrder_filter)
  have status: "pjOverall p \<in> {Healthy, Degraded, Held}" "pjOverall p = Healthy \<longleftrightarrow> pjReasons p = []"
    using pr overallStatus_filter(3) by (auto simp: overallStatus_def)
  obtain t where "canonicalJson (stableState BRIDGE_DAEMON_OPERATOR_ALERT_PROFILE_V1 p (pjReasons p)) = Inr t"
    using stableState_ok [OF assms] by (auto simp: isOk_iff)
  then have "\<exists>d. alertDigest sha256 (stableState BRIDGE_DAEMON_OPERATOR_ALERT_PROFILE_V1 p (pjReasons p))
      OPERATOR_ALERT_CONDITION_DIGEST_DOMAIN = Inr d" by (simp add: alertDigest_iff)
  then show ?thesis using project_shape(1) [OF assms] order status
    by (auto simp: operatorAlertConditionMaterial_def result_simps profileOk_iff Let_def)
qed

text \<open>Every health projection the projector returns is accepted by the alert cycle: it has a condition with a digest,
  which is active exactly when the projection is not healthy and carries exactly its reasons.\<close>

theorem projection_has_condition:
  assumes "projectOperatorHealth i = Inr p"
  shows "\<exists>c. operatorAlertConditionMaterial sha256 p BRIDGE_DAEMON_OPERATOR_ALERT_PROFILE_V1 = Inr c
     \<and> (cdActive c \<longleftrightarrow> pjOverall p \<noteq> Healthy) \<and> cdReasons c = pjReasons p \<and> cdOverall c = pjOverall p"
  using assms by (rule projection_condition)

text \<open>The event made from a stored alert is one the strict event normalizer reads back unchanged.\<close>

theorem alertEvent_roundtrip:
  assumes "operatorAlertEventForState sha256 s profile = Inr e"
  shows "normalizeOperatorAlertEvent (eventJson e) = Inr e"
proof (rule eventOk_accepted)
  have "alertStateOk sha256 s" and e: "e = \<lparr> evAlertIdHex = alertIdHex s, evOpenedAtMs = openedAtMs s,
      evTransition = JStr (transitionName (transition s)), evConditionDigestHex = conditionDigestHex s,
      evPreviousAlertIdHex = previousAlertIdHex s, evOverall = JStr (statusName (overall s)), evReasons = reasons s,
      evRecoveryActions = recoveryActionsForReasons (reasons s) \<rparr>"
    using assms by (auto simp: operatorAlertEventForState_def result_simps normalize_state_iff)
  then have ok: "occurrenceOk sha256 s" by (simp add: alertStateOk_def)
  have "\<exists>kind status. evTransition e = JStr (transitionName kind) \<and> evOverall e = JStr (statusName status)
      \<and> status \<in> {Healthy, Degraded, Held} \<and> (status = Healthy \<longleftrightarrow> evReasons e = [])
      \<and> (kind = Recovered \<longleftrightarrow> evReasons e = []) \<and> (evPreviousAlertIdHex e = None \<longrightarrow> kind = Raised)"
    using ok by (intro exI [of _ "transition s"] exI [of _ "overall s"]) (auto simp: e occurrenceOk_def)
  then show "eventOk e" using ok by (simp add: eventOk_def occurrenceOk_def) (simp add: e)
qed

end
