(* ===== verification/Alert_Store.thy ===== *)
theory Alert_Store
  imports Alert_Delivery
begin

text \<open>
  Where alerts are kept: the adapter between the alert cycle and a state source
  (\<^verbatim>\<open>adapters/operator-alert-delivery-state.ts\<close>) and the source the daemon uses, the table
  \<^verbatim>\<open>operator_alert_delivery_state\<close> of the state tracker (\<^verbatim>\<open>state-tracker.ts\<close>).

  The table is a map from profile id to row; a row holds the columns of a state, and the JSON text of its reasons and
  the 0/1 column of its flag are the values they encode. The CHECK constraints of the table follow from the
  validation before each write. The cache generation is the local continuity identity of the database.

  The locale \<open>revision_store\<close> is what a compare-and-set store promises its clients; it is interpreted on the adapter
  over the table.
\<close>

section \<open>The interface of a compare-and-set store\<close>

text \<open>The requests of any number of clients in the order a store serves them, and the states it stored; the revision a
  store is at, 0 when it is empty.\<close>

primrec serve :: "(int option \<Rightarrow> 's \<Rightarrow> 'w \<Rightarrow> cas_result \<times> 'w) \<Rightarrow> (int option \<times> 's) list \<Rightarrow> 'w \<Rightarrow> 's list \<times> 'w" where
  "serve cas [] w = ([], w)"
| "serve cas (req # reqs) w = (case cas (fst req) (snd req) w of (a, w') \<Rightarrow>
     (case serve cas reqs w' of (stored, w'') \<Rightarrow> (if a = CasStored then snd req # stored else stored, w'')))"

definition storeAt :: "('s \<Rightarrow> int) \<Rightarrow> 's option \<Rightarrow> int" where
  "storeAt revisionOf cur = (case cur of None \<Rightarrow> 0 | Some s \<Rightarrow> revisionOf s)"

locale revision_store =
  fixes inv :: "'w \<Rightarrow> bool"
    and mine :: "'s \<Rightarrow> bool"
    and revisionOf :: "'s \<Rightarrow> int"
    and current :: "'w \<Rightarrow> 's option"
    and cas :: "int option \<Rightarrow> 's \<Rightarrow> 'w \<Rightarrow> cas_result \<times> 'w"
  assumes cas_inv: "inv w \<Longrightarrow> cas e s w = (a, w') \<Longrightarrow> inv w'"
    and cas_stored: "inv w \<Longrightarrow> mine s \<Longrightarrow> cas e s w = (CasStored, w') \<Longrightarrow>
      map_option revisionOf (current w) = e \<and> current w' = Some s
      \<and> revisionOf s = (case e of None \<Rightarrow> 1 | Some n \<Rightarrow> n + 1)"
    and cas_other: "inv w \<Longrightarrow> cas e s w = (a, w') \<Longrightarrow> a \<noteq> CasStored \<or> \<not> mine s \<Longrightarrow> current w' = current w"
begin

lemma cas_at:
  assumes "inv w" and "cas e s w = (a, w')"
  shows "storeAt revisionOf (current w') =
      (if a = CasStored \<and> mine s then storeAt revisionOf (current w) + 1 else storeAt revisionOf (current w))"
    and "a = CasStored \<Longrightarrow> mine s \<Longrightarrow> revisionOf s = storeAt revisionOf (current w) + 1"
  using cas_stored [OF assms(1), of s e w'] cas_other [OF assms] assms(2) by (auto simp: storeAt_def split: option.splits)

text \<open>Every stored state takes the next revision: no two clients ever store under the same one.\<close>

lemma serve_revisions:
  "inv w \<Longrightarrow> serve cas reqs w = (stored, w') \<Longrightarrow>
     map revisionOf (filter mine stored) = map (\<lambda>i. storeAt revisionOf (current w) + 1 + int i) [0..<length (filter mine stored)]"
proof (induction reqs arbitrary: w stored)
  case (Cons req reqs)
  obtain a w1 where c: "cas (fst req) (snd req) w = (a, w1)" by fastforce
  obtain st w2 where s: "serve cas reqs w1 = (st, w2)" by fastforce
  then have "w' = w2" using Cons.prems c by auto
  then have s': "serve cas reqs w1 = (st, w')" using s by simp
  note ih = Cons.IH [OF cas_inv [OF Cons.prems(1) c] s'] and at = cas_at [OF Cons.prems(1) c]
  from Cons.prems c s have stored: "stored = (if a = CasStored then snd req # st else st)" by auto
  show ?case
  proof (cases "a = CasStored \<and> mine (snd req)")
    case True
    then show ?thesis using ih at stored by (simp add: upt_conv_Cons map_Suc_upt [symmetric] comp_def algebra_simps del: upt_Suc)
  next
    case False
    then show ?thesis using ih at stored by auto
  qed
qed simp

lemma serve_distinct: "inv w \<Longrightarrow> serve cas reqs w = (stored, w') \<Longrightarrow> distinct (map revisionOf (filter mine stored))"
  by (simp add: serve_revisions distinct_map inj_on_def)

end


section \<open>Definitions\<close>

record 'w alert_source =
  getOperatorAlertDeliveryCacheGenerationHex :: "('w, string) port"
  getOperatorAlertDeliveryState :: "string \<Rightarrow> ('w, alert_state option) port"
  compareAndSetOperatorAlertDeliveryState :: "int option \<Rightarrow> alert_state \<Rightarrow> ('w, bool) port"

text \<open>The adapter: whatever the source throws, and whatever does not validate, is \<^verbatim>\<open>unavailable\<close>.\<close>

definition adapterRead :: "(string \<Rightarrow> string) \<Rightarrow> 'w alert_source \<Rightarrow> string \<Rightarrow> ('w, alert_read) port" where
  "adapterRead sha256 source pid = (\<lambda>w.
     if pid \<noteq> profileId BRIDGE_DAEMON_OPERATOR_ALERT_PROFILE_V1 then (Inr ReadUnavailable, w)
     else case getOperatorAlertDeliveryCacheGenerationHex source w of
       (Inl e, w1) \<Rightarrow> (Inr ReadUnavailable, w1)
     | (Inr g, w1) \<Rightarrow> (case normalizeOperatorAlertCacheGenerationHex g of
         Inl e \<Rightarrow> (Inr ReadUnavailable, w1)
       | Inr cacheGen \<Rightarrow> (case getOperatorAlertDeliveryState source pid w1 of
           (Inl e, w2) \<Rightarrow> (Inr ReadUnavailable, w2)
         | (Inr raw, w2) \<Rightarrow>
             (Inr (case (case raw of None \<Rightarrow> Inr None
                    | Some s \<Rightarrow> andThen (normalizeOperatorAlertDeliveryState sha256 s BRIDGE_DAEMON_OPERATOR_ALERT_PROFILE_V1) (\<lambda>state.
                        require (cacheGenerationHex state = cacheGen) CacheGenerationMismatch (Inr (Some state)))) of
                 Inl e \<Rightarrow> ReadUnavailable | Inr state \<Rightarrow> ReadAvailable cacheGen state), w2))))"

definition adapterCompareAndSet :: "(string \<Rightarrow> string) \<Rightarrow> 'w alert_source \<Rightarrow> int option \<Rightarrow> alert_state \<Rightarrow> 'w \<Rightarrow> cas_result \<times> 'w" where
  "adapterCompareAndSet sha256 source expected s = (\<lambda>w.
     case normalizeOperatorAlertDeliveryState sha256 s BRIDGE_DAEMON_OPERATOR_ALERT_PROFILE_V1 of
       Inl e \<Rightarrow> (CasUnavailable, w)
     | Inr n \<Rightarrow> (case compareAndSetOperatorAlertDeliveryState source expected n w of
         (Inl e, w1) \<Rightarrow> (CasUnavailable, w1)
       | (Inr stored, w1) \<Rightarrow> (if stored then CasStored else CasConflict, w1)))"

text \<open>The ports of the cycle, as the daemon builds them from the adapter and its sink.\<close>

definition adapterPorts :: "(string \<Rightarrow> string) \<Rightarrow> 'w alert_source \<Rightarrow> (alert_event \<Rightarrow> ('w, raw_delivery) port) \<Rightarrow> 'w alert_ports" where
  "adapterPorts sha256 source sink = \<lparr> readPort = adapterRead sha256 source,
     casPort = (\<lambda>e s w. case adapterCompareAndSet sha256 source e s w of (a, w1) \<Rightarrow> (Inr a, w1)), deliverPort = sink \<rparr>"

record alert_table =
  tableGenerationHex :: string
  alertRows :: "string \<rightharpoonup> alert_state"

definition rowGet :: "(string \<Rightarrow> string) \<Rightarrow> string \<Rightarrow> (alert_table, alert_state option) port" where
  "rowGet sha256 pid w = (case alertRows w pid of
       None \<Rightarrow> (Inr None, w)
     | Some row \<Rightarrow> (case normalizeOperatorAlertDeliveryState sha256 row BRIDGE_DAEMON_OPERATOR_ALERT_PROFILE_V1 of
         Inl e \<Rightarrow> (Inl ''operator alert row is corrupt'', w) | Inr s \<Rightarrow> (Inr (Some s), w)))"

text \<open>\<^verbatim>\<open>INSERT OR IGNORE\<close> without an expected revision, \<^verbatim>\<open>UPDATE ... WHERE profile_id = ? AND revision = ?\<close>
  with one.\<close>

definition rowCompareAndSet :: "(string \<Rightarrow> string) \<Rightarrow> int option \<Rightarrow> alert_state \<Rightarrow> (alert_table, bool) port" where
  "rowCompareAndSet sha256 expected s w =
     (case normalizeOperatorAlertDeliveryState sha256 s BRIDGE_DAEMON_OPERATOR_ALERT_PROFILE_V1 of
       Inl e \<Rightarrow> (Inl ''operator alert state is invalid'', w)
     | Inr n \<Rightarrow>
         if (case expected of None \<Rightarrow> revision n \<noteq> 1 | Some k \<Rightarrow> revision n \<noteq> k + 1)
         then (Inl ''operator alert state revision is not monotonic'', w)
         else (case expected of
             None \<Rightarrow> (case alertRows w (stateProfileId n) of
                 None \<Rightarrow> (Inr True, w \<lparr> alertRows := (alertRows w)(stateProfileId n \<mapsto> n) \<rparr>)
               | Some _ \<Rightarrow> (Inr False, w))
           | Some k \<Rightarrow> (case alertRows w (stateProfileId n) of
                 None \<Rightarrow> (Inr False, w)
               | Some row \<Rightarrow> if revision row = k
                   then (Inr True, w \<lparr> alertRows := (alertRows w)(stateProfileId n \<mapsto> n) \<rparr>) else (Inr False, w))))"

definition trackerSource :: "(string \<Rightarrow> string) \<Rightarrow> alert_table alert_source" where
  "trackerSource sha256 = \<lparr> getOperatorAlertDeliveryCacheGenerationHex = (\<lambda>w. (Inr (tableGenerationHex w), w)),
     getOperatorAlertDeliveryState = rowGet sha256, compareAndSetOperatorAlertDeliveryState = rowCompareAndSet sha256 \<rparr>"


section \<open>The tracker is a compare-and-set store\<close>

definition trackerCurrent :: "alert_table \<Rightarrow> alert_state option" where
  "trackerCurrent w = alertRows w OPERATOR_ALERT_PROFILE_ID"

lemma profileId_ok: "alertStateOk sha256 s \<Longrightarrow> stateProfileId s = OPERATOR_ALERT_PROFILE_ID"
  by (simp add: alertStateOk_def occurrenceOk_def)

lemma trackerCas_eq:
  "adapterCompareAndSet sha256 (trackerSource sha256) e s w =
     (if \<not> alertStateOk sha256 s \<or> revision s \<noteq> (case e of None \<Rightarrow> 1 | Some k \<Rightarrow> k + 1) then (CasUnavailable, w)
      else if map_option revision (trackerCurrent w) = e
        then (CasStored, w \<lparr> alertRows := (alertRows w)(OPERATOR_ALERT_PROFILE_ID \<mapsto> s) \<rparr>)
      else (CasConflict, w))"
proof (cases "normalizeOperatorAlertDeliveryState sha256 s BRIDGE_DAEMON_OPERATOR_ALERT_PROFILE_V1")
  case (Inl x)
  then have "\<not> alertStateOk sha256 s" using normalize_state_iff [of sha256 s] by (metis Inl_Inr_False)
  with Inl show ?thesis by (simp add: adapterCompareAndSet_def)
next
  case (Inr n)
  then have "alertStateOk sha256 s" "n = s" by (simp_all add: normalize_state_iff)
  with Inr show ?thesis
    by (cases e; cases "trackerCurrent w")
      (auto simp: adapterCompareAndSet_def trackerSource_def rowCompareAndSet_def trackerCurrent_def profileId_ok)
qed

interpretation tracker: revision_store "\<lambda>_. True" "\<lambda>_. True" revision trackerCurrent
  "adapterCompareAndSet sha256 (trackerSource sha256)" for sha256
proof
  fix e s w w' a
  show "adapterCompareAndSet sha256 (trackerSource sha256) e s w = (CasStored, w') \<Longrightarrow>
      map_option revision (trackerCurrent w) = e \<and> trackerCurrent w' = Some s
      \<and> revision s = (case e of None \<Rightarrow> 1 | Some n \<Rightarrow> n + 1)"
    by (auto simp: trackerCas_eq trackerCurrent_def split: if_splits)
  show "adapterCompareAndSet sha256 (trackerSource sha256) e s w = (a, w') \<Longrightarrow> a \<noteq> CasStored \<or> \<not> True \<Longrightarrow>
      trackerCurrent w' = trackerCurrent w"
    by (auto simp: trackerCas_eq split: if_splits)
qed simp

text \<open>C23. Any number of daemons may race on the same table: in whatever order their requests arrive, the states the tracker
  stores take consecutive revisions, so each revision, and with it each claim of a delivery attempt, has one owner.\<close>

theorem one_claim_per_revision:
  assumes "serve (adapterCompareAndSet sha256 (trackerSource sha256)) reqs w = (stored, w')"
  shows "map revision stored = map (\<lambda>i. storeAt revision (trackerCurrent w) + 1 + int i) [0..<length stored]
    \<and> distinct (map revision stored)"
  using tracker.serve_revisions [OF TrueI assms] tracker.serve_distinct [OF TrueI assms] by simp_all


section \<open>The table stays well formed\<close>

definition rowsOk :: "(string \<Rightarrow> string) \<Rightarrow> alert_table \<Rightarrow> bool" where
  "rowsOk sha256 w \<longleftrightarrow> (\<forall>pid s. alertRows w pid = Some s \<longrightarrow> pid = OPERATOR_ALERT_PROFILE_ID \<and> alertStateOk sha256 s)"

lemma tracker_read_same: "snd (adapterRead sha256 (trackerSource sha256) pid w) = w"
  by (auto simp: adapterRead_def trackerSource_def rowGet_def split: sum.splits option.splits prod.splits)

lemma cycle_keeps:
  assumes read: "\<And>pid w. I w \<Longrightarrow> I (snd (readPort ports pid w))"
    and cas: "\<And>e s w. I w \<Longrightarrow> I (snd (casPort ports e s w))" and deliver: "\<And>ev w. I w \<Longrightarrow> I (snd (deliverPort ports ev w))"
  shows "keeps I (runOperatorAlertDeliveryCycle sha256 ports profile p nowMs)"
proof -
  have c: "keeps I (compareAndSet ports e s)" for e s
    unfolding compareAndSet_def by (intro keeps_portAction cas)
  have d: "keeps I (attemptDelivery ports ev)" for ev
    unfolding attemptDelivery_def by (intro keeps_intros keeps_portAction deliver)
  have f: "keeps I (finishStage sha256 ports profile now s)" for now s
    unfolding finishStage_def by (intro keeps_intros c d)
  have cl: "keeps I (claimStage sha256 ports profile now s)" for now s
    unfolding claimStage_def by (auto intro!: keeps_intros c f split: option.splits cas_result.splits)
  have r: "keeps I (reconcileStage sha256 ports profile p now g cur)" for now g cur
    unfolding reconcileStage_def by (auto intro!: keeps_intros c cl split: option.splits cas_result.splits)
  show ?thesis
    unfolding runOperatorAlertDeliveryCycle_def
    by (auto intro!: keeps_intros keeps_portAction read r split: alert_read.splits option.splits)
qed

text \<open>C20. The alert table stays well formed under every delivery cycle, whatever the projection, the clock (also one that
  was set back) and the answers of a sink that leaves the table alone: each row validates, belongs to the one supported profile, and its revision never falls.\<close>

theorem alert_table_invariant:
  assumes "rowsOk sha256 (world s)" and "\<And>ev w. snd (sink ev w) = w"
    and "runOperatorAlertDeliveryCycle sha256 (adapterPorts sha256 (trackerSource sha256) sink) profile p nowMs s = (r, s')"
  shows "rowsOk sha256 (world s') \<and> storeAt revision (trackerCurrent (world s)) \<le> storeAt revision (trackerCurrent (world s'))"
proof -
  let ?I = "\<lambda>w. rowsOk sha256 w \<and> storeAt revision (trackerCurrent (world s)) \<le> storeAt revision (trackerCurrent w)"
  have "keeps ?I (runOperatorAlertDeliveryCycle sha256 (adapterPorts sha256 (trackerSource sha256) sink) profile p nowMs)"
  proof (rule cycle_keeps)
    fix e st w assume w: "?I w"
    obtain a w1 where c: "adapterCompareAndSet sha256 (trackerSource sha256) e st w = (a, w1)" by fastforce
    moreover have "rowsOk sha256 w1" using w c by (auto simp: trackerCas_eq rowsOk_def split: if_splits)
    ultimately show "?I (snd (casPort (adapterPorts sha256 (trackerSource sha256) sink) e st w))"
      using w tracker.cas_at(1) [OF TrueI c] by (auto simp: adapterPorts_def)
  qed (use assms(2) tracker_read_same in \<open>auto simp: adapterPorts_def\<close>)
  then show "?I (world s')" using assms(1,3) by (auto simp: keeps_def dest!: spec [of _ s])
qed


section \<open>An unhealthy projection is alerted\<close>

lemma derive_total: "isSafeInteger t \<Longrightarrow> \<exists>x. deriveOperatorAlertId sha256 BRIDGE_DAEMON_OPERATOR_ALERT_PROFILE_V1 kind d g t st rs pr = Inr x"
proof -
  assume t: "isSafeInteger t"
  have "isOk (canonicalJson (JObj
       [(''profileId'', JStr OPERATOR_ALERT_PROFILE_ID), (''profileVersion'', JNum 1), (''transition'', JStr (transitionName kind)),
        (''conditionDigestHex'', JStr d), (''cacheGenerationHex'', JStr g), (''openedAtMs'', JNum t),
        (''overall'', JStr (statusName st)), (''reasons'', JArr (map (\<lambda>r. JStr (reasonName r)) rs)),
        (''previousAlertIdHex'', jsonOptional pr)]))"
    using t canonical_atoms by (intro canonicalJson_members_ok) (simp del: canonicalJson.simps(5,6))
  then show ?thesis by (auto simp: deriveOperatorAlertId_def alertDigest_iff isOk_iff simp del: canonicalJson.simps)
qed

lemma createPending_total:
  assumes "operatorAlertConditionMaterial sha256 p BRIDGE_DAEMON_OPERATOR_ALERT_PROFILE_V1 = Inr c" and "isNonnegSafe now"
  shows "\<exists>k. createPendingState sha256 BRIDGE_DAEMON_OPERATOR_ALERT_PROFILE_V1 n kind c g previous now = Inr k
     \<and> overall k = cdOverall c"
proof -
  have "inOrder (cdReasons c)" using condition_iff [OF assms(1)] by blast
  moreover obtain x where "deriveOperatorAlertId sha256 BRIDGE_DAEMON_OPERATOR_ALERT_PROFILE_V1 kind (cdDigestHex c) g now
      (cdOverall c) (cdReasons c) previous = Inr x" using derive_total assms(2) by (metis isNonnegSafe_def)
  moreover have "normalizeOperatorAlertReasons (cdReasons c) = Inr (cdReasons c)" "alertNonnegative now l = Inr now" for l
    using calculation(1) assms(2) by (simp_all add: reasons_iff alertNonnegative_iff)
  ultimately show ?thesis by (simp add: createPendingState_def)
qed

lemma claim_pending:
  assumes "alertStateOk sha256 k" and "deliveryStatus k = Pending" and "isNonnegSafe now" and "isSafeInteger (now + 15000)"
    and "isSafeInteger (revision k + 1)"
  shows "\<exists>k'. claimOperatorAlertAttempt sha256 k BRIDGE_DAEMON_OPERATOR_ALERT_PROFILE_V1 now = Inr (Some k')
     \<and> deliveryStatus k' = Delivering \<and> claimedAtMs k' = Some now \<and> revision k' = revision k + 1
     \<and> reasons k' = reasons k \<and> overall k' = overall k \<and> transition k' = transition k"
proof -
  have "normalizeOperatorAlertDeliveryState sha256 k BRIDGE_DAEMON_OPERATOR_ALERT_PROFILE_V1 = Inr k"
    using assms(1) by (simp add: normalize_state_iff)
  moreover have "attemptCount k = 0" using assms(1,2) by (simp add: alertStateOk_def metadataOk_def)
  moreover have "alertNonnegative now l = Inr now" for l using assms(3) by (simp add: alertNonnegative_iff)
  ultimately show ?thesis using assms
    by (simp add: claimOperatorAlertAttempt_def Let_def incrementSafeInteger_def canonical_atoms(6))
qed

lemma finish_delivered:
  assumes "alertStateOk sha256 k" and "deliveryStatus k = Delivering" and "isNonnegSafe now" and "isSafeInteger (revision k + 1)"
  shows "\<exists>k'. finishOperatorAlertAttempt sha256 k BRIDGE_DAEMON_OPERATOR_ALERT_PROFILE_V1 now ResultDelivered = Inr k'
     \<and> deliveryStatus k' = Delivered \<and> revision k' = revision k + 1
     \<and> reasons k' = reasons k \<and> overall k' = overall k \<and> transition k' = transition k"
proof -
  have "normalizeOperatorAlertDeliveryState sha256 k BRIDGE_DAEMON_OPERATOR_ALERT_PROFILE_V1 = Inr k"
    using assms(1) by (simp add: normalize_state_iff)
  moreover have "alertNonnegative now l = Inr now" for l using assms(3) by (simp add: alertNonnegative_iff)
  ultimately show ?thesis using assms
    by (simp add: finishOperatorAlertAttempt_def Let_def incrementSafeInteger_def)
qed

lemma cas_stores:
  assumes "alertStateOk sha256 st" and "map_option revision (trackerCurrent (world s)) = e"
    and "revision st = (case e of None \<Rightarrow> 1 | Some k \<Rightarrow> k + 1)"
  shows "\<exists>s'. compareAndSet (adapterPorts sha256 (trackerSource sha256) sink) e st s = (Inr CasStored, s')
     \<and> trackerCurrent (world s') = Some st \<and> calls s' = calls s @ [CasCall e st (Inr CasStored)]"
  using assms by (auto simp: compareAndSet_def portAction_def adapterPorts_def trackerCas_eq trackerCurrent_def)

lemma event_of_record: "alertStateOk sha256 k \<Longrightarrow> alertStateOk sha256 (recordOf now k r) \<Longrightarrow>
    operatorAlertEventForState sha256 (recordOf now k r) BRIDGE_DAEMON_OPERATOR_ALERT_PROFILE_V1
      = operatorAlertEventForState sha256 k BRIDGE_DAEMON_OPERATOR_ALERT_PROFILE_V1"
  by (cases r) (simp_all add: operatorAlertEventForState_def normalize_state_iff [THEN iffD2] recordOf_def)

lemma finish_run:
  assumes k: "alertStateOk sha256 k" "deliveryStatus k = Delivering" "claimedAtMs k = Some now" "isNonnegSafe now"
      "isSafeInteger (revision k + 1)"
    and cur: "trackerCurrent (world s) = Some k" and sink: "\<And>ev w. sink ev w = (Inr RawDelivered, w)"
  shows "\<exists>s' ev. finishStage sha256 (adapterPorts sha256 (trackerSource sha256) sink) BRIDGE_DAEMON_OPERATOR_ALERT_PROFILE_V1 now k s
       = (Inr DeliveredNow, s') \<and> trackerCurrent (world s') = Some (recordOf now k ResultDelivered)
     \<and> operatorAlertEventForState sha256 (recordOf now k ResultDelivered) BRIDGE_DAEMON_OPERATOR_ALERT_PROFILE_V1 = Inr ev
     \<and> calls s' = calls s @ [DeliverCall ev (Inr RawDelivered),
         CasCall (Some (revision k)) (recordOf now k ResultDelivered) (Inr CasStored)]"
proof -
  let ?ports = "adapterPorts sha256 (trackerSource sha256) sink" and ?st = "recordOf now k ResultDelivered"
  obtain ev where ev: "operatorAlertEventForState sha256 k BRIDGE_DAEMON_OPERATOR_ALERT_PROFILE_V1 = Inr ev"
    using k(1) by (simp add: operatorAlertEventForState_def normalize_state_iff andThen_Inr_iff)
  define s1 where "s1 = s \<lparr> world := world s, calls := calls s @ [DeliverCall ev (Inr RawDelivered)] \<rparr>"
  have d: "attemptDelivery ?ports ev s = (Inr ResultDelivered, s1)"
    by (simp add: s1_def attemptDelivery_def action_defs adapterPorts_def sink)
  have s1: "world s1 = world s" "calls s1 = calls s @ [DeliverCall ev (Inr RawDelivered)]" by (simp_all add: s1_def)
  from finish_delivered [OF k(1,2,4,5)] obtain st
    where fin: "finishOperatorAlertAttempt sha256 k BRIDGE_DAEMON_OPERATOR_ALERT_PROFILE_V1 now ResultDelivered = Inr st" by blast
  then have fin: "finishOperatorAlertAttempt sha256 k BRIDGE_DAEMON_OPERATOR_ALERT_PROFILE_V1 now ResultDelivered = Inr ?st"
    using finish_step [OF fin] by simp
  note ok = finish_ok [OF fin k(3)]
  have "revision ?st = revision k + 1" by (simp add: recordOf_def)
  then obtain s2 where "compareAndSet ?ports (Some (revision k)) ?st s1 = (Inr CasStored, s2)" "trackerCurrent (world s2) = Some ?st"
      "calls s2 = calls s1 @ [CasCall (Some (revision k)) ?st (Inr CasStored)]"
    using cas_stores [OF ok, of s1 "Some (revision k)"] s1 cur by auto
  with ev d s1 fin event_of_record [OF k(1) ok] show ?thesis
    by (intro exI [of _ s2] exI [of _ ev]) (simp add: finishStage_def bindA_def liftA_def returnA_def)
qed

lemma claim_run:
  fixes k :: alert_state and now :: int
  defines "c \<equiv> claimedFrom now k"
  assumes k: "alertStateOk sha256 k" "deliveryStatus k = Pending" "openedAtMs k \<le> now" "isNonnegSafe now"
      "isSafeInteger (now + 15000)" "isSafeInteger (revision k + 2)"
    and cur: "trackerCurrent (world s) = Some k" and sink: "\<And>ev w. sink ev w = (Inr RawDelivered, w)"
  shows "\<exists>s' ev. claimStage sha256 (adapterPorts sha256 (trackerSource sha256) sink) BRIDGE_DAEMON_OPERATOR_ALERT_PROFILE_V1 now k s
       = (Inr DeliveredNow, s') \<and> trackerCurrent (world s') = Some (recordOf now c ResultDelivered)
     \<and> operatorAlertEventForState sha256 (recordOf now c ResultDelivered) BRIDGE_DAEMON_OPERATOR_ALERT_PROFILE_V1 = Inr ev
     \<and> calls s' = calls s @ [CasCall (Some (revision k)) c (Inr CasStored), DeliverCall ev (Inr RawDelivered),
         CasCall (Some (revision c)) (recordOf now c ResultDelivered) (Inr CasStored)]"
proof -
  let ?ports = "adapterPorts sha256 (trackerSource sha256) sink"
  have rev1: "isSafeInteger (revision k + 1)" using k(1,6) by (auto simp: alertStateOk_def safe_defs)
  from claim_pending [OF k(1,2,4,5) rev1] obtain c'
    where c': "claimOperatorAlertAttempt sha256 k BRIDGE_DAEMON_OPERATOR_ALERT_PROFILE_V1 now = Inr (Some c')" by blast
  then have claim: "claimOperatorAlertAttempt sha256 k BRIDGE_DAEMON_OPERATOR_ALERT_PROFILE_V1 now = Inr (Some c)"
    using claim_step [OF c'] by (simp add: c_def)
  note ok = claim_ok [OF claim k(3)]
  have c: "deliveryStatus c = Delivering" "claimedAtMs c = Some now" "revision c = revision k + 1" by (simp_all add: c_def)
  obtain s1 where w: "compareAndSet ?ports (Some (revision k)) c s = (Inr CasStored, s1)" "trackerCurrent (world s1) = Some c"
      "calls s1 = calls s @ [CasCall (Some (revision k)) c (Inr CasStored)]"
    using cas_stores [OF ok, of s "Some (revision k)"] c(3) cur by auto
  have "isSafeInteger (revision c + 1)" using k(6) c(3) by (simp add: algebra_simps)
  from finish_run [where sink = sink, OF ok c(1,2) k(4) this w(2) sink] claim w k(2) show ?thesis
    by (auto simp: claimStage_def bindA_def liftA_def)
qed

lemma reconcile_raises:
  assumes "projectOperatorHealth i = Inr p" and "pjOverall p \<noteq> Healthy" and "isNonnegSafe nowMs"
  obtains k where "reconcileOperatorAlertState sha256 p BRIDGE_DAEMON_OPERATOR_ALERT_PROFILE_V1 None g nowMs = Inr (Some k)"
    and "revision k = 1" and "deliveryStatus k = Pending" and "openedAtMs k = nowMs" and "reasons k = pjReasons p"
    and "overall k = pjOverall p" and "transition k = Raised"
proof -
  let ?V1 = BRIDGE_DAEMON_OPERATOR_ALERT_PROFILE_V1
  from projection_condition [OF assms(1)] assms(2) obtain c where c: "operatorAlertConditionMaterial sha256 p ?V1 = Inr c"
    "cdActive c" "cdReasons c = pjReasons p" "cdOverall c = pjOverall p" by blast
  from createPending_total [OF c(1) assms(3)] obtain k where k: "createPendingState sha256 ?V1 1 Raised c g None nowMs = Inr k"
    "overall k = cdOverall c" by blast
  have "reconcileOperatorAlertState sha256 p ?V1 None g nowMs = Inr (Some k)"
    using c k assms(3) by (simp add: reconcileOperatorAlertState_def alertNonnegative_def isNonnegSafe_def)
  then show thesis using createPending_eq [OF c(1) k(1)] c(3,4) k(2) by (intro that [of k]) (auto simp: freshPending_def)
qed

text \<open>C12. When the projection is not healthy and no alert is recorded, one cycle over the tracker raises the alert with
  exactly the reasons of the projection, stores it, claims it, delivers its event once to a sink that accepts, and
  leaves it recorded as delivered: its calls are the read, the write of the pending alert, the write of the claim, the
  delivery of the event of the recorded alert and the write of the record, in that order.\<close>

theorem unhealthy_projection_is_alerted:
  assumes p: "projectOperatorHealth i = Inr p" "pjOverall p \<noteq> Healthy" and hex: "hexDigest sha256"
    and now: "isNonnegSafe nowMs" "isSafeInteger (nowMs + 15000)"
    and table: "trackerCurrent (world s) = None" "isHex64 (tableGenerationHex (world s))"
    and sink: "\<And>ev w. sink ev w = (Inr RawDelivered, w)"
  shows "\<exists>s' k c st ev. runOperatorAlertDeliveryCycle sha256 (adapterPorts sha256 (trackerSource sha256) sink)
       BRIDGE_DAEMON_OPERATOR_ALERT_PROFILE_V1 p nowMs s = (Inr DeliveredNow, s')
     \<and> calls s' = calls s @ [ReadCall OPERATOR_ALERT_PROFILE_ID (Inr (ReadAvailable (tableGenerationHex (world s)) None)),
         CasCall None k (Inr CasStored), CasCall (Some 1) c (Inr CasStored), DeliverCall ev (Inr RawDelivered),
         CasCall (Some 2) st (Inr CasStored)]
     \<and> deliveryStatus k = Pending \<and> deliveryStatus c = Delivering \<and> claimedAtMs c = Some nowMs
     \<and> operatorAlertEventForState sha256 st BRIDGE_DAEMON_OPERATOR_ALERT_PROFILE_V1 = Inr ev
     \<and> evReasons ev = pjReasons p \<and> evOpenedAtMs ev = nowMs
     \<and> trackerCurrent (world s') = Some st \<and> deliveryStatus st = Delivered \<and> deliveredAtMs st = Some nowMs
     \<and> reasons st = pjReasons p \<and> overall st = pjOverall p \<and> transition st = Raised"
proof -
  let ?ports = "adapterPorts sha256 (trackerSource sha256) sink" and ?V1 = BRIDGE_DAEMON_OPERATOR_ALERT_PROFILE_V1
  let ?g = "tableGenerationHex (world s)"
  obtain k where rec: "reconcileOperatorAlertState sha256 p ?V1 None ?g nowMs = Inr (Some k)"
    and k: "revision k = 1" "deliveryStatus k = Pending" "openedAtMs k = nowMs" "reasons k = pjReasons p"
      "overall k = pjOverall p" "transition k = Raised" by (rule reconcile_raises [OF p now(1)])
  note ok = reconcile_ok(1) [OF rec hex table(2)]
  let ?s1 = "s \<lparr> world := world s, calls := calls s @ [ReadCall OPERATOR_ALERT_PROFILE_ID (Inr (ReadAvailable ?g None))] \<rparr>"
  have read: "readPort ?ports OPERATOR_ALERT_PROFILE_ID (world s) = (Inr (ReadAvailable ?g None), world s)"
    using table by (simp add: adapterPorts_def adapterRead_def trackerSource_def rowGet_def trackerCurrent_def
        normalizeOperatorAlertCacheGenerationHex_def alertHex32_def)
  obtain s2 where w: "compareAndSet ?ports None k ?s1 = (Inr CasStored, s2)" "trackerCurrent (world s2) = Some k"
      "calls s2 = calls ?s1 @ [CasCall None k (Inr CasStored)]"
    using cas_stores [OF ok, of ?s1 None] k(1) table(1) by auto
  let ?c = "claimedFrom nowMs k"
  let ?st = "recordOf nowMs ?c ResultDelivered"
  have "isSafeInteger (revision k + 2)" "openedAtMs k \<le> nowMs" using k by (simp_all add: safe_defs)
  from claim_run [where sink = sink, OF ok k(2) this(2) now this(1) w(2) sink] obtain s' ev
    where run: "claimStage sha256 ?ports ?V1 nowMs k s2 = (Inr DeliveredNow, s')" "trackerCurrent (world s') = Some ?st"
      and ev: "operatorAlertEventForState sha256 ?st ?V1 = Inr ev"
      and calls: "calls s' = calls s2 @ [CasCall (Some (revision k)) ?c (Inr CasStored), DeliverCall ev (Inr RawDelivered),
        CasCall (Some (revision ?c)) ?st (Inr CasStored)]" by blast
  have "reconcileStage sha256 ?ports ?V1 p nowMs ?g None ?s1 = (Inr DeliveredNow, s')"
    using rec w run by (simp add: reconcileStage_def bindA_def liftA_def)
  then have cycle: "runOperatorAlertDeliveryCycle sha256 ?ports ?V1 p nowMs s = (Inr DeliveredNow, s')"
    using read now profileOk_iff [of ?V1 "()"]
    by (simp add: runOperatorAlertDeliveryCycle_def bindA_def liftA_def portAction_def alertNonnegative_def isNonnegSafe_def)
  have st: "deliveryStatus ?st = Delivered" "deliveredAtMs ?st = Some nowMs" "reasons ?st = pjReasons p" "overall ?st = pjOverall p"
    "transition ?st = Raised" "openedAtMs ?st = nowMs" using k by (simp_all add: recordOf_def claimedFrom_def)
  moreover from ev st have "evReasons ev = pjReasons p" "evOpenedAtMs ev = nowMs"
    by (auto simp: operatorAlertEventForState_def result_simps normalize_state_iff)
  ultimately show ?thesis using cycle run(2) ev k calls w(3)
    by (intro exI [of _ s'] exI [of _ k] exI [of _ ?c] exI [of _ ?st] exI [of _ ev]) simp
qed


section \<open>Witnesses\<close>

definition demoSha :: "string \<Rightarrow> string" where
  "demoSha t = demoAlertHex"

definition demoSink :: "alert_event \<Rightarrow> (alert_table, raw_delivery) port" where
  "demoSink ev w = (Inr RawDelivered, w)"

definition demoAlertRun :: "(alert_table, alert_call) port_run" where
  "demoAlertRun = \<lparr> world = \<lparr> tableGenerationHex = demoAlertHex, alertRows = Map.empty \<rparr>, calls = [] \<rparr>"

definition demoHeldProjection :: health_projection where
  "demoHeldProjection = accepted (projectOperatorHealth demoHeldInput)"

definition demoCycle :: "(alert_error + cycle_outcome) \<times> (alert_table, alert_call) port_run" where
  "demoCycle = runOperatorAlertDeliveryCycle demoSha (adapterPorts demoSha (trackerSource demoSha) demoSink)
     BRIDGE_DAEMON_OPERATOR_ALERT_PROFILE_V1 demoHeldProjection 1000000 demoAlertRun"

lemma demo_facts: "hexDigest demoSha" "isNonnegSafe 1000000" "isSafeInteger (1000000 + 15000)" "calls demoAlertRun = []"
  "trackerCurrent (world demoAlertRun) = None" "isHex64 (tableGenerationHex (world demoAlertRun))" "rowsOk demoSha (world demoAlertRun)"
  "projectOperatorHealth demoHeldInput = Inr demoHeldProjection" "pjOverall demoHeldProjection \<noteq> Healthy"
proof -
  show "pjOverall demoHeldProjection \<noteq> Healthy" by code_simp
  show "projectOperatorHealth demoHeldInput = Inr demoHeldProjection"
    unfolding demoHeldProjection_def by (rule accepted_eq [OF demo_inputs_ok(2)])
qed (simp_all add: hexDigest_def demoSha_def demoAlertHex_ok safe_defs demoAlertRun_def trackerCurrent_def rowsOk_def)

theorem unhealthy_projection_is_alerted_witness:
  "\<exists>s' k c st ev. demoCycle = (Inr DeliveredNow, s')
     \<and> calls s' = [ReadCall OPERATOR_ALERT_PROFILE_ID (Inr (ReadAvailable demoAlertHex None)),
         CasCall None k (Inr CasStored), CasCall (Some 1) c (Inr CasStored), DeliverCall ev (Inr RawDelivered),
         CasCall (Some 2) st (Inr CasStored)]
     \<and> evReasons ev = pjReasons demoHeldProjection \<and> trackerCurrent (world s') = Some st \<and> deliveryStatus st = Delivered
     \<and> reasons st = pjReasons demoHeldProjection \<and> overall st = pjOverall demoHeldProjection \<and> transition st = Raised"
proof -
  have sink: "demoSink ev w = (Inr RawDelivered, w)" for ev w by (simp add: demoSink_def)
  have "tableGenerationHex (world demoAlertRun) = demoAlertHex" by (simp add: demoAlertRun_def)
  with unhealthy_projection_is_alerted [where sink = demoSink, OF demo_facts(8,9,1,2,3,5,6) sink] show ?thesis
    unfolding demoCycle_def demo_facts(4) append_Nil by metis
qed

theorem alert_cycle_lawful_witness:
  "cycleTrace demoSha demoHeldProjection 1000000 (calls (snd demoCycle)) \<and> calls (snd demoCycle) \<noteq> []
     \<and> length (filter isDeliver (calls (snd demoCycle))) \<le> 1"
  using alert_cycle_lawful [OF _ demo_facts(4), of demoSha "adapterPorts demoSha (trackerSource demoSha) demoSink"
      BRIDGE_DAEMON_OPERATOR_ALERT_PROFILE_V1 demoHeldProjection 1000000 "fst demoCycle" "snd demoCycle"] demo_facts(2)
  by (simp add: demoCycle_def)

text \<open>A store that has no alert and refuses every write.\<close>

definition refusingPorts :: "unit alert_ports" where
  "refusingPorts = \<lparr> readPort = (\<lambda>pid w. (Inr (ReadAvailable demoAlertHex None), w)), casPort = (\<lambda>e st w. (Inr CasConflict, w)),
     deliverPort = (\<lambda>ev w. (Inr RawDelivered, w)) \<rparr>"

definition demoRefused :: "(alert_error + cycle_outcome) \<times> (unit, alert_call) port_run" where
  "demoRefused = runOperatorAlertDeliveryCycle demoSha refusingPorts BRIDGE_DAEMON_OPERATOR_ALERT_PROFILE_V1
     demoHeldProjection 1000000 \<lparr> world = (), calls = [] \<rparr>"

lemma demoRefused_writes: "\<exists>st. CasCall None st (Inr CasConflict) \<in> set (calls (snd demoRefused))"
proof -
  obtain k where "reconcileOperatorAlertState demoSha demoHeldProjection BRIDGE_DAEMON_OPERATOR_ALERT_PROFILE_V1 None demoAlertHex 1000000
      = Inr (Some k)" by (rule reconcile_raises [OF demo_facts(8,9,2)])
  then show ?thesis using demo_facts(2) profileOk_iff [of BRIDGE_DAEMON_OPERATOR_ALERT_PROFILE_V1 "()"]
    by (simp add: demoRefused_def runOperatorAlertDeliveryCycle_def reconcileStage_def compareAndSet_def action_defs refusingPorts_def
        alertNonnegative_def isNonnegSafe_def)
qed

theorem alert_writes_well_formed_witness:
  "\<exists>st. CasCall None st (Inr CasConflict) \<in> set (calls (snd demoRefused))
     \<and> normalizeOperatorAlertDeliveryState demoSha st BRIDGE_DAEMON_OPERATOR_ALERT_PROFILE_V1 = Inr st"
proof -
  have "\<forall>e st a. CasCall e st a \<in> set (calls (snd demoRefused)) \<longrightarrow>
      normalizeOperatorAlertDeliveryState demoSha st BRIDGE_DAEMON_OPERATOR_ALERT_PROFILE_V1 = Inr st"
    by (rule alert_writes_well_formed [of demoSha refusingPorts BRIDGE_DAEMON_OPERATOR_ALERT_PROFILE_V1 demoHeldProjection 1000000
        "\<lparr> world = (), calls = [] \<rparr>" "fst demoRefused"])
      (auto simp: demoRefused_def demo_facts(1) refusingPorts_def demoAlertHex_ok)
  then show ?thesis using demoRefused_writes by blast
qed

theorem alert_table_invariant_witness: "rowsOk demoSha (world (snd demoCycle))"
  by (rule conjunct1 [OF alert_table_invariant [of demoSha demoAlertRun demoSink BRIDGE_DAEMON_OPERATOR_ALERT_PROFILE_V1
      demoHeldProjection 1000000 "fst demoCycle" "snd demoCycle"]])
    (simp_all add: demo_facts demoSink_def demoCycle_def)

theorem projection_has_condition_witness:
  "\<exists>c. operatorAlertConditionMaterial demoSha demoHeldProjection BRIDGE_DAEMON_OPERATOR_ALERT_PROFILE_V1 = Inr c \<and> cdActive c"
  using projection_has_condition [OF demo_facts(8), of demoSha] demo_facts(9) by auto

text \<open>Two daemons that both saw an empty table: one stores its alert, the other is refused.\<close>

definition demoPending :: alert_state where
  "demoPending = \<lparr> stateSchema = OPERATOR_ALERT_DELIVERY_STATE_SCHEMA, stateProfileId = OPERATOR_ALERT_PROFILE_ID,
     stateProfileVersion = 1, revision = 1, alertIdHex = demoAlertHex, conditionDigestHex = demoAlertHex,
     cacheGenerationHex = demoAlertHex, openedAtMs = 1000, transition = Raised, conditionActive = True, overall = Held,
     reasons = [read_quorum_held], previousAlertIdHex = None, deliveryStatus = Pending, attemptCount = 0,
     claimedAtMs = None, leaseExpiresAtMs = None, nextAttemptAtMs = None, deliveredAtMs = None, lastFailureCode = None,
     updatedAtMs = 1000 \<rparr>"

lemma demoPending_ok: "alertStateOk demoSha demoPending"
proof -
  obtain x where "deriveOperatorAlertId demoSha BRIDGE_DAEMON_OPERATOR_ALERT_PROFILE_V1 Raised demoAlertHex demoAlertHex 1000 Held
      [read_quorum_held] None = Inr x" using derive_total [of 1000] by (simp add: safe_defs) blast
  moreover from this have "x = demoAlertHex" by (auto simp: deriveOperatorAlertId_def alertDigest_iff demoSha_def)
  moreover have "inOrder [read_quorum_held]" by (simp add: inOrder_def)
  ultimately show ?thesis
    by (simp add: alertStateOk_def occurrenceOk_def metadataOk_def okOptional_def demoPending_def demoAlertHex_ok safe_defs)
qed

theorem one_claim_per_revision_witness:
  "map revision (fst (serve (adapterCompareAndSet demoSha (trackerSource demoSha)) [(None, demoPending), (None, demoPending)]
     (world demoAlertRun))) = [1]"
proof -
  have one: "revision demoPending = 1" by (simp add: demoPending_def)
  obtain w' where "serve (adapterCompareAndSet demoSha (trackerSource demoSha)) [(None, demoPending), (None, demoPending)]
     (world demoAlertRun) = ([demoPending], w')"
    by (simp add: trackerCas_eq demoPending_ok one trackerCurrent_def demoAlertRun_def)
  from one_claim_per_revision [OF this] this show ?thesis
    by (simp add: trackerCurrent_def demoAlertRun_def storeAt_def)
qed

theorem alertEvent_roundtrip_witness:
  "\<exists>e. operatorAlertEventForState demoSha demoPending BRIDGE_DAEMON_OPERATOR_ALERT_PROFILE_V1 = Inr e
     \<and> normalizeOperatorAlertEvent (eventJson e) = Inr e"
proof -
  obtain e where e: "operatorAlertEventForState demoSha demoPending BRIDGE_DAEMON_OPERATOR_ALERT_PROFILE_V1 = Inr e"
    using demoPending_ok by (simp add: operatorAlertEventForState_def normalize_state_iff andThen_Inr_iff)
  with alertEvent_roundtrip [OF e] show ?thesis by blast
qed

end
