(* ===== verification/Operator_Outbox.thy ===== *)
theory Operator_Outbox
  imports Alert_Store "HOL-Library.Product_Lexorder"
begin

text \<open>
  The external alert outbox (\<^verbatim>\<open>relayer-core/operator-alert-external-outbox.ts\<close>) and its SQLite store
  (\<^verbatim>\<open>adapters/operator-alert-external-outbox.ts\<close>): the daemon enqueues the event of an alert, a worker in
  another process claims, transmits and settles one item per cycle.

  The event of an item is a \<open>json\<close> value, as it is read from the database. A row of the table holds the item its
  canonical text encodes; the other columns repeat its fields. The transport is a port that answers any value
  (an answer that is an instance of a class is malformed) or throws. SHA-256 is a parameter.
\<close>

section \<open>Data\<close>

datatype transport_failure = transport_rejected | transport_unavailable | transport_malformed | transport_threw

datatype outbox_error =
    OutboxAlert alert_error
  | UnsupportedOutboxItem
  | EventDoesNotMatchProfile
  | OutboxIdentityMismatch
  | OutboxNotHex32 string
  | OutboxDigestMismatch
  | RevisionRegressesAttempts
  | OutboxTimingMismatch
  | OutboxPendingHasMetadata
  | OutboxInvalidLease
  | OutboxInvalidRetry
  | OutboxInvalidReceipt
  | OutboxExceedsSafeRange string
  | OutboxIneligible
  | OutboxPortThrew string

definition OPERATOR_ALERT_EXTERNAL_OUTBOX_ITEM_SCHEMA :: string where
  "OPERATOR_ALERT_EXTERNAL_OUTBOX_ITEM_SCHEMA = ''e2s.operator-alert-external-outbox-item.v1''"

record outbox_item =
  obSchema :: string
  obProfileId :: string
  obProfileVersion :: int
  obAlertIdHex :: string
  obEventDigestHex :: string
  obEvent :: json
  obStatus :: delivery_status
  obRevision :: int
  obAttemptCount :: int
  obClaimedAtMs :: "int option"
  obLeaseExpiresAtMs :: "int option"
  obNextAttemptAtMs :: "int option"
  obDeliveredAtMs :: "int option"
  obReceiptDigestHex :: "string option"
  obFailure :: "transport_failure option"
  obCreatedAtMs :: int
  obUpdatedAtMs :: int


section \<open>Items\<close>

definition liftAlert :: "alert_error + 'a \<Rightarrow> outbox_error + 'a" where
  "liftAlert r = (case r of Inl e \<Rightarrow> Inl (OutboxAlert e) | Inr x \<Rightarrow> Inr x)"

definition outboxHex32 :: "string \<Rightarrow> string \<Rightarrow> outbox_error + unit" where
  "outboxHex32 value label = require (isHex64 value) (OutboxNotHex32 label) (Inr ())"

definition increment :: "int \<Rightarrow> string \<Rightarrow> outbox_error + int" where
  "increment value label = (let n = value + 1 in require (isSafeInteger n) (OutboxExceedsSafeRange label) (Inr n))"

definition createPendingOperatorAlertExternalOutboxItem ::
    "(string \<Rightarrow> string) \<Rightarrow> json \<Rightarrow> alert_profile \<Rightarrow> outbox_error + outbox_item" where
  "createPendingOperatorAlertExternalOutboxItem sha256 value profile =
     andThen (liftAlert (assertSupportedOperatorAlertProfile profile)) (\<lambda>_.
     andThen (liftAlert (normalizeOperatorAlertEvent value)) (\<lambda>e.
     require (\<not> (OPERATOR_ALERT_PROFILE_ID \<noteq> profileId profile \<or> 1 \<noteq> profileVersion profile)) EventDoesNotMatchProfile (
     andThen (liftAlert (digestOperatorAlertEvent sha256 (eventJson e))) (\<lambda>digest.
     Inr \<lparr> obSchema = OPERATOR_ALERT_EXTERNAL_OUTBOX_ITEM_SCHEMA, obProfileId = profileId profile,
           obProfileVersion = profileVersion profile, obAlertIdHex = evAlertIdHex e, obEventDigestHex = digest,
           obEvent = eventJson e, obStatus = Pending, obRevision = 1, obAttemptCount = 0, obClaimedAtMs = None,
           obLeaseExpiresAtMs = None, obNextAttemptAtMs = None, obDeliveredAtMs = None, obReceiptDigestHex = None,
           obFailure = None, obCreatedAtMs = evOpenedAtMs e, obUpdatedAtMs = evOpenedAtMs e \<rparr>))))"

definition assertOutboxMetadata :: "outbox_item \<Rightarrow> alert_profile \<Rightarrow> outbox_error + unit" where
  "assertOutboxMetadata i profile = (case obStatus i of
       Pending \<Rightarrow> require (\<not> (obRevision i \<noteq> 1 \<or> obAttemptCount i \<noteq> 0 \<or> obClaimedAtMs i \<noteq> None \<or> obLeaseExpiresAtMs i \<noteq> None
           \<or> obNextAttemptAtMs i \<noteq> None \<or> obDeliveredAtMs i \<noteq> None \<or> obReceiptDigestHex i \<noteq> None \<or> obFailure i \<noteq> None
           \<or> obUpdatedAtMs i \<noteq> obCreatedAtMs i)) OutboxPendingHasMetadata (Inr ())
     | Delivering \<Rightarrow> require (\<not> (obAttemptCount i = 0
           \<or> (case obClaimedAtMs i of None \<Rightarrow> True | Some c \<Rightarrow> c \<noteq> obUpdatedAtMs i
               \<or> (case obLeaseExpiresAtMs i of None \<Rightarrow> True | Some l \<Rightarrow> l \<noteq> c + attemptLeaseMs profile))
           \<or> obNextAttemptAtMs i \<noteq> None \<or> obDeliveredAtMs i \<noteq> None \<or> obReceiptDigestHex i \<noteq> None \<or> obFailure i \<noteq> None))
           OutboxInvalidLease (Inr ())
     | RetryWait \<Rightarrow> require (\<not> (obAttemptCount i = 0 \<or> obClaimedAtMs i \<noteq> None \<or> obLeaseExpiresAtMs i \<noteq> None
           \<or> (case obNextAttemptAtMs i of None \<Rightarrow> True | Some n \<Rightarrow> n \<noteq> obUpdatedAtMs i + retryDelayMs profile)
           \<or> obDeliveredAtMs i \<noteq> None \<or> obReceiptDigestHex i \<noteq> None \<or> obFailure i = None)) OutboxInvalidRetry (Inr ())
     | Delivered \<Rightarrow> require (\<not> (obAttemptCount i = 0 \<or> obClaimedAtMs i \<noteq> None \<or> obLeaseExpiresAtMs i \<noteq> None
           \<or> obNextAttemptAtMs i \<noteq> None
           \<or> (case obDeliveredAtMs i of None \<Rightarrow> True | Some d \<Rightarrow> d \<noteq> obUpdatedAtMs i) \<or> obReceiptDigestHex i = None
           \<or> obFailure i \<noteq> None)) OutboxInvalidReceipt (Inr ()))"

definition normalizeOperatorAlertExternalOutboxItem ::
    "(string \<Rightarrow> string) \<Rightarrow> outbox_item \<Rightarrow> alert_profile \<Rightarrow> outbox_error + outbox_item" where
  "normalizeOperatorAlertExternalOutboxItem sha256 i profile =
     andThen (liftAlert (assertSupportedOperatorAlertProfile profile)) (\<lambda>_.
     require (\<not> (obSchema i \<noteq> OPERATOR_ALERT_EXTERNAL_OUTBOX_ITEM_SCHEMA \<or> obProfileId i \<noteq> profileId profile
                 \<or> obProfileVersion i \<noteq> profileVersion profile)) UnsupportedOutboxItem (
     andThen (liftAlert (normalizeOperatorAlertEvent (obEvent i))) (\<lambda>e.
     require (\<not> (OPERATOR_ALERT_PROFILE_ID \<noteq> profileId profile \<or> 1 \<noteq> profileVersion profile
                 \<or> obAlertIdHex i \<noteq> evAlertIdHex e)) OutboxIdentityMismatch (
     andThen (outboxHex32 (obAlertIdHex i) ''operator alert external outbox id'') (\<lambda>_.
     andThen (outboxHex32 (obEventDigestHex i) ''operator alert external outbox event digest'') (\<lambda>_.
     andThen (liftAlert (digestOperatorAlertEvent sha256 (eventJson e))) (\<lambda>digest.
     require (obEventDigestHex i = digest) OutboxDigestMismatch (
     andThen (liftAlert (alertPositive (obRevision i) ''operator alert external outbox revision'')) (\<lambda>revNo.
     andThen (liftAlert (alertNonnegative (obAttemptCount i) ''operator alert external outbox attempt count'')) (\<lambda>attempts.
     require (\<not> revNo < attempts + 1) RevisionRegressesAttempts (
     andThen (liftAlert (alertNonnegative (obCreatedAtMs i) ''operator alert external outbox creation time'')) (\<lambda>created.
     andThen (liftAlert (alertNonnegative (obUpdatedAtMs i) ''operator alert external outbox update time'')) (\<lambda>updated.
     require (\<not> (created \<noteq> evOpenedAtMs e \<or> updated < created)) OutboxTimingMismatch (
     andThen (liftAlert (normalizeOptionalTime (obClaimedAtMs i) ''operator alert external outbox claim time'')) (\<lambda>claimed.
     andThen (liftAlert (normalizeOptionalTime (obLeaseExpiresAtMs i) ''operator alert external outbox lease expiry'')) (\<lambda>lease.
     andThen (liftAlert (normalizeOptionalTime (obNextAttemptAtMs i) ''operator alert external outbox retry time'')) (\<lambda>nextAt.
     andThen (liftAlert (normalizeOptionalTime (obDeliveredAtMs i) ''operator alert external outbox delivery time'')) (\<lambda>deliveredAt.
     andThen (case obReceiptDigestHex i of None \<Rightarrow> Inr ()
                | Some d \<Rightarrow> outboxHex32 d ''operator alert external delivery receipt digest'') (\<lambda>_.
     andThen (assertOutboxMetadata i profile) (\<lambda>_.
     Inr (i \<lparr> obEvent := eventJson e, obRevision := revNo, obAttemptCount := attempts, obClaimedAtMs := claimed,
             obLeaseExpiresAtMs := lease, obNextAttemptAtMs := nextAt, obDeliveredAtMs := deliveredAt,
             obCreatedAtMs := created, obUpdatedAtMs := updated \<rparr>)))))))))))))))))))))"

definition isEligible :: "outbox_item \<Rightarrow> int \<Rightarrow> bool" where
  "isEligible i nowMs = (case obStatus i of
       Pending \<Rightarrow> True
     | RetryWait \<Rightarrow> (case obNextAttemptAtMs i of None \<Rightarrow> False | Some t \<Rightarrow> nowMs \<ge> t)
     | Delivering \<Rightarrow> (case obLeaseExpiresAtMs i of None \<Rightarrow> False | Some t \<Rightarrow> nowMs \<ge> t)
     | Delivered \<Rightarrow> False)"

definition outboxClaim :: "(string \<Rightarrow> string) \<Rightarrow> outbox_item \<Rightarrow> int \<Rightarrow> alert_profile \<Rightarrow> outbox_error + outbox_item" where
  "outboxClaim sha256 i nowMs profile = (
     let lease = nowMs + attemptLeaseMs profile in
     require (isSafeInteger lease) (OutboxExceedsSafeRange ''operator alert external outbox lease expiry'') (
     andThen (increment (obRevision i) ''operator alert external outbox revision'') (\<lambda>revNo.
     andThen (increment (obAttemptCount i) ''operator alert external outbox attempt count'') (\<lambda>attempts.
     normalizeOperatorAlertExternalOutboxItem sha256 (i \<lparr> obStatus := Delivering, obRevision := revNo,
       obAttemptCount := attempts, obClaimedAtMs := Some nowMs, obLeaseExpiresAtMs := Some lease, obNextAttemptAtMs := None,
       obDeliveredAtMs := None, obReceiptDigestHex := None, obFailure := None, obUpdatedAtMs := nowMs \<rparr>) profile))))"

definition outboxRetry :: "(string \<Rightarrow> string) \<Rightarrow> outbox_item \<Rightarrow> int \<Rightarrow> alert_profile \<Rightarrow> transport_failure \<Rightarrow> outbox_error + outbox_item" where
  "outboxRetry sha256 i nowMs profile failure = (
     let nextAt = nowMs + retryDelayMs profile in
     require (isSafeInteger nextAt) (OutboxExceedsSafeRange ''operator alert external outbox retry time'') (
     andThen (increment (obRevision i) ''operator alert external outbox revision'') (\<lambda>revNo.
     normalizeOperatorAlertExternalOutboxItem sha256 (i \<lparr> obStatus := RetryWait, obRevision := revNo,
       obClaimedAtMs := None, obLeaseExpiresAtMs := None, obNextAttemptAtMs := Some nextAt, obDeliveredAtMs := None,
       obReceiptDigestHex := None, obFailure := Some failure, obUpdatedAtMs := nowMs \<rparr>) profile)))"

definition outboxDelivered :: "(string \<Rightarrow> string) \<Rightarrow> outbox_item \<Rightarrow> int \<Rightarrow> alert_profile \<Rightarrow> string \<Rightarrow> outbox_error + outbox_item" where
  "outboxDelivered sha256 i nowMs profile receipt =
     andThen (outboxHex32 receipt ''operator alert external delivery receipt digest'') (\<lambda>_.
     andThen (increment (obRevision i) ''operator alert external outbox revision'') (\<lambda>revNo.
     normalizeOperatorAlertExternalOutboxItem sha256 (i \<lparr> obStatus := Delivered, obRevision := revNo,
       obClaimedAtMs := None, obLeaseExpiresAtMs := None, obNextAttemptAtMs := None, obDeliveredAtMs := Some nowMs,
       obReceiptDigestHex := Some receipt, obFailure := None, obUpdatedAtMs := nowMs \<rparr>) profile))"

datatype transport_result = TransportDelivered string | TransportRetryable transport_failure

text \<open>\<^verbatim>\<open>Object.keys(result).sort().join(',')\<close>\<close>

definition keyText :: "(string \<times> json) list \<Rightarrow> string" where
  "keyText ms = joinComma (sort (map fst ms))"

definition normalizeTransportResult :: "json \<Rightarrow> transport_result option" where
  "normalizeTransportResult value = (case value of
       JObj ms \<Rightarrow>
         if field ms ''status'' = JStr ''delivered'' \<and> keyText ms = ''receiptDigestHex,status''
         then (case field ms ''receiptDigestHex'' of
             JStr d \<Rightarrow> if isHex64 d then Some (TransportDelivered d) else None | _ \<Rightarrow> None)
         else if field ms ''status'' = JStr ''retryable_failure'' \<and> keyText ms = ''code,status''
           \<and> (field ms ''code'' = JStr ''transport_rejected'' \<or> field ms ''code'' = JStr ''transport_unavailable'')
         then Some (TransportRetryable (if field ms ''code'' = JStr ''transport_rejected'' then transport_rejected
                                        else transport_unavailable))
         else None
     | _ \<Rightarrow> None)"


section \<open>Enqueueing and the worker cycle\<close>

datatype enqueue_answer = EnqueueStored | EnqueueSame | EnqueueConflict | EnqueueUnavailable

datatype enqueue_result = Enqueued outbox_item | EnqueueDeduplicated string | EnqueueStateConflict | EnqueuePersistenceFailed

definition enqueueOperatorAlertExternalOutboxEvent :: "(string \<Rightarrow> string) \<Rightarrow> (outbox_item \<Rightarrow> 'w \<Rightarrow> enqueue_answer \<times> 'w)
    \<Rightarrow> json \<Rightarrow> alert_profile \<Rightarrow> 'w \<Rightarrow> (outbox_error + enqueue_result) \<times> 'w" where
  "enqueueOperatorAlertExternalOutboxEvent sha256 enqueue event profile w =
     (case createPendingOperatorAlertExternalOutboxItem sha256 event profile of
       Inl e \<Rightarrow> (Inl e, w)
     | Inr item \<Rightarrow> (case enqueue item w of (stored, w') \<Rightarrow> (Inr (case stored of
           EnqueueStored \<Rightarrow> Enqueued item
         | EnqueueSame \<Rightarrow> EnqueueDeduplicated (obAlertIdHex item)
         | EnqueueConflict \<Rightarrow> EnqueueStateConflict
         | EnqueueUnavailable \<Rightarrow> EnqueuePersistenceFailed), w')))"

datatype outbox_read = OutboxReadUnavailable | OutboxReadItem "outbox_item option"

datatype worker_outcome =
    WorkerIdle | WorkerDeduplicated string | WorkerInFlight string | WorkerRetryWait string | WorkerDelivered string
  | WorkerRetryScheduled string "transport_failure option" | WorkerConflict | WorkerPersistenceFailed

text \<open>What the transport is given: the alert id, which is also the idempotency key, the digest and the event.\<close>

record transmission =
  txAlertIdHex :: string
  txIdempotencyKey :: string
  txEventDigestHex :: string
  txEvent :: json

datatype worker_call =
    ReadNextCall int "string + outbox_read"
  | OutboxCasCall int outbox_item "string + cas_result"
  | TransmitCall transmission "string + json"

record 'w worker_ports =
  readNextPort :: "int \<Rightarrow> ('w, outbox_read) port"
  outboxCasPort :: "int \<Rightarrow> outbox_item \<Rightarrow> ('w, cas_result) port"
  transportPort :: "transmission \<Rightarrow> ('w, json) port"

type_synonym ('w, 'a) worker_action = "(('w, worker_call) port_run, outbox_error, 'a) action"

definition outboxCompareAndSet :: "'w worker_ports \<Rightarrow> int \<Rightarrow> outbox_item \<Rightarrow> ('w, cas_result) worker_action" where
  "outboxCompareAndSet ports expected i = portAction OutboxPortThrew (OutboxCasCall expected i) (outboxCasPort ports expected i)"

text \<open>The outcome of a transmission: \<open>Inl\<close> the failure code, \<open>Inr\<close> the receipt.\<close>

definition transmit :: "'w worker_ports \<Rightarrow> outbox_item \<Rightarrow> ('w, transport_failure + string) worker_action" where
  "transmit ports claimed = (let tx = \<lparr> txAlertIdHex = obAlertIdHex claimed, txIdempotencyKey = obAlertIdHex claimed,
       txEventDigestHex = obEventDigestHex claimed, txEvent = obEvent claimed \<rparr> in
     tryA
      (bindA (portAction OutboxPortThrew (TransmitCall tx) (transportPort ports tx)) (\<lambda>answer.
       returnA (case normalizeTransportResult answer of
           None \<Rightarrow> Inl transport_malformed
         | Some (TransportRetryable failure) \<Rightarrow> Inl failure
         | Some (TransportDelivered receipt) \<Rightarrow> Inr receipt)))
      (\<lambda>_. returnA (Inl transport_threw)))"

definition settleStage :: "(string \<Rightarrow> string) \<Rightarrow> 'w worker_ports \<Rightarrow> alert_profile \<Rightarrow> int \<Rightarrow> outbox_item
    \<Rightarrow> ('w, worker_outcome) worker_action" where
  "settleStage sha256 ports profile now claimed =
     bindA (transmit ports claimed) (\<lambda>result.
     bindA (liftA (case result of
         Inr receipt \<Rightarrow> outboxDelivered sha256 claimed now profile receipt
       | Inl failure \<Rightarrow> outboxRetry sha256 claimed now profile failure)) (\<lambda>settled.
     bindA (outboxCompareAndSet ports (obRevision claimed) settled) (\<lambda>stored.
     returnA (case stored of
         CasUnavailable \<Rightarrow> WorkerPersistenceFailed
       | CasConflict \<Rightarrow> WorkerConflict
       | CasStored \<Rightarrow> if obStatus settled = Delivered then WorkerDelivered (obAlertIdHex settled)
                      else WorkerRetryScheduled (obAlertIdHex settled) (obFailure settled)))))"

definition workItem :: "(string \<Rightarrow> string) \<Rightarrow> 'w worker_ports \<Rightarrow> alert_profile \<Rightarrow> int \<Rightarrow> outbox_item
    \<Rightarrow> ('w, worker_outcome) worker_action" where
  "workItem sha256 ports profile now i =
     (if obStatus i = Delivered then returnA (WorkerDeduplicated (obAlertIdHex i))
      else if obStatus i = Delivering \<and> notYet (obLeaseExpiresAtMs i) now then returnA (WorkerInFlight (obAlertIdHex i))
      else if obStatus i = RetryWait \<and> notYet (obNextAttemptAtMs i) now then returnA (WorkerRetryWait (obAlertIdHex i))
      else bindA (liftA (require (isEligible i now) OutboxIneligible (Inr ()))) (\<lambda>_.
           bindA (liftA (outboxClaim sha256 i now profile)) (\<lambda>claimed.
           bindA (outboxCompareAndSet ports (obRevision i) claimed) (\<lambda>result. case result of
               CasUnavailable \<Rightarrow> returnA WorkerPersistenceFailed
             | CasConflict \<Rightarrow> returnA WorkerConflict
             | CasStored \<Rightarrow> settleStage sha256 ports profile now claimed))))"

definition runOperatorAlertExternalOutboxWorkerCycle :: "(string \<Rightarrow> string) \<Rightarrow> 'w worker_ports \<Rightarrow> alert_profile \<Rightarrow> int
    \<Rightarrow> ('w, worker_outcome) worker_action" where
  "runOperatorAlertExternalOutboxWorkerCycle sha256 ports profile nowMs =
     bindA (liftA (liftAlert (assertSupportedOperatorAlertProfile profile))) (\<lambda>_.
     bindA (liftA (liftAlert (alertNonnegative nowMs ''operator alert external outbox worker time''))) (\<lambda>now.
     bindA (portAction OutboxPortThrew (ReadNextCall now) (readNextPort ports now)) (\<lambda>answer. case answer of
         OutboxReadUnavailable \<Rightarrow> returnA WorkerPersistenceFailed
       | OutboxReadItem None \<Rightarrow> returnA WorkerIdle
       | OutboxReadItem (Some raw) \<Rightarrow>
           bindA (liftA (normalizeOperatorAlertExternalOutboxItem sha256 raw profile)) (\<lambda>i.
           workItem sha256 ports profile now i))))"


section \<open>The SQLite outbox\<close>

type_synonym outbox_table = "outbox_item list"

definition V1 :: alert_profile where
  "V1 = BRIDGE_DAEMON_OPERATOR_ALERT_PROFILE_V1"

definition parseOutboxItem :: "(string \<Rightarrow> string) \<Rightarrow> outbox_item \<Rightarrow> outbox_error + outbox_item" where
  "parseOutboxItem sha256 row = normalizeOperatorAlertExternalOutboxItem sha256 row V1"

definition rowOf :: "outbox_table \<Rightarrow> string \<Rightarrow> outbox_item option" where
  "rowOf rows k = List.find (\<lambda>i. obAlertIdHex i = k) rows"

definition readByAlertId :: "(string \<Rightarrow> string) \<Rightarrow> outbox_table \<Rightarrow> string \<Rightarrow> outbox_error + outbox_item option" where
  "readByAlertId sha256 rows k =
     require (isHex64 k) (OutboxNotHex32 ''operator alert external outbox id'') (case rowOf rows k of
       None \<Rightarrow> Inr None | Some row \<Rightarrow> andThen (parseOutboxItem sha256 row) (\<lambda>i. Inr (Some i)))"

definition sameEventText :: "json \<Rightarrow> json \<Rightarrow> outbox_error + bool" where
  "sameEventText a b = andThen (liftAlert (alertCanonical a)) (\<lambda>s. andThen (liftAlert (alertCanonical b)) (\<lambda>t. Inr (s = t)))"

definition sqliteEnqueue :: "(string \<Rightarrow> string) \<Rightarrow> outbox_item \<Rightarrow> outbox_table \<Rightarrow> enqueue_answer \<times> outbox_table" where
  "sqliteEnqueue sha256 value rows = (case normalizeOperatorAlertExternalOutboxItem sha256 value V1 of
       Inl e \<Rightarrow> (EnqueueUnavailable, rows)
     | Inr item \<Rightarrow>
         if rowOf rows (obAlertIdHex item) = None then (EnqueueStored, rows @ [item])
         else (case readByAlertId sha256 rows (obAlertIdHex item) of
             Inl e \<Rightarrow> (EnqueueUnavailable, rows)
           | Inr None \<Rightarrow> (EnqueueConflict, rows)
           | Inr (Some existing) \<Rightarrow>
               if obAlertIdHex existing = obAlertIdHex item \<and> obEventDigestHex existing = obEventDigestHex item
               then (case sameEventText (obEvent existing) (obEvent item) of
                   Inl e \<Rightarrow> (EnqueueUnavailable, rows)
                 | Inr same \<Rightarrow> (if same then EnqueueSame else EnqueueConflict, rows))
               else (EnqueueConflict, rows)))"

definition previousOf :: "outbox_item \<Rightarrow> json" where
  "previousOf i = (case obEvent i of JObj ms \<Rightarrow> field ms ''previousAlertIdHex'' | _ \<Rightarrow> JUndefined)"

text \<open>\<^verbatim>\<open>item.event.previousAlertIdHex === null || !outstandingIds.has(item.event.previousAlertIdHex)\<close>\<close>

definition unblocked :: "string list \<Rightarrow> outbox_item \<Rightarrow> bool" where
  "unblocked outstanding i \<longleftrightarrow> previousOf i = JNull \<or> \<not> List.member (map JStr outstanding) (previousOf i)"

definition sqliteReadNext :: "(string \<Rightarrow> string) \<Rightarrow> int \<Rightarrow> outbox_table \<Rightarrow> outbox_read" where
  "sqliteReadNext sha256 nowMs rows = (case alertNonnegative nowMs ''operator alert external outbox read time'' of
       Inl e \<Rightarrow> OutboxReadUnavailable
     | Inr _ \<Rightarrow> (case mapR (parseOutboxItem sha256)
           (sort_key (\<lambda>i. (obCreatedAtMs i, obAlertIdHex i)) (filter (\<lambda>i. obStatus i \<noteq> Delivered) rows)) of
         Inl e \<Rightarrow> OutboxReadUnavailable
       | Inr items \<Rightarrow> (case List.find (unblocked (map obAlertIdHex items)) items of
           None \<Rightarrow> if items \<noteq> [] then OutboxReadUnavailable else OutboxReadItem None
         | Some i \<Rightarrow> OutboxReadItem (Some i))))"

definition sameImmutableEvent :: "outbox_item \<Rightarrow> outbox_item \<Rightarrow> outbox_error + bool" where
  "sameImmutableEvent current nxt =
     (if obAlertIdHex current = obAlertIdHex nxt \<and> obProfileId current = obProfileId nxt
        \<and> obProfileVersion current = obProfileVersion nxt \<and> obEventDigestHex current = obEventDigestHex nxt
        \<and> obCreatedAtMs current = obCreatedAtMs nxt
      then sameEventText (obEvent current) (obEvent nxt) else Inr False)"

definition sqliteCompareAndSet :: "(string \<Rightarrow> string) \<Rightarrow> int \<Rightarrow> outbox_item \<Rightarrow> outbox_table \<Rightarrow> cas_result \<times> outbox_table" where
  "sqliteCompareAndSet sha256 expected value rows = (
     case andThen (liftAlert (alertNonnegative expected ''operator alert external outbox expected revision'')) (\<lambda>e.
          andThen (normalizeOperatorAlertExternalOutboxItem sha256 value V1) (\<lambda>nxt.
          require (\<not> (e = 0 \<or> obRevision nxt \<noteq> e + 1)) RevisionRegressesAttempts (
          andThen (readByAlertId sha256 rows (obAlertIdHex nxt)) (\<lambda>cur. case cur of
              None \<Rightarrow> Inr None
            | Some c \<Rightarrow> andThen (sameImmutableEvent c nxt) (\<lambda>same. Inr (if same then Some nxt else None)))))) of
       Inl e \<Rightarrow> (CasUnavailable, rows)
     | Inr None \<Rightarrow> (CasConflict, rows)
     | Inr (Some nxt) \<Rightarrow>
         if list_ex (\<lambda>i. obAlertIdHex i = obAlertIdHex nxt \<and> obRevision i = expected) rows
         then (CasStored, map (\<lambda>i. if obAlertIdHex i = obAlertIdHex nxt \<and> obRevision i = expected then nxt else i) rows)
         else (CasConflict, rows))"

definition sqlitePorts :: "(string \<Rightarrow> string) \<Rightarrow> (transmission \<Rightarrow> (outbox_table, json) port) \<Rightarrow> outbox_table worker_ports" where
  "sqlitePorts sha256 transport = \<lparr> readNextPort = (\<lambda>now w. (Inr (sqliteReadNext sha256 now w), w)),
     outboxCasPort = (\<lambda>e i w. case sqliteCompareAndSet sha256 e i w of (a, w') \<Rightarrow> (Inr a, w')), transportPort = transport \<rparr>"


section \<open>Well-formed items\<close>

lemma liftAlert_iff: "liftAlert r = Inr x \<longleftrightarrow> r = Inr x"
  by (simp add: liftAlert_def split: sum.splits)

lemma outboxHex32_iff: "outboxHex32 v l = Inr u \<longleftrightarrow> isHex64 v"
  by (simp add: outboxHex32_def result_simps)

lemma increment_iff: "increment v l = Inr n \<longleftrightarrow> isSafeInteger (v + 1) \<and> n = v + 1"
  by (auto simp: increment_def Let_def result_simps)

lemma receipt_iff: "(case r of None \<Rightarrow> Inr () | Some d \<Rightarrow> outboxHex32 d l) = Inr u \<longleftrightarrow> pred_option isHex64 r"
  by (cases r) (auto simp: outboxHex32_iff)

definition outboxMetadataOk :: "outbox_item \<Rightarrow> bool" where
  "outboxMetadataOk i = (case obStatus i of
       Pending \<Rightarrow> obRevision i = 1 \<and> obAttemptCount i = 0 \<and> obClaimedAtMs i = None \<and> obLeaseExpiresAtMs i = None
         \<and> obNextAttemptAtMs i = None \<and> obDeliveredAtMs i = None \<and> obReceiptDigestHex i = None \<and> obFailure i = None
         \<and> obUpdatedAtMs i = obCreatedAtMs i
     | Delivering \<Rightarrow> obAttemptCount i \<noteq> 0 \<and> obClaimedAtMs i = Some (obUpdatedAtMs i)
         \<and> obLeaseExpiresAtMs i = Some (obUpdatedAtMs i + 15000)
         \<and> obNextAttemptAtMs i = None \<and> obDeliveredAtMs i = None \<and> obReceiptDigestHex i = None \<and> obFailure i = None
     | RetryWait \<Rightarrow> obAttemptCount i \<noteq> 0 \<and> obClaimedAtMs i = None \<and> obLeaseExpiresAtMs i = None
         \<and> obNextAttemptAtMs i = Some (obUpdatedAtMs i + 30000) \<and> obDeliveredAtMs i = None \<and> obReceiptDigestHex i = None
         \<and> obFailure i \<noteq> None
     | Delivered \<Rightarrow> obAttemptCount i \<noteq> 0 \<and> obClaimedAtMs i = None \<and> obLeaseExpiresAtMs i = None \<and> obNextAttemptAtMs i = None
         \<and> obDeliveredAtMs i = Some (obUpdatedAtMs i) \<and> obReceiptDigestHex i \<noteq> None \<and> obFailure i = None)"

text \<open>What identifies an item and never changes.\<close>

definition identityOk :: "(string \<Rightarrow> string) \<Rightarrow> alert_event \<Rightarrow> outbox_item \<Rightarrow> bool" where
  "identityOk sha256 e i \<longleftrightarrow> obSchema i = OPERATOR_ALERT_EXTERNAL_OUTBOX_ITEM_SCHEMA \<and> obProfileId i = OPERATOR_ALERT_PROFILE_ID
     \<and> obProfileVersion i = 1 \<and> obAlertIdHex i = evAlertIdHex e \<and> isHex64 (obAlertIdHex i) \<and> isHex64 (obEventDigestHex i)
     \<and> digestOperatorAlertEvent sha256 (eventJson e) = Inr (obEventDigestHex i)
     \<and> isNonnegSafe (obCreatedAtMs i) \<and> obCreatedAtMs i = evOpenedAtMs e"

definition progressOk :: "outbox_item \<Rightarrow> bool" where
  "progressOk i \<longleftrightarrow> isNonnegSafe (obRevision i) \<and> obRevision i \<noteq> 0 \<and> isNonnegSafe (obAttemptCount i)
     \<and> obAttemptCount i < obRevision i \<and> isNonnegSafe (obUpdatedAtMs i) \<and> obCreatedAtMs i \<le> obUpdatedAtMs i
     \<and> okOptional (obClaimedAtMs i) \<and> okOptional (obLeaseExpiresAtMs i) \<and> okOptional (obNextAttemptAtMs i)
     \<and> okOptional (obDeliveredAtMs i) \<and> pred_option isHex64 (obReceiptDigestHex i) \<and> outboxMetadataOk i"

lemma V1_iff: "p = BRIDGE_DAEMON_OPERATOR_ALERT_PROFILE_V1 \<longleftrightarrow> p = V1"
  by (simp add: V1_def)

lemma V1_simps [simp]: "profileId V1 = OPERATOR_ALERT_PROFILE_ID" "profileVersion V1 = 1" "retryDelayMs V1 = 30000"
  "attemptLeaseMs V1 = 15000"
  by (simp_all add: V1_def)

lemma assertOutboxMetadata_iff: "assertOutboxMetadata i V1 = Inr u \<longleftrightarrow> outboxMetadataOk i"
  by (cases "obStatus i"; cases "obClaimedAtMs i"; cases "obLeaseExpiresAtMs i"; cases "obNextAttemptAtMs i"; cases "obDeliveredAtMs i")
    (auto simp: assertOutboxMetadata_def outboxMetadataOk_def result_simps)

lemma normalize_item_iff:
  "normalizeOperatorAlertExternalOutboxItem sha256 i profile = Inr i' \<longleftrightarrow> profile = V1 \<and>
     (\<exists>e. normalizeOperatorAlertEvent (obEvent i) = Inr e \<and> identityOk sha256 e i \<and> progressOk i \<and> i' = i \<lparr> obEvent := eventJson e \<rparr>)"
proof (cases "profile = V1")
  case True
  then show ?thesis
    unfolding normalizeOperatorAlertExternalOutboxItem_def andThen_Inr_iff require_Inr_iff liftAlert_iff outboxHex32_iff
      receipt_iff alertPositive_iff alertNonnegative_iff normalizeOptionalTime_iff profileOk_iff V1_iff
    by (simp add: assertOutboxMetadata_iff identityOk_def progressOk_def)
      (auto simp: V1_def)
next
  case False
  then show ?thesis
    by (auto simp: normalizeOperatorAlertExternalOutboxItem_def andThen_Inr_iff liftAlert_iff profileOk_iff V1_def)
qed

definition itemOk :: "(string \<Rightarrow> string) \<Rightarrow> outbox_item \<Rightarrow> bool" where
  "itemOk sha256 i \<longleftrightarrow> (\<exists>e. normalizeOperatorAlertEvent (obEvent i) = Inr e \<and> obEvent i = eventJson e
     \<and> identityOk sha256 e i \<and> progressOk i)"

lemma identity_update [simp]:
  "identityOk sha256 e (i \<lparr> obEvent := j \<rparr>) = identityOk sha256 e i" "progressOk (i \<lparr> obEvent := j \<rparr>) = progressOk i"
  by (cases "obStatus i"; simp add: identityOk_def progressOk_def outboxMetadataOk_def)+

lemma normalized_ok: "normalizeOperatorAlertExternalOutboxItem sha256 i profile = Inr i' \<Longrightarrow> itemOk sha256 i'"
  by (auto simp: normalize_item_iff itemOk_def dest: event_idem)

lemma ok_normalized: "itemOk sha256 i \<Longrightarrow> normalizeOperatorAlertExternalOutboxItem sha256 i V1 = Inr i"
  unfolding itemOk_def normalize_item_iff by (elim exE conjE) (intro conjI exI, auto)

lemma itemOk_iff: "itemOk sha256 i \<longleftrightarrow> normalizeOperatorAlertExternalOutboxItem sha256 i V1 = Inr i"
  using normalized_ok ok_normalized by blast

text \<open>The transitions of an item.\<close>

definition claimOf :: "int \<Rightarrow> outbox_item \<Rightarrow> outbox_item" where
  "claimOf now i = i \<lparr> obStatus := Delivering, obRevision := obRevision i + 1, obAttemptCount := obAttemptCount i + 1,
     obClaimedAtMs := Some now, obLeaseExpiresAtMs := Some (now + 15000), obNextAttemptAtMs := None,
     obDeliveredAtMs := None, obReceiptDigestHex := None, obFailure := None, obUpdatedAtMs := now \<rparr>"

definition retryOf :: "int \<Rightarrow> transport_failure \<Rightarrow> outbox_item \<Rightarrow> outbox_item" where
  "retryOf now failure i = i \<lparr> obStatus := RetryWait, obRevision := obRevision i + 1, obClaimedAtMs := None,
     obLeaseExpiresAtMs := None, obNextAttemptAtMs := Some (now + 30000), obDeliveredAtMs := None,
     obReceiptDigestHex := None, obFailure := Some failure, obUpdatedAtMs := now \<rparr>"

definition deliveredOf :: "int \<Rightarrow> string \<Rightarrow> outbox_item \<Rightarrow> outbox_item" where
  "deliveredOf now receipt i = i \<lparr> obStatus := Delivered, obRevision := obRevision i + 1, obClaimedAtMs := None,
     obLeaseExpiresAtMs := None, obNextAttemptAtMs := None, obDeliveredAtMs := Some now,
     obReceiptDigestHex := Some receipt, obFailure := None, obUpdatedAtMs := now \<rparr>"

lemma normalize_item_event:
  "normalizeOperatorAlertEvent (obEvent i) = Inr e \<Longrightarrow> obEvent i = eventJson e \<Longrightarrow>
     normalizeOperatorAlertExternalOutboxItem sha256 i profile = Inr i' \<Longrightarrow> i' = i"
  by (auto simp: normalize_item_iff)

lemma normalize_kept:
  assumes "itemOk sha256 i" and "obEvent k = obEvent i"
    and "normalizeOperatorAlertExternalOutboxItem sha256 k profile = Inr k'"
  shows "k' = k \<and> itemOk sha256 k \<and> profile = V1"
proof -
  obtain e where "normalizeOperatorAlertEvent (obEvent k) = Inr e" "obEvent k = eventJson e"
    using assms(1,2) by (auto simp: itemOk_def)
  then have "k' = k" using assms(3) by (rule normalize_item_event)
  then show ?thesis using normalized_ok [OF assms(3)] assms(3) by (auto simp: normalize_item_iff)
qed

lemma outboxClaim_eq:
  assumes "itemOk sha256 i" and "outboxClaim sha256 i now profile = Inr c"
  shows "c = claimOf now i \<and> itemOk sha256 c"
proof -
  let ?k = "i \<lparr> obStatus := Delivering, obRevision := obRevision i + 1, obAttemptCount := obAttemptCount i + 1,
     obClaimedAtMs := Some now, obLeaseExpiresAtMs := Some (now + attemptLeaseMs profile), obNextAttemptAtMs := None,
     obDeliveredAtMs := None, obReceiptDigestHex := None, obFailure := None, obUpdatedAtMs := now \<rparr>"
  have "normalizeOperatorAlertExternalOutboxItem sha256 ?k profile = Inr c"
    using assms(2) by (simp add: outboxClaim_def Let_def result_simps increment_iff)
  have "obEvent ?k = obEvent i" by simp
  from normalize_kept [OF assms(1) this \<open>normalizeOperatorAlertExternalOutboxItem sha256 ?k profile = Inr c\<close>] have "c = ?k" "itemOk sha256 ?k" "profile = V1" by blast+
  then show ?thesis by (auto simp: claimOf_def)
qed

lemma outboxRetry_eq:
  assumes "itemOk sha256 i" and "outboxRetry sha256 i now profile failure = Inr c"
  shows "c = retryOf now failure i \<and> itemOk sha256 c"
proof -
  let ?k = "i \<lparr> obStatus := RetryWait, obRevision := obRevision i + 1, obClaimedAtMs := None,
     obLeaseExpiresAtMs := None, obNextAttemptAtMs := Some (now + retryDelayMs profile), obDeliveredAtMs := None,
     obReceiptDigestHex := None, obFailure := Some failure, obUpdatedAtMs := now \<rparr>"
  have "normalizeOperatorAlertExternalOutboxItem sha256 ?k profile = Inr c"
    using assms(2) by (simp add: outboxRetry_def Let_def result_simps increment_iff)
  have "obEvent ?k = obEvent i" by simp
  from normalize_kept [OF assms(1) this \<open>normalizeOperatorAlertExternalOutboxItem sha256 ?k profile = Inr c\<close>] have "c = ?k" "itemOk sha256 ?k" "profile = V1" by blast+
  then show ?thesis by (auto simp: retryOf_def)
qed

lemma outboxDelivered_eq:
  assumes "itemOk sha256 i" and "outboxDelivered sha256 i now profile receipt = Inr c"
  shows "c = deliveredOf now receipt i \<and> itemOk sha256 c"
proof -
  have "normalizeOperatorAlertExternalOutboxItem sha256 (deliveredOf now receipt i) profile = Inr c"
    using assms(2) by (simp add: outboxDelivered_def Let_def result_simps increment_iff outboxHex32_iff deliveredOf_def)
  from normalize_kept [OF assms(1) _ this] show ?thesis by (simp add: deliveredOf_def)
qed


section \<open>What a worker cycle does\<close>

definition transmissionOf :: "outbox_item \<Rightarrow> transmission" where
  "transmissionOf c = \<lparr> txAlertIdHex = obAlertIdHex c, txIdempotencyKey = obAlertIdHex c,
     txEventDigestHex = obEventDigestHex c, txEvent = obEvent c \<rparr>"

text \<open>How the answer of the transport is recorded: delivered with the receipt it gave, or due again in half a minute with
  the reason.\<close>

definition settlesAs :: "int \<Rightarrow> outbox_item \<Rightarrow> string + json \<Rightarrow> outbox_item" where
  "settlesAs now c answer = (case answer of
       Inl _ \<Rightarrow> retryOf now transport_threw c
     | Inr v \<Rightarrow> (case normalizeTransportResult v of
         None \<Rightarrow> retryOf now transport_malformed c
       | Some (TransportRetryable failure) \<Rightarrow> retryOf now failure c
       | Some (TransportDelivered receipt) \<Rightarrow> deliveredOf now receipt c))"

inductive workerTrace :: "(string \<Rightarrow> string) \<Rightarrow> int \<Rightarrow> worker_call list \<Rightarrow> bool" for sha256 now where
  nothing: "workerTrace sha256 now []"
| readOnly: "workerTrace sha256 now [ReadNextCall now a]"
| refused: "normalizeOperatorAlertExternalOutboxItem sha256 raw V1 = Inr i \<Longrightarrow> isEligible i now \<Longrightarrow> itemOk sha256 (claimOf now i)
    \<Longrightarrow> a \<noteq> Inr CasStored \<Longrightarrow> workerTrace sha256 now
      [ReadNextCall now (Inr (OutboxReadItem (Some raw))), OutboxCasCall (obRevision i) (claimOf now i) a]"
| transmitted: "normalizeOperatorAlertExternalOutboxItem sha256 raw V1 = Inr i \<Longrightarrow> isEligible i now \<Longrightarrow> itemOk sha256 (claimOf now i)
    \<Longrightarrow> workerTrace sha256 now
      [ReadNextCall now (Inr (OutboxReadItem (Some raw))), OutboxCasCall (obRevision i) (claimOf now i) (Inr CasStored),
       TransmitCall (transmissionOf (claimOf now i)) answer]"
| settled: "normalizeOperatorAlertExternalOutboxItem sha256 raw V1 = Inr i \<Longrightarrow> isEligible i now \<Longrightarrow> itemOk sha256 (claimOf now i)
    \<Longrightarrow> itemOk sha256 (settlesAs now (claimOf now i) answer) \<Longrightarrow> workerTrace sha256 now
      [ReadNextCall now (Inr (OutboxReadItem (Some raw))), OutboxCasCall (obRevision i) (claimOf now i) (Inr CasStored),
       TransmitCall (transmissionOf (claimOf now i)) answer,
       OutboxCasCall (obRevision i + 1) (settlesAs now (claimOf now i) answer) b]"

lemma transmit_cases:
  assumes "transmit ports c s = (r, s')"
  obtains answer w where "s' = s \<lparr> world := w, calls := calls s @ [TransmitCall (transmissionOf c) answer] \<rparr>"
    and "r = Inr (case answer of Inl _ \<Rightarrow> Inl transport_threw | Inr v \<Rightarrow> (case normalizeTransportResult v of
           None \<Rightarrow> Inl transport_malformed | Some (TransportRetryable failure) \<Rightarrow> Inl failure
         | Some (TransportDelivered receipt) \<Rightarrow> Inr receipt))"
proof -
  obtain a w where "transportPort ports (transmissionOf c) (world s) = (a, w)" by fastforce
  then show thesis using assms
    by (intro that [of a w]; cases a) (auto simp: transmit_def action_defs transmissionOf_def Let_def)
qed

lemma outboxCas_cases:
  assumes "outboxCompareAndSet ports e i s = (r, s')"
  obtains a w where "s' = s \<lparr> world := w, calls := calls s @ [OutboxCasCall e i a] \<rparr>"
    and "r = (case a of Inl x \<Rightarrow> Inl (OutboxPortThrew x) | Inr x \<Rightarrow> Inr x)"
  using assms by (auto simp: outboxCompareAndSet_def portAction_def split: prod.splits)

lemma settleStage_trace:
  assumes "settleStage sha256 ports profile now c s = (r, s')" and c: "itemOk sha256 c"
  shows "\<exists>answer. calls s' = calls s @ [TransmitCall (transmissionOf c) answer]
     \<or> (\<exists>b. calls s' = calls s @ [TransmitCall (transmissionOf c) answer, OutboxCasCall (obRevision c) (settlesAs now c answer) b]
          \<and> itemOk sha256 (settlesAs now c answer))"
proof -
  obtain r1 s1 where t: "transmit ports c s = (r1, s1)" by fastforce
  then obtain answer w where s1: "s1 = s \<lparr> world := w, calls := calls s @ [TransmitCall (transmissionOf c) answer] \<rparr>"
    and r1: "r1 = Inr (case answer of Inl _ \<Rightarrow> Inl transport_threw | Inr v \<Rightarrow> (case normalizeTransportResult v of
           None \<Rightarrow> Inl transport_malformed | Some (TransportRetryable failure) \<Rightarrow> Inl failure
         | Some (TransportDelivered receipt) \<Rightarrow> Inr receipt))" by (rule transmit_cases)
  then obtain res where res: "r1 = Inr res" by blast
  let ?next = "case res of Inr receipt \<Rightarrow> outboxDelivered sha256 c now profile receipt
       | Inl failure \<Rightarrow> outboxRetry sha256 c now profile failure"
  show ?thesis
  proof (cases ?next)
    case (Inl e)
    then have "s' = s1" using assms(1) t res by (auto simp: settleStage_def bindA_def liftA_def)
    then show ?thesis using s1 by auto
  next
    case (Inr f)
    then have f: "f = settlesAs now c answer" "itemOk sha256 f"
      using r1 res outboxDelivered_eq [OF c] outboxRetry_eq [OF c]
      by (cases answer; auto simp: settlesAs_def split: option.splits transport_result.splits sum.splits)+
    obtain r2 s2 where w: "outboxCompareAndSet ports (obRevision c) f s1 = (r2, s2)" by fastforce
    then obtain b w2 where s2: "s2 = s1 \<lparr> world := w2, calls := calls s1 @ [OutboxCasCall (obRevision c) f b] \<rparr>"
      by (rule outboxCas_cases)
    have "s' = s2"
      using assms(1) t res Inr w by (auto simp: settleStage_def bindA_def liftA_def returnA_def split: sum.splits)
    then show ?thesis using s1 s2 f by auto
  qed
qed

lemma workItem_cases:
  assumes "workItem sha256 ports profile now i s = (r, s')" and i: "itemOk sha256 i"
  obtains (none) "s' = s"
  | (refused) a where "isEligible i now" and "itemOk sha256 (claimOf now i)" and "a \<noteq> Inr CasStored"
      and "calls s' = calls s @ [OutboxCasCall (obRevision i) (claimOf now i) a]"
  | (stored) s1 where "isEligible i now" and "itemOk sha256 (claimOf now i)"
      and "calls s1 = calls s @ [OutboxCasCall (obRevision i) (claimOf now i) (Inr CasStored)]"
      and "settleStage sha256 ports profile now (claimOf now i) s1 = (r, s')"
proof (cases "isEligible i now \<and> (\<exists>c. outboxClaim sha256 i now profile = Inr c) \<and> s' \<noteq> s")
  case False
  with assms(1) have "s' = s"
    by (auto simp: workItem_def bindA_def liftA_def returnA_def require_def split: if_splits sum.splits)
  then show thesis by (rule none)
next
  case True
  then obtain c where c: "outboxClaim sha256 i now profile = Inr c" and el: "isEligible i now" and ne: "s' \<noteq> s" by blast
  note cl = outboxClaim_eq [OF i c]
  obtain r1 s1 where w: "outboxCompareAndSet ports (obRevision i) c s = (r1, s1)" by fastforce
  then obtain a w1 where s1: "s1 = s \<lparr> world := w1, calls := calls s @ [OutboxCasCall (obRevision i) c a] \<rparr>"
    and r1: "r1 = (case a of Inl x \<Rightarrow> Inl (OutboxPortThrew x) | Inr x \<Rightarrow> Inr x)" by (rule outboxCas_cases)
  show thesis
  proof (cases "a = Inr CasStored")
    case True
    then have "settleStage sha256 ports profile now c s1 = (r, s')"
      using assms(1) c el ne w r1 by (auto simp: workItem_def bindA_def liftA_def returnA_def require_def split: if_splits)
    then show thesis using stored [of s1] el cl s1 True by auto
  next
    case False
    then have "s' = s1" using assms(1) c el ne w r1
      by (auto simp: workItem_def bindA_def liftA_def returnA_def require_def split: if_splits sum.splits cas_result.splits)
    then show thesis using refused [of a] el cl s1 False by auto
  qed
qed

lemma worker_cases:
  assumes "runOperatorAlertExternalOutboxWorkerCycle sha256 ports profile nowMs s = (r, s')"
  obtains (refused) "s' = s"
  | (read) a w where "s' = s \<lparr> world := w, calls := calls s @ [ReadNextCall nowMs a] \<rparr>"
  | (item) raw i w where "normalizeOperatorAlertExternalOutboxItem sha256 raw V1 = Inr i" and "profile = V1"
      and "readNextPort ports nowMs (world s) = (Inr (OutboxReadItem (Some raw)), w)"
      and "workItem sha256 ports profile nowMs i (s \<lparr> world := w,
         calls := calls s @ [ReadNextCall nowMs (Inr (OutboxReadItem (Some raw)))] \<rparr>) = (r, s')"
proof (cases "liftAlert (assertSupportedOperatorAlertProfile profile) = Inr () \<and>
    liftAlert (alertNonnegative nowMs ''operator alert external outbox worker time'') = Inr nowMs")
  case False
  with assms have "s' = s"
    by (auto simp: runOperatorAlertExternalOutboxWorkerCycle_def bindA_def liftA_def alertNonnegative_def require_def liftAlert_def
        split: sum.splits if_splits)
  then show thesis by (rule refused)
next
  case True
  obtain a w where port: "readNextPort ports nowMs (world s) = (a, w)" by fastforce
  let ?s1 = "s \<lparr> world := w, calls := calls s @ [ReadNextCall nowMs a] \<rparr>"
  show thesis
  proof (cases "\<exists>raw i. a = Inr (OutboxReadItem (Some raw)) \<and> normalizeOperatorAlertExternalOutboxItem sha256 raw profile = Inr i")
    case False
    with assms port True have "s' = ?s1"
      by (auto simp: runOperatorAlertExternalOutboxWorkerCycle_def bindA_def liftA_def portAction_def returnA_def
          split: sum.splits outbox_read.splits option.splits)
    then show thesis by (rule read)
  next
    case found: True
    then obtain raw i where a: "a = Inr (OutboxReadItem (Some raw))"
      and i: "normalizeOperatorAlertExternalOutboxItem sha256 raw profile = Inr i" by blast
    then have "profile = V1" by (simp add: normalize_item_iff)
    then show thesis using item [of raw i w] assms port True a i
      by (simp add: runOperatorAlertExternalOutboxWorkerCycle_def bindA_def liftA_def portAction_def)
  qed
qed

text \<open>C18. Whatever the store and the transport answer, the calls of a worker cycle are a prefix of: read the next item,
  claim it under the revision read if it is due, transmit it with its alert id as idempotency key once the claim was
  stored, and record the outcome under the claimed revision. It is recorded delivered exactly when the transport
  answered with a canonical receipt, and every item written is well formed.\<close>

theorem worker_cycle_trace:
  assumes "runOperatorAlertExternalOutboxWorkerCycle sha256 ports profile nowMs s = (r, s')" and "calls s = []"
  shows "workerTrace sha256 nowMs (calls s')"
proof (cases rule: worker_cases [OF assms(1)])
  case 1
  then show ?thesis using assms(2) by (simp add: workerTrace.nothing)
next
  case (2 a w)
  then show ?thesis using assms(2) by (simp add: workerTrace.readOnly)
next
  case (3 raw i w)
  note ok = normalized_ok [OF 3(1)]
  show ?thesis
  proof (cases rule: workItem_cases [OF 3(4) ok])
    case 1
    then show ?thesis using assms(2) by (simp add: workerTrace.readOnly)
  next
    case (2 a)
    then show ?thesis using assms(2) 3(1) by (simp add: workerTrace.refused)
  next
    case stored: (3 s1)
    have "obRevision (claimOf nowMs i) = obRevision i + 1" by (simp add: claimOf_def)
    with settleStage_trace [OF stored(4,2)] stored(1,2,3) 3(1) assms(2) show ?thesis
      by (auto intro: workerTrace.transmitted workerTrace.settled)
  qed
qed


section \<open>The table\<close>

definition outboxOk :: "(string \<Rightarrow> string) \<Rightarrow> outbox_table \<Rightarrow> bool" where
  "outboxOk sha256 rows \<longleftrightarrow> (\<forall>i \<in> set rows. itemOk sha256 i) \<and> distinct (map obAlertIdHex rows)"

lemma rowOf_Some: "rowOf rows k = Some i \<Longrightarrow> i \<in> set rows \<and> obAlertIdHex i = k"
  by (auto simp: rowOf_def find_Some_iff)

lemma rowOf_None: "rowOf rows k = None \<longleftrightarrow> k \<notin> set (map obAlertIdHex rows)"
  by (auto simp: rowOf_def find_None_iff)

lemma rowOf_in: "distinct (map obAlertIdHex rows) \<Longrightarrow> i \<in> set rows \<Longrightarrow> rowOf rows (obAlertIdHex i) = Some i"
proof -
  assume d: "distinct (map obAlertIdHex rows)" and i: "i \<in> set rows"
  then obtain j where j: "rowOf rows (obAlertIdHex i) = Some j" using rowOf_None by fastforce
  then show ?thesis using d i rowOf_Some [OF j] by (auto simp: distinct_map inj_on_def)
qed

lemma readByAlertId_ok:
  assumes "outboxOk sha256 rows" and "isHex64 k"
  shows "readByAlertId sha256 rows k = Inr (rowOf rows k)"
proof (cases "rowOf rows k")
  case (Some i)
  then have "parseOutboxItem sha256 i = Inr i"
    using assms(1) rowOf_Some [OF Some] by (auto simp: parseOutboxItem_def outboxOk_def itemOk_iff)
  then show ?thesis using assms(2) Some by (simp add: readByAlertId_def)
qed (simp add: readByAlertId_def assms(2))

lemma itemOk_hex: "itemOk sha256 i \<Longrightarrow> isHex64 (obAlertIdHex i)"
  by (auto simp: itemOk_def identityOk_def)

lemma enqueue_ok: "outboxOk sha256 rows \<Longrightarrow> outboxOk sha256 (snd (sqliteEnqueue sha256 i rows))"
  by (auto simp: sqliteEnqueue_def outboxOk_def rowOf_None split: sum.splits option.splits dest: normalized_ok)

lemma cas_rows:
  assumes "sqliteCompareAndSet sha256 e i rows = (a, rows')"
  shows "a \<noteq> CasStored \<and> rows' = rows \<or> a = CasStored \<and> (\<exists>n. normalizeOperatorAlertExternalOutboxItem sha256 i V1 = Inr n
     \<and> obRevision n = e + 1 \<and> list_ex (\<lambda>j. obAlertIdHex j = obAlertIdHex n \<and> obRevision j = e) rows
     \<and> rows' = map (\<lambda>j. if obAlertIdHex j = obAlertIdHex n \<and> obRevision j = e then n else j) rows)"
  using assms unfolding sqliteCompareAndSet_def
  by (auto simp: andThen_Inr_iff require_Inr_iff liftAlert_iff alertNonnegative_iff split: sum.splits option.splits if_splits)

lemma cas_outboxOk:
  assumes "outboxOk sha256 rows" and "sqliteCompareAndSet sha256 e i rows = (a, rows')"
  shows "outboxOk sha256 rows'"
  using cas_rows [OF assms(2)]
proof (elim disjE conjE exE)
  fix n assume n: "normalizeOperatorAlertExternalOutboxItem sha256 i V1 = Inr n"
    and rows': "rows' = map (\<lambda>j. if obAlertIdHex j = obAlertIdHex n \<and> obRevision j = e then n else j) rows"
  have "map obAlertIdHex rows' = map obAlertIdHex rows" by (simp add: rows')
  moreover have "\<forall>j \<in> set rows'. itemOk sha256 j" using assms(1) normalized_ok [OF n] by (auto simp: rows' outboxOk_def)
  ultimately show ?thesis using assms(1) by (simp add: outboxOk_def)
qed (use assms(1) in simp)

text \<open>One alert of the outbox as a compare-and-set store: without an expected revision the daemon enqueues a pending item,
  with one a worker writes the next state. Both only send items that are already normalized.\<close>

definition outboxRequest :: "(string \<Rightarrow> string) \<Rightarrow> int option \<Rightarrow> outbox_item \<Rightarrow> outbox_table \<Rightarrow> cas_result \<times> outbox_table" where
  "outboxRequest sha256 expected i rows =
     (if normalizeOperatorAlertExternalOutboxItem sha256 i V1 \<noteq> Inr i then (CasUnavailable, rows)
      else case expected of
        None \<Rightarrow> if obStatus i \<noteq> Pending then (CasUnavailable, rows)
          else (case sqliteEnqueue sha256 i rows of (a, rows') \<Rightarrow>
            (if a = EnqueueStored then CasStored else CasConflict, rows'))
      | Some e \<Rightarrow> sqliteCompareAndSet sha256 e i rows)"

lemma enqueue_cases:
  assumes "itemOk sha256 i" and "sqliteEnqueue sha256 i rows = (a, rows')"
  shows "a = EnqueueStored \<and> rowOf rows (obAlertIdHex i) = None \<and> rows' = rows @ [i] \<or> a \<noteq> EnqueueStored \<and> rows' = rows"
  using assms by (auto simp: sqliteEnqueue_def itemOk_iff split: sum.splits option.splits if_splits)

lemma pending_revision: "itemOk sha256 i \<Longrightarrow> obStatus i = Pending \<Longrightarrow> obRevision i = 1"
  by (auto simp: itemOk_def progressOk_def outboxMetadataOk_def)

lemma rowOf_append: "rowOf (rows @ [i]) k = (case rowOf rows k of None \<Rightarrow> if obAlertIdHex i = k then Some i else None | Some j \<Rightarrow> Some j)"
  by (induction rows) (auto simp: rowOf_def)

lemma rowOf_replace:
  assumes "distinct (map obAlertIdHex rows)"
  shows "rowOf (map (\<lambda>j. if obAlertIdHex j = obAlertIdHex n \<and> obRevision j = e then n else j) rows) k =
     (case rowOf rows k of None \<Rightarrow> None | Some j \<Rightarrow> Some (if k = obAlertIdHex n \<and> obRevision j = e then n else j))"
  using assms by (induction rows) (auto simp: rowOf_def)

interpretation outbox: revision_store "outboxOk sha256" "\<lambda>i. obAlertIdHex i = k" obRevision "\<lambda>rows. rowOf rows k"
  "outboxRequest sha256" for sha256 k
proof
  fix e i rows a rows'
  assume ok: "outboxOk sha256 rows"
  then have d: "distinct (map obAlertIdHex rows)" by (simp add: outboxOk_def)
  show "outboxRequest sha256 e i rows = (a, rows') \<Longrightarrow> outboxOk sha256 rows'"
    using ok enqueue_ok [OF ok, of i] cas_outboxOk [OF ok]
    by (cases e) (auto simp: outboxRequest_def split: if_splits prod.splits)
  {
    assume k: "obAlertIdHex i = k" and run: "outboxRequest sha256 e i rows = (CasStored, rows')"
    then have i: "itemOk sha256 i" "normalizeOperatorAlertExternalOutboxItem sha256 i V1 = Inr i"
      by (auto simp: outboxRequest_def itemOk_iff split: if_splits)
    show "map_option obRevision (rowOf rows k) = e \<and> rowOf rows' k = Some i
        \<and> obRevision i = (case e of None \<Rightarrow> 1 | Some n \<Rightarrow> n + 1)"
    proof (cases e)
      case None
      with run i obtain x where "sqliteEnqueue sha256 i rows = (EnqueueStored, x)" "obStatus i = Pending" "x = rows'"
        by (auto simp: outboxRequest_def split: if_splits prod.splits)
      then have "rowOf rows k = None" "rows' = rows @ [i]" "obRevision i = 1"
        using enqueue_cases [OF i(1)] pending_revision [OF i(1)] k by (metis enqueue_answer.distinct(1))+
      then show ?thesis using k None by (simp add: rowOf_append)
    next
      case (Some n)
      with run i have "sqliteCompareAndSet sha256 n i rows = (CasStored, rows')" by (auto simp: outboxRequest_def)
      with i have r: "obRevision i = n + 1" "rows' = map (\<lambda>j. if obAlertIdHex j = k \<and> obRevision j = n then i else j) rows"
        and "list_ex (\<lambda>j. obAlertIdHex j = k \<and> obRevision j = n) rows" using k by (auto dest!: cas_rows)
      then obtain j where "j \<in> set rows" "obAlertIdHex j = k" "obRevision j = n" by (auto simp: list_ex_iff)
      then have "rowOf rows k = Some j" using rowOf_in [OF d] by auto
      with r \<open>obRevision j = n\<close> Some k show ?thesis using rowOf_replace [OF d, of i n k] by simp
    qed
  }
  show "outboxRequest sha256 e i rows = (a, rows') \<Longrightarrow> a \<noteq> CasStored \<or> obAlertIdHex i \<noteq> k \<Longrightarrow> rowOf rows' k = rowOf rows k"
  proof (cases "normalizeOperatorAlertExternalOutboxItem sha256 i V1 = Inr i")
    case True
    assume run: "outboxRequest sha256 e i rows = (a, rows')" and other: "a \<noteq> CasStored \<or> obAlertIdHex i \<noteq> k"
    have i: "itemOk sha256 i" using True by (simp add: itemOk_iff)
    show ?thesis
    proof (cases e)
      case None
      obtain b x where enq: "sqliteEnqueue sha256 i rows = (b, x)" by fastforce
      with None run True other enqueue_cases [OF i enq] show ?thesis
        by (auto simp: outboxRequest_def rowOf_append split: if_splits option.splits)
    next
      case (Some n)
      with run True have "sqliteCompareAndSet sha256 n i rows = (a, rows')" by (simp add: outboxRequest_def)
      with other True show ?thesis using rowOf_replace [OF d, of i n k]
        by (auto dest!: cas_rows split: option.splits)
    qed
  qed (simp add: outboxRequest_def)
qed



section \<open>Properties of the outbox\<close>

text \<open>Every stored change of an alert in the outbox, whoever sent it and in whatever order the requests of the daemon
  and of any number of workers arrive, takes the next revision of that alert: a claim is never taken twice.\<close>

theorem outbox_claims_unique:
  assumes "outboxOk sha256 rows" and "serve (outboxRequest sha256) reqs rows = (stored, rows')"
  shows "distinct (map obRevision (filter (\<lambda>i. obAlertIdHex i = k) stored))"
  using assms by (rule outbox.serve_distinct)

lemma readNext_items:
  assumes "outboxOk sha256 rows"
  shows "mapR (parseOutboxItem sha256) (sort_key key (filter P rows)) = Inr (sort_key key (filter P rows))"
proof -
  have "mapR (parseOutboxItem sha256) (sort_key key (filter P rows)) = Inr (map (\<lambda>i. i) (sort_key key (filter P rows)))"
    using assms by (intro mapR_map) (auto simp: parseOutboxItem_def outboxOk_def itemOk_iff)
  then show ?thesis by simp
qed

lemma readNext_order:
  assumes "outboxOk sha256 rows" and "isNonnegSafe now"
  shows "sqliteReadNext sha256 now rows = OutboxReadItem None \<longleftrightarrow> (\<forall>i \<in> set rows. obStatus i = Delivered)"
    and "sqliteReadNext sha256 now rows = OutboxReadItem (Some i) \<Longrightarrow> i \<in> set rows \<and> obStatus i \<noteq> Delivered
      \<and> (\<forall>j \<in> set rows. obStatus j \<noteq> Delivered \<longrightarrow> previousOf i \<noteq> JStr (obAlertIdHex j))
      \<and> (\<forall>j \<in> set rows. obStatus j \<noteq> Delivered \<and> (obCreatedAtMs j, obAlertIdHex j) < (obCreatedAtMs i, obAlertIdHex i) \<longrightarrow>
           (\<exists>h \<in> set rows. obStatus h \<noteq> Delivered \<and> previousOf j = JStr (obAlertIdHex h)))"
proof -
  let ?key = "\<lambda>i. (obCreatedAtMs i, obAlertIdHex i)"
  define items where "items = sort_key ?key (filter (\<lambda>i. obStatus i \<noteq> Delivered) rows)"
  have set_items: "set items = {i \<in> set rows. obStatus i \<noteq> Delivered}" by (auto simp: items_def)
  have eq: "sqliteReadNext sha256 now rows = (case List.find (unblocked (map obAlertIdHex items)) items of
      None \<Rightarrow> if items \<noteq> [] then OutboxReadUnavailable else OutboxReadItem None | Some i \<Rightarrow> OutboxReadItem (Some i))"
    using assms(2) readNext_items [OF assms(1), of ?key "\<lambda>i. obStatus i \<noteq> Delivered"]
    by (simp add: sqliteReadNext_def alertNonnegative_def isNonnegSafe_def items_def)
  have "items = [] \<longleftrightarrow> (\<forall>i \<in> set rows. obStatus i = Delivered)" using set_items by (metis (mono_tags, lifting) empty_Collect_eq set_empty)
  then show "sqliteReadNext sha256 now rows = OutboxReadItem None \<longleftrightarrow> (\<forall>i \<in> set rows. obStatus i = Delivered)"
    by (auto simp: eq split: option.splits if_splits)
  assume "sqliteReadNext sha256 now rows = OutboxReadItem (Some i)"
  then have "List.find (unblocked (map obAlertIdHex items)) items = Some i"
    by (simp add: eq split: option.splits if_splits)
  then obtain n where n: "n < length items" "items ! n = i" "unblocked (map obAlertIdHex items) i"
    and before: "\<And>m. m < n \<Longrightarrow> \<not> unblocked (map obAlertIdHex items) (items ! m)"
    by (auto simp: find_Some_iff)
  have i: "i \<in> set items" using n nth_mem by blast
  have pred: "previousOf i \<noteq> JStr (obAlertIdHex j)" if "j \<in> set items" for j
    using n(3) that by (auto simp: unblocked_def)
  have waits: "\<exists>h \<in> set items. previousOf j = JStr (obAlertIdHex h)" if j: "j \<in> set items" and less: "?key j < ?key i" for j
  proof -
    obtain m where m: "m < length items" "items ! m = j" using j by (auto simp: in_set_conv_nth)
    have "sorted (map ?key items)" by (simp add: items_def)
    then have "\<not> n \<le> m" using m n(1,2) less sorted_nth_mono [of "map ?key items" n m] by auto
    then have "\<not> unblocked (map obAlertIdHex items) j" using before [of m] m by simp
    then show ?thesis by (auto simp: unblocked_def)
  qed
  show "i \<in> set rows \<and> obStatus i \<noteq> Delivered
      \<and> (\<forall>j \<in> set rows. obStatus j \<noteq> Delivered \<longrightarrow> previousOf i \<noteq> JStr (obAlertIdHex j))
      \<and> (\<forall>j \<in> set rows. obStatus j \<noteq> Delivered \<and> ?key j < ?key i \<longrightarrow>
           (\<exists>h \<in> set rows. obStatus h \<noteq> Delivered \<and> previousOf j = JStr (obAlertIdHex h)))"
    using i pred waits unfolding set_items by blast
qed

text \<open>C25. Alerts leave the outbox in order: the item handed to a worker is undelivered, no undelivered item is its
  predecessor, and every undelivered item that comes before it (by creation time, then id) still waits for one. The
  outbox reports that there is nothing to do exactly when every item was delivered.\<close>

theorem outbox_order:
  assumes "outboxOk sha256 rows" and "isNonnegSafe now"
  shows "(sqliteReadNext sha256 now rows = OutboxReadItem None \<longleftrightarrow> (\<forall>i \<in> set rows. obStatus i = Delivered))
    \<and> (\<forall>i. sqliteReadNext sha256 now rows = OutboxReadItem (Some i) \<longrightarrow> i \<in> set rows \<and> obStatus i \<noteq> Delivered
      \<and> (\<forall>j \<in> set rows. obStatus j \<noteq> Delivered \<longrightarrow> previousOf i \<noteq> JStr (obAlertIdHex j))
      \<and> (\<forall>j \<in> set rows. obStatus j \<noteq> Delivered \<and> (obCreatedAtMs j, obAlertIdHex j) < (obCreatedAtMs i, obAlertIdHex i) \<longrightarrow>
           (\<exists>h \<in> set rows. obStatus h \<noteq> Delivered \<and> previousOf j = JStr (obAlertIdHex h))))"
  by (intro conjI allI impI readNext_order(1) [OF assms]; drule readNext_order(2) [OF assms]; blast)


section \<open>Racing workers\<close>

text \<open>Any number of workers and daemons on one table. \<open>known\<close> holds every item some worker has read or stored a claim of,
  however long ago; a worker may act on any of them. Requests the store refuses change nothing.\<close>

record outbox_system =
  sysTable :: outbox_table
  known :: "outbox_item set"

inductive systemStep :: "(string \<Rightarrow> string) \<Rightarrow> outbox_system \<Rightarrow> outbox_system \<Rightarrow> bool" for sha256 where
  enqueue: "createPendingOperatorAlertExternalOutboxItem sha256 event V1 = Inr i \<Longrightarrow> sqliteEnqueue sha256 i (sysTable y) = (a, rows)
      \<Longrightarrow> systemStep sha256 y (y \<lparr> sysTable := rows \<rparr>)"
| read: "sqliteReadNext sha256 now (sysTable y) = OutboxReadItem (Some i)
      \<Longrightarrow> systemStep sha256 y (y \<lparr> known := insert i (known y) \<rparr>)"
| claim: "i \<in> known y \<Longrightarrow> isEligible i now \<Longrightarrow> outboxClaim sha256 i now V1 = Inr c
      \<Longrightarrow> sqliteCompareAndSet sha256 (obRevision i) c (sysTable y) = (CasStored, rows)
      \<Longrightarrow> systemStep sha256 y (y \<lparr> sysTable := rows, known := insert c (known y) \<rparr>)"
| settle: "c \<in> known y \<Longrightarrow> obStatus c = Delivering
      \<Longrightarrow> f \<in> {outboxDelivered sha256 c now V1 receipt, outboxRetry sha256 c now V1 failure} \<Longrightarrow> f = Inr n
      \<Longrightarrow> sqliteCompareAndSet sha256 (obRevision c) n (sysTable y) = (CasStored, rows)
      \<Longrightarrow> systemStep sha256 y (y \<lparr> sysTable := rows \<rparr>)"

inductive reachableOutbox :: "(string \<Rightarrow> string) \<Rightarrow> outbox_system \<Rightarrow> bool" for sha256 where
  start: "reachableOutbox sha256 \<lparr> sysTable = [], known = {} \<rparr>"
| step: "reachableOutbox sha256 y \<Longrightarrow> systemStep sha256 y z \<Longrightarrow> reachableOutbox sha256 z"

text \<open>What a worker remembers is either still the row of the alert or older than it.\<close>

definition remembered :: "outbox_table \<Rightarrow> outbox_item \<Rightarrow> bool" where
  "remembered rows m \<longleftrightarrow> (\<exists>j. rowOf rows (obAlertIdHex m) = Some j \<and> (j = m \<or> obRevision m < obRevision j))"

definition systemOk :: "(string \<Rightarrow> string) \<Rightarrow> outbox_system \<Rightarrow> bool" where
  "systemOk sha256 y \<longleftrightarrow> outboxOk sha256 (sysTable y) \<and> (\<forall>m \<in> known y. itemOk sha256 m \<and> remembered (sysTable y) m)"

lemma createPending_item_ok:
  assumes "createPendingOperatorAlertExternalOutboxItem sha256 event V1 = Inr i" and "hexDigest sha256"
  shows "itemOk sha256 i"
proof -
  from assms(1) obtain e d where e: "normalizeOperatorAlertEvent event = Inr e" "digestOperatorAlertEvent sha256 (eventJson e) = Inr d"
    and i: "i = \<lparr> obSchema = OPERATOR_ALERT_EXTERNAL_OUTBOX_ITEM_SCHEMA, obProfileId = OPERATOR_ALERT_PROFILE_ID,
           obProfileVersion = 1, obAlertIdHex = evAlertIdHex e, obEventDigestHex = d,
           obEvent = eventJson e, obStatus = Pending, obRevision = 1, obAttemptCount = 0, obClaimedAtMs = None,
           obLeaseExpiresAtMs = None, obNextAttemptAtMs = None, obDeliveredAtMs = None, obReceiptDigestHex = None,
           obFailure = None, obCreatedAtMs = evOpenedAtMs e, obUpdatedAtMs = evOpenedAtMs e \<rparr>"
    by (auto simp: createPendingOperatorAlertExternalOutboxItem_def result_simps liftAlert_iff profileOk_iff)
  have "isHex64 d" using e(2) hexDigest_alertDigest [OF assms(2)] by (auto simp: digestOperatorAlertEvent_def andThen_Inr_iff)
  moreover have "isHex64 (evAlertIdHex e)" "isNonnegSafe (evOpenedAtMs e)" using e(1) by (auto simp: normalizeEvent_iff)
  moreover note event_idem [OF e(1)] e(2)
  ultimately show ?thesis
    by (auto simp: itemOk_def i identityOk_def progressOk_def outboxMetadataOk_def okOptional_def safe_defs intro!: exI [of _ e])
qed

lemma remembered_append: "remembered rows m \<Longrightarrow> remembered (rows @ [i]) m"
  by (auto simp: remembered_def rowOf_append)

lemma remembered_replace:
  assumes "distinct (map obAlertIdHex rows)" and "obRevision n = e + 1" and "remembered rows m"
  shows "remembered (map (\<lambda>j. if obAlertIdHex j = obAlertIdHex n \<and> obRevision j = e then n else j) rows) m"
  using assms(2,3) by (auto simp: remembered_def rowOf_replace [OF assms(1)])

lemma cas_remembered:
  assumes "outboxOk sha256 rows" and "itemOk sha256 n" and "sqliteCompareAndSet sha256 e n rows = (CasStored, rows')"
    and "remembered rows m"
  shows "remembered rows' m"
proof -
  have "rows' = map (\<lambda>j. if obAlertIdHex j = obAlertIdHex n \<and> obRevision j = e then n else j) rows" "obRevision n = e + 1"
    using cas_rows [OF assms(3)] assms(2) by (auto simp: itemOk_iff)
  with assms show ?thesis using remembered_replace by (auto simp: outboxOk_def)
qed

lemma cas_keeps_delivered:
  assumes ok: "outboxOk sha256 rows" and n: "itemOk sha256 n" and cas: "sqliteCompareAndSet sha256 e n rows = (CasStored, rows')"
    and m: "remembered rows m" "obAlertIdHex m = obAlertIdHex n" "obRevision m = e" "obStatus m \<noteq> Delivered"
    and j: "j \<in> set rows" "obStatus j = Delivered"
  shows "j \<in> set rows'"
proof -
  have rows': "rows' = map (\<lambda>j. if obAlertIdHex j = obAlertIdHex n \<and> obRevision j = e then n else j) rows"
    using cas_rows [OF cas] n by (auto simp: itemOk_iff)
  have "\<not> (obAlertIdHex j = obAlertIdHex n \<and> obRevision j = e)"
  proof
    assume same: "obAlertIdHex j = obAlertIdHex n \<and> obRevision j = e"
    then have "rowOf rows (obAlertIdHex m) = Some j" using rowOf_in [of rows j] ok j(1) m(2) by (simp add: outboxOk_def)
    then show False using m same j(2) by (auto simp: remembered_def)
  qed
  then show ?thesis using j(1) by (force simp: rows')
qed

lemma settle_facts:
  assumes "itemOk sha256 c" and "f \<in> {outboxDelivered sha256 c now V1 receipt, outboxRetry sha256 c now V1 failure}" and "f = Inr n"
  shows "itemOk sha256 n \<and> obAlertIdHex n = obAlertIdHex c \<and> obRevision n = obRevision c + 1"
  using assms(2,3)
  by (auto simp: deliveredOf_def retryOf_def dest!: sym [of "Inr n"] outboxDelivered_eq [OF assms(1)] outboxRetry_eq [OF assms(1)])

lemma eligible_undelivered: "isEligible i now \<Longrightarrow> obStatus i \<noteq> Delivered"
  by (auto simp: isEligible_def)

lemma systemStep_ok:
  assumes ok: "systemOk sha256 y" and hex: "hexDigest sha256" and step: "systemStep sha256 y z"
  shows "systemOk sha256 z \<and> {j \<in> set (sysTable y). obStatus j = Delivered} \<subseteq> set (sysTable z)"
  using step
proof cases
  case (enqueue event i a rows)
  note i = createPending_item_ok [OF enqueue(2) hex]
  have "outboxOk sha256 rows" using ok enqueue_ok [of sha256 "sysTable y" i] enqueue(3) by (simp add: systemOk_def)
  with enqueue_cases [OF i enqueue(3)] ok show ?thesis by (auto simp: enqueue systemOk_def remembered_append)
next
  case (read now i)
  have rows: "outboxOk sha256 (sysTable y)" using ok by (simp add: systemOk_def)
  have "isNonnegSafe now" using read(2) by (auto simp: sqliteReadNext_def alertNonnegative_iff split: sum.splits)
  from readNext_order(2) [OF rows this read(2)] have i: "i \<in> set (sysTable y)" by blast
  then have "itemOk sha256 i" "remembered (sysTable y) i"
    using rows rowOf_in [of "sysTable y" i] by (auto simp: outboxOk_def remembered_def)
  with ok show ?thesis by (auto simp: read systemOk_def)
next
  case (claim i now c rows)
  then have i: "itemOk sha256 i" "remembered (sysTable y) i" and rows: "outboxOk sha256 (sysTable y)"
    using ok by (auto simp: systemOk_def)
  note c = outboxClaim_eq [OF i(1) claim(4)]
  then have c': "itemOk sha256 c" "obAlertIdHex c = obAlertIdHex i" "obRevision c = obRevision i + 1" by (auto simp: claimOf_def)
  have rem: "remembered rows m" if "remembered (sysTable y) m" for m
    using cas_remembered [OF rows c'(1) claim(5) that] .
  have "rowOf rows (obAlertIdHex c) = Some c"
    using outbox.cas_stored [of sha256 "sysTable y" c "obAlertIdHex c" "Some (obRevision i)" rows] rows claim(5) c'(1)
    by (simp add: outboxRequest_def itemOk_iff)
  then have "remembered rows c" by (simp add: remembered_def)
  moreover have "outboxOk sha256 rows" by (rule cas_outboxOk [OF rows claim(5)])
  moreover have "{j \<in> set (sysTable y). obStatus j = Delivered} \<subseteq> set rows"
    using cas_keeps_delivered [OF rows c'(1) claim(5) i(2)] c'(2) eligible_undelivered [OF claim(3)] by auto
  ultimately show ?thesis using ok rem c'(1) by (auto simp: claim systemOk_def)
next
  case (settle c f now receipt failure n rows)
  then have c: "itemOk sha256 c" "remembered (sysTable y) c" and rows: "outboxOk sha256 (sysTable y)"
    using ok by (auto simp: systemOk_def)
  note n = settle_facts [OF c(1) settle(4,5)]
  have rem: "remembered rows m" if "remembered (sysTable y) m" for m
    using cas_remembered [OF rows _ settle(6) that] n by blast
  moreover have "outboxOk sha256 rows" by (rule cas_outboxOk [OF rows settle(6)])
  moreover have "{j \<in> set (sysTable y). obStatus j = Delivered} \<subseteq> set rows"
    using cas_keeps_delivered [OF rows _ settle(6) c(2)] n settle(3) by auto
  ultimately show ?thesis using ok by (auto simp: settle systemOk_def)
qed

lemma reachable_ok: "reachableOutbox sha256 y \<Longrightarrow> hexDigest sha256 \<Longrightarrow> systemOk sha256 y"
  by (induction rule: reachableOutbox.induct) (auto simp: systemOk_def [of _ "\<lparr> sysTable = [], known = {} \<rparr>"] outboxOk_def
      dest: systemStep_ok)

text \<open>C9. A delivered alert stays delivered: from every reachable state of any number of racing workers and daemons, with
  reads and claims as old as they like, the row with its receipt is still there after every further step; and every
  row of a reachable table is well formed, under an id of its own.\<close>

theorem delivered_alert_is_final:
  assumes "hexDigest sha256" and "reachableOutbox sha256 y" and "(systemStep sha256)\<^sup>*\<^sup>* y z"
  shows "(\<forall>j \<in> set (sysTable y). obStatus j = Delivered \<longrightarrow> j \<in> set (sysTable z)) \<and> outboxOk sha256 (sysTable z)"
proof -
  have "systemOk sha256 z \<and> {j \<in> set (sysTable y). obStatus j = Delivered} \<subseteq> set (sysTable z)"
    using assms(3)
  proof (induction rule: rtranclp_induct)
    case base
    then show ?case using reachable_ok [OF assms(2,1)] by auto
  next
    case (step u v)
    then show ?case using systemStep_ok [OF _ assms(1) step.hyps(2)] by blast
  qed
  then show ?thesis by (auto simp: systemOk_def)
qed


section \<open>Progress\<close>

lemma event_canonical: "itemOk sha256 i \<Longrightarrow> \<exists>t. canonicalJson (obEvent i) = Inr t"
  by (auto simp: itemOk_def identityOk_def digestOperatorAlertEvent_def andThen_Inr_iff alertDigest_iff)

lemma cas_succeeds:
  assumes "outboxOk sha256 rows" and "i \<in> set rows" and n: "itemOk sha256 n" "obRevision n = obRevision i + 1"
    and same: "obAlertIdHex n = obAlertIdHex i" "obEventDigestHex n = obEventDigestHex i" "obCreatedAtMs n = obCreatedAtMs i"
      "obEvent n = obEvent i"
  shows "sqliteCompareAndSet sha256 (obRevision i) n rows =
     (CasStored, map (\<lambda>j. if obAlertIdHex j = obAlertIdHex n \<and> obRevision j = obRevision i then n else j) rows)"
proof -
  have i: "itemOk sha256 i" and row: "rowOf rows (obAlertIdHex i) = Some i"
    using assms(1,2) rowOf_in by (auto simp: outboxOk_def)
  have ids: "obProfileId n = obProfileId i" "obProfileVersion n = obProfileVersion i"
    using i n(1) by (auto simp: itemOk_def identityOk_def)
  have rev: "isNonnegSafe (obRevision i)" "obRevision i \<noteq> 0" using i by (auto simp: itemOk_def progressOk_def)
  obtain t where "canonicalJson (obEvent i) = Inr t" using event_canonical [OF i] by blast
  then have "sameImmutableEvent i n = Inr True"
    using same ids by (simp add: sameImmutableEvent_def sameEventText_def liftAlert_def alertCanonical_def)
  moreover have "readByAlertId sha256 rows (obAlertIdHex n) = Inr (Some i)"
    using readByAlertId_ok [OF assms(1) itemOk_hex [OF i]] row same by simp
  moreover have "list_ex (\<lambda>j. obAlertIdHex j = obAlertIdHex n \<and> obRevision j = obRevision i) rows"
    using assms(2) same(1) by (auto simp: list_ex_iff)
  ultimately show ?thesis using ok_normalized [OF n(1)] n(2) rev
    by (simp add: sqliteCompareAndSet_def liftAlert_def alertNonnegative_def isNonnegSafe_def)
qed

lemma claimOf_ok:
  assumes "itemOk sha256 i" and "obCreatedAtMs i \<le> now" and "isNonnegSafe now" and "isSafeInteger (now + 15000)"
    and "isSafeInteger (obRevision i + 1)"
  shows "itemOk sha256 (claimOf now i)" and "outboxClaim sha256 i now V1 = Inr (claimOf now i)"
proof -
  from assms(1) obtain e where e: "normalizeOperatorAlertEvent (obEvent i) = Inr e" "obEvent i = eventJson e" "identityOk sha256 e i"
    and pr: "progressOk i" by (auto simp: itemOk_def)
  have att: "isSafeInteger (obAttemptCount i + 1)" using pr by (auto simp: progressOk_def safe_defs)
  have "progressOk (claimOf now i)" using pr att assms
    by (auto simp: progressOk_def claimOf_def outboxMetadataOk_def okOptional_def isNonnegSafe_def)
  moreover have "identityOk sha256 e (claimOf now i)" using e(3) by (auto simp: identityOk_def claimOf_def)
  ultimately show ok: "itemOk sha256 (claimOf now i)" using e by (auto simp: itemOk_def claimOf_def)
  show "outboxClaim sha256 i now V1 = Inr (claimOf now i)"
    using ok_normalized [OF ok] assms(4,5) att by (simp add: outboxClaim_def increment_def Let_def claimOf_def)
qed

lemma deliveredOf_ok:
  assumes "itemOk sha256 c" and "obCreatedAtMs c \<le> now" and "isNonnegSafe now" and "isHex64 receipt"
    and "isSafeInteger (obRevision c + 1)" and "obAttemptCount c \<noteq> 0"
  shows "itemOk sha256 (deliveredOf now receipt c)" and "outboxDelivered sha256 c now V1 receipt = Inr (deliveredOf now receipt c)"
proof -
  from assms(1) obtain e where e: "normalizeOperatorAlertEvent (obEvent c) = Inr e" "obEvent c = eventJson e" "identityOk sha256 e c"
    and pr: "progressOk c" by (auto simp: itemOk_def)
  have "progressOk (deliveredOf now receipt c)" using pr assms
    by (auto simp: progressOk_def deliveredOf_def outboxMetadataOk_def okOptional_def isNonnegSafe_def)
  moreover have "identityOk sha256 e (deliveredOf now receipt c)" using e(3) by (auto simp: identityOk_def deliveredOf_def)
  ultimately show ok: "itemOk sha256 (deliveredOf now receipt c)" using e by (auto simp: itemOk_def deliveredOf_def)
  show "outboxDelivered sha256 c now V1 receipt = Inr (deliveredOf now receipt c)"
    using ok_normalized [OF ok] assms(4,5) by (simp add: outboxDelivered_def outboxHex32_def increment_def deliveredOf_def)
qed

lemma claimOf_simps [simp]:
  "obRevision (claimOf now i) = obRevision i + 1" "obAttemptCount (claimOf now i) = obAttemptCount i + 1"
  "obAlertIdHex (claimOf now i) = obAlertIdHex i" "obEventDigestHex (claimOf now i) = obEventDigestHex i"
  "obCreatedAtMs (claimOf now i) = obCreatedAtMs i" "obEvent (claimOf now i) = obEvent i" "obStatus (claimOf now i) = Delivering"
  by (simp_all add: claimOf_def)

lemma deliveredOf_simps [simp]:
  "obRevision (deliveredOf now receipt c) = obRevision c + 1" "obAlertIdHex (deliveredOf now receipt c) = obAlertIdHex c"
  "obEventDigestHex (deliveredOf now receipt c) = obEventDigestHex c" "obCreatedAtMs (deliveredOf now receipt c) = obCreatedAtMs c"
  "obEvent (deliveredOf now receipt c) = obEvent c" "obStatus (deliveredOf now receipt c) = Delivered"
  by (simp_all add: deliveredOf_def)

definition replaceRow :: "outbox_item \<Rightarrow> outbox_item \<Rightarrow> outbox_table \<Rightarrow> outbox_table" where
  "replaceRow i n rows = map (\<lambda>j. if obAlertIdHex j = obAlertIdHex n \<and> obRevision j = obRevision i then n else j) rows"

lemma claim_stored:
  assumes "outboxOk sha256 rows" and "i \<in> set rows" and "obCreatedAtMs i \<le> now" and "isNonnegSafe now"
    and "isSafeInteger (now + 15000)" and "isSafeInteger (obRevision i + 1)"
  shows "sqliteCompareAndSet sha256 (obRevision i) (claimOf now i) rows = (CasStored, replaceRow i (claimOf now i) rows)"
    and "claimOf now i \<in> set (replaceRow i (claimOf now i) rows)" and "outboxOk sha256 (replaceRow i (claimOf now i) rows)"
proof -
  have i: "itemOk sha256 i" using assms(1,2) by (simp add: outboxOk_def)
  show cas: "sqliteCompareAndSet sha256 (obRevision i) (claimOf now i) rows = (CasStored, replaceRow i (claimOf now i) rows)"
    using cas_succeeds [OF assms(1,2) claimOf_ok(1) [OF i assms(3-6)]] by (simp add: replaceRow_def)
  show "outboxOk sha256 (replaceRow i (claimOf now i) rows)" by (rule cas_outboxOk [OF assms(1) cas])
  show "claimOf now i \<in> set (replaceRow i (claimOf now i) rows)" using assms(2) by (force simp: replaceRow_def)
qed

lemma delivered_stored:
  assumes "outboxOk sha256 rows" and "c \<in> set rows" and "obCreatedAtMs c \<le> now" and "isNonnegSafe now" and "isHex64 receipt"
    and "isSafeInteger (obRevision c + 1)" and "obAttemptCount c \<noteq> 0"
  shows "sqliteCompareAndSet sha256 (obRevision c) (deliveredOf now receipt c) rows = (CasStored, replaceRow c (deliveredOf now receipt c) rows)"
    and "deliveredOf now receipt c \<in> set (replaceRow c (deliveredOf now receipt c) rows)"
proof -
  have c: "itemOk sha256 c" using assms(1,2) by (simp add: outboxOk_def)
  show "sqliteCompareAndSet sha256 (obRevision c) (deliveredOf now receipt c) rows = (CasStored, replaceRow c (deliveredOf now receipt c) rows)"
    using cas_succeeds [OF assms(1,2) deliveredOf_ok(1) [OF c assms(3-7)]] by (simp add: replaceRow_def)
  show "deliveredOf now receipt c \<in> set (replaceRow c (deliveredOf now receipt c) rows)" using assms(2) by (force simp: replaceRow_def)
qed

text \<open>What a transport that accepted answers.\<close>

definition receiptAnswer :: "string \<Rightarrow> json" where
  "receiptAnswer receipt = JObj [(''status'', JStr ''delivered''), (''receiptDigestHex'', JStr receipt)]"

lemma receiptAnswer_ok: "isHex64 receipt \<Longrightarrow> normalizeTransportResult (receiptAnswer receipt) = Some (TransportDelivered receipt)"
proof -
  have "sort [''status'', ''receiptDigestHex''] = [''receiptDigestHex'', ''status'']" by code_simp
  then show "isHex64 receipt \<Longrightarrow> ?thesis"
    by (simp add: receiptAnswer_def normalizeTransportResult_def keyText_def field_def)
qed

lemma settle_run:
  assumes rows: "outboxOk sha256 (world s)" "c \<in> set (world s)" and now: "obCreatedAtMs c \<le> now" "isNonnegSafe now" and hex: "isHex64 receipt"
    and rev: "isSafeInteger (obRevision c + 1)" "obAttemptCount c \<noteq> 0"
    and transport: "\<And>t w. transport t w = (Inr (receiptAnswer receipt), w)"
  shows "\<exists>s'. settleStage sha256 (sqlitePorts sha256 transport) V1 now c s = (Inr (WorkerDelivered (obAlertIdHex c)), s')
     \<and> deliveredOf now receipt c \<in> set (world s')"
proof -
  have "itemOk sha256 c" using rows by (simp add: outboxOk_def)
  from deliveredOf_ok(2) [OF this now hex rev] delivered_stored [OF rows now hex rev] receiptAnswer_ok [OF hex] show ?thesis
    by (simp add: settleStage_def transmit_def outboxCompareAndSet_def action_defs sqlitePorts_def transport Let_def)
qed

text \<open>C22. A due alert gets delivered: when the item the outbox hands out is eligible and the transport accepts, one worker
  cycle over the SQLite outbox claims it, transmits it and records it delivered with the receipt of the transport.\<close>

theorem due_alert_is_delivered:
  assumes rows: "outboxOk sha256 (world s)" and read: "sqliteReadNext sha256 now (world s) = OutboxReadItem (Some i)"
    and due: "isEligible i now" "obCreatedAtMs i \<le> now" and now: "isNonnegSafe now" "isSafeInteger (now + 15000)"
    and rev: "isSafeInteger (obRevision i + 2)" and hex: "isHex64 receipt"
    and transport: "\<And>t w. transport t w = (Inr (receiptAnswer receipt), w)"
  shows "\<exists>s'. runOperatorAlertExternalOutboxWorkerCycle sha256 (sqlitePorts sha256 transport) V1 now s
       = (Inr (WorkerDelivered (obAlertIdHex i)), s')
     \<and> deliveredOf now receipt (claimOf now i) \<in> set (world s')"
proof -
  let ?ports = "sqlitePorts sha256 transport"
  have i: "i \<in> set (world s)" "itemOk sha256 i" "obStatus i \<noteq> Delivered"
    using readNext_order(2) [OF rows now(1) read] rows by (auto simp: outboxOk_def)
  then have pr: "0 \<le> obRevision i" "0 \<le> obAttemptCount i" by (auto simp: itemOk_def progressOk_def isNonnegSafe_def)
  with rev have rev1: "isSafeInteger (obRevision i + 1)" by (auto simp: safe_defs)
  note cl = claimOf_ok [OF i(2) due(2) now rev1] and st = claim_stored [OF rows i(1) due(2) now rev1]
  define s1 where "s1 = s \<lparr> calls := calls s @ [ReadNextCall now (Inr (OutboxReadItem (Some i)))] \<rparr>"
  define s2 where "s2 = s1 \<lparr> world := replaceRow i (claimOf now i) (world s),
    calls := calls s1 @ [OutboxCasCall (obRevision i) (claimOf now i) (Inr CasStored)] \<rparr>"
  have cas: "outboxCompareAndSet ?ports (obRevision i) (claimOf now i) s1 = (Inr CasStored, s2)"
    using st(1) by (simp add: outboxCompareAndSet_def portAction_def sqlitePorts_def s1_def s2_def)
  have "\<exists>s'. settleStage sha256 ?ports V1 now (claimOf now i) s2 = (Inr (WorkerDelivered (obAlertIdHex (claimOf now i))), s')
     \<and> deliveredOf now receipt (claimOf now i) \<in> set (world s')"
    by (rule settle_run) (use st due(2) now hex rev pr transport in \<open>simp_all add: s2_def algebra_simps\<close>)
  then obtain s' where s': "settleStage sha256 ?ports V1 now (claimOf now i) s2 = (Inr (WorkerDelivered (obAlertIdHex i)), s')"
    "deliveredOf now receipt (claimOf now i) \<in> set (world s')" by auto
  have work: "workItem sha256 ?ports V1 now i s1 = (Inr (WorkerDelivered (obAlertIdHex i)), s')"
    using due(1) i(3) cl(2) cas s'(1)
    by (auto simp: workItem_def bindA_def liftA_def isEligible_def notYet_def split: delivery_status.splits option.splits)
  have "runOperatorAlertExternalOutboxWorkerCycle sha256 ?ports V1 now s = workItem sha256 ?ports V1 now i s1"
    using read ok_normalized [OF i(2)] now(1) profileOk_iff [of V1 "()"]
    by (simp add: runOperatorAlertExternalOutboxWorkerCycle_def bindA_def liftA_def portAction_def sqlitePorts_def s1_def V1_iff
        liftAlert_def alertNonnegative_def isNonnegSafe_def)
  with work s'(2) show ?thesis by auto
qed


section \<open>Witnesses\<close>

definition demoItem :: outbox_item where
  "demoItem = \<lparr> obSchema = OPERATOR_ALERT_EXTERNAL_OUTBOX_ITEM_SCHEMA, obProfileId = OPERATOR_ALERT_PROFILE_ID,
     obProfileVersion = 1, obAlertIdHex = demoAlertHex, obEventDigestHex = demoAlertHex, obEvent = eventJson demoEvent,
     obStatus = Pending, obRevision = 1, obAttemptCount = 0, obClaimedAtMs = None, obLeaseExpiresAtMs = None,
     obNextAttemptAtMs = None, obDeliveredAtMs = None, obReceiptDigestHex = None, obFailure = None, obCreatedAtMs = 1000,
     obUpdatedAtMs = 1000 \<rparr>"

lemma demoEvent_canonical: "isOk (canonicalJson (eventJson demoEvent))"
proof -
  have acts: "isOk (canonicalJson (JArr (map actionJson (evRecoveryActions demoEvent))))"
    by (rule canonicalJson_array_ok) (use action_ok in auto)
  have caps: "isOk (canonicalJson NO_ACTION_CAPABILITIES)" "NO_ACTION_CAPABILITIES \<noteq> JUndefined"
    unfolding NO_ACTION_CAPABILITIES_def
    by (rule canonicalJson_members_ok, simp add: CAPABILITY_FIELDS_def) simp
  have num: "isOk (canonicalJson (JNum 1))" "isOk (canonicalJson (JNum 1000))" by (simp_all add: safe_defs)
  show ?thesis unfolding eventJson_def using acts caps canonical_atoms canonical_atoms(11) [of "evReasons demoEvent"] num
    by (intro canonicalJson_members_ok) (simp add: demoEvent_def del: canonicalJson.simps)
qed

lemma demoItem_created: "createPendingOperatorAlertExternalOutboxItem demoSha (eventJson demoEvent) V1 = Inr demoItem"
proof -
  obtain t where t: "canonicalJson (eventJson demoEvent) = Inr t" using demoEvent_canonical by (auto simp: isOk_iff)
  then have "digestOperatorAlertEvent demoSha (eventJson demoEvent) = Inr demoAlertHex"
    using demoEvent_accepted by (simp add: digestOperatorAlertEvent_def alertDigest_iff demoSha_def)
  then show ?thesis using demoEvent_accepted profileOk_iff [of V1 "()"]
    by (simp add: createPendingOperatorAlertExternalOutboxItem_def liftAlert_def V1_iff demoItem_def demoEvent_def)
qed

lemma demoItem_ok: "itemOk demoSha demoItem" "outboxOk demoSha [demoItem]"
  using createPending_item_ok [OF demoItem_created demo_facts(1)] by (simp_all add: outboxOk_def)

lemma demoItem_simps [simp]: "obStatus demoItem = Pending" "obRevision demoItem = 1" "obCreatedAtMs demoItem = 1000"
  "obAttemptCount demoItem = 0" "obAlertIdHex demoItem = demoAlertHex" "previousOf demoItem = JNull"
  by (simp_all add: demoItem_def previousOf_def eventJson_def field_def demoEvent_def jsonOptional_def)

lemma demo_read_next: "sqliteReadNext demoSha 2000 [demoItem] = OutboxReadItem (Some demoItem)"
  using readNext_items [OF demoItem_ok(2), of "\<lambda>i. (obCreatedAtMs i, obAlertIdHex i)" "\<lambda>i. obStatus i \<noteq> Delivered"]
  by (simp add: sqliteReadNext_def alertNonnegative_def safe_defs unblocked_def)

definition demoTransport :: "transmission \<Rightarrow> (outbox_table, json) port" where
  "demoTransport t w = (Inr (receiptAnswer demoAlertHex), w)"

definition demoWorker :: "(outbox_error + worker_outcome) \<times> (outbox_table, worker_call) port_run" where
  "demoWorker = runOperatorAlertExternalOutboxWorkerCycle demoSha (sqlitePorts demoSha demoTransport) V1 2000
     \<lparr> world = [demoItem], calls = [] \<rparr>"

lemma demo_times: "isNonnegSafe 2000" "isSafeInteger (2000 + 15000)" "isSafeInteger (1 + 1)" "isSafeInteger (1 + 2)"
  by (simp_all add: safe_defs)

lemma demo_eligible: "isEligible demoItem now"
  by (simp add: isEligible_def)

theorem due_alert_is_delivered_witness:
  "\<exists>s'. demoWorker = (Inr (WorkerDelivered demoAlertHex), s')
     \<and> deliveredOf 2000 demoAlertHex (claimOf 2000 demoItem) \<in> set (world s')"
  using due_alert_is_delivered [of demoSha "\<lparr> world = [demoItem], calls = [] \<rparr>" 2000 demoItem demoAlertHex demoTransport]
    demoItem_ok demo_read_next demo_eligible demo_times demoAlertHex_ok
  by (simp add: demoWorker_def demoTransport_def)

theorem worker_cycle_trace_witness: "workerTrace demoSha 2000 (calls (snd demoWorker))"
  by (rule worker_cycle_trace [of demoSha "sqlitePorts demoSha demoTransport" V1 2000 "\<lparr> world = [demoItem], calls = [] \<rparr>"
      "fst demoWorker"]) (simp_all add: demoWorker_def)

text \<open>Two workers claim the same pending item: one claim is stored.\<close>

theorem outbox_claims_unique_witness:
  "\<exists>stored rows. serve (outboxRequest demoSha) [(Some 1, claimOf 2000 demoItem), (Some 1, claimOf 2000 demoItem)] [demoItem]
       = (stored, rows)
     \<and> stored \<noteq> [] \<and> distinct (map obRevision (filter (\<lambda>i. obAlertIdHex i = demoAlertHex) stored))"
proof -
  note cl = claimOf_ok(1) [of demoSha demoItem 2000] and st = claim_stored(1) [OF demoItem_ok(2), of demoItem 2000]
  obtain stored rows where run: "serve (outboxRequest demoSha) [(Some 1, claimOf 2000 demoItem), (Some 1, claimOf 2000 demoItem)]
      [demoItem] = (stored, rows)" by fastforce
  moreover have "stored \<noteq> []" using run cl st demoItem_ok demo_times
    by (auto simp: outboxRequest_def itemOk_iff split: prod.splits)
  ultimately show ?thesis using outbox_claims_unique [OF demoItem_ok(2) run, of demoAlertHex] by blast
qed

theorem outbox_order_witness:
  "sqliteReadNext demoSha 2000 [demoItem] = OutboxReadItem (Some demoItem) \<and> obStatus demoItem \<noteq> Delivered
     \<and> previousOf demoItem \<noteq> JStr (obAlertIdHex demoItem)"
  using outbox_order [OF demoItem_ok(2) demo_times(1)] demo_read_next by simp

text \<open>A state in which the alert was enqueued, read, claimed and delivered.\<close>

lemma demo_delivered_reachable:
  "\<exists>y. reachableOutbox demoSha y \<and> deliveredOf 2000 demoAlertHex (claimOf 2000 demoItem) \<in> set (sysTable y)"
proof -
  let ?c = "claimOf 2000 demoItem" and ?d = "deliveredOf 2000 demoAlertHex (claimOf 2000 demoItem)"
  define y1 where "y1 = \<lparr> sysTable = [demoItem], known = {} \<rparr>"
  define y2 where "y2 = \<lparr> sysTable = [demoItem], known = {demoItem} \<rparr>"
  define y3 where "y3 = \<lparr> sysTable = replaceRow demoItem ?c [demoItem], known = {?c, demoItem} \<rparr>"
  define y4 where "y4 = y3 \<lparr> sysTable := replaceRow ?c ?d (sysTable y3) \<rparr>"
  note cl = claimOf_ok [OF demoItem_ok(1), of 2000] and st = claim_stored [OF demoItem_ok(2), of demoItem 2000]
  have e: "sqliteEnqueue demoSha demoItem [] = (EnqueueStored, [demoItem])"
    using ok_normalized [OF demoItem_ok(1)] by (simp add: sqliteEnqueue_def rowOf_def)
  have "systemStep demoSha \<lparr> sysTable = [], known = {} \<rparr> y1"
    using systemStep.enqueue [OF demoItem_created, of "\<lparr> sysTable = [], known = {} \<rparr>"] e by (simp add: y1_def)
  moreover have "systemStep demoSha y1 y2"
    using systemStep.read [of demoSha 2000 y1 demoItem] demo_read_next by (simp add: y1_def y2_def)
  moreover have "systemStep demoSha y2 y3"
    using systemStep.claim [of demoItem y2 2000 demoSha ?c "replaceRow demoItem ?c [demoItem]"] st(1) cl(2) demo_times demo_eligible
    by (simp add: y2_def y3_def)
  moreover have "systemStep demoSha y3 y4 \<and> ?d \<in> set (sysTable y4)"
  proof -
    have "outboxOk demoSha (sysTable y3)" "?c \<in> set (sysTable y3)" using st demo_times by (simp_all add: y3_def)
    from delivered_stored [OF this, of 2000 demoAlertHex] deliveredOf_ok(2) [of demoSha ?c 2000 demoAlertHex] cl(1)
      systemStep.settle [of ?c y3 "Inr ?d" demoSha 2000 demoAlertHex transport_threw ?d "replaceRow ?c ?d (sysTable y3)"]
    show ?thesis using demo_times demoAlertHex_ok by (simp add: y3_def y4_def)
  qed
  ultimately show ?thesis using reachableOutbox.start reachableOutbox.step by meson
qed

theorem delivered_alert_is_final_witness:
  "\<exists>y. reachableOutbox demoSha y \<and> deliveredOf 2000 demoAlertHex (claimOf 2000 demoItem) \<in> set (sysTable y)
     \<and> (\<forall>z. (systemStep demoSha)\<^sup>*\<^sup>* y z \<longrightarrow> deliveredOf 2000 demoAlertHex (claimOf 2000 demoItem) \<in> set (sysTable z))"
proof -
  obtain y where y: "reachableOutbox demoSha y" "deliveredOf 2000 demoAlertHex (claimOf 2000 demoItem) \<in> set (sysTable y)"
    using demo_delivered_reachable by blast
  then show ?thesis using delivered_alert_is_final [OF demo_facts(1) y(1)] by (auto intro!: exI [of _ y])
qed

end
