(* ===== verification/Spec2Isabelle.thy ===== *)
theory Spec2Isabelle
  imports Ergo_Encoding Burn_Settlement Transactions_Root Spv_Branch Tx_Balance Read_Quorum Operational_Tx
    Peg_Out_Backing Settlement_Recovery Peg_In_Recovery Json_Scanner Candidate_Reconciliation Prepared_Recovery
    Storage_Rent Settlement_Authority Settlement_Restart Operator_Health Alert_State Alert_Event Alert_Delivery
    Alert_Store Operator_Outbox
begin

text \<open>
  A relayer between Ergo and a sidechain: it locks ERG on Ergo and mints on the sidechain (peg-in), and
  releases ERG for burns on the sidechain (peg-out). The sources are TypeScript under
  \<^verbatim>\<open>src/relayer/src\<close>; paths below are relative to it. The development models the code that decides
  whether funds may move: the encodings and proofs that identify a burn, the verification of Ergo headers, and
  the lifecycles that drive signers, nodes and journals.

  \<^bold>\<open>How the parts fit.\<close> A burn on the sidechain has an id derived from its event
  (\<^verbatim>\<open>trustless-burn-id.ts\<close>). Burns of a block are committed in a Merkle root, and a settlement on Ergo must
  bind one committed burn (\<^verbatim>\<open>trustless-burn-proof.ts\<close>). The root travels in the extension section of an
  Ergo block, whose header commits to the extension and to the transactions
  (\<^verbatim>\<open>ergo-extension-membership.ts\<close>, \<^verbatim>\<open>ergo-block-transactions-root.ts\<close>,
  \<^verbatim>\<open>ergo-header-id.ts\<close>). A header counts when it sits on a verified branch of sufficient work and depth
  (\<^verbatim>\<open>ergo-eip37-difficulty.ts\<close>, \<^verbatim>\<open>ergo-autolykos-v2-header.ts\<close>,
  \<^verbatim>\<open>ergo-autolykos-v2-spv-branch.ts\<close>). The relayer acts only while two Ergo nodes agree and its signer is
  available (\<^verbatim>\<open>ergo-read-quorum-supervisor.ts\<close>, \<^verbatim>\<open>ergo-signer-availability.ts\<close>); a transaction
  goes through a fixed lifecycle (\<^verbatim>\<open>ergo-operational-transaction-lifecycle.ts\<close>), and a release of funds
  through the authenticated one, which carries every artifact from revalidation to confirmation under one binding
  (\<^verbatim>\<open>authenticated-settlement-execution-lifecycle.ts\<close>). Candidates for settlement are prepared, checked again
  on every pass and restored after a restart without any authority
  (\<^verbatim>\<open>authenticated-settlement-candidate-reconciliation.ts\<close>,
  \<^verbatim>\<open>authenticated-v2-prepared-candidate-recovery.ts\<close>). After a restart or a
  reorganisation settlements and mints are reconciled (\<^verbatim>\<open>aggregate-settlement-recovery.ts\<close>,
  \<^verbatim>\<open>peg-in-post-mint-recovery.ts\<close>); the age of the boxes the bridge holds is projected against storage
  rent (\<^verbatim>\<open>storage-rent-maintenance.ts\<close>); and outstanding burns are kept against the vault
  (\<^verbatim>\<open>peg-out-observation-cursor.ts\<close>, \<^verbatim>\<open>peg-out-backing-inventory.ts\<close>,
  \<^verbatim>\<open>cross-ledger-backing-alarm.ts\<close>). Signer, quorum, holds, solvency, commitments, finality,
  reorganisations and settlements are projected into one health status with its reasons
  (\<^verbatim>\<open>operator-health-projection.ts\<close>); when it is not healthy the daemon raises an alert, whose state is kept
  in the state tracker under a revision (\<^verbatim>\<open>operator-alert-delivery.ts\<close>,
  \<^verbatim>\<open>operator-alert-delivery-state.ts\<close>), and a separate worker carries alerts to the operators from an
  outbox of its own (\<^verbatim>\<open>operator-alert-external-outbox.ts\<close>).

  \<^bold>\<open>Theories.\<close>
  \<^item> \<open>Bridge_Prelude\<close>: results (\<open>'e + 'a\<close>, \<open>Inl\<close> a \<^verbatim>\<open>throw\<close>), actions on a state that may throw, safe
    integers, Node's text and byte conversions, and the interfaces \<open>codec\<close>, \<open>canonical_codec\<close>,
    \<open>invariant_system\<close> and \<open>monotone_system\<close>.
  \<^item> \<open>Ergo_Encoding\<close>: the Sigma register codecs of \<^verbatim>\<open>ergo-settlement-core/ergo-encoding.ts\<close>; readers accept
    exactly the canonical encodings.
  \<^item> \<open>Merkle_Levels\<close>, \<open>Burn_Proof\<close>, \<open>Burn_Settlement\<close>: burn leaves, commitments, inclusion proofs and the
    settlement binding; an accepted binding pays exactly one committed burn, its recipient and its amount.
  \<^item> \<open>Extension_Membership\<close>, \<open>Transactions_Root\<close>: soundness, completeness and exact parsing of membership
    proofs; the transactions root binds ids and witnesses, and the two tree constructions agree. The
    interface \<open>membership_scheme\<close> of \<open>Merkle_Levels\<close> is interpreted by both trees.
  \<^item> \<open>Header_Id\<close>, \<open>Difficulty\<close>, \<open>Autolykos\<close>, \<open>Spv_Branch\<close>: header bytes and ids, compact difficulty and its
    recalculation, proof of work and header admission, branches from a pinned checkpoint; every header of a
    verified branch carries the difficulty EIP-37 requires and a computed hit below its target.
  \<^item> \<open>Tx_Balance\<close>: change planning (\<^verbatim>\<open>tx-balance.ts\<close>) on bigints and on doubles.
  \<^item> \<open>Read_Quorum\<close>: both supervisors; the breaker refines a three-phase machine.
  \<^item> \<open>Canonical_Json\<close>, \<open>Operational_Tx\<close>: canonical text, admission and the seven-call pipeline.
  \<^item> \<open>Json_Scanner\<close>: the duplicate-key scanner of \<^verbatim>\<open>strict-json.ts\<close> against a grammar of JSON text; it is
    exact, it ends, and it accepts what the canonical printer writes.
  \<^item> \<open>Peg_Out_Backing\<close>, \<open>Settlement_Recovery\<close>, \<open>Peg_In_Recovery\<close>: cursor, alarm, inventory and the
    recoveries; a settlement recovery reads before it mutates, and every write carries the answer it rests on.
  \<^item> \<open>Port_Run\<close>: runs that call ports, shared by the theories that follow and by \<open>Settlement_Recovery\<close>.
  \<^item> \<open>Settlement_Lifecycle\<close>, \<open>Settlement_Authority\<close>, \<open>Settlement_Restart\<close>: the authenticated settlement, its
    eighteen ports and the branded handoffs; the order of its calls, what stands behind every submission, the
    meaning of the status, the round trip of a reservation, and the exact outcome of a restart.
  \<^item> \<open>Candidate_Reconciliation\<close>, \<open>Prepared_Recovery\<close>: the pass over active candidates fails closed and
    writes on evidence only; a recovery touches its journal last and restores no authority.
  \<^item> \<open>Storage_Rent\<close>: the inventory of contract surfaces and the projection of storage rent.
  \<^item> \<open>Operator_Health\<close>: the health projection; its reasons are exactly the ones that hold of the input, and the
    overall status is the worst of the signals.
  \<^item> \<open>Alert_State\<close>, \<open>Alert_Event\<close>, \<open>Alert_Delivery\<close>: alert states and ids, events with their recovery actions, and
    the delivery cycle; the calls of a cycle by stage, with at most one delivery, only after its own stored claim,
    and an accepted event has one canonical text.
  \<^item> \<open>Alert_Store\<close>: the adapter and the table of the state tracker, with the interface \<open>revision_store\<close> of
    compare-and-set stores; revisions have one owner, the table stays well formed, and an unhealthy projection
    without an alert is alerted, by one call of the sink, in one cycle.
  \<^item> \<open>Operator_Outbox\<close>: the outbox, its SQLite store and the worker; the second interpretation of \<open>revision_store\<close>,
    the order in which alerts leave, and a system of racing workers in which a delivered alert stays delivered.
  \<^item> This theory: the tip of a branch commits to the branch, and inventory and burn proofs agree on burn ids.

  \<^bold>\<open>Correspondence.\<close> A definition has the name of the function it models; a record or datatype models an
  interface, its fields prefixed where names would clash. A class or module with state is a record passed
  through its methods; weak maps and sets of provenance are lists or carried entries. Where the code compares
  objects by identity, an object is a record with a number for its identity. A port is a function on
  an unknown world that may throw, and a run records the calls made on ports, so that an order of calls is a
  statement about a list. Effects before a \<^verbatim>\<open>throw\<close> stay. A promise that rejects is a throw of the port;
  the code modelled here awaits one call at a time. Error messages are datatype constructors.

  \<^bold>\<open>Parameters.\<close> BLAKE2b-256 (package \<^verbatim>\<open>blakejs\<close>) is a function \<open>H\<close> on byte strings, assumed at most to
  return 32 bytes; where binding is claimed, a theorem either excludes collisions among the finitely many
  strings at hand or names the two strings that collide. SHA-256, the URL parser and all ports are parameters.

  \<^bold>\<open>Bounds and termination.\<close> Fuel is used in one place, the mutual recursion of the JSON scanner, which starts with
  twice the length of the text plus one; that this is always enough is proved (\<open>scan_total\<close>). Every other loop
  of the modelled code runs over a list, a counter
  with a fixed bound (32 elements of the proof of work, at most 71 growth steps of the table) or a number that
  shrinks (division by 128, 16, 10 or 2), and is a total function. JavaScript numbers are the integers they
  denote, with every \<^verbatim>\<open>isSafeInteger\<close> guard kept; the change planner on numbers rounds sums beyond
  \<open>2 ^ 53\<close>. Strings are code units below 256.

  \<^bold>\<open>Not modelled.\<close> The state tracker beyond its alert table and its migrations, the daemon loop (which also
  collects the inputs of the health projection) and process entry points, RPC clients, alert transports and the
  other adapters (I/O); the acknowledgement of alerts; the release gates and evidence reports (checks on documents
  and artefacts of a release); the binary witness packets, the transaction builders and the versioned
  validity-application profiles; the AVL tree (WebAssembly), the ErgoScript and Solidity contracts and the Rust
  provers (other languages).
\<close>

section \<open>A branch tip commits to the branch\<close>

lemma branch_nth:
  assumes "verifyErgoAutolykosV2SpvBranch H p ck suffix t = Inr b" and "i < length suffix"
  shows "computeErgoHeaderId H (suffix ! i) = Inr (vHeaderId (bHeaders b ! i)) \<and> hVersion (suffix ! i) \<le> 4
    \<and> hParentId (suffix ! i) = (if i = 0 then checkpointHeaderId p else vHeaderId (bHeaders b ! (i - 1)))"
proof -
  note B = branch_parts [OF assms(1)]
  have len: "length suffix = length (bHeaders b)" using B(2) by (metis length_map)
  have "suffix ! i = vHeader (bHeaders b ! i)" using assms(2) B(2) len by (metis nth_map)
  moreover have "hVersion (vHeader (bHeaders b ! i)) = expectedHeaderVersion p"
    using chain_version [OF B(1)] assms(2) len by simp
  moreover have "expectedHeaderVersion p \<le> 4"
    using assms(1) by (auto simp: verifyErgoAutolykosV2SpvBranch_def validateSpvProfile_def result_simps)
  ultimately show ?thesis using chain_nth [OF B(1), of i] assms(2) len B(8) by simp
qed

lemma canonicalHeader_parent: "canonicalHeader g = canonicalHeader h \<Longrightarrow> hParentId g = hParentId h"
  by (drule arg_cong [where f = hParentId]) (simp add: canonicalHeader_def)

definition collisionAt :: "(bytes \<Rightarrow> bytes) \<Rightarrow> header \<Rightarrow> header \<Rightarrow> bool" where
  "collisionAt H g h \<longleftrightarrow> (\<exists>x y. serializeErgoHeaderIdentity g = Inr x \<and> serializeErgoHeaderIdentity h = Inr y
     \<and> x \<noteq> y \<and> H x = H y)"

lemma branches_agree_below:
  assumes "verifyErgoAutolykosV2SpvBranch H p ck xs t = Inr a" and "verifyErgoAutolykosV2SpvBranch H q ck' ys t' = Inr b"
    and "n < length xs" and "n < length ys"
    and "vHeaderId (bHeaders a ! n) = vHeaderId (bHeaders b ! n)" and none: "\<And>i. i \<le> n \<Longrightarrow> \<not> collisionAt H (xs ! i) (ys ! i)"
  shows "\<forall>i \<le> n. canonicalHeader (xs ! i) = canonicalHeader (ys ! i)"
  using assms(3-)
proof (induction n)
  case 0
  with branch_nth [OF assms(1), of 0] branch_nth [OF assms(2), of 0] headerId_collision [of H "xs ! 0" _ "ys ! 0"]
  show ?case unfolding collisionAt_def by auto
next
  case (Suc n)
  note x = branch_nth [OF assms(1) Suc.prems(1)] and y = branch_nth [OF assms(2) Suc.prems(2)]
  from x y Suc.prems(3) Suc.prems(4) [of "Suc n"] headerId_collision [of H "xs ! Suc n" _ "ys ! Suc n"]
  have here: "canonicalHeader (xs ! Suc n) = canonicalHeader (ys ! Suc n)" unfolding collisionAt_def by auto
  have "vHeaderId (bHeaders a ! n) = vHeaderId (bHeaders b ! n)" using canonicalHeader_parent [OF here] x y by simp
  with Suc.IH Suc.prems have "\<forall>i \<le> n. canonicalHeader (xs ! i) = canonicalHeader (ys ! i)" by simp
  with here show ?case by (simp add: le_Suc_eq)
qed

text \<open>C29. The tip of a verified branch commits to the whole branch: two verified branches of the same length with the
  same tip id consist of the same headers, or at some height the two serialized headers are a collision of
  the hash function.\<close>

theorem branchTip_commits:
  assumes "verifyErgoAutolykosV2SpvBranch H p ck xs t = Inr a" and "verifyErgoAutolykosV2SpvBranch H q ck' ys t' = Inr b"
    and "length xs = length ys" and "vHeaderId (last (bHeaders a)) = vHeaderId (last (bHeaders b))"
  shows "map canonicalHeader xs = map canonicalHeader ys \<or> (\<exists>i < length xs. collisionAt H (xs ! i) (ys ! i))"
proof (rule disjCI)
  assume none: "\<nexists>i. i < length xs \<and> collisionAt H (xs ! i) (ys ! i)"
  have len: "length (bHeaders a) = length xs" "length (bHeaders b) = length ys"
    using branch_parts(2) [OF assms(1)] branch_parts(2) [OF assms(2)] by (metis length_map)+
  have pos: "0 < length xs" using branch_parts(3) [OF assms(1)] by simp
  have none': "\<not> collisionAt H (xs ! i) (ys ! i)" if "i \<le> length xs - 1" for i
    using none pos that by (metis diff_less le_less_trans zero_less_one)
  have "vHeaderId (bHeaders a ! (length xs - 1)) = vHeaderId (bHeaders b ! (length xs - 1))"
    using assms(3,4) len pos by (metis last_conv_nth length_greater_0_conv)
  then have "\<forall>i \<le> length xs - 1. canonicalHeader (xs ! i) = canonicalHeader (ys ! i)"
    using pos assms(3) none' by (intro branches_agree_below [OF assms(1,2)]) auto
  then show "map canonicalHeader xs = map canonicalHeader ys"
    using assms(3) pos by (intro nth_equalityI) auto
qed


theorem branchTip_commits_witness:
  "\<exists>a b. verifyErgoAutolykosV2SpvBranch demoChainHash demoSpvProfile demoCheckpoint [demoMined] 1700000000000 = Inr a
     \<and> verifyErgoAutolykosV2SpvBranch demoChainHash demoSpvProfile demoCheckpoint [demoMined] 1700000000000 = Inr b
     \<and> (map canonicalHeader [demoMined] = map canonicalHeader [demoMined]
        \<or> (\<exists>i < length [demoMined]. collisionAt demoChainHash ([demoMined] ! i) ([demoMined] ! i)))"
proof -
  obtain a where a: "verifyErgoAutolykosV2SpvBranch demoChainHash demoSpvProfile demoCheckpoint [demoMined] 1700000000000 = Inr a"
    using demo_branch by blast
  show ?thesis using branchTip_commits [OF a a refl refl] a by blast
qed


section \<open>The inventory and the burn proofs name burns alike\<close>

text \<open>The bytes an inventory entry's burn id is the hash of.\<close>

definition entryPreimage :: "inventory_entry \<Rightarrow> bytes" where
  "entryPreimage e = BURN_ID_DOMAIN @ fromHex (eSidechainIdHex e) @ fromHex (eTransactionHashHex e) @ uint32Be (eLogIndex e)"

lemma entry_burnId:
  assumes "assertInventoryEntry H e pin block = Inr u"
  shows "hexOf 32 (eSidechainIdHex e) \<and> hexOf 32 (eTransactionHashHex e) \<and> 0 \<le> eLogIndex e \<and> eLogIndex e < 2 ^ 32
    \<and> eBurnIdHex e = toHex (H (entryPreimage e))"
proof -
  from assms have h: "hexOf 32 (eSidechainIdHex e)" "hexOf 32 (eTransactionHashHex e)" "0 \<le> eLogIndex e"
    and d: "deriveTrustlessBurnIdHex H (eSidechainIdHex e) (eTransactionHashHex e) (SNum (eLogIndex e)) = Inr (eBurnIdHex e)"
    by (auto simp: assertInventoryEntry_def result_simps isHex64_def hexOf_def isNonnegSafe_def split: sum.splits)
  from d have "eLogIndex e < 2 ^ 32"
    by (auto simp: deriveTrustlessBurnIdHex_def normalizeUint32_def digitsOf_def result_simps split: if_splits)
  with h d deriveBurnId_canonical [of "eSidechainIdHex e" "eTransactionHashHex e" "eLogIndex e" H] show ?thesis
    by (simp add: entryPreimage_def)
qed

lemma preimage_inj:
  assumes "hexOf 32 s" and "hexOf 32 s'" and "hexOf 32 x" and "hexOf 32 x'" and "0 \<le> e" and "0 \<le> e'"
    and "e < 2 ^ 32" and "e' < 2 ^ 32"
  shows "fromHex s @ fromHex x @ uint32Be e = fromHex s' @ fromHex x' @ uint32Be e' \<longleftrightarrow> s = s' \<and> x = x' \<and> e = e'"
proof -
  have len: "length (fromHex a) = 32" and again: "toHex (fromHex a) = a" if "hexOf 32 a" for a
    using that by (auto simp: hexOf_def length_fromHex list_all_lowerHex_isHex lowerHex_roundtrip)
  have "uint32Be e = uint32Be e' \<longleftrightarrow> e = e'"
    using assms(5-8) beBytes_inj [of "nat e" 4 "nat e'"] by (simp add: uint32Be_def nat_less_iff eq_nat_nat_iff)
  with assms(1-4) len again show ?thesis by (metis append_eq_append_conv)
qed

text \<open>C30. Inventory and settlement agree on what a burn is: an admitted inventory entry and an encoded burn leaf
  carry the same burn id exactly when they are for the same sidechain event, unless the two event encodings
  are a collision of the hash function.\<close>

theorem inventory_matches_leaf:
  assumes "assertInventoryEntry H e pin block = Inr u" and "encodeTrustlessBurnLeaf H i = Inr l"
    and "\<not> (entryPreimage e \<noteq> burnIdPreimage l \<and> H (entryPreimage e) = H (burnIdPreimage l))"
  shows "eBurnIdHex e = lBurnIdHex l \<longleftrightarrow>
    eSidechainIdHex e = lSidechainIdHex l \<and> eTransactionHashHex e = lSidechainTxHashHex l \<and> eLogIndex e = lEventIndex l"
proof -
  note e = entry_burnId [OF assms(1)]
  have l: "canonicalLeaf H l" using assms(2) by (rule encodeLeaf_canonical)
  have "eBurnIdHex e = lBurnIdHex l \<longleftrightarrow> entryPreimage e = burnIdPreimage l"
    using e l assms(3) by (auto simp: canonicalLeaf_def)
  also have "\<dots> \<longleftrightarrow> eSidechainIdHex e = lSidechainIdHex l \<and> eTransactionHashHex e = lSidechainTxHashHex l
      \<and> eLogIndex e = lEventIndex l"
    using e l unfolding entryPreimage_def burnIdPreimage_def same_append_eq
    by (intro preimage_inj) (auto simp: canonicalLeaf_def)
  finally show ?thesis .
qed


definition demoTwin :: inventory_entry where
  "demoTwin = demoEntry \<lparr> eTransactionHashHex := toHex (replicate 32 3), eBurnIdHex := lBurnIdHex (demoLeaf 0 5) \<rparr>"

lemma demoTwin_ok: "assertInventoryEntry demoHash demoTwin 12 (toHex (replicate 32 4)) = Inr ()"
proof -
  have "deriveTrustlessBurnIdHex demoHash (toHex (replicate 32 1)) (toHex (replicate 32 3)) (SNum 0)
      = Inr (lBurnIdHex (demoLeaf 0 5))"
    by (subst deriveBurnId_canonical) (simp_all add: hexOf_def demoLeaf_def Let_def)
  moreover have "isHex64 (lBurnIdHex (demoLeaf 0 5))" by (simp add: demoLeaf_def Let_def isHex64_toHex)
  ultimately show ?thesis
    by (simp add: assertInventoryEntry_def assertHex32_def assertNonnegativeSafeInteger_def safe_defs demoTwin_def
        demoEntry_def isHex64_toHex)
qed

theorem inventory_matches_leaf_witness: "eBurnIdHex demoTwin = lBurnIdHex (demoLeaf 0 5)"
proof -
  have "entryPreimage demoTwin = burnIdPreimage (demoLeaf 0 5)"
    by (simp add: entryPreimage_def burnIdPreimage_def demoTwin_def demoEntry_def demoLeaf_def Let_def)
  with inventory_matches_leaf [OF demoTwin_ok demo_encode(1)] show ?thesis
    by (simp add: demoTwin_def demoEntry_def demoLeaf_def Let_def)
qed

end
